(* ===== verification/Prelude.thy ===== *)
theory Prelude
  imports Main "HOL-Library.Word" "HOL-Library.Sublist"
begin

text \<open>
  Shared vocabulary of the development: the machine integers of the Rust sources, saturating
  arithmetic, decimal rendering (\<^verbatim>\<open>format!("{}", n)\<close>), and the string operations of the standard
  library that the sources call.

  A Rust \<^verbatim>\<open>String\<close> is a UTF-8 byte sequence; it is modelled by \<^typ>\<open>string\<close>, whose characters
  are bytes. \<^verbatim>\<open>starts_with\<close>, \<^verbatim>\<open>ends_with\<close>, \<^verbatim>\<open>find\<close> and \<^verbatim>\<open>split\<close> on an ASCII separator agree
  with their byte-level readings on valid UTF-8.
\<close>

named_theorems outcome_simps \<open>equations of the outcome constructors of the reducers\<close>
named_theorems inv_intros \<open>invariant introduction and preservation facts\<close>
named_theorems inv_defs \<open>definitions of the state invariants\<close>

section \<open>Machine integers\<close>

type_synonym u8 = "8 word"
type_synonym u16 = "16 word"
type_synonym u32 = "32 word"
type_synonym u64 = "64 word"

type_synonym bytes = "u8 list"

text \<open>An \<^verbatim>\<open>f64\<close> that is only carried around is kept as its bit pattern.\<close>

type_synonym f64_bits = "64 word"

text \<open>\<^verbatim>\<open>core::time::Duration\<close>, as a number of nanoseconds.\<close>

type_synonym duration = nat

definition dur_from_secs :: "nat \<Rightarrow> duration" where
  "dur_from_secs n = n * 1000000000"

definition dur_as_secs :: "duration \<Rightarrow> u64" where
  "dur_as_secs d = of_nat (d div 1000000000)"

definition saturating_add :: "'a::len word \<Rightarrow> 'a word \<Rightarrow> 'a word" where
  "saturating_add a b = (if unat a + unat b < 2 ^ LENGTH('a) then a + b else - 1)"

lemma unat_word_less_pow: "unat (a :: 'a::len word) < 2 ^ LENGTH('a)"
  by (rule unsigned_less)

lemma unat_saturating_add:
  fixes a b :: "'a::len word"
  shows "unat (saturating_add a b) = min (unat a + unat b) (2 ^ LENGTH('a) - 1)"
proof (cases "unat a + unat b < 2 ^ LENGTH('a)")
  case True
  then have "unat a + unat b \<le> 2 ^ LENGTH('a) - 1" by linarith
  with True show ?thesis
    by (simp add: saturating_add_def unat_word_ariths)
next
  case False
  then have "2 ^ LENGTH('a) - 1 \<le> unat a + unat b" by linarith
  with False show ?thesis
    by (simp add: saturating_add_def unsigned_minus_1_eq_mask mask_eq_exp_minus_1)
qed

lemma saturating_add_ge: "a \<le> saturating_add a (b :: 'a::len word)"
proof -
  have "unat a \<le> 2 ^ LENGTH('a) - 1"
    using unat_word_less_pow [of a] by linarith
  then show ?thesis
    by (simp add: word_le_nat_alt unat_saturating_add)
qed

lemma saturating_add_one_less:
  fixes a :: "'a::len word"
  assumes "unat a + 1 < 2 ^ LENGTH('a)"
  shows "a < saturating_add a 1"
proof -
  have one: "unat (1 :: 'a word) = 1" by simp
  show ?thesis
    using assms unfolding word_less_nat_alt unat_saturating_add one by simp
qed

lemma unat_saturating_add_one_le: "unat (saturating_add a 1) \<le> unat (a :: 'a::len word) + 1"
proof -
  have one: "unat (1 :: 'a word) = 1" by simp
  show ?thesis unfolding unat_saturating_add one by simp
qed

lemma unat_saturating_add_one:
  fixes a :: "'a::len word"
  assumes "unat a + 1 < 2 ^ LENGTH('a)"
  shows "unat (saturating_add a 1) = unat a + 1"
proof -
  have one: "unat (1 :: 'a word) = 1" by simp
  show ?thesis using assms unfolding unat_saturating_add one by simp
qed

lemma saturating_add_one_of_nat:
  fixes a :: "'a::len word"
  assumes "unat a + 1 < 2 ^ LENGTH('a)"
  shows "saturating_add a 1 = of_nat (unat a + 1)"
  using assms by (simp add: saturating_add_def)

section \<open>Decimal rendering\<close>

fun show_nat :: "nat \<Rightarrow> string" where
  "show_nat n = (if n < 10 then [char_of (48 + n)] else show_nat (n div 10) @ [char_of (48 + n mod 10)])"

declare show_nat.simps [simp del]

lemma show_nat_nonempty [simp]: "show_nat n \<noteq> []" "[] \<noteq> show_nat n"
  by (subst show_nat.simps, simp)+

lemma char_of_digit_inj:
  assumes "a < 10" and "b < 10" and eq: "char_of (48 + a :: nat) = char_of (48 + b)"
  shows "a = b"
proof -
  have "of_char (char_of (48 + a :: nat)) = (of_char (char_of (48 + b :: nat)) :: nat)"
    using eq by simp
  with assms(1,2) show ?thesis by simp
qed

lemma show_nat_ge10: "\<not> n < 10 \<Longrightarrow> show_nat n = show_nat (n div 10) @ [char_of (48 + n mod 10)]"
  by (subst show_nat.simps) simp

lemma show_nat_lt10: "n < 10 \<Longrightarrow> show_nat n = [char_of (48 + n)]"
  by (subst show_nat.simps) simp

lemma show_nat_inj: "show_nat m = show_nat n \<Longrightarrow> m = n"
proof (induction m arbitrary: n rule: show_nat.induct)
  case (1 m)
  show ?case
  proof (cases "m < 10")
    case True
    with "1.prems" show ?thesis
      by (cases "n < 10")
        (auto simp: show_nat_lt10 show_nat_ge10 dest: char_of_digit_inj)
  next
    case False
    with "1.prems" have n: "\<not> n < 10"
      by (auto simp: show_nat_lt10 show_nat_ge10)
    from "1.prems" have "show_nat (m div 10) = show_nat (n div 10)"
      and "char_of (48 + m mod 10) = char_of (48 + n mod 10)"
      by (simp_all add: show_nat_ge10 False n)
    then have "m div 10 = n div 10" and "m mod 10 = n mod 10"
      using "1.IH" [OF False] char_of_digit_inj [of "m mod 10" "n mod 10"] by simp_all
    then show ?thesis by (metis div_mult_mod_eq)
  qed
qed

lemma show_nat_eq_iff [simp]: "show_nat m = show_nat n \<longleftrightarrow> m = n"
  using show_nat_inj by blast

section \<open>Strings as UTF-8\<close>

text \<open>
  A Rust \<^verbatim>\<open>str\<close> is its sequence of UTF-8 bytes, a \<^typ>\<open>string\<close>. The encoded code points with the
  Unicode property \<^verbatim>\<open>White_Space\<close>, which \<^verbatim>\<open>str::trim\<close> removes, and \<^verbatim>\<open>s.trim().is_empty()\<close>.
\<close>

definition bytes_of :: "nat list \<Rightarrow> string" where
  "bytes_of ns = map char_of ns"

definition white_space :: "string list" where
  "white_space = map bytes_of
     ([[9], [10], [11], [12], [13], [32], [194, 133], [194, 160], [225, 154, 128]] @
      map (\<lambda>b. [226, 128, b]) [128..<139] @
      [[226, 128, 168], [226, 128, 169], [226, 128, 175], [226, 129, 159], [227, 128, 128]])"

fun drop_prefixes :: "nat \<Rightarrow> string list \<Rightarrow> string \<Rightarrow> string" where
  "drop_prefixes 0 ws s = s"
| "drop_prefixes (Suc n) ws s =
     (case find (\<lambda>w. prefix w s) ws of None \<Rightarrow> s | Some w \<Rightarrow> drop_prefixes n ws (drop (length w) s))"

definition trim_start :: "string \<Rightarrow> string" where
  "trim_start s = drop_prefixes (length s) white_space s"

definition is_blank :: "string \<Rightarrow> bool" where
  "is_blank s \<longleftrightarrow> trim_start s = []"

fun drop_suffixes :: "nat \<Rightarrow> string list \<Rightarrow> string \<Rightarrow> string" where
  "drop_suffixes 0 ws s = s"
| "drop_suffixes (Suc n) ws s =
     (case find (\<lambda>w. suffix w s) ws of
        None \<Rightarrow> s | Some w \<Rightarrow> drop_suffixes n ws (take (length s - length w) s))"

definition trim_end :: "string \<Rightarrow> string" where
  "trim_end s = drop_suffixes (length s) white_space s"

definition trim :: "string \<Rightarrow> string" where
  "trim s = trim_end (trim_start s)"

text \<open>\<^verbatim>\<open>str::split\<close> at a character, \<^verbatim>\<open>str::find\<close> of a string, \<^verbatim>\<open>trim_end_matches\<close> of a character.\<close>

fun split_on :: "char \<Rightarrow> string \<Rightarrow> string list" where
  "split_on c [] = [[]]"
| "split_on c (x # xs) =
     (if x = c then [] # split_on c xs
      else case split_on c xs of [] \<Rightarrow> [[x]] | p # ps \<Rightarrow> (x # p) # ps)"

fun find_sub :: "string \<Rightarrow> string \<Rightarrow> nat option" where
  "find_sub p [] = (if p = [] then Some 0 else None)"
| "find_sub p (x # xs) = (if prefix p (x # xs) then Some 0 else map_option Suc (find_sub p xs))"

definition trim_end_matches :: "char \<Rightarrow> string \<Rightarrow> string" where
  "trim_end_matches c s = rev (dropWhile (\<lambda>x. x = c) (rev s))"

lemma split_on_nonempty [simp]: "split_on c s \<noteq> []"
  by (induction c s rule: split_on.induct) (auto split: list.splits)

lemma split_on_absent: "c \<notin> set s \<Longrightarrow> split_on c s = [s]"
  by (induction c s rule: split_on.induct) auto

lemma split_on_append: "c \<notin> set s \<Longrightarrow> split_on c (s @ c # t) = s # split_on c t"
  by (induction s) auto

lemma trim_end_matches_prefix: "prefix (trim_end_matches c s) s"
  unfolding trim_end_matches_def
  by (metis rev_rev_ident suffix_dropWhile suffix_to_prefix)

lemma trim_end_matches_last: "trim_end_matches c s \<noteq> [] \<Longrightarrow> last (trim_end_matches c s) \<noteq> c"
  unfolding trim_end_matches_def
  by (metis (mono_tags) hd_dropWhile last_rev rev_is_Nil_conv)

lemma trim_end_matches_rest: "s = trim_end_matches c s @ replicate (length s - length (trim_end_matches c s)) c"
proof -
  have "takeWhile (\<lambda>x. x = c) (rev s) = replicate (length (takeWhile (\<lambda>x. x = c) (rev s))) c"
    by (rule replicate_length_same [symmetric]) (auto dest: set_takeWhileD)
  moreover have "rev s = takeWhile (\<lambda>x. x = c) (rev s) @ dropWhile (\<lambda>x. x = c) (rev s)" by simp
  ultimately obtain n where "rev s = replicate n c @ dropWhile (\<lambda>x. x = c) (rev s)" by metis
  then have "s = rev (dropWhile (\<lambda>x. x = c) (rev s)) @ replicate n c"
    by (metis rev_append rev_replicate rev_rev_ident)
  then show ?thesis unfolding trim_end_matches_def
    by (metis add_diff_cancel_left' length_append length_replicate)
qed

lemma find_sub_Some:
  "find_sub p s = Some k \<Longrightarrow> \<exists>x y. s = x @ p @ y \<and> length x = k"
proof (induction p s arbitrary: k rule: find_sub.induct)
  case (2 p x xs)
  show ?case
  proof (cases "prefix p (x # xs)")
    case True
    with "2.prems" show ?thesis by (auto simp: prefix_def)
  next
    case False
    with "2.prems" obtain j where "find_sub p xs = Some j" "k = Suc j" by auto
    with "2.IH" [OF False] obtain u y where "xs = u @ p @ y" "length u = j" by blast
    then show ?thesis
      by (intro exI [of _ "x # u"] exI [of _ y]) (simp add: \<open>k = Suc j\<close>)
  qed
qed (auto split: if_splits)

lemma find_sub_least: "\<exists>k \<le> length x. find_sub p (x @ p @ y) = Some k"
proof (induction x)
  case Nil
  have "prefix p (p @ y)" by simp
  then have "find_sub p (p @ y) = Some 0" by (cases "p @ y") auto
  then show ?case by simp
next
  case (Cons a x)
  then obtain k where "k \<le> length x" "find_sub p (x @ p @ y) = Some k" by blast
  then show ?case by auto
qed

end
