(* ===== verification/Machine.thy ===== *)
theory Machine
  imports Prelude
begin

text \<open>
  Runs of deterministic reducers. Every pure reducer of the program (the prompt-lifecycle core,
  the turn engine, the stream accumulator) is a function from a state and an input to a next
  state with outputs. This theory holds the runs over input sequences, the reachable states, and
  two interfaces stated as locales: a machine with a state invariant, and a machine that
  allocates correlation ids from a saturating counter. The component theories interpret both.
\<close>

section \<open>Runs and reachability\<close>

fun run_next :: "('s \<Rightarrow> 'i \<Rightarrow> 's) \<Rightarrow> 's \<Rightarrow> 'i list \<Rightarrow> 's" where
  "run_next nxt s [] = s"
| "run_next nxt s (i # is) = run_next nxt (nxt s i) is"

fun run_out :: "('s \<Rightarrow> 'i \<Rightarrow> 's) \<Rightarrow> ('s \<Rightarrow> 'i \<Rightarrow> 'o list) \<Rightarrow> 's \<Rightarrow> 'i list \<Rightarrow> 'o list" where
  "run_out nxt out s [] = []"
| "run_out nxt out s (i # is) = out s i @ run_out nxt out (nxt s i) is"

inductive reachable_by :: "('s \<Rightarrow> 'i \<Rightarrow> 's) \<Rightarrow> 's \<Rightarrow> 's \<Rightarrow> bool" for nxt s0 where
  reach_init: "reachable_by nxt s0 s0"
| reach_step: "reachable_by nxt s0 s \<Longrightarrow> reachable_by nxt s0 (nxt s i)"

lemma run_next_append [simp]: "run_next nxt s (xs @ ys) = run_next nxt (run_next nxt s xs) ys"
  by (induction xs arbitrary: s) simp_all

lemma run_out_append [simp]:
  "run_out nxt out s (xs @ ys) = run_out nxt out s xs @ run_out nxt out (run_next nxt s xs) ys"
  by (induction xs arbitrary: s) simp_all

lemma reachable_by_run: "reachable_by nxt s0 s \<Longrightarrow> reachable_by nxt s0 (run_next nxt s is)"
  by (induction "is" arbitrary: s) (auto intro: reach_step)

lemma reachable_by_iff_run: "reachable_by nxt s0 s \<longleftrightarrow> (\<exists>is. s = run_next nxt s0 is)"
proof
  assume "reachable_by nxt s0 s"
  then show "\<exists>is. s = run_next nxt s0 is"
  proof (induction rule: reachable_by.induct)
    case reach_init
    show ?case by (rule exI [of _ "[]"]) simp
  next
    case (reach_step s i)
    then obtain "is" where "s = run_next nxt s0 is" by blast
    then have "nxt s i = run_next nxt s0 (is @ [i])" by simp
    then show ?case by blast
  qed
next
  assume "\<exists>is. s = run_next nxt s0 is"
  then show "reachable_by nxt s0 s"
    by (auto intro: reachable_by_run reachable_by.reach_init)
qed

section \<open>Machines with an invariant\<close>

locale machine =
  fixes nxt :: "'s \<Rightarrow> 'i \<Rightarrow> 's"
    and start :: 's
    and inv :: "'s \<Rightarrow> bool"
  assumes start_inv: "inv start"
    and step_inv: "inv s \<Longrightarrow> inv (nxt s i)"
begin

lemma run_inv: "inv s \<Longrightarrow> inv (run_next nxt s is)"
  by (induction "is" arbitrary: s) (auto intro: step_inv)

lemma reachable_inv: "reachable_by nxt start s \<Longrightarrow> inv s"
  by (induction rule: reachable_by.induct) (auto intro: start_inv step_inv)

end

section \<open>Machines that allocate correlation ids\<close>

text \<open>
  A step either leaves the counter alone and issues no id, or, unless the counter is about to
  saturate, issues exactly one id rendered from the counter and advances it by one.
\<close>

locale id_machine =
  fixes nxt :: "'s \<Rightarrow> 'i \<Rightarrow> 's"
    and ids :: "'s \<Rightarrow> 'i \<Rightarrow> 'id list"
    and ctr :: "'s \<Rightarrow> 'a::len word"
    and mk :: "nat \<Rightarrow> 'id"
  assumes mk_inj: "inj_on mk {..<2 ^ LENGTH('a) - 1}"
    and step_cases: "unat (ctr s) + 1 < 2 ^ LENGTH('a) \<Longrightarrow>
      (ids s i = [] \<and> ctr (nxt s i) = ctr s) \<or>
      (ids s i = [mk (unat (ctr s))] \<and> unat (ctr (nxt s i)) = unat (ctr s) + 1)"
begin

lemma ctr_run:
  assumes "unat (ctr s) + length is < 2 ^ LENGTH('a)"
  shows "unat (ctr s) \<le> unat (ctr (run_next nxt s is)) \<and>
    unat (ctr (run_next nxt s is)) \<le> unat (ctr s) + length is"
  using assms
proof (induction "is" arbitrary: s)
  case Nil
  then show ?case by simp
next
  case (Cons i "is")
  from Cons.prems have "unat (ctr s) + 1 < 2 ^ LENGTH('a)" by simp
  note step = step_cases [OF this, of i]
  with Cons.prems have "unat (ctr (nxt s i)) + length is < 2 ^ LENGTH('a)" by auto
  from Cons.IH [OF this] step show ?case by auto
qed

lemma ids_run_range:
  assumes "unat (ctr s) + length is < 2 ^ LENGTH('a)"
  shows "set (run_out nxt ids s is) \<subseteq> mk ` {unat (ctr s)..<unat (ctr (run_next nxt s is))}"
  using assms
proof (induction "is" arbitrary: s)
  case Nil
  then show ?case by simp
next
  case (Cons i "is")
  from Cons.prems have lt: "unat (ctr s) + 1 < 2 ^ LENGTH('a)" by simp
  note step = step_cases [OF lt, of i]
  with Cons.prems have lt': "unat (ctr (nxt s i)) + length is < 2 ^ LENGTH('a)" by auto
  from Cons.IH [OF lt'] ctr_run [OF lt'] step show ?case by fastforce
qed

lemma ids_run_distinct:
  assumes "unat (ctr s) + length is < 2 ^ LENGTH('a)"
  shows "distinct (run_out nxt ids s is)"
  using assms
proof (induction "is" arbitrary: s)
  case Nil
  then show ?case by simp
next
  case (Cons i "is")
  from Cons.prems have lt: "unat (ctr s) + 1 < 2 ^ LENGTH('a)" by simp
  note step = step_cases [OF lt, of i]
  with Cons.prems have lt': "unat (ctr (nxt s i)) + length is < 2 ^ LENGTH('a)" by auto
  have tail: "distinct (run_out nxt ids (nxt s i) is)" by (rule Cons.IH [OF lt'])
  have rng: "set (run_out nxt ids (nxt s i) is)
      \<subseteq> mk ` {unat (ctr (nxt s i))..<unat (ctr (run_next nxt (nxt s i) is))}"
    by (rule ids_run_range [OF lt'])
  have hi: "unat (ctr (run_next nxt (nxt s i) is)) \<le> 2 ^ LENGTH('a) - 1"
    using ctr_run [OF lt'] lt' by linarith
  from step show ?case
  proof
    assume "ids s i = [] \<and> ctr (nxt s i) = ctr s"
    with tail show ?thesis by simp
  next
    assume new: "ids s i = [mk (unat (ctr s))] \<and> unat (ctr (nxt s i)) = unat (ctr s) + 1"
    have "mk (unat (ctr s)) \<notin> set (run_out nxt ids (nxt s i) is)"
    proof
      assume "mk (unat (ctr s)) \<in> set (run_out nxt ids (nxt s i) is)"
      with rng obtain k where k: "mk (unat (ctr s)) = mk k"
        "unat (ctr (nxt s i)) \<le> k" "k < unat (ctr (run_next nxt (nxt s i) is))"
        by auto
      with hi lt have "unat (ctr s) = k"
        using inj_onD [OF mk_inj k(1)] by simp
      with k(2) new show False by simp
    qed
    with tail new show ?thesis by simp
  qed
qed

end

end
