(* ===== verification/Core.thy ===== *)
theory Core
  imports Machine
begin

text \<open>
  The prompt-lifecycle core, \<^verbatim>\<open>crates/clankers-core\<close>: its state, inputs, effects and errors
  (\<^verbatim>\<open>types.rs\<close>) and the reducer with one definition per handler (\<^verbatim>\<open>reducer.rs\<close>). The assertions
  of the handlers (\<^verbatim>\<open>chars().count() <= len()\<close>, \<^verbatim>\<open>len() <= capacity()\<close>, exhaustive
  \<^verbatim>\<open>matches!\<close>) hold for every Rust value and are not part of the model. The lemmas show the state
  invariant, exactly when an input is accepted, the freshness of effect ids, that a completion
  is accepted at most once, and the follow-up protocol as a refinement of a three-state machine.
\<close>

section \<open>Types\<close>

type_synonym core_effect_id = u64

datatype core_thinking_level = Off | Low | Medium | High | Max

fun thinking_level_next :: "core_thinking_level \<Rightarrow> core_thinking_level" where
  "thinking_level_next Off = Low"
| "thinking_level_next Low = Medium"
| "thinking_level_next Medium = High"
| "thinking_level_next High = Max"
| "thinking_level_next Max = Off"

datatype core_thinking_level_input = Level core_thinking_level | InvalidLevel string

datatype core_failure = Cancelled | FailureMessage string

datatype completion_status = Succeeded | Failed core_failure

record prompt_request =
  pr_text :: string
  pr_image_count :: u32
  pr_originating_follow_up_effect_id :: "core_effect_id option"

record prompt_completed =
  pc_effect_id :: core_effect_id
  pc_completion_status :: completion_status

datatype follow_up_dispatch_status = DispatchAccepted | DispatchRejected core_failure

record follow_up_dispatch_acknowledged =
  fa_effect_id :: core_effect_id
  fa_dispatch_status :: follow_up_dispatch_status

record disabled_tools_update =
  requested_disabled_tools :: "string list"

record tool_filter_applied =
  ta_effect_id :: core_effect_id
  applied_disabled_tool_set :: "string list"

record loop_request =
  lr_loop_id :: string
  lr_prompt_text :: string
  lr_max_iterations :: u32
  lr_break_condition :: "string option"

record loop_follow_up_completed =
  lc_effect_id :: core_effect_id
  lc_completion_status :: completion_status

record active_loop_state =
  loop_id :: string
  loop_prompt_text :: string
  current_iteration :: u32
  max_iterations :: u32
  break_condition :: "string option"

datatype follow_up_source = LoopContinuation | AutoTest

datatype pending_follow_up_stage = AwaitingDispatchAcknowledgement | AwaitingPromptCompletion

record pending_prompt_state =
  pp_effect_id :: core_effect_id
  pp_prompt_text :: string
  pp_image_count :: u32
  pp_originating_follow_up_effect_id :: "core_effect_id option"

record pending_tool_filter_state =
  pt_effect_id :: core_effect_id
  pt_requested_disabled_tools :: "string list"

record pending_follow_up_state =
  pf_effect_id :: core_effect_id
  pf_prompt_text :: string
  pf_source :: follow_up_source
  pf_stage :: pending_follow_up_stage

record post_prompt_evaluation =
  ev_active_loop_state :: "active_loop_state option"
  ev_pending_follow_up_state :: "pending_follow_up_state option"
  ev_auto_test_enabled :: bool
  ev_auto_test_command :: "string option"
  ev_auto_test_in_progress :: bool
  ev_queued_prompt_present :: bool

datatype core_input =
    PromptRequested prompt_request
  | PromptCompleted prompt_completed
  | EvaluatePostPrompt post_prompt_evaluation
  | FollowUpDispatchAcknowledged follow_up_dispatch_acknowledged
  | SetThinkingLevel core_thinking_level_input
  | CycleThinkingLevel
  | SetDisabledTools disabled_tools_update
  | ToolFilterApplied tool_filter_applied
  | StartLoop loop_request
  | StopLoop
  | LoopFollowUpCompleted loop_follow_up_completed

record core_state =
  busy :: bool
  thinking_level :: core_thinking_level
  disabled_tools :: "string list"
  next_effect_id :: core_effect_id
  pending_prompt :: "pending_prompt_state option"
  pending_tool_filter :: "pending_tool_filter_state option"
  pending_follow_up :: "pending_follow_up_state option"
  active_loop :: "active_loop_state option"
  auto_test_enabled :: bool
  auto_test_command :: "string option"
  auto_test_in_progress :: bool

text \<open>\<^verbatim>\<open>CoreState::default()\<close>\<close>

definition core_default :: core_state where
  "core_default = \<lparr>busy = False, thinking_level = Off, disabled_tools = [], next_effect_id = 0,
     pending_prompt = None, pending_tool_filter = None, pending_follow_up = None,
     active_loop = None, auto_test_enabled = False, auto_test_command = None,
     auto_test_in_progress = False\<rparr>"

datatype core_logical_event =
    BusyChanged bool
  | ThinkingLevelChanged core_thinking_level core_thinking_level
  | DisabledToolsChanged "string list"
  | LoopStateChanged "active_loop_state option"

datatype core_effect =
    StartPrompt core_effect_id string u32
  | ReplayQueuedPrompt
  | ApplyThinkingLevel core_thinking_level
  | ApplyToolFilter core_effect_id "string list"
  | EmitLogicalEvent core_logical_event
  | RunLoopFollowUp core_effect_id string follow_up_source

datatype core_error =
    Busy
  | InvalidThinkingLevel string
  | PromptCompletionMismatch core_effect_id
  | FollowUpDispatchMismatch core_effect_id
  | LoopFollowUpMismatch core_effect_id
  | ToolFilterMismatch core_effect_id
  | WrongLifecycleStage core_effect_id
  | OutOfOrderRuntimeResult
  | LoopAlreadyActive
  | LoopNotActive
  | LoopFollowUpStillPending
  | ToolFilterStillPending

datatype core_outcome =
    Transitioned core_state "core_effect list"
  | Rejected core_state core_error

section \<open>The reducer\<close>

definition AUTO_TEST_PROMPT_PREFIX :: string where
  "AUTO_TEST_PROMPT_PREFIX = ''Run `''"

definition AUTO_TEST_PROMPT_SUFFIX :: string where
  "AUTO_TEST_PROMPT_SUFFIX = ''` and fix any failures. Do not ask for confirmation.''"

definition transitioned :: "core_state \<Rightarrow> core_effect list \<Rightarrow> core_outcome" where
  "transitioned next_state effects = Transitioned next_state effects"

definition rejection :: "core_state \<Rightarrow> core_error \<Rightarrow> core_outcome" where
  "rejection state err = Rejected state err"

declare transitioned_def [simp] rejection_def [simp]

definition build_auto_test_prompt :: "string \<Rightarrow> string" where
  "build_auto_test_prompt command = AUTO_TEST_PROMPT_PREFIX @ command @ AUTO_TEST_PROMPT_SUFFIX"

definition allocate_effect_id :: "core_state \<Rightarrow> core_effect_id \<times> core_state" where
  "allocate_effect_id state =
     (let next_id = saturating_add (next_effect_id state) 1
      in (next_id, state\<lparr>next_effect_id := next_id\<rparr>))"

definition has_other_pending_work :: "core_state \<Rightarrow> bool" where
  "has_other_pending_work state \<longleftrightarrow>
     pending_tool_filter state \<noteq> None \<or> pending_follow_up state \<noteq> None"

definition has_pending_work_other_than_tool_filter :: "core_state \<Rightarrow> bool" where
  "has_pending_work_other_than_tool_filter state \<longleftrightarrow>
     pending_prompt state \<noteq> None \<or> pending_follow_up state \<noteq> None"

definition has_pending_work_other_than_follow_up :: "core_state \<Rightarrow> bool" where
  "has_pending_work_other_than_follow_up state \<longleftrightarrow>
     pending_prompt state \<noteq> None \<or> pending_tool_filter state \<noteq> None"

definition is_failed :: "completion_status \<Rightarrow> bool" where
  "is_failed st = (case st of Succeeded \<Rightarrow> False | Failed _ \<Rightarrow> True)"

definition reduce_prompt_requested :: "core_state \<Rightarrow> prompt_request \<Rightarrow> core_outcome" where
  "reduce_prompt_requested state request =
     (if busy state then rejection state Busy
      else
        let (eid, next_state) = allocate_effect_id state;
            next_state = next_state\<lparr>busy := True,
              pending_prompt := Some \<lparr>pp_effect_id = eid, pp_prompt_text = pr_text request,
                pp_image_count = pr_image_count request,
                pp_originating_follow_up_effect_id = pr_originating_follow_up_effect_id request\<rparr>\<rparr>
        in transitioned next_state
             [EmitLogicalEvent (BusyChanged True),
              StartPrompt eid (pr_text request) (pr_image_count request)])"

definition reduce_prompt_completed :: "core_state \<Rightarrow> prompt_completed \<Rightarrow> core_outcome" where
  "reduce_prompt_completed state completed =
     (case pending_prompt state of
        None \<Rightarrow>
          if has_other_pending_work state then rejection state OutOfOrderRuntimeResult
          else rejection state (PromptCompletionMismatch (pc_effect_id completed))
      | Some pending \<Rightarrow>
          if pp_effect_id pending \<noteq> pc_effect_id completed
          then rejection state (PromptCompletionMismatch (pc_effect_id completed))
          else
            let next_state = state\<lparr>busy := False, pending_prompt := None\<rparr>;
                effects = [EmitLogicalEvent (BusyChanged False)]
            in if pp_originating_follow_up_effect_id pending = None
                  \<and> is_failed (pc_completion_status completed)
                  \<and> active_loop next_state \<noteq> None
               then transitioned (next_state\<lparr>active_loop := None, pending_follow_up := None\<rparr>)
                      (effects @ [EmitLogicalEvent (LoopStateChanged None)])
               else transitioned next_state effects)"

definition reduce_post_prompt_evaluation :: "core_state \<Rightarrow> post_prompt_evaluation \<Rightarrow> core_outcome" where
  "reduce_post_prompt_evaluation state evaluation =
     (let next_state = state\<lparr>active_loop := ev_active_loop_state evaluation,
            pending_follow_up := ev_pending_follow_up_state evaluation,
            auto_test_enabled := ev_auto_test_enabled evaluation,
            auto_test_command := ev_auto_test_command evaluation,
            auto_test_in_progress := ev_auto_test_in_progress evaluation\<rparr>;
          effects = (if active_loop state \<noteq> active_loop next_state
                     then [EmitLogicalEvent (LoopStateChanged (active_loop next_state))] else [])
      in if pending_follow_up next_state \<noteq> None then transitioned next_state effects
         else if ev_queued_prompt_present evaluation
              then transitioned next_state (effects @ [ReplayQueuedPrompt])
         else case active_loop next_state of
           Some al \<Rightarrow>
             let ptext = loop_prompt_text al;
                 (eid, next_state) = allocate_effect_id next_state
             in transitioned
                  (next_state\<lparr>pending_follow_up := Some \<lparr>pf_effect_id = eid, pf_prompt_text = ptext,
                     pf_source = LoopContinuation, pf_stage = AwaitingDispatchAcknowledgement\<rparr>\<rparr>)
                  (effects @ [RunLoopFollowUp eid ptext LoopContinuation])
         | None \<Rightarrow>
             (case (auto_test_enabled next_state \<and> \<not> auto_test_in_progress next_state,
                    auto_test_command next_state) of
                (True, Some command) \<Rightarrow>
                  let (eid, next_state) = allocate_effect_id next_state;
                      ptext = build_auto_test_prompt command
                  in transitioned
                       (next_state\<lparr>auto_test_in_progress := True,
                          pending_follow_up := Some \<lparr>pf_effect_id = eid, pf_prompt_text = ptext,
                            pf_source = AutoTest, pf_stage = AwaitingDispatchAcknowledgement\<rparr>\<rparr>)
                       (effects @ [RunLoopFollowUp eid ptext AutoTest])
              | _ \<Rightarrow> transitioned (next_state\<lparr>auto_test_in_progress := False\<rparr>) effects))"

definition reduce_follow_up_dispatch_acknowledged ::
  "core_state \<Rightarrow> follow_up_dispatch_acknowledged \<Rightarrow> core_outcome" where
  "reduce_follow_up_dispatch_acknowledged state acknowledged =
     (case pending_follow_up state of
        None \<Rightarrow>
          if has_pending_work_other_than_follow_up state then rejection state OutOfOrderRuntimeResult
          else rejection state (FollowUpDispatchMismatch (fa_effect_id acknowledged))
      | Some pending \<Rightarrow>
          if pf_effect_id pending \<noteq> fa_effect_id acknowledged
          then rejection state (FollowUpDispatchMismatch (fa_effect_id acknowledged))
          else if pf_stage pending \<noteq> AwaitingDispatchAcknowledgement
          then rejection state (WrongLifecycleStage (fa_effect_id acknowledged))
          else case fa_dispatch_status acknowledged of
            DispatchAccepted \<Rightarrow>
              transitioned (state\<lparr>pending_follow_up :=
                Some (pending\<lparr>pf_stage := AwaitingPromptCompletion\<rparr>)\<rparr>) []
          | DispatchRejected _ \<Rightarrow>
              let source = pf_source pending;
                  next_state = state\<lparr>pending_follow_up := None\<rparr>;
                  next_state = (if source = AutoTest
                                then next_state\<lparr>auto_test_in_progress := False\<rparr> else next_state)
              in if source = LoopContinuation \<and> active_loop next_state \<noteq> None
                 then transitioned (next_state\<lparr>active_loop := None\<rparr>)
                        [EmitLogicalEvent (LoopStateChanged None)]
                 else transitioned next_state [])"

definition reduce_set_thinking_level :: "core_state \<Rightarrow> core_thinking_level_input \<Rightarrow> core_outcome" where
  "reduce_set_thinking_level state requested =
     (case requested of
        InvalidLevel raw \<Rightarrow> rejection state (InvalidThinkingLevel raw)
      | Level level \<Rightarrow>
          let previous = thinking_level state
          in transitioned (state\<lparr>thinking_level := level\<rparr>)
               [ApplyThinkingLevel level, EmitLogicalEvent (ThinkingLevelChanged previous level)])"

definition reduce_cycle_thinking_level :: "core_state \<Rightarrow> core_outcome" where
  "reduce_cycle_thinking_level state =
     reduce_set_thinking_level state (Level (thinking_level_next (thinking_level state)))"

definition reduce_set_disabled_tools :: "core_state \<Rightarrow> disabled_tools_update \<Rightarrow> core_outcome" where
  "reduce_set_disabled_tools state update =
     (if pending_tool_filter state \<noteq> None then rejection state ToolFilterStillPending
      else
        let (eid, next_state) = allocate_effect_id state
        in transitioned
             (next_state\<lparr>disabled_tools := requested_disabled_tools update,
                pending_tool_filter := Some \<lparr>pt_effect_id = eid,
                  pt_requested_disabled_tools = requested_disabled_tools update\<rparr>\<rparr>)
             [ApplyToolFilter eid (requested_disabled_tools update)])"

definition reduce_tool_filter_applied :: "core_state \<Rightarrow> tool_filter_applied \<Rightarrow> core_outcome" where
  "reduce_tool_filter_applied state applied =
     (case pending_tool_filter state of
        None \<Rightarrow>
          if has_pending_work_other_than_tool_filter state then rejection state OutOfOrderRuntimeResult
          else rejection state (ToolFilterMismatch (ta_effect_id applied))
      | Some pending \<Rightarrow>
          if pt_effect_id pending \<noteq> ta_effect_id applied
             \<or> pt_requested_disabled_tools pending \<noteq> applied_disabled_tool_set applied
          then rejection state (ToolFilterMismatch (ta_effect_id applied))
          else transitioned (state\<lparr>pending_tool_filter := None\<rparr>)
                 [EmitLogicalEvent (DisabledToolsChanged (applied_disabled_tool_set applied))])"

definition reduce_start_loop :: "core_state \<Rightarrow> loop_request \<Rightarrow> core_outcome" where
  "reduce_start_loop state request =
     (if pending_follow_up state \<noteq> None then rejection state LoopFollowUpStillPending
      else if active_loop state \<noteq> None then rejection state LoopAlreadyActive
      else
        let al = \<lparr>loop_id = lr_loop_id request, loop_prompt_text = lr_prompt_text request,
              current_iteration = 0, max_iterations = lr_max_iterations request,
              break_condition = lr_break_condition request\<rparr>
        in transitioned (state\<lparr>active_loop := Some al\<rparr>)
             [EmitLogicalEvent (LoopStateChanged (Some al))])"

definition reduce_stop_loop :: "core_state \<Rightarrow> core_outcome" where
  "reduce_stop_loop state =
     (if pending_follow_up state \<noteq> None then rejection state LoopFollowUpStillPending
      else if active_loop state = None then rejection state LoopNotActive
      else transitioned (state\<lparr>active_loop := None\<rparr>)
             [EmitLogicalEvent (LoopStateChanged None)])"

definition reduce_loop_follow_up_completed ::
  "core_state \<Rightarrow> loop_follow_up_completed \<Rightarrow> core_outcome" where
  "reduce_loop_follow_up_completed state completed =
     (case pending_follow_up state of
        None \<Rightarrow>
          if has_pending_work_other_than_follow_up state then rejection state OutOfOrderRuntimeResult
          else rejection state (LoopFollowUpMismatch (lc_effect_id completed))
      | Some pending \<Rightarrow>
          if pf_effect_id pending \<noteq> lc_effect_id completed
          then rejection state (LoopFollowUpMismatch (lc_effect_id completed))
          else if pf_stage pending \<noteq> AwaitingPromptCompletion
          then rejection state (WrongLifecycleStage (lc_effect_id completed))
          else
            let source = pf_source pending;
                next_state = state\<lparr>pending_follow_up := None\<rparr>
            in if is_failed (lc_completion_status completed)
               then
                 let next_state = (if source = AutoTest
                                   then next_state\<lparr>auto_test_in_progress := False\<rparr> else next_state)
                 in if source = LoopContinuation \<and> active_loop next_state \<noteq> None
                    then transitioned (next_state\<lparr>active_loop := None\<rparr>)
                           [EmitLogicalEvent (LoopStateChanged None)]
                    else transitioned next_state []
               else transitioned next_state [])"

fun core_reduce :: "core_state \<Rightarrow> core_input \<Rightarrow> core_outcome" where
  "core_reduce state (PromptRequested request) = reduce_prompt_requested state request"
| "core_reduce state (PromptCompleted completed) = reduce_prompt_completed state completed"
| "core_reduce state (EvaluatePostPrompt evaluation) = reduce_post_prompt_evaluation state evaluation"
| "core_reduce state (FollowUpDispatchAcknowledged acknowledged) =
     reduce_follow_up_dispatch_acknowledged state acknowledged"
| "core_reduce state (SetThinkingLevel requested) = reduce_set_thinking_level state requested"
| "core_reduce state CycleThinkingLevel = reduce_cycle_thinking_level state"
| "core_reduce state (SetDisabledTools update) = reduce_set_disabled_tools state update"
| "core_reduce state (ToolFilterApplied applied) = reduce_tool_filter_applied state applied"
| "core_reduce state (StartLoop request) = reduce_start_loop state request"
| "core_reduce state StopLoop = reduce_stop_loop state"
| "core_reduce state (LoopFollowUpCompleted completed) = reduce_loop_follow_up_completed state completed"

lemmas core_handler_defs =
  reduce_prompt_requested_def reduce_prompt_completed_def reduce_post_prompt_evaluation_def
  reduce_follow_up_dispatch_acknowledged_def reduce_set_thinking_level_def
  reduce_cycle_thinking_level_def reduce_set_disabled_tools_def reduce_tool_filter_applied_def
  reduce_start_loop_def reduce_stop_loop_def reduce_loop_follow_up_completed_def
  allocate_effect_id_def

lemmas core_splits =
  option.splits if_splits bool.splits follow_up_dispatch_status.splits
  core_thinking_level_input.splits

section \<open>Runs of the core\<close>

text \<open>
  The state a host holds after the reducer returned, and the effects it was asked to perform:
  a rejection performs none.
\<close>

definition core_next :: "core_state \<Rightarrow> core_input \<Rightarrow> core_state" where
  "core_next s i = (case core_reduce s i of Transitioned s' _ \<Rightarrow> s' | Rejected s' _ \<Rightarrow> s')"

definition core_effects :: "core_state \<Rightarrow> core_input \<Rightarrow> core_effect list" where
  "core_effects s i = (case core_reduce s i of Transitioned _ es \<Rightarrow> es | Rejected _ _ \<Rightarrow> [])"

fun effect_ids :: "core_effect \<Rightarrow> core_effect_id list" where
  "effect_ids (StartPrompt eid _ _) = [eid]"
| "effect_ids (ApplyToolFilter eid _) = [eid]"
| "effect_ids (RunLoopFollowUp eid _ _) = [eid]"
| "effect_ids _ = []"

definition core_ids :: "core_state \<Rightarrow> core_input \<Rightarrow> core_effect_id list" where
  "core_ids s i = concat (map effect_ids (core_effects s i))"

fun core_accepts :: "core_state \<Rightarrow> core_input \<Rightarrow> bool" where
  "core_accepts s (PromptRequested _) \<longleftrightarrow> \<not> busy s"
| "core_accepts s (PromptCompleted c) \<longleftrightarrow> map_option pp_effect_id (pending_prompt s) = Some (pc_effect_id c)"
| "core_accepts s (EvaluatePostPrompt _) \<longleftrightarrow> True"
| "core_accepts s (FollowUpDispatchAcknowledged a) \<longleftrightarrow>
     map_option (\<lambda>p. (pf_effect_id p, pf_stage p)) (pending_follow_up s) =
       Some (fa_effect_id a, AwaitingDispatchAcknowledgement)"
| "core_accepts s (SetThinkingLevel l) \<longleftrightarrow> (\<exists>x. l = Level x)"
| "core_accepts s CycleThinkingLevel \<longleftrightarrow> True"
| "core_accepts s (SetDisabledTools _) \<longleftrightarrow> pending_tool_filter s = None"
| "core_accepts s (ToolFilterApplied a) \<longleftrightarrow>
     map_option (\<lambda>p. (pt_effect_id p, pt_requested_disabled_tools p)) (pending_tool_filter s) =
       Some (ta_effect_id a, applied_disabled_tool_set a)"
| "core_accepts s (StartLoop _) \<longleftrightarrow> pending_follow_up s = None \<and> active_loop s = None"
| "core_accepts s StopLoop \<longleftrightarrow> pending_follow_up s = None \<and> active_loop s \<noteq> None"
| "core_accepts s (LoopFollowUpCompleted c) \<longleftrightarrow>
     map_option (\<lambda>p. (pf_effect_id p, pf_stage p)) (pending_follow_up s) =
       Some (lc_effect_id c, AwaitingPromptCompletion)"

lemma core_reduce_accepted:
  "core_accepts s i \<Longrightarrow> \<exists>s' es. core_reduce s i = Transitioned s' es"
  by (cases i) (auto simp: core_handler_defs Let_def split: core_splits)

lemma core_reduce_refused: "\<not> core_accepts s i \<Longrightarrow> \<exists>e. core_reduce s i = Rejected s e"
  by (cases i) (auto simp: core_handler_defs Let_def split: core_splits)

lemma core_next_refused: "\<not> core_accepts s i \<Longrightarrow> core_next s i = s \<and> core_effects s i = []"
  using core_reduce_refused [of s i] by (auto simp: core_next_def core_effects_def)

text \<open>
  Every input is either accepted, exactly under the condition
  \<^const>\<open>core_accepts\<close> states, or rejected with the state handed back unchanged; the reducer
  has no third behaviour.
\<close>

lemma core_accept_or_reject:
  "if core_accepts s i then \<exists>s' es. core_reduce s i = Transitioned s' es
   else \<exists>e. core_reduce s i = Rejected s e"
  using core_reduce_accepted core_reduce_refused by simp

section \<open>State invariant\<close>

definition core_inv :: "core_state \<Rightarrow> bool" where
  "core_inv s \<longleftrightarrow>
     busy s = (pending_prompt s \<noteq> None) \<and>
     (case pending_prompt s of None \<Rightarrow> True | Some p \<Rightarrow> pp_effect_id p \<le> next_effect_id s) \<and>
     (case pending_tool_filter s of None \<Rightarrow> True
      | Some p \<Rightarrow> pt_effect_id p \<le> next_effect_id s \<and>
          pt_requested_disabled_tools p = disabled_tools s)"

lemma core_inv_default: "core_inv core_default"
  by (simp add: core_inv_def core_default_def)

lemma core_inv_frame:
  assumes "core_inv s" and "busy t = busy s" and "pending_prompt t = pending_prompt s"
    and "pending_tool_filter t = pending_tool_filter s" and "disabled_tools t = disabled_tools s"
    and "next_effect_id s \<le> next_effect_id t"
  shows "core_inv t"
  using assms by (auto simp: core_inv_def split: option.splits intro: order_trans)

text \<open>The inputs that leave the prompt slot and the tool-filter slot alone.\<close>

fun slot_neutral :: "core_input \<Rightarrow> bool" where
  "slot_neutral (PromptRequested _) \<longleftrightarrow> False"
| "slot_neutral (PromptCompleted _) \<longleftrightarrow> False"
| "slot_neutral (SetDisabledTools _) \<longleftrightarrow> False"
| "slot_neutral (ToolFilterApplied _) \<longleftrightarrow> False"
| "slot_neutral _ \<longleftrightarrow> True"

lemma core_next_frame:
  assumes "slot_neutral i"
  shows "busy (core_next s i) = busy s \<and> pending_prompt (core_next s i) = pending_prompt s \<and>
    pending_tool_filter (core_next s i) = pending_tool_filter s \<and>
    disabled_tools (core_next s i) = disabled_tools s \<and>
    next_effect_id s \<le> next_effect_id (core_next s i)"
  using assms saturating_add_ge [of "next_effect_id s" 1]
  by (cases i)
    (simp_all add: core_next_def core_handler_defs Let_def split: core_splits)

lemma core_inv_step: "core_inv s \<Longrightarrow> core_inv (core_next s i)"
proof (cases "slot_neutral i")
  case True
  assume "core_inv s"
  then show ?thesis
    by (rule core_inv_frame) (use core_next_frame [OF True, of s] in simp_all)
next
  case False
  assume "core_inv s"
  with False saturating_add_ge [of "next_effect_id s" 1] show ?thesis
    by (cases i)
      (auto simp: core_next_def core_inv_def reduce_prompt_requested_def reduce_prompt_completed_def
        reduce_set_disabled_tools_def reduce_tool_filter_applied_def allocate_effect_id_def
        Let_def split: option.splits if_splits intro: order_trans)
qed

interpretation core: machine core_next core_default core_inv
  by unfold_locales (auto intro: core_inv_default core_inv_step)

text \<open>
  In every state reachable from \<^verbatim>\<open>CoreState::default()\<close> the core is busy exactly
  when a prompt is pending, the ids of the pending prompt and of the pending tool filter have
  been handed out, and a pending tool filter carries the disabled tools of the state.
\<close>

lemma core_reachable_inv:
  assumes "reachable_by core_next core_default s"
  shows "core_inv s"
  using assms by (rule core.reachable_inv)

section \<open>Fresh effect ids\<close>

lemma core_ids_cases:
  "(core_ids s i = [] \<and> next_effect_id (core_next s i) = next_effect_id s) \<or>
   (core_ids s i = [saturating_add (next_effect_id s) 1] \<and>
    next_effect_id (core_next s i) = saturating_add (next_effect_id s) 1)"
  by (cases i)
    (auto simp: core_next_def core_ids_def core_effects_def core_handler_defs Let_def
      split: core_splits)

interpretation core_id: id_machine core_next core_ids next_effect_id "\<lambda>n. of_nat (n + 1)"
proof unfold_locales
  show "inj_on (\<lambda>n. of_nat (n + 1) :: u64) {..<2 ^ LENGTH(64) - 1}"
    by (rule inj_onI) (simp add: word_of_nat_eq_iff take_bit_nat_eq_self)
next
  fix s :: core_state and i
  assume "unat (next_effect_id s) + 1 < 2 ^ LENGTH(64)"
  then show "(core_ids s i = [] \<and> next_effect_id (core_next s i) = next_effect_id s) \<or>
    (core_ids s i = [of_nat (unat (next_effect_id s) + 1)] \<and>
     unat (next_effect_id (core_next s i)) = unat (next_effect_id s) + 1)"
    using core_ids_cases [of s i] by (metis saturating_add_one_of_nat unat_saturating_add_one)
qed

text \<open>
  Over any sequence of inputs that cannot exhaust the 64-bit id counter, the effect
  ids the core hands out are pairwise distinct.
\<close>

lemma core_effect_ids_distinct:
  assumes "unat (next_effect_id s) + length is < 2 ^ 64"
  shows "distinct (run_out core_next core_ids s is)"
  using assms core_id.ids_run_distinct [of s "is"] by simp

section \<open>A prompt completes at most once\<close>

text \<open>No prompt pending now or later carries an id up to \<open>k\<close>.\<close>

definition prompt_stale :: "core_effect_id \<Rightarrow> core_state \<Rightarrow> bool" where
  "prompt_stale k s \<longleftrightarrow> k \<le> next_effect_id s \<and>
     (case pending_prompt s of None \<Rightarrow> True | Some p \<Rightarrow> k < pp_effect_id p)"

lemma prompt_stale_step:
  assumes "prompt_stale k s" and "unat (next_effect_id s) + 1 < 2 ^ 64"
  shows "prompt_stale k (core_next s i)"
proof -
  have lt: "next_effect_id s < saturating_add (next_effect_id s) 1"
    using assms(2) by (intro saturating_add_one_less) simp
  show ?thesis
  proof (cases "slot_neutral i")
    case True
    with assms(1) core_next_frame [of i s] show ?thesis
      by (auto simp: prompt_stale_def intro: order_trans)
  next
    case False
    with assms(1) lt show ?thesis
      by (cases i)
        (auto simp: prompt_stale_def core_next_def reduce_prompt_requested_def
          reduce_prompt_completed_def reduce_set_disabled_tools_def reduce_tool_filter_applied_def
          allocate_effect_id_def Let_def split: option.splits if_splits)
  qed
qed

lemma prompt_stale_run:
  assumes "prompt_stale k s" and "unat (next_effect_id s) + length is < 2 ^ 64"
  shows "prompt_stale k (run_next core_next s is)"
  using assms
proof (induction "is" arbitrary: s)
  case Nil
  then show ?case by simp
next
  case (Cons i "is")
  from Cons.prems(2) have "unat (next_effect_id (core_next s i)) + length is < 2 ^ 64"
    using core_id.ctr_run [of s "[i]"] by simp
  with Cons show ?case by (simp add: prompt_stale_step)
qed

lemma prompt_completed_stale:
  assumes "core_inv s" and "core_accepts s (PromptCompleted c)"
  shows "prompt_stale (pc_effect_id c) (core_next s (PromptCompleted c)) \<and>
    next_effect_id (core_next s (PromptCompleted c)) = next_effect_id s"
  using assms
  by (auto simp: prompt_stale_def core_inv_def core_next_def reduce_prompt_completed_def Let_def)

text \<open>
  Once the completion of a prompt is accepted, no later input sequence (short of
  exhausting the id counter) makes the core accept a completion with the same effect id again:
  late and duplicated completions are refused.
\<close>

lemma prompt_completion_accepted_once:
  assumes "core_inv s" and "core_accepts s (PromptCompleted c)"
    and "unat (next_effect_id s) + length is < 2 ^ 64"
    and "pc_effect_id d = pc_effect_id c"
  shows "\<not> core_accepts (run_next core_next (core_next s (PromptCompleted c)) is) (PromptCompleted d)"
  using prompt_stale_run [of "pc_effect_id c" "core_next s (PromptCompleted c)" "is"]
    prompt_completed_stale [OF assms(1,2)] assms(3,4)
  by (auto simp: prompt_stale_def)


section \<open>The follow-up protocol\<close>

text \<open>
  The abstract protocol of one follow-up prompt, with the events that drive it: an evaluation may
  schedule one, the host acknowledges or refuses its dispatch, and an acknowledged follow-up
  finishes. Acknowledgements and completions carry the id they are meant for; one that does not fit
  the phase and the id changes nothing. A user prompt that fails while a loop is active aborts the
  follow-up in any phase.
\<close>

datatype follow_up_phase =
    NoFollowUp
  | Dispatched core_effect_id follow_up_source
  | Running core_effect_id follow_up_source

datatype follow_up_event =
    EvaluateE
  | AcknowledgeE core_effect_id bool
  | CompleteE core_effect_id
  | AbortE
  | OtherE

inductive follow_up_step :: "follow_up_phase \<Rightarrow> follow_up_event \<Rightarrow> follow_up_phase \<Rightarrow> bool" where
  other: "follow_up_step x OtherE x"
| evaluate: "follow_up_step x EvaluateE x"
| schedule: "follow_up_step NoFollowUp EvaluateE (Dispatched eid src)"
| acknowledge: "follow_up_step (Dispatched eid src) (AcknowledgeE eid True) (Running eid src)"
| refuse: "follow_up_step (Dispatched eid src) (AcknowledgeE eid False) NoFollowUp"
| stale_acknowledgement: "(\<And>src. x \<noteq> Dispatched eid src) \<Longrightarrow> follow_up_step x (AcknowledgeE eid b) x"
| finish: "follow_up_step (Running eid src) (CompleteE eid) NoFollowUp"
| stale_completion: "(\<And>src. x \<noteq> Running eid src) \<Longrightarrow> follow_up_step x (CompleteE eid) x"
| abort: "follow_up_step x AbortE NoFollowUp"

inductive_simps follow_up_step_simps:
  "follow_up_step x OtherE y" "follow_up_step x EvaluateE y" "follow_up_step x AbortE y"
  "follow_up_step x (AcknowledgeE eid b) y" "follow_up_step x (CompleteE eid) y"

definition follow_up_phase_of :: "core_state \<Rightarrow> follow_up_phase" where
  "follow_up_phase_of s = (case pending_follow_up s of
      None \<Rightarrow> NoFollowUp
    | Some p \<Rightarrow> (case pf_stage p of
          AwaitingDispatchAcknowledgement \<Rightarrow> Dispatched (pf_effect_id p) (pf_source p)
        | AwaitingPromptCompletion \<Rightarrow> Running (pf_effect_id p) (pf_source p)))"

fun aborts_follow_up :: "core_state \<Rightarrow> prompt_completed \<Rightarrow> bool" where
  "aborts_follow_up s c \<longleftrightarrow> (case pending_prompt s of
     None \<Rightarrow> False
   | Some p \<Rightarrow> pp_effect_id p = pc_effect_id c \<and> pp_originating_follow_up_effect_id p = None \<and>
       is_failed (pc_completion_status c) \<and> active_loop s \<noteq> None)"

fun follow_up_event_of :: "core_state \<Rightarrow> core_input \<Rightarrow> follow_up_event" where
  "follow_up_event_of s (EvaluatePostPrompt _) = EvaluateE"
| "follow_up_event_of s (FollowUpDispatchAcknowledged a) =
     AcknowledgeE (fa_effect_id a) (fa_dispatch_status a = DispatchAccepted)"
| "follow_up_event_of s (LoopFollowUpCompleted c) = CompleteE (lc_effect_id c)"
| "follow_up_event_of s (PromptCompleted c) = (if aborts_follow_up s c then AbortE else OtherE)"
| "follow_up_event_of s _ = OtherE"

text \<open>
  A host that reports the core's own follow-up slot back in \<^verbatim>\<open>EvaluatePostPrompt\<close> (the slot is
  part of the evaluation's payload).
\<close>

fun echoes_follow_up :: "core_state \<Rightarrow> core_input \<Rightarrow> bool" where
  "echoes_follow_up s (EvaluatePostPrompt e) \<longleftrightarrow> ev_pending_follow_up_state e = pending_follow_up s"
| "echoes_follow_up s _ \<longleftrightarrow> True"

lemma follow_up_phase_cong:
  "pending_follow_up t = pending_follow_up s \<Longrightarrow> follow_up_phase_of t = follow_up_phase_of s"
  by (simp add: follow_up_phase_of_def)

lemma evaluation_follow_up_cases:
  assumes "ev_pending_follow_up_state e = pending_follow_up s"
  shows "pending_follow_up (core_next s (EvaluatePostPrompt e)) = pending_follow_up s \<or>
    (pending_follow_up s = None \<and> (\<exists>p. pending_follow_up (core_next s (EvaluatePostPrompt e)) = Some p
       \<and> pf_stage p = AwaitingDispatchAcknowledgement))"
  using assms
  by (auto simp: core_next_def reduce_post_prompt_evaluation_def allocate_effect_id_def Let_def
      split: option.splits bool.splits)

text \<open>
  C23 (refinement). With the abstraction \<^const>\<open>follow_up_phase_of\<close>, every step of the core whose
  evaluation input echoes the core's follow-up slot is the step of the abstract follow-up protocol
  for the event the input stands for: a follow-up is never replaced by another one, runs once its
  dispatch is acknowledged under its own id and not before, keeps its id and source for its whole
  life, and ends by its own completion, refusal or an abort only.
\<close>

theorem core_refines_follow_up_protocol:
  assumes "echoes_follow_up s i"
  shows "follow_up_step (follow_up_phase_of s) (follow_up_event_of s i) (follow_up_phase_of (core_next s i))"
proof (cases i)
  case (EvaluatePostPrompt e)
  with assms evaluation_follow_up_cases [of e s] show ?thesis
    by (auto simp: follow_up_phase_of_def intro: follow_up_step.intros)
qed (auto simp: follow_up_phase_of_def core_next_def core_handler_defs Let_def
      follow_up_step_simps intro: follow_up_step.intros
      split: core_splits pending_follow_up_stage.splits)

theorem core_refines_follow_up_protocol_witness:
  "follow_up_step (follow_up_phase_of core_default) EvaluateE
     (follow_up_phase_of (core_next core_default (EvaluatePostPrompt
       \<lparr>ev_active_loop_state = None, ev_pending_follow_up_state = None, ev_auto_test_enabled = True,
        ev_auto_test_command = Some ''cargo test'', ev_auto_test_in_progress = False,
        ev_queued_prompt_present = False\<rparr>)))"
  using core_refines_follow_up_protocol [of core_default "EvaluatePostPrompt
    \<lparr>ev_active_loop_state = None, ev_pending_follow_up_state = None, ev_auto_test_enabled = True,
     ev_auto_test_command = Some ''cargo test'', ev_auto_test_in_progress = False,
     ev_queued_prompt_present = False\<rparr>"]
  by (simp add: core_default_def)

section \<open>Post-prompt scheduling\<close>

fun dispatches :: "core_effect \<Rightarrow> bool" where
  "dispatches ReplayQueuedPrompt \<longleftrightarrow> True"
| "dispatches (RunLoopFollowUp _ _ _) \<longleftrightarrow> True"
| "dispatches _ \<longleftrightarrow> False"

definition new_follow_up :: "core_effect_id \<Rightarrow> string \<Rightarrow> follow_up_source \<Rightarrow> pending_follow_up_state" where
  "new_follow_up eid txt src = \<lparr>pf_effect_id = eid, pf_prompt_text = txt, pf_source = src,
     pf_stage = AwaitingDispatchAcknowledgement\<rparr>"

text \<open>
  After a prompt at most one piece of work is dispatched. A loop continuation is
  dispatched only for the active loop, with its prompt; an automatic test run only when no loop
  is active, testing is enabled with a command and none is in progress; neither while a follow-up
  is pending or a queued prompt waits. Whatever follow-up is dispatched is recorded as pending
  under the same id, prompt and source.
\<close>

lemma post_prompt_dispatch_safe:
  assumes "RunLoopFollowUp eid txt src \<in> set (core_effects s (EvaluatePostPrompt e))"
  shows "length (filter dispatches (core_effects s (EvaluatePostPrompt e))) = 1
    \<and> ev_pending_follow_up_state e = None \<and> \<not> ev_queued_prompt_present e
    \<and> pending_follow_up (core_next s (EvaluatePostPrompt e)) = Some (new_follow_up eid txt src)
    \<and> (case src of
         LoopContinuation \<Rightarrow> map_option loop_prompt_text (ev_active_loop_state e) = Some txt
       | AutoTest \<Rightarrow> ev_active_loop_state e = None \<and> ev_auto_test_enabled e
           \<and> \<not> ev_auto_test_in_progress e
           \<and> map_option build_auto_test_prompt (ev_auto_test_command e) = Some txt
           \<and> auto_test_in_progress (core_next s (EvaluatePostPrompt e)))"
  using assms
  by (auto simp: core_next_def core_effects_def reduce_post_prompt_evaluation_def new_follow_up_def
      allocate_effect_id_def Let_def split: option.splits bool.splits if_splits)

end
