(* ===== verification/Message.thy ===== *)
theory Message
  imports Prelude
begin

text \<open>
  The message data of \<^verbatim>\<open>crates/clanker-message\<close> that the engine and its host exchange. A
  \<^verbatim>\<open>serde_json::Value\<close> (tool inputs and schemas) is a value of a library type that the modelled code
  only carries; it is the type parameter \<open>'v\<close>.
\<close>

type_synonym message_id = string

datatype image_source = Base64 string string | Url string

datatype 'v content =
    ContentText string
  | ContentImage image_source
  | ContentThinking string string
  | ContentToolUse string string 'v
  | ContentToolResult string "'v content list" "bool option"

datatype stop_reason = Stop | StopToolUse | MaxTokens

record usage =
  input_tokens :: u64
  output_tokens :: u64
  cache_creation_input_tokens :: u64
  cache_read_input_tokens :: u64

record thinking_config =
  tc_enabled :: bool
  tc_budget_tokens :: "u64 option"

record 'v tool_definition =
  td_name :: string
  td_description :: string
  td_input_schema :: 'v

end
