(* ===== verification/Engine.thy ===== *)
theory Engine
  imports Machine Message "HOL-Library.Multiset"
begin

text \<open>
  The turn engine, \<^verbatim>\<open>crates/clankers-engine/src/lib.rs\<close>: the pure reducer that plans model requests,
  tool calls, retries and the end of a turn. One definition per handler; \<^verbatim>\<open>debug_assert\<close>s restate
  the guards before them. The lemmas show the phase invariant, that rejections change nothing,
  that a finished turn stays finished, the model-request budget with retries, the freshness of
  request ids, that tool results enter the history in call order whatever the order of their
  completion, and what happens when a model repeats a tool-call id.
\<close>

section \<open>Types\<close>

definition ENGINE_CONTRACT_VERSION :: u32 where "ENGINE_CONTRACT_VERSION = 1"
definition ENGINE_MODEL_REQUEST_PREFIX :: string where "ENGINE_MODEL_REQUEST_PREFIX = ''model-request''"
definition ENGINE_INITIAL_MODEL_REQUEST_SEQUENCE :: u32 where "ENGINE_INITIAL_MODEL_REQUEST_SEQUENCE = 1"
definition ENGINE_CORRELATION_SEQUENCE_STEP :: u32 where "ENGINE_CORRELATION_SEQUENCE_STEP = 1"
definition ENGINE_SUBMIT_PROMPT_NOTICE :: string where
  "ENGINE_SUBMIT_PROMPT_NOTICE = ''engine queued initial model request''"
definition ENGINE_DEFAULT_RETRY_DELAYS :: "duration list" where
  "ENGINE_DEFAULT_RETRY_DELAYS = [dur_from_secs 1, dur_from_secs 4]"
definition ENGINE_MIN_MODEL_REQUEST_SLOT_BUDGET :: u32 where "ENGINE_MIN_MODEL_REQUEST_SLOT_BUDGET = 1"
definition ENGINE_MODEL_REQUEST_SLOT_COST :: u32 where "ENGINE_MODEL_REQUEST_SLOT_COST = 1"
definition ENGINE_BUDGET_EXHAUSTED_NOTICE :: string where
  "ENGINE_BUDGET_EXHAUSTED_NOTICE = ''engine model request slot budget exhausted''"

lemmas engine_consts =
  ENGINE_CONTRACT_VERSION_def ENGINE_MODEL_REQUEST_PREFIX_def
  ENGINE_INITIAL_MODEL_REQUEST_SEQUENCE_def ENGINE_CORRELATION_SEQUENCE_STEP_def
  ENGINE_SUBMIT_PROMPT_NOTICE_def ENGINE_DEFAULT_RETRY_DELAYS_def
  ENGINE_MIN_MODEL_REQUEST_SLOT_BUDGET_def ENGINE_MODEL_REQUEST_SLOT_COST_def
  ENGINE_BUDGET_EXHAUSTED_NOTICE_def

type_synonym correlation_id = string

datatype engine_turn_phase = Idle | WaitingForModel | WaitingForRetry | WaitingForTools | Finished

datatype engine_message_role = User | Assistant | Tool

record 'v engine_message =
  em_role :: engine_message_role
  em_content :: "'v content list"

record engine_retry_policy =
  retry_delays :: "duration list"

definition default_retry_policy :: engine_retry_policy where
  "default_retry_policy = \<lparr>retry_delays = ENGINE_DEFAULT_RETRY_DELAYS\<rparr>"

record 'v engine_request_template =
  rt_model :: string
  rt_system_prompt :: string
  rt_max_tokens :: "u64 option"
  rt_temperature :: "f64_bits option"
  rt_thinking :: "thinking_config option"
  rt_tools :: "'v tool_definition list"
  rt_no_cache :: bool
  rt_cache_ttl :: "string option"
  rt_session_id :: string
  rt_retry_policy :: engine_retry_policy

record 'v engine_model_request =
  mr_request_id :: correlation_id
  mr_model :: string
  mr_messages :: "'v engine_message list"
  mr_system_prompt :: string
  mr_max_tokens :: "u64 option"
  mr_temperature :: "f64_bits option"
  mr_thinking :: "thinking_config option"
  mr_tools :: "'v tool_definition list"
  mr_no_cache :: bool
  mr_cache_ttl :: "string option"
  mr_session_id :: string

record 'v engine_model_response =
  rs_output :: "'v content list"
  rs_stop_reason :: stop_reason

record engine_terminal_failure =
  tf_message :: string
  tf_status :: "u16 option"
  tf_retryable :: bool

record 'v engine_tool_call =
  tcall_id :: correlation_id
  tcall_name :: string
  tcall_input :: 'v

record 'v engine_buffered_tool_result =
  br_call_id :: correlation_id
  br_content :: "'v content list"
  br_is_error :: bool

datatype engine_event =
    EvBusyChanged bool
  | EvNotice string
  | EvTurnFinished stop_reason

datatype 'v engine_effect =
    RequestModel "'v engine_model_request"
  | ExecuteTool "'v engine_tool_call"
  | ScheduleRetry correlation_id duration
  | EmitEvent engine_event

record 'v engine_prompt_submission =
  sub_messages :: "'v engine_message list"
  sub_model :: string
  sub_system_prompt :: string
  sub_max_tokens :: "u64 option"
  sub_temperature :: "f64_bits option"
  sub_thinking :: "thinking_config option"
  sub_tools :: "'v tool_definition list"
  sub_no_cache :: bool
  sub_cache_ttl :: "string option"
  sub_session_id :: string
  sub_model_request_slot_budget :: u32

datatype 'v engine_input =
    SubmitUserPrompt "'v engine_prompt_submission"
  | ModelCompleted correlation_id "'v engine_model_response"
  | ModelFailed correlation_id engine_terminal_failure
  | RetryReady correlation_id
  | ToolCompleted correlation_id "'v content list"
  | ToolFailed correlation_id string "'v content list"
  | CancelTurn string

datatype engine_rejection = EngineBusy | CorrelationMismatch | InvalidPhase | MissingToolCall | InvalidBudget

record 'v engine_state =
  contract_version :: u32
  phase :: engine_turn_phase
  messages :: "'v engine_message list"
  request_template :: "'v engine_request_template option"
  pending_model_request :: "correlation_id option"
  next_model_request_sequence :: u32
  pending_tool_calls :: "correlation_id list"
  buffered_tool_results :: "'v engine_buffered_tool_result list"
  retry_attempts :: u32
  slot_budget :: u32
  slots_used :: u32

record 'v engine_outcome =
  next_state :: "'v engine_state"
  effects :: "'v engine_effect list"
  rejection_of :: "engine_rejection option"
  terminal_failure :: "engine_terminal_failure option"

definition engine_new :: "'v engine_state" where
  "engine_new = \<lparr>contract_version = ENGINE_CONTRACT_VERSION, phase = Idle, messages = [],
     request_template = None, pending_model_request = None,
     next_model_request_sequence = ENGINE_INITIAL_MODEL_REQUEST_SEQUENCE,
     pending_tool_calls = [], buffered_tool_results = [], retry_attempts = 0,
     slot_budget = 0, slots_used = 0\<rparr>"

fun event_stop_reason :: "engine_event \<Rightarrow> stop_reason option" where
  "event_stop_reason (EvTurnFinished r) = Some r"
| "event_stop_reason _ = None"

fun effect_stop_reason :: "'v engine_effect \<Rightarrow> stop_reason option" where
  "effect_stop_reason (EmitEvent (EvTurnFinished r)) = Some r"
| "effect_stop_reason _ = None"

section \<open>The reducer\<close>

definition rejected_outcome :: "'v engine_state \<Rightarrow> engine_rejection \<Rightarrow> 'v engine_outcome" where
  "rejected_outcome state rej =
     \<lparr>next_state = state, effects = [], rejection_of = Some rej, terminal_failure = None\<rparr>"

definition mint_model_request_id :: "u32 \<Rightarrow> correlation_id \<times> u32" where
  "mint_model_request_id seqno =
     (ENGINE_MODEL_REQUEST_PREFIX @ ''-'' @ show_nat (unat seqno),
      saturating_add seqno ENGINE_CORRELATION_SEQUENCE_STEP)"

definition extract_tool_calls :: "'v content list \<Rightarrow> 'v engine_tool_call list" where
  "extract_tool_calls output = List.map_filter
     (\<lambda>c. case c of ContentToolUse i n v \<Rightarrow> Some \<lparr>tcall_id = i, tcall_name = n, tcall_input = v\<rparr>
           | _ \<Rightarrow> None) output"

definition buffered_tool_result_to_message :: "'v engine_buffered_tool_result \<Rightarrow> 'v engine_message" where
  "buffered_tool_result_to_message b = \<lparr>em_role = Tool, em_content =
     [ContentToolResult (br_call_id b) (br_content b) (if br_is_error b then Some True else None)]\<rparr>"

definition build_model_request ::
  "'v engine_request_template \<Rightarrow> 'v engine_message list \<Rightarrow> correlation_id \<Rightarrow> 'v engine_model_request" where
  "build_model_request t msgs rid =
     \<lparr>mr_request_id = rid, mr_model = rt_model t, mr_messages = msgs,
      mr_system_prompt = rt_system_prompt t, mr_max_tokens = rt_max_tokens t,
      mr_temperature = rt_temperature t, mr_thinking = rt_thinking t, mr_tools = rt_tools t,
      mr_no_cache = rt_no_cache t, mr_cache_ttl = rt_cache_ttl t, mr_session_id = rt_session_id t\<rparr>"

definition terminal_state_with_messages :: "'v engine_state \<Rightarrow> 'v engine_message list \<Rightarrow> 'v engine_state" where
  "terminal_state_with_messages state msgs =
     \<lparr>contract_version = contract_version state, phase = Finished, messages = msgs,
      request_template = None, pending_model_request = None,
      next_model_request_sequence = next_model_request_sequence state,
      pending_tool_calls = [], buffered_tool_results = [], retry_attempts = 0,
      slot_budget = slot_budget state, slots_used = slots_used state\<rparr>"

definition terminal_success_outcome ::
  "'v engine_state \<Rightarrow> 'v engine_message list \<Rightarrow> stop_reason \<Rightarrow> 'v engine_outcome" where
  "terminal_success_outcome state msgs stop =
     \<lparr>next_state = terminal_state_with_messages state msgs,
      effects = [EmitEvent (EvBusyChanged False), EmitEvent (EvTurnFinished stop)],
      rejection_of = None, terminal_failure = None\<rparr>"

definition terminal_notice_outcome ::
  "'v engine_state \<Rightarrow> 'v engine_message list \<Rightarrow> string \<Rightarrow> stop_reason \<Rightarrow> 'v engine_outcome" where
  "terminal_notice_outcome state msgs notice stop =
     \<lparr>next_state = terminal_state_with_messages state msgs,
      effects = [EmitEvent (EvBusyChanged False), EmitEvent (EvNotice notice),
                 EmitEvent (EvTurnFinished stop)],
      rejection_of = None, terminal_failure = None\<rparr>"

definition terminal_failure_outcome :: "'v engine_state \<Rightarrow> engine_terminal_failure \<Rightarrow> 'v engine_outcome" where
  "terminal_failure_outcome state failure =
     \<lparr>next_state = terminal_state_with_messages state (messages state),
      effects = [EmitEvent (EvBusyChanged False), EmitEvent (EvNotice (tf_message failure)),
                 EmitEvent (EvTurnFinished Stop)],
      rejection_of = None, terminal_failure = Some failure\<rparr>"

definition apply_submit_user_prompt ::
  "'v engine_state \<Rightarrow> 'v engine_prompt_submission \<Rightarrow> 'v engine_outcome" where
  "apply_submit_user_prompt state submission =
     (if phase state \<noteq> Idle \<or> pending_model_request state \<noteq> None
      then rejected_outcome state EngineBusy
      else if sub_model_request_slot_budget submission < ENGINE_MIN_MODEL_REQUEST_SLOT_BUDGET
      then rejected_outcome state InvalidBudget
      else
        let template = \<lparr>rt_model = sub_model submission, rt_system_prompt = sub_system_prompt submission,
              rt_max_tokens = sub_max_tokens submission, rt_temperature = sub_temperature submission,
              rt_thinking = sub_thinking submission, rt_tools = sub_tools submission,
              rt_no_cache = sub_no_cache submission, rt_cache_ttl = sub_cache_ttl submission,
              rt_session_id = sub_session_id submission, rt_retry_policy = default_retry_policy\<rparr>;
            canonical_messages = sub_messages submission;
            (rid, next_seq) = mint_model_request_id (next_model_request_sequence state);
            model_request = build_model_request template canonical_messages rid
        in \<lparr>next_state = \<lparr>contract_version = contract_version state, phase = WaitingForModel,
              messages = canonical_messages, request_template = Some template,
              pending_model_request = Some rid, next_model_request_sequence = next_seq,
              pending_tool_calls = [], buffered_tool_results = [], retry_attempts = 0,
              slot_budget = sub_model_request_slot_budget submission,
              slots_used = ENGINE_MODEL_REQUEST_SLOT_COST\<rparr>,
            effects = [EmitEvent (EvBusyChanged True), EmitEvent (EvNotice ENGINE_SUBMIT_PROMPT_NOTICE),
                       RequestModel model_request],
            rejection_of = None, terminal_failure = None\<rparr>)"

definition apply_tool_use_model_completion ::
  "'v engine_state \<Rightarrow> 'v engine_message list \<Rightarrow> 'v content list \<Rightarrow> 'v engine_outcome" where
  "apply_tool_use_model_completion state next_messages output =
     (let tool_calls = extract_tool_calls output
      in if tool_calls = [] then rejected_outcome state MissingToolCall
         else \<lparr>next_state = \<lparr>contract_version = contract_version state, phase = WaitingForTools,
                messages = next_messages, request_template = request_template state,
                pending_model_request = None,
                next_model_request_sequence = next_model_request_sequence state,
                pending_tool_calls = map tcall_id tool_calls, buffered_tool_results = [],
                retry_attempts = 0, slot_budget = slot_budget state, slots_used = slots_used state\<rparr>,
               effects = map ExecuteTool tool_calls, rejection_of = None, terminal_failure = None\<rparr>)"

definition apply_model_completion ::
  "'v engine_state \<Rightarrow> correlation_id \<Rightarrow> 'v engine_model_response \<Rightarrow> 'v engine_outcome" where
  "apply_model_completion state rid response =
     (if phase state \<noteq> WaitingForModel then rejected_outcome state InvalidPhase
      else case pending_model_request state of
        None \<Rightarrow> rejected_outcome state InvalidPhase
      | Some pending \<Rightarrow>
          if pending \<noteq> rid then rejected_outcome state CorrelationMismatch
          else
            let next_messages = messages state @ [\<lparr>em_role = Assistant, em_content = rs_output response\<rparr>]
            in case rs_stop_reason response of
                 StopToolUse \<Rightarrow> apply_tool_use_model_completion state next_messages (rs_output response)
               | MaxTokens \<Rightarrow> terminal_success_outcome state next_messages MaxTokens
               | r \<Rightarrow> terminal_success_outcome state next_messages r)"

definition retry_wait_feedback_rejection :: "'v engine_state \<Rightarrow> correlation_id \<Rightarrow> 'v engine_outcome" where
  "retry_wait_feedback_rejection state rid =
     (case pending_model_request state of
        None \<Rightarrow> rejected_outcome state InvalidPhase
      | Some pending \<Rightarrow>
          if pending \<noteq> rid then rejected_outcome state CorrelationMismatch
          else rejected_outcome state InvalidPhase)"

definition retry_delay_for_attempt :: "'v engine_state \<Rightarrow> duration option" where
  "retry_delay_for_attempt state =
     (case request_template state of
        None \<Rightarrow> None
      | Some t \<Rightarrow>
          let delays = retry_delays (rt_retry_policy t); idx = unat (retry_attempts state)
          in if idx < length delays then Some (delays ! idx) else None)"

definition apply_model_failed ::
  "'v engine_state \<Rightarrow> correlation_id \<Rightarrow> engine_terminal_failure \<Rightarrow> 'v engine_outcome" where
  "apply_model_failed state rid failure =
     (if phase state = WaitingForRetry then retry_wait_feedback_rejection state rid
      else if phase state \<noteq> WaitingForModel then rejected_outcome state InvalidPhase
      else case pending_model_request state of
        None \<Rightarrow> rejected_outcome state InvalidPhase
      | Some pending \<Rightarrow>
          if pending \<noteq> rid then rejected_outcome state CorrelationMismatch
          else case (tf_retryable failure, retry_delay_for_attempt state) of
            (True, Some delay) \<Rightarrow>
              \<lparr>next_state = \<lparr>contract_version = contract_version state, phase = WaitingForRetry,
                 messages = messages state, request_template = request_template state,
                 pending_model_request = Some rid,
                 next_model_request_sequence = next_model_request_sequence state,
                 pending_tool_calls = [], buffered_tool_results = [],
                 retry_attempts = saturating_add (retry_attempts state) 1,
                 slot_budget = slot_budget state, slots_used = slots_used state\<rparr>,
               effects = [ScheduleRetry rid delay], rejection_of = None, terminal_failure = None\<rparr>
          | _ \<Rightarrow> terminal_failure_outcome state failure)"

definition apply_retry_ready :: "'v engine_state \<Rightarrow> correlation_id \<Rightarrow> 'v engine_outcome" where
  "apply_retry_ready state rid =
     (if phase state \<noteq> WaitingForRetry then rejected_outcome state InvalidPhase
      else case pending_model_request state of
        None \<Rightarrow> rejected_outcome state InvalidPhase
      | Some pending \<Rightarrow>
          if pending \<noteq> rid then rejected_outcome state CorrelationMismatch
          else case request_template state of
            None \<Rightarrow> rejected_outcome state InvalidPhase
          | Some t \<Rightarrow>
              \<lparr>next_state = \<lparr>contract_version = contract_version state, phase = WaitingForModel,
                 messages = messages state, request_template = request_template state,
                 pending_model_request = Some rid,
                 next_model_request_sequence = next_model_request_sequence state,
                 pending_tool_calls = [], buffered_tool_results = [],
                 retry_attempts = retry_attempts state,
                 slot_budget = slot_budget state, slots_used = slots_used state\<rparr>,
               effects = [RequestModel (build_model_request t (messages state) rid)],
               rejection_of = None, terminal_failure = None\<rparr>)"

text \<open>The loop over the pending calls: \<^term>\<open>None\<close> is its early return, a call without result.\<close>

fun append_tool_messages ::
  "correlation_id list \<Rightarrow> 'v engine_buffered_tool_result list \<Rightarrow> 'v engine_message list \<Rightarrow> 'v engine_message list option" where
  "append_tool_messages [] buf msgs = Some msgs"
| "append_tool_messages (cid # cids) buf msgs =
     (case find (\<lambda>b. br_call_id b = cid) buf of
        None \<Rightarrow> None
      | Some b \<Rightarrow> append_tool_messages cids buf (msgs @ [buffered_tool_result_to_message b]))"

definition apply_tool_feedback ::
  "'v engine_state \<Rightarrow> correlation_id \<Rightarrow> 'v content list \<Rightarrow> bool \<Rightarrow> 'v engine_outcome" where
  "apply_tool_feedback state cid result is_error =
     (if phase state \<noteq> WaitingForTools then rejected_outcome state InvalidPhase
      else if cid \<notin> set (pending_tool_calls state) then rejected_outcome state CorrelationMismatch
      else if cid \<in> br_call_id ` set (buffered_tool_results state)
      then rejected_outcome state CorrelationMismatch
      else
        let buf = buffered_tool_results state @
              [\<lparr>br_call_id = cid, br_content = result, br_is_error = is_error\<rparr>]
        in if length buf < length (pending_tool_calls state)
           then \<lparr>next_state = \<lparr>contract_version = contract_version state, phase = WaitingForTools,
                   messages = messages state, request_template = request_template state,
                   pending_model_request = None,
                   next_model_request_sequence = next_model_request_sequence state,
                   pending_tool_calls = pending_tool_calls state, buffered_tool_results = buf,
                   retry_attempts = 0, slot_budget = slot_budget state, slots_used = slots_used state\<rparr>,
                 effects = [], rejection_of = None, terminal_failure = None\<rparr>
           else case request_template state of
             None \<Rightarrow> rejected_outcome state InvalidPhase
           | Some t \<Rightarrow>
               (case append_tool_messages (pending_tool_calls state) buf (messages state) of
                  None \<Rightarrow> rejected_outcome state CorrelationMismatch
                | Some next_messages \<Rightarrow>
                    if slots_used state \<ge> slot_budget state
                    then terminal_notice_outcome state next_messages ENGINE_BUDGET_EXHAUSTED_NOTICE Stop
                    else
                      let (rid, next_seq) = mint_model_request_id (next_model_request_sequence state)
                      in \<lparr>next_state = \<lparr>contract_version = contract_version state,
                            phase = WaitingForModel, messages = next_messages,
                            request_template = Some t, pending_model_request = Some rid,
                            next_model_request_sequence = next_seq, pending_tool_calls = [],
                            buffered_tool_results = [], retry_attempts = 0,
                            slot_budget = slot_budget state,
                            slots_used = saturating_add (slots_used state) ENGINE_MODEL_REQUEST_SLOT_COST\<rparr>,
                          effects = [RequestModel (build_model_request t next_messages rid)],
                          rejection_of = None, terminal_failure = None\<rparr>))"

definition apply_cancel_turn :: "'v engine_state \<Rightarrow> string \<Rightarrow> 'v engine_outcome" where
  "apply_cancel_turn state reason =
     (if phase state \<notin> {WaitingForModel, WaitingForRetry, WaitingForTools}
      then rejected_outcome state InvalidPhase
      else terminal_notice_outcome state (messages state) reason Stop)"

fun engine_reduce :: "'v engine_state \<Rightarrow> 'v engine_input \<Rightarrow> 'v engine_outcome" where
  "engine_reduce state (SubmitUserPrompt submission) = apply_submit_user_prompt state submission"
| "engine_reduce state (ModelCompleted rid response) = apply_model_completion state rid response"
| "engine_reduce state (ModelFailed rid failure) = apply_model_failed state rid failure"
| "engine_reduce state (RetryReady rid) = apply_retry_ready state rid"
| "engine_reduce state (ToolCompleted cid result) = apply_tool_feedback state cid result False"
| "engine_reduce state (ToolFailed cid err result) =
     apply_tool_feedback state cid (if result = [] then [ContentText err] else result) True"
| "engine_reduce state (CancelTurn reason) = apply_cancel_turn state reason"

section \<open>The embeddable engine\<close>

definition emitted_events :: "'v engine_effect list \<Rightarrow> engine_event list" where
  "emitted_events es = List.map_filter (\<lambda>e. case e of EmitEvent ev \<Rightarrow> Some ev | _ \<Rightarrow> None) es"

record engine_turn_receipt =
  rc_contract_version :: u32
  rc_final_phase :: engine_turn_phase
  rc_slots_used :: u32
  rc_slot_budget :: u32
  rc_terminal_failure :: "engine_terminal_failure option"
  rc_rejection :: "engine_rejection option"
  rc_emitted_events :: "engine_event list"

definition receipt_from_outcome :: "'v engine_outcome \<Rightarrow> engine_turn_receipt" where
  "receipt_from_outcome o' =
     \<lparr>rc_contract_version = contract_version (next_state o'), rc_final_phase = phase (next_state o'),
      rc_slots_used = slots_used (next_state o'), rc_slot_budget = slot_budget (next_state o'),
      rc_terminal_failure = terminal_failure o', rc_rejection = rejection_of o',
      rc_emitted_events = emitted_events (effects o')\<rparr>"

record 'v engine_turn_result =
  tr_initial_state :: "'v engine_state"
  tr_outcome :: "'v engine_outcome"
  tr_receipt :: engine_turn_receipt

record 'v embeddable_engine =
  ee_state :: "'v engine_state"

definition embeddable_engine_new :: "'v embeddable_engine" where
  "embeddable_engine_new = \<lparr>ee_state = engine_new\<rparr>"

definition apply_input ::
  "'v embeddable_engine \<Rightarrow> 'v engine_input \<Rightarrow> 'v engine_turn_result \<times> 'v embeddable_engine" where
  "apply_input self input =
     (let initial_state = ee_state self;
          outcome = engine_reduce initial_state input
      in (\<lparr>tr_initial_state = initial_state, tr_outcome = outcome,
           tr_receipt = receipt_from_outcome outcome\<rparr>,
          self\<lparr>ee_state := next_state outcome\<rparr>))"

definition submit_turn ::
  "'v embeddable_engine \<Rightarrow> 'v engine_prompt_submission \<Rightarrow> 'v engine_turn_result \<times> 'v embeddable_engine" where
  "submit_turn self submission = apply_input self (SubmitUserPrompt submission)"

section \<open>Accepted transitions\<close>

text \<open>
  One rule per accepted transition of the reducer. Proofs about the engine go by inversion of
  this relation instead of unfolding the handlers.
\<close>

definition engine_next :: "'v engine_state \<Rightarrow> 'v engine_input \<Rightarrow> 'v engine_state" where
  "engine_next s i = next_state (engine_reduce s i)"

definition engine_effects :: "'v engine_state \<Rightarrow> 'v engine_input \<Rightarrow> 'v engine_effect list" where
  "engine_effects s i = effects (engine_reduce s i)"

fun tool_feedback :: "'v engine_input \<Rightarrow> 'v engine_buffered_tool_result option" where
  "tool_feedback (ToolCompleted cid r) = Some \<lparr>br_call_id = cid, br_content = r, br_is_error = False\<rparr>"
| "tool_feedback (ToolFailed cid e r) = Some \<lparr>br_call_id = cid,
     br_content = (if r = [] then [ContentText e] else r), br_is_error = True\<rparr>"
| "tool_feedback _ = None"

inductive engine_step ::
  "'v engine_state \<Rightarrow> 'v engine_input \<Rightarrow> 'v engine_effect list \<Rightarrow> 'v engine_state \<Rightarrow> bool" where
  submit: "phase s = Idle \<Longrightarrow> pending_model_request s = None \<Longrightarrow> sub_model_request_slot_budget sub \<noteq> 0 \<Longrightarrow>
    rt_retry_policy t = default_retry_policy \<Longrightarrow>
    mint_model_request_id (next_model_request_sequence s) = (rid, nseq) \<Longrightarrow>
    engine_step s (SubmitUserPrompt sub)
      [EmitEvent (EvBusyChanged True), EmitEvent (EvNotice ENGINE_SUBMIT_PROMPT_NOTICE), RequestModel (build_model_request t (sub_messages sub) rid)]
      (s\<lparr>phase := WaitingForModel, messages := sub_messages sub, request_template := Some t,
         pending_model_request := Some rid, next_model_request_sequence := nseq,
         pending_tool_calls := [], buffered_tool_results := [], retry_attempts := 0,
         slot_budget := sub_model_request_slot_budget sub, slots_used := 1\<rparr>)"
| complete: "phase s = WaitingForModel \<Longrightarrow> pending_model_request s = Some rid \<Longrightarrow>
    rs_stop_reason r \<noteq> StopToolUse \<Longrightarrow>
    engine_step s (ModelCompleted rid r)
      [EmitEvent (EvBusyChanged False), EmitEvent (EvTurnFinished (rs_stop_reason r))]
      (terminal_state_with_messages s (messages s @ [\<lparr>em_role = Assistant, em_content = rs_output r\<rparr>]))"
| call_tools: "phase s = WaitingForModel \<Longrightarrow> pending_model_request s = Some rid \<Longrightarrow>
    rs_stop_reason r = StopToolUse \<Longrightarrow> calls = extract_tool_calls (rs_output r) \<Longrightarrow> calls \<noteq> [] \<Longrightarrow>
    engine_step s (ModelCompleted rid r) (map ExecuteTool calls)
      (s\<lparr>phase := WaitingForTools,
         messages := messages s @ [\<lparr>em_role = Assistant, em_content = rs_output r\<rparr>],
         pending_model_request := None, pending_tool_calls := map tcall_id calls,
         buffered_tool_results := [], retry_attempts := 0\<rparr>)"
| retry: "phase s = WaitingForModel \<Longrightarrow> pending_model_request s = Some rid \<Longrightarrow> tf_retryable f \<Longrightarrow>
    retry_delay_for_attempt s = Some d \<Longrightarrow>
    engine_step s (ModelFailed rid f) [ScheduleRetry rid d]
      (s\<lparr>phase := WaitingForRetry, pending_tool_calls := [], buffered_tool_results := [],
         retry_attempts := saturating_add (retry_attempts s) 1\<rparr>)"
| give_up: "phase s = WaitingForModel \<Longrightarrow> pending_model_request s = Some rid \<Longrightarrow>
    \<not> tf_retryable f \<or> retry_delay_for_attempt s = None \<Longrightarrow>
    engine_step s (ModelFailed rid f)
      [EmitEvent (EvBusyChanged False), EmitEvent (EvNotice (tf_message f)), EmitEvent (EvTurnFinished Stop)]
      (terminal_state_with_messages s (messages s))"
| retry_ready: "phase s = WaitingForRetry \<Longrightarrow> pending_model_request s = Some rid \<Longrightarrow>
    request_template s = Some t \<Longrightarrow>
    engine_step s (RetryReady rid) [RequestModel (build_model_request t (messages s) rid)]
      (s\<lparr>phase := WaitingForModel, pending_tool_calls := [], buffered_tool_results := []\<rparr>)"
| buffer: "phase s = WaitingForTools \<Longrightarrow> tool_feedback i = Some b \<Longrightarrow>
    br_call_id b \<in> set (pending_tool_calls s) \<Longrightarrow> br_call_id b \<notin> br_call_id ` set (buffered_tool_results s) \<Longrightarrow>
    Suc (length (buffered_tool_results s)) < length (pending_tool_calls s) \<Longrightarrow>
    engine_step s i []
      (s\<lparr>pending_model_request := None, buffered_tool_results := buffered_tool_results s @ [b],
         retry_attempts := 0\<rparr>)"
| continue_turn: "phase s = WaitingForTools \<Longrightarrow> tool_feedback i = Some b \<Longrightarrow>
    br_call_id b \<in> set (pending_tool_calls s) \<Longrightarrow> br_call_id b \<notin> br_call_id ` set (buffered_tool_results s) \<Longrightarrow>
    \<not> Suc (length (buffered_tool_results s)) < length (pending_tool_calls s) \<Longrightarrow>
    request_template s = Some t \<Longrightarrow>
    append_tool_messages (pending_tool_calls s) (buffered_tool_results s @ [b]) (messages s) = Some ms \<Longrightarrow>
    slots_used s < slot_budget s \<Longrightarrow>
    mint_model_request_id (next_model_request_sequence s) = (rid, nseq) \<Longrightarrow>
    engine_step s i [RequestModel (build_model_request t ms rid)]
      (s\<lparr>phase := WaitingForModel, messages := ms, pending_model_request := Some rid,
         next_model_request_sequence := nseq, pending_tool_calls := [], buffered_tool_results := [],
         retry_attempts := 0, slots_used := saturating_add (slots_used s) 1\<rparr>)"
| exhaust: "phase s = WaitingForTools \<Longrightarrow> tool_feedback i = Some b \<Longrightarrow>
    br_call_id b \<in> set (pending_tool_calls s) \<Longrightarrow> br_call_id b \<notin> br_call_id ` set (buffered_tool_results s) \<Longrightarrow>
    \<not> Suc (length (buffered_tool_results s)) < length (pending_tool_calls s) \<Longrightarrow>
    request_template s = Some t \<Longrightarrow>
    append_tool_messages (pending_tool_calls s) (buffered_tool_results s @ [b]) (messages s) = Some ms \<Longrightarrow>
    slot_budget s \<le> slots_used s \<Longrightarrow>
    engine_step s i
      [EmitEvent (EvBusyChanged False), EmitEvent (EvNotice ENGINE_BUDGET_EXHAUSTED_NOTICE),
       EmitEvent (EvTurnFinished Stop)]
      (terminal_state_with_messages s ms)"
| cancel: "phase s \<in> {WaitingForModel, WaitingForRetry, WaitingForTools} \<Longrightarrow>
    engine_step s (CancelTurn reason)
      [EmitEvent (EvBusyChanged False), EmitEvent (EvNotice reason), EmitEvent (EvTurnFinished Stop)]
      (terminal_state_with_messages s (messages s))"

lemma engine_reduce_feedback:
  "tool_feedback i = Some b \<Longrightarrow>
   engine_reduce s i = apply_tool_feedback s (br_call_id b) (br_content b) (br_is_error b)"
  by (cases i) auto


lemma engine_step_tool_feedback:
  assumes fb: "tool_feedback i = Some b" and ok: "rejection_of (engine_reduce s i) = None"
  shows "engine_step s i (engine_effects s i) (engine_next s i)"
proof -
  have b: "\<lparr>br_call_id = br_call_id b, br_content = br_content b, br_is_error = br_is_error b\<rparr> = b"
    by simp
  note defs = engine_reduce_feedback [OF fb] apply_tool_feedback_def rejected_outcome_def
    engine_effects_def engine_next_def terminal_notice_outcome_def Let_def b
  show ?thesis
  proof (cases "Suc (length (buffered_tool_results s)) < length (pending_tool_calls s)")
    case True
    then show ?thesis
      using engine_step.buffer [OF _ fb _ _ True] ok
      by (cases s) (auto simp: defs split: if_splits)
  next
    case False
    from ok False obtain t ms where t: "request_template s = Some t"
      and ms: "append_tool_messages (pending_tool_calls s) (buffered_tool_results s @ [b]) (messages s) = Some ms"
      by (auto simp: defs split: if_splits option.splits)
    show ?thesis
    proof (cases "slots_used s < slot_budget s")
      case lt: True
      obtain rid nseq where m: "mint_model_request_id (next_model_request_sequence s) = (rid, nseq)"
        by fastforce
      have guards: "phase s = WaitingForTools" "br_call_id b \<in> set (pending_tool_calls s)"
        "br_call_id b \<notin> br_call_id ` set (buffered_tool_results s)"
        using ok by (auto simp: defs split: if_splits)
      have "engine_effects s i = [RequestModel (build_model_request t ms rid)]"
        using guards False t ms m lt by (simp add: defs)
      moreover have "engine_next s i = s\<lparr>phase := WaitingForModel, messages := ms,
          pending_model_request := Some rid, next_model_request_sequence := nseq,
          pending_tool_calls := [], buffered_tool_results := [], retry_attempts := 0,
          slots_used := saturating_add (slots_used s) 1\<rparr>"
        using guards False t ms m lt
        by (cases s) (simp add: defs ENGINE_MODEL_REQUEST_SLOT_COST_def)
      ultimately show ?thesis
        using engine_step.continue_turn [OF guards(1) fb guards(2,3) False t ms lt m] by simp
    next
      case ge: False
      then have ge: "slot_budget s \<le> slots_used s" by simp
      show ?thesis
        using engine_step.exhaust [OF _ fb _ _ False t ms ge] ok False t ms ge
        by (auto simp: defs split: if_splits)
    qed
  qed
qed

lemma engine_step_submit:
  assumes "rejection_of (engine_reduce s (SubmitUserPrompt sub)) = None"
  shows "engine_step s (SubmitUserPrompt sub) (engine_effects s (SubmitUserPrompt sub))
    (engine_next s (SubmitUserPrompt sub))"
proof -
  obtain rid nseq where m: "mint_model_request_id (next_model_request_sequence s) = (rid, nseq)"
    by fastforce
  define t where "t = \<lparr>rt_model = sub_model sub, rt_system_prompt = sub_system_prompt sub,
    rt_max_tokens = sub_max_tokens sub, rt_temperature = sub_temperature sub,
    rt_thinking = sub_thinking sub, rt_tools = sub_tools sub,
    rt_no_cache = sub_no_cache sub, rt_cache_ttl = sub_cache_ttl sub,
    rt_session_id = sub_session_id sub, rt_retry_policy = default_retry_policy\<rparr>"
  have guards: "phase s = Idle" "pending_model_request s = None" "sub_model_request_slot_budget sub \<noteq> 0"
    using assms by (auto simp: apply_submit_user_prompt_def rejected_outcome_def not_less
        ENGINE_MIN_MODEL_REQUEST_SLOT_BUDGET_def split: if_splits)
  have pol: "rt_retry_policy t = default_retry_policy" by (simp add: t_def)
  have "engine_effects s (SubmitUserPrompt sub) = [EmitEvent (EvBusyChanged True),
      EmitEvent (EvNotice ENGINE_SUBMIT_PROMPT_NOTICE),
      RequestModel (build_model_request t (sub_messages sub) rid)]"
    using guards m by (simp add: engine_effects_def apply_submit_user_prompt_def t_def Let_def
        ENGINE_MIN_MODEL_REQUEST_SLOT_BUDGET_def)
  moreover have "engine_next s (SubmitUserPrompt sub) =
      s\<lparr>phase := WaitingForModel, messages := sub_messages sub, request_template := Some t,
        pending_model_request := Some rid, next_model_request_sequence := nseq,
        pending_tool_calls := [], buffered_tool_results := [], retry_attempts := 0,
        slot_budget := sub_model_request_slot_budget sub, slots_used := 1\<rparr>"
    using guards m by (cases s) (simp add: engine_next_def apply_submit_user_prompt_def t_def Let_def
        ENGINE_MIN_MODEL_REQUEST_SLOT_BUDGET_def ENGINE_MODEL_REQUEST_SLOT_COST_def)
  ultimately show ?thesis
    using engine_step.submit [OF guards pol m] by simp
qed

lemma engine_step_completion:
  assumes "rejection_of (engine_reduce s (ModelCompleted rid r)) = None"
  shows "engine_step s (ModelCompleted rid r) (engine_effects s (ModelCompleted rid r))
    (engine_next s (ModelCompleted rid r))"
proof -
  have p: "phase s = WaitingForModel" "pending_model_request s = Some rid"
    using assms
    by (auto simp: apply_model_completion_def rejected_outcome_def split: if_splits option.splits)
  show ?thesis
  proof (cases "rs_stop_reason r = StopToolUse")
    case True
    with assms p have "extract_tool_calls (rs_output r) \<noteq> []"
      by (auto simp: apply_model_completion_def apply_tool_use_model_completion_def
          rejected_outcome_def Let_def)
    with True p show ?thesis
      using engine_step.call_tools [OF p True refl]
      by (cases s) (simp add: apply_model_completion_def apply_tool_use_model_completion_def
          engine_effects_def engine_next_def Let_def)
  next
    case False
    with p show ?thesis
      using engine_step.complete [OF p False]
      by (cases "rs_stop_reason r") (simp_all add: apply_model_completion_def
          terminal_success_outcome_def engine_effects_def engine_next_def Let_def)
  qed
qed

lemma engine_step_failed:
  assumes "rejection_of (engine_reduce s (ModelFailed rid f)) = None"
  shows "engine_step s (ModelFailed rid f) (engine_effects s (ModelFailed rid f))
    (engine_next s (ModelFailed rid f))"
proof -
  have p: "phase s = WaitingForModel" "pending_model_request s = Some rid"
    using assms
    by (auto simp: apply_model_failed_def retry_wait_feedback_rejection_def rejected_outcome_def
        split: if_splits option.splits)
  show ?thesis
  proof (cases "tf_retryable f \<and> retry_delay_for_attempt s \<noteq> None")
    case True
    then obtain d where d: "tf_retryable f" "retry_delay_for_attempt s = Some d" by blast
    with p show ?thesis
      using engine_step.retry [OF p d]
      by (cases s) (simp add: apply_model_failed_def engine_effects_def engine_next_def Let_def
        engine_consts)
  next
    case False
    then have n: "\<not> tf_retryable f \<or> retry_delay_for_attempt s = None" by simp
    with p show ?thesis
      using engine_step.give_up [OF p n]
      by (auto simp: apply_model_failed_def terminal_failure_outcome_def engine_effects_def
          engine_next_def split: option.splits bool.splits)
  qed
qed

lemma engine_step_ready:
  assumes "rejection_of (engine_reduce s (RetryReady rid)) = None"
  shows "engine_step s (RetryReady rid) (engine_effects s (RetryReady rid)) (engine_next s (RetryReady rid))"
proof -
  obtain t where p: "phase s = WaitingForRetry" "pending_model_request s = Some rid"
      "request_template s = Some t"
    using assms by (auto simp: apply_retry_ready_def rejected_outcome_def split: if_splits option.splits)
  then show ?thesis
    using engine_step.retry_ready [OF p]
    by (cases s) (simp add: apply_retry_ready_def engine_effects_def engine_next_def)
qed

lemma engine_accepted_step:
  assumes ok: "rejection_of (engine_reduce s i) = None"
  shows "engine_step s i (engine_effects s i) (engine_next s i)"
proof (cases i)
  case (CancelTurn reason)
  with ok show ?thesis
    using engine_step.cancel [of s reason]
    by (auto simp: apply_cancel_turn_def rejected_outcome_def terminal_notice_outcome_def
        engine_effects_def engine_next_def split: if_splits)
qed (use ok in \<open>auto intro: engine_step_submit engine_step_completion engine_step_failed
      engine_step_ready engine_step_tool_feedback\<close>)

lemma engine_rejected:
  "rejection_of (engine_reduce s i) = Some r \<Longrightarrow> engine_reduce s i = rejected_outcome s r"
  by (cases i) (auto simp: rejected_outcome_def apply_submit_user_prompt_def apply_model_completion_def
      apply_tool_use_model_completion_def terminal_success_outcome_def apply_model_failed_def
      retry_wait_feedback_rejection_def terminal_failure_outcome_def apply_retry_ready_def
      apply_tool_feedback_def terminal_notice_outcome_def apply_cancel_turn_def Let_def
      split: if_splits option.splits prod.splits stop_reason.splits bool.splits)

lemma engine_next_cases:
  obtains (rejected) r where "rejection_of (engine_reduce s i) = Some r" "engine_next s i = s" "engine_effects s i = []"
  | (accepted) "rejection_of (engine_reduce s i) = None" "engine_step s i (engine_effects s i) (engine_next s i)"
  using engine_rejected [of s i] engine_accepted_step [of s i]
  by (cases "rejection_of (engine_reduce s i)")
     (auto simp: engine_next_def engine_effects_def rejected_outcome_def)

section \<open>The phase invariant\<close>

fun engine_turn_active :: "engine_turn_phase \<Rightarrow> bool" where
  "engine_turn_active Idle = False"
| "engine_turn_active Finished = False"
| "engine_turn_active _ = True"

definition template_ok :: "'v engine_state \<Rightarrow> bool" where
  "template_ok s = (if engine_turn_active (phase s)
     then (case request_template s of None \<Rightarrow> False | Some t \<Rightarrow> rt_retry_policy t = default_retry_policy)
     else request_template s = None)"

definition pending_request_ok :: "'v engine_state \<Rightarrow> bool" where
  "pending_request_ok s \<longleftrightarrow>
     (pending_model_request s \<noteq> None \<longleftrightarrow> phase s \<in> {WaitingForModel, WaitingForRetry})"

definition pending_tools_ok :: "'v engine_state \<Rightarrow> bool" where
  "pending_tools_ok s = (if phase s = WaitingForTools
     then distinct (map br_call_id (buffered_tool_results s)) \<and>
       br_call_id ` set (buffered_tool_results s) \<subseteq> set (pending_tool_calls s) \<and>
       length (buffered_tool_results s) < length (pending_tool_calls s)
     else pending_tool_calls s = [] \<and> buffered_tool_results s = [])"

definition counters_ok :: "'v engine_state \<Rightarrow> bool" where
  "counters_ok s \<longleftrightarrow>
     unat (retry_attempts s) \<le> length ENGINE_DEFAULT_RETRY_DELAYS \<and>
     (phase s \<notin> {WaitingForModel, WaitingForRetry} \<longrightarrow> retry_attempts s = 0) \<and>
     (phase s = WaitingForRetry \<longrightarrow> retry_attempts s \<noteq> 0) \<and>
     (phase s \<noteq> Idle \<longrightarrow> slots_used s \<noteq> 0) \<and>
     slots_used s \<le> slot_budget s"

definition engine_inv :: "'v engine_state \<Rightarrow> bool" where
  "engine_inv s \<longleftrightarrow> contract_version s = ENGINE_CONTRACT_VERSION \<and> template_ok s \<and>
     pending_request_ok s \<and> pending_tools_ok s \<and> counters_ok s"

lemmas engine_inv_defs = template_ok_def pending_request_ok_def pending_tools_ok_def counters_ok_def

lemma terminal_state_simps [simp]:
  "contract_version (terminal_state_with_messages s ms) = contract_version s"
  "phase (terminal_state_with_messages s ms) = Finished"
  "messages (terminal_state_with_messages s ms) = ms"
  "request_template (terminal_state_with_messages s ms) = None"
  "pending_model_request (terminal_state_with_messages s ms) = None"
  "next_model_request_sequence (terminal_state_with_messages s ms) = next_model_request_sequence s"
  "pending_tool_calls (terminal_state_with_messages s ms) = []"
  "buffered_tool_results (terminal_state_with_messages s ms) = []"
  "retry_attempts (terminal_state_with_messages s ms) = 0"
  "slot_budget (terminal_state_with_messages s ms) = slot_budget s"
  "slots_used (terminal_state_with_messages s ms) = slots_used s"
  by (simp_all add: terminal_state_with_messages_def)

lemma engine_step_contract: "engine_step s i es s' \<Longrightarrow> contract_version s' = contract_version s"
  by (induction rule: engine_step.induct) simp_all

lemma engine_step_template: "engine_step s i es s' \<Longrightarrow> template_ok s \<Longrightarrow> template_ok s'"
  by (induction rule: engine_step.induct) (auto simp: template_ok_def split: option.splits)

lemma engine_step_pending_request:
  "engine_step s i es s' \<Longrightarrow> pending_request_ok s \<Longrightarrow> pending_request_ok s'"
  by (induction rule: engine_step.induct) (auto simp: pending_request_ok_def)

lemma engine_step_pending_tools:
  "engine_step s i es s' \<Longrightarrow> pending_tools_ok s \<Longrightarrow> pending_tools_ok s'"
  by (induction rule: engine_step.induct) (auto simp: pending_tools_ok_def)

lemma retry_delay_bound:
  "retry_delay_for_attempt s = Some d \<Longrightarrow> template_ok s \<Longrightarrow> engine_turn_active (phase s) \<Longrightarrow>
   unat (retry_attempts s) < 2"
  by (auto simp: retry_delay_for_attempt_def template_ok_def default_retry_policy_def
      ENGINE_DEFAULT_RETRY_DELAYS_def Let_def split: option.splits if_splits)

lemma slot_charge:
  fixes a b :: u32
  assumes "a < b"
  shows "unat (saturating_add a 1) = unat a + 1"
proof (rule unat_saturating_add_one)
  have "unat a < unat b" using assms by (simp add: word_less_nat_alt)
  then show "unat a + 1 < 2 ^ LENGTH(32)" using unat_word_less_pow [of b] by simp
qed

lemma engine_step_counters:
  "engine_step s i es s' \<Longrightarrow> template_ok s \<Longrightarrow> counters_ok s \<Longrightarrow> counters_ok s'"
proof (induction rule: engine_step.induct)
  case (retry s rid f d)
  then have lt: "unat (retry_attempts s) < 2" by (auto dest: retry_delay_bound)
  then have "unat (saturating_add (retry_attempts s) 1) = unat (retry_attempts s) + 1"
    by (intro unat_saturating_add_one) simp
  then show ?case
    using retry lt by (auto simp: counters_ok_def ENGINE_DEFAULT_RETRY_DELAYS_def)
next
  case (continue_turn s i b t ms rid nseq)
  note charge = slot_charge [OF continue_turn.hyps(8)]
  then have "saturating_add (slots_used s) 1 \<noteq> 0" by (metis add_is_0 one_neq_zero unat_0)
  with continue_turn charge show ?case
    by (auto simp: counters_ok_def word_le_nat_alt word_less_nat_alt)
qed (auto simp: counters_ok_def word_le_nat_alt Suc_le_eq unat_gt_0)

lemma engine_inv_next: "engine_inv s \<Longrightarrow> engine_inv (engine_next s i)"
  by (cases s i rule: engine_next_cases)
     (auto simp: engine_inv_def engine_step_contract
       dest: engine_step_template engine_step_pending_request engine_step_pending_tools engine_step_counters)

lemma engine_inv_new: "engine_inv engine_new"
  by (simp add: engine_inv_def engine_inv_defs engine_new_def)

lemma phase_engine_new [simp]: "phase engine_new = Idle"
  by (simp add: engine_new_def)

interpretation engine: machine engine_next engine_new engine_inv
  by unfold_locales (auto intro: engine_inv_next engine_inv_new)

text \<open>
  C33 (invariant). Whatever inputs a fresh engine receives, its state is consistent with its phase.
  A request template with the default retry policy is kept exactly during a turn. A model request
  is pending exactly while the engine waits for the model or for a retry. Tool calls are pending
  only in \<open>WaitingForTools\<close>, where the buffered results carry distinct ids of pending calls and at
  least one result is missing. Retries never exceed the two configured delays, and the request
  slots used never exceed the budget.
\<close>

theorem engine_reachable_inv: "engine_inv (run_next engine_next engine_new is)"
  by (rule engine.run_inv [OF engine_inv_new])

section \<open>Acceptance\<close>

lemma append_tool_messages_map:
  "set cids \<subseteq> br_call_id ` set buf \<Longrightarrow>
   append_tool_messages cids buf ms =
     Some (ms @ map (\<lambda>cid. buffered_tool_result_to_message (the (find (\<lambda>b. br_call_id b = cid) buf))) cids)"
proof (induction cids arbitrary: ms)
  case (Cons c cids)
  then have "find (\<lambda>b. br_call_id b = c) buf \<noteq> None"
    by (auto simp: find_None_iff)
  with Cons show ?case by auto
qed simp

lemma last_result_covers:
  assumes "distinct (map br_call_id buf)" "br_call_id ` set buf \<subseteq> set cids" "length cids \<le> length buf"
  shows "set cids = br_call_id ` set buf" "distinct cids"
proof -
  have card: "card (br_call_id ` set buf) = length buf"
    using assms(1) by (metis distinct_card length_map list.set_map)
  with assms(2,3) have le: "card (set cids) \<le> card (br_call_id ` set buf)"
    using card_length [of cids] by linarith
  then show eq: "set cids = br_call_id ` set buf"
    using assms(2) by (metis List.finite_set card_seteq)
  have "card (set cids) = length buf" using eq card by simp
  with assms(3) have "card (set cids) = length cids"
    using card_length [of cids] by linarith
  then show "distinct cids" by (rule card_distinct)
qed

fun engine_accepts :: "'v engine_state \<Rightarrow> 'v engine_input \<Rightarrow> bool" where
  "engine_accepts s (SubmitUserPrompt sub) \<longleftrightarrow> phase s = Idle \<and> sub_model_request_slot_budget sub \<noteq> 0"
| "engine_accepts s (ModelCompleted rid r) \<longleftrightarrow> phase s = WaitingForModel \<and> pending_model_request s = Some rid \<and>
     (rs_stop_reason r = StopToolUse \<longrightarrow> extract_tool_calls (rs_output r) \<noteq> [])"
| "engine_accepts s (ModelFailed rid f) \<longleftrightarrow> phase s = WaitingForModel \<and> pending_model_request s = Some rid"
| "engine_accepts s (RetryReady rid) \<longleftrightarrow> phase s = WaitingForRetry \<and> pending_model_request s = Some rid"
| "engine_accepts s (ToolCompleted cid r) \<longleftrightarrow> phase s = WaitingForTools \<and>
     cid \<in> set (pending_tool_calls s) \<and> cid \<notin> br_call_id ` set (buffered_tool_results s)"
| "engine_accepts s (ToolFailed cid e r) \<longleftrightarrow> phase s = WaitingForTools \<and>
     cid \<in> set (pending_tool_calls s) \<and> cid \<notin> br_call_id ` set (buffered_tool_results s)"
| "engine_accepts s (CancelTurn reason) \<longleftrightarrow> engine_turn_active (phase s)"

lemma template_okE:
  assumes "template_ok s" "engine_turn_active (phase s)"
  obtains t where "request_template s = Some t" "rt_retry_policy t = default_retry_policy"
  using assms by (auto simp: template_ok_def split: option.splits)

lemma feedback_complete_accepted:
  assumes inv: "engine_inv s" and ph: "phase s = WaitingForTools"
    and cid: "cid \<in> set (pending_tool_calls s)" "cid \<notin> br_call_id ` set (buffered_tool_results s)"
  shows "rejection_of (apply_tool_feedback s cid r e) = None"
proof -
  obtain t where t: "request_template s = Some t"
    using inv ph by (auto simp: engine_inv_def elim: template_okE)
  define buf where "buf = buffered_tool_results s @ [\<lparr>br_call_id = cid, br_content = r, br_is_error = e\<rparr>]"
  have tools: "distinct (map br_call_id buf)" "br_call_id ` set buf \<subseteq> set (pending_tool_calls s)"
    using inv ph cid by (auto simp: engine_inv_def pending_tools_ok_def buf_def)
  show ?thesis
  proof (cases "length buf < length (pending_tool_calls s)")
    case True
    then show ?thesis using ph cid by (simp add: apply_tool_feedback_def buf_def Let_def)
  next
    case False
    then have "append_tool_messages (pending_tool_calls s) buf (messages s) \<noteq> None"
      using last_result_covers(1) [OF tools] append_tool_messages_map by fastforce
    with False t show ?thesis
      using ph cid by (auto simp: apply_tool_feedback_def buf_def Let_def terminal_notice_outcome_def
          split: prod.splits)
  qed
qed

lemma engine_accepts_iff:
  assumes "engine_inv s"
  shows "rejection_of (engine_reduce s i) = None \<longleftrightarrow> engine_accepts s i"
proof
  assume "rejection_of (engine_reduce s i) = None"
  then have "engine_step s i (engine_effects s i) (engine_next s i)" by (rule engine_accepted_step)
  then show "engine_accepts s i"
    by (cases rule: engine_step.cases) (auto elim!: tool_feedback.elims)
next
  assume acc: "engine_accepts s i"
  have req: "pending_request_ok s" and tpl: "template_ok s"
    using assms by (auto simp: engine_inv_def)
  show "rejection_of (engine_reduce s i) = None"
  proof (cases i)
    case (SubmitUserPrompt sub)
    with acc req show ?thesis
      by (auto simp: apply_submit_user_prompt_def pending_request_ok_def Let_def
          ENGINE_MIN_MODEL_REQUEST_SLOT_BUDGET_def split: prod.splits)
  next
    case (RetryReady rid)
    with acc tpl show ?thesis
      by (auto simp: apply_retry_ready_def elim: template_okE)
  next
    case (CancelTurn r)
    with acc show ?thesis
      by (cases "phase s") (auto simp: apply_cancel_turn_def terminal_notice_outcome_def)
  next
    case (ModelFailed rid f)
    with acc show ?thesis
      by (auto simp: apply_model_failed_def terminal_failure_outcome_def split: option.splits bool.splits)
  next
    case (ModelCompleted rid r)
    with acc show ?thesis
      by (auto simp: apply_model_completion_def apply_tool_use_model_completion_def
          terminal_success_outcome_def Let_def split: stop_reason.splits)
  qed (use acc assms in \<open>auto intro: feedback_complete_accepted\<close>)
qed

text \<open>
  C32 (functional). The reducer decides every input in every reachable state by the listed guards:
  it accepts exactly the inputs of \<open>engine_accepts\<close>, in particular every first result of a pending
  tool call, and any other input leaves the state as it is, with no effects and no failure. No
  internal inconsistency (a missing template, a tool call without result) is ever reported.
\<close>

theorem engine_accept_or_reject:
  assumes "reachable_by engine_next engine_new s"
  shows "(engine_accepts s i \<longrightarrow> rejection_of (engine_reduce s i) = None) \<and>
    (\<not> engine_accepts s i \<longrightarrow> (\<exists>r. engine_reduce s i = rejected_outcome s r))"
  using engine_accepts_iff [OF engine.reachable_inv [OF assms], of i] engine_rejected [of s i]
  by (cases "rejection_of (engine_reduce s i)") auto

theorem engine_accept_or_reject_witness:
  "\<exists>r. engine_reduce (engine_new :: nat engine_state) (RetryReady ''x'') = rejected_outcome engine_new r"
  using engine_accept_or_reject [OF reachable_by.reach_init, of "RetryReady ''x''"]
  by (simp add: engine_new_def)

section \<open>The request budget\<close>

definition is_request :: "'v engine_effect \<Rightarrow> bool" where
  "is_request e = (case e of RequestModel _ \<Rightarrow> True | _ \<Rightarrow> False)"

definition model_requests :: "'v engine_effect list \<Rightarrow> nat" where
  "model_requests es = length (filter is_request es)"

text \<open>The requests a turn may still make: three for every unused slot (one attempt and two
  retries), and the retries left for the current one.\<close>

fun requests_left :: "'v engine_state \<Rightarrow> nat" where
  "requests_left s = (case phase s of
     WaitingForModel \<Rightarrow> 3 * (unat (slot_budget s) - unat (slots_used s)) + (2 - unat (retry_attempts s))
   | WaitingForRetry \<Rightarrow> 3 * (unat (slot_budget s) - unat (slots_used s)) + (3 - unat (retry_attempts s))
   | WaitingForTools \<Rightarrow> 3 * (unat (slot_budget s) - unat (slots_used s))
   | _ \<Rightarrow> 0)"

lemma model_requests_simps [simp]:
  "model_requests [] = 0"
  "model_requests (EmitEvent ev # es) = model_requests es"
  "model_requests (ScheduleRetry r d # es) = model_requests es"
  "model_requests (RequestModel m # es) = Suc (model_requests es)"
  "model_requests (map ExecuteTool cs) = 0"
  "model_requests (es @ fs) = model_requests es + model_requests fs"
  by (simp_all add: model_requests_def is_request_def filter_empty_conv)

lemma engine_step_requests:
  "engine_step s i es s' \<Longrightarrow> engine_inv s \<Longrightarrow> phase s \<noteq> Idle \<Longrightarrow>
   model_requests es + requests_left s' \<le> requests_left s \<and>
   phase s' \<noteq> Idle \<and> slot_budget s' = slot_budget s"
proof (induction rule: engine_step.induct)
  case (retry s rid f d)
  then have lt: "unat (retry_attempts s) < 2"
    by (auto simp: engine_inv_def dest: retry_delay_bound)
  then have "unat (saturating_add (retry_attempts s) 1) = unat (retry_attempts s) + 1"
    by (intro unat_saturating_add_one) simp
  then show ?case using retry lt by simp
next
  case (retry_ready s rid t)
  then have "unat (retry_attempts s) \<le> 2"
    by (simp add: engine_inv_def counters_ok_def ENGINE_DEFAULT_RETRY_DELAYS_def)
  then show ?case using retry_ready by simp
next
  case (continue_turn s i b t ms rid nseq)
  note charge = slot_charge [OF continue_turn.hyps(8)]
  have "unat (slots_used s) < unat (slot_budget s)"
    using continue_turn.hyps(8) by (simp add: word_less_nat_alt)
  with charge show ?case using continue_turn by simp
qed auto

lemma turn_requests_left:
  assumes "engine_inv s" "phase s \<noteq> Idle"
  shows "model_requests (run_out engine_next engine_effects s is) \<le> requests_left s \<and>
    slot_budget (run_next engine_next s is) = slot_budget s"
  using assms
proof (induction "is" arbitrary: s)
  case (Cons i "is")
  show ?case
  proof (cases s i rule: engine_next_cases)
    case (rejected r)
    then show ?thesis using Cons by simp
  next
    case accepted
    from engine_step_requests [OF accepted(2) Cons.prems]
      Cons.IH [OF engine_inv_next [OF Cons.prems(1)]] show ?thesis by force
  qed
qed simp

lemma requests_left_waiting:
  "engine_inv s \<Longrightarrow> phase s = WaitingForModel \<Longrightarrow> requests_left s + 1 \<le> 3 * unat (slot_budget s)"
proof -
  assume "engine_inv s" "phase s = WaitingForModel"
  then have "slots_used s \<noteq> 0" "slots_used s \<le> slot_budget s"
    by (simp_all add: engine_inv_def counters_ok_def)
  then have "0 < unat (slots_used s)" "unat (slots_used s) \<le> unat (slot_budget s)"
    by (simp_all add: word_le_nat_alt unat_gt_0)
  then show ?thesis using \<open>phase s = WaitingForModel\<close> by simp
qed

text \<open>
  The model-request budget of a turn is respected whatever happens: over any sequence of
  inputs a fresh engine asks for at most three requests per slot of the budget the accepted prompt
  gave (the first attempt and its two retries), and for none at all before a prompt is accepted.
\<close>

lemma engine_request_budget:
  "model_requests (run_out engine_next engine_effects engine_new is)
     \<le> 3 * unat (slot_budget (run_next engine_next engine_new is))"
proof -
  have "phase s = Idle \<Longrightarrow> engine_inv s \<Longrightarrow>
      model_requests (run_out engine_next engine_effects s is)
        \<le> 3 * unat (slot_budget (run_next engine_next s is))" for s
  proof (induction "is" arbitrary: s)
    case (Cons i "is")
    show ?case
    proof (cases s i rule: engine_next_cases)
      case (rejected r)
      then show ?thesis using Cons by simp
    next
      case accepted
      have ph: "phase (engine_next s i) = WaitingForModel" "model_requests (engine_effects s i) = 1"
        using accepted(2) Cons.prems(1) by (cases rule: engine_step.cases; auto)+
      have inv: "engine_inv (engine_next s i)" using Cons.prems by (intro engine_inv_next)
      from turn_requests_left [OF inv, of "is"] requests_left_waiting [OF inv] ph
      show ?thesis by simp
    qed
  qed simp
  then show ?thesis by (simp add: engine_inv_new)
qed

section \<open>The end of a turn\<close>

definition is_turn_finished :: "'v engine_effect \<Rightarrow> bool" where
  "is_turn_finished e = (case e of EmitEvent (EvTurnFinished _) \<Rightarrow> True | _ \<Rightarrow> False)"

definition turn_finishes :: "'v engine_effect list \<Rightarrow> nat" where
  "turn_finishes es = length (filter is_turn_finished es)"

lemma turn_finishes_simps [simp]:
  "turn_finishes [] = 0"
  "turn_finishes (EmitEvent (EvTurnFinished r) # es) = Suc (turn_finishes es)"
  "turn_finishes (EmitEvent (EvNotice n) # es) = turn_finishes es"
  "turn_finishes (EmitEvent (EvBusyChanged b) # es) = turn_finishes es"
  "turn_finishes (ScheduleRetry c d # es) = turn_finishes es"
  "turn_finishes (RequestModel m # es) = turn_finishes es"
  "turn_finishes (map ExecuteTool cs) = 0"
  "turn_finishes (es @ fs) = turn_finishes es + turn_finishes fs"
  by (simp_all add: turn_finishes_def is_turn_finished_def filter_empty_conv)

lemma engine_step_finish:
  "engine_step s i es s' \<Longrightarrow> phase s \<noteq> Finished \<and>
     turn_finishes es = (if phase s' = Finished then 1 else 0)"
  by (induction rule: engine_step.induct) auto

lemma engine_finished_rejects: "phase s = Finished \<Longrightarrow> \<exists>r. engine_reduce s i = rejected_outcome s r"
  using engine_accepted_step [of s i] engine_rejected [of s i]
  by (cases "rejection_of (engine_reduce s i)") (auto dest: engine_step_finish)

lemma engine_next_finish:
  "turn_finishes (engine_effects s i) + (if phase s = Finished then 1 else 0) =
   (if phase (engine_next s i) = Finished then 1 else 0)"
  by (cases s i rule: engine_next_cases) (auto dest: engine_step_finish)

text \<open>
  A turn ends exactly once: over any inputs to a fresh engine the number of
  \<open>TurnFinished\<close> events is one if the engine has reached \<open>Finished\<close>, and zero otherwise; and the
  finished state is final, it answers every later input (a new prompt included) with a rejection
  that keeps it.
\<close>

lemma engine_finishes_once:
  "turn_finishes (run_out engine_next engine_effects engine_new is) =
     (if phase (run_next engine_next engine_new is) = Finished then 1 else 0) \<and>
   (phase (run_next engine_next engine_new is) = Finished \<longrightarrow>
     (\<forall>i. \<exists>r. engine_reduce (run_next engine_next engine_new is) i =
        rejected_outcome (run_next engine_next engine_new is) r))"
proof -
  have "turn_finishes (run_out engine_next engine_effects s is) + (if phase s = Finished then 1 else 0) =
      (if phase (run_next engine_next s is) = Finished then 1 else 0)" for s
  proof (induction "is" arbitrary: s)
    case (Cons i "is")
    show ?case using Cons.IH [of "engine_next s i"] engine_next_finish [of s i] by simp
  qed simp
  from this [of engine_new] show ?thesis by (simp add: engine_finished_rejects)
qed

section \<open>Request ids\<close>

definition minted_ids :: "'v engine_state \<Rightarrow> 'v engine_input \<Rightarrow> correlation_id list" where
  "minted_ids s i = (if phase s = WaitingForRetry then [] else
     List.map_filter (\<lambda>e. case e of RequestModel m \<Rightarrow> Some (mr_request_id m) | _ \<Rightarrow> None) (engine_effects s i))"

definition model_request_id :: "nat \<Rightarrow> correlation_id" where
  "model_request_id n = ENGINE_MODEL_REQUEST_PREFIX @ ''-'' @ show_nat n"

lemma model_request_id_inj: "inj model_request_id"
  by (rule injI) (simp add: model_request_id_def show_nat_eq_iff)

lemma minted_of_tool_calls [simp]:
  "List.map_filter (\<lambda>e. case e of RequestModel m \<Rightarrow> Some (mr_request_id m) | _ \<Rightarrow> None)
     (map ExecuteTool cs) = []"
  by (induction cs) (simp_all add: List.map_filter_simps)

lemma engine_step_minted:
  assumes "engine_step s i es s'" and "unat (next_model_request_sequence s) + 1 < 2 ^ 32"
  shows "(let ids = if phase s = WaitingForRetry then [] else
       List.map_filter (\<lambda>e. case e of RequestModel m \<Rightarrow> Some (mr_request_id m) | _ \<Rightarrow> None) es
     in (ids = [] \<and> next_model_request_sequence s' = next_model_request_sequence s) \<or>
      (ids = [model_request_id (unat (next_model_request_sequence s))] \<and>
       unat (next_model_request_sequence s') = unat (next_model_request_sequence s) + 1))"
  using assms
  by (induction rule: engine_step.induct)
     (auto simp: Let_def List.map_filter_simps build_model_request_def mint_model_request_id_def
       model_request_id_def ENGINE_CORRELATION_SEQUENCE_STEP_def unat_saturating_add_one)

interpretation engine_id: id_machine engine_next minted_ids next_model_request_sequence model_request_id
proof unfold_locales
  show "inj_on model_request_id {..<2 ^ LENGTH(32) - 1}"
    using model_request_id_inj by (rule inj_on_subset) simp
next
  fix s :: "'v engine_state" and i
  assume lt: "unat (next_model_request_sequence s) + 1 < 2 ^ LENGTH(32)"
  show "(minted_ids s i = [] \<and> next_model_request_sequence (engine_next s i) = next_model_request_sequence s) \<or>
    (minted_ids s i = [model_request_id (unat (next_model_request_sequence s))] \<and>
     unat (next_model_request_sequence (engine_next s i)) = unat (next_model_request_sequence s) + 1)"
  proof (cases s i rule: engine_next_cases)
    case (rejected r)
    then show ?thesis by (simp add: minted_ids_def List.map_filter_simps)
  next
    case accepted
    from engine_step_minted [OF this(2)] lt show ?thesis
      by (simp add: minted_ids_def Let_def)
  qed
qed

text \<open>
  Correlation ids are never reused: over every run of a fresh engine that is too short to
  saturate the 32-bit sequence, the ids of the model requests it starts (re-sends after a retry
  wait keep their id) are pairwise distinct.
\<close>

lemma engine_request_ids_distinct:
  assumes "length is + 1 < 2 ^ 32"
  shows "distinct (run_out engine_next minted_ids engine_new is)"
  using assms
  by (intro engine_id.ids_run_distinct) (simp add: engine_new_def ENGINE_INITIAL_MODEL_REQUEST_SEQUENCE_def)

section \<open>Tool results\<close>

lemma tool_feedback_Cons:
  "map tool_feedback is = map Some (b # bs) \<longleftrightarrow>
   (\<exists>j js. is = j # js \<and> tool_feedback j = Some b \<and> map tool_feedback js = map Some bs)"
  by (cases "is") auto

lemma feedback_accepted:
  assumes "engine_inv s" "phase s = WaitingForTools" "tool_feedback i = Some b"
    "br_call_id b \<in> set (pending_tool_calls s)" "br_call_id b \<notin> br_call_id ` set (buffered_tool_results s)"
  shows "engine_step s i (engine_effects s i) (engine_next s i)"
  using assms feedback_complete_accepted [OF assms(1,2,4,5)]
  by (intro engine_accepted_step) (simp add: engine_reduce_feedback)

lemma feedback_buffered:
  assumes "engine_inv s" "phase s = WaitingForTools" "tool_feedback i = Some b"
    "br_call_id b \<in> set (pending_tool_calls s)" "br_call_id b \<notin> br_call_id ` set (buffered_tool_results s)"
    "Suc (length (buffered_tool_results s)) < length (pending_tool_calls s)"
  shows "phase (engine_next s i) = WaitingForTools \<and> messages (engine_next s i) = messages s \<and>
    pending_tool_calls (engine_next s i) = pending_tool_calls s \<and>
    buffered_tool_results (engine_next s i) = buffered_tool_results s @ [b] \<and>
    slot_budget (engine_next s i) = slot_budget s \<and> slots_used (engine_next s i) = slots_used s"
  using feedback_accepted [OF assms(1-5)] assms
  by (cases rule: engine_step.cases) auto

definition results_in_call_order ::
  "correlation_id list \<Rightarrow> 'v engine_buffered_tool_result list \<Rightarrow> 'v engine_message list" where
  "results_in_call_order cids bs =
     map (\<lambda>cid. buffered_tool_result_to_message (the (find (\<lambda>b. br_call_id b = cid) bs))) cids"

lemma feedback_last:
  assumes "engine_inv s" "phase s = WaitingForTools" "tool_feedback i = Some b"
    "br_call_id b \<in> set (pending_tool_calls s)" "br_call_id b \<notin> br_call_id ` set (buffered_tool_results s)"
    "\<not> Suc (length (buffered_tool_results s)) < length (pending_tool_calls s)"
  shows "phase (engine_next s i) = (if slots_used s < slot_budget s then WaitingForModel else Finished) \<and>
    messages (engine_next s i) = messages s @
      results_in_call_order (pending_tool_calls s) (buffered_tool_results s @ [b])"
proof -
  let ?buf = "buffered_tool_results s @ [b]"
  have "set (pending_tool_calls s) = br_call_id ` set ?buf"
    using assms by (intro last_result_covers(1)) (auto simp: engine_inv_def pending_tools_ok_def)
  then have ms: "append_tool_messages (pending_tool_calls s) ?buf (messages s) =
      Some (messages s @ results_in_call_order (pending_tool_calls s) ?buf)"
    unfolding results_in_call_order_def by (intro append_tool_messages_map) simp
  show ?thesis
    using feedback_accepted [OF assms(1-5)] assms ms
    by (cases rule: engine_step.cases) auto
qed

lemma tool_results_run:
  assumes "engine_inv s" "phase s = WaitingForTools" "map tool_feedback is = map Some bs" "bs \<noteq> []"
    "distinct (map br_call_id (buffered_tool_results s @ bs))"
    "set (pending_tool_calls s) = br_call_id ` set (buffered_tool_results s @ bs)"
    "length (pending_tool_calls s) = length (buffered_tool_results s @ bs)"
  shows "phase (run_next engine_next s is) = (if slots_used s < slot_budget s then WaitingForModel else Finished) \<and>
    messages (run_next engine_next s is) = messages s @
      results_in_call_order (pending_tool_calls s) (buffered_tool_results s @ bs)"
  using assms
proof (induction bs arbitrary: s "is")
  case (Cons b bs)
  from Cons.prems(3) obtain j js where js: "is = j # js" "tool_feedback j = Some b"
      "map tool_feedback js = map Some bs"
    by (auto simp: tool_feedback_Cons)
  have cid: "br_call_id b \<in> set (pending_tool_calls s)"
      "br_call_id b \<notin> br_call_id ` set (buffered_tool_results s)"
    using Cons.prems(5,6) by auto
  note prem = Cons.prems(1,2) js(2) cid
  show ?case
  proof (cases "bs = []")
    case True
    with js feedback_last [OF prem] Cons.prems(7) show ?thesis by simp
  next
    case False
    then have "Suc (length (buffered_tool_results s)) < length (pending_tool_calls s)"
      using Cons.prems(7) by (cases bs) auto
    note nxt = feedback_buffered [OF prem this]
    have "phase (run_next engine_next (engine_next s j) js) =
        (if slots_used s < slot_budget s then WaitingForModel else Finished) \<and>
      messages (run_next engine_next (engine_next s j) js) = messages s @
        results_in_call_order (pending_tool_calls s) ((buffered_tool_results s @ [b]) @ bs)"
      using Cons.IH [OF engine_inv_next [OF Cons.prems(1)], of j js] nxt js(3) False Cons.prems(5-7)
      by auto
    then show ?thesis using js by simp
  qed
qed simp

text \<open>
  C3 (functional). Tool results enter the conversation in call order: when a model response has asked
  for tools with distinct ids and the results (successes or failures) of all of them arrive in
  any order, the engine appends one result message per call, in the order of the calls and not of
  the arrival, and then continues with the next model request or, when the slots are used up,
  ends the turn.
\<close>

theorem tool_results_any_order:
  assumes "engine_inv s" "phase s = WaitingForTools" "buffered_tool_results s = []"
    and "distinct (pending_tool_calls s)"
    and "map tool_feedback is = map Some bs"
    and "mset (map br_call_id bs) = mset (pending_tool_calls s)"
  shows "messages (run_next engine_next s is) =
      messages s @ results_in_call_order (pending_tool_calls s) bs \<and>
    phase (run_next engine_next s is) = (if slots_used s < slot_budget s then WaitingForModel else Finished)"
proof -
  have eq: "set (pending_tool_calls s) = br_call_id ` set bs"
    using mset_eq_setD [OF assms(6)] by simp
  have d: "distinct (map br_call_id bs)" "length bs = length (pending_tool_calls s)"
    using assms(4) mset_eq_imp_distinct_iff [OF assms(6)] mset_eq_length [OF assms(6)] by auto
  moreover have "bs \<noteq> []"
    using assms(1,2) d(2) by (auto simp: engine_inv_def pending_tools_ok_def)
  ultimately show ?thesis
    using tool_results_run [OF assms(1,2,5)] eq assms(3) by simp
qed

text \<open>A turn that waits for tool results, for the examples below.\<close>

definition two_calls_state :: "correlation_id list \<Rightarrow> nat engine_state" where
  "two_calls_state cids = \<lparr>contract_version = ENGINE_CONTRACT_VERSION, phase = WaitingForTools,
     messages = [], request_template = Some \<lparr>rt_model = ''m'', rt_system_prompt = '''',
       rt_max_tokens = None, rt_temperature = None, rt_thinking = None, rt_tools = [],
       rt_no_cache = False, rt_cache_ttl = None, rt_session_id = ''s'',
       rt_retry_policy = default_retry_policy\<rparr>,
     pending_model_request = None, next_model_request_sequence = 2, pending_tool_calls = cids,
     buffered_tool_results = [], retry_attempts = 0, slot_budget = 2, slots_used = 1\<rparr>"

lemma two_calls_state_inv: "cids \<noteq> [] \<Longrightarrow> engine_inv (two_calls_state cids)"
  by (simp add: two_calls_state_def engine_inv_def engine_inv_defs)

theorem tool_results_any_order_witness:
  "messages (run_next engine_next (two_calls_state [''a'', ''b''])
      [ToolFailed ''b'' ''no'' [], ToolCompleted ''a'' [ContentText ''ok'']]) =
    [\<lparr>em_role = Tool, em_content = [ContentToolResult ''a'' [ContentText ''ok''] None]\<rparr>,
     \<lparr>em_role = Tool, em_content = [ContentToolResult ''b'' [ContentText ''no''] (Some True)]\<rparr>]"
  using tool_results_any_order [of "two_calls_state [''a'', ''b'']"
      "[ToolFailed ''b'' ''no'' [], ToolCompleted ''a'' [ContentText ''ok'']]"
      "[\<lparr>br_call_id = ''b'', br_content = [ContentText ''no''], br_is_error = True\<rparr>,
        \<lparr>br_call_id = ''a'', br_content = [ContentText ''ok''], br_is_error = False\<rparr>]"]
  by (simp add: two_calls_state_inv)
     (simp add: two_calls_state_def results_in_call_order_def buffered_tool_result_to_message_def
       add_mset_commute)

text \<open>
  A response that repeats a tool-call id cannot be completed: the ids of buffered results
  stay distinct, so one result is always missing. From then on every input but a cancellation
  leaves the engine waiting for tools, without a single effect.
\<close>

lemma duplicate_call_ids_stall:
  assumes "engine_inv s" "phase s = WaitingForTools" "\<not> distinct (pending_tool_calls s)"
    and "\<forall>i \<in> set is. \<forall>reason. i \<noteq> CancelTurn reason"
  shows "phase (run_next engine_next s is) = WaitingForTools \<and>
    run_out engine_next engine_effects s is = []"
  using assms
proof (induction "is" arbitrary: s)
  case (Cons i "is")
  show ?case
  proof (cases s i rule: engine_next_cases)
    case (rejected r)
    then show ?thesis using Cons by simp
  next
    case accepted
    have "phase (engine_next s i) = WaitingForTools \<and> engine_effects s i = [] \<and>
        pending_tool_calls (engine_next s i) = pending_tool_calls s"
      using accepted(2)
    proof (cases rule: engine_step.cases)
      case (continue_turn b t ms rid nseq)
      then show ?thesis
        using last_result_covers(2) [of "buffered_tool_results s @ [b]" "pending_tool_calls s"] Cons.prems
        by (auto simp: engine_inv_def pending_tools_ok_def)
    next
      case (exhaust b t ms)
      then show ?thesis
        using last_result_covers(2) [of "buffered_tool_results s @ [b]" "pending_tool_calls s"] Cons.prems
        by (auto simp: engine_inv_def pending_tools_ok_def)
    qed (use Cons.prems in auto)
    then show ?thesis using Cons.IH [OF engine_inv_next [OF Cons.prems(1)], of i] Cons.prems by simp
  qed
qed simp

end
