(* ===== verification/Ordered_Map.thy ===== *)
theory Ordered_Map
  imports Prelude
begin

text \<open>
  The \<^verbatim>\<open>BTreeMap\<close> of the Rust standard library as the program uses it: lookup, insertion (which
  replaces the value of a present key), removal and iteration in key order. The operations are
  executable, on association lists sorted by key. The locale states the contract the client
  components rely on, and holds what follows from it alone: a map is determined by its lookups.
\<close>

type_synonym ('k, 'v) btree = "('k \<times> 'v) list"

fun bt_get :: "('k::linorder, 'v) btree \<Rightarrow> 'k \<Rightarrow> 'v option" where
  "bt_get [] k = None"
| "bt_get ((k', v) # m) k = (if k = k' then Some v else bt_get m k)"

fun bt_insert :: "'k::linorder \<Rightarrow> 'v \<Rightarrow> ('k, 'v) btree \<Rightarrow> ('k, 'v) btree" where
  "bt_insert k v [] = [(k, v)]"
| "bt_insert k v ((k', v') # m) =
     (if k < k' then (k, v) # (k', v') # m
      else if k = k' then (k, v) # m
      else (k', v') # bt_insert k v m)"

definition bt_remove :: "'k::linorder \<Rightarrow> ('k, 'v) btree \<Rightarrow> ('k, 'v) btree" where
  "bt_remove k m = filter (\<lambda>e. fst e \<noteq> k) m"

definition bt_inv :: "('k::linorder, 'v) btree \<Rightarrow> bool" where
  "bt_inv m \<longleftrightarrow> sorted_wrt (<) (map fst m)"

abbreviation bt_keys :: "('k::linorder, 'v) btree \<Rightarrow> 'k list" where
  "bt_keys m \<equiv> map fst m"

section \<open>The contract\<close>

locale ordered_map =
  fixes empty :: 'm
    and get :: "'m \<Rightarrow> 'k::linorder \<Rightarrow> 'v option"
    and insert :: "'k \<Rightarrow> 'v \<Rightarrow> 'm \<Rightarrow> 'm"
    and remove :: "'k \<Rightarrow> 'm \<Rightarrow> 'm"
    and entries :: "'m \<Rightarrow> ('k \<times> 'v) list"
    and inv :: "'m \<Rightarrow> bool"
  assumes inv_empty: "inv empty"
    and inv_insert: "inv m \<Longrightarrow> inv (insert k v m)"
    and inv_remove: "inv m \<Longrightarrow> inv (remove k m)"
    and get_empty: "get empty k = None"
    and get_insert: "inv m \<Longrightarrow> get (insert k v m) k' = (if k' = k then Some v else get m k')"
    and get_remove: "inv m \<Longrightarrow> get (remove k m) k' = (if k' = k then None else get m k')"
    and entries_ordered: "inv m \<Longrightarrow> sorted_wrt (<) (map fst (entries m))"
    and entries_get: "inv m \<Longrightarrow> map_of (entries m) k = get m k"
begin

lemma keys_get: "inv m \<Longrightarrow> k \<in> set (map fst (entries m)) \<longleftrightarrow> get m k \<noteq> None"
  by (metis entries_get list.set_map map_of_eq_None_iff)

lemma entry_get: "inv m \<Longrightarrow> (k, v) \<in> set (entries m) \<longleftrightarrow> get m k = Some v"
  by (metis entries_get entries_ordered map_of_eq_Some_iff strict_sorted_iff)

lemma entries_unique:
  assumes "inv m" "inv n" "\<And>k. get m k = get n k"
  shows "entries m = entries n"
proof -
  have "set (entries m) = set (entries n)"
    using assms entry_get by (metis subrelI subset_antisym)
  moreover have "sorted (map fst (entries m)) \<and> distinct (map fst (entries m))"
      "sorted (map fst (entries n)) \<and> distinct (map fst (entries n))"
    using assms(1,2) entries_ordered by (simp_all add: strict_sorted_iff)
  ultimately show ?thesis
    using map_sorted_distinct_set_unique [of fst "entries m" "entries n"]
    by (auto simp: inj_on_def distinct_map)
qed

end

section \<open>The sorted lists meet it\<close>

lemma bt_insert_keys: "set (bt_keys (bt_insert k v m)) = insert k (set (bt_keys m))"
  by (induction k v m rule: bt_insert.induct) auto

lemma bt_inv_insert: "bt_inv m \<Longrightarrow> bt_inv (bt_insert k v m)"
proof (induction k v m rule: bt_insert.induct)
  case (2 k v k' v' m)
  then show ?case
    using bt_insert_keys [of k v m] by (auto simp: bt_inv_def)
qed (simp add: bt_inv_def)

lemma bt_get_insert: "bt_get (bt_insert k v m) k' = (if k' = k then Some v else bt_get m k')"
  by (induction k v m rule: bt_insert.induct) auto

lemma bt_get_remove: "bt_get (bt_remove k m) k' = (if k' = k then None else bt_get m k')"
  by (induction m) (auto simp: bt_remove_def)

lemma bt_get_map_of: "bt_get m k = map_of m k"
  by (induction m k rule: bt_get.induct) auto

interpretation btree: ordered_map "[]" bt_get bt_insert bt_remove "\<lambda>m. m" bt_inv
proof unfold_locales
  fix k and m :: "('a::linorder, 'b) btree"
  assume "bt_inv m"
  then show "bt_inv (bt_remove k m)"
    unfolding bt_inv_def bt_remove_def by (induction m) (auto simp: sorted_wrt_append)
qed (auto simp: bt_inv_insert bt_get_insert bt_get_remove simp flip: bt_get_map_of, simp_all add: bt_inv_def)

lemma bt_ext: "bt_inv m \<Longrightarrow> bt_inv n \<Longrightarrow> (\<And>k. bt_get m k = bt_get n k) \<Longrightarrow> m = n"
  by (rule btree.entries_unique)

end
