(* ===== verification/Stream_Fold.thy ===== *)
theory Stream_Fold
  imports Message Ordered_Map
begin

text \<open>
  The stream accumulator of the engine host, \<^verbatim>\<open>crates/clankers-engine-host/src/stream.rs\<close>: it folds
  provider stream events into content blocks. The JSON parser of \<^verbatim>\<open>serde_json\<close> is a parameter,
  \<open>from_str\<close>, with its test \<open>is_object\<close>. The lemmas reduce the accumulator to independent machines,
  one per block index, so that the interleaving of the blocks does not matter.
\<close>

section \<open>Events and state\<close>

definition EMPTY_TOOL_INPUT_JSON :: string where "EMPTY_TOOL_INPUT_JSON = ''{}''"

record provider_stream_error =
  pe_message :: string
  pe_status :: "u16 option"
  pe_retryable :: bool

datatype host_stream_event =
    TextStart nat
  | TextDelta nat string
  | ThinkingStart nat string
  | ThinkingDelta nat string
  | ToolUseStart nat string string
  | ToolUseJsonDelta nat string
  | ContentBlockStop nat
  | UsageEvent usage
  | MessageStop "string option" stop_reason
  | ProviderErrorEvent provider_stream_error

record 'v stream_fold_result =
  fr_content :: "'v content list"
  fr_usage :: "usage option"
  fr_model :: "string option"
  fr_stop_reason :: "stop_reason option"

datatype stream_accumulator_error =
    MissingContentBlockStart nat
  | DuplicateContentBlockIndex nat
  | LateContentDelta nat
  | WrongContentDeltaKind nat
  | MalformedToolJson nat string
  | NonObjectToolJson nat
  | ProviderError string "u16 option" bool

record text_block =
  tb_text :: string
  tb_stopped :: bool

record thinking_block =
  kb_thinking :: string
  kb_signature :: string
  kb_stopped :: bool

record tool_use_block =
  ub_id :: string
  ub_name :: string
  ub_json :: string
  ub_stopped :: bool

datatype block_state = TextB text_block | ThinkingB thinking_block | ToolUseB tool_use_block

record stream_accumulator =
  blocks :: "(nat, block_state) btree"
  acc_usage :: "usage option"
  acc_model :: "string option"
  acc_stop_reason :: "stop_reason option"

section \<open>Operations\<close>

definition stream_new :: stream_accumulator where
  "stream_new = \<lparr>blocks = [], acc_usage = None, acc_model = None, acc_stop_reason = None\<rparr>"

fun stopped :: "block_state \<Rightarrow> bool" where
  "stopped (TextB b) = tb_stopped b"
| "stopped (ThinkingB b) = kb_stopped b"
| "stopped (ToolUseB b) = ub_stopped b"

fun stop :: "block_state \<Rightarrow> block_state" where
  "stop (TextB b) = TextB (b\<lparr>tb_stopped := True\<rparr>)"
| "stop (ThinkingB b) = ThinkingB (b\<lparr>kb_stopped := True\<rparr>)"
| "stop (ToolUseB b) = ToolUseB (b\<lparr>ub_stopped := True\<rparr>)"

definition insert_block ::
  "stream_accumulator \<Rightarrow> nat \<Rightarrow> block_state \<Rightarrow> stream_accumulator_error + stream_accumulator" where
  "insert_block self index block =
     (if bt_get (blocks self) index \<noteq> None then Inl (DuplicateContentBlockIndex index)
      else Inr (self\<lparr>blocks := bt_insert index block (blocks self)\<rparr>))"

definition block_mut :: "stream_accumulator \<Rightarrow> nat \<Rightarrow> stream_accumulator_error + block_state" where
  "block_mut self index = (case bt_get (blocks self) index of
     None \<Rightarrow> Inl (MissingContentBlockStart index) | Some b \<Rightarrow> Inr b)"

definition ensure_not_stopped :: "nat \<Rightarrow> block_state \<Rightarrow> stream_accumulator_error + unit" where
  "ensure_not_stopped index block = (if stopped block then Inl (LateContentDelta index) else Inr ())"

definition push_text_delta ::
  "stream_accumulator \<Rightarrow> nat \<Rightarrow> string \<Rightarrow> stream_accumulator_error + stream_accumulator" where
  "push_text_delta self index text = (case block_mut self index of
     Inl e \<Rightarrow> Inl e
   | Inr block \<Rightarrow> (case ensure_not_stopped index block of
       Inl e \<Rightarrow> Inl e
     | Inr _ \<Rightarrow> (case block of
         TextB b \<Rightarrow> Inr (self\<lparr>blocks := bt_insert index (TextB (b\<lparr>tb_text := tb_text b @ text\<rparr>)) (blocks self)\<rparr>)
       | _ \<Rightarrow> Inl (WrongContentDeltaKind index))))"

definition push_thinking_delta ::
  "stream_accumulator \<Rightarrow> nat \<Rightarrow> string \<Rightarrow> stream_accumulator_error + stream_accumulator" where
  "push_thinking_delta self index thinking = (case block_mut self index of
     Inl e \<Rightarrow> Inl e
   | Inr block \<Rightarrow> (case ensure_not_stopped index block of
       Inl e \<Rightarrow> Inl e
     | Inr _ \<Rightarrow> (case block of
         ThinkingB b \<Rightarrow> Inr (self\<lparr>blocks :=
           bt_insert index (ThinkingB (b\<lparr>kb_thinking := kb_thinking b @ thinking\<rparr>)) (blocks self)\<rparr>)
       | _ \<Rightarrow> Inl (WrongContentDeltaKind index))))"

definition push_tool_json_delta ::
  "stream_accumulator \<Rightarrow> nat \<Rightarrow> string \<Rightarrow> stream_accumulator_error + stream_accumulator" where
  "push_tool_json_delta self index json = (case block_mut self index of
     Inl e \<Rightarrow> Inl e
   | Inr block \<Rightarrow> (case ensure_not_stopped index block of
       Inl e \<Rightarrow> Inl e
     | Inr _ \<Rightarrow> (case block of
         ToolUseB b \<Rightarrow> Inr (self\<lparr>blocks :=
           bt_insert index (ToolUseB (b\<lparr>ub_json := ub_json b @ json\<rparr>)) (blocks self)\<rparr>)
       | _ \<Rightarrow> Inl (WrongContentDeltaKind index))))"

definition stop_block :: "stream_accumulator \<Rightarrow> nat \<Rightarrow> stream_accumulator_error + stream_accumulator" where
  "stop_block self index = (case block_mut self index of
     Inl e \<Rightarrow> Inl e
   | Inr block \<Rightarrow> Inr (self\<lparr>blocks := bt_insert index (stop block) (blocks self)\<rparr>))"

fun push :: "stream_accumulator \<Rightarrow> host_stream_event \<Rightarrow> stream_accumulator_error + stream_accumulator" where
  "push self (TextStart index) = insert_block self index (TextB \<lparr>tb_text = [], tb_stopped = False\<rparr>)"
| "push self (TextDelta index text) = push_text_delta self index text"
| "push self (ThinkingStart index signature) = insert_block self index
     (ThinkingB \<lparr>kb_thinking = [], kb_signature = signature, kb_stopped = False\<rparr>)"
| "push self (ThinkingDelta index thinking) = push_thinking_delta self index thinking"
| "push self (ToolUseStart index bid name) = insert_block self index
     (ToolUseB \<lparr>ub_id = bid, ub_name = name, ub_json = [], ub_stopped = False\<rparr>)"
| "push self (ToolUseJsonDelta index json) = push_tool_json_delta self index json"
| "push self (ContentBlockStop index) = stop_block self index"
| "push self (UsageEvent u) = Inr (self\<lparr>acc_usage := Some u\<rparr>)"
| "push self (MessageStop model reason) =
     Inr (self\<lparr>acc_model := model, acc_stop_reason := Some reason\<rparr>)"
| "push self (ProviderErrorEvent e) = Inl (ProviderError (pe_message e) (pe_status e) (pe_retryable e))"

definition parse_tool_input ::
  "(string \<Rightarrow> string + 'v) \<Rightarrow> ('v \<Rightarrow> bool) \<Rightarrow> nat \<Rightarrow> string \<Rightarrow> stream_accumulator_error + 'v" where
  "parse_tool_input from_str is_object index json =
     (let source = (if is_blank json then EMPTY_TOOL_INPUT_JSON else json)
      in case from_str source of
           Inl message \<Rightarrow> Inl (MalformedToolJson index message)
         | Inr v \<Rightarrow> if \<not> is_object v then Inl (NonObjectToolJson index) else Inr v)"

fun block_to_content ::
  "(string \<Rightarrow> string + 'v) \<Rightarrow> ('v \<Rightarrow> bool) \<Rightarrow> nat \<Rightarrow> block_state \<Rightarrow> stream_accumulator_error + 'v content" where
  "block_to_content from_str is_object index (TextB b) = Inr (ContentText (tb_text b))"
| "block_to_content from_str is_object index (ThinkingB b) =
     Inr (ContentThinking (kb_thinking b) (kb_signature b))"
| "block_to_content from_str is_object index (ToolUseB b) =
     (case parse_tool_input from_str is_object index (ub_json b) of
        Inl e \<Rightarrow> Inl e
      | Inr v \<Rightarrow> Inr (ContentToolUse (ub_id b) (ub_name b) v))"

fun finish_blocks ::
  "(string \<Rightarrow> string + 'v) \<Rightarrow> ('v \<Rightarrow> bool) \<Rightarrow> (nat, block_state) btree \<Rightarrow>
   stream_accumulator_error + 'v content list" where
  "finish_blocks from_str is_object [] = Inr []"
| "finish_blocks from_str is_object ((index, block) # bs) =
     (case block_to_content from_str is_object index block of
        Inl e \<Rightarrow> Inl e
      | Inr c \<Rightarrow> (case finish_blocks from_str is_object bs of
          Inl e \<Rightarrow> Inl e
        | Inr cs \<Rightarrow> Inr (c # cs)))"

definition finish ::
  "(string \<Rightarrow> string + 'v) \<Rightarrow> ('v \<Rightarrow> bool) \<Rightarrow> stream_accumulator \<Rightarrow>
   stream_accumulator_error + 'v stream_fold_result" where
  "finish from_str is_object self = (case finish_blocks from_str is_object (blocks self) of
     Inl e \<Rightarrow> Inl e
   | Inr content \<Rightarrow> Inr \<lparr>fr_content = content, fr_usage = acc_usage self, fr_model = acc_model self,
       fr_stop_reason = acc_stop_reason self\<rparr>)"

text \<open>The fold over a stream, which stops at the first error (the loop of
  \<^verbatim>\<open>stream_events_to_model_input\<close>, without its usage callbacks).\<close>

fun push_all :: "stream_accumulator \<Rightarrow> host_stream_event list \<Rightarrow> stream_accumulator_error + stream_accumulator" where
  "push_all acc [] = Inr acc"
| "push_all acc (ev # evs) = (case push acc ev of Inl e \<Rightarrow> Inl e | Inr acc' \<Rightarrow> push_all acc' evs)"

section \<open>One machine per block index\<close>

fun event_index :: "host_stream_event \<Rightarrow> nat option" where
  "event_index (TextStart i) = Some i"
| "event_index (TextDelta i _) = Some i"
| "event_index (ThinkingStart i _) = Some i"
| "event_index (ThinkingDelta i _) = Some i"
| "event_index (ToolUseStart i _ _) = Some i"
| "event_index (ToolUseJsonDelta i _) = Some i"
| "event_index (ContentBlockStop i) = Some i"
| "event_index _ = None"

definition project :: "nat \<Rightarrow> host_stream_event list \<Rightarrow> host_stream_event list" where
  "project i evs = filter (\<lambda>e. event_index e = Some i) evs"

definition globals :: "host_stream_event list \<Rightarrow> host_stream_event list" where
  "globals evs = filter (\<lambda>e. event_index e = None) evs"

text \<open>The block an event of index \<open>i\<close> leaves, from the block it finds; \<^term>\<open>None\<close> if it is refused.\<close>

fun block_step :: "block_state option \<Rightarrow> host_stream_event \<Rightarrow> block_state option" where
  "block_step None (TextStart i) = Some (TextB \<lparr>tb_text = [], tb_stopped = False\<rparr>)"
| "block_step None (ThinkingStart i s) =
     Some (ThinkingB \<lparr>kb_thinking = [], kb_signature = s, kb_stopped = False\<rparr>)"
| "block_step None (ToolUseStart i b n) =
     Some (ToolUseB \<lparr>ub_id = b, ub_name = n, ub_json = [], ub_stopped = False\<rparr>)"
| "block_step (Some (TextB b)) (TextDelta i t) =
     (if tb_stopped b then None else Some (TextB (b\<lparr>tb_text := tb_text b @ t\<rparr>)))"
| "block_step (Some (ThinkingB b)) (ThinkingDelta i t) =
     (if kb_stopped b then None else Some (ThinkingB (b\<lparr>kb_thinking := kb_thinking b @ t\<rparr>)))"
| "block_step (Some (ToolUseB b)) (ToolUseJsonDelta i t) =
     (if ub_stopped b then None else Some (ToolUseB (b\<lparr>ub_json := ub_json b @ t\<rparr>)))"
| "block_step (Some b) (ContentBlockStop i) = Some (stop b)"
| "block_step _ _ = None"

fun block_run :: "block_state option \<Rightarrow> host_stream_event list \<Rightarrow> block_state option option" where
  "block_run b [] = Some b"
| "block_run b (ev # evs) = (case block_step b ev of None \<Rightarrow> None | Some b' \<Rightarrow> block_run (Some b') evs)"

lemmas push_defs = insert_block_def block_mut_def ensure_not_stopped_def push_text_delta_def
  push_thinking_delta_def push_tool_json_delta_def stop_block_def

lemma push_indexed:
  assumes "event_index ev = Some i"
  shows "(case block_step (bt_get (blocks acc) i) ev of
     None \<Rightarrow> \<exists>e. push acc ev = Inl e
   | Some b \<Rightarrow> push acc ev = Inr (acc\<lparr>blocks := bt_insert i b (blocks acc)\<rparr>))"
proof (cases "bt_get (blocks acc) i")
  case None
  with assms show ?thesis by (cases ev) (auto simp: push_defs)
next
  case (Some a)
  with assms show ?thesis by (cases a; cases ev) (auto simp: push_defs)
qed

fun push_global :: "stream_accumulator \<Rightarrow> host_stream_event \<Rightarrow> stream_accumulator option" where
  "push_global acc (UsageEvent u) = Some (acc\<lparr>acc_usage := Some u\<rparr>)"
| "push_global acc (MessageStop m r) = Some (acc\<lparr>acc_model := m, acc_stop_reason := Some r\<rparr>)"
| "push_global acc _ = None"

lemma push_unindexed:
  assumes "event_index ev = None"
  shows "(case push_global acc ev of None \<Rightarrow> \<exists>e. push acc ev = Inl e | Some acc' \<Rightarrow> push acc ev = Inr acc')"
  using assms by (cases ev) auto

fun run_global :: "stream_accumulator \<Rightarrow> host_stream_event list \<Rightarrow> stream_accumulator option" where
  "run_global acc [] = Some acc"
| "run_global acc (ev # evs) = (case push_global acc ev of None \<Rightarrow> None | Some acc' \<Rightarrow> run_global acc' evs)"

lemma push_global_blocks:
  "push_global (acc\<lparr>blocks := m\<rparr>) ev = map_option (\<lambda>a. a\<lparr>blocks := m\<rparr>) (push_global acc ev)"
  by (cases ev) auto

lemma push_global_keeps_blocks: "push_global acc ev = Some acc' \<Longrightarrow> blocks acc' = blocks acc"
  by (cases ev) auto

lemma run_global_blocks:
  "run_global (acc\<lparr>blocks := m\<rparr>) evs = map_option (\<lambda>a. a\<lparr>blocks := m\<rparr>) (run_global acc evs)"
  by (induction evs arbitrary: acc) (auto simp: push_global_blocks split: option.splits)

lemma run_global_keeps_blocks: "run_global acc evs = Some acc' \<Longrightarrow> blocks acc' = blocks acc"
  by (induction evs arbitrary: acc) (auto dest: push_global_keeps_blocks split: option.splits)

lemma blocks_update_cancel:
  "(z :: stream_accumulator)\<lparr>blocks := m\<rparr> = a\<lparr>blocks := m\<rparr> \<Longrightarrow> blocks z = n \<Longrightarrow> z = a\<lparr>blocks := n\<rparr>"
  by (cases z; cases a) simp

text \<open>The fold over a whole stream, as independent runs.\<close>

lemma push_all_decompose:
  assumes "bt_inv (blocks acc)"
  shows "push_all acc evs = Inr acc' \<longleftrightarrow>
    bt_inv (blocks acc') \<and> run_global acc (globals evs) = Some (acc'\<lparr>blocks := blocks acc\<rparr>) \<and>
    (\<forall>i. block_run (bt_get (blocks acc) i) (project i evs) = Some (bt_get (blocks acc') i))"
  using assms
proof (induction evs arbitrary: acc)
  case Nil
  have "bt_inv (blocks acc') \<Longrightarrow> acc = acc'\<lparr>blocks := blocks acc\<rparr> \<Longrightarrow>
      (\<forall>i. bt_get (blocks acc) i = bt_get (blocks acc') i) \<Longrightarrow> acc = acc'"
    using bt_ext [OF Nil] by (metis stream_accumulator.surjective stream_accumulator.update_convs(1))
  then show ?case using Nil by (auto simp: project_def globals_def)
next
  case (Cons ev evs)
  show ?case
  proof (cases "event_index ev")
    case None
    note step = push_unindexed [OF None, of acc]
    show ?thesis
    proof (cases "push_global acc ev")
      case None
      with step \<open>event_index ev = None\<close> show ?thesis by (auto simp: globals_def)
    next
      case (Some a)
      with step push_global_keeps_blocks [OF Some] Cons show ?thesis
        using \<open>event_index ev = None\<close> by (simp add: globals_def project_def)
    qed
  next
    case (Some i)
    note step = push_indexed [OF Some, of acc]
    have glob: "globals (ev # evs) = globals evs" using Some by (simp add: globals_def)
    show ?thesis
    proof (cases "block_step (bt_get (blocks acc) i) ev")
      case None
      then have "block_run (bt_get (blocks acc) i) (project i (ev # evs)) = None"
        using Some by (simp add: project_def)
      then have "\<not> (\<forall>i. block_run (bt_get (blocks acc) i) (project i (ev # evs)) = Some (bt_get (blocks acc') i))"
        by (metis option.distinct(1))
      moreover have "push_all acc (ev # evs) \<noteq> Inr acc'" using step None by auto
      ultimately show ?thesis by blast
    next
      case b: (Some b)
      let ?acc = "acc\<lparr>blocks := bt_insert i b (blocks acc)\<rparr>"
      have inv: "bt_inv (blocks ?acc)" using Cons.prems by (simp add: bt_inv_insert)
      have runs: "block_run (bt_get (blocks ?acc) j) (project j evs) =
          block_run (bt_get (blocks acc) j) (project j (ev # evs))" for j
        using Some b by (auto simp: project_def bt_get_insert)
      have "run_global ?acc (globals evs) = Some (acc'\<lparr>blocks := blocks ?acc\<rparr>) \<longleftrightarrow>
          run_global acc (globals evs) = Some (acc'\<lparr>blocks := blocks acc\<rparr>)"
        using run_global_keeps_blocks [of acc "globals evs"]
        by (auto simp: run_global_blocks intro: blocks_update_cancel)
      with step b Cons.IH [OF inv] runs glob show ?thesis by simp
    qed
  qed
qed

lemma bt_inv_new: "bt_inv (blocks stream_new)"
  by (simp add: stream_new_def bt_inv_def)

lemma bt_get_new [simp]: "bt_get (blocks stream_new) i = None"
  by (simp add: stream_new_def)

lemma push_all_new:
  "push_all stream_new evs = Inr acc \<longleftrightarrow>
    bt_inv (blocks acc) \<and> run_global stream_new (globals evs) = Some (acc\<lparr>blocks := []\<rparr>) \<and>
    (\<forall>i. block_run None (project i evs) = Some (bt_get (blocks acc) i))"
  using push_all_decompose [OF bt_inv_new, of evs acc] by (simp add: stream_new_def)

text \<open>
  C28 (equivalence). The interleaving of content blocks does not matter: if two streams have the same
  events for every block index and the same stream-level events, each in the same order, then one
  is folded to an accumulator exactly when the other is, and to the same one.
\<close>

theorem stream_interleaving:
  assumes "\<forall>i. project i evs = project i evs'" and "globals evs = globals evs'"
  shows "push_all stream_new evs = Inr acc \<longleftrightarrow> push_all stream_new evs' = Inr acc"
  using assms by (simp add: push_all_new)

theorem stream_interleaving_witness:
  "let evs = [TextStart 0, ToolUseStart 1 ''c'' ''t'', TextDelta 0 ''a'', ToolUseJsonDelta 1 ''{}'', TextDelta 0 ''b''];
       evs' = [ToolUseStart 1 ''c'' ''t'', ToolUseJsonDelta 1 ''{}'', TextStart 0, TextDelta 0 ''a'', TextDelta 0 ''b'']
   in push_all stream_new evs' = Inr (stream_new\<lparr>blocks :=
        [(0, TextB \<lparr>tb_text = ''ab'', tb_stopped = False\<rparr>),
         (1, ToolUseB \<lparr>ub_id = ''c'', ub_name = ''t'', ub_json = ''{}'', ub_stopped = False\<rparr>)]\<rparr>)"
  unfolding Let_def
  by (subst stream_interleaving [of _ "[TextStart 0, ToolUseStart 1 ''c'' ''t'', TextDelta 0 ''a'',
        ToolUseJsonDelta 1 ''{}'', TextDelta 0 ''b'']"])
     (simp_all add: project_def globals_def stream_new_def push_defs)

section \<open>The accepted streams\<close>

fun starts_block :: "host_stream_event \<Rightarrow> bool" where
  "starts_block (TextStart i) = True"
| "starts_block (ThinkingStart i s) = True"
| "starts_block (ToolUseStart i b n) = True"
| "starts_block _ = False"

text \<open>The deltas a block accepts are those of its kind.\<close>

fun delta_of :: "host_stream_event \<Rightarrow> host_stream_event \<Rightarrow> string option" where
  "delta_of (TextStart i) (TextDelta j t) = Some t"
| "delta_of (ThinkingStart i s) (ThinkingDelta j t) = Some t"
| "delta_of (ToolUseStart i b n) (ToolUseJsonDelta j t) = Some t"
| "delta_of _ _ = None"

fun built_block :: "host_stream_event \<Rightarrow> string \<Rightarrow> bool \<Rightarrow> block_state option" where
  "built_block (TextStart i) p st = Some (TextB \<lparr>tb_text = p, tb_stopped = st\<rparr>)"
| "built_block (ThinkingStart i s) p st =
     Some (ThinkingB \<lparr>kb_thinking = p, kb_signature = s, kb_stopped = st\<rparr>)"
| "built_block (ToolUseStart i b n) p st =
     Some (ToolUseB \<lparr>ub_id = b, ub_name = n, ub_json = p, ub_stopped = st\<rparr>)"
| "built_block _ p st = None"

definition is_stop :: "host_stream_event \<Rightarrow> bool" where
  "is_stop ev = (case ev of ContentBlockStop _ \<Rightarrow> True | _ \<Rightarrow> False)"

text \<open>The events of one block: its start, deltas of its kind, then stops.\<close>

definition block_events :: "host_stream_event \<Rightarrow> string list \<Rightarrow> host_stream_event list \<Rightarrow> bool" where
  "block_events s ds evs \<longleftrightarrow> starts_block s \<and>
     (\<exists>deltas stops. evs = s # deltas @ stops \<and> map (delta_of s) deltas = map Some ds \<and> list_all is_stop stops)"

lemma built_block_step:
  "starts_block s \<Longrightarrow> block_step (built_block s p st) ev =
     (if is_stop ev then built_block s p True
      else case delta_of s ev of
        None \<Rightarrow> None
      | Some t \<Rightarrow> if st then None else built_block s (p @ t) False)"
  by (cases s; cases ev) (auto simp: is_stop_def)

lemma built_block_Some: "starts_block s \<Longrightarrow> \<exists>b. built_block s p st = Some b"
  by (cases s) auto

lemma stop_no_delta: "is_stop ev \<Longrightarrow> delta_of s ev = None"
  by (cases ev; cases s) (auto simp: is_stop_def)

lemma block_run_Cons:
  "starts_block s \<Longrightarrow> block_run (built_block s p st) (ev # evs) =
     (if is_stop ev then block_run (built_block s p True) evs
      else case delta_of s ev of
        None \<Rightarrow> None
      | Some t \<Rightarrow> if st then None else block_run (built_block s (p @ t) False) evs)"
  using built_block_Some [of s p True] built_block_Some [of s "p @ the (delta_of s ev)" False]
  by (auto simp: built_block_step split: option.splits)

lemma block_run_stopped:
  "starts_block s \<Longrightarrow> block_run (built_block s p True) evs =
     (if list_all is_stop evs then Some (built_block s p True) else None)"
  by (induction evs) (auto simp: block_run_Cons split: option.splits simp del: block_run.simps(2))

lemma block_run_open:
  assumes "starts_block s"
  shows "block_run (built_block s p False) evs = Some r \<longleftrightarrow>
    (\<exists>ds deltas stops. evs = deltas @ stops \<and> map (delta_of s) deltas = map Some ds \<and>
       list_all is_stop stops \<and> r = built_block s (p @ concat ds) (stops \<noteq> []))"
    (is "_ \<longleftrightarrow> ?R p evs")
proof (induction evs arbitrary: p)
  case (Cons ev evs)
  show ?case
  proof (cases "is_stop ev")
    case True
    have "?R p (ev # evs) \<longleftrightarrow> list_all is_stop evs \<and> r = built_block s p True"
    proof
      assume "?R p (ev # evs)"
      then obtain ds deltas stops where split: "ev # evs = deltas @ stops"
          "map (delta_of s) deltas = map Some ds" "list_all is_stop stops"
          "r = built_block s (p @ concat ds) (stops \<noteq> [])" by blast
      from split(1,2) True have "deltas = []"
        by (cases deltas; cases ds) (auto simp: stop_no_delta)
      with split show "list_all is_stop evs \<and> r = built_block s p True" by auto
    next
      assume "list_all is_stop evs \<and> r = built_block s p True"
      with True show "?R p (ev # evs)"
        by (intro exI [of _ "[]"] exI [of _ "ev # evs"]) auto
    qed
    with True assms show ?thesis
      by (auto simp: block_run_Cons block_run_stopped simp del: block_run.simps(2))
  next
    case False
    have "?R p (ev # evs) \<longleftrightarrow> (\<exists>t. delta_of s ev = Some t \<and> ?R (p @ t) evs)"
    proof
      assume "?R p (ev # evs)"
      then obtain ds deltas stops where split: "ev # evs = deltas @ stops"
          "map (delta_of s) deltas = map Some ds" "list_all is_stop stops"
          "r = built_block s (p @ concat ds) (stops \<noteq> [])" by blast
      with False obtain deltas' t ds' where d: "deltas = ev # deltas'" "ds = t # ds'" "delta_of s ev = Some t"
        by (cases deltas; cases ds) (auto simp: list_all_iff)
      with split have "?R (p @ t) evs"
        by (intro exI [of _ ds'] exI [of _ deltas'] exI [of _ stops]) auto
      with d show "\<exists>t. delta_of s ev = Some t \<and> ?R (p @ t) evs" by blast
    next
      assume "\<exists>t. delta_of s ev = Some t \<and> ?R (p @ t) evs"
      then obtain t ds deltas stops where "delta_of s ev = Some t" "evs = deltas @ stops"
          "map (delta_of s) deltas = map Some ds" "list_all is_stop stops"
          "r = built_block s ((p @ t) @ concat ds) (stops \<noteq> [])" by blast
      then show "?R p (ev # evs)"
        by (intro exI [of _ "t # ds"] exI [of _ "ev # deltas"] exI [of _ stops]) auto
    qed
    with False assms Cons.IH show ?thesis
      by (auto simp: block_run_Cons split: option.splits simp del: block_run.simps(2))
  qed
qed auto

lemma block_step_start:
  "block_step None ev = (if starts_block ev then built_block ev [] False else None)"
  by (cases ev) auto

lemma block_run_start:
  "starts_block s \<Longrightarrow> block_run None (s # evs) = block_run (built_block s [] False) evs"
  using built_block_Some [of s "[]" False] by (auto simp: block_step_start)

lemma block_run_newI:
  assumes "block_events s ds evs"
  shows "\<exists>st. block_run None evs = Some (built_block s (concat ds) st)"
proof -
  from assms obtain deltas stops where d: "starts_block s" "evs = s # deltas @ stops"
      "map (delta_of s) deltas = map Some ds" "list_all is_stop stops"
    by (auto simp: block_events_def)
  then have "block_run (built_block s [] False) (deltas @ stops) = Some (built_block s ([] @ concat ds) (stops \<noteq> []))"
    unfolding block_run_open [OF d(1)] by blast
  with d(1,2) show ?thesis by (auto simp: block_run_start simp del: block_run.simps(2))
qed

lemma block_run_newD:
  assumes "block_run None evs = Some r" "evs \<noteq> []"
  shows "\<exists>s ds st. block_events s ds evs \<and> r = built_block s (concat ds) st"
proof -
  from assms(2) obtain s evs' where evs: "evs = s # evs'" by (cases evs) auto
  with assms(1) have s: "starts_block s" by (auto simp: block_step_start split: if_splits)
  from assms(1) have "block_run (built_block s [] False) evs' = Some r"
    unfolding evs block_run_start [OF s] .
  then obtain ds deltas stops where "evs' = deltas @ stops" "map (delta_of s) deltas = map Some ds"
      "list_all is_stop stops" "r = built_block s ([] @ concat ds) (stops \<noteq> [])"
    unfolding block_run_open [OF s] by blast
  with evs s show ?thesis unfolding block_events_def by auto
qed

definition is_provider_error :: "host_stream_event \<Rightarrow> bool" where
  "is_provider_error ev = (case ev of ProviderErrorEvent _ \<Rightarrow> True | _ \<Rightarrow> False)"

lemma run_global_total:
  "(\<exists>a. run_global acc (globals evs) = Some a) \<longleftrightarrow> \<not> list_ex is_provider_error evs"
proof (induction evs arbitrary: acc)
  case (Cons ev evs)
  then show ?case
    by (cases ev) (simp_all add: globals_def is_provider_error_def)
qed (simp add: globals_def)

text \<open>A finite family of per-index blocks is the lookup of a sorted map.\<close>

fun bt_of :: "nat list \<Rightarrow> (nat \<Rightarrow> block_state option) \<Rightarrow> (nat, block_state) btree" where
  "bt_of [] f = []"
| "bt_of (i # is) f = (case f i of None \<Rightarrow> bt_of is f | Some b \<Rightarrow> bt_insert i b (bt_of is f))"

lemma bt_of_inv: "bt_inv (bt_of is f)"
  by (induction "is") (auto simp: bt_inv_insert bt_inv_def [of "[]"] split: option.splits)

lemma bt_get_bt_of: "bt_get (bt_of is f) i = (if i \<in> set is then f i else None)"
  by (induction "is") (auto simp: bt_get_insert split: option.splits)

lemma push_all_succeeds:
  assumes glob: "run_global stream_new (globals evs) = Some a"
    and runs: "\<And>i. block_run None (project i evs) \<noteq> None"
  shows "\<exists>acc. push_all stream_new evs = Inr acc"
proof -
  define f where "f i = the (block_run None (project i evs))" for i
  define m where "m = bt_of (List.map_filter event_index evs) f"
  have "bt_get m i = f i" for i
  proof (cases "i \<in> set (List.map_filter event_index evs)")
    case False
    then have "project i evs = []"
      by (auto simp: project_def filter_empty_conv List.map_filter_def) force
    then show ?thesis by (simp add: m_def bt_get_bt_of f_def False)
  qed (simp add: m_def bt_get_bt_of)
  moreover have "blocks a = []"
    using run_global_keeps_blocks [OF glob] by (simp add: stream_new_def)
  ultimately have "push_all stream_new evs = Inr (a\<lparr>blocks := m\<rparr>)"
    unfolding push_all_new using glob runs
    by (cases a) (auto simp: m_def bt_of_inv f_def)
  then show ?thesis by blast
qed

text \<open>
  C19 (equivalence). The accumulator accepts exactly the well-formed streams: those with no provider
  error in which the events of each block index are one start event, then deltas of the kind that
  was started, then stop events. A delta before the start, of another kind or after the stop, and
  a second start of an index, all make the fold fail.
\<close>

theorem stream_accepts_grammar:
  "(\<exists>acc. push_all stream_new evs = Inr acc) \<longleftrightarrow>
     \<not> list_ex is_provider_error evs \<and>
     (\<forall>i. project i evs = [] \<or> (\<exists>s ds. block_events s ds (project i evs)))"
proof
  assume "\<exists>acc. push_all stream_new evs = Inr acc"
  then have "\<exists>a. run_global stream_new (globals evs) = Some a"
      and "\<And>i. \<exists>r. block_run None (project i evs) = Some r"
    unfolding push_all_new by blast+
  then show "\<not> list_ex is_provider_error evs \<and>
     (\<forall>i. project i evs = [] \<or> (\<exists>s ds. block_events s ds (project i evs)))"
    using run_global_total [of stream_new evs] block_run_newD by blast
next
  assume wf: "\<not> list_ex is_provider_error evs \<and>
     (\<forall>i. project i evs = [] \<or> (\<exists>s ds. block_events s ds (project i evs)))"
  then obtain a where a: "run_global stream_new (globals evs) = Some a"
    using run_global_total [of stream_new evs] by blast
  have "block_run None (project i evs) \<noteq> None" for i
  proof (cases "project i evs = []")
    case False
    with wf obtain s ds where "block_events s ds (project i evs)" by blast
    from block_run_newI [OF this] show ?thesis by auto
  qed simp
  with a show "\<exists>acc. push_all stream_new evs = Inr acc" by (rule push_all_succeeds)
qed

section \<open>The assembled content\<close>

text \<open>What a block should become: its start event with the concatenation of its deltas.\<close>

fun assembled ::
  "(string \<Rightarrow> string + 'v) \<Rightarrow> ('v \<Rightarrow> bool) \<Rightarrow> nat \<Rightarrow> host_stream_event \<Rightarrow> string \<Rightarrow>
   stream_accumulator_error + 'v content" where
  "assembled from_str is_object i (TextStart _) p = Inr (ContentText p)"
| "assembled from_str is_object i (ThinkingStart _ sig) p = Inr (ContentThinking p sig)"
| "assembled from_str is_object i (ToolUseStart _ b n) p =
     map_sum id (ContentToolUse b n) (parse_tool_input from_str is_object i p)"
| "assembled from_str is_object i _ p = Inl (MissingContentBlockStart i)"

lemma built_block_content:
  "built_block s p st = Some b \<Longrightarrow>
   block_to_content from_str is_object i b = assembled from_str is_object i s p"
  by (cases s) (auto split: sum.splits)

lemma finish_blocks_list_all2:
  "finish_blocks from_str is_object bs = Inr cs \<Longrightarrow>
   list_all2 (\<lambda>e c. block_to_content from_str is_object (fst e) (snd e) = Inr c) bs cs"
  by (induction bs arbitrary: cs) (auto split: sum.splits)

text \<open>
  What a finished stream contains: one content block for each index that occurs, in
  ascending index order whatever the order of arrival, and each is the start event with the
  concatenation of its deltas in order: the text, the thinking with its signature, or the parsed
  tool input.
\<close>

lemma stream_content_assembled:
  assumes acc: "push_all stream_new evs = Inr acc"
    and fin: "finish from_str is_object acc = Inr r"
  shows "sorted_wrt (<) (bt_keys (blocks acc)) \<and>
    set (bt_keys (blocks acc)) = {i. project i evs \<noteq> []} \<and>
    list_all2 (\<lambda>i c. \<exists>s ds. block_events s ds (project i evs) \<and>
       assembled from_str is_object i s (concat ds) = Inr c) (bt_keys (blocks acc)) (fr_content r)"
proof -
  have inv: "bt_inv (blocks acc)"
    and runs: "\<And>i. block_run None (project i evs) = Some (bt_get (blocks acc) i)"
    using acc unfolding push_all_new by auto
  have built: "\<exists>s ds st. block_events s ds (project i evs) \<and> built_block s (concat ds) st = Some b"
    if "bt_get (blocks acc) i = Some b" for i b
  proof -
    have "project i evs \<noteq> []" using runs [of i] that by auto
    from block_run_newD [OF runs this] that show ?thesis by force
  qed
  have dom: "i \<in> set (bt_keys (blocks acc)) \<longleftrightarrow> project i evs \<noteq> []" for i
  proof
    assume "i \<in> set (bt_keys (blocks acc))"
    then show "project i evs \<noteq> []" using runs [of i] btree.keys_get [OF inv, of i] by auto
  next
    assume "project i evs \<noteq> []"
    from block_run_newD [OF runs this] show "i \<in> set (bt_keys (blocks acc))"
      using btree.keys_get [OF inv, of i] by (auto simp: block_events_def dest: built_block_Some)
       (metis built_block_Some option.distinct(1))
  qed
  have "list_all2 (\<lambda>e c. block_to_content from_str is_object (fst e) (snd e) = Inr c)
      (blocks acc) (fr_content r)"
    using fin by (auto simp: finish_def dest: finish_blocks_list_all2 split: sum.splits)
  then have "list_all2 (\<lambda>e c. \<exists>s ds. block_events s ds (project (fst e) evs) \<and>
       assembled from_str is_object (fst e) s (concat ds) = Inr c) (blocks acc) (fr_content r)"
  proof (rule list.rel_mono_strong)
    fix e c
    assume "e \<in> set (blocks acc)" and c: "block_to_content from_str is_object (fst e) (snd e) = Inr c"
    then have "bt_get (blocks acc) (fst e) = Some (snd e)"
      using btree.entry_get [OF inv, of "fst e" "snd e"] by simp
    from built [OF this] c show "\<exists>s ds. block_events s ds (project (fst e) evs) \<and>
       assembled from_str is_object (fst e) s (concat ds) = Inr c"
      using built_block_content by metis
  qed
  then show ?thesis
    using dom inv by (auto simp: bt_inv_def list_all2_map1)
qed

end
