(* ===== verification/Engine_Host.thy ===== *)
theory Engine_Host
  imports Engine Stream_Fold
begin

text \<open>
  The engine host, \<^verbatim>\<open>crates/clankers-engine-host/src/lib.rs\<close> and \<^verbatim>\<open>runtime.rs\<close>: the loop that runs the
  effects of the engine against adapters and feeds the results back. The adapters (model, tools,
  sleeper, event sink, cancellation, usage observer) are traits implemented by the embedder: they
  are the functions of a record, over a world \<open>'w\<close> they may change, and nothing is assumed of
  them. Async calls are awaited in place, so a call is one function application.
  The \<^verbatim>\<open>assert!\<close>s of the loop compare lengths with capacities and cannot fail.
\<close>

section \<open>Adapters and reports\<close>

definition HOST_CANCELLED_REASON :: string where "HOST_CANCELLED_REASON = ''turn cancelled''"
definition MISSING_TOOL_ERROR_PREFIX :: string where "MISSING_TOOL_ERROR_PREFIX = ''missing tool''"
definition CAPABILITY_DENIED_ERROR_PREFIX :: string where
  "CAPABILITY_DENIED_ERROR_PREFIX = ''capability denied''"
definition TOOL_CANCELLED_ERROR_PREFIX :: string where "TOOL_CANCELLED_ERROR_PREFIX = ''tool cancelled''"
definition ENGINE_HOST_REDUCER_STEP_LIMIT_COUNT :: nat where "ENGINE_HOST_REDUCER_STEP_LIMIT_COUNT = 4096"
definition DEFAULT_TOOL_FAILURE_MESSAGE :: string where
  "DEFAULT_TOOL_FAILURE_MESSAGE = ''tool execution failed''"

record 'v engine_run_seed =
  seed_initial_state :: "'v engine_state"
  seed_first_outcome :: "'v engine_outcome"

datatype usage_observation_kind = StreamDelta | FinalSummary

record usage_observation =
  uo_kind :: usage_observation_kind
  uo_usage :: usage

datatype host_adapter_component =
  ModelC | ToolC | RetrySleeperC | EventSinkC | CancellationC | UsageObserverC

record adapter_diagnostic =
  ad_component :: host_adapter_component
  ad_message :: string

datatype host_adapter_error = Failed (adapter_message: string)

record 'v engine_run_report =
  initial_state :: "'v engine_state"
  final_state :: "'v engine_state"
  last_outcome :: "'v engine_outcome"
  observed_events :: "engine_event list"
  usage_observations :: "usage_observation list"
  adapter_diagnostics :: "adapter_diagnostic list"

datatype 'v model_host_outcome =
    ModelHostCompleted "'v engine_model_response" "usage option"
  | ModelHostStreamed "host_stream_event list"
  | ModelHostFailed engine_terminal_failure

record tool_truncation_metadata =
  original_bytes :: nat
  original_lines :: nat
  truncated_bytes :: nat
  truncated_lines :: nat

datatype 'v tool_host_outcome =
    Succeeded "'v content list" 'v
  | ToolError "'v content list" 'v string
  | MissingTool string
  | CapabilityDenied string string
  | ToolCancelled string
  | Truncated "'v content list" tool_truncation_metadata

record ('v, 'w) host_adapters =
  execute_model :: "'v engine_model_request \<Rightarrow> 'w \<Rightarrow> 'v model_host_outcome \<times> 'w"
  execute_tool :: "'v engine_tool_call \<Rightarrow> 'w \<Rightarrow> 'v tool_host_outcome \<times> 'w"
  sleep_for_retry :: "correlation_id \<Rightarrow> duration \<Rightarrow> 'w \<Rightarrow> (host_adapter_error + unit) \<times> 'w"
  emit_engine_event :: "engine_event \<Rightarrow> 'w \<Rightarrow> (host_adapter_error + unit) \<times> 'w"
  is_cancelled :: "'w \<Rightarrow> bool \<times> 'w"
  cancellation_reason :: "'w \<Rightarrow> string \<times> 'w"
  usage_observer :: "usage_observation \<Rightarrow> 'w \<Rightarrow> (host_adapter_error + unit) \<times> 'w"
  json_from_str :: "string \<Rightarrow> string + 'v"
  json_is_object :: "'v \<Rightarrow> bool"

definition report_new :: "'v engine_run_seed \<Rightarrow> 'v engine_run_report" where
  "report_new seed = \<lparr>initial_state = seed_initial_state seed,
     final_state = next_state (seed_first_outcome seed), last_outcome = seed_first_outcome seed,
     observed_events = [], usage_observations = [], adapter_diagnostics = []\<rparr>"

definition replace_reducer_outcome :: "'v engine_run_report \<Rightarrow> 'v engine_outcome \<Rightarrow> 'v engine_run_report" where
  "replace_reducer_outcome r o' = r\<lparr>final_state := next_state o', last_outcome := o'\<rparr>"

definition push_diagnostic ::
  "'v engine_run_report \<Rightarrow> host_adapter_component \<Rightarrow> string \<Rightarrow> 'v engine_run_report" where
  "push_diagnostic r c m =
     r\<lparr>adapter_diagnostics := adapter_diagnostics r @ [\<lparr>ad_component = c, ad_message = m\<rparr>]\<rparr>"

section \<open>Feedback constructors\<close>

definition model_completed_input :: "correlation_id \<Rightarrow> 'v engine_model_response \<Rightarrow> 'v engine_input" where
  "model_completed_input rid response = ModelCompleted rid response"

definition model_failed_input :: "correlation_id \<Rightarrow> engine_terminal_failure \<Rightarrow> 'v engine_input" where
  "model_failed_input rid failure = ModelFailed rid failure"

definition retry_ready_input :: "correlation_id \<Rightarrow> 'v engine_input" where
  "retry_ready_input rid = RetryReady rid"

definition tool_completed_input :: "correlation_id \<Rightarrow> 'v content list \<Rightarrow> 'v engine_input" where
  "tool_completed_input cid result = ToolCompleted cid result"

definition tool_failed_input :: "correlation_id \<Rightarrow> string \<Rightarrow> 'v content list \<Rightarrow> 'v engine_input" where
  "tool_failed_input cid err result = ToolFailed cid err result"

definition cancel_turn_input :: "string \<Rightarrow> 'v engine_input" where
  "cancel_turn_input reason = CancelTurn reason"

fun first_text_block :: "'v content list \<Rightarrow> string option" where
  "first_text_block [] = None"
| "first_text_block (ContentText t # cs) = Some t"
| "first_text_block (_ # cs) = first_text_block cs"

definition tool_feedback_input :: "correlation_id \<Rightarrow> bool \<Rightarrow> 'v content list \<Rightarrow> 'v engine_input" where
  "tool_feedback_input cid is_error result =
     (if is_error
      then tool_failed_input cid
             (case first_text_block result of Some t \<Rightarrow> t | None \<Rightarrow> DEFAULT_TOOL_FAILURE_MESSAGE) result
      else tool_completed_input cid result)"

section \<open>Effects to inputs\<close>

fun error_text :: "stream_accumulator_error \<Rightarrow> string" where
  "error_text (MissingContentBlockStart i) = ''missing content block start for index '' @ show_nat i"
| "error_text (DuplicateContentBlockIndex i) = ''duplicate content block index '' @ show_nat i"
| "error_text (LateContentDelta i) = ''late content delta for stopped block index '' @ show_nat i"
| "error_text (WrongContentDeltaKind i) = ''wrong content delta kind for block index '' @ show_nat i"
| "error_text (MalformedToolJson i m) =
     ''malformed tool JSON for block index '' @ show_nat i @ '': '' @ m"
| "error_text (NonObjectToolJson i) = ''non-object tool JSON for block index '' @ show_nat i"
| "error_text (ProviderError m st r) = ''provider stream error: '' @ m"

fun stream_error_to_failure :: "stream_accumulator_error \<Rightarrow> engine_terminal_failure" where
  "stream_error_to_failure (ProviderError m st r) = \<lparr>tf_message = m, tf_status = st, tf_retryable = r\<rparr>"
| "stream_error_to_failure other = \<lparr>tf_message = error_text other, tf_status = None, tf_retryable = False\<rparr>"

definition observe_event ::
  "('v, 'w) host_adapters \<Rightarrow> engine_event \<Rightarrow> 'v engine_run_report \<times> 'w \<Rightarrow> 'v engine_run_report \<times> 'w" where
  "observe_event hosts event = (\<lambda>(r, w).
     let r = r\<lparr>observed_events := observed_events r @ [event]\<rparr>;
         (res, w) = emit_engine_event hosts event w
     in (case res of Inl e \<Rightarrow> push_diagnostic r EventSinkC (adapter_message e) | Inr _ \<Rightarrow> r, w))"

definition observe_usage ::
  "('v, 'w) host_adapters \<Rightarrow> usage_observation_kind \<Rightarrow> usage \<Rightarrow> 'v engine_run_report \<times> 'w \<Rightarrow>
   'v engine_run_report \<times> 'w" where
  "observe_usage hosts kind u = (\<lambda>(r, w).
     let observation = \<lparr>uo_kind = kind, uo_usage = u\<rparr>;
         (res, w) = usage_observer hosts observation w;
         r = (case res of Inl e \<Rightarrow> push_diagnostic r UsageObserverC (adapter_message e) | Inr _ \<Rightarrow> r)
     in (r\<lparr>usage_observations := usage_observations r @ [observation]\<rparr>, w))"

fun stream_loop ::
  "('v, 'w) host_adapters \<Rightarrow> stream_accumulator \<Rightarrow> host_stream_event list \<Rightarrow> 'v engine_run_report \<times> 'w \<Rightarrow>
   (stream_accumulator_error + stream_accumulator) \<times> 'v engine_run_report \<times> 'w" where
  "stream_loop hosts acc [] rw = (Inr acc, rw)"
| "stream_loop hosts acc (ev # evs) rw =
     (let rw = (case ev of UsageEvent u \<Rightarrow> observe_usage hosts StreamDelta u rw | _ \<Rightarrow> rw)
      in case push acc ev of
           Inl e \<Rightarrow> (Inl e, rw)
         | Inr acc' \<Rightarrow> stream_loop hosts acc' evs rw)"

definition stream_events_to_model_input ::
  "('v, 'w) host_adapters \<Rightarrow> correlation_id \<Rightarrow> host_stream_event list \<Rightarrow> 'v engine_run_report \<times> 'w \<Rightarrow>
   'v engine_input \<times> 'v engine_run_report \<times> 'w" where
  "stream_events_to_model_input hosts rid events rw =
     (case stream_loop hosts stream_new events rw of
        (Inl e, rw) \<Rightarrow> (model_failed_input rid (stream_error_to_failure e), rw)
      | (Inr acc, rw) \<Rightarrow>
          (case finish (json_from_str hosts) (json_is_object hosts) acc of
             Inr folded \<Rightarrow>
               (let rw = (case fr_usage folded of
                            Some u \<Rightarrow> observe_usage hosts FinalSummary u rw | None \<Rightarrow> rw)
                in (model_completed_input rid \<lparr>rs_output = fr_content folded,
                      rs_stop_reason = (case fr_stop_reason folded of Some s \<Rightarrow> s | None \<Rightarrow> Stop)\<rparr>, rw))
           | Inl e \<Rightarrow> (model_failed_input rid (stream_error_to_failure e), rw)))"

definition cancel_input :: "('v, 'w) host_adapters \<Rightarrow> 'w \<Rightarrow> 'v engine_input \<times> 'w" where
  "cancel_input hosts w = (let (reason, w) = cancellation_reason hosts w in (cancel_turn_input reason, w))"

definition model_input_from_effect ::
  "('v, 'w) host_adapters \<Rightarrow> 'v engine_model_request \<Rightarrow> 'v engine_run_report \<times> 'w \<Rightarrow>
   'v engine_input \<times> 'v engine_run_report \<times> 'w" where
  "model_input_from_effect hosts request = (\<lambda>(r, w).
     let (cancelled, w) = is_cancelled hosts w
     in if cancelled then (let (i, w) = cancel_input hosts w in (i, r, w))
        else
          let rid = mr_request_id request;
              (out, w) = execute_model hosts request w;
              (cancelled, w) = is_cancelled hosts w
          in if cancelled then (let (i, w) = cancel_input hosts w in (i, r, w))
             else case out of
               ModelHostCompleted response u \<Rightarrow>
                 (let rw = (case u of Some u \<Rightarrow> observe_usage hosts FinalSummary u (r, w) | None \<Rightarrow> (r, w))
                  in (model_completed_input rid response, rw))
             | ModelHostStreamed events \<Rightarrow> stream_events_to_model_input hosts rid events (r, w)
             | ModelHostFailed failure \<Rightarrow> (model_failed_input rid failure, r, w))"

definition retry_input_from_effect ::
  "('v, 'w) host_adapters \<Rightarrow> correlation_id \<Rightarrow> duration \<Rightarrow> 'v engine_run_report \<times> 'w \<Rightarrow>
   'v engine_input \<times> 'v engine_run_report \<times> 'w" where
  "retry_input_from_effect hosts rid delay = (\<lambda>(r, w).
     let (cancelled, w) = is_cancelled hosts w
     in if cancelled then (let (i, w) = cancel_input hosts w in (i, r, w))
        else
          let (res, w) = sleep_for_retry hosts rid delay w;
              r = (case res of Inl e \<Rightarrow> push_diagnostic r RetrySleeperC (adapter_message e) | Inr _ \<Rightarrow> r);
              (cancelled, w) = is_cancelled hosts w
          in if cancelled then (let (i, w) = cancel_input hosts w in (i, r, w))
             else (retry_ready_input rid, r, w))"

definition tool_failed_with_message :: "correlation_id \<Rightarrow> string \<Rightarrow> 'v engine_input" where
  "tool_failed_with_message cid message = tool_failed_input cid message []"

definition format_tool_error :: "string \<Rightarrow> string \<Rightarrow> string" where
  "format_tool_error pre name = pre @ '': '' @ name"

definition is_tool_cancelled :: "'v tool_host_outcome \<Rightarrow> bool" where
  "is_tool_cancelled out = (case out of ToolCancelled _ \<Rightarrow> True | _ \<Rightarrow> False)"

definition tool_outcome_to_input ::
  "('v, 'w) host_adapters \<Rightarrow> correlation_id \<Rightarrow> 'v tool_host_outcome \<Rightarrow> 'w \<Rightarrow> 'v engine_input \<times> 'w" where
  "tool_outcome_to_input hosts cid out w =
     (let (cancelled, w) = is_cancelled hosts w
      in if cancelled \<or> is_tool_cancelled out then cancel_input hosts w
         else case out of
           Succeeded content details \<Rightarrow> (tool_completed_input cid content, w)
         | Truncated content metadata \<Rightarrow> (tool_completed_input cid content, w)
         | ToolError content details message \<Rightarrow> (tool_failed_input cid message content, w)
         | MissingTool name \<Rightarrow>
             (tool_failed_with_message cid (format_tool_error MISSING_TOOL_ERROR_PREFIX name), w)
         | CapabilityDenied name reason \<Rightarrow>
             (tool_failed_with_message cid
                (CAPABILITY_DENIED_ERROR_PREFIX @ '': '' @ name @ '': '' @ reason), w)
         | ToolCancelled name \<Rightarrow>
             (tool_failed_with_message cid (format_tool_error TOOL_CANCELLED_ERROR_PREFIX name), w))"

definition tool_input_from_effect ::
  "('v, 'w) host_adapters \<Rightarrow> 'v engine_tool_call \<Rightarrow> 'w \<Rightarrow> 'v engine_input \<times> 'w" where
  "tool_input_from_effect hosts call w =
     (let (cancelled, w) = is_cancelled hosts w
      in if cancelled then cancel_input hosts w
         else let (out, w) = execute_tool hosts call w
              in tool_outcome_to_input hosts (tcall_id call) out w)"

section \<open>The loop\<close>

text \<open>The state of the loop: the report, the engine state, the last outcome, and the world.\<close>

record ('v, 'w) loop_state =
  l_report :: "'v engine_run_report"
  l_state :: "'v engine_state"
  l_outcome :: "'v engine_outcome"
  l_world :: 'w

definition feed :: "('v, 'w) loop_state \<Rightarrow> 'v engine_input \<Rightarrow> 'v engine_run_report \<Rightarrow> 'w \<Rightarrow> ('v, 'w) loop_state" where
  "feed l i r w = (let o' = engine_reduce (l_state l) i
     in \<lparr>l_report = r, l_state = next_state o', l_outcome = o', l_world = w\<rparr>)"

fun run_effects ::
  "('v, 'w) host_adapters \<Rightarrow> 'v engine_effect list \<Rightarrow> bool \<Rightarrow> ('v, 'w) loop_state \<Rightarrow> bool \<times> ('v, 'w) loop_state" where
  "run_effects hosts [] advanced l = (advanced, l)"
| "run_effects hosts (EmitEvent event # es) advanced l =
     (let (r, w) = observe_event hosts event (l_report l, l_world l)
      in run_effects hosts es advanced (l\<lparr>l_report := r, l_world := w\<rparr>))"
| "run_effects hosts (RequestModel request # es) advanced l =
     (let (i, r, w) = model_input_from_effect hosts request (l_report l, l_world l)
      in (True, feed l i r w))"
| "run_effects hosts (ScheduleRetry rid delay # es) advanced l =
     (let (i, r, w) = retry_input_from_effect hosts rid delay (l_report l, l_world l)
      in (True, feed l i r w))"
| "run_effects hosts (ExecuteTool call # es) advanced l =
     (let (i, w) = tool_input_from_effect hosts call (l_world l);
          l' = feed l i (l_report l) w
      in if rejection_of (l_outcome l') \<noteq> None \<or> terminal_failure (l_outcome l') \<noteq> None
         then (True, l')
         else run_effects hosts es True l')"

definition step_limit_failure :: engine_terminal_failure where
  "step_limit_failure = \<lparr>tf_message = ''engine host reducer step limit exceeded'',
     tf_status = None, tf_retryable = False\<rparr>"

fun run_loop :: "('v, 'w) host_adapters \<Rightarrow> nat \<Rightarrow> ('v, 'w) loop_state \<Rightarrow> 'v engine_run_report \<times> 'w" where
  "run_loop hosts 0 l =
     (replace_reducer_outcome (l_report l)
        ((l_outcome l)\<lparr>effects := [], terminal_failure := Some step_limit_failure\<rparr>), l_world l)"
| "run_loop hosts (Suc n) l =
     (if rejection_of (l_outcome l) \<noteq> None \<or> terminal_failure (l_outcome l) \<noteq> None \<or>
         effects (l_outcome l) = []
      then (replace_reducer_outcome (l_report l) (l_outcome l), l_world l)
      else
        let (advanced, l) = run_effects hosts (effects (l_outcome l)) False l;
            l = l\<lparr>l_report := replace_reducer_outcome (l_report l) (l_outcome l)\<rparr>
        in if \<not> advanced then (l_report l, l_world l) else run_loop hosts n l)"

definition run_engine_turn ::
  "('v, 'w) host_adapters \<Rightarrow> 'v engine_run_seed \<Rightarrow> 'w \<Rightarrow> 'v engine_run_report \<times> 'w" where
  "run_engine_turn hosts seed w = run_loop hosts ENGINE_HOST_REDUCER_STEP_LIMIT_COUNT
     \<lparr>l_report = report_new seed, l_state = next_state (seed_first_outcome seed),
      l_outcome = seed_first_outcome seed, l_world = w\<rparr>"

section \<open>What the adapters can feed back\<close>

text \<open>Whatever the adapters do, a model request is answered for its own id or cancelled, a retry
  wait ends with its own id or a cancellation, and a tool call yields one result for its own id
  or a cancellation; the observed events are not touched.\<close>

definition is_cancel :: "'v engine_input \<Rightarrow> bool" where
  "is_cancel i = (case i of CancelTurn _ \<Rightarrow> True | _ \<Rightarrow> False)"

lemma push_diagnostic_events [simp]: "observed_events (push_diagnostic r c m) = observed_events r"
  by (simp add: push_diagnostic_def)

lemma observe_event_events:
  "observe_event hosts ev (r, w) = (r', w') \<Longrightarrow> observed_events r' = observed_events r @ [ev]"
  by (auto simp: observe_event_def Let_def split: prod.splits sum.splits)

lemma observe_usage_events:
  "observe_usage hosts k u rw = (r', w') \<Longrightarrow> observed_events r' = observed_events (fst rw)"
  by (auto simp: observe_usage_def Let_def split: prod.splits sum.splits)

lemma stream_loop_events:
  "stream_loop hosts acc evs rw = (res, r', w') \<Longrightarrow> observed_events r' = observed_events (fst rw)"
proof (induction hosts acc evs rw rule: stream_loop.induct)
  case (2 hosts acc ev evs rw)
  have usage: "observed_events (fst (case ev of UsageEvent u \<Rightarrow> observe_usage hosts StreamDelta u rw | _ \<Rightarrow> rw)) =
      observed_events (fst rw)"
    by (cases ev) (simp_all, metis observe_usage_events prod.collapse)
  show ?case
  proof (cases "push acc ev")
    case (Inl e)
    with "2.prems" usage show ?thesis by (simp add: Let_def)
  next
    case (Inr acc')
    with "2.IH" [OF refl Inr] "2.prems" usage show ?thesis by (simp add: Let_def)
  qed
qed simp

lemma cancel_input_cancels: "cancel_input hosts w = (i, w') \<Longrightarrow> is_cancel i"
  by (auto simp: cancel_input_def cancel_turn_input_def is_cancel_def split: prod.splits)

lemma stream_input_events:
  "stream_events_to_model_input hosts rid evs rw = (i, r', w') \<Longrightarrow> observed_events r' = observed_events (fst rw)"
  by (auto simp: stream_events_to_model_input_def Let_def
      split: prod.splits sum.splits option.splits dest!: stream_loop_events observe_usage_events)

lemma model_input_events:
  "model_input_from_effect hosts req (r, w) = (i, r', w') \<Longrightarrow> observed_events r' = observed_events r"
  by (auto simp: model_input_from_effect_def Let_def
      split: prod.splits if_splits model_host_outcome.splits option.splits
      dest!: stream_input_events observe_usage_events)

lemma retry_input_events:
  "retry_input_from_effect hosts rid d (r, w) = (i, r', w') \<Longrightarrow> observed_events r' = observed_events r"
  by (auto simp: retry_input_from_effect_def Let_def split: prod.splits if_splits sum.splits)

lemma tool_input_shape:
  "tool_input_from_effect hosts call w = (i, w') \<Longrightarrow>
   is_cancel i \<or> (\<exists>b. tool_feedback i = Some b \<and> br_call_id b = tcall_id call)"
  by (auto simp: tool_input_from_effect_def tool_outcome_to_input_def tool_completed_input_def
      tool_failed_input_def tool_failed_with_message_def Let_def
      split: prod.splits if_splits tool_host_outcome.splits dest: cancel_input_cancels)

section \<open>The loop invariant\<close>

definition event_finishes :: "engine_event list \<Rightarrow> nat" where
  "event_finishes evs = length (filter (\<lambda>e. case e of EvTurnFinished _ \<Rightarrow> True | _ \<Rightarrow> False) evs)"

lemma event_finishes_simps [simp]:
  "event_finishes [] = 0"
  "event_finishes (EvTurnFinished r # evs) = Suc (event_finishes evs)"
  "event_finishes (EvNotice n # evs) = event_finishes evs"
  "event_finishes (EvBusyChanged b # evs) = event_finishes evs"
  "event_finishes (evs @ evs') = event_finishes evs + event_finishes evs'"
  by (simp_all add: event_finishes_def)

text \<open>An outcome the loop can act on: rejected, or with the effects its phase calls for.\<close>

definition planned :: "'v engine_outcome \<Rightarrow> bool" where
  "planned o' \<longleftrightarrow> rejection_of o' \<noteq> None \<or>
     (case phase (next_state o') of
        Idle \<Rightarrow> False
      | WaitingForModel \<Rightarrow> terminal_failure o' = None \<and>
          (\<exists>evs req. effects o' = map EmitEvent evs @ [RequestModel req] \<and> event_finishes evs = 0)
      | WaitingForRetry \<Rightarrow> terminal_failure o' = None \<and> (\<exists>rid d. effects o' = [ScheduleRetry rid d])
      | WaitingForTools \<Rightarrow> terminal_failure o' = None \<and> buffered_tool_results (next_state o') = [] \<and>
          (\<exists>calls. effects o' = map ExecuteTool calls \<and> map tcall_id calls = pending_tool_calls (next_state o'))
      | Finished \<Rightarrow> (\<exists>evs. effects o' = map EmitEvent evs \<and> evs \<noteq> [] \<and> event_finishes evs = 1))"

lemma engine_terminal_failure_input:
  "terminal_failure (engine_reduce s i) \<noteq> None \<Longrightarrow>
   (\<exists>rid f. i = ModelFailed rid f) \<and> phase (engine_next s i) = Finished"
  by (cases i) (auto simp: engine_next_def rejected_outcome_def apply_submit_user_prompt_def apply_model_completion_def
      apply_tool_use_model_completion_def terminal_success_outcome_def apply_model_failed_def
      retry_wait_feedback_rejection_def terminal_failure_outcome_def apply_retry_ready_def
      apply_tool_feedback_def terminal_notice_outcome_def apply_cancel_turn_def Let_def
      split: if_splits option.splits prod.splits stop_reason.splits bool.splits)

lemma planned_step:
  assumes "engine_step s i (effects o') (next_state o')" and "rejection_of o' = None"
    and "terminal_failure o' = None \<or> phase (next_state o') = Finished"
    and "phase (next_state o') = WaitingForTools \<Longrightarrow> phase s = WaitingForModel"
  shows "planned o'"
  using assms(1)
proof (cases rule: engine_step.cases)
  case (submit sub t rid nseq)
  then show ?thesis using assms(2,3)
    by (auto simp: planned_def intro!: exI [of _ "[EvBusyChanged True, EvNotice ENGINE_SUBMIT_PROMPT_NOTICE]"])
next
  case (complete rid r)
  then show ?thesis using assms(2)
    by (auto simp: planned_def intro!: exI [of _ "[EvBusyChanged False, EvTurnFinished (rs_stop_reason r)]"])
next
  case (give_up rid f)
  then show ?thesis using assms(2)
    by (auto simp: planned_def
        intro!: exI [of _ "[EvBusyChanged False, EvNotice (tf_message f), EvTurnFinished Stop]"])
next
  case (exhaust b t ms)
  then show ?thesis using assms(2)
    by (auto simp: planned_def
        intro!: exI [of _ "[EvBusyChanged False, EvNotice ENGINE_BUDGET_EXHAUSTED_NOTICE, EvTurnFinished Stop]"])
next
  case (cancel reason)
  then show ?thesis using assms(2)
    by (auto simp: planned_def
        intro!: exI [of _ "[EvBusyChanged False, EvNotice reason, EvTurnFinished Stop]"])
next
  case (call_tools rid r calls)
  then show ?thesis using assms(2,3) by (auto simp: planned_def)
next
  case (buffer b)
  then show ?thesis using assms(4) by auto
qed (use assms(2,3) in \<open>auto simp: planned_def intro!: exI [of _ "[]"]\<close>)

lemma planned_reduce:
  assumes "rejection_of (engine_reduce s i) = None \<Longrightarrow> phase (engine_next s i) = WaitingForTools \<Longrightarrow>
    phase s = WaitingForModel"
  shows "planned (engine_reduce s i)"
proof (cases "rejection_of (engine_reduce s i)")
  case None
  have "terminal_failure (engine_reduce s i) = None \<or> phase (engine_next s i) = Finished"
    using engine_terminal_failure_input [of s i] by blast
  with engine_accepted_step [OF None] None assms show ?thesis
    by (intro planned_step [where s = s and i = i]) (auto simp: engine_next_def engine_effects_def)
qed (simp add: planned_def)

definition steps_left :: "'v engine_outcome \<Rightarrow> nat" where
  "steps_left o' = (let s = next_state o' in
     if rejection_of o' \<noteq> None then 1
     else case phase s of
       WaitingForModel \<Rightarrow> 6 * (unat (slot_budget s) - unat (slots_used s)) + 2 * (2 - unat (retry_attempts s)) + 3
     | WaitingForRetry \<Rightarrow> 6 * (unat (slot_budget s) - unat (slots_used s)) + 2 * (2 - unat (retry_attempts s)) + 4
     | WaitingForTools \<Rightarrow> 6 * (unat (slot_budget s) - unat (slots_used s)) + 2
     | _ \<Rightarrow> 1)"

lemma steps_left_step:
  assumes "engine_step s i es s'" "engine_inv s" "phase s \<noteq> Idle"
    and "rejection_of o' = None" "next_state o' = s" "rejection_of o'' = None" "next_state o'' = s'"
    and "phase s' = WaitingForTools \<Longrightarrow> phase s = WaitingForModel"
  shows "steps_left o'' < steps_left o'"
  using assms(1)
proof (cases rule: engine_step.cases)
  case (retry rid f d)
  then have lt: "unat (retry_attempts s) < 2"
    using assms(2) by (auto simp: engine_inv_def dest: retry_delay_bound)
  then have "unat (saturating_add (retry_attempts s) 1) = unat (retry_attempts s) + 1"
    by (intro unat_saturating_add_one) simp
  then show ?thesis using retry lt assms by (simp add: steps_left_def)
next
  case (continue_turn b t ms rid nseq)
  note charge = slot_charge [OF \<open>slots_used s < slot_budget s\<close>]
  have "unat (slots_used s) < unat (slot_budget s)"
    using continue_turn by (simp add: word_less_nat_alt)
  with charge show ?thesis using continue_turn assms by (simp add: steps_left_def)
next
  case (buffer b)
  with assms(8) show ?thesis by simp
qed (use assms in \<open>auto simp: steps_left_def Let_def\<close>)

lemma steps_left_rejected: "rejection_of o'' \<noteq> None \<Longrightarrow> steps_left o'' = 1"
  by (simp add: steps_left_def)

lemma steps_left_active:
  "rejection_of o' = None \<Longrightarrow> engine_turn_active (phase (next_state o')) \<Longrightarrow> 1 < steps_left o'"
  by (cases "phase (next_state o')") (simp_all add: steps_left_def Let_def)

lemma steps_left_reduce:
  assumes "engine_inv s" "engine_turn_active (phase s)" "rejection_of o' = None" "next_state o' = s"
    and "rejection_of (engine_reduce s i) = None \<Longrightarrow> phase (engine_next s i) = WaitingForTools \<Longrightarrow>
      phase s = WaitingForModel"
  shows "steps_left (engine_reduce s i) < steps_left o'"
proof (cases "rejection_of (engine_reduce s i)")
  case None
  from engine_accepted_step [OF this] show ?thesis
    using assms None by (intro steps_left_step [where s = s]) (auto simp: engine_next_def)
next
  case (Some r)
  then show ?thesis using assms steps_left_active [of o'] steps_left_rejected by fastforce
qed

text \<open>The invariant of the loop: the outcome is planned, its state is the engine state and is
  consistent, and no \<open>TurnFinished\<close> event was observed yet.\<close>

definition loop_ok :: "('v, 'w) loop_state \<Rightarrow> bool" where
  "loop_ok l \<longleftrightarrow> l_state l = next_state (l_outcome l) \<and> engine_inv (l_state l) \<and>
     phase (l_state l) \<noteq> Idle \<and> planned (l_outcome l) \<and> event_finishes (observed_events (l_report l)) = 0"

lemma feed_ok:
  assumes "engine_inv (l_state l)" "phase (l_state l) \<noteq> Idle"
    and "event_finishes (observed_events r) = 0"
    and "rejection_of (engine_reduce (l_state l) i) = None \<Longrightarrow>
      phase (engine_next (l_state l) i) = WaitingForTools \<Longrightarrow> phase (l_state l) = WaitingForModel"
  shows "loop_ok (feed l i r w)"
proof -
  have "phase (engine_next (l_state l) i) \<noteq> Idle"
    using assms(1,2) engine_step_requests [of "l_state l" i]
    by (cases "l_state l" i rule: engine_next_cases) auto
  then show ?thesis
    using assms planned_reduce [of "l_state l" i] engine_inv_next [of "l_state l" i]
    by (simp add: loop_ok_def feed_def Let_def engine_next_def)
qed

lemma run_effects_events:
  "run_effects hosts (map EmitEvent evs @ es) adv l =
     (let l' = snd (run_effects hosts (map EmitEvent evs) adv l)
      in run_effects hosts es adv l')"
  by (induction evs arbitrary: l) (auto simp: Let_def split: prod.splits)

lemma run_emit_only:
  "run_effects hosts (map EmitEvent evs) adv l = (adv', l') \<Longrightarrow>
   adv' = adv \<and> l_state l' = l_state l \<and> l_outcome l' = l_outcome l \<and>
   observed_events (l_report l') = observed_events (l_report l) @ evs"
proof (induction evs arbitrary: l)
  case (Cons ev evs)
  obtain r w where ob: "observe_event hosts ev (l_report l, l_world l) = (r, w)" by fastforce
  from Cons.prems have "run_effects hosts (map EmitEvent evs) adv (l\<lparr>l_report := r, l_world := w\<rparr>) = (adv', l')"
    by (simp add: ob)
  from Cons.IH [OF this] observe_event_events [OF ob] show ?case by simp
qed simp

lemma feed_simps [simp]:
  "l_state (feed l i r w) = engine_next (l_state l) i"
  "l_outcome (feed l i r w) = engine_reduce (l_state l) i"
  "l_report (feed l i r w) = r"
  by (simp_all add: feed_def Let_def engine_next_def)

lemma run_tools_finished:
  assumes "engine_inv (l_state l)" "phase (l_state l) = Finished" "calls \<noteq> []"
    and "event_finishes (observed_events (l_report l)) = 0"
  shows "\<exists>l'. run_effects hosts (map ExecuteTool calls) adv l = (True, l') \<and> loop_ok l' \<and>
    steps_left (l_outcome l') = 1 \<and> rejection_of (l_outcome l') \<noteq> None"
proof -
  from assms(3) obtain c cs where calls: "calls = c # cs" by (cases calls) auto
  obtain i w where i: "tool_input_from_effect hosts c (l_world l) = (i, w)" by fastforce
  obtain x where rej: "engine_reduce (l_state l) i = rejected_outcome (l_state l) x"
    using engine_finished_rejects [OF assms(2)] by blast
  have "loop_ok (feed l i (l_report l) w)"
    using assms by (intro feed_ok) (auto simp: rej rejected_outcome_def)
  then show ?thesis
    by (auto simp: calls i rej rejected_outcome_def steps_left_def)
qed

lemma run_tools:
  assumes "engine_inv (l_state l)" "phase (l_state l) = WaitingForTools"
    and "pending_tool_calls (l_state l) = map tcall_id (done @ calls)"
    and "map br_call_id (buffered_tool_results (l_state l)) = map tcall_id done" "calls \<noteq> []"
    and "event_finishes (observed_events (l_report l)) = 0"
  shows "\<exists>l'. run_effects hosts (map ExecuteTool calls) adv l = (True, l') \<and> loop_ok l' \<and>
    steps_left (l_outcome l') <
      6 * (unat (slot_budget (l_state l)) - unat (slots_used (l_state l))) + 2"
  using assms
proof (induction calls arbitrary: "done" l adv)
  case (Cons c cs)
  let ?s = "l_state l"
  obtain i w where i: "tool_input_from_effect hosts c (l_world l) = (i, w)" by fastforce
  let ?l = "feed l i (l_report l) w"
  have no_tf: "terminal_failure (engine_reduce ?s i) = None"
  proof (rule ccontr)
    assume "terminal_failure (engine_reduce ?s i) \<noteq> None"
    with engine_terminal_failure_input [of ?s i] tool_input_shape [OF i] show False
      by (auto simp: is_cancel_def)
  qed
  define o' where "o' = \<lparr>next_state = ?s, effects = [], rejection_of = None, terminal_failure = None\<rparr>"
  have less: "steps_left (engine_reduce ?s i) <
      6 * (unat (slot_budget ?s) - unat (slots_used ?s)) + 2"
    if "rejection_of (engine_reduce ?s i) = None \<Longrightarrow> phase (engine_next ?s i) \<noteq> WaitingForTools"
    using steps_left_reduce [of ?s o' i] Cons.prems that by (auto simp: o'_def steps_left_def Let_def)
  have ok: "loop_ok ?l"
    if "rejection_of (engine_reduce ?s i) = None \<Longrightarrow> phase (engine_next ?s i) \<noteq> WaitingForTools"
    using that Cons.prems by (intro feed_ok) auto
  show ?case
  proof (cases "rejection_of (engine_reduce ?s i)")
    case (Some x)
    then show ?thesis using ok less by (auto simp: i)
  next
    case None
    note step = engine_accepted_step [OF None]
    have rest: "run_effects hosts (map ExecuteTool (c # cs)) adv l =
        run_effects hosts (map ExecuteTool cs) True ?l"
      using None no_tf by (simp add: i)
    have inv: "engine_inv (l_state ?l)" using Cons.prems by (simp add: engine_inv_next)
    show ?thesis
    proof (cases "phase (engine_next ?s i) = WaitingForTools")
      case True
      from step True Cons.prems(2) obtain b where b: "tool_feedback i = Some b"
          "Suc (length (buffered_tool_results ?s)) < length (pending_tool_calls ?s)"
          "engine_next ?s i = ?s\<lparr>pending_model_request := None,
             buffered_tool_results := buffered_tool_results ?s @ [b], retry_attempts := 0\<rparr>"
        by (cases rule: engine_step.cases) auto
      have "length (buffered_tool_results ?s) = length done"
        using Cons.prems(4) by (metis length_map)
      with b(2) Cons.prems(3) have "cs \<noteq> []" by auto
      moreover have "br_call_id b = tcall_id c"
        using tool_input_shape [OF i] b(1) by (auto simp: is_cancel_def split: engine_input.splits)
      ultimately show ?thesis
        unfolding rest using Cons.IH [OF inv, of "done @ [c]" True] Cons.prems b(3) True by auto
    next
      case False
      note fin = ok [OF False] less [OF False]
      show ?thesis
      proof (cases "cs = []")
        case True
        then show ?thesis unfolding rest using fin by simp
      next
        case cs: False
        have "phase (engine_next ?s i) = Finished"
          using step
        proof (cases rule: engine_step.cases)
          case (continue_turn b t ms rid nseq)
          have "length (buffered_tool_results ?s) = length done"
            using Cons.prems(4) by (metis length_map)
          with continue_turn Cons.prems(3) cs show ?thesis by (cases cs) auto
        qed (use Cons.prems False in auto)
        with run_tools_finished [of ?l cs hosts True] cs inv Cons.prems(6) show ?thesis
          unfolding rest by auto
      qed
    qed
  qed
qed simp

lemma iterate:
  assumes ok: "loop_ok l" and acc: "rejection_of (l_outcome l) = None" "terminal_failure (l_outcome l) = None"
    and act: "phase (l_state l) \<noteq> Finished"
  shows "\<exists>l'. run_effects hosts (effects (l_outcome l)) False l = (True, l') \<and> loop_ok l' \<and>
    steps_left (l_outcome l') < steps_left (l_outcome l)"
proof -
  let ?s = "l_state l"
  have st: "next_state (l_outcome l) = ?s" and inv: "engine_inv ?s" and plan: "planned (l_outcome l)"
    and ph: "phase ?s \<noteq> Idle" and fin: "event_finishes (observed_events (l_report l)) = 0"
    using ok by (auto simp: loop_ok_def)
  have dec: "steps_left (engine_reduce ?s i) < steps_left (l_outcome l)"
    if "phase ?s \<in> {WaitingForModel, WaitingForRetry}" for i
  proof (rule steps_left_reduce [OF inv _ acc(1) st])
    show "engine_turn_active (phase ?s)" using that by auto
    assume "rejection_of (engine_reduce ?s i) = None" "phase (engine_next ?s i) = WaitingForTools"
    with engine_accepted_step [of ?s i] that show "phase ?s = WaitingForModel"
      by (auto elim: engine_step.cases)
  qed
  have fed: "loop_ok (feed l' i r w)"
    if "phase ?s \<in> {WaitingForModel, WaitingForRetry}" "l_state l' = ?s"
      "event_finishes (observed_events r) = 0" for l' i r and w :: 'b
  proof (rule feed_ok)
    assume "rejection_of (engine_reduce (l_state l') i) = None" "phase (engine_next (l_state l') i) = WaitingForTools"
    with engine_accepted_step [of ?s i] that show "phase (l_state l') = WaitingForModel"
      by (auto elim: engine_step.cases)
  qed (use that inv ph in auto)
  show ?thesis
  proof (cases "phase ?s")
    case WaitingForModel
    with plan acc st obtain evs req where es: "effects (l_outcome l) = map EmitEvent evs @ [RequestModel req]"
        "event_finishes evs = 0" by (auto simp: planned_def)
    obtain adv l1 where l1: "run_effects hosts (map EmitEvent evs) False l = (adv, l1)" by fastforce
    note e = run_emit_only [OF l1]
    obtain i r w where i: "model_input_from_effect hosts req (l_report l1, l_world l1) = (i, r, w)"
      by (metis prod_cases3)
    have "run_effects hosts (effects (l_outcome l)) False l = (True, feed l1 i r w)"
      by (simp add: es run_effects_events l1 i Let_def)
    moreover have "loop_ok (feed l1 i r w)"
      using WaitingForModel e es(2) fin model_input_events [OF i] by (intro fed) auto
    ultimately show ?thesis using dec [of i] WaitingForModel e by auto
  next
    case WaitingForRetry
    with plan acc st obtain rid d where es: "effects (l_outcome l) = [ScheduleRetry rid d]"
      by (auto simp: planned_def)
    obtain i r w where i: "retry_input_from_effect hosts rid d (l_report l, l_world l) = (i, r, w)"
      by (metis prod_cases3)
    have "loop_ok (feed l i r w)"
      using WaitingForRetry fin retry_input_events [OF i] by (intro fed) auto
    then show ?thesis using dec [of i] WaitingForRetry by (auto simp: es i)
  next
    case WaitingForTools
    with plan acc st obtain calls where es: "effects (l_outcome l) = map ExecuteTool calls"
        "map tcall_id calls = pending_tool_calls ?s" "buffered_tool_results ?s = []"
      by (auto simp: planned_def)
    have "calls \<noteq> []"
      using es(2) inv WaitingForTools by (auto simp: engine_inv_def pending_tools_ok_def)
    with run_tools [of l "[]" calls hosts False] es inv WaitingForTools fin st acc show ?thesis
      by (simp add: steps_left_def Let_def)
  qed (use act ph in auto)
qed

section \<open>Complete turns\<close>

text \<open>What a report of a turn that was not cut off says.\<close>

definition report_ok :: "'v engine_run_report \<Rightarrow> bool" where
  "report_ok rep \<longleftrightarrow> engine_inv (final_state rep) \<and> final_state rep = next_state (last_outcome rep) \<and>
     (rejection_of (last_outcome rep) \<noteq> None \<or> phase (final_state rep) = Finished) \<and>
     event_finishes (observed_events rep) =
       (if phase (final_state rep) = Finished \<and> rejection_of (last_outcome rep) = None \<and>
           terminal_failure (last_outcome rep) = None then 1 else 0)"

lemma replace_outcome_simps [simp]:
  "observed_events (replace_reducer_outcome r o') = observed_events r"
  "final_state (replace_reducer_outcome r o') = next_state o'"
  "last_outcome (replace_reducer_outcome r o') = o'"
  by (simp_all add: replace_reducer_outcome_def)

lemma loop_ok_report [simp]:
  "loop_ok (l\<lparr>l_report := replace_reducer_outcome (l_report l) o'\<rparr>) = loop_ok l"
  by (simp add: loop_ok_def)

lemma run_loop_complete:
  assumes "loop_ok l" "steps_left (l_outcome l) \<le> n" "n \<le> m"
  shows "report_ok (fst (run_loop hosts n l)) \<and> run_loop hosts m l = run_loop hosts n l"
  using assms
proof (induction n arbitrary: l m)
  case 0
  have "steps_left (l_outcome l) > 0"
    by (cases "phase (next_state (l_outcome l))") (simp_all add: steps_left_def Let_def)
  with 0 show ?case by simp
next
  case (Suc n)
  from \<open>Suc n \<le> m\<close> obtain m' where m: "m = Suc m'" "n \<le> m'" by (cases m) auto
  let ?o = "l_outcome l"
  have fin: "event_finishes (observed_events (l_report l)) = 0" and st: "next_state ?o = l_state l"
    and inv: "engine_inv (l_state l)" and plan: "planned ?o"
    using Suc.prems(1) by (auto simp: loop_ok_def)
  show ?case
  proof (cases "rejection_of ?o \<noteq> None \<or> terminal_failure ?o \<noteq> None")
    case True
    have "rejection_of ?o \<noteq> None \<or> phase (l_state l) = Finished"
      using True plan st by (cases "phase (l_state l)") (auto simp: planned_def)
    with True show ?thesis
      using m fin st inv by (auto simp: report_ok_def)
  next
    case False
    then have acc: "rejection_of ?o = None" "terminal_failure ?o = None" by auto
    show ?thesis
    proof (cases "phase (l_state l) = Finished")
      case True
      with plan acc st obtain evs where es: "effects ?o = map EmitEvent evs" "evs \<noteq> []" "event_finishes evs = 1"
        by (auto simp: planned_def)
      obtain adv l1 where l1: "run_effects hosts (map EmitEvent evs) False l = (adv, l1)" by fastforce
      note e = run_emit_only [OF l1]
      have "run_loop hosts (Suc k) l =
          (replace_reducer_outcome (l_report l1) ?o, l_world l1)" for k
        using acc es l1 e by simp
      then show ?thesis
        using m e es(3) fin st inv True acc by (auto simp: report_ok_def)
    next
      case act: False
      have "effects ?o \<noteq> []"
      proof
        assume "effects ?o = []"
        with plan acc st act Suc.prems(1) inv show False
          by (cases "phase (l_state l)") (auto simp: planned_def loop_ok_def engine_inv_def pending_tools_ok_def)
      qed
      moreover obtain l' where l': "run_effects hosts (effects ?o) False l = (True, l')" "loop_ok l'"
          "steps_left (l_outcome l') < steps_left ?o"
        using iterate [OF Suc.prems(1) acc act] by blast
      ultimately have run: "run_loop hosts (Suc k) l =
          run_loop hosts k (l'\<lparr>l_report := replace_reducer_outcome (l_report l') (l_outcome l')\<rparr>)" for k
        using acc by simp
      show ?thesis
        unfolding m(1) run
        using Suc.IH [of "l'\<lparr>l_report := replace_reducer_outcome (l_report l') (l_outcome l')\<rparr>" m'] l' m(2) Suc.prems(2)
        by simp
    qed
  qed
qed

definition prompt_seed :: "'v engine_prompt_submission \<Rightarrow> 'v engine_run_seed" where
  "prompt_seed sub = \<lparr>seed_initial_state = engine_new,
     seed_first_outcome = engine_reduce engine_new (SubmitUserPrompt sub)\<rparr>"

lemma prompt_seed_accepted:
  assumes "sub_model_request_slot_budget sub \<noteq> 0"
  shows "engine_step engine_new (SubmitUserPrompt sub) (effects (engine_reduce engine_new (SubmitUserPrompt sub)))
      (next_state (engine_reduce engine_new (SubmitUserPrompt sub)))"
    and "rejection_of (engine_reduce engine_new (SubmitUserPrompt sub)) = None"
proof -
  show acc: "rejection_of (engine_reduce engine_new (SubmitUserPrompt sub)) = None"
    using engine_accepts_iff [OF engine_inv_new] assms by fastforce
  from engine_accepted_step [OF this] show
    "engine_step engine_new (SubmitUserPrompt sub) (effects (engine_reduce engine_new (SubmitUserPrompt sub)))
      (next_state (engine_reduce engine_new (SubmitUserPrompt sub)))"
    by (simp only: engine_effects_def engine_next_def)
qed

lemma prompt_seed_ok:
  assumes "sub_model_request_slot_budget sub \<noteq> 0"
  shows "let o' = engine_reduce engine_new (SubmitUserPrompt sub)
    in engine_inv (next_state o') \<and> phase (next_state o') = WaitingForModel \<and> planned o' \<and>
       steps_left o' = 6 * unat (sub_model_request_slot_budget sub) + 1"
proof -
  let ?o = "engine_reduce engine_new (SubmitUserPrompt sub)"
  note acc = prompt_seed_accepted [OF assms]
  have st: "phase (next_state ?o) = WaitingForModel" "retry_attempts (next_state ?o) = 0"
      "slots_used (next_state ?o) = 1" "slot_budget (next_state ?o) = sub_model_request_slot_budget sub"
    using acc(1) by (cases rule: engine_step.cases; auto)+
  have "0 < unat (sub_model_request_slot_budget sub)" using assms by (simp add: unat_gt_0)
  then have "steps_left ?o = 6 * unat (sub_model_request_slot_budget sub) + 1"
    using st acc(2) by (simp add: steps_left_def Let_def)
  moreover have "planned ?o"
    using st by (intro planned_reduce) (simp add: engine_next_def)
  moreover have "engine_inv (next_state ?o)"
    using engine_inv_next [OF engine_inv_new, of "SubmitUserPrompt sub"] by (simp only: engine_next_def)
  ultimately show ?thesis using st by (simp only: Let_def simp_thms)
qed

lemma run_prompt_turn:
  assumes "sub_model_request_slot_budget sub \<noteq> 0"
    and "6 * unat (sub_model_request_slot_budget sub) + 1 \<le> ENGINE_HOST_REDUCER_STEP_LIMIT_COUNT"
    and "ENGINE_HOST_REDUCER_STEP_LIMIT_COUNT \<le> m"
  shows "report_ok (fst (run_engine_turn hosts (prompt_seed sub) w)) \<and>
    run_loop hosts m \<lparr>l_report = report_new (prompt_seed sub), l_state = next_state (seed_first_outcome (prompt_seed sub)),
      l_outcome = seed_first_outcome (prompt_seed sub), l_world = w\<rparr> = run_engine_turn hosts (prompt_seed sub) w"
  unfolding run_engine_turn_def
proof (rule run_loop_complete)
  note seed = prompt_seed_ok [OF assms(1), unfolded Let_def]
  show "loop_ok \<lparr>l_report = report_new (prompt_seed sub), l_state = next_state (seed_first_outcome (prompt_seed sub)),
      l_outcome = seed_first_outcome (prompt_seed sub), l_world = w\<rparr>"
    using seed by (simp add: loop_ok_def prompt_seed_def report_new_def del: engine_reduce.simps)
  show "steps_left (l_outcome \<lparr>l_report = report_new (prompt_seed sub),
      l_state = next_state (seed_first_outcome (prompt_seed sub)),
      l_outcome = seed_first_outcome (prompt_seed sub), l_world = w\<rparr>) \<le> ENGINE_HOST_REDUCER_STEP_LIMIT_COUNT"
    using seed assms(2) by (simp add: prompt_seed_def del: engine_reduce.simps)
qed (rule assms(3))

text \<open>
  C1 (termination). The host finishes every turn by itself, whatever the model, the tools and the other
  adapters do: for a prompt with a budget of at most 682 slots the loop of \<open>run_engine_turn\<close> ends
  before its limit of 4096 reducer steps (a larger limit gives the same report and world), because
  each slot takes at most six rounds: three requests, two retry waits and one round of tools. The
  engine is then finished, or the last input was rejected.
\<close>

theorem host_turn_terminates:
  assumes "1 \<le> unat (sub_model_request_slot_budget sub)" "unat (sub_model_request_slot_budget sub) \<le> 682"
    and "4096 \<le> m"
  shows "run_loop hosts m \<lparr>l_report = report_new (prompt_seed sub),
      l_state = next_state (seed_first_outcome (prompt_seed sub)),
      l_outcome = seed_first_outcome (prompt_seed sub), l_world = w\<rparr> = run_engine_turn hosts (prompt_seed sub) w \<and>
    (let rep = fst (run_engine_turn hosts (prompt_seed sub) w)
     in engine_inv (final_state rep) \<and>
       (phase (final_state rep) = Finished \<or> rejection_of (last_outcome rep) \<noteq> None))"
proof -
  have "sub_model_request_slot_budget sub \<noteq> 0" using assms(1) by auto
  from run_prompt_turn [OF this, of m hosts w] assms show ?thesis
    by (auto simp: ENGINE_HOST_REDUCER_STEP_LIMIT_COUNT_def report_ok_def Let_def)
qed

text \<open>
  Which turns the event sink sees end: a complete turn emits one \<open>TurnFinished\<close> event
  exactly when the engine finished and its last outcome was accepted without a terminal failure,
  and none otherwise. In particular a turn that ends in a terminal model failure, or whose
  cancellation was followed by a rejected input, ends without any \<open>TurnFinished\<close> event, although
  the engine planned one.
\<close>

lemma host_turn_finished_events:
  assumes "1 \<le> unat (sub_model_request_slot_budget sub)" "unat (sub_model_request_slot_budget sub) \<le> 682"
  shows "let rep = fst (run_engine_turn hosts (prompt_seed sub) w)
    in event_finishes (observed_events rep) =
       (if phase (final_state rep) = Finished \<and> rejection_of (last_outcome rep) = None \<and>
           terminal_failure (last_outcome rep) = None then 1 else 0)"
proof -
  have "sub_model_request_slot_budget sub \<noteq> 0" using assms(1) by auto
  from run_prompt_turn [OF this _ order_refl, of hosts w] assms show ?thesis
    by (auto simp: ENGINE_HOST_REDUCER_STEP_LIMIT_COUNT_def report_ok_def Let_def)
qed

text \<open>A host for the examples: the model answers at once, tools succeed, nothing fails.\<close>

definition quiet_hosts :: "bool \<Rightarrow> (nat, unit) host_adapters" where
  "quiet_hosts cancelled = \<lparr>
     execute_model = (\<lambda>req w. (ModelHostCompleted \<lparr>rs_output = [ContentText ''hi''], rs_stop_reason = Stop\<rparr> None, w)),
     execute_tool = (\<lambda>call w. (Succeeded [ContentText ''ok''] 0, w)),
     sleep_for_retry = (\<lambda>rid d w. (Inr (), w)), emit_engine_event = (\<lambda>ev w. (Inr (), w)),
     is_cancelled = (\<lambda>w. (cancelled, w)), cancellation_reason = (\<lambda>w. (HOST_CANCELLED_REASON, w)),
     usage_observer = (\<lambda>u w. (Inr (), w)), json_from_str = (\<lambda>s. Inr 0), json_is_object = (\<lambda>v. True)\<rparr>"

definition sample_prompt :: "nat engine_prompt_submission" where
  "sample_prompt = \<lparr>sub_messages = [], sub_model = ''m'', sub_system_prompt = '''',
     sub_max_tokens = None, sub_temperature = None, sub_thinking = None, sub_tools = [],
     sub_no_cache = False, sub_cache_ttl = None, sub_session_id = ''s'',
     sub_model_request_slot_budget = 25\<rparr>"

theorem host_turn_terminates_witness:
  "let rep = fst (run_engine_turn (quiet_hosts False) (prompt_seed sample_prompt) ())
   in phase (final_state rep) = Finished \<or> rejection_of (last_outcome rep) \<noteq> None"
  using host_turn_terminates [of sample_prompt 4096 "quiet_hosts False" "()"]
  by (simp add: sample_prompt_def Let_def)

lemma latched_tool_input:
  assumes "\<And>w. fst (is_cancelled hosts w)"
  shows "\<exists>reason w'. tool_input_from_effect hosts c w = (CancelTurn reason, w')"
  using assms [of w]
  by (auto simp: tool_input_from_effect_def cancel_input_def cancel_turn_input_def Let_def split: prod.splits)

text \<open>
  C38 (safety). What a cancellation during a round of two or more tool calls does (any cancellation source
  that stays cancelled): the first call turns into a cancellation that ends the turn, but the loop
  goes on to the next call, whose cancellation the finished engine rejects as \<open>InvalidPhase\<close>. The
  report shows a rejected input, and the events of the cancellation (the notice, \<open>BusyChanged\<close> and
  \<open>TurnFinished\<close>) are never observed.
\<close>

theorem cancel_during_tools_loses_events:
  assumes cancelled: "\<And>w. fst (is_cancelled hosts w)"
    and ph: "phase (l_state l) = WaitingForTools"
    and es: "effects (l_outcome l) = map ExecuteTool (c # d # cs)"
    and acc: "rejection_of (l_outcome l) = None" "terminal_failure (l_outcome l) = None"
  shows "let rep = fst (run_loop hosts (Suc (Suc n)) l)
    in phase (final_state rep) = Finished \<and> rejection_of (last_outcome rep) = Some InvalidPhase \<and>
       observed_events rep = observed_events (l_report l)"
proof -
  obtain x w where x: "tool_input_from_effect hosts c (l_world l) = (CancelTurn x, w)"
    using latched_tool_input [OF cancelled] by blast
  let ?l = "feed l (CancelTurn x) (l_report l) w"
  obtain y v where y: "tool_input_from_effect hosts d (l_world ?l) = (CancelTurn y, v)"
    using latched_tool_input [OF cancelled] by blast
  have "run_effects hosts (effects (l_outcome l)) False l = (True, feed ?l (CancelTurn y) (l_report l) v)"
    using ph by (simp add: es x y engine_next_def apply_cancel_turn_def terminal_notice_outcome_def
        rejected_outcome_def)
  then show ?thesis
    using acc ph by (simp add: es engine_next_def apply_cancel_turn_def terminal_notice_outcome_def
        rejected_outcome_def)
qed

theorem cancel_during_tools_loses_events_witness:
  "let calls = [\<lparr>tcall_id = ''a'', tcall_name = ''t'', tcall_input = 0\<rparr>, \<lparr>tcall_id = ''b'', tcall_name = ''t'', tcall_input = 0\<rparr>];
       o' = \<lparr>next_state = two_calls_state [''a'', ''b''], effects = map ExecuteTool calls,
             rejection_of = None, terminal_failure = None\<rparr>;
       l = \<lparr>l_report = report_new \<lparr>seed_initial_state = engine_new, seed_first_outcome = o'\<rparr>,
            l_state = two_calls_state [''a'', ''b''], l_outcome = o', l_world = ()\<rparr>
   in observed_events (fst (run_loop (quiet_hosts True) (Suc (Suc 0)) l)) = []"
proof -
  define o' :: "nat engine_outcome" where "o' = \<lparr>next_state = two_calls_state [''a'', ''b''],
     effects = map ExecuteTool [\<lparr>tcall_id = ''a'', tcall_name = ''t'', tcall_input = 0\<rparr>,
       \<lparr>tcall_id = ''b'', tcall_name = ''t'', tcall_input = 0\<rparr>], rejection_of = None, terminal_failure = None\<rparr>"
  define l where "l = \<lparr>l_report = report_new \<lparr>seed_initial_state = engine_new, seed_first_outcome = o'\<rparr>,
     l_state = two_calls_state [''a'', ''b''], l_outcome = o', l_world = ()\<rparr>"
  have "let rep = fst (run_loop (quiet_hosts True) (Suc (Suc 0)) l)
    in phase (final_state rep) = Finished \<and> rejection_of (last_outcome rep) = Some InvalidPhase \<and>
       observed_events rep = observed_events (l_report l)"
    by (rule cancel_during_tools_loses_events)
       (simp_all add: quiet_hosts_def l_def o'_def two_calls_state_def)
  then have "observed_events (fst (run_loop (quiet_hosts True) (Suc (Suc 0)) l)) = []"
    by (simp add: Let_def l_def report_new_def)
  then show ?thesis unfolding l_def o'_def Let_def by simp
qed

end
