(* ===== verification/Session_Ledger.thy ===== *)
theory Session_Ledger
  imports Engine
begin

text \<open>
  The session ledger of the engine host, \<^verbatim>\<open>crates/clankers-engine-host/src/session_ledger.rs\<close>: the
  stored entries of a session and their replay into engine history. Prompt ids and receipt metadata
  are type parameters, as in the source.
\<close>

datatype session_ledger_role = LedgerUser | LedgerAssistant | LedgerTool

record ('p, 'v) session_ledger_message =
  lm_prompt_id :: "'p option"
  lm_role :: session_ledger_role
  lm_content :: "'v content list"

record 'p session_ledger_summary =
  ls_prompt_id :: "'p option"
  ls_text :: string

record 'p session_ledger_usage =
  lu_prompt_id :: "'p option"
  lu_usage :: usage

record ('p, 'm) session_ledger_receipt =
  lr_prompt_id :: "'p option"
  lr_status :: string
  lr_metadata :: 'm

record session_ledger_unsupported =
  un_reason :: string

datatype ('p, 'm, 'v) session_ledger_entry =
    EntryMessage "('p, 'v) session_ledger_message"
  | EntrySummary "'p session_ledger_summary"
  | EntryUsage "'p session_ledger_usage"
  | EntryReceipt "('p, 'm) session_ledger_receipt"
  | EntryUnsupported session_ledger_unsupported

record session_ledger_replay_metadata =
  entry_count :: nat
  message_count :: nat
  summary_count :: nat
  usage_count :: nat
  receipt_count :: nat

record 'v session_ledger_replay =
  rp_messages :: "'v engine_message list"
  rp_metadata :: session_ledger_replay_metadata

record ('s, 'p, 'm, 'v) session_ledger_record =
  rec_session_id :: 's
  rec_entries :: "('p, 'm, 'v) session_ledger_entry list"

datatype session_ledger_error = LedgerUnsupported string

section \<open>Conversions\<close>

fun engine_role_from_ledger_role :: "session_ledger_role \<Rightarrow> engine_message_role" where
  "engine_role_from_ledger_role LedgerUser = User"
| "engine_role_from_ledger_role LedgerAssistant = Assistant"
| "engine_role_from_ledger_role LedgerTool = Tool"

fun ledger_role_from_engine_role :: "engine_message_role \<Rightarrow> session_ledger_role" where
  "ledger_role_from_engine_role User = LedgerUser"
| "ledger_role_from_engine_role Assistant = LedgerAssistant"
| "ledger_role_from_engine_role Tool = LedgerTool"

definition engine_message_from_ledger_message :: "('p, 'v) session_ledger_message \<Rightarrow> 'v engine_message" where
  "engine_message_from_ledger_message m =
     \<lparr>em_role = engine_role_from_ledger_role (lm_role m), em_content = lm_content m\<rparr>"

definition ledger_message_from_engine_message :: "'v engine_message \<Rightarrow> ('p, 'v) session_ledger_message" where
  "ledger_message_from_engine_message m =
     \<lparr>lm_prompt_id = None, lm_role = ledger_role_from_engine_role (em_role m), lm_content = em_content m\<rparr>"

definition engine_messages_from_ledger_messages ::
  "('p, 'v) session_ledger_message list \<Rightarrow> 'v engine_message list" where
  "engine_messages_from_ledger_messages ms = map engine_message_from_ledger_message ms"

definition ledger_messages_from_engine_messages ::
  "'v engine_message list \<Rightarrow> ('p, 'v) session_ledger_message list" where
  "ledger_messages_from_engine_messages ms = map ledger_message_from_engine_message ms"

definition ledger_entries_from_engine_messages ::
  "'v engine_message list \<Rightarrow> ('p, 'm, 'v) session_ledger_entry list" where
  "ledger_entries_from_engine_messages ms = map (\<lambda>m. EntryMessage (ledger_message_from_engine_message m)) ms"

fun join_lines :: "string list \<Rightarrow> string" where
  "join_lines [] = []"
| "join_lines [x] = x"
| "join_lines (x # xs) = x @ [CHR 0x0A] @ join_lines xs"

fun content_text_summary :: "'v content \<Rightarrow> string" where
  "content_text_summary (ContentText t) = t"
| "content_text_summary (ContentThinking t s) = t"
| "content_text_summary (ContentToolUse i n v) = ''tool-use:'' @ n"
| "content_text_summary (ContentToolResult i cs e) = join_lines (map content_text_summary cs)"
| "content_text_summary (ContentImage src) = ''[image]''"

definition text_summary :: "('p, 'v) session_ledger_message \<Rightarrow> string" where
  "text_summary m = join_lines (map content_text_summary (lm_content m))"

definition ledger_text :: "session_ledger_role \<Rightarrow> string \<Rightarrow> ('p, 'v) session_ledger_message" where
  "ledger_text role t = \<lparr>lm_prompt_id = None, lm_role = role, lm_content = [ContentText t]\<rparr>"

definition with_prompt_id :: "'p \<Rightarrow> ('p, 'v) session_ledger_message \<Rightarrow> ('p, 'v) session_ledger_message" where
  "with_prompt_id p m = m\<lparr>lm_prompt_id := Some p\<rparr>"

section \<open>Replay\<close>

definition summary_message :: "string \<Rightarrow> 'v engine_message" where
  "summary_message t = \<lparr>em_role = User,
     em_content = [ContentText (''Session summary:'' @ [CHR 0x0A] @ t)]\<rparr>"

fun replay_loop ::
  "('p, 'm, 'v) session_ledger_entry list \<Rightarrow> 'v engine_message list \<Rightarrow> session_ledger_replay_metadata \<Rightarrow>
   session_ledger_error + 'v session_ledger_replay" where
  "replay_loop [] msgs meta = Inr \<lparr>rp_messages = msgs, rp_metadata = meta\<rparr>"
| "replay_loop (EntryMessage m # es) msgs meta =
     replay_loop es (msgs @ [engine_message_from_ledger_message m])
       (meta\<lparr>message_count := message_count meta + 1\<rparr>)"
| "replay_loop (EntrySummary s # es) msgs meta =
     replay_loop es (msgs @ [summary_message (ls_text s)]) (meta\<lparr>summary_count := summary_count meta + 1\<rparr>)"
| "replay_loop (EntryUsage u # es) msgs meta =
     replay_loop es msgs (meta\<lparr>usage_count := usage_count meta + 1\<rparr>)"
| "replay_loop (EntryReceipt r # es) msgs meta =
     replay_loop es msgs (meta\<lparr>receipt_count := receipt_count meta + 1\<rparr>)"
| "replay_loop (EntryUnsupported u # es) msgs meta = Inl (LedgerUnsupported (un_reason u))"

definition replay_ledger_entries ::
  "('p, 'm, 'v) session_ledger_entry list \<Rightarrow> session_ledger_error + 'v session_ledger_replay" where
  "replay_ledger_entries entries = replay_loop entries []
     \<lparr>entry_count = length entries, message_count = 0, summary_count = 0, usage_count = 0, receipt_count = 0\<rparr>"

definition record_replay ::
  "('s, 'p, 'm, 'v) session_ledger_record \<Rightarrow> session_ledger_error + 'v session_ledger_replay" where
  "record_replay self = replay_ledger_entries (rec_entries self)"

section \<open>What a replay returns\<close>

fun visible_message :: "('p, 'm, 'v) session_ledger_entry \<Rightarrow> 'v engine_message option" where
  "visible_message (EntryMessage m) = Some (engine_message_from_ledger_message m)"
| "visible_message (EntrySummary s) = Some (summary_message (ls_text s))"
| "visible_message _ = None"

fun unsupported_reason :: "('p, 'm, 'v) session_ledger_entry \<Rightarrow> string option" where
  "unsupported_reason (EntryUnsupported u) = Some (un_reason u)"
| "unsupported_reason _ = None"

definition count_entries :: "(('p, 'm, 'v) session_ledger_entry \<Rightarrow> bool) \<Rightarrow> ('p, 'm, 'v) session_ledger_entry list \<Rightarrow> nat" where
  "count_entries P es = length (filter P es)"

lemma replay_loop_spec:
  "replay_loop es msgs meta =
     (case List.map_filter unsupported_reason es of
        r # _ \<Rightarrow> Inl (LedgerUnsupported r)
      | [] \<Rightarrow> Inr \<lparr>rp_messages = msgs @ List.map_filter visible_message es,
          rp_metadata = meta\<lparr>
            message_count := message_count meta + count_entries (\<lambda>e. case e of EntryMessage _ \<Rightarrow> True | _ \<Rightarrow> False) es,
            summary_count := summary_count meta + count_entries (\<lambda>e. case e of EntrySummary _ \<Rightarrow> True | _ \<Rightarrow> False) es,
            usage_count := usage_count meta + count_entries (\<lambda>e. case e of EntryUsage _ \<Rightarrow> True | _ \<Rightarrow> False) es,
            receipt_count := receipt_count meta + count_entries (\<lambda>e. case e of EntryReceipt _ \<Rightarrow> True | _ \<Rightarrow> False) es\<rparr>\<rparr>)"
  by (induction es msgs meta rule: replay_loop.induct)
     (auto simp: List.map_filter_simps count_entries_def split: list.splits)

lemma entry_counts_partition:
  "List.map_filter unsupported_reason es = [] \<Longrightarrow>
   length es = count_entries (\<lambda>e. case e of EntryMessage _ \<Rightarrow> True | _ \<Rightarrow> False) es +
     count_entries (\<lambda>e. case e of EntrySummary _ \<Rightarrow> True | _ \<Rightarrow> False) es +
     count_entries (\<lambda>e. case e of EntryUsage _ \<Rightarrow> True | _ \<Rightarrow> False) es +
     count_entries (\<lambda>e. case e of EntryReceipt _ \<Rightarrow> True | _ \<Rightarrow> False) es"
proof (induction es)
  case (Cons e es)
  then show ?case by (cases e) (auto simp: List.map_filter_simps count_entries_def)
qed (simp add: count_entries_def)

lemma visible_length:
  "length (List.map_filter visible_message es) =
     count_entries (\<lambda>e. case e of EntryMessage _ \<Rightarrow> True | _ \<Rightarrow> False) es +
     count_entries (\<lambda>e. case e of EntrySummary _ \<Rightarrow> True | _ \<Rightarrow> False) es"
proof (induction es)
  case (Cons e es)
  then show ?case by (cases e) (auto simp: List.map_filter_simps count_entries_def)
qed (simp add: count_entries_def List.map_filter_simps)

text \<open>
  Replay fails closed and counts everything: it fails with the reason of the first
  unsupported entry if there is one, and otherwise returns the messages and summaries in ledger
  order, with counts that add up to the number of entries and of replayed messages.
\<close>

lemma replay_fails_closed:
  "case List.map_filter unsupported_reason es of
     r # _ \<Rightarrow> replay_ledger_entries es = Inl (LedgerUnsupported r)
   | [] \<Rightarrow> (\<exists>rep. replay_ledger_entries es = Inr rep \<and>
       rp_messages rep = List.map_filter visible_message es \<and>
       entry_count (rp_metadata rep) = length es \<and>
       message_count (rp_metadata rep) + summary_count (rp_metadata rep) +
         usage_count (rp_metadata rep) + receipt_count (rp_metadata rep) = length es \<and>
       message_count (rp_metadata rep) + summary_count (rp_metadata rep) = length (rp_messages rep))"
  using entry_counts_partition [of es] visible_length [of es]
  by (auto simp: replay_ledger_entries_def replay_loop_spec split: list.splits)

lemma ledger_message_roundtrip:
  "engine_message_from_ledger_message (ledger_message_from_engine_message m) = m"
  by (cases m; cases "em_role m")
     (auto simp: engine_message_from_ledger_message_def ledger_message_from_engine_message_def)

text \<open>
  Storing an engine history in a ledger and replaying it gives the history back, role by
  role and block by block, and counts every message once.
\<close>

lemma ledger_roundtrip:
  "replay_ledger_entries (ledger_entries_from_engine_messages ms :: ('p, 'm, 'v) session_ledger_entry list) =
     Inr \<lparr>rp_messages = ms, rp_metadata = \<lparr>entry_count = length ms, message_count = length ms,
       summary_count = 0, usage_count = 0, receipt_count = 0\<rparr>\<rparr>"
proof -
  have "replay_loop (ledger_entries_from_engine_messages ms' :: ('p, 'm, 'v) session_ledger_entry list) msgs meta =
      Inr \<lparr>rp_messages = msgs @ ms', rp_metadata = meta\<lparr>message_count := message_count meta + length ms'\<rparr>\<rparr>"
    for ms' :: "'v engine_message list" and msgs meta
    by (induction ms' arbitrary: msgs meta)
       (simp_all add: ledger_entries_from_engine_messages_def ledger_message_roundtrip)
  then show ?thesis
    by (simp add: replay_ledger_entries_def ledger_entries_from_engine_messages_def)
qed

end
