(* ===== verification/Auth.thy ===== *)
theory Auth
  imports Prelude
begin

text \<open>
  Capability tokens, \<^verbatim>\<open>crates/clanker-auth/src\<close>: building and signing tokens (\<^verbatim>\<open>builder.rs\<close>), the token
  and its size-bounded encoding (\<^verbatim>\<open>token.rs\<close>), verification with revocation and trusted roots
  (\<^verbatim>\<open>verifier.rs\<close>), and self-contained credentials (\<^verbatim>\<open>credential.rs\<close>). The capability type with its
  trait functions and the libraries (Ed25519 keys of iroh, postcard, BLAKE3, base64) are the fields
  of an environment record; the laws a result needs of them are its hypotheses. An \<^verbatim>\<open>assert!\<close> that
  fails is the value \<open>Panic\<close>. Lock poisoning needs a panic under a lock, which the code has none of,
  so the locks are not modelled.
\<close>

section \<open>Tokens\<close>

type_synonym public_key = bytes
type_synonym secret_key = bytes
type_synonym token_hash = bytes

definition MAX_CAPABILITIES_PER_TOKEN :: nat where "MAX_CAPABILITIES_PER_TOKEN = 32"
definition MAX_DELEGATION_DEPTH :: u8 where "MAX_DELEGATION_DEPTH = 8"
definition MAX_TOKEN_SIZE :: nat where "MAX_TOKEN_SIZE = 8 * 1024"
definition MAX_CREDENTIAL_SIZE :: nat where "MAX_CREDENTIAL_SIZE = 8 * (8 * 1024)"
definition MAX_REVOCATION_LIST_SIZE :: nat where "MAX_REVOCATION_LIST_SIZE = 10000"
definition TOKEN_CLOCK_SKEW_SECS :: u64 where "TOKEN_CLOCK_SKEW_SECS = 60"
definition MIN_SIGNING_TOKEN_BYTES :: nat where "MIN_SIGNING_TOKEN_BYTES = 49"

datatype audience = Key public_key | Bearer

record 'c capability_token =
  version :: u8
  issuer :: public_key
  audience_of :: audience
  capabilities :: "'c list"
  issued_at :: u64
  expires_at :: u64
  nonce :: "bytes option"
  proof_of :: "token_hash option"
  delegation_depth :: u8
  signature_of :: bytes

datatype auth_error =
    InvalidSignature
  | TokenExpired u64 u64
  | TokenFromFuture u64 u64
  | WrongAudience string string
  | AudienceRequired
  | TokenRevoked
  | Unauthorized string
  | TooManyCapabilities nat nat
  | DelegationTooDeep u8 u8
  | CapabilityEscalation string
  | DelegationNotAllowed
  | TokenTooLarge nat nat
  | EncodingError string
  | DecodingError string
  | NoToken
  | InternalError string
  | UntrustedRoot
  | ParentTokenRequired

datatype auth_failure = Err auth_error | Panic

type_synonym 'a auth_result = "auth_failure + 'a"

record 'c credential =
  cred_token :: "'c capability_token"
  cred_proofs :: "'c capability_token list"

text \<open>The trait \<^verbatim>\<open>Cap\<close> and the libraries.\<close>

record ('c, 'op) auth_env =
  cap_authorizes :: "'c \<Rightarrow> 'op \<Rightarrow> bool"
  cap_contains :: "'c \<Rightarrow> 'c \<Rightarrow> bool"
  cap_is_delegate :: "'c \<Rightarrow> bool"
  debug_cap :: "'c \<Rightarrow> string"
  debug_op :: "'op \<Rightarrow> string"
  key_to_string :: "public_key \<Rightarrow> string"
  public :: "secret_key \<Rightarrow> public_key"
  sign :: "secret_key \<Rightarrow> bytes \<Rightarrow> bytes"
  verify_sig :: "public_key \<Rightarrow> bytes \<Rightarrow> bytes \<Rightarrow> bool"
  postcard_audience :: "audience \<Rightarrow> string + bytes"
  postcard_caps :: "'c list \<Rightarrow> string + bytes"
  postcard_token :: "'c capability_token \<Rightarrow> string + bytes"
  postcard_token_from :: "bytes \<Rightarrow> string + 'c capability_token"
  postcard_credential :: "'c credential \<Rightarrow> string + bytes"
  postcard_credential_from :: "bytes \<Rightarrow> string + 'c credential"
  blake3 :: "bytes \<Rightarrow> bytes"
  base64_encode :: "bytes \<Rightarrow> string"
  base64_decode :: "string \<Rightarrow> string + bytes"

definition from_parts :: "'c capability_token \<Rightarrow> 'c capability_token auth_result" where
  "from_parts parts =
     (if \<not> version parts > 0 then Inl Panic
      else if \<not> expires_at parts \<ge> issued_at parts then Inl Panic
      else Inr parts)"

definition encode :: "('c, 'op) auth_env \<Rightarrow> 'c capability_token \<Rightarrow> bytes auth_result" where
  "encode env self = (case postcard_token env self of
     Inl e \<Rightarrow> Inl (Err (EncodingError e))
   | Inr bs \<Rightarrow> if length bs > MAX_TOKEN_SIZE then Inl (Err (TokenTooLarge (length bs) MAX_TOKEN_SIZE)) else Inr bs)"

definition decode :: "('c, 'op) auth_env \<Rightarrow> bytes \<Rightarrow> 'c capability_token auth_result" where
  "decode env bs =
     (if length bs > MAX_TOKEN_SIZE then Inl (Err (TokenTooLarge (length bs) MAX_TOKEN_SIZE))
      else case postcard_token_from env bs of Inl e \<Rightarrow> Inl (Err (DecodingError e)) | Inr t \<Rightarrow> Inr t)"

definition to_base64 :: "('c, 'op) auth_env \<Rightarrow> 'c capability_token \<Rightarrow> string auth_result" where
  "to_base64 env self = (case encode env self of Inl e \<Rightarrow> Inl e | Inr bs \<Rightarrow> Inr (base64_encode env bs))"

definition from_base64 :: "('c, 'op) auth_env \<Rightarrow> string \<Rightarrow> 'c capability_token auth_result" where
  "from_base64 env s = (case base64_decode env s of
     Inl e \<Rightarrow> Inl (Err (DecodingError e)) | Inr bs \<Rightarrow> decode env bs)"

definition hash :: "('c, 'op) auth_env \<Rightarrow> 'c capability_token \<Rightarrow> token_hash auth_result" where
  "hash env self = (case encode env self of
     Inl e \<Rightarrow> Inl e
   | Inr bs \<Rightarrow> if bs = [] then Inl Panic else Inr (blake3 env bs))"

section \<open>Building\<close>

definition to_le_bytes :: "u64 \<Rightarrow> bytes" where
  "to_le_bytes w = map (\<lambda>i. ucast (drop_bit (8 * i) w)) [0..<8]"

definition encode_signing_field :: "string \<Rightarrow> string + bytes \<Rightarrow> bytes auth_result" where
  "encode_signing_field field_name r = (case r of
     Inl e \<Rightarrow> Inl (Err (EncodingError (field_name @ '': '' @ e))) | Inr bs \<Rightarrow> Inr bs)"

definition opt_bytes :: "bytes option \<Rightarrow> bytes" where
  "opt_bytes x = (case x of None \<Rightarrow> [] | Some bs \<Rightarrow> bs)"

definition bytes_to_sign :: "('c, 'op) auth_env \<Rightarrow> 'c capability_token \<Rightarrow> bytes auth_result" where
  "bytes_to_sign env token =
     (if \<not> version token > 0 then Inl Panic
      else if \<not> expires_at token \<ge> issued_at token then Inl Panic
      else case encode_signing_field ''audience'' (postcard_audience env (audience_of token)) of
        Inl e \<Rightarrow> Inl e
      | Inr audience_bytes \<Rightarrow>
          (case encode_signing_field ''capabilities'' (postcard_caps env (capabilities token)) of
             Inl e \<Rightarrow> Inl e
           | Inr cap_bytes \<Rightarrow>
               let bs = [version token] @ issuer token @ audience_bytes @ cap_bytes @
                     to_le_bytes (issued_at token) @ to_le_bytes (expires_at token) @
                     opt_bytes (nonce token) @ opt_bytes (proof_of token) @ [delegation_depth token]
               in if \<not> length bs > MIN_SIGNING_TOKEN_BYTES then Inl Panic else Inr bs))"

record 'c token_builder =
  tb_issuer_key :: secret_key
  tb_audience :: audience
  tb_capabilities :: "'c list"
  tb_lifetime :: duration
  tb_nonce :: "bytes option"
  tb_parent :: "'c capability_token option"

definition builder_new :: "secret_key \<Rightarrow> 'c token_builder" where
  "builder_new issuer_key = \<lparr>tb_issuer_key = issuer_key, tb_audience = Bearer, tb_capabilities = [],
     tb_lifetime = dur_from_secs 3600, tb_nonce = None, tb_parent = None\<rparr>"

definition for_audience :: "audience \<Rightarrow> 'c token_builder \<Rightarrow> 'c token_builder" where
  "for_audience a b = b\<lparr>tb_audience := a\<rparr>"

definition for_key :: "public_key \<Rightarrow> 'c token_builder \<Rightarrow> 'c token_builder" where
  "for_key k b = b\<lparr>tb_audience := Key k\<rparr>"

definition with_capability :: "'c \<Rightarrow> 'c token_builder \<Rightarrow> 'c token_builder" where
  "with_capability c b = b\<lparr>tb_capabilities := tb_capabilities b @ [c]\<rparr>"

definition with_capabilities :: "'c list \<Rightarrow> 'c token_builder \<Rightarrow> 'c token_builder" where
  "with_capabilities cs b = b\<lparr>tb_capabilities := tb_capabilities b @ cs\<rparr>"

definition with_lifetime :: "duration \<Rightarrow> 'c token_builder \<Rightarrow> 'c token_builder" where
  "with_lifetime d b = b\<lparr>tb_lifetime := d\<rparr>"

definition with_nonce :: "bytes \<Rightarrow> 'c token_builder \<Rightarrow> 'c token_builder" where
  "with_nonce n b = b\<lparr>tb_nonce := Some n\<rparr>"

text \<open>The random bytes are an argument.\<close>

definition with_random_nonce :: "bytes \<Rightarrow> 'c token_builder \<Rightarrow> 'c token_builder" where
  "with_random_nonce random b = b\<lparr>tb_nonce := Some random\<rparr>"

definition delegated_from :: "'c capability_token \<Rightarrow> 'c token_builder \<Rightarrow> 'c token_builder" where
  "delegated_from parent b = b\<lparr>tb_parent := Some parent\<rparr>"

definition delegation_depth_for ::
  "('c, 'op) auth_env \<Rightarrow> 'c list \<Rightarrow> 'c capability_token option \<Rightarrow> u8 auth_result" where
  "delegation_depth_for env caps parent = (case parent of
     None \<Rightarrow> Inr 0
   | Some p \<Rightarrow>
       let new_depth = saturating_add (delegation_depth p) 1
       in if new_depth > MAX_DELEGATION_DEPTH
          then Inl (Err (DelegationTooDeep new_depth MAX_DELEGATION_DEPTH))
          else case find (\<lambda>cap. \<not> list_ex (\<lambda>q. cap_contains env q cap) (capabilities p)) caps of
            Some cap \<Rightarrow> Inl (Err (CapabilityEscalation (debug_cap env cap)))
          | None \<Rightarrow>
              if \<not> list_ex (cap_is_delegate env) (capabilities p) then Inl (Err DelegationNotAllowed)
              else Inr new_depth)"

definition proof_for :: "('c, 'op) auth_env \<Rightarrow> 'c capability_token option \<Rightarrow> token_hash option auth_result" where
  "proof_for env parent = (case parent of
     None \<Rightarrow> Inr None
   | Some p \<Rightarrow> (case hash env p of Inl e \<Rightarrow> Inl e | Inr h \<Rightarrow> Inr (Some h)))"

definition build_at :: "('c, 'op) auth_env \<Rightarrow> 'c token_builder \<Rightarrow> u64 \<Rightarrow> 'c capability_token auth_result" where
  "build_at env self issued =
     (if length (tb_capabilities self) > MAX_CAPABILITIES_PER_TOKEN
      then Inl (Err (TooManyCapabilities
             (if length (tb_capabilities self) < 2 ^ 32 then length (tb_capabilities self)
              else MAX_CAPABILITIES_PER_TOKEN + 1) MAX_CAPABILITIES_PER_TOKEN))
      else case delegation_depth_for env (tb_capabilities self) (tb_parent self) of
        Inl e \<Rightarrow> Inl e
      | Inr depth \<Rightarrow> (case proof_for env (tb_parent self) of
          Inl e \<Rightarrow> Inl e
        | Inr prf \<Rightarrow> (case from_parts \<lparr>version = 1, issuer = public env (tb_issuer_key self),
              audience_of = tb_audience self, capabilities = tb_capabilities self, issued_at = issued,
              expires_at = saturating_add issued (dur_as_secs (tb_lifetime self)),
              nonce = tb_nonce self, proof_of = prf, delegation_depth = depth,
              signature_of = replicate 64 0\<rparr> of
            Inl e \<Rightarrow> Inl e
          | Inr token \<Rightarrow> (case bytes_to_sign env token of
              Inl e \<Rightarrow> Inl e
            | Inr sign_bytes \<Rightarrow>
                Inr (token\<lparr>signature_of := sign env (tb_issuer_key self) sign_bytes\<rparr>)))))"

section \<open>Verifying\<close>

record 'c token_verifier =
  revoked :: "token_hash set"
  parent_cache :: "token_hash \<rightharpoonup> 'c capability_token"
  trusted_roots :: "public_key list"
  clock_skew_tolerance :: u64
  verification_time_seconds :: u64

definition new_at :: "u64 \<Rightarrow> 'c token_verifier" where
  "new_at t = \<lparr>revoked = {}, parent_cache = Map.empty, trusted_roots = [],
     clock_skew_tolerance = TOKEN_CLOCK_SKEW_SECS, verification_time_seconds = t\<rparr>"

definition with_trusted_root :: "public_key \<Rightarrow> 'c token_verifier \<Rightarrow> 'c token_verifier" where
  "with_trusted_root key v = v\<lparr>trusted_roots := trusted_roots v @ [key]\<rparr>"

definition with_clock_skew_tolerance :: "u64 \<Rightarrow> 'c token_verifier \<Rightarrow> 'c token_verifier" where
  "with_clock_skew_tolerance s v = v\<lparr>clock_skew_tolerance := s\<rparr>"

definition register_parent_token ::
  "('c, 'op) auth_env \<Rightarrow> 'c token_verifier \<Rightarrow> 'c capability_token \<Rightarrow> 'c token_verifier auth_result" where
  "register_parent_token env v token = (case hash env token of
     Inl e \<Rightarrow> Inl e
   | Inr h \<Rightarrow> Inr (v\<lparr>parent_cache := (parent_cache v)(h \<mapsto> token)\<rparr>))"

definition clear_parent_cache :: "'c token_verifier \<Rightarrow> 'c token_verifier" where
  "clear_parent_cache v = v\<lparr>parent_cache := Map.empty\<rparr>"

definition check_audience ::
  "('c, 'op) auth_env \<Rightarrow> audience \<Rightarrow> public_key option \<Rightarrow> unit auth_result" where
  "check_audience env a presenter = (case a of
     Key expected \<Rightarrow> (case presenter of
       Some actual \<Rightarrow>
         if expected \<noteq> actual
         then Inl (Err (WrongAudience (key_to_string env expected) (key_to_string env actual)))
         else Inr ()
     | None \<Rightarrow> Inl (Err AudienceRequired))
   | Bearer \<Rightarrow> Inr ())"

text \<open>The checks on one token that both verification functions spell out: signature, expiry, issue
  time, audience (of the leaf) and revocation, in this order.\<close>

definition check_token ::
  "('c, 'op) auth_env \<Rightarrow> 'c token_verifier \<Rightarrow> 'c capability_token \<Rightarrow> public_key option \<Rightarrow> u8 \<Rightarrow> unit auth_result" where
  "check_token env v token presenter chain_depth =
     (case bytes_to_sign env token of
        Inl e \<Rightarrow> Inl e
      | Inr sign_bytes \<Rightarrow>
          if \<not> verify_sig env (issuer token) sign_bytes (signature_of token)
          then Inl (Err InvalidSignature)
          else
            let now = verification_time_seconds v
            in if saturating_add (expires_at token) (clock_skew_tolerance v) < now
               then Inl (Err (TokenExpired (expires_at token) now))
               else if issued_at token > saturating_add now (clock_skew_tolerance v)
               then Inl (Err (TokenFromFuture (issued_at token) now))
               else case (if chain_depth = 0 then check_audience env (audience_of token) presenter else Inr ()) of
                 Inl e \<Rightarrow> Inl e
               | Inr _ \<Rightarrow> (case hash env token of
                   Inl e \<Rightarrow> Inl e
                 | Inr h \<Rightarrow> if h \<in> revoked v then Inl (Err TokenRevoked) else Inr ()))"

lemma depth_measure:
  fixes d :: u8
  assumes "\<not> d > MAX_DELEGATION_DEPTH"
  shows "256 - unat (saturating_add d 1) < 256 - unat d"
proof -
  have "unat d \<le> 8" using assms by (simp add: MAX_DELEGATION_DEPTH_def word_less_nat_alt not_less)
  then have "unat (saturating_add d 1) = unat d + 1" by (intro unat_saturating_add_one) simp
  then show ?thesis using \<open>unat d \<le> 8\<close> by simp
qed

function verify_internal ::
  "('c, 'op) auth_env \<Rightarrow> 'c token_verifier \<Rightarrow> 'c capability_token \<Rightarrow> public_key option \<Rightarrow> u8 \<Rightarrow> unit auth_result" where
  "verify_internal env v token presenter chain_depth =
     (if chain_depth > MAX_DELEGATION_DEPTH
      then Inl (Err (DelegationTooDeep chain_depth MAX_DELEGATION_DEPTH))
      else if \<not> version token > 0 then Inl Panic
      else if \<not> expires_at token \<ge> issued_at token then Inl Panic
      else if delegation_depth token = 0 \<and> proof_of token \<noteq> None then Inl Panic
      else case check_token env v token presenter chain_depth of
        Inl e \<Rightarrow> Inl e
      | Inr _ \<Rightarrow>
          if trusted_roots v \<noteq> [] then
            (case proof_of token of
               Some parent_hash \<Rightarrow>
                 (case parent_cache v parent_hash of
                    Some parent \<Rightarrow> verify_internal env v parent None (saturating_add chain_depth 1)
                  | None \<Rightarrow> Inl (Err ParentTokenRequired))
             | None \<Rightarrow> if issuer token \<notin> set (trusted_roots v) then Inl (Err UntrustedRoot) else Inr ())
          else Inr ())"
  by pat_completeness auto
termination
  by (relation "measure (\<lambda>(env, v, token, presenter, d). 256 - unat d)") (auto intro: depth_measure)

definition verify ::
  "('c, 'op) auth_env \<Rightarrow> 'c token_verifier \<Rightarrow> 'c capability_token \<Rightarrow> public_key option \<Rightarrow> unit auth_result" where
  "verify env v token presenter = verify_internal env v token presenter 0"

function verify_with_chain_internal ::
  "('c, 'op) auth_env \<Rightarrow> 'c token_verifier \<Rightarrow> 'c capability_token \<Rightarrow> (token_hash \<rightharpoonup> 'c capability_token) \<Rightarrow>
   public_key option \<Rightarrow> u8 \<Rightarrow> unit auth_result" where
  "verify_with_chain_internal env v token chain_map presenter chain_depth =
     (if chain_depth > MAX_DELEGATION_DEPTH
      then Inl (Err (DelegationTooDeep chain_depth MAX_DELEGATION_DEPTH))
      else case check_token env v token presenter chain_depth of
        Inl e \<Rightarrow> Inl e
      | Inr _ \<Rightarrow>
          if trusted_roots v \<noteq> [] then
            (case proof_of token of
               Some parent_hash \<Rightarrow>
                 (case chain_map parent_hash of
                    Some parent \<Rightarrow>
                      verify_with_chain_internal env v parent chain_map None (saturating_add chain_depth 1)
                  | None \<Rightarrow>
                      (case parent_cache v parent_hash of
                         Some parent \<Rightarrow>
                           verify_with_chain_internal env v parent chain_map None (saturating_add chain_depth 1)
                       | None \<Rightarrow> Inl (Err ParentTokenRequired)))
             | None \<Rightarrow> if issuer token \<notin> set (trusted_roots v) then Inl (Err UntrustedRoot) else Inr ())
          else Inr ())"
  by pat_completeness auto
termination
  by (relation "measure (\<lambda>(env, v, token, chain_map, presenter, d). 256 - unat d)") (auto intro: depth_measure)

text \<open>The chain collected into a hash map: the first token that cannot be hashed is the error, and
  a later token replaces an earlier one with the same hash.\<close>

fun chain_map_of ::
  "('c, 'op) auth_env \<Rightarrow> 'c capability_token list \<Rightarrow> (token_hash \<rightharpoonup> 'c capability_token) \<Rightarrow>
   (token_hash \<rightharpoonup> 'c capability_token) auth_result" where
  "chain_map_of env [] m = Inr m"
| "chain_map_of env (t # ts) m = (case hash env t of Inl e \<Rightarrow> Inl e | Inr h \<Rightarrow> chain_map_of env ts (m(h \<mapsto> t)))"

definition verify_with_chain ::
  "('c, 'op) auth_env \<Rightarrow> 'c token_verifier \<Rightarrow> 'c capability_token \<Rightarrow> 'c capability_token list \<Rightarrow>
   public_key option \<Rightarrow> unit auth_result" where
  "verify_with_chain env v token chain presenter = (case chain_map_of env chain Map.empty of
     Inl e \<Rightarrow> Inl e
   | Inr m \<Rightarrow> verify_with_chain_internal env v token m presenter 0)"

definition authorize ::
  "('c, 'op) auth_env \<Rightarrow> 'c token_verifier \<Rightarrow> 'c capability_token \<Rightarrow> 'op \<Rightarrow> public_key option \<Rightarrow> unit auth_result" where
  "authorize env v token operation presenter =
     (if capabilities token = [] then Inl Panic
      else case verify env v token presenter of
        Inl e \<Rightarrow> Inl e
      | Inr _ \<Rightarrow>
          if list_ex (\<lambda>cap. cap_authorizes env cap operation) (capabilities token) then Inr ()
          else Inl (Err (Unauthorized (debug_op env operation))))"

definition revoke :: "'c token_verifier \<Rightarrow> token_hash \<Rightarrow> 'c token_verifier auth_result" where
  "revoke v h =
     (if card (revoked v) \<ge> MAX_REVOCATION_LIST_SIZE
      then (if h \<in> revoked v then Inr v
            else Inl (Err (InternalError (''revocation list full: '' @ show_nat (card (revoked v)) @
                   '' entries (max '' @ show_nat MAX_REVOCATION_LIST_SIZE @ '')''))))
      else Inr (v\<lparr>revoked := insert h (revoked v)\<rparr>))"

definition revoke_token ::
  "('c, 'op) auth_env \<Rightarrow> 'c token_verifier \<Rightarrow> 'c capability_token \<Rightarrow> 'c token_verifier auth_result" where
  "revoke_token env v token = (case hash env token of Inl e \<Rightarrow> Inl e | Inr h \<Rightarrow> revoke v h)"

definition is_revoked :: "'c token_verifier \<Rightarrow> token_hash \<Rightarrow> bool" where
  "is_revoked v h \<longleftrightarrow> h \<in> revoked v"

definition clear_revocations :: "'c token_verifier \<Rightarrow> 'c token_verifier" where
  "clear_revocations v = v\<lparr>revoked := {}\<rparr>"

definition revocation_count :: "'c token_verifier \<Rightarrow> u32" where
  "revocation_count v = of_nat (card (revoked v))"

definition load_revoked :: "'c token_verifier \<Rightarrow> token_hash list \<Rightarrow> 'c token_verifier" where
  "load_revoked v hs = v\<lparr>revoked := revoked v \<union> set hs\<rparr>"

section \<open>Credentials\<close>

definition from_root :: "'c capability_token \<Rightarrow> 'c credential" where
  "from_root token = \<lparr>cred_token = token, cred_proofs = []\<rparr>"

definition verify_at ::
  "('c, 'op) auth_env \<Rightarrow> 'c credential \<Rightarrow> public_key list \<Rightarrow> public_key option \<Rightarrow> u64 \<Rightarrow> unit auth_result" where
  "verify_at env self roots presenter t =
     (let verifier = foldl (\<lambda>v root. with_trusted_root root v) (new_at t) roots
      in verify_with_chain env verifier (cred_token self) (cred_proofs self) presenter)"

definition delegate_at ::
  "('c, 'op) auth_env \<Rightarrow> 'c credential \<Rightarrow> secret_key \<Rightarrow> public_key \<Rightarrow> 'c list \<Rightarrow> duration \<Rightarrow> u64 \<Rightarrow> bytes \<Rightarrow>
   'c credential auth_result" where
  "delegate_at env self issuer_key aud caps lifetime issued random =
     (case build_at env (delegated_from (cred_token self) (with_random_nonce random
             (with_lifetime lifetime (with_capabilities caps (for_key aud (builder_new issuer_key)))))) issued of
        Inl e \<Rightarrow> Inl e
      | Inr child \<Rightarrow> Inr \<lparr>cred_token = child, cred_proofs = cred_token self # cred_proofs self\<rparr>)"

definition delegate_bearer_at ::
  "('c, 'op) auth_env \<Rightarrow> 'c credential \<Rightarrow> secret_key \<Rightarrow> 'c list \<Rightarrow> duration \<Rightarrow> u64 \<Rightarrow> bytes \<Rightarrow>
   'c credential auth_result" where
  "delegate_bearer_at env self issuer_key caps lifetime issued random =
     (case build_at env (delegated_from (cred_token self) (with_random_nonce random
             (with_lifetime lifetime (with_capabilities caps (for_audience Bearer (builder_new issuer_key)))))) issued of
        Inl e \<Rightarrow> Inl e
      | Inr child \<Rightarrow> Inr \<lparr>cred_token = child, cred_proofs = cred_token self # cred_proofs self\<rparr>)"

definition cred_encode :: "('c, 'op) auth_env \<Rightarrow> 'c credential \<Rightarrow> bytes auth_result" where
  "cred_encode env self = (case postcard_credential env self of
     Inl e \<Rightarrow> Inl (Err (EncodingError e))
   | Inr bs \<Rightarrow> if length bs > MAX_CREDENTIAL_SIZE
               then Inl (Err (TokenTooLarge (length bs) MAX_CREDENTIAL_SIZE)) else Inr bs)"

definition cred_decode :: "('c, 'op) auth_env \<Rightarrow> bytes \<Rightarrow> 'c credential auth_result" where
  "cred_decode env bs =
     (if length bs > MAX_CREDENTIAL_SIZE then Inl (Err (TokenTooLarge (length bs) MAX_CREDENTIAL_SIZE))
      else case postcard_credential_from env bs of Inl e \<Rightarrow> Inl (Err (DecodingError e)) | Inr c \<Rightarrow> Inr c)"

definition cred_to_base64 :: "('c, 'op) auth_env \<Rightarrow> 'c credential \<Rightarrow> string auth_result" where
  "cred_to_base64 env self = (case cred_encode env self of Inl e \<Rightarrow> Inl e | Inr bs \<Rightarrow> Inr (base64_encode env bs))"

definition cred_from_base64 :: "('c, 'op) auth_env \<Rightarrow> string \<Rightarrow> 'c credential auth_result" where
  "cred_from_base64 env s = (case base64_decode env s of
     Inl e \<Rightarrow> Inl (Err (DecodingError e)) | Inr bs \<Rightarrow> cred_decode env bs)"

declare verify_internal.simps [simp del] verify_with_chain_internal.simps [simp del]

section \<open>What a built token is\<close>

lemma bytes_to_sign_signature [simp]: "bytes_to_sign env (t\<lparr>signature_of := x\<rparr>) = bytes_to_sign env t"
  by (simp add: bytes_to_sign_def cong: sum.case_cong)

lemma delegation_depth_for_Some:
  "delegation_depth_for env caps (Some p) = Inr d \<Longrightarrow>
   d = saturating_add (delegation_depth p) 1 \<and> d \<le> MAX_DELEGATION_DEPTH \<and>
   (\<forall>c \<in> set caps. \<exists>q \<in> set (capabilities p). cap_contains env q c) \<and>
   (\<exists>q \<in> set (capabilities p). cap_is_delegate env q)"
  by (auto simp: delegation_depth_for_def Let_def list_ex_iff find_None_iff split: if_splits option.splits)

lemma build_at_Inr:
  assumes "build_at env b now = Inr t"
  shows "version t = 1 \<and> issuer t = public env (tb_issuer_key b) \<and> audience_of t = tb_audience b \<and>
    capabilities t = tb_capabilities b \<and> length (capabilities t) \<le> MAX_CAPABILITIES_PER_TOKEN \<and>
    issued_at t = now \<and> expires_at t = saturating_add now (dur_as_secs (tb_lifetime b)) \<and>
    nonce t = tb_nonce b \<and> proof_for env (tb_parent b) = Inr (proof_of t) \<and>
    delegation_depth_for env (capabilities t) (tb_parent b) = Inr (delegation_depth t) \<and>
    (\<exists>bs. bytes_to_sign env t = Inr bs \<and> signature_of t = sign env (tb_issuer_key b) bs)"
proof -
  obtain depth pr tok bs where
    len: "length (tb_capabilities b) \<le> MAX_CAPABILITIES_PER_TOKEN" and
    depth: "delegation_depth_for env (tb_capabilities b) (tb_parent b) = Inr depth" and
    pr: "proof_for env (tb_parent b) = Inr pr" and
    tok: "from_parts \<lparr>version = 1, issuer = public env (tb_issuer_key b),
              audience_of = tb_audience b, capabilities = tb_capabilities b, issued_at = now,
              expires_at = saturating_add now (dur_as_secs (tb_lifetime b)),
              nonce = tb_nonce b, proof_of = pr, delegation_depth = depth,
              signature_of = replicate 64 0\<rparr> = Inr tok" and
    bs: "bytes_to_sign env tok = Inr bs" and
    t: "t = tok\<lparr>signature_of := sign env (tb_issuer_key b) bs\<rparr>"
    using assms by (auto simp: build_at_def split: if_splits sum.splits)
  have "version tok = 1" "issuer tok = public env (tb_issuer_key b)" "audience_of tok = tb_audience b"
    "capabilities tok = tb_capabilities b" "issued_at tok = now"
    "expires_at tok = saturating_add now (dur_as_secs (tb_lifetime b))" "nonce tok = tb_nonce b"
    "proof_of tok = pr" "delegation_depth tok = depth"
    using tok by (auto simp: from_parts_def split: if_splits)
  with len depth pr bs show ?thesis unfolding t by simp
qed

text \<open>
  What the builder guarantees: a token it returns has at most 32 capabilities, names the
  public key of its signer and carries that key's signature over its own content. A delegated
  token has a depth of at most 8, one more than its parent, carries the parent's hash, has only
  capabilities the parent contains, and exists only if the parent may delegate.
\<close>

lemma build_at_guarantees:
  assumes "build_at env b now = Inr t"
  shows "length (capabilities t) \<le> 32 \<and> issuer t = public env (tb_issuer_key b) \<and>
    (\<exists>bs. bytes_to_sign env t = Inr bs \<and> signature_of t = sign env (tb_issuer_key b) bs) \<and>
    (case tb_parent b of
       None \<Rightarrow> delegation_depth t = 0 \<and> proof_of t = None
     | Some p \<Rightarrow> unat (delegation_depth t) \<le> 8 \<and> unat (delegation_depth t) = unat (delegation_depth p) + 1 \<and>
         (\<exists>h. hash env p = Inr h \<and> proof_of t = Some h) \<and>
         (\<forall>c \<in> set (capabilities t). \<exists>q \<in> set (capabilities p). cap_contains env q c) \<and>
         (\<exists>q \<in> set (capabilities p). cap_is_delegate env q))"
proof (cases "tb_parent b")
  case None
  with build_at_Inr [OF assms] show ?thesis
    by (auto simp: delegation_depth_for_def proof_for_def MAX_CAPABILITIES_PER_TOKEN_def)
next
  case (Some p)
  note b = build_at_Inr [OF assms]
  have d: "delegation_depth_for env (capabilities t) (Some p) = Inr (delegation_depth t)"
    unfolding Some [symmetric] using b by blast
  note dd = delegation_depth_for_Some [OF d]
  have le: "unat (delegation_depth t) \<le> 8"
    using conjunct1 [OF conjunct2 [OF dd]] by (simp add: MAX_DELEGATION_DEPTH_def word_le_nat_alt)
  have "unat (saturating_add (delegation_depth p) 1) \<noteq> 255" using dd le by auto
  then have "unat (delegation_depth t) = unat (delegation_depth p) + 1"
    using dd le unat_saturating_add [of "delegation_depth p" 1] by (auto simp: min_def split: if_splits)
  moreover have "\<exists>h. hash env p = Inr h \<and> proof_of t = Some h"
    using b Some by (auto simp: proof_for_def split: sum.splits)
  ultimately show ?thesis
    using b Some dd le by (auto simp: MAX_CAPABILITIES_PER_TOKEN_def)
qed

section \<open>Soundness of verification\<close>

definition token_valid :: "('c, 'op) auth_env \<Rightarrow> 'c token_verifier \<Rightarrow> 'c capability_token \<Rightarrow> bool" where
  "token_valid env v t \<longleftrightarrow>
     (\<exists>bs. bytes_to_sign env t = Inr bs \<and> verify_sig env (issuer t) bs (signature_of t)) \<and>
     verification_time_seconds v \<le> saturating_add (expires_at t) (clock_skew_tolerance v) \<and>
     issued_at t \<le> saturating_add (verification_time_seconds v) (clock_skew_tolerance v) \<and>
     (\<exists>h. hash env t = Inr h \<and> h \<notin> revoked v)"

lemma check_token_iff:
  "check_token env v t presenter d = Inr u \<longleftrightarrow>
     token_valid env v t \<and> (d = 0 \<longrightarrow> check_audience env (audience_of t) presenter = Inr ())"
  by (auto simp: check_token_def token_valid_def Let_def not_less split: sum.splits if_splits)

text \<open>A chain of tokens, each the parent of the one before, that ends in a trusted root.\<close>

fun rooted_chain :: "('c, 'op) auth_env \<Rightarrow> 'c token_verifier \<Rightarrow> 'c capability_token list \<Rightarrow> bool" where
  "rooted_chain env v [] \<longleftrightarrow> False"
| "rooted_chain env v [t] \<longleftrightarrow> token_valid env v t \<and> proof_of t = None \<and> issuer t \<in> set (trusted_roots v)"
| "rooted_chain env v (t # p # ts) \<longleftrightarrow> token_valid env v t \<and>
     (\<exists>h. proof_of t = Some h \<and> hash env p = Inr h) \<and> rooted_chain env v (p # ts)"

definition cache_ok :: "('c, 'op) auth_env \<Rightarrow> (token_hash \<rightharpoonup> 'c capability_token) \<Rightarrow> bool" where
  "cache_ok env m \<longleftrightarrow> (\<forall>h t. m h = Some t \<longrightarrow> hash env t = Inr h)"

lemma cache_ok_empty [simp]: "cache_ok env Map.empty"
  by (simp add: cache_ok_def)

lemma cache_ok_insert: "cache_ok env m \<Longrightarrow> hash env t = Inr h \<Longrightarrow> cache_ok env (m(h \<mapsto> t))"
  by (auto simp: cache_ok_def split: if_splits)

lemma register_parent_cache_ok:
  "cache_ok env (parent_cache v) \<Longrightarrow> register_parent_token env v t = Inr v' \<Longrightarrow> cache_ok env (parent_cache v')"
  by (auto simp: register_parent_token_def split: sum.splits intro: cache_ok_insert)

lemma chain_map_ok:
  "chain_map_of env ts m = Inr m' \<Longrightarrow> cache_ok env m \<Longrightarrow> cache_ok env m'"
  by (induction ts arbitrary: m) (auto split: sum.splits intro: cache_ok_insert)

lemma depth_step:
  fixes d :: u8
  assumes "\<not> d > MAX_DELEGATION_DEPTH"
  shows "unat (saturating_add d 1) = unat d + 1 \<and> unat d \<le> 8 \<and> saturating_add d 1 \<noteq> 0"
proof -
  have "unat d \<le> 8" using assms by (simp add: MAX_DELEGATION_DEPTH_def word_less_nat_alt not_less)
  then have "unat (saturating_add d 1) = unat d + 1" by (intro unat_saturating_add_one) simp
  moreover from this have "saturating_add d 1 \<noteq> 0" by (metis add_is_0 one_neq_zero unat_0)
  ultimately show ?thesis using \<open>unat d \<le> 8\<close> by simp
qed

lemma verify_chain_sound:
  assumes "verify_with_chain_internal env v t m presenter d = Inr u" "trusted_roots v \<noteq> []"
    and "cache_ok env m" "cache_ok env (parent_cache v)"
  shows "\<exists>ts. rooted_chain env v (t # ts) \<and> unat d + length ts \<le> 8 \<and>
    (d = 0 \<longrightarrow> check_audience env (audience_of t) presenter = Inr ())"
  using assms
proof (induction env v t m presenter d rule: verify_with_chain_internal.induct)
  case (1 env v t m presenter d)
  have d: "\<not> d > MAX_DELEGATION_DEPTH" and ct: "check_token env v t presenter d = Inr ()"
    using "1.prems"(1,2) by (auto simp: verify_with_chain_internal.simps [of env v t] split: if_splits sum.splits)
  note tok = ct [unfolded check_token_iff] and dd = depth_step [OF d]
  show ?case
  proof (cases "proof_of t")
    case None
    with "1.prems"(1,2) d ct have "issuer t \<in> set (trusted_roots v)"
      by (auto simp: verify_with_chain_internal.simps [of env v t] split: if_splits)
    with None tok dd show ?thesis by (intro exI [of _ "[]"]) auto
  next
    case (Some h)
    obtain p where p: "hash env p = Inr h"
      and run: "verify_with_chain_internal env v p m None (saturating_add d 1) = Inr u"
      and ih: "\<exists>ts. rooted_chain env v (p # ts) \<and> unat (saturating_add d 1) + length ts \<le> 8"
    proof (cases "m h")
      case (Some p)
      with "1.prems" d ct \<open>proof_of t = Some h\<close> have
        run: "verify_with_chain_internal env v p m None (saturating_add d 1) = Inr u"
        by (simp add: verify_with_chain_internal.simps [of env v t])
      moreover have "hash env p = Inr h" using "1.prems"(3) Some by (auto simp: cache_ok_def)
      moreover from "1.IH"(2) [OF d ct "1.prems"(2) \<open>proof_of t = Some h\<close> Some run "1.prems"(2-4)]
      have "\<exists>ts. rooted_chain env v (p # ts) \<and> unat (saturating_add d 1) + length ts \<le> 8" by blast
      ultimately show ?thesis using that by blast
    next
      case None
      show ?thesis
      proof (cases "parent_cache v h")
        case (Some p)
        with "1.prems" d ct \<open>proof_of t = Some h\<close> None have
          run: "verify_with_chain_internal env v p m None (saturating_add d 1) = Inr u"
          by (simp add: verify_with_chain_internal.simps [of env v t])
        moreover have "hash env p = Inr h" using "1.prems"(4) Some by (auto simp: cache_ok_def)
        moreover from "1.IH"(1) [OF d ct "1.prems"(2) \<open>proof_of t = Some h\<close> None Some run "1.prems"(2-4)]
        have "\<exists>ts. rooted_chain env v (p # ts) \<and> unat (saturating_add d 1) + length ts \<le> 8" by blast
        ultimately show ?thesis using that by blast
      next
        case n: None
        with "1.prems"(1,2) d ct \<open>proof_of t = Some h\<close> None show ?thesis
          by (simp add: verify_with_chain_internal.simps [of env v t])
      qed
    qed
    then obtain ts where "rooted_chain env v (p # ts)" "unat (saturating_add d 1) + length ts \<le> 8" by blast
    with p Some tok dd show ?thesis by (intro exI [of _ "p # ts"]) auto
  qed
qed

lemma verify_internal_sound:
  assumes "verify_internal env v t presenter d = Inr u" "trusted_roots v \<noteq> []" "cache_ok env (parent_cache v)"
  shows "\<exists>ts. rooted_chain env v (t # ts) \<and> unat d + length ts \<le> 8 \<and>
    (d = 0 \<longrightarrow> check_audience env (audience_of t) presenter = Inr ())"
  using assms
proof (induction env v t presenter d rule: verify_internal.induct)
  case (1 env v t presenter d)
  have d: "\<not> d > MAX_DELEGATION_DEPTH" and ct: "check_token env v t presenter d = Inr ()"
    and as: "\<not> \<not> version t > 0" "\<not> \<not> expires_at t \<ge> issued_at t" "\<not> (delegation_depth t = 0 \<and> proof_of t \<noteq> None)"
    using "1.prems"(1,2) by (auto simp: verify_internal.simps [of env v t] split: if_splits sum.splits)
  note tok = ct [unfolded check_token_iff] and dd = depth_step [OF d]
  show ?case
  proof (cases "proof_of t")
    case None
    with "1.prems"(1,2) d ct as have "issuer t \<in> set (trusted_roots v)"
      by (auto simp: verify_internal.simps [of env v t] split: if_splits)
    with None tok dd show ?thesis by (intro exI [of _ "[]"]) auto
  next
    case (Some h)
    show ?thesis
    proof (cases "parent_cache v h")
      case p: (Some p)
      with "1.prems" d ct as Some have
        run: "verify_internal env v p None (saturating_add d 1) = Inr u"
        by (simp add: verify_internal.simps [of env v t])
      have "hash env p = Inr h" using "1.prems"(3) p by (auto simp: cache_ok_def)
      moreover from "1.IH" [OF d as ct "1.prems"(2) Some p run "1.prems"(2,3)]
      obtain ts where "rooted_chain env v (p # ts)" "unat (saturating_add d 1) + length ts \<le> 8" by blast
      ultimately show ?thesis using Some tok dd by (intro exI [of _ "p # ts"]) auto
    next
      case None
      with "1.prems"(1,2) d ct as Some show ?thesis by (simp add: verify_internal.simps [of env v t])
    qed
  qed
qed

text \<open>
  C4 (safety). Verification is sound: with trusted roots configured, a token is accepted (with an explicit
  chain or through the parent cache) only if it heads a chain of at most nine tokens, linked by
  their hashes, that ends in a token without proof issued by a trusted root; every token of the
  chain carries a valid signature of its issuer, is in its time window and is not revoked; and
  the leaf's audience is the presenter or the bearer.
\<close>

theorem verified_token_chain_to_root:
  assumes "verify env v t presenter = Inr () \<or> verify_with_chain env v t chain presenter = Inr ()"
    and "trusted_roots v \<noteq> []" "cache_ok env (parent_cache v)"
  shows "\<exists>ts. rooted_chain env v (t # ts) \<and> length ts \<le> 8 \<and>
    (case audience_of t of Bearer \<Rightarrow> True | Key k \<Rightarrow> presenter = Some k)"
proof -
  have "check_audience env (audience_of t) presenter = Inr () \<longleftrightarrow>
      (case audience_of t of Bearer \<Rightarrow> True | Key k \<Rightarrow> presenter = Some k)"
    by (auto simp: check_audience_def split: audience.splits option.splits)
  moreover have "\<exists>ts. rooted_chain env v (t # ts) \<and> length ts \<le> 8 \<and> check_audience env (audience_of t) presenter = Inr ()"
    using assms(1)
  proof
    assume "verify env v t presenter = Inr ()"
    from verify_internal_sound [OF this [unfolded verify_def] assms(2,3)] show ?thesis by auto
  next
    assume "verify_with_chain env v t chain presenter = Inr ()"
    then obtain m where "chain_map_of env chain Map.empty = Inr m"
        "verify_with_chain_internal env v t m presenter 0 = Inr ()"
      by (auto simp: verify_with_chain_def split: sum.splits)
    with verify_chain_sound [OF _ assms(2) chain_map_ok [OF _ cache_ok_empty] assms(3)] show ?thesis
      by fastforce
  qed
  ultimately show ?thesis by blast
qed

section \<open>Issued credentials\<close>

text \<open>The credentials the library can produce from a root token: by keyed or bearer delegation.\<close>

inductive issued_credential ::
  "('c, 'op) auth_env \<Rightarrow> 'c capability_token \<Rightarrow> 'c credential \<Rightarrow> bool" for env where
  issued_root: "build_at env b t0 = Inr root \<Longrightarrow> tb_parent b = None \<Longrightarrow> issued_credential env root (from_root root)"
| issued_key: "issued_credential env root c \<Longrightarrow>
    delegate_at env c sk aud caps lifetime now random = Inr c' \<Longrightarrow> issued_credential env root c'"
| issued_bearer: "issued_credential env root c \<Longrightarrow>
    delegate_bearer_at env c sk caps lifetime now random = Inr c' \<Longrightarrow> issued_credential env root c'"

definition signed :: "('c, 'op) auth_env \<Rightarrow> 'c capability_token \<Rightarrow> bool" where
  "signed env t \<longleftrightarrow> (\<exists>sk bs. issuer t = public env sk \<and> bytes_to_sign env t = Inr bs \<and> signature_of t = sign env sk bs)"

definition attenuates :: "('c, 'op) auth_env \<Rightarrow> 'c list \<Rightarrow> 'c list \<Rightarrow> bool" where
  "attenuates env parent child \<longleftrightarrow> (\<forall>c \<in> set child. \<exists>p \<in> set parent. cap_contains env p c)"

text \<open>A delegation chain as the builder makes it, leaf first.\<close>

fun delegation_chain :: "('c, 'op) auth_env \<Rightarrow> 'c capability_token list \<Rightarrow> bool" where
  "delegation_chain env [] \<longleftrightarrow> False"
| "delegation_chain env [t] \<longleftrightarrow> signed env t \<and> proof_of t = None \<and> delegation_depth t = 0"
| "delegation_chain env (t # p # ts) \<longleftrightarrow> signed env t \<and>
     (\<exists>h. hash env p = Inr h \<and> proof_of t = Some h) \<and>
     unat (delegation_depth t) = unat (delegation_depth p) + 1 \<and> unat (delegation_depth t) \<le> 8 \<and>
     attenuates env (capabilities p) (capabilities t) \<and> delegation_chain env (p # ts)"

abbreviation cred_chain :: "'c credential \<Rightarrow> 'c capability_token list" where
  "cred_chain c \<equiv> cred_token c # cred_proofs c"

lemma build_delegated_chain:
  assumes "build_at env b now = Inr t" "tb_parent b = Some p" "delegation_chain env (p # ts)"
  shows "delegation_chain env (t # p # ts)"
proof -
  from build_at_Inr [OF assms(1)] have "signed env t" by (auto simp: signed_def)
  moreover have "delegation_depth_for env (capabilities t) (Some p) = Inr (delegation_depth t)"
    unfolding assms(2) [symmetric] using build_at_Inr [OF assms(1)] by blast
  note dd = delegation_depth_for_Some [OF this]
  have le: "unat (delegation_depth t) \<le> 8"
    using conjunct1 [OF conjunct2 [OF dd]] by (simp add: MAX_DELEGATION_DEPTH_def word_le_nat_alt)
  moreover from this have "unat (delegation_depth t) = unat (delegation_depth p) + 1"
    using dd unat_saturating_add [of "delegation_depth p" 1] by (auto simp: min_def split: if_splits)
  moreover have "\<exists>h. hash env p = Inr h \<and> proof_of t = Some h"
    using build_at_Inr [OF assms(1)] assms(2) by (auto simp: proof_for_def split: sum.splits)
  ultimately show ?thesis using dd assms(3) by (auto simp: attenuates_def)
qed

lemma issued_chain:
  "issued_credential env root c \<Longrightarrow> delegation_chain env (cred_chain c) \<and> last (cred_chain c) = root"
proof (induction rule: issued_credential.induct)
  case (issued_root b t0 root)
  then show ?case
    using build_at_Inr [OF issued_root(1)]
    by (auto simp: from_root_def signed_def delegation_depth_for_def proof_for_def)
next
  case (issued_key root c sk aud caps lifetime now random c')
  let ?b = "delegated_from (cred_token c) (with_random_nonce random
             (with_lifetime lifetime (with_capabilities caps (for_key aud (builder_new sk)))))"
  from issued_key(2) obtain t where t: "build_at env ?b now = Inr t"
      "c' = \<lparr>cred_token = t, cred_proofs = cred_token c # cred_proofs c\<rparr>"
    by (auto simp: delegate_at_def split: sum.splits)
  have "delegation_chain env (t # cred_token c # cred_proofs c)"
    using issued_key.IH by (intro build_delegated_chain [OF t(1)]) (auto simp: delegated_from_def)
  with t(2) issued_key.IH show ?case by simp
next
  case (issued_bearer root c sk caps lifetime now random c')
  let ?b = "delegated_from (cred_token c) (with_random_nonce random
             (with_lifetime lifetime (with_capabilities caps (for_audience Bearer (builder_new sk)))))"
  from issued_bearer(2) obtain t where t: "build_at env ?b now = Inr t"
      "c' = \<lparr>cred_token = t, cred_proofs = cred_token c # cred_proofs c\<rparr>"
    by (auto simp: delegate_bearer_at_def split: sum.splits)
  have "delegation_chain env (t # cred_token c # cred_proofs c)"
    using issued_bearer.IH by (intro build_delegated_chain [OF t(1)]) (auto simp: delegated_from_def)
  with t(2) issued_bearer.IH show ?case by simp
qed






lemma signed_token_valid:
  assumes "signed env t" "\<And>sk m. verify_sig env (public env sk) m (sign env sk m)"
    and "verification_time_seconds v \<le> saturating_add (expires_at t) (clock_skew_tolerance v)"
    and "issued_at t \<le> saturating_add (verification_time_seconds v) (clock_skew_tolerance v)"
    and "\<exists>h. hash env t = Inr h \<and> h \<notin> revoked v"
  shows "token_valid env v t"
  using assms by (auto simp: token_valid_def signed_def)



section \<open>The capability trait\<close>

text \<open>What a capability type has to promise so that delegation cannot escalate; \<open>good\<close> are the
  capabilities for which containment is sound.\<close>

locale cap_trait =
  fixes env :: "('c, 'op) auth_env"
    and good :: "'c \<Rightarrow> bool"
  assumes contains_trans: "cap_contains env a b \<Longrightarrow> cap_contains env b c \<Longrightarrow> cap_contains env a c"
    and contains_sound: "good p \<Longrightarrow> cap_contains env p c \<Longrightarrow> cap_authorizes env c op \<Longrightarrow> cap_authorizes env p op"
begin

lemma chain_contained:
  assumes "delegation_chain env (t # ts)" "ts \<noteq> []" "c \<in> set (capabilities t)"
  shows "\<exists>p \<in> set (capabilities (last ts)). cap_contains env p c"
  using assms
proof (induction ts arbitrary: t c)
  case (Cons u ts)
  then obtain p where p: "p \<in> set (capabilities u)" "cap_contains env p c"
    by (auto simp: attenuates_def)
  show ?case
  proof (cases "ts = []")
    case True
    with p show ?thesis by auto
  next
    case False
    with Cons.IH [of u p] Cons.prems(1) p contains_trans show ?thesis by auto
  qed
qed simp

lemma issued_no_escalation:
  assumes "issued_credential env root cred" "\<forall>p \<in> set (capabilities root). good p"
    and "c \<in> set (capabilities (cred_token cred))" "cap_authorizes env c op"
  shows "\<exists>p \<in> set (capabilities root). cap_authorizes env p op"
proof (cases "cred_proofs cred = []")
  case True
  with issued_chain [OF assms(1)] assms(3,4) show ?thesis by auto
next
  case False
  with issued_chain [OF assms(1)] chain_contained [of "cred_token cred" "cred_proofs cred" c] assms
  obtain p where "p \<in> set (capabilities root)" "cap_contains env p c" by auto
  with assms(2,4) contains_sound show ?thesis by blast
qed

end

section \<open>What verification does not check\<close>

text \<open>
  C39 (safety). Verification does not check attenuation: take any valid root token of a trusted issuer, and let
  anyone sign, with any key, a token that names the root's hash as its proof, is inside its own time window, and is
  addressed to its bearer or to the key that presents it, all of which its signer chooses. Unless that very token was revoked: whatever capabilities
  that token lists, whoever the root's audience is and whether or not the root may delegate, it
  verifies with the root as its chain. Only the builder of an honest holder enforces containment,
  although the documentation of \<open>Credential::verify_at\<close> says that attenuation is checked at each
  level.
\<close>

theorem forged_child_verifies:
  assumes sig: "\<And>sk m. verify_sig env (public env sk) m (sign env sk m)"
    and root: "token_valid env v root" "proof_of root = None" "issuer root \<in> set (trusted_roots v)"
      "hash env root = Inr h"
    and child: "signed env child" "proof_of child = Some h" "audience_of child = Bearer \<or> (\<exists>k. audience_of child = Key k \<and> presenter = Some k)"
      "verification_time_seconds v \<le> saturating_add (expires_at child) (clock_skew_tolerance v)"
      "issued_at child \<le> saturating_add (verification_time_seconds v) (clock_skew_tolerance v)"
      "\<exists>k. hash env child = Inr k \<and> k \<notin> revoked v"
  shows "verify_with_chain env v child [root] presenter = Inr ()"
proof -
  have "token_valid env v child"
    using child(1,4,5,6) by (intro signed_token_valid [OF _ sig])
  then have c: "check_token env v child presenter 0 = Inr ()"
    using child(3) by (auto simp: check_token_iff check_audience_def)
  have one: "saturating_add (0 :: u8) 1 = 1" by (simp add: saturating_add_def)
  have "check_token env v root None 1 = Inr ()"
    using root(1) by (simp add: check_token_iff)
  then have "verify_with_chain_internal env v root [h \<mapsto> root] None 1 = Inr ()"
    using root(2,3) by (simp add: verify_with_chain_internal.simps [of env v root] MAX_DELEGATION_DEPTH_def)
  moreover have "trusted_roots v \<noteq> []" using root(3) by auto
  ultimately have "verify_with_chain_internal env v child [h \<mapsto> root] presenter 0 = Inr ()"
    using c child(2) by (simp add: verify_with_chain_internal.simps [of env v child] one MAX_DELEGATION_DEPTH_def)
  then show ?thesis by (simp add: verify_with_chain_def root(4))
qed

section \<open>Revocation\<close>

lemma rooted_chain_valid: "rooted_chain env v ts \<Longrightarrow> t \<in> set ts \<Longrightarrow> token_valid env v t"
  by (induction env v ts rule: rooted_chain.induct) auto

lemma revoke_revokes: "revoke v h = Inr v' \<Longrightarrow> h \<in> revoked v' \<and> revoked v \<subseteq> revoked v'"
  by (auto simp: revoke_def split: if_splits)

lemma revoke_bound:
  assumes "card (revoked v) \<le> MAX_REVOCATION_LIST_SIZE" "revoke v h = Inr v'"
  shows "card (revoked v') \<le> MAX_REVOCATION_LIST_SIZE"
proof -
  have "card (insert h (revoked v)) \<le> Suc (card (revoked v))" 
    by (cases "finite (revoked v)") (auto simp: card_insert_if)
  with assms show ?thesis by (auto simp: revoke_def split: if_splits)
qed

text \<open>
  Revocation is effective: once \<open>revoke_token\<close> has succeeded, the verifier accepts neither
  that token nor, with trusted roots configured, any token whose chain contains it; earlier
  revocations stay in force, and the list never grows beyond 10000 entries.
\<close>

lemma revoked_token_never_verifies:
  assumes "revoke_token env v t = Inr v'" "card (revoked v) \<le> 10000"
  shows "verify env v' t presenter \<noteq> Inr () \<and> verify_with_chain env v' t chain presenter \<noteq> Inr () \<and>
    (\<forall>ts. t \<in> set ts \<longrightarrow> \<not> rooted_chain env v' ts) \<and>
    revoked v \<subseteq> revoked v' \<and> card (revoked v') \<le> 10000"
proof -
  obtain h where h: "hash env t = Inr h" "revoke v h = Inr v'"
    using assms(1) by (auto simp: revoke_token_def split: sum.splits)
  note r = revoke_revokes [OF h(2)]
  have nv: "\<not> token_valid env v' t" using h(1) r by (auto simp: token_valid_def)
  have ct: "check_token env v' t presenter 0 \<noteq> Inr ()" using nv by (simp add: check_token_iff)
  have "verify env v' t presenter \<noteq> Inr ()"
    unfolding verify_def using ct
    by (auto simp: verify_internal.simps [of env v' t] split: sum.splits)
  moreover have "verify_with_chain env v' t chain presenter \<noteq> Inr ()"
    unfolding verify_with_chain_def using ct
    by (auto simp: verify_with_chain_internal.simps [of env v' t] split: sum.splits)
  moreover have "\<forall>ts. t \<in> set ts \<longrightarrow> \<not> rooted_chain env v' ts"
    using nv rooted_chain_valid by blast
  ultimately show ?thesis
    using r revoke_bound [OF _ h(2)] assms(2) by (simp add: MAX_REVOCATION_LIST_SIZE_def)
qed

section \<open>The signed bytes\<close>

lemma to_le_bytes_inj: "to_le_bytes a = to_le_bytes b \<Longrightarrow> a = b"
proof (rule bit_word_eqI)
  fix n
  assume eq: "to_le_bytes a = to_le_bytes b" and n: "n < LENGTH(64)"
  have "n div 8 < 8" using n by simp
  have "ucast (drop_bit (8 * (n div 8)) a) = (ucast (drop_bit (8 * (n div 8)) b) :: u8)"
  proof -
    have "to_le_bytes a ! (n div 8) = to_le_bytes b ! (n div 8)" using eq by simp
    with \<open>n div 8 < 8\<close> show ?thesis by (simp add: to_le_bytes_def nth_map)
  qed
  then have "bit (ucast (drop_bit (8 * (n div 8)) a) :: u8) (n mod 8) =
      bit (ucast (drop_bit (8 * (n div 8)) b) :: u8) (n mod 8)" by simp
  then show "bit a n = bit b n"
    by (simp add: bit_ucast_iff bit_drop_bit_eq n)
qed

lemma to_le_bytes_length [simp]: "length (to_le_bytes w) = 8"
  by (simp add: to_le_bytes_def)

definition token_wf :: "'c capability_token \<Rightarrow> bool" where
  "token_wf t \<longleftrightarrow> length (issuer t) = 32 \<and> (case nonce t of None \<Rightarrow> True | Some n \<Rightarrow> length n = 16) \<and>
     (case proof_of t of None \<Rightarrow> True | Some p \<Rightarrow> length p = 32)"

text \<open>A decoder that reads an encoded value off the front of its input cannot confuse two values.\<close>

definition self_delimiting :: "('a \<Rightarrow> string + bytes) \<Rightarrow> bool" where
  "self_delimiting enc \<longleftrightarrow> (\<forall>a b u w x y. enc a = Inr u \<longrightarrow> enc b = Inr w \<longrightarrow> u @ x = w @ y \<longrightarrow> a = b \<and> x = y)"

lemma self_delimitingD:
  "self_delimiting enc \<Longrightarrow> enc a = Inr u \<Longrightarrow> enc b = Inr w \<Longrightarrow> u @ x = w @ y \<Longrightarrow> a = b \<and> x = y"
  unfolding self_delimiting_def by blast

lemma tail_lengths:
  fixes a b c d :: nat
  assumes "a \<in> {0, 16}" "b \<in> {0, 32}" "c \<in> {0, 16}" "d \<in> {0, 32}" "a + b = c + d"
  shows "a = c \<and> b = d"
  using assms by auto

lemma opt_tail_inj:
  assumes "case n of None \<Rightarrow> True | Some x \<Rightarrow> length x = 16" "case p of None \<Rightarrow> True | Some x \<Rightarrow> length x = 32"
    and "case n' of None \<Rightarrow> True | Some x \<Rightarrow> length x = 16" "case p' of None \<Rightarrow> True | Some x \<Rightarrow> length x = 32"
    and eq: "opt_bytes n @ opt_bytes p @ [d] = opt_bytes n' @ opt_bytes p' @ [d']"
  shows "n = n' \<and> p = p' \<and> d = d'"
proof -
  have len: "length (opt_bytes n) \<in> {0, 16}" "length (opt_bytes p) \<in> {0, 32}"
      "length (opt_bytes n') \<in> {0, 16}" "length (opt_bytes p') \<in> {0, 32}"
    using assms(1-4) by (auto simp: opt_bytes_def split: option.splits)
  moreover have "length (opt_bytes n) + length (opt_bytes p) = length (opt_bytes n') + length (opt_bytes p')"
    using arg_cong [OF eq, of length] by simp
  ultimately have "length (opt_bytes n) = length (opt_bytes n')" "length (opt_bytes p) = length (opt_bytes p')"
    using tail_lengths [OF len] by blast+
  with eq have "opt_bytes n = opt_bytes n'" "opt_bytes p = opt_bytes p'" "d = d'" by auto
  with assms(1-4) show ?thesis by (auto simp: opt_bytes_def split: option.splits)
qed

lemma bytes_to_sign_Inr:
  "bytes_to_sign env t = Inr bs \<Longrightarrow> \<exists>a c. postcard_audience env (audience_of t) = Inr a \<and>
     postcard_caps env (capabilities t) = Inr c \<and>
     bs = [version t] @ issuer t @ a @ c @ to_le_bytes (issued_at t) @ to_le_bytes (expires_at t) @
       opt_bytes (nonce t) @ opt_bytes (proof_of t) @ [delegation_depth t]"
  by (auto simp: bytes_to_sign_def encode_signing_field_def Let_def split: if_splits sum.splits)

text \<open>
  A signature covers the whole token: although the nonce and the proof are appended without
  tags or lengths, two tokens with the same bytes to sign agree in every field but the signature,
  provided the serializer is self-delimiting for audiences and capability lists.
\<close>

lemma bytes_to_sign_injective:
  assumes "self_delimiting (postcard_audience env)" "self_delimiting (postcard_caps env)"
    and wf: "token_wf t" "token_wf u"
    and eq: "bytes_to_sign env t = Inr bs" "bytes_to_sign env u = Inr bs"
  shows "t\<lparr>signature_of := s\<rparr> = u\<lparr>signature_of := s\<rparr>"
proof -
  obtain a c where t: "postcard_audience env (audience_of t) = Inr a" "postcard_caps env (capabilities t) = Inr c"
      "bs = [version t] @ issuer t @ a @ c @ to_le_bytes (issued_at t) @ to_le_bytes (expires_at t) @
       opt_bytes (nonce t) @ opt_bytes (proof_of t) @ [delegation_depth t]"
    using bytes_to_sign_Inr [OF eq(1)] by blast
  obtain a' c' where u: "postcard_audience env (audience_of u) = Inr a'" "postcard_caps env (capabilities u) = Inr c'"
      "bs = [version u] @ issuer u @ a' @ c' @ to_le_bytes (issued_at u) @ to_le_bytes (expires_at u) @
       opt_bytes (nonce u) @ opt_bytes (proof_of u) @ [delegation_depth u]"
    using bytes_to_sign_Inr [OF eq(2)] by blast
  have lens: "length (issuer t) = length (issuer u)" using wf by (simp add: token_wf_def)
  from t(3) u(3) lens have "version t = version u" "issuer t = issuer u"
    and r1: "a @ (c @ to_le_bytes (issued_at t) @ to_le_bytes (expires_at t) @
         opt_bytes (nonce t) @ opt_bytes (proof_of t) @ [delegation_depth t]) =
       a' @ (c' @ to_le_bytes (issued_at u) @ to_le_bytes (expires_at u) @
         opt_bytes (nonce u) @ opt_bytes (proof_of u) @ [delegation_depth u])"
    by auto
  from self_delimitingD [OF assms(1) t(1) u(1) r1] have "audience_of t = audience_of u"
    and r2: "c @ (to_le_bytes (issued_at t) @ to_le_bytes (expires_at t) @
         opt_bytes (nonce t) @ opt_bytes (proof_of t) @ [delegation_depth t]) =
       c' @ (to_le_bytes (issued_at u) @ to_le_bytes (expires_at u) @
         opt_bytes (nonce u) @ opt_bytes (proof_of u) @ [delegation_depth u])"
    by auto
  from self_delimitingD [OF assms(2) t(2) u(2) r2] have "capabilities t = capabilities u"
    and "to_le_bytes (issued_at t) = to_le_bytes (issued_at u)" "to_le_bytes (expires_at t) = to_le_bytes (expires_at u)"
    and tail: "opt_bytes (nonce t) @ opt_bytes (proof_of t) @ [delegation_depth t] =
       opt_bytes (nonce u) @ opt_bytes (proof_of u) @ [delegation_depth u]"
    by auto
  moreover from opt_tail_inj [OF _ _ _ _ tail] wf
  have "nonce t = nonce u \<and> proof_of t = proof_of u \<and> delegation_depth t = delegation_depth u"
    by (simp add: token_wf_def)
  ultimately show ?thesis
    using \<open>version t = version u\<close> \<open>issuer t = issuer u\<close> \<open>audience_of t = audience_of u\<close>
    by (cases t; cases u) (auto dest: to_le_bytes_inj)
qed

section \<open>Examples\<close>

text \<open>
  A toy instance of the libraries that satisfies the laws used above: a signature is the signer's
  key, a hash is the delegation depth, and lists are encoded with a marker before each element.
\<close>

fun marked :: "bytes \<Rightarrow> bytes" where
  "marked [] = [0]"
| "marked (b # bs) = 1 # b # marked bs"

lemma marked_delimits: "marked a @ x = marked b @ y \<Longrightarrow> a = b \<and> x = y"
proof (induction a arbitrary: b)
  case Nil
  then show ?case by (cases b) auto
next
  case (Cons c a)
  then show ?case by (cases b) auto
qed

fun toy_audience :: "audience \<Rightarrow> bytes" where
  "toy_audience Bearer = [0]"
| "toy_audience (Key k) = 1 # marked k"

definition toy_env ::
  "('c \<Rightarrow> 'op \<Rightarrow> bool) \<Rightarrow> ('c \<Rightarrow> 'c \<Rightarrow> bool) \<Rightarrow> ('c \<Rightarrow> bool) \<Rightarrow> ('c, 'op) auth_env" where
  "toy_env auth cont deleg = \<lparr>cap_authorizes = auth, cap_contains = cont, cap_is_delegate = deleg,
     debug_cap = (\<lambda>_. []), debug_op = (\<lambda>_. []), key_to_string = (\<lambda>_. []),
     public = (\<lambda>sk. sk), sign = (\<lambda>sk m. sk), verify_sig = (\<lambda>pk m s. s = pk),
     postcard_audience = (\<lambda>a. Inr (toy_audience a)),
     postcard_caps = (\<lambda>cs. Inr (marked (replicate (length cs) 0))),
     postcard_token = (\<lambda>t. Inr [delegation_depth t]), postcard_token_from = (\<lambda>_. Inl []),
     postcard_credential = (\<lambda>_. Inl []), postcard_credential_from = (\<lambda>_. Inl []),
     blake3 = (\<lambda>bs. bs), base64_encode = (\<lambda>_. []), base64_decode = (\<lambda>_. Inl [])\<rparr>"

definition toy_key :: bytes where "toy_key = replicate 32 7"

lemma toy_key_length [simp]: "length toy_key = 32"
  by (simp add: toy_key_def)

abbreviation unit_env :: "(unit, unit) auth_env" where
  "unit_env \<equiv> toy_env (\<lambda>_ _. True) (\<lambda>_ _. True) (\<lambda>_. True)"

definition toy_token :: "'c list \<Rightarrow> u8 \<Rightarrow> token_hash option \<Rightarrow> 'c capability_token" where
  "toy_token caps depth p = \<lparr>version = 1, issuer = toy_key, audience_of = Bearer, capabilities = caps,
     issued_at = 100, expires_at = 3700, nonce = None, proof_of = p, delegation_depth = depth,
     signature_of = toy_key\<rparr>"

definition toy_verifier :: "'c token_verifier" where
  "toy_verifier = with_trusted_root toy_key (new_at 200)"

lemma toy_env_sig: "verify_sig (toy_env au co de) (public (toy_env au co de) sk) m (sign (toy_env au co de) sk m)"
  by (simp add: toy_env_def)

lemma toy_token_bytes:
  "bytes_to_sign (toy_env au co de) (toy_token caps d p) =
     Inr ([1] @ toy_key @ [0] @ marked (replicate (length caps) 0) @ to_le_bytes 100 @ to_le_bytes 3700 @
       opt_bytes p @ [d])"
proof -
  have "0 < length (marked bs)" for bs by (cases bs) auto
  then show ?thesis
    by (auto simp: bytes_to_sign_def toy_env_def toy_token_def encode_signing_field_def Let_def
        MIN_SIGNING_TOKEN_BYTES_def opt_bytes_def)
qed

lemma toy_token_signed: "signed (toy_env au co de) (toy_token caps d p)"
  unfolding signed_def toy_token_bytes by (auto simp: toy_token_def toy_env_def)

lemma toy_token_hash: "hash (toy_env au co de) (toy_token caps d p) = Inr [d]"
  by (simp add: hash_def encode_def toy_env_def toy_token_def MAX_TOKEN_SIZE_def)

lemma toy_token_valid: "token_valid (toy_env au co de) toy_verifier (toy_token caps d p)"
  by (rule signed_token_valid [OF toy_token_signed toy_env_sig])
     (auto simp: toy_token_hash, auto simp: toy_token_def toy_verifier_def with_trusted_root_def new_at_def
       saturating_add_def TOKEN_CLOCK_SKEW_SECS_def)



lemma toy_root_verifies: "verify_with_chain (toy_env au co de) toy_verifier (toy_token [x] 0 None) [] None = Inr ()"
proof -
  have "check_token (toy_env au co de) toy_verifier (toy_token [x] 0 None) None 0 = Inr ()"
    unfolding check_token_iff using toy_token_valid by (auto simp: toy_token_def check_audience_def)
  then show ?thesis
    by (simp add: verify_with_chain_def verify_with_chain_internal.simps MAX_DELEGATION_DEPTH_def)
       (simp add: toy_token_def toy_verifier_def with_trusted_root_def new_at_def)
qed

theorem verified_token_chain_to_root_witness:
  "\<exists>ts. rooted_chain unit_env toy_verifier (toy_token [()] 0 None # ts) \<and> length ts \<le> 8"
  using verified_token_chain_to_root [of unit_env toy_verifier "toy_token [()] 0 None" None "[]"]
    toy_root_verifies [of "\<lambda>_ _. True" "\<lambda>_ _. True" "\<lambda>_. True" "()"]
  by (auto simp: toy_verifier_def with_trusted_root_def new_at_def)


theorem forged_child_verifies_witness:
  "verify_with_chain unit_env toy_verifier (toy_token [(), ()] 1 (Some [0])) [toy_token [] 0 None] None = Inr ()"
  by (rule forged_child_verifies [OF toy_env_sig toy_token_valid _ _ toy_token_hash toy_token_signed])
     (auto simp: toy_token_hash, auto simp: toy_token_def toy_verifier_def with_trusted_root_def new_at_def
       saturating_add_def TOKEN_CLOCK_SKEW_SECS_def)

lemma toy_self_delimiting:
  "self_delimiting (postcard_audience unit_env)" "self_delimiting (postcard_caps unit_env)"
proof -
  have "toy_audience a @ x = toy_audience b @ y \<Longrightarrow> a = b \<and> x = y" for a b x y
    by (cases a; cases b) (auto dest: marked_delimits)
  then show "self_delimiting (postcard_audience unit_env)"
    by (simp add: self_delimiting_def toy_env_def)
  have "cs = ds" if "replicate (length cs) (0 :: u8) = replicate (length ds) 0" for cs ds :: "unit list"
    using arg_cong [OF that, of length] by (intro nth_equalityI) auto
  then show "self_delimiting (postcard_caps unit_env)"
    by (auto simp: self_delimiting_def toy_env_def dest: marked_delimits)
qed

end
