(* ===== verification/Capability.thy ===== *)
theory Capability
  imports Auth
begin

text \<open>
  The capabilities of the agent, \<^verbatim>\<open>crates/clankers-ucan/src/capability.rs\<close>: what an operation needs
  (\<open>authorizes\<close>) and what may be delegated (\<open>contains\<close>), with the pattern language both use. The
  lemmas show that containment is a preorder, when it prevents escalation and when it does not, and
  that the matcher implements glob semantics.
\<close>

section \<open>Patterns\<close>

definition glob_star :: char where "glob_star = CHR ''*''"

text \<open>The loop over the middle parts: \<^term>\<open>None\<close> is its early return, a part that does not occur.\<close>

fun glob_middle :: "string list \<Rightarrow> string \<Rightarrow> string option" where
  "glob_middle [] remaining = Some remaining"
| "glob_middle (part # parts) remaining =
     (if part = [] then glob_middle parts remaining
      else case find_sub part remaining of
        Some pos \<Rightarrow> glob_middle parts (drop (pos + length part) remaining)
      | None \<Rightarrow> None)"

definition glob_match :: "string \<Rightarrow> string \<Rightarrow> bool" where
  "glob_match pattern input =
     (if pattern = [glob_star] then True
      else if pattern \<noteq> [] \<and> last pattern = glob_star then prefix (butlast pattern) input
      else if glob_star \<in> set pattern then
        let parts = split_on glob_star pattern
        in if hd parts \<noteq> [] \<and> \<not> prefix (hd parts) input then False
           else case glob_middle (take (length parts - 2) (drop 1 parts)) (drop (length (hd parts)) input) of
             None \<Rightarrow> False
           | Some remaining \<Rightarrow> \<not> (last parts \<noteq> [] \<and> \<not> suffix (last parts) remaining)
      else pattern = input)"

definition match_pattern :: "string \<Rightarrow> string \<Rightarrow> bool" where
  "match_pattern pattern v =
     (if pattern = [glob_star] then True
      else list_ex (\<lambda>item. trim item = v) (split_on (CHR '','') pattern))"

definition pattern_contains :: "string \<Rightarrow> string \<Rightarrow> bool" where
  "pattern_contains p1 p2 =
     (if p1 = [glob_star] then True
      else if p2 = [glob_star] then False
      else let p1_items = set (map trim (split_on (CHR '','') p1));
               p2_items = map trim (split_on (CHR '','') p2)
           in list_all (\<lambda>item. item \<in> p1_items) p2_items)"

section \<open>Capabilities\<close>

datatype capability =
    CapPrompt
  | CapToolUse string
  | CapShellExecute string "string option"
  | CapFileAccess string bool
  | CapBotCommand string
  | CapSessionManage
  | CapModelSwitch
  | CapDelegate

datatype operation =
    OpPrompt string
  | OpToolUse string
  | OpShellExecute string "string option"
  | OpFileRead string
  | OpFileWrite string
  | OpBotCommand string
  | OpSessionManage string
  | OpModelSwitch string

fun authorizes :: "capability \<Rightarrow> operation \<Rightarrow> bool" where
  "authorizes CapPrompt (OpPrompt text) = True"
| "authorizes (CapToolUse tool_pattern) (OpToolUse tool_name) = match_pattern tool_pattern tool_name"
| "authorizes (CapShellExecute command_pattern cap_wd) (OpShellExecute command op_wd) =
     (if \<not> glob_match command_pattern command then False
      else case (cap_wd, op_wd) of
        (None, _) \<Rightarrow> True
      | (Some cap_dir, Some req_dir) \<Rightarrow> prefix cap_dir req_dir
      | (Some _, None) \<Rightarrow> False)"
| "authorizes (CapFileAccess pre read_only) (OpFileRead path) = prefix pre path"
| "authorizes (CapFileAccess pre read_only) (OpFileWrite path) = (if read_only then False else prefix pre path)"
| "authorizes (CapBotCommand command_pattern) (OpBotCommand command) = match_pattern command_pattern command"
| "authorizes CapSessionManage (OpSessionManage action) = True"
| "authorizes CapModelSwitch (OpModelSwitch model) = True"
| "authorizes _ _ = False"

definition ends_with_star :: "string \<Rightarrow> bool" where
  "ends_with_star p \<longleftrightarrow> p \<noteq> [] \<and> last p = glob_star"

definition shell_pattern_ok :: "string \<Rightarrow> string \<Rightarrow> bool" where
  "shell_pattern_ok p1 p2 =
     (if p1 = [glob_star] then True
      else if p2 = [glob_star] then False
      else if ends_with_star p1 \<and> ends_with_star p2 then prefix (trim_end_matches glob_star p1) p2
      else if ends_with_star p1 then prefix (trim_end_matches glob_star p1) p2
      else p1 = p2)"

fun contains :: "capability \<Rightarrow> capability \<Rightarrow> bool" where
  "contains CapPrompt CapPrompt = True"
| "contains CapSessionManage CapSessionManage = True"
| "contains CapModelSwitch CapModelSwitch = True"
| "contains CapDelegate CapDelegate = True"
| "contains (CapToolUse p1) (CapToolUse p2) = pattern_contains p1 p2"
| "contains (CapFileAccess p1 r1) (CapFileAccess p2 r2) =
     (if \<not> prefix p1 p2 then False else if r1 \<and> \<not> r2 then False else True)"
| "contains (CapBotCommand p1) (CapBotCommand p2) = pattern_contains p1 p2"
| "contains (CapShellExecute p1 wd1) (CapShellExecute p2 wd2) =
     (if \<not> shell_pattern_ok p1 p2 then False
      else case (wd1, wd2) of
        (None, _) \<Rightarrow> True
      | (Some _, None) \<Rightarrow> False
      | (Some parent_wd, Some child_wd) \<Rightarrow> prefix parent_wd child_wd)"
| "contains _ _ = False"

definition is_delegate :: "capability \<Rightarrow> bool" where
  "is_delegate c \<longleftrightarrow> c = CapDelegate"

section \<open>Containment is a preorder\<close>

lemma pattern_contains_refl: "pattern_contains p p"
  by (simp add: pattern_contains_def Let_def list_all_iff)

lemma pattern_contains_trans: "pattern_contains p q \<Longrightarrow> pattern_contains q r \<Longrightarrow> pattern_contains p r"
  by (auto simp: pattern_contains_def Let_def list_all_iff split: if_splits)

lemma trim_star_prefix:
  assumes "prefix (trim_end_matches c p) q"
  shows "prefix (trim_end_matches c p) (trim_end_matches c q)"
proof (rule ccontr)
  let ?p = "trim_end_matches c p" and ?q = "trim_end_matches c q"
  assume "\<not> prefix ?p ?q"
  with assms trim_end_matches_prefix [of c q] obtain z where z: "?p = ?q @ z" "z \<noteq> []"
    by (metis append_Nil2 prefix_def prefix_same_cases)
  from assms obtain y where "q = ?p @ y" by (auto simp: prefix_def)
  with z(1) trim_end_matches_rest [of q c] have "z @ y = replicate (length q - length ?q) c"
    by (metis append.assoc append_same_eq same_append_eq)
  with z(2) have "last z = c"
    by (metis Un_iff in_set_replicate last_in_set set_append)
  with z trim_end_matches_last [of c p] show False by auto
qed

lemma shell_pattern_ok_refl: "shell_pattern_ok p p"
  by (simp add: shell_pattern_ok_def trim_end_matches_prefix)

lemma shell_pattern_ok_trans:
  "shell_pattern_ok p q \<Longrightarrow> shell_pattern_ok q r \<Longrightarrow> shell_pattern_ok p r"
  using trim_star_prefix [of glob_star p q]
  by (auto simp: shell_pattern_ok_def split: if_splits intro: prefix_order.trans)

lemma contains_refl: "contains c c"
  by (cases c) (auto simp: pattern_contains_refl shell_pattern_ok_refl split: option.splits)

lemma contains_trans: "contains a b \<Longrightarrow> contains b c \<Longrightarrow> contains a c"
  by (cases a; cases b; cases c)
     (auto simp: split: if_splits option.splits
       intro: pattern_contains_trans shell_pattern_ok_trans prefix_order.trans)

section \<open>No escalation\<close>

text \<open>The shell patterns of the documented form: at most one star, at the end.\<close>

definition simple_pattern :: "string \<Rightarrow> bool" where
  "simple_pattern p \<longleftrightarrow> glob_star \<notin> set (butlast p)"

fun simple_capability :: "capability \<Rightarrow> bool" where
  "simple_capability (CapShellExecute p wd) = simple_pattern p"
| "simple_capability _ = True"

lemma match_pattern_mono:
  "pattern_contains p q \<Longrightarrow> match_pattern q v \<Longrightarrow> match_pattern p v"
  by (auto simp: pattern_contains_def match_pattern_def Let_def list_all_iff list_ex_iff split: if_splits)
     (metis imageE)

lemma simple_trim:
  assumes "simple_pattern p" "ends_with_star p"
  shows "trim_end_matches glob_star p = butlast p"
proof -
  have p: "p = butlast p @ [glob_star]"
    using assms(2) by (metis append_butlast_last_id ends_with_star_def)
  have "rev (butlast p) = [] \<or> hd (rev (butlast p)) \<noteq> glob_star"
    using assms(1) by (metis hd_in_set set_rev simple_pattern_def)
  then have "dropWhile (\<lambda>x. x = glob_star) (rev (butlast p)) = rev (butlast p)"
    by (cases "rev (butlast p)") auto
  then show ?thesis
    unfolding trim_end_matches_def by (subst p) simp
qed

lemma split_on_hd_prefix:
  assumes "c \<notin> set q" "prefix q p"
  shows "prefix q (hd (split_on c p))"
  using assms
proof (induction p arbitrary: q)
  case (Cons x xs)
  show ?case
  proof (cases q)
    case (Cons y ys)
    with Cons.prems have "x = y" "c \<noteq> x" "prefix ys xs" "c \<notin> set ys" by auto
    then show ?thesis using Cons.IH [of ys] Cons by (cases "split_on c xs") auto
  qed simp
qed simp

lemma glob_match_prefix:
  assumes "glob_match p input" "glob_star \<notin> set q" "prefix q p" "p \<noteq> [glob_star]"
  shows "prefix q input"
proof (cases "p \<noteq> [] \<and> last p = glob_star")
  case True
  with assms(1,4) have "prefix (butlast p) input" by (simp add: glob_match_def)
  moreover have "prefix q (butlast p)"
  proof -
    have "q \<noteq> p" using True assms(2) last_in_set by fastforce
    with assms(3) show ?thesis
      by (metis append_butlast_last_id append_is_Nil_conv butlast_append prefixE prefixI self_append_conv)
  qed
  ultimately show ?thesis by (metis prefix_order.trans)
next
  case notail: False
  show ?thesis
  proof (cases "glob_star \<in> set p")
    case True
    with assms(1,4) notail have "prefix (hd (split_on glob_star p)) input \<or> hd (split_on glob_star p) = []"
      by (auto simp: glob_match_def Let_def split: if_splits)
    moreover have "prefix q (hd (split_on glob_star p))"
      using assms(2,3) by (rule split_on_hd_prefix)
    ultimately show ?thesis by (metis prefix_bot.extremum_unique prefix_bot.extremum prefix_order.trans)
  next
    case False
    with assms(1,3,4) notail show ?thesis by (auto simp: glob_match_def split: if_splits)
  qed
qed

lemma glob_match_mono:
  assumes "simple_pattern p" "shell_pattern_ok p q" "glob_match q input"
  shows "glob_match p input"
proof (cases "p = [glob_star]")
  case True
  then show ?thesis by (simp add: glob_match_def)
next
  case ne: False
  show ?thesis
  proof (cases "ends_with_star p")
    case True
    with assms ne have "q \<noteq> [glob_star]" "prefix (butlast p) q"
      by (auto simp: shell_pattern_ok_def simple_trim split: if_splits)
    with glob_match_prefix [OF assms(3), of "butlast p"] assms(1) have "prefix (butlast p) input"
      by (simp add: simple_pattern_def)
    with True ne show ?thesis by (simp add: glob_match_def ends_with_star_def)
  next
    case False
    with assms ne show ?thesis by (auto simp: shell_pattern_ok_def split: if_splits)
  qed
qed

lemma contains_authorizes:
  assumes "contains p c" "simple_capability p" "authorizes c op"
  shows "authorizes p op"
proof (cases c)
  case (CapShellExecute q wd)
  from assms(1) obtain p' wd' where p: "p = CapShellExecute p' wd'" "shell_pattern_ok p' q"
    unfolding CapShellExecute by (cases p) (auto split: if_splits)
  from assms(3) obtain cmd d where op: "op = OpShellExecute cmd d" "glob_match q cmd"
    unfolding CapShellExecute by (cases op) (auto split: if_splits)
  have "glob_match p' cmd"
    using p op assms(2) by (auto intro: glob_match_mono)
  then show ?thesis
    using assms p(1) op(1) CapShellExecute
    by (auto split: if_splits option.splits intro: prefix_order.trans)
qed (use assms in \<open>cases p; cases op; auto split: if_splits intro: match_pattern_mono prefix_order.trans\<close>)+

section \<open>Glob semantics\<close>

text \<open>The textbook meaning of a pattern: a star stands for any string.\<close>

fun glob :: "string \<Rightarrow> string \<Rightarrow> bool" where
  "glob [] s = (s = [])"
| "glob (c # p) s =
     (if c = glob_star then (case s of [] \<Rightarrow> glob p [] | x # xs \<Rightarrow> glob p (x # xs) \<or> glob (c # p) xs)
      else (case s of [] \<Rightarrow> False | x # xs \<Rightarrow> x = c \<and> glob p xs))"

lemma glob_star_Cons: "glob (glob_star # p) s \<longleftrightarrow> (\<exists>x y. s = x @ y \<and> glob p y)"
proof (induction s)
  case (Cons a s)
  have "(\<exists>x y. a # s = x @ y \<and> glob p y) \<longleftrightarrow> glob p (a # s) \<or> (\<exists>x y. s = x @ y \<and> glob p y)"
    by (metis append_Cons append_Nil list.inject neq_Nil_conv)
  with Cons show ?case by simp
qed simp

lemma glob_literal: "glob_star \<notin> set q \<Longrightarrow> glob (q @ p) s \<longleftrightarrow> (\<exists>y. s = q @ y \<and> glob p y)"
proof (induction q arbitrary: s)
  case (Cons c q)
  then show ?case by (cases s) auto
qed simp

lemma glob_exact: "glob_star \<notin> set q \<Longrightarrow> glob q s \<longleftrightarrow> s = q"
  using glob_literal [of q "[]" s] by auto

text \<open>The parts of a pattern after its first star, each to be found after the previous one.\<close>

fun glob_segments :: "string list \<Rightarrow> string \<Rightarrow> bool" where
  "glob_segments [] s = True"
| "glob_segments [l] s = suffix l s"
| "glob_segments (m # ms) s = (\<exists>x y. s = x @ m @ y \<and> glob_segments ms y)"

lemma glob_segments_Cons: "ms \<noteq> [] \<Longrightarrow>
  glob_segments (m # ms) s = (\<exists>x y. s = x @ m @ y \<and> glob_segments ms y)"
  by (cases ms) auto

lemma glob_split: "glob (glob_star # p) s \<longleftrightarrow> glob_segments (split_on glob_star p) s"
proof (induction "length p" arbitrary: p s rule: less_induct)
  case less
  show ?case
  proof (cases "glob_star \<in> set p")
    case False
    then show ?thesis
      unfolding glob_star_Cons by (auto simp: glob_exact split_on_absent suffix_def)
  next
    case True
    then obtain q r where p: "p = q @ glob_star # r" "glob_star \<notin> set q"
      by (metis split_list_first)
    then have "glob (glob_star # p) s \<longleftrightarrow> (\<exists>x y. s = x @ q @ y \<and> glob (glob_star # r) y)"
      unfolding glob_star_Cons [of p] by (auto simp: glob_literal simp del: glob.simps)
    with less [of r] p show ?thesis
      by (simp add: split_on_append glob_segments_Cons del: glob.simps)
  qed
qed

lemma glob_segments_extend: "ms \<noteq> [] \<Longrightarrow> glob_segments ms y \<Longrightarrow> glob_segments ms (z @ y)"
proof (induction ms y rule: glob_segments.induct)
  case (3 m m' ms s)
  then obtain x y where "s = x @ m @ y" "glob_segments (m' # ms) y" by auto
  then show ?case by (simp only: glob_segments.simps) (metis append.assoc)
qed (auto intro: suffix_appendI)

lemma glob_middle_greedy:
  "glob_segments (ms @ [l]) s \<longleftrightarrow> (case glob_middle ms s of None \<Rightarrow> False | Some r \<Rightarrow> suffix l r)"
proof (induction ms s rule: glob_middle.induct)
  case (2 m ms s)
  have seg: "glob_segments ((m # ms) @ [l]) s \<longleftrightarrow> (\<exists>x y. s = x @ m @ y \<and> glob_segments (ms @ [l]) y)"
    by (simp add: glob_segments_Cons)
  show ?case
  proof (cases "m = []")
    case True
    then have "glob_segments ((m # ms) @ [l]) s \<longleftrightarrow> glob_segments (ms @ [l]) s"
      unfolding seg using glob_segments_extend [of "ms @ [l]"] by (auto intro: exI [of _ "[]"])
    with "2.IH"(1) True show ?thesis by simp
  next
    case ne: False
    show ?thesis
    proof (cases "find_sub m s")
      case None
      have "\<nexists>x y. s = x @ m @ y"
      proof
        assume "\<exists>x y. s = x @ m @ y"
        then obtain x y where "s = x @ m @ y" by blast
        with find_sub_least [of x m y] None show False by simp
      qed
      with None ne seg show ?thesis by auto
    next
      case (Some k)
      from find_sub_Some [OF Some] obtain x y where xy: "s = x @ m @ y" "length x = k" by blast
      have "glob_segments ((m # ms) @ [l]) s \<longleftrightarrow> glob_segments (ms @ [l]) y"
      proof
        assume "glob_segments ((m # ms) @ [l]) s"
        then obtain x' y' where s': "s = x' @ m @ y'" "glob_segments (ms @ [l]) y'"
          unfolding seg by blast
        from find_sub_least [of x' m y'] s'(1) Some have "k \<le> length x'" by auto
        then have "length x' + length m = (length x' - length x) + (length x + length m)"
          using xy(2) by simp
        moreover have "y' = drop (length x' + length m) s" unfolding s'(1) by simp
        moreover have "y = drop (length x + length m) s" unfolding xy(1) by simp
        ultimately have "y' = drop (length x' - length x) y" by (metis drop_drop)
        then obtain z where "y = z @ y'" by (metis append_take_drop_id)
        with s'(2) show "glob_segments (ms @ [l]) y"
          using glob_segments_extend [of "ms @ [l]" y' z] by simp
      next
        assume "glob_segments (ms @ [l]) y"
        then show "glob_segments ((m # ms) @ [l]) s" unfolding seg using xy(1) by blast
      qed
      moreover have "drop (k + length m) s = y" using xy by simp
      ultimately show ?thesis using "2.IH"(2) [OF ne Some] Some ne by simp
    qed
  qed
qed simp

lemma glob_match_inner:
  assumes "glob_star \<in> set p" "last p \<noteq> glob_star"
  shows "glob_match p s = glob p s"
proof -
  from assms obtain q r where p: "p = q @ glob_star # r" "glob_star \<notin> set q"
    by (metis split_list_first)
  let ?parts = "split_on glob_star r"
  obtain ms l where ml: "?parts = ms @ [l]" using split_on_nonempty [of glob_star r] by (metis rev_exhaust)
  have parts: "split_on glob_star p = q # ms @ [l]" using p ml by (simp add: split_on_append)
  have mid: "take (length (q # ms @ [l]) - 2) (drop 1 (q # ms @ [l])) = ms" by simp
  have "glob p s \<longleftrightarrow> (\<exists>y. s = q @ y \<and> (case glob_middle ms y of None \<Rightarrow> False | Some x \<Rightarrow> suffix l x))"
    unfolding p(1) glob_literal [OF p(2)] glob_split ml glob_middle_greedy ..
  also have "\<dots> \<longleftrightarrow> prefix q s \<and> (case glob_middle ms (drop (length q) s) of None \<Rightarrow> False | Some x \<Rightarrow> suffix l x)"
    by (auto simp: prefix_def)
  also have "\<dots> \<longleftrightarrow> glob_match p s"
    unfolding glob_match_def Let_def parts mid using assms by (auto split: option.splits)
  finally show ?thesis by simp
qed

text \<open>
  The shell-command matcher computes glob matching: for every pattern whose only star
  is at the end, and for every pattern that does not end in a star, however many stars it has
  inside, \<open>glob_match\<close> (prefix test, leftmost search for the middle parts, suffix test) accepts
  exactly the strings the pattern denotes when a star stands for any string.
\<close>

lemma glob_match_correct:
  assumes "simple_pattern p \<or> \<not> ends_with_star p"
  shows "glob_match p s = glob p s"
proof (cases "ends_with_star p")
  case True
  with assms have q: "p = butlast p @ [glob_star]" "glob_star \<notin> set (butlast p)"
    by (auto simp: ends_with_star_def simple_pattern_def) (metis append_butlast_last_id)
  have "glob p s \<longleftrightarrow> prefix (butlast p) s"
    by (subst q(1)) (auto simp: glob_literal [OF q(2)] glob_star_Cons glob_exact prefix_def simp del: glob.simps(2))
  with True show ?thesis by (auto simp: glob_match_def ends_with_star_def)
next
  case notail: False
  show ?thesis
  proof (cases "glob_star \<in> set p")
    case True
    with notail show ?thesis by (intro glob_match_inner) (auto simp: ends_with_star_def)
  next
    case False
    then have "\<not> (p = [glob_star])" by auto
    with False notail show ?thesis by (auto simp: glob_match_def glob_exact ends_with_star_def)
  qed
qed

section \<open>Delegation\<close>

text \<open>
  C37 (safety). Containment prevents escalation for every kind of capability, provided the parent's shell
  pattern has the documented form (at most one star, at the end): whatever operation a contained
  child capability authorizes, the parent authorizes too.
\<close>

theorem containment_no_escalation:
  assumes "contains p c" "simple_capability p" "authorizes c op"
  shows "authorizes p op"
  using assms by (rule contains_authorizes)

theorem containment_no_escalation_witness:
  "authorizes (CapShellExecute ''git *'' None) (OpShellExecute ''git push'' None)"
  using containment_no_escalation [of "CapShellExecute ''git *'' None" "CapShellExecute ''git pu*'' None"
      "OpShellExecute ''git push'' None"]
  by (simp add: shell_pattern_ok_def trim_end_matches_def glob_star_def simple_pattern_def
      ends_with_star_def glob_match_def)

text \<open>
  Without that proviso containment does not prevent escalation: a parent pattern that ends
  in two stars authorizes only commands that continue with a literal star, yet it contains every
  continuation, so a holder of the parent can delegate commands the parent itself does not
  authorize.
\<close>

lemma double_star_escalates:
  assumes "glob_star \<notin> set q" "x \<noteq> []" "glob_star \<notin> set x"
  shows "contains (CapShellExecute (q @ ''**'') None) (CapShellExecute (q @ x) None) \<and>
    authorizes (CapShellExecute (q @ x) None) (OpShellExecute (q @ x) wd) \<and>
    \<not> authorizes (CapShellExecute (q @ ''**'') None) (OpShellExecute (q @ x) wd)"
proof -
  have star: "''**'' = [glob_star, glob_star]" by (simp add: glob_star_def)
  have "trim_end_matches glob_star (q @ [glob_star, glob_star]) = q"
    using assms(1) simple_trim [of "q @ [glob_star]"]
    by (simp add: trim_end_matches_def simple_pattern_def ends_with_star_def butlast_append)
  moreover have "q @ x \<noteq> [glob_star]" using assms by (cases q) auto
  moreover have "last (q @ x) \<noteq> glob_star" "last x \<noteq> glob_star"
    using assms by (metis last_append last_in_set)+
  moreover have "\<not> prefix (q @ [glob_star]) (q @ x)"
    using assms(2,3) by (cases x) auto
  ultimately show ?thesis
    using assms unfolding star
    by (auto simp: shell_pattern_ok_def ends_with_star_def glob_match_def butlast_append)
qed

section \<open>The agent's capability tokens\<close>

text \<open>The instance of the trait \<^verbatim>\<open>Cap\<close> for the agent's capabilities, over any libraries.\<close>

definition agent_env :: "(capability, operation) auth_env \<Rightarrow> (capability, operation) auth_env" where
  "agent_env libs = libs\<lparr>cap_authorizes := authorizes, cap_contains := contains, cap_is_delegate := is_delegate\<rparr>"

interpretation agent: cap_trait "agent_env libs" simple_capability for libs
proof unfold_locales
  fix a b c
  show "cap_contains (agent_env libs) a b \<Longrightarrow> cap_contains (agent_env libs) b c \<Longrightarrow> cap_contains (agent_env libs) a c"
    unfolding agent_env_def by simp (rule contains_trans)
next
  fix p c op
  show "simple_capability p \<Longrightarrow> cap_contains (agent_env libs) p c \<Longrightarrow>
      cap_authorizes (agent_env libs) c op \<Longrightarrow> cap_authorizes (agent_env libs) p op"
    unfolding agent_env_def by simp (rule contains_authorizes)
qed

text \<open>
  Issued credentials of the agent never exceed their root: however often a root token is
  delegated with the library's builder, an operation that the last credential's token authorizes
  is authorized by the root token, if the root's shell patterns have at most one star, at the end.
\<close>

lemma agent_credentials_no_escalation:
  assumes "issued_credential (agent_env libs) root cred" "\<forall>p \<in> set (capabilities root). simple_capability p"
    and "\<exists>c \<in> set (capabilities (cred_token cred)). authorizes c op"
  shows "\<exists>p \<in> set (capabilities root). authorizes p op"
  using agent.issued_no_escalation [OF assms(1,2), of _ op] assms(3) by (auto simp: agent_env_def)

end
