(* ===== verification/Frame.thy ===== *)
theory Frame
  imports Prelude
begin

text \<open>
  Length-prefixed frames between client and daemon, \<^verbatim>\<open>crates/clankers-protocol/src/frame.rs\<close>. A
  transport is the sequence of bytes still to be read, or written so far; reading past its end is
  \<open>Eof\<close>. JSON serialization is a parameter. Other transport errors come from the operating system
  and are not modelled.
\<close>

definition MAX_FRAME_SIZE :: nat where "MAX_FRAME_SIZE = 10000000"

datatype frame_error = Io string | TooLarge nat | Json string | Eof

type_synonym transport = "u8 list"

definition to_be_bytes :: "u32 \<Rightarrow> u8 list" where
  "to_be_bytes w = (let n = unat w in
     [of_nat (n div 16777216), of_nat (n div 65536), of_nat (n div 256), of_nat n])"

definition from_be_bytes :: "u8 list \<Rightarrow> u32" where
  "from_be_bytes bs = of_nat (foldl (\<lambda>n b. n * 256 + unat b) 0 bs)"

definition read_exact :: "nat \<Rightarrow> transport \<Rightarrow> (frame_error + u8 list) \<times> transport" where
  "read_exact n r = (if length r < n then (Inl Eof, []) else (Inr (take n r), drop n r))"

definition write_raw_frame :: "transport \<Rightarrow> u8 list \<Rightarrow> frame_error + transport" where
  "write_raw_frame w data =
     (if length data > MAX_FRAME_SIZE then Inl (TooLarge (length data))
      else if length data \<ge> 2 ^ 32 then Inl (TooLarge (length data))
      else Inr (w @ to_be_bytes (of_nat (length data)) @ data))"

definition read_raw_frame :: "transport \<Rightarrow> (frame_error + u8 list) \<times> transport" where
  "read_raw_frame r = (case read_exact 4 r of
     (Inl e, r) \<Rightarrow> (Inl e, r)
   | (Inr len_buf, r) \<Rightarrow>
       let len = unat (from_be_bytes len_buf)
       in if len > MAX_FRAME_SIZE then (Inl (TooLarge len), r) else read_exact len r)"

definition write_frame :: "('t \<Rightarrow> string + u8 list) \<Rightarrow> transport \<Rightarrow> 't \<Rightarrow> frame_error + transport" where
  "write_frame to_vec w v = (case to_vec v of
     Inl e \<Rightarrow> Inl (Json e)
   | Inr data \<Rightarrow>
       if length data > MAX_FRAME_SIZE then Inl (TooLarge (length data))
       else if length data \<ge> 2 ^ 32 then Inl (TooLarge (length data))
       else Inr (w @ to_be_bytes (of_nat (length data)) @ data))"

definition read_frame :: "(u8 list \<Rightarrow> string + 't) \<Rightarrow> transport \<Rightarrow> (frame_error + 't) \<times> transport" where
  "read_frame from_slice r = (case read_exact 4 r of
     (Inl e, r) \<Rightarrow> (Inl e, r)
   | (Inr len_buf, r) \<Rightarrow>
       let len = unat (from_be_bytes len_buf)
       in if len > MAX_FRAME_SIZE then (Inl (TooLarge len), r)
          else case read_exact len r of
            (Inl e, r) \<Rightarrow> (Inl e, r)
          | (Inr data, r) \<Rightarrow>
              (case from_slice data of Inl e \<Rightarrow> Inl (Json e) | Inr v \<Rightarrow> Inr v, r))"

section \<open>The length prefix\<close>

lemma to_be_bytes_length [simp]: "length (to_be_bytes w) = 4"
  by (simp add: to_be_bytes_def Let_def)

lemma unat_u8_of_nat: "unat (of_nat n :: u8) = n mod 256"
  by (simp add: unat_of_nat)

lemma base256_digits:
  fixes n :: nat
  assumes "n < 4294967296"
  shows "((n div 16777216 mod 256 * 256 + n div 65536 mod 256) * 256 + n div 256 mod 256) * 256 + n mod 256 = n"
proof -
  have "n div 256 div 256 = n div 65536" "n div 65536 div 256 = n div 16777216"
    by (simp_all add: div_mult2_eq [symmetric])
  moreover have "n div 16777216 < 256" using assms by (simp add: div_less_iff_less_mult)
  ultimately show ?thesis
    by (metis div_mult_mod_eq mod_less)
qed

lemma be_bytes_roundtrip: "from_be_bytes (to_be_bytes w) = w"
proof -
  have "unat w < 4294967296" using unat_word_less_pow [of w] by simp
  have "foldl (\<lambda>n b. n * 256 + unat b) 0 (to_be_bytes w) = unat w"
    by (simp only: to_be_bytes_def Let_def foldl_Cons foldl_Nil unat_u8_of_nat mult_zero_left add_0
        base256_digits [OF \<open>unat w < 4294967296\<close>])
  then show ?thesis by (simp add: from_be_bytes_def)
qed

lemma frame_length_prefix:
  "length data \<le> MAX_FRAME_SIZE \<Longrightarrow> unat (from_be_bytes (to_be_bytes (of_nat (length data)))) = length data"
  unfolding be_bytes_roundtrip MAX_FRAME_SIZE_def by (simp add: unat_of_nat)

lemma write_raw_frame_Inr:
  "write_raw_frame w data = Inr w' \<longleftrightarrow> length data \<le> MAX_FRAME_SIZE \<and>
     w' = w @ to_be_bytes (of_nat (length data)) @ data"
  by (auto simp: write_raw_frame_def MAX_FRAME_SIZE_def)

section \<open>Round trips\<close>

lemma read_raw_of_write_raw:
  assumes "write_raw_frame [] data = Inr w"
  shows "read_raw_frame (w @ r) = (Inr data, r)"
  using assms
  by (auto simp: write_raw_frame_Inr read_raw_frame_def read_exact_def Let_def frame_length_prefix)

fun write_frames :: "('t \<Rightarrow> string + u8 list) \<Rightarrow> transport \<Rightarrow> 't list \<Rightarrow> frame_error + transport" where
  "write_frames to_vec w [] = Inr w"
| "write_frames to_vec w (v # vs) =
     (case write_frame to_vec w v of Inl e \<Rightarrow> Inl e | Inr w' \<Rightarrow> write_frames to_vec w' vs)"

fun read_frames :: "(u8 list \<Rightarrow> string + 't) \<Rightarrow> nat \<Rightarrow> transport \<Rightarrow> (frame_error + 't list) \<times> transport" where
  "read_frames from_slice 0 r = (Inr [], r)"
| "read_frames from_slice (Suc n) r = (case read_frame from_slice r of
     (Inl e, r) \<Rightarrow> (Inl e, r)
   | (Inr v, r) \<Rightarrow> (case read_frames from_slice n r of
       (Inl e, r) \<Rightarrow> (Inl e, r)
     | (Inr vs, r) \<Rightarrow> (Inr (v # vs), r)))"

lemma write_frame_append:
  "write_frame to_vec w v = Inr w' \<longleftrightarrow>
   (\<exists>data. to_vec v = Inr data \<and> length data \<le> MAX_FRAME_SIZE \<and> w' = w @ to_be_bytes (of_nat (length data)) @ data)"
  by (auto simp: write_frame_def MAX_FRAME_SIZE_def split: sum.splits)

lemma read_of_write_frame:
  assumes "write_frame to_vec [] v = Inr w" "\<And>v data. to_vec v = Inr data \<Longrightarrow> from_slice data = Inr v"
  shows "read_frame from_slice (w @ r) = (Inr v, r)"
  using assms
  by (auto simp: write_frame_append read_frame_def read_exact_def Let_def frame_length_prefix split: sum.splits)

text \<open>
  C31 (roundtrip). Frames survive the transport: when a sequence of values has been written one frame after
  the other, reading as many frames gives back exactly these values, in order, and leaves the
  transport at the first byte after them, provided the JSON parser inverts the serializer.
\<close>

theorem frames_roundtrip:
  assumes "\<And>v data. to_vec v = Inr data \<Longrightarrow> from_slice data = Inr v"
    and "write_frames to_vec w vs = Inr w'"
  shows "\<exists>s. w' = w @ s \<and> read_frames from_slice (length vs) (s @ r) = (Inr vs, r)"
  using assms(2)
proof (induction vs arbitrary: w)
  case (Cons v vs)
  then obtain w1 where w1: "write_frame to_vec w v = Inr w1" "write_frames to_vec w1 vs = Inr w'"
    by (auto split: sum.splits)
  then obtain f where f: "w1 = w @ f" "write_frame to_vec [] v = Inr f"
    by (auto simp: write_frame_append)
  from Cons.IH [OF w1(2)] obtain s where s: "w' = w1 @ s" "read_frames from_slice (length vs) (s @ r) = (Inr vs, r)"
    by blast
  have "read_frame from_slice (f @ s @ r) = (Inr v, s @ r)"
    using read_of_write_frame [OF f(2) assms(1)] by simp
  with s f(1) show ?case by (intro exI [of _ "f @ s"]) simp
qed simp

theorem frames_roundtrip_witness:
  "\<exists>s. s = [0, 0, 0, 1, 7, 0, 0, 0, 2, 7, 8] \<and>
     read_frames (\<lambda>d. Inr d :: string + u8 list) 2 (s @ [1]) = (Inr [[7], [7, 8]], [1])"
proof -
  have "write_frames (\<lambda>d. Inr d) [] [[7], [7, 8]] = Inr [0, 0, 0, 1, 7, 0, 0, 0, 2, 7, 8]"
    by (simp add: write_frame_def MAX_FRAME_SIZE_def to_be_bytes_def Let_def)
  from frames_roundtrip [OF _ this, of "\<lambda>d. Inr d" "[1]"] show ?thesis
    by (simp add: numeral_2_eq_2 del: read_frames.simps)
qed

text \<open>
  A frame is read as a whole or not at all: on every strict prefix of a written frame the reader
  reports \<open>Eof\<close>, never a shorter payload; and a length above the limit is refused, on the write side
  before any byte is sent and on the read side before any payload is read.
\<close>

lemma truncated_or_oversized_frame:
  "(write_raw_frame [] data = Inr w \<longrightarrow> strict_prefix p w \<longrightarrow> read_raw_frame p = (Inl Eof, [])) \<and>
   (length data > MAX_FRAME_SIZE \<longrightarrow> write_raw_frame w0 data = Inl (TooLarge (length data))) \<and>
   (length h = 4 \<longrightarrow> unat (from_be_bytes h) > MAX_FRAME_SIZE \<longrightarrow>
     read_raw_frame (h @ r) = (Inl (TooLarge (unat (from_be_bytes h))), r))"
proof (intro conjI impI)
  assume w: "write_raw_frame [] data = Inr w" and p: "strict_prefix p w"
  then have data: "length data \<le> MAX_FRAME_SIZE" "w = to_be_bytes (of_nat (length data)) @ data"
    by (auto simp: write_raw_frame_Inr)
  have len: "length p < 4 + length data" using prefix_length_less [OF p] data(2) by simp
  show "read_raw_frame p = (Inl Eof, [])"
  proof (cases "length p < 4")
    case False
    from p obtain z where z: "w = p @ z" by (auto simp: strict_prefix_def prefix_def)
    have "take 4 w = take 4 p" unfolding z using False by simp
    moreover have "take 4 w = to_be_bytes (of_nat (length data))" unfolding data(2) by simp
    ultimately have "take 4 p = to_be_bytes (of_nat (length data))" by simp
    with False len frame_length_prefix [OF data(1)] data(1) show ?thesis
      by (auto simp: read_raw_frame_def read_exact_def Let_def)
  qed (simp add: read_raw_frame_def read_exact_def)
qed (auto simp: write_raw_frame_def read_raw_frame_def read_exact_def Let_def)

end
