(* ===== verification/Credential_Pool.thy ===== *)
theory Credential_Pool
  imports Prelude
begin

text \<open>
  The credential pool of the router, \<^verbatim>\<open>crates/clanker-router/src/credential_pool/mod.rs\<close>, with the
  stored credentials of \<^verbatim>\<open>auth.rs\<close> and the retryable statuses of \<^verbatim>\<open>retry.rs\<close>. The clocks are an
  argument, one reading per operation (monotonic nanoseconds and UTC milliseconds), and so is the
  random number. The per-slot locks and the atomic counters make each operation one step; the
  counters wrap at 64 bits. Log output is left out.
\<close>

section \<open>Credentials\<close>

datatype stored_credential =
    ApiKey string "string option"
  | OAuth string string int "string option"

record clock =
  instant :: nat
  utc_ms :: int

fun cred_secret :: "stored_credential \<Rightarrow> string" where
  "cred_secret (ApiKey k l) = k"
| "cred_secret (OAuth a r e l) = a"

fun is_oauth :: "stored_credential \<Rightarrow> bool" where
  "is_oauth (OAuth a r e l) = True"
| "is_oauth (ApiKey k l) = False"

fun is_expired :: "clock \<Rightarrow> stored_credential \<Rightarrow> bool" where
  "is_expired now (ApiKey k l) = False"
| "is_expired now (OAuth a r expires_at_ms l) = (utc_ms now \<ge> expires_at_ms)"

fun refresh_token :: "stored_credential \<Rightarrow> string option" where
  "refresh_token (OAuth a r e l) = Some r"
| "refresh_token (ApiKey k l) = None"

fun cred_label :: "stored_credential \<Rightarrow> string option" where
  "cred_label (ApiKey k l) = l"
| "cred_label (OAuth a r e l) = l"

definition is_retryable_status :: "u16 \<Rightarrow> bool" where
  "is_retryable_status status \<longleftrightarrow> status \<in> {429, 500, 502, 503, 504, 529}"

section \<open>Slot health\<close>

datatype selection_strategy = FillFirst | Failover | RoundRobin | LeastUsed | Random

record slot_health =
  in_cooldown :: bool
  cooldown_until :: "nat option"
  consecutive_errors :: u32
  last_error_status :: "u16 option"
  success_count :: u64
  failure_count :: u64
  last_used :: "nat option"

definition health_default :: slot_health where
  "health_default = \<lparr>in_cooldown = False, cooldown_until = None, consecutive_errors = 0,
     last_error_status = None, success_count = 0, failure_count = 0, last_used = None\<rparr>"

definition is_available :: "clock \<Rightarrow> slot_health \<Rightarrow> bool" where
  "is_available now h =
     (if \<not> in_cooldown h then True
      else case cooldown_until h of None \<Rightarrow> False | Some until \<Rightarrow> instant now \<ge> until)"

definition record_success :: "clock \<Rightarrow> slot_health \<Rightarrow> slot_health" where
  "record_success now h = h\<lparr>in_cooldown := False, cooldown_until := None, consecutive_errors := 0,
     last_error_status := None, success_count := success_count h + 1, last_used := Some (instant now)\<rparr>"

definition failure_cooldown :: "u16 option \<Rightarrow> u32 \<Rightarrow> u16 \<Rightarrow> duration option" where
  "failure_cooldown previous errors status =
     (if status = 402 then Some (dur_from_secs (24 * 60 * 60))
      else if status = 429 \<and> previous = Some 429 then Some (dur_from_secs (60 * 60))
      else if status = 429 then None
      else if is_retryable_status status
      then Some (dur_from_secs (min (2 ^ min (unat errors) 8) 300))
      else None)"

definition record_failure :: "clock \<Rightarrow> u16 \<Rightarrow> slot_health \<Rightarrow> slot_health" where
  "record_failure now status h =
     (let previous = last_error_status h;
          h = h\<lparr>consecutive_errors := consecutive_errors h + 1, last_error_status := Some status,
                failure_count := failure_count h + 1, last_used := Some (instant now)\<rparr>
      in case failure_cooldown previous (consecutive_errors h) status of
           Some d \<Rightarrow> h\<lparr>in_cooldown := True, cooldown_until := Some (instant now + d)\<rparr>
         | None \<Rightarrow> h)"

definition cooldown_remaining_secs :: "clock \<Rightarrow> slot_health \<Rightarrow> u64" where
  "cooldown_remaining_secs now h =
     (case cooldown_until h of None \<Rightarrow> 0 | Some until \<Rightarrow> dur_as_secs (until - instant now))"

section \<open>The pool\<close>

record credential_slot =
  account :: string
  slot_credential :: stored_credential
  health :: slot_health

definition is_selectable :: "clock \<Rightarrow> credential_slot \<Rightarrow> bool" where
  "is_selectable now slot = (if is_expired now (slot_credential slot) then False else is_available now (health slot))"

record credential_pool =
  slots :: "credential_slot list"
  strategy :: selection_strategy
  rr_counter :: u64
  total_requests :: u64

text \<open>\<^term>\<open>None\<close> is the failed assertion on an empty list.\<close>

definition pool_new :: "(string \<times> stored_credential) list \<Rightarrow> selection_strategy \<Rightarrow> credential_pool option" where
  "pool_new credentials strat =
     (if credentials = [] then None
      else Some \<lparr>slots = map (\<lambda>(a, c). \<lparr>account = a, slot_credential = c, health = health_default\<rparr>) credentials,
        strategy = strat, rr_counter = 0, total_requests = 0\<rparr>)"

definition pool_single :: "string \<Rightarrow> stored_credential \<Rightarrow> credential_pool option" where
  "pool_single a c = pool_new [(a, c)] FillFirst"

definition is_multi :: "credential_pool \<Rightarrow> bool" where
  "is_multi pool \<longleftrightarrow> length (slots pool) > 1"

definition rr_order :: "credential_pool \<Rightarrow> nat list" where
  "rr_order pool = (let n = length (slots pool); start = unat (rr_counter pool) mod n
     in map (\<lambda>i. (start + i) mod n) [0..<n])"

definition select_round_robin :: "clock \<Rightarrow> credential_pool \<Rightarrow> nat option \<times> credential_pool" where
  "select_round_robin now pool =
     (find (\<lambda>idx. is_selectable now (slots pool ! idx)) (rr_order pool),
      pool\<lparr>rr_counter := rr_counter pool + 1\<rparr>)"

definition select_fill_first :: "clock \<Rightarrow> credential_pool \<Rightarrow> nat option" where
  "select_fill_first now pool = find (\<lambda>idx. is_selectable now (slots pool ! idx)) [0..<length (slots pool)]"

fun least_used_loop :: "clock \<Rightarrow> (nat \<times> credential_slot) list \<Rightarrow> (nat \<times> u64) option \<Rightarrow> (nat \<times> u64) option" where
  "least_used_loop now [] best = best"
| "least_used_loop now ((idx, slot) # rest) best =
     least_used_loop now rest
       (if is_selectable now slot \<and>
           (case best of None \<Rightarrow> True | Some (_, count) \<Rightarrow> success_count (health slot) < count)
        then Some (idx, success_count (health slot)) else best)"

definition select_least_used :: "clock \<Rightarrow> credential_pool \<Rightarrow> nat option" where
  "select_least_used now pool = map_option fst (least_used_loop now (List.enumerate 0 (slots pool)) None)"

definition candidates :: "clock \<Rightarrow> credential_pool \<Rightarrow> nat list" where
  "candidates now pool = filter (\<lambda>idx. is_selectable now (slots pool ! idx)) [0..<length (slots pool)]"

definition select_random :: "clock \<Rightarrow> u64 \<Rightarrow> credential_pool \<Rightarrow> nat option" where
  "select_random now random pool =
     (let cs = candidates now pool
      in if cs = [] then None else Some (cs ! (unat random mod length cs)))"

definition select :: "clock \<Rightarrow> u64 \<Rightarrow> credential_pool \<Rightarrow> nat option \<times> credential_pool" where
  "select now random pool =
     (let pool = pool\<lparr>total_requests := total_requests pool + 1\<rparr>
      in case strategy pool of
           RoundRobin \<Rightarrow> select_round_robin now pool
         | FillFirst \<Rightarrow> (select_fill_first now pool, pool)
         | Failover \<Rightarrow> (select_fill_first now pool, pool)
         | LeastUsed \<Rightarrow> (select_least_used now pool, pool)
         | Random \<Rightarrow> (select_random now random pool, pool))"

definition select_all_available :: "clock \<Rightarrow> u64 \<Rightarrow> credential_pool \<Rightarrow> nat list \<times> credential_pool" where
  "select_all_available now random pool = (case strategy pool of
     RoundRobin \<Rightarrow>
       (filter (\<lambda>idx. is_selectable now (slots pool ! idx)) (rr_order pool),
        pool\<lparr>rr_counter := rr_counter pool + 1\<rparr>)
   | LeastUsed \<Rightarrow>
       (sort_key (\<lambda>idx. success_count (health (slots pool ! idx))) (candidates now pool), pool)
   | Random \<Rightarrow>
       (let cs = candidates now pool
        in (if cs = [] then cs else rotate (unat random mod length cs) cs, pool))
   | _ \<Rightarrow> (candidates now pool, pool))"

definition update_health :: "nat \<Rightarrow> (slot_health \<Rightarrow> slot_health) \<Rightarrow> credential_pool \<Rightarrow> credential_pool" where
  "update_health idx f pool =
     pool\<lparr>slots := (slots pool)[idx := (slots pool ! idx)\<lparr>health := f (health (slots pool ! idx))\<rparr>]\<rparr>"

definition report_success :: "clock \<Rightarrow> nat \<Rightarrow> credential_pool \<Rightarrow> credential_pool" where
  "report_success now idx pool = update_health idx (record_success now) pool"

definition report_failure :: "clock \<Rightarrow> nat \<Rightarrow> u16 \<Rightarrow> credential_pool \<Rightarrow> credential_pool" where
  "report_failure now idx status pool = update_health idx (record_failure now status) pool"

definition reset_health :: "credential_pool \<Rightarrow> credential_pool" where
  "reset_health pool = pool\<lparr>slots := map (\<lambda>s. s\<lparr>health := health_default\<rparr>) (slots pool)\<rparr>"

definition reset_account_health :: "string \<Rightarrow> credential_pool \<Rightarrow> credential_pool" where
  "reset_account_health acct pool =
     pool\<lparr>slots := map (\<lambda>s. if account s = acct then s\<lparr>health := health_default\<rparr> else s) (slots pool)\<rparr>"

record slot_summary =
  sm_index :: nat
  sm_account :: string
  sm_is_oauth :: bool
  sm_is_expired :: bool
  sm_is_available :: bool
  sm_in_cooldown :: bool
  sm_cooldown_remaining_secs :: u64
  sm_consecutive_errors :: u32
  sm_last_error_status :: "u16 option"
  sm_success_count :: u64
  sm_failure_count :: u64

definition slot_summaries :: "clock \<Rightarrow> credential_pool \<Rightarrow> slot_summary list" where
  "slot_summaries now pool = map (\<lambda>(i, slot).
     let h = health slot; expired = is_expired now (slot_credential slot)
     in \<lparr>sm_index = i, sm_account = account slot, sm_is_oauth = is_oauth (slot_credential slot),
         sm_is_expired = expired, sm_is_available = (\<not> expired \<and> is_available now h),
         sm_in_cooldown = in_cooldown h, sm_cooldown_remaining_secs = cooldown_remaining_secs now h,
         sm_consecutive_errors = consecutive_errors h, sm_last_error_status = last_error_status h,
         sm_success_count = success_count h, sm_failure_count = failure_count h\<rparr>)
     (List.enumerate 0 (slots pool))"

section \<open>Selection\<close>

definition selectable_at :: "clock \<Rightarrow> credential_pool \<Rightarrow> nat \<Rightarrow> bool" where
  "selectable_at now pool i \<longleftrightarrow> i < length (slots pool) \<and> is_selectable now (slots pool ! i)"

lemma candidates_set: "set (candidates now pool) = {i. selectable_at now pool i}"
  by (auto simp: candidates_def selectable_at_def)

lemma mod_shift_bij:
  assumes "0 < n"
  shows "distinct (map (\<lambda>i. (s + i) mod n) [0..<n]) \<and> set (map (\<lambda>i. (s + i) mod n) [0..<n]) = {0..<n}"
proof -
  have le: "i = j" if "i \<le> j" "j < n" "(s + i) mod n = (s + j) mod n" for i j
  proof -
    have "n dvd (s + j) - (s + i)"
      using that(1,3) mod_eq_dvd_iff_nat [of "s + i" "s + j" n] by simp
    then have "n dvd j - i" by simp
    moreover have "j - i < n" using that(2) by simp
    ultimately show ?thesis using that(1) nat_dvd_not_less by fastforce
  qed
  have inj: "inj_on (\<lambda>i. (s + i) mod n) {0..<n}"
  proof (rule inj_onI)
    fix i j assume "i \<in> {0..<n}" "j \<in> {0..<n}" "(s + i) mod n = (s + j) mod n"
    then show "i = j" using le [of i j] le [of j i] by (cases "i \<le> j") auto
  qed
  moreover have "(\<lambda>i. (s + i) mod n) ` {0..<n} = {0..<n}"
    using assms inj by (intro endo_inj_surj) auto
  ultimately show ?thesis by (simp add: distinct_map)
qed

lemma rr_order_perm:
  "slots pool \<noteq> [] \<Longrightarrow> distinct (rr_order pool) \<and> set (rr_order pool) = {0..<length (slots pool)}"
  unfolding rr_order_def Let_def by (rule mod_shift_bij) simp

lemma find_eq_Some: "find P xs = Some x \<Longrightarrow> x \<in> set xs \<and> P x"
  by (auto simp: find_Some_iff)

lemma find_complete: "find P xs = None \<longleftrightarrow> (\<forall>x \<in> set xs. \<not> P x)"
  by (auto simp: find_None_iff)

text \<open>The least-used loop returns the first of the selectable slots with the smallest count.\<close>

lemma least_used_loop_spec:
  "case least_used_loop now es best of
     None \<Rightarrow> best = None \<and> (\<forall>(i, s) \<in> set es. \<not> is_selectable now s)
   | Some (i, c) \<Rightarrow>
       (best = Some (i, c) \<or> (\<exists>s. (i, s) \<in> set es \<and> is_selectable now s \<and> success_count (health s) = c)) \<and>
       (\<forall>j d. best = Some (j, d) \<longrightarrow> c \<le> d) \<and>
       (\<forall>(j, s) \<in> set es. is_selectable now s \<longrightarrow> c \<le> success_count (health s))"
proof (induction now es best rule: least_used_loop.induct)
  case (2 now idx slot rest best)
  let ?best = "if is_selectable now slot \<and>
       (case best of None \<Rightarrow> True | Some (_, count) \<Rightarrow> success_count (health slot) < count)
     then Some (idx, success_count (health slot)) else best"
  show ?case
  proof (cases "least_used_loop now rest ?best")
    case None
    with 2 show ?thesis by (auto split: if_splits option.splits)
  next
    case (Some ic)
    obtain i c where ic: "ic = (i, c)" by fastforce
    from 2 Some ic have sp: "(?best = Some (i, c) \<or> (\<exists>s. (i, s) \<in> set rest \<and> is_selectable now s \<and> success_count (health s) = c))"
       "\<forall>j d. ?best = Some (j, d) \<longrightarrow> c \<le> d"
       "\<forall>(j, s) \<in> set rest. is_selectable now s \<longrightarrow> c \<le> success_count (health s)"
      by (simp_all split: if_splits)
    have "c \<le> success_count (health slot)" if "is_selectable now slot"
      using sp(2) that by (cases best) (auto split: if_splits)
    moreover have "c \<le> d" if "best = Some (j, d)" for j d
      using sp(2) that by (auto split: if_splits)
    moreover have "best = Some (i, c) \<or> (\<exists>s. (i, s) \<in> set ((idx, slot) # rest) \<and> is_selectable now s \<and> success_count (health s) = c)"
      using sp(1) by (auto split: if_splits)
    ultimately show ?thesis using Some ic sp(3) by auto
  qed
qed (simp split: option.splits)

lemma enumerate_mem: "(i, s) \<in> set (List.enumerate 0 xs) \<longleftrightarrow> i < length xs \<and> xs ! i = s"
  by (auto simp: in_set_enumerate_eq)

lemma select_least_used_spec:
  "case select_least_used now pool of
     None \<Rightarrow> \<forall>j. \<not> selectable_at now pool j
   | Some i \<Rightarrow> selectable_at now pool i \<and>
       (\<forall>j. selectable_at now pool j \<longrightarrow> success_count (health (slots pool ! i)) \<le> success_count (health (slots pool ! j)))"
  using least_used_loop_spec [where now = now and es = "List.enumerate 0 (slots pool)" and best = None]
  by (auto simp: select_least_used_def selectable_at_def enumerate_mem split: option.splits)

lemma find_first: "find P [0..<n] = Some i \<Longrightarrow> i < n \<and> P i \<and> (\<forall>j<i. \<not> P j)"
  by (auto simp: find_Some_iff)

lemma select_round_robin_slots [simp]: "slots (snd (select_round_robin now pool)) = slots pool"
  by (simp add: select_round_robin_def)

lemma select_slots [simp]: "slots (snd (select now random pool)) = slots pool"
  by (cases "strategy pool") (simp_all add: select_def select_round_robin_def Let_def)

text \<open>
  Selection is sound and complete for every strategy: it returns a slot whose credential
  has not expired and whose health admits traffic, and it returns none only if there is no such
  slot. Fill-first picks the first one, least-used one with the fewest successes. Selecting changes
  no slot, so a slot whose cooldown has expired is handed out again and again until a result is
  reported.
\<close>

lemma select_sound_complete:
  assumes "slots pool \<noteq> []"
  shows "slots (snd (select now random pool)) = slots pool \<and>
    (case fst (select now random pool) of
       None \<Rightarrow> \<forall>j. \<not> selectable_at now pool j
     | Some i \<Rightarrow> selectable_at now pool i \<and>
         (strategy pool \<in> {FillFirst, Failover} \<longrightarrow> (\<forall>j<i. \<not> selectable_at now pool j)) \<and>
         (strategy pool = LeastUsed \<longrightarrow> (\<forall>j. selectable_at now pool j \<longrightarrow>
            success_count (health (slots pool ! i)) \<le> success_count (health (slots pool ! j)))))"
proof -
  let ?pool = "pool\<lparr>total_requests := total_requests pool + 1\<rparr>"
  have sel [simp]: "selectable_at now ?pool j = selectable_at now pool j" for j
    by (simp add: selectable_at_def)
  have fill: "case select_fill_first now ?pool of
       None \<Rightarrow> \<forall>j. \<not> selectable_at now pool j
     | Some i \<Rightarrow> selectable_at now pool i \<and> (\<forall>j<i. \<not> selectable_at now pool j)"
  proof (cases "find (\<lambda>i. is_selectable now (slots pool ! i)) [0..<length (slots pool)]")
    case None
    then have "\<forall>j < length (slots pool). \<not> is_selectable now (slots pool ! j)" by (simp add: find_None_iff)
    with None show ?thesis by (simp add: select_fill_first_def selectable_at_def)
  next
    case (Some i)
    from find_first [OF this] Some show ?thesis by (simp add: select_fill_first_def selectable_at_def)
  qed
  have rr: "case fst (select_round_robin now ?pool) of
       None \<Rightarrow> \<forall>j. \<not> selectable_at now pool j | Some i \<Rightarrow> selectable_at now pool i"
    using rr_order_perm [of ?pool] assms
    by (auto simp: select_round_robin_def selectable_at_def find_None_iff split: option.splits dest!: find_eq_Some)
  have rnd: "case select_random now random ?pool of
       None \<Rightarrow> \<forall>j. \<not> selectable_at now pool j | Some i \<Rightarrow> selectable_at now pool i"
  proof (cases "candidates now ?pool = []")
    case True
    with candidates_set [of now ?pool] show ?thesis by (simp add: select_random_def Let_def)
  next
    case False
    then have "candidates now ?pool ! (unat random mod length (candidates now ?pool)) \<in> set (candidates now ?pool)"
      by (intro nth_mem) simp
    with False candidates_set [of now ?pool] show ?thesis by (simp add: select_random_def Let_def)
  qed
  show ?thesis
    using fill rr rnd select_least_used_spec [of now ?pool]
    by (cases "strategy pool") (auto simp: select_def Let_def split: option.splits)
qed

text \<open>Consecutive selections, with the clock and the random numbers they see.\<close>

fun select_many :: "(clock \<times> u64) list \<Rightarrow> credential_pool \<Rightarrow> nat option list" where
  "select_many [] pool = []"
| "select_many ((now, random) # rest) pool =
     (let (r, pool') = select now random pool in r # select_many rest pool')"

lemma round_robin_step:
  assumes "strategy pool = RoundRobin" "\<forall>s \<in> set (slots pool). is_selectable now s" "slots pool \<noteq> []"
  shows "select now random pool = (Some (unat (rr_counter pool) mod length (slots pool)),
    pool\<lparr>total_requests := total_requests pool + 1, rr_counter := rr_counter pool + 1\<rparr>)"
proof -
  let ?n = "length (slots pool)"
  have "[0..<?n] = 0 # [1..<?n]" using assms(3) by (simp add: upt_conv_Cons)
  then have "rr_order (pool\<lparr>total_requests := total_requests pool + 1\<rparr>) =
      unat (rr_counter pool) mod ?n # map (\<lambda>i. (unat (rr_counter pool) mod ?n + i) mod ?n) [1..<?n]"
    by (simp add: rr_order_def Let_def)
  moreover have "is_selectable now (slots pool ! (unat (rr_counter pool) mod ?n))"
    using assms(2,3) by (simp add: nth_mem)
  ultimately show ?thesis using assms(1) by (simp add: select_def select_round_robin_def Let_def)
qed

lemma round_robin_run:
  assumes "strategy pool = RoundRobin" "slots pool \<noteq> []"
    and "\<forall>(now, random) \<in> set cs. \<forall>s \<in> set (slots pool). is_selectable now s"
    and "unat (rr_counter pool) + length cs < 2 ^ 64"
  shows "select_many cs pool =
    map (\<lambda>k. Some ((unat (rr_counter pool) + k) mod length (slots pool))) [0..<length cs]"
  using assms
proof (induction cs arbitrary: pool)
  case (Cons c cs)
  obtain now random where c: "c = (now, random)" by fastforce
  let ?p = "pool\<lparr>total_requests := total_requests pool + 1, rr_counter := rr_counter pool + 1\<rparr>"
  have ctr: "unat (rr_counter pool + 1) = Suc (unat (rr_counter pool))"
    using Cons.prems(4) by (simp add: unat_word_ariths)
  have "select_many cs ?p =
      map (\<lambda>k. Some ((unat (rr_counter ?p) + k) mod length (slots ?p))) [0..<length cs]"
    using Cons.prems by (intro Cons.IH) (auto simp: ctr)
  moreover have "select now random pool = (Some (unat (rr_counter pool) mod length (slots pool)), ?p)"
    using Cons.prems c by (intro round_robin_step) auto
  ultimately show ?case
    by (simp add: c ctr upt_conv_Cons map_Suc_upt [symmetric] del: upt_Suc)
qed simp

text \<open>
  Round-robin is fair: while all slots are selectable, any \<open>n\<close> consecutive selections from a
  pool of \<open>n\<close> credentials use every credential exactly once (as long as the counter does not wrap).
\<close>

lemma round_robin_fair:
  assumes "strategy pool = RoundRobin" "slots pool \<noteq> []" "length cs = length (slots pool)"
    and "\<forall>(now, random) \<in> set cs. \<forall>s \<in> set (slots pool). is_selectable now s"
    and "unat (rr_counter pool) + length cs < 2 ^ 64"
  shows "\<exists>is. select_many cs pool = map Some is \<and> distinct is \<and> set is = {0..<length (slots pool)}"
proof -
  let ?n = "length (slots pool)"
  have "select_many cs pool = map Some (map (\<lambda>k. (unat (rr_counter pool) + k) mod ?n) [0..<?n])"
    using round_robin_run [OF assms(1,2,4,5)] assms(3) by simp
  with mod_shift_bij [of ?n "unat (rr_counter pool)"] assms(2) show ?thesis by blast
qed

section \<open>Cooldowns\<close>

text \<open>
  How a failure affects a healthy slot: a quota error (402) takes it out for exactly 24
  hours; a first 429 leaves it in rotation and a second one in a row takes it out for exactly one
  hour; another retryable status takes it out for \<open>2^n\<close> seconds after \<open>n\<close> consecutive errors, at most
  256 (so the cap of 300 is never reached); any other status leaves it in rotation. A success
  always brings it back.
\<close>

lemma failure_cooldown_rules:
  assumes "\<not> in_cooldown h"
  shows "(is_available t (record_failure now 402 h) \<longleftrightarrow> instant t \<ge> instant now + 86400 * 10 ^ 9) \<and>
    (last_error_status h \<noteq> Some 429 \<longrightarrow> is_available t (record_failure now 429 h)) \<and>
    (last_error_status h \<noteq> Some 429 \<longrightarrow>
      (is_available t (record_failure now' 429 (record_failure now 429 h)) \<longleftrightarrow>
       instant t \<ge> instant now' + 3600 * 10 ^ 9)) \<and>
    (status \<in> {500, 502, 503, 504, 529} \<longrightarrow>
      (is_available t (record_failure now status h) \<longleftrightarrow>
       instant t \<ge> instant now + 2 ^ min (unat (consecutive_errors h + 1)) 8 * 10 ^ 9)) \<and>
    (\<not> is_retryable_status status \<and> status \<noteq> 402 \<longrightarrow> is_available t (record_failure now status h)) \<and>
    is_available t (record_success now (record_failure now status h))"
proof -
  have pow: "min (2 ^ min n 8) 300 = (2 ^ min n 8 :: nat)" for n
  proof -
    have "(2 :: nat) ^ min n 8 \<le> 2 ^ 8" by (rule power_increasing) auto
    then show ?thesis by simp
  qed
  show ?thesis
    using assms
    by (auto simp: record_failure_def record_success_def is_available_def failure_cooldown_def Let_def
        dur_from_secs_def is_retryable_status_def pow)
qed

definition two_slots :: "selection_strategy \<Rightarrow> credential_pool" where
  "two_slots strat = \<lparr>slots = [\<lparr>account = ''a'', slot_credential = ApiKey ''k'' None, health = health_default\<rparr>,
     \<lparr>account = ''b'', slot_credential = ApiKey ''l'' None, health = health_default\<rparr>],
     strategy = strat, rr_counter = 0, total_requests = 0\<rparr>"

end
