(* ===== verification/Rate_Limits.thy ===== *)
theory Rate_Limits
  imports Prelude
begin

text \<open>
  Rate-limit and circuit state per provider and model,
  \<^verbatim>\<open>crates/clanker-router/src/db/rate_limits.rs\<close>. A point in time is a number of nanoseconds, and each
  operation reads the clock once (an argument). Adding seconds to a point in time is chrono's
  operation, a parameter \<open>plus_seconds\<close> whose \<^term>\<open>None\<close> is its panic on overflow. The redb table is
  a map from keys to states; its transactions and the JSON encoding of the values are not modelled.
\<close>

type_synonym datetime = int

datatype circuit_state = Closed | Open | HalfOpen

record rate_limit_state =
  provider :: string
  model :: string
  circuit :: circuit_state
  last_error_at :: "datetime option"
  last_error_status :: "u16 option"
  consecutive_errors :: u32
  cooldown_until :: "datetime option"
  retry_after_secs :: "u64 option"
  rpm_count :: u32
  tpm_count :: u64
  window_start :: "datetime option"
  updated_at :: datetime

definition state_new :: "datetime \<Rightarrow> string \<Rightarrow> string \<Rightarrow> rate_limit_state" where
  "state_new now p m = \<lparr>provider = p, model = m, circuit = Closed, last_error_at = None,
     last_error_status = None, consecutive_errors = 0, cooldown_until = None, retry_after_secs = None,
     rpm_count = 0, tpm_count = 0, window_start = None, updated_at = now\<rparr>"

definition is_cooling_down :: "datetime \<Rightarrow> rate_limit_state \<Rightarrow> bool" where
  "is_cooling_down now s = (case cooldown_until s of None \<Rightarrow> False | Some until \<Rightarrow> now < until)"

definition effective_circuit :: "datetime \<Rightarrow> rate_limit_state \<Rightarrow> circuit_state" where
  "effective_circuit now s =
     (if circuit s = Open \<and> \<not> is_cooling_down now s then HalfOpen else circuit s)"

definition is_healthy :: "datetime \<Rightarrow> rate_limit_state \<Rightarrow> bool" where
  "is_healthy now s = (case effective_circuit now s of Closed \<Rightarrow> True | HalfOpen \<Rightarrow> True | Open \<Rightarrow> False)"

text \<open>\<^verbatim>\<open>num_seconds\<close> of a difference truncates towards zero.\<close>

definition num_seconds :: "int \<Rightarrow> int" where
  "num_seconds d = (if 0 \<le> d then d div 1000000000 else - ((- d) div 1000000000))"

definition cooldown_remaining_secs :: "datetime \<Rightarrow> rate_limit_state \<Rightarrow> int" where
  "cooldown_remaining_secs now s =
     (case cooldown_until s of None \<Rightarrow> 0 | Some until \<Rightarrow> max (num_seconds (until - now)) 0)"

definition bump_window :: "datetime \<Rightarrow> u64 \<Rightarrow> rate_limit_state \<Rightarrow> rate_limit_state" where
  "bump_window now tokens s =
     (let window = (case window_start s of None \<Rightarrow> now | Some w \<Rightarrow> w)
      in if num_seconds (now - window) \<ge> 60
         then s\<lparr>rpm_count := 1, tpm_count := tokens, window_start := Some now\<rparr>
         else s\<lparr>rpm_count := rpm_count s + 1, tpm_count := tpm_count s + tokens\<rparr>)"

definition record_success :: "datetime \<Rightarrow> u64 \<Rightarrow> rate_limit_state \<Rightarrow> rate_limit_state" where
  "record_success now tokens s =
     (bump_window now tokens (s\<lparr>circuit := Closed, consecutive_errors := 0, cooldown_until := None,
        last_error_at := None, last_error_status := None, retry_after_secs := None\<rparr>))\<lparr>updated_at := now\<rparr>"

definition cooldown_secs :: "u64 option \<Rightarrow> u32 \<Rightarrow> int" where
  "cooldown_secs retry_after errors = (case retry_after of
     Some ra \<Rightarrow> sint ra
   | None \<Rightarrow> min (2 ^ min (unat errors) 8) 300)"

definition record_error ::
  "(datetime \<Rightarrow> int \<Rightarrow> datetime option) \<Rightarrow> datetime \<Rightarrow> u16 \<Rightarrow> u64 option \<Rightarrow> rate_limit_state \<Rightarrow> rate_limit_state option" where
  "record_error plus_seconds now status retry_after s =
     (let s = s\<lparr>last_error_at := Some now, last_error_status := Some status,
            consecutive_errors := consecutive_errors s + 1, retry_after_secs := retry_after,
            circuit := Open, updated_at := now\<rparr>
      in case plus_seconds now (cooldown_secs retry_after (consecutive_errors s)) of
           None \<Rightarrow> None
         | Some until \<Rightarrow> Some (s\<lparr>cooldown_until := Some until\<rparr>))"

section \<open>The store\<close>

type_synonym rate_table = "string \<rightharpoonup> rate_limit_state"

definition state_key :: "string \<Rightarrow> string \<Rightarrow> string" where
  "state_key p m = p @ '':'' @ m"

definition store_get :: "rate_table \<Rightarrow> string \<Rightarrow> string \<Rightarrow> rate_limit_state option" where
  "store_get db p m = db (state_key p m)"

definition get_or_default :: "datetime \<Rightarrow> rate_table \<Rightarrow> string \<Rightarrow> string \<Rightarrow> rate_limit_state" where
  "get_or_default now db p m = (case store_get db p m of Some s \<Rightarrow> s | None \<Rightarrow> state_new now p m)"

definition store_save :: "rate_limit_state \<Rightarrow> rate_table \<Rightarrow> rate_table" where
  "store_save s db = db(state_key (provider s) (model s) \<mapsto> s)"

definition store_record_success :: "datetime \<Rightarrow> string \<Rightarrow> string \<Rightarrow> u64 \<Rightarrow> rate_table \<Rightarrow> rate_table" where
  "store_record_success now p m tokens db = store_save (record_success now tokens (get_or_default now db p m)) db"

definition store_record_error ::
  "(datetime \<Rightarrow> int \<Rightarrow> datetime option) \<Rightarrow> datetime \<Rightarrow> string \<Rightarrow> string \<Rightarrow> u16 \<Rightarrow> u64 option \<Rightarrow> rate_table \<Rightarrow> rate_table option" where
  "store_record_error plus_seconds now p m status retry_after db =
     map_option (\<lambda>s. store_save s db) (record_error plus_seconds now status retry_after (get_or_default now db p m))"

definition store_is_healthy :: "datetime \<Rightarrow> rate_table \<Rightarrow> string \<Rightarrow> string \<Rightarrow> bool" where
  "store_is_healthy now db p m = (case store_get db p m of Some s \<Rightarrow> is_healthy now s | None \<Rightarrow> True)"

definition store_clear :: "rate_table \<Rightarrow> rate_table" where
  "store_clear db = Map.empty"

section \<open>The circuit\<close>

datatype rate_event = Success datetime u64 | Failure datetime u16 "u64 option"

text \<open>A history of reports on one state; a panic of the clock arithmetic ends it.\<close>

fun replay_events ::
  "(datetime \<Rightarrow> int \<Rightarrow> datetime option) \<Rightarrow> rate_limit_state \<Rightarrow> rate_event list \<Rightarrow> rate_limit_state option" where
  "replay_events pls s [] = Some s"
| "replay_events pls s (Success now tokens # es) = replay_events pls (record_success now tokens s) es"
| "replay_events pls s (Failure now status ra # es) =
     (case record_error pls now status ra s of None \<Rightarrow> None | Some s' \<Rightarrow> replay_events pls s' es)"

definition circuit_inv :: "rate_limit_state \<Rightarrow> bool" where
  "circuit_inv s \<longleftrightarrow> circuit s \<noteq> HalfOpen \<and> (circuit s = Open \<longleftrightarrow> cooldown_until s \<noteq> None) \<and>
     (circuit s = Open \<longleftrightarrow> last_error_at s \<noteq> None) \<and> (circuit s = Open \<longleftrightarrow> last_error_status s \<noteq> None)"

lemma bump_window_simps [simp]:
  "circuit (bump_window now t s) = circuit s"
  "cooldown_until (bump_window now t s) = cooldown_until s"
  "last_error_at (bump_window now t s) = last_error_at s"
  "last_error_status (bump_window now t s) = last_error_status s"
  by (simp_all add: bump_window_def Let_def)

lemma record_success_inv: "circuit_inv (record_success now t s)"
  by (simp add: circuit_inv_def record_success_def)

lemma record_error_inv: "record_error pls now status ra s = Some s' \<Longrightarrow> circuit_inv s'"
  by (auto simp: circuit_inv_def record_error_def Let_def split: option.splits)

lemma replay_inv: "replay_events pls s es = Some s' \<Longrightarrow> circuit_inv s \<Longrightarrow> circuit_inv s'"
  by (induction pls s es rule: replay_events.induct)
     (auto split: option.splits dest: record_error_inv intro: record_success_inv)

lemma circuit_inv_new: "circuit_inv (state_new now p m)"
  by (simp add: circuit_inv_def state_new_def)

text \<open>
  When a provider is skipped: after a failure without \<open>Retry-After\<close> the pair is unhealthy for
  exactly \<open>2^n\<close> seconds, where \<open>n\<close> counts the consecutive failures, capped at 8; it depends on
  nothing else, so a failed half-open probe waits no longer than any other failure. A success makes
  it healthy at once, and the stored circuit is never half-open.
\<close>

lemma circuit_cooldown:
  assumes "replay_events pls (state_new t0 p m) es = Some s"
    and "\<And>now n. 0 \<le> n \<Longrightarrow> n \<le> 300 \<Longrightarrow> pls now n = Some (now + n * 1000000000)"
  shows "circuit_inv s \<and> is_healthy t (record_success now tokens s) \<and>
    (\<exists>s'. record_error pls now status None s = Some s' \<and>
       (is_healthy t s' \<longleftrightarrow> t \<ge> now + 2 ^ min (unat (consecutive_errors s + 1)) 8 * 1000000000))"
proof -
  have pow: "min (2 ^ min n 8) 300 = (2 ^ min n 8 :: int)" "(2 :: int) ^ min n 8 \<le> 300" for n
  proof -
    have "(2 :: int) ^ min n 8 \<le> 2 ^ 8" by (rule power_increasing) auto
    then show "min (2 ^ min n 8) 300 = (2 ^ min n 8 :: int)" "(2 :: int) ^ min n 8 \<le> 300" by simp_all
  qed
  have "circuit_inv s" using replay_inv [OF assms(1) circuit_inv_new] .
  moreover have "is_healthy t (record_success now tokens s)"
    by (simp add: is_healthy_def effective_circuit_def record_success_def)
  moreover have "\<exists>s'. record_error pls now status None s = Some s' \<and>
      (is_healthy t s' \<longleftrightarrow> t \<ge> now + 2 ^ min (unat (consecutive_errors s + 1)) 8 * 1000000000)"
    using assms(2) [of "2 ^ min (unat (consecutive_errors s + 1)) 8" now] pow
    by (auto simp: record_error_def Let_def cooldown_secs_def is_healthy_def effective_circuit_def is_cooling_down_def)
  ultimately show ?thesis by blast
qed

section \<open>The request window\<close>

definition successes :: "rate_event list \<Rightarrow> rate_event list" where
  "successes es = filter (\<lambda>e. case e of Success _ _ \<Rightarrow> True | _ \<Rightarrow> False) es"

lemma replay_window:
  "replay_events pls s es = Some s' \<Longrightarrow> window_start s = None \<Longrightarrow>
   window_start s' = None \<and> rpm_count s' = rpm_count s + of_nat (length (successes es))"
proof (induction pls s es rule: replay_events.induct)
  case (2 pls s now tokens es)
  have "window_start (record_success now tokens s) = None"
      "rpm_count (record_success now tokens s) = rpm_count s + 1"
    using 2(3) by (simp_all add: record_success_def bump_window_def num_seconds_def)
  with 2 show ?case by (simp add: successes_def)
next
  case (3 pls s now status ra es)
  then obtain s1 where s1: "record_error pls now status ra s = Some s1" "replay_events pls s1 es = Some s'"
    by (auto split: option.splits)
  then have "window_start s1 = window_start s" "rpm_count s1 = rpm_count s"
    by (auto simp: record_error_def Let_def split: option.splits)
  with 3 s1 show ?case by (simp add: successes_def)
qed (simp add: successes_def)

text \<open>
  The per-minute window of a fresh state never starts: however much time passes between
  the reports, \<open>window_start\<close> stays empty, and the request count of the current minute is the number
  of all successes since the state was created (modulo the 32-bit counter).
\<close>

lemma window_never_starts:
  assumes "replay_events pls (state_new t0 p m) es = Some s"
  shows "window_start s = None \<and> rpm_count s = of_nat (length (successes es))"
  using replay_window [OF assms] by (simp add: state_new_def)

section \<open>Keys\<close>

lemma state_key_inj:
  assumes "CHR '':'' \<notin> set p" "CHR '':'' \<notin> set q" "state_key p m = state_key q n"
  shows "p = q \<and> m = n"
  using assms
proof (induction p arbitrary: q)
  case Nil
  then show ?case by (cases q) (auto simp: state_key_def)
next
  case (Cons c p)
  then show ?case by (cases q) (auto simp: state_key_def)
qed

text \<open>
  The store keeps pairs apart: for provider names without a colon, recording a success or a
  failure for one pair changes the entry of no other pair, and the recorded pair is healthy right
  after a success.
\<close>

lemma store_pairs_independent:
  assumes "CHR '':'' \<notin> set p" "CHR '':'' \<notin> set q" "(p, m) \<noteq> (q, n)"
    and "\<forall>s. store_get db p m = Some s \<longrightarrow> provider s = p \<and> model s = m"
  shows "store_get (store_record_success now p m tokens db) q n = store_get db q n \<and>
    (\<forall>db'. store_record_error pls now p m status ra db = Some db' \<longrightarrow> store_get db' q n = store_get db q n) \<and>
    store_is_healthy t (store_record_success now p m tokens db) p m"
proof -
  have ne: "state_key q n \<noteq> state_key p m" using state_key_inj [OF assms(2,1)] assms(3) by auto
  let ?s = "get_or_default now db p m"
  have s: "provider ?s = p" "model ?s = m"
    using assms(4) by (auto simp: get_or_default_def state_new_def split: option.splits)
  have succ: "provider (record_success now tokens ?s) = p" "model (record_success now tokens ?s) = m"
    using s by (simp_all add: record_success_def bump_window_def Let_def)
  have err: "provider s' = p \<and> model s' = m" if "record_error pls now status ra ?s = Some s'" for s'
    using that s by (auto simp: record_error_def Let_def split: option.splits)
  show ?thesis
    using ne succ err
    by (auto simp: store_record_success_def store_record_error_def store_save_def store_get_def store_is_healthy_def
        is_healthy_def effective_circuit_def) (auto simp: record_success_def)
qed

end
