(* ===== verification/Session_Tree.thy ===== *)
theory Session_Tree
  imports Message
begin

text \<open>
  The message tree of a session, \<^verbatim>\<open>crates/clankers-session/src/tree\<close> over the entries of \<^verbatim>\<open>entry.rs\<close>:
  the index, the walk from a message to its root, the leaves and the comparison of branches. The
  agent's messages, time stamps and JSON values inside entries are only carried, so they are type
  parameters. The bounded loops are recursion with the source's bound as fuel. In a debug build the
  depth limits are assertions; the model is the release build, which stops there.
\<close>

section \<open>Entries and the tree\<close>

record ('m, 't) message_entry =
  me_id :: message_id
  parent_id :: "message_id option"
  message :: 'm
  timestamp :: 't

record 't header_entry =
  he_session_id :: string
  he_created_at :: 't
  he_cwd :: string
  he_model :: string
  he_version :: string
  he_agent :: "string option"
  he_parent_session_id :: "string option"
  he_worktree_path :: "string option"
  he_worktree_branch :: "string option"

record 't compaction_entry =
  ce_id :: message_id
  ce_compacted_range :: "message_id list"
  ce_summary :: string
  ce_tokens_before :: nat
  ce_tokens_after :: nat
  ce_timestamp :: 't

record 't branch_entry =
  be_id :: message_id
  be_from_message_id :: message_id
  be_reason :: string
  be_timestamp :: 't

record ('j, 't) custom_entry =
  cu_id :: message_id
  cu_kind :: string
  cu_data :: 'j
  cu_timestamp :: 't

record 't label_entry =
  le_id :: message_id
  le_target_message_id :: message_id
  le_label :: string
  le_timestamp :: 't

record 't model_change_entry =
  mc_id :: message_id
  mc_from_model :: string
  mc_to_model :: string
  mc_reason :: string
  mc_timestamp :: 't

record 't resume_entry =
  re_id :: message_id
  re_resumed_at :: 't
  re_from_entry_id :: message_id

datatype ('m, 'j, 't) session_entry =
    Header "'t header_entry"
  | Message "('m, 't) message_entry"
  | Compaction "'t compaction_entry"
  | Branch "'t branch_entry"
  | Custom "('j, 't) custom_entry"
  | Label "'t label_entry"
  | ModelChange "'t model_change_entry"
  | Resume "'t resume_entry"

record ('m, 'j, 't) session_tree =
  entries :: "('m, 'j, 't) session_entry list"
  children :: "message_id option \<Rightarrow> nat list option"
  index :: "message_id \<rightharpoonup> nat"

fun build_loop ::
  "nat \<Rightarrow> ('m, 'j, 't) session_entry list \<Rightarrow> (message_id option \<Rightarrow> nat list option) \<times> (message_id \<rightharpoonup> nat) \<Rightarrow>
   (message_id option \<Rightarrow> nat list option) \<times> (message_id \<rightharpoonup> nat)" where
  "build_loop i [] maps = maps"
| "build_loop i (e # es) (ch, ix) = (case e of
     Message msg \<Rightarrow> build_loop (Suc i) es
       (ch(parent_id msg \<mapsto> (case ch (parent_id msg) of None \<Rightarrow> [] | Some is \<Rightarrow> is) @ [i]),
        ix(me_id msg \<mapsto> i))
   | _ \<Rightarrow> build_loop (Suc i) es (ch, ix))"

definition build :: "('m, 'j, 't) session_entry list \<Rightarrow> ('m, 'j, 't) session_tree" where
  "build es = (let (ch, ix) = build_loop 0 es (Map.empty, Map.empty)
     in \<lparr>entries = es, children = ch, index = ix\<rparr>)"

fun as_message :: "('m, 'j, 't) session_entry \<Rightarrow> ('m, 't) message_entry option" where
  "as_message (Message msg) = Some msg"
| "as_message _ = None"

text \<open>Indexing past the end would panic; the index map holds only positions of entries
  (\<open>find_message_in_range\<close> below).\<close>

definition find_message :: "('m, 'j, 't) session_tree \<Rightarrow> message_id \<Rightarrow> ('m, 't) message_entry option" where
  "find_message tree i = (case index tree i of
     None \<Rightarrow> None
   | Some k \<Rightarrow> if k < length (entries tree) then as_message (entries tree ! k) else None)"

definition message_count :: "('m, 'j, 't) session_tree \<Rightarrow> nat" where
  "message_count tree = card (dom (index tree))"

section \<open>Navigation\<close>

definition MAX_TRAVERSAL_DEPTH :: nat where "MAX_TRAVERSAL_DEPTH = 50000"

text \<open>The loop of \<^verbatim>\<open>walk_branch\<close>, with the steps that are left; the path is reversed at the end.\<close>

fun walk_up :: "('m, 'j, 't) session_tree \<Rightarrow> nat \<Rightarrow> message_id option \<Rightarrow> ('m, 't) message_entry list" where
  "walk_up tree steps None = []"
| "walk_up tree 0 (Some i) = []"
| "walk_up tree (Suc steps) (Some i) = (case find_message tree i of
     None \<Rightarrow> []
   | Some entry \<Rightarrow> entry # walk_up tree steps (parent_id entry))"

definition walk_branch :: "('m, 'j, 't) session_tree \<Rightarrow> message_id \<Rightarrow> ('m, 't) message_entry list" where
  "walk_branch tree leaf = rev (walk_up tree MAX_TRAVERSAL_DEPTH (Some leaf))"

definition latest_message :: "('m, 'j, 't) session_tree \<Rightarrow> ('m, 't) message_entry option" where
  "latest_message tree = (case List.map_filter as_message (rev (entries tree)) of [] \<Rightarrow> None | m # _ \<Rightarrow> Some m)"

definition get_children :: "('m, 'j, 't) session_tree \<Rightarrow> message_id option \<Rightarrow> ('m, 't) message_entry list" where
  "get_children tree p = (case children tree p of
     None \<Rightarrow> []
   | Some is \<Rightarrow> List.map_filter (\<lambda>k. if k < length (entries tree) then as_message (entries tree ! k) else None) is)"

fun latest_leaf_loop ::
  "('m, 'j, 't) session_tree \<Rightarrow> nat \<Rightarrow> message_id option \<Rightarrow> ('m, 't) message_entry option \<Rightarrow> ('m, 't) message_entry option" where
  "latest_leaf_loop tree 0 current last_message = last_message"
| "latest_leaf_loop tree (Suc depth) current last_message =
     (let cs = get_children tree current
      in if cs = [] then last_message
         else latest_leaf_loop tree depth (Some (me_id (last cs))) (Some (last cs)))"

definition find_latest_leaf :: "('m, 'j, 't) session_tree \<Rightarrow> message_id option \<Rightarrow> ('m, 't) message_entry option" where
  "find_latest_leaf tree start = latest_leaf_loop tree MAX_TRAVERSAL_DEPTH start
     (case start of None \<Rightarrow> None | Some i \<Rightarrow> find_message tree i)"

text \<open>The depth-first search: the top of the stack is the head of the list. Its loop has no bound in
  the source; \<^term>\<open>None\<close> is running out of the steps given here.\<close>

fun leaves_loop ::
  "('m, 'j, 't) session_tree \<Rightarrow> nat \<Rightarrow> ('m, 't) message_entry list \<Rightarrow> message_id set \<Rightarrow> ('m, 't) message_entry list \<Rightarrow>
   ('m, 't) message_entry list option" where
  "leaves_loop tree steps [] visited leaves = Some leaves"
| "leaves_loop tree 0 (node # stack) visited leaves = None"
| "leaves_loop tree (Suc steps) (node # stack) visited leaves =
     (if me_id node \<in> visited then leaves_loop tree steps stack visited leaves
      else
        let visited = insert (me_id node) visited;
            cs = get_children tree (Some (me_id node))
        in if cs = [] then leaves_loop tree steps stack visited (leaves @ [node])
           else leaves_loop tree steps (filter (\<lambda>c. me_id c \<notin> visited) cs @ stack) visited leaves)"

definition find_all_leaves :: "('m, 'j, 't) session_tree \<Rightarrow> ('m, 't) message_entry list option" where
  "find_all_leaves tree = leaves_loop tree (length (entries tree)) (get_children tree None) {} []"

section \<open>Queries\<close>

definition is_branch_point :: "('m, 'j, 't) session_tree \<Rightarrow> message_id \<Rightarrow> bool" where
  "is_branch_point tree i \<longleftrightarrow> length (get_children tree (Some i)) > 1"

fun common_loop ::
  "('m, 't) message_entry list \<Rightarrow> ('m, 't) message_entry list \<Rightarrow> ('m, 't) message_entry option \<Rightarrow> ('m, 't) message_entry option" where
  "common_loop (a # as) (b # bs) last_common =
     (if me_id a = me_id b then common_loop as bs (Some a) else last_common)"
| "common_loop _ _ last_common = last_common"

definition find_divergence_point ::
  "('m, 'j, 't) session_tree \<Rightarrow> message_id \<Rightarrow> message_id \<Rightarrow> ('m, 't) message_entry option" where
  "find_divergence_point tree leaf_a leaf_b =
     (let branch_a = walk_branch tree leaf_a; branch_b = walk_branch tree leaf_b
      in if branch_a = [] \<or> branch_b = [] then None else common_loop branch_a branch_b None)"

definition find_unique_messages ::
  "('m, 'j, 't) session_tree \<Rightarrow> message_id \<Rightarrow> message_id \<Rightarrow> ('m, 't) message_entry list" where
  "find_unique_messages tree source_leaf target_leaf =
     (let source_path = walk_branch tree source_leaf; target_path = walk_branch tree target_leaf
      in if source_path = [] then []
         else let target_ids = set (map me_id target_path)
              in filter (\<lambda>m. me_id m \<notin> target_ids) source_path)"

fun divergence_index :: "('m, 'j, 't) session_tree \<Rightarrow> nat \<Rightarrow> ('m, 't) message_entry list \<Rightarrow> nat" where
  "divergence_index tree i [] = 0"
| "divergence_index tree i (msg # msgs) = (case parent_id msg of
     Some p \<Rightarrow> if is_branch_point tree p then i else divergence_index tree (Suc i) msgs
   | None \<Rightarrow> divergence_index tree (Suc i) msgs)"

definition find_branch_messages ::
  "('m, 'j, 't) session_tree \<Rightarrow> message_id \<Rightarrow> ('m, 't) message_entry list" where
  "find_branch_messages tree leaf =
     (let branch = walk_branch tree leaf
      in if branch = [] then [] else drop (divergence_index tree 0 branch) branch)"

section \<open>What the index holds\<close>

lemma find_append: "find P (xs @ ys) = (case find P xs of None \<Rightarrow> find P ys | Some x \<Rightarrow> Some x)"
  by (induction xs) auto

lemma map_filter_append: "List.map_filter f (xs @ ys) = List.map_filter f xs @ List.map_filter f ys"
  by (simp add: List.map_filter_def)

lemma map_filter_rev: "List.map_filter f (rev xs) = rev (List.map_filter f xs)"
  by (simp add: List.map_filter_def rev_filter rev_map)

abbreviation messages_of :: "('m, 'j, 't) session_entry list \<Rightarrow> ('m, 't) message_entry list" where
  "messages_of es \<equiv> List.map_filter as_message es"

definition entry_matches :: "(('m, 't) message_entry \<Rightarrow> bool) \<Rightarrow> ('m, 'j, 't) session_entry \<Rightarrow> bool" where
  "entry_matches P e = (case as_message e of None \<Rightarrow> False | Some m \<Rightarrow> P m)"

lemma build_loop_children:
  "build_loop i es (ch, ix) = (ch', ix') \<Longrightarrow>
   (case ch' p of None \<Rightarrow> [] | Some is \<Rightarrow> is) =
     (case ch p of None \<Rightarrow> [] | Some is \<Rightarrow> is) @
     map fst (filter (\<lambda>(k, e). entry_matches (\<lambda>m. parent_id m = p) e) (List.enumerate i es))"
proof (induction es arbitrary: i ch ix)
  case (Cons e es)
  show ?case
  proof (cases "as_message e")
    case None
    with Cons.prems have "build_loop (Suc i) es (ch, ix) = (ch', ix')" by (cases e) auto
    from Cons.IH [OF this] None show ?thesis by (simp add: entry_matches_def)
  next
    case (Some m)
    then have e: "e = Message m" by (cases e) auto
    with Cons.prems have "build_loop (Suc i) es
        (ch(parent_id m \<mapsto> (case ch (parent_id m) of None \<Rightarrow> [] | Some is \<Rightarrow> is) @ [i]), ix(me_id m \<mapsto> i)) = (ch', ix')"
      by simp
    from Cons.IH [OF this] e show ?thesis by (auto simp: entry_matches_def)
  qed
qed simp

lemma build_loop_index:
  "build_loop i es (ch, ix) = (ch', ix') \<Longrightarrow>
   ix' j = (case find (\<lambda>(k, e). entry_matches (\<lambda>m. me_id m = j) e) (rev (List.enumerate i es)) of
     Some (k, e) \<Rightarrow> Some k | None \<Rightarrow> ix j)"
proof (induction es arbitrary: i ch ix)
  case (Cons e es)
  show ?case
  proof (cases "as_message e")
    case None
    with Cons.prems have "build_loop (Suc i) es (ch, ix) = (ch', ix')" by (cases e) auto
    from Cons.IH [OF this] None show ?thesis
      by (auto simp: entry_matches_def find_append split: option.splits)
  next
    case (Some m)
    then have e: "e = Message m" by (cases e) auto
    with Cons.prems have "build_loop (Suc i) es
        (ch(parent_id m \<mapsto> (case ch (parent_id m) of None \<Rightarrow> [] | Some is \<Rightarrow> is) @ [i]), ix(me_id m \<mapsto> i)) = (ch', ix')"
      by simp
    from Cons.IH [OF this] e show ?thesis
      by (auto simp: entry_matches_def find_append split: option.splits)
  qed
qed simp

lemma map_filter_Cons:
  "List.map_filter f (x # xs) = (case f x of None \<Rightarrow> List.map_filter f xs | Some y \<Rightarrow> y # List.map_filter f xs)"
  by (simp add: List.map_filter_simps)

lemma children_positions:
  "(\<forall>(k, e) \<in> set ps. k < length es \<and> es ! k = e) \<Longrightarrow>
   List.map_filter (\<lambda>k. if k < length es then as_message (es ! k) else None)
     (map fst (filter (\<lambda>(k, e). entry_matches P e) ps)) =
   filter P (List.map_filter (\<lambda>(k, e). as_message e) ps)"
proof (induction ps)
  case (Cons q ps)
  obtain k e where q: "q = (k, e)" by fastforce
  with Cons show ?case
    by (cases "as_message e") (auto simp: entry_matches_def map_filter_Cons)
qed (simp add: List.map_filter_simps)

lemma map_filter_enumerate: "List.map_filter (\<lambda>(k, e). as_message e) (List.enumerate i xs) = messages_of xs"
  by (induction xs arbitrary: i) (simp_all add: List.map_filter_simps(2) map_filter_Cons split: option.splits)

lemma enumerate_positions: "\<forall>(k, e) \<in> set (List.enumerate 0 es). k < length es \<and> es ! k = e"
  by (auto simp: in_set_enumerate_eq)

lemma get_children_build: "get_children (build es) p = filter (\<lambda>m. parent_id m = p) (messages_of es)"
proof -
  obtain ch ix where b: "build_loop 0 es (Map.empty, Map.empty) = (ch, ix)" by fastforce
  have c: "(case ch p of None \<Rightarrow> [] | Some is \<Rightarrow> is) =
      map fst (filter (\<lambda>(k, e). entry_matches (\<lambda>m. parent_id m = p) e) (List.enumerate 0 es))"
    using build_loop_children [OF b, of p] by simp
  have "get_children (build es) p = List.map_filter
      (\<lambda>k. if k < length es then as_message (es ! k) else None) (case ch p of None \<Rightarrow> [] | Some is \<Rightarrow> is)"
    by (cases "ch p") (simp_all add: get_children_def build_def b List.map_filter_simps(2) cong: if_cong)
  then show ?thesis
    unfolding c children_positions [OF enumerate_positions] map_filter_enumerate .
qed

lemma find_position:
  "(\<forall>(k, e) \<in> set ps. k < length es \<and> es ! k = e) \<Longrightarrow>
   (case find (\<lambda>(k, e). entry_matches P e) ps of
      Some (k, e) \<Rightarrow> if k < length es then as_message (es ! k) else None
    | None \<Rightarrow> None) = find P (List.map_filter (\<lambda>(k, e). as_message e) ps)"
proof (induction ps)
  case (Cons q ps)
  obtain k e where q: "q = (k, e)" by fastforce
  with Cons show ?case
    by (cases "as_message e") (auto simp: entry_matches_def List.map_filter_simps)
qed (simp add: List.map_filter_simps)

lemma find_message_build: "find_message (build es) j = find (\<lambda>m. me_id m = j) (rev (messages_of es))"
proof -
  obtain ch ix where b: "build_loop 0 es (Map.empty, Map.empty) = (ch, ix)" by fastforce
  have mem: "\<forall>(k, e) \<in> set (rev (List.enumerate 0 es)). k < length es \<and> es ! k = e"
    by (auto simp: in_set_enumerate_eq)
  have "find_message (build es) j =
      (case find (\<lambda>(k, e). entry_matches (\<lambda>m. me_id m = j) e) (rev (List.enumerate 0 es)) of
         Some (k, e) \<Rightarrow> if k < length es then as_message (es ! k) else None
       | None \<Rightarrow> None)"
    using build_loop_index [OF b, of j]
    by (auto simp: find_message_def build_def b split: option.splits)
  also have "\<dots> = find (\<lambda>m. me_id m = j) (rev (messages_of es))"
    unfolding find_position [OF mem] map_filter_rev map_filter_enumerate ..
  finally show ?thesis .
qed

lemma find_SomeD: "find P xs = Some x \<Longrightarrow> x \<in> set xs \<and> P x"
  by (induction xs) (auto split: if_splits)

lemma find_message_id: "find_message (build es) j = Some m \<Longrightarrow> me_id m = j \<and> m \<in> set (messages_of es)"
  unfolding find_message_build by (drule find_SomeD) simp

lemma find_message_in_range: "index (build es) j = Some k \<Longrightarrow> k < length es"
proof -
  assume k: "index (build es) j = Some k"
  obtain ch ix where b: "build_loop 0 es (Map.empty, Map.empty) = (ch, ix)" by fastforce
  have "ix j = Some k" using k b by (simp add: build_def)
  with build_loop_index [OF b, of j] obtain e where
    "find (\<lambda>(k, e). entry_matches (\<lambda>m. me_id m = j) e) (rev (List.enumerate 0 es)) = Some (k, e)"
    by (auto split: option.splits)
  from find_SomeD [OF this] show ?thesis by (simp add: in_set_enumerate_eq)
qed

section \<open>Walking a branch\<close>

text \<open>Each message of the path is the parent of the next.\<close>

fun parent_path :: "('m, 't) message_entry list \<Rightarrow> bool" where
  "parent_path (a # b # ms) \<longleftrightarrow> parent_id b = Some (me_id a) \<and> parent_path (b # ms)"
| "parent_path _ \<longleftrightarrow> True"

lemma parent_path_snoc:
  "parent_path (ms @ [a, b]) \<longleftrightarrow> parent_path (ms @ [a]) \<and> parent_id b = Some (me_id a)"
  by (induction ms rule: parent_path.induct) auto

lemma walk_up_length: "length (walk_up tree n i) \<le> n"
  by (induction tree n i rule: walk_up.induct) (auto split: option.splits)

lemma walk_up_hd:
  "walk_up (build es) n (Some i) \<noteq> [] \<Longrightarrow> me_id (hd (walk_up (build es) n (Some i))) = i"
  by (cases n) (auto split: option.splits dest: find_message_id)

lemma walk_up_path: "parent_path (rev (walk_up (build es) n i))"
proof (induction "build es" n i rule: walk_up.induct)
  case (3 n i)
  show ?case
  proof (cases "find_message (build es) i")
    case (Some e)
    show ?thesis
    proof (cases "walk_up (build es) n (parent_id e)")
      case (Cons a as)
      then obtain p where "parent_id e = Some p" by (cases "parent_id e") auto
      with walk_up_hd [of es n p] Cons have "parent_id e = Some (me_id a)" by simp
      with 3 [OF Some] Cons Some show ?thesis by (simp add: parent_path_snoc)
    qed (simp add: Some)
  qed simp
qed auto

lemma walk_up_root:
  "length (walk_up (build es) n (Some i)) < n \<Longrightarrow> walk_up (build es) n (Some i) \<noteq> [] \<Longrightarrow>
   (case parent_id (last (walk_up (build es) n (Some i))) of None \<Rightarrow> True | Some p \<Rightarrow> find_message (build es) p = None)"
proof (induction n arbitrary: i)
  case (Suc n)
  then obtain e where e: "find_message (build es) i = Some e" by (cases "find_message (build es) i") auto
  show ?case
  proof (cases "parent_id e")
    case (Some p)
    show ?thesis
    proof (cases "walk_up (build es) n (Some p) = []")
      case True
      with Suc.prems(1) Some e have "n \<noteq> 0" by (cases n) auto
      with True Some e show ?thesis by (cases n) (auto split: option.splits)
    next
      case False
      with Suc.IH [of p] Suc.prems Some e show ?thesis by simp
    qed
  qed (simp add: e)
qed simp

lemma walk_up_members: "set (walk_up (build es) n i) \<subseteq> set (messages_of es)"
proof (induction n arbitrary: i)
  case (Suc n)
  show ?case
  proof (cases i)
    case (Some j)
    show ?thesis
    proof (cases "find_message (build es) j")
      case (Some e)
      with Suc find_message_id [OF Some] show ?thesis using \<open>i = Some j\<close> by simp
    qed (simp add: Some)
  qed simp
next
  case 0
  show ?case by (cases i) simp_all
qed

text \<open>
  Walking a branch gives a path of the tree: it ends in the requested message, each message
  is the recorded parent of the next one, it is empty only for an unknown id, it never exceeds the
  traversal limit, and below the limit it starts at a root (a message without parent, or whose
  parent is not in the session).
\<close>

lemma walk_branch_path:
  "let path = walk_branch (build es) i
   in (path = [] \<longleftrightarrow> find_message (build es) i = None) \<and>
      (path \<noteq> [] \<longrightarrow> find_message (build es) i = Some (last path) \<and>
        (length path < MAX_TRAVERSAL_DEPTH \<longrightarrow>
          (case parent_id (hd path) of None \<Rightarrow> True | Some p \<Rightarrow> find_message (build es) p = None))) \<and>
      parent_path path \<and> set path \<subseteq> set (messages_of es) \<and> length path \<le> MAX_TRAVERSAL_DEPTH"
proof -
  obtain k where n: "MAX_TRAVERSAL_DEPTH = Suc k" by (cases MAX_TRAVERSAL_DEPTH) (simp add: MAX_TRAVERSAL_DEPTH_def)
  let ?w = "walk_up (build es) MAX_TRAVERSAL_DEPTH (Some i)"
  have "?w = [] \<longleftrightarrow> find_message (build es) i = None"
    unfolding n by (simp split: option.splits)
  moreover have "?w \<noteq> [] \<longrightarrow> find_message (build es) i = Some (hd ?w)"
    unfolding n by (simp split: option.splits)
  moreover have "?w \<noteq> [] \<longrightarrow> length ?w < MAX_TRAVERSAL_DEPTH \<longrightarrow>
      (case parent_id (last ?w) of None \<Rightarrow> True | Some p \<Rightarrow> find_message (build es) p = None)"
    using walk_up_root [of es MAX_TRAVERSAL_DEPTH i] by blast
  ultimately show ?thesis
    using walk_up_path [of es MAX_TRAVERSAL_DEPTH "Some i"] walk_up_length [of "build es" MAX_TRAVERSAL_DEPTH "Some i"]
      walk_up_members [of es MAX_TRAVERSAL_DEPTH "Some i"]
    by (simp add: walk_branch_def Let_def last_rev hd_rev)
qed

section \<open>Comparing branches\<close>

text \<open>A walk that ends below the limit does not depend on it, and what lies above a message of a
  walk is the walk from that message.\<close>

lemma walk_up_more: "length (walk_up t n i) < n \<Longrightarrow> n \<le> m \<Longrightarrow> walk_up t m i = walk_up t n i"
proof (induction n arbitrary: m i)
  case (Suc n)
  then obtain k where m: "m = Suc k" "n \<le> k" by (cases m) auto
  show ?case
  proof (cases i)
    case (Some j)
    show ?thesis
    proof (cases "find_message t j")
      case (Some e)
      with Suc.prems(1) \<open>i = Some j\<close> have "length (walk_up t n (parent_id e)) < n" by simp
      from Suc.IH [OF this m(2)] Some \<open>i = Some j\<close> m(1) show ?thesis by simp
    qed (simp add: Some m(1))
  qed simp
qed simp

lemma walk_up_suffix:
  "walk_up (build es) n i = xs @ e # ys \<Longrightarrow> walk_up (build es) (n - length xs) (Some (me_id e)) = e # ys"
proof (induction xs arbitrary: n i)
  case Nil
  then obtain k j where "n = Suc k" "i = Some j" by (cases n; cases i) auto
  with Nil walk_up_hd [of es n j] show ?case by simp
next
  case (Cons x xs)
  then obtain k j where "n = Suc k" "i = Some j" by (cases n; cases i) auto
  with Cons show ?case by (auto split: option.splits)
qed

lemma complete_suffix:
  assumes "walk_up (build es) n i = xs @ e # ys" "length (walk_up (build es) n i) < n"
  shows "walk_up (build es) n (Some (me_id e)) = e # ys"
  using walk_up_suffix [OF assms(1)] walk_up_more [of "build es" "n - length xs" "Some (me_id e)" n] assms by simp

lemma same_id_same_prefix:
  assumes "walk_branch (build es) i = xs @ e # ys" "length (walk_branch (build es) i) < MAX_TRAVERSAL_DEPTH"
    and "walk_branch (build es) j = xs' @ e' # ys'" "length (walk_branch (build es) j) < MAX_TRAVERSAL_DEPTH"
    and "me_id e = me_id e'"
  shows "xs' = xs \<and> e' = e"
proof -
  have "walk_up (build es) MAX_TRAVERSAL_DEPTH (Some i) = rev ys @ e # rev xs"
    "walk_up (build es) MAX_TRAVERSAL_DEPTH (Some j) = rev ys' @ e' # rev xs'"
    using assms(1,3) by (simp_all add: walk_branch_def rev_swap)
  note u = this
  have "length (walk_up (build es) MAX_TRAVERSAL_DEPTH (Some i)) < MAX_TRAVERSAL_DEPTH"
    "length (walk_up (build es) MAX_TRAVERSAL_DEPTH (Some j)) < MAX_TRAVERSAL_DEPTH"
    using assms(2,4) by (simp_all add: walk_branch_def)
  from complete_suffix [OF u(1) this(1)] complete_suffix [OF u(2) this(2)]
  have "e # rev xs = e' # rev xs'" unfolding assms(5) by (rule trans [OF sym])
  then show ?thesis by simp
qed

lemma longest_common:
  "\<exists>c ra rb. a = c @ ra \<and> b = c @ rb \<and> (ra = [] \<or> rb = [] \<or> hd ra \<noteq> hd rb)"
proof (induction a arbitrary: b)
  case (Cons x a)
  show ?case
  proof (cases "b \<noteq> [] \<and> hd b = x")
    case True
    then obtain b' where "b = x # b'" by (cases b) auto
    with Cons [of b'] show ?thesis by (metis append_Cons)
  next
    case False
    then show ?thesis by (intro exI [of _ "[]"] exI [of _ "x # a"] exI [of _ b]) auto
  qed
qed auto

lemma common_loop_append:
  "ra = [] \<or> rb = [] \<or> me_id (hd ra) \<noteq> me_id (hd rb) \<Longrightarrow>
   common_loop (c @ ra) (c @ rb) l = (if c = [] then l else Some (last c))"
  by (induction c arbitrary: l) (cases ra; cases rb; auto)+

lemma walk_branch_split:
  assumes "length (walk_branch (build es) i) < MAX_TRAVERSAL_DEPTH"
    and "length (walk_branch (build es) j) < MAX_TRAVERSAL_DEPTH"
    and a: "walk_branch (build es) i = c @ ra" and b: "walk_branch (build es) j = c @ rb"
    and stop: "ra = [] \<or> rb = [] \<or> hd ra \<noteq> hd rb"
  shows "set (map me_id ra) \<inter> set (map me_id (c @ rb)) = {}"
proof (rule ccontr)
  assume "\<not> ?thesis"
  then obtain x y where x: "x \<in> set ra" and y: "y \<in> set (c @ rb)" and id: "me_id x = me_id y" by auto
  obtain xs ys where xs: "ra = xs @ x # ys" using x by (meson split_list)
  obtain xs' ys' where ys: "c @ rb = xs' @ y # ys'" using y by (meson split_list)
  have "xs' = c @ xs \<and> y = x"
    by (rule same_id_same_prefix [OF _ assms(1) _ assms(2) id, of "c @ xs" ys xs' ys']) (simp_all add: a b xs ys)
  with ys have "rb = xs @ x # ys'" by simp
  with xs stop show False by (cases xs) auto
qed

text \<open>
  For two branches that are walked up to their roots, there is one split of both paths into a
  shared part and the rest, whose ids are disjoint from the whole other path: the divergence point
  is the last shared message, and the unique messages of either branch are exactly its rest.
\<close>

lemma branches_diverge:
  assumes "length (walk_branch (build es) i) < MAX_TRAVERSAL_DEPTH"
    and "length (walk_branch (build es) j) < MAX_TRAVERSAL_DEPTH"
  shows "\<exists>c ra rb. walk_branch (build es) i = c @ ra \<and> walk_branch (build es) j = c @ rb \<and>
     set (map me_id ra) \<inter> set (map me_id (c @ rb)) = {} \<and> set (map me_id rb) \<inter> set (map me_id (c @ ra)) = {} \<and>
     find_divergence_point (build es) i j = (if c = [] then None else Some (last c)) \<and>
     find_unique_messages (build es) i j = ra \<and> find_unique_messages (build es) j i = rb"
proof -
  obtain c ra rb where a: "walk_branch (build es) i = c @ ra" and b: "walk_branch (build es) j = c @ rb"
    and stop: "ra = [] \<or> rb = [] \<or> hd ra \<noteq> hd rb"
    using longest_common [of "walk_branch (build es) i" "walk_branch (build es) j"] by blast
  note d = walk_branch_split [OF assms a b stop]
  have e: "set (map me_id rb) \<inter> set (map me_id (c @ ra)) = {}"
    using walk_branch_split [OF assms(2,1) b a] stop by metis
  have "ra = [] \<or> rb = [] \<or> me_id (hd ra) \<noteq> me_id (hd rb)"
    using d by (cases ra; cases rb) auto
  from common_loop_append [OF this, of c None]
  have "find_divergence_point (build es) i j = (if c = [] then None else Some (last c))"
    by (auto simp: find_divergence_point_def a b)
  moreover have "find_unique_messages (build es) i j = ra"
    using d by (auto simp: find_unique_messages_def a b Let_def filter_id_conv filter_empty_conv)
  moreover have "find_unique_messages (build es) j i = rb"
    using e by (auto simp: find_unique_messages_def a b Let_def filter_id_conv filter_empty_conv)
  ultimately show ?thesis using a b d e by blast
qed

section \<open>The leaves\<close>

lemma entries_build: "entries (build es) = es"
  by (simp add: build_def split: prod.split)

text \<open>The steps the search can still make: what is stacked, and the messages whose parent is not
  visited yet.\<close>

definition waiting :: "('m, 'j, 't) session_entry list \<Rightarrow> message_id set \<Rightarrow> ('m, 't) message_entry list" where
  "waiting es visited = filter (\<lambda>m. \<exists>p. parent_id m = Some p \<and> p \<notin> visited) (messages_of es)"

lemma filter_split_length:
  "(\<And>x. x \<in> set xs \<Longrightarrow> P x \<Longrightarrow> \<not> Q x) \<Longrightarrow> (\<And>x. x \<in> set xs \<Longrightarrow> P x \<or> Q x \<Longrightarrow> R x) \<Longrightarrow>
   length (filter P xs) + length (filter Q xs) \<le> length (filter R xs)"
  by (induction xs) force+

lemma waiting_visit:
  assumes "i \<notin> visited"
  shows "length (get_children (build es) (Some i)) + length (waiting es (insert i visited)) \<le> length (waiting es visited)"
  unfolding get_children_build waiting_def using assms by (intro filter_split_length) auto

lemma leaves_loop_ends:
  "length stack + length (waiting es visited) \<le> n \<Longrightarrow> \<exists>r. leaves_loop (build es) n stack visited leaves = Some r"
proof (induction n arbitrary: stack visited leaves)
  case (Suc n)
  show ?case
  proof (cases stack)
    case (Cons node rest)
    show ?thesis
    proof (cases "me_id node \<in> visited")
      case True
      with Suc Cons show ?thesis by simp
    next
      case False
      let ?cs = "get_children (build es) (Some (me_id node))" and ?v = "insert (me_id node) visited"
      have "length (filter (\<lambda>c. me_id c \<notin> ?v) ?cs) \<le> length ?cs" by (rule length_filter_le)
      with waiting_visit [OF False, of es] Suc.prems Cons
      have "length (filter (\<lambda>c. me_id c \<notin> ?v) ?cs @ rest) + length (waiting es ?v) \<le> n"
        "length rest + length (waiting es ?v) \<le> n"
        by (simp_all only: length_append list.size(4))
      from Suc.IH [OF this(1)] Suc.IH [OF this(2)] Cons False show ?thesis by (simp add: Let_def)
    qed
  qed simp
qed (cases stack; simp)

lemma find_all_leaves_ends: "\<exists>r. find_all_leaves (build es) = Some r"
proof -
  have "length (get_children (build es) None) + length (waiting es {}) \<le> length (filter (\<lambda>_. True) (messages_of es))"
    unfolding get_children_build waiting_def by (rule filter_split_length) auto
  also have "\<dots> \<le> length es" by (simp add: List.map_filter_def)
  finally show ?thesis unfolding find_all_leaves_def by (intro leaves_loop_ends) (simp add: entries_build)
qed

inductive rooted :: "('m, 'j, 't) session_entry list \<Rightarrow> ('m, 't) message_entry \<Rightarrow> bool" for es where
  root: "m \<in> set (get_children (build es) None) \<Longrightarrow> rooted es m"
| child: "rooted es p \<Longrightarrow> m \<in> set (get_children (build es) (Some (me_id p))) \<Longrightarrow> rooted es m"

lemma rooted_message: "rooted es m \<Longrightarrow> m \<in> set (messages_of es)"
  by (induction rule: rooted.induct) (auto simp: get_children_build)

abbreviation leaf_of :: "('m, 'j, 't) session_entry list \<Rightarrow> ('m, 't) message_entry \<Rightarrow> bool" where
  "leaf_of es m \<equiv> rooted es m \<and> get_children (build es) (Some (me_id m)) = []"

definition search_inv where
  "search_inv es stack visited leaves \<longleftrightarrow>
     (\<forall>m \<in> set stack. rooted es m) \<and> distinct leaves \<and>
     (\<forall>m. m \<in> set leaves \<longleftrightarrow> leaf_of es m \<and> me_id m \<in> visited) \<and>
     (\<forall>m \<in> set (get_children (build es) None). m \<in> set stack \<or> me_id m \<in> visited) \<and>
     (\<forall>p. rooted es p \<longrightarrow> me_id p \<in> visited \<longrightarrow>
        (\<forall>m \<in> set (get_children (build es) (Some (me_id p))). m \<in> set stack \<or> me_id m \<in> visited))"

lemma search_inv_skip: "search_inv es (n # stack) visited leaves \<Longrightarrow> me_id n \<in> visited \<Longrightarrow> search_inv es stack visited leaves"
  unfolding search_inv_def by auto

lemma search_inv_visit:
  assumes d: "distinct (map me_id (messages_of es))"
    and inv: "search_inv es (n # stack) visited leaves" and new: "me_id n \<notin> visited"
  shows "search_inv es (filter (\<lambda>c. me_id c \<notin> insert (me_id n) visited) (get_children (build es) (Some (me_id n))) @ stack)
     (insert (me_id n) visited)
     (if get_children (build es) (Some (me_id n)) = [] then leaves @ [n] else leaves)"
proof -
  have n: "rooted es n" using inv by (simp add: search_inv_def)
  have same: "p = n" if "rooted es p" "me_id p = me_id n" for p
    using d rooted_message [OF n] rooted_message [OF that(1)] that(2) by (auto simp: distinct_map dest: inj_onD)
  have kids: "rooted es m" if "m \<in> set (get_children (build es) (Some (me_id n)))" for m
    using rooted.child [OF n that] .
  have leaves: "m \<in> set leaves \<longleftrightarrow> leaf_of es m \<and> me_id m \<in> visited" for m
    using inv by (simp add: search_inv_def)
  let ?cs = "get_children (build es) (Some (me_id n))"
  let ?leaves = "if ?cs = [] then leaves @ [n] else leaves"
  have "n \<notin> set leaves" using leaves new by blast
  then have "distinct ?leaves" using inv by (simp add: search_inv_def)
  moreover have "m \<in> set ?leaves \<longleftrightarrow> leaf_of es m \<and> me_id m \<in> insert (me_id n) visited" for m
    using leaves [of m] same [of m] n by (cases "m = n") auto
  moreover have "m \<in> set stack \<or> me_id m \<in> insert (me_id n) visited"
    if "m \<in> set (get_children (build es) None)" for m
    using inv that unfolding search_inv_def by (metis insert_iff set_ConsD)
  moreover have "m \<in> set (filter (\<lambda>c. me_id c \<notin> insert (me_id n) visited) ?cs @ stack) \<or> me_id m \<in> insert (me_id n) visited"
    if p: "rooted es p" "me_id p \<in> insert (me_id n) visited" "m \<in> set (get_children (build es) (Some (me_id p)))" for p m
  proof (cases "me_id p \<in> visited")
    case True
    with inv p have "m \<in> set (n # stack) \<or> me_id m \<in> visited" unfolding search_inv_def by blast
    then show ?thesis by auto
  next
    case False
    with p have "p = n" using same by blast
    with p(3) show ?thesis by auto
  qed
  moreover have "\<forall>m \<in> set (filter (\<lambda>c. me_id c \<notin> insert (me_id n) visited) ?cs @ stack). rooted es m"
    using inv kids by (auto simp: search_inv_def)
  ultimately show ?thesis unfolding search_inv_def by (intro conjI allI impI ballI) (blast, blast, blast, fastforce, blast)
qed

lemma leaves_loop_inv:
  assumes "distinct (map me_id (messages_of es))"
  shows "search_inv es stack visited leaves \<Longrightarrow> leaves_loop (build es) n stack visited leaves = Some r \<Longrightarrow>
    \<exists>visited'. search_inv es [] visited' r"
proof (induction n arbitrary: stack visited leaves)
  case (Suc n)
  show ?case
  proof (cases stack)
    case (Cons node rest)
    note inv = Suc.prems(1) [unfolded Cons]
    show ?thesis
    proof (cases "me_id node \<in> visited")
      case True
      with Suc.IH [OF search_inv_skip [OF inv True]] Suc.prems(2) Cons show ?thesis by simp
    next
      case False
      from Suc.IH [OF search_inv_visit [OF assms inv False]] Suc.prems(2) Cons False show ?thesis
        by (simp add: Let_def split: if_splits)
    qed
  qed (use Suc in auto)
next
  case 0
  then show ?case by (cases stack) auto
qed

lemma leaves_found:
  assumes d: "distinct (map me_id (messages_of es))"
  obtains leaves where "find_all_leaves (build es) = Some leaves" "distinct leaves" "set leaves = {m. leaf_of es m}"
proof -
  obtain r where r: "find_all_leaves (build es) = Some r" using find_all_leaves_ends by blast
  have "search_inv es (get_children (build es) None) {} []"
    by (auto simp: search_inv_def intro: rooted.root)
  from leaves_loop_inv [OF d this] r obtain v where v: "search_inv es [] v r"
    by (auto simp: find_all_leaves_def)
  have "rooted es m \<Longrightarrow> me_id m \<in> v" for m
    by (induction rule: rooted.induct) (use v in \<open>auto simp: search_inv_def\<close>)
  with v r that show ?thesis by (auto simp: search_inv_def)
qed

text \<open>
  The search for leaves, whose loop has no bound in the code, always returns, after at most
  as many steps as the session has entries; with distinct message ids it returns, each once, exactly the
  messages without children that are reachable from a root.
\<close>

lemma find_all_leaves_correct:
  "(\<exists>leaves. find_all_leaves (build es) = Some leaves) \<and>
   (distinct (map me_id (messages_of es)) \<longrightarrow>
     (\<exists>leaves. find_all_leaves (build es) = Some leaves \<and> distinct leaves \<and>
        set leaves = {m. rooted es m \<and> get_children (build es) (Some (me_id m)) = []}))"
  using find_all_leaves_ends [of es] leaves_found [of es] by blast

section \<open>A small session\<close>

text \<open>A root \<open>r\<close> with the children \<open>a\<close> and \<open>b\<close>, where \<open>a\<close> has the children \<open>c\<close> and \<open>d\<close>.\<close>

definition demo_message :: "string \<Rightarrow> string option \<Rightarrow> (unit, unit, unit) session_entry" where
  "demo_message i p = Message \<lparr>me_id = i, parent_id = p, message = (), timestamp = ()\<rparr>"

definition demo_session :: "(unit, unit, unit) session_entry list" where
  "demo_session = [demo_message ''r'' None, demo_message ''a'' (Some ''r''), demo_message ''b'' (Some ''r''),
     demo_message ''c'' (Some ''a''), demo_message ''d'' (Some ''a'')]"

lemma walk_up_unfold:
  "walk_up tree n (Some i) = (if n = 0 then [] else case find_message tree i of None \<Rightarrow> []
     | Some entry \<Rightarrow> entry # walk_up tree (n - 1) (parent_id entry))"
  by (cases n) (simp_all cong: option.case_cong)

lemmas demo_simps = demo_session_def demo_message_def walk_branch_def MAX_TRAVERSAL_DEPTH_def walk_up_unfold
  find_message_build get_children_build map_filter_Cons List.map_filter_simps(2)

lemma demo_walks:
  "map me_id (walk_branch (build demo_session) ''c'') = [''r'', ''a'', ''c'']"
  "map me_id (walk_branch (build demo_session) ''d'') = [''r'', ''a'', ''d'']"
  by (simp_all add: demo_simps)

text \<open>
  The documentation of \<^verbatim>\<open>find_branch_messages\<close> promises what is unique to a branch after it left its
  nearest sibling. The code keeps everything from the branch point closest to the root, so the
  shared message \<open>a\<close> is part of the result for \<open>c\<close> although it is on the branch of \<open>d\<close> as well.
\<close>

lemma find_branch_messages_keeps_shared:
  "map me_id (find_branch_messages (build demo_session) ''c'') = [''a'', ''c''] \<and>
   map me_id (find_unique_messages (build demo_session) ''c'' ''d'') = [''c'']"
  by (simp add: find_branch_messages_def is_branch_point_def find_unique_messages_def demo_simps Let_def)

end
