(* ===== verification/Automerge_Store.thy ===== *)
theory Automerge_Store
  imports Session_Tree Ordered_Map "HOL-Library.Char_ord" "HOL-Library.List_Lexorder"
begin

text \<open>
  The document of a session, \<^verbatim>\<open>crates/clankers-session/src/automerge_store.rs\<close>: its header, its messages
  keyed by id and its list of annotations, written to and read from an Automerge document, and the
  files the document is saved to.

  The crate \<^verbatim>\<open>automerge\<close>, the JSON encodings of messages and annotations, the text form of time stamps
  and the file system are records of functions that the definitions take. \<open>automerge_ok\<close> and
  \<open>codec_ok\<close> state what their documentation promises, over a view of a document as its objects: which
  slots an object has, and that a new object is a fresh one. \<open>session_doc\<close> is what a document holds, and the
  lemmas show that each operation is the obvious one on it. Assertions of the source panic; a panic is
  \<^term>\<open>None\<close>.
\<close>

section \<open>The Automerge document\<close>

datatype obj_type = MapType | ListType

text \<open>The bytes of a saved document are only stored and appended, so their type is a parameter.
  A scalar that is not a string is \<open>Scalar None\<close>: all the code asks of it is \<^verbatim>\<open>to_str\<close>.\<close>

datatype am_value = Object obj_type | Scalar "string option"

record ('d, 'o, 'b) automerge =
  am_new :: 'd
  am_root :: 'o
  am_get :: "'d \<Rightarrow> 'o \<Rightarrow> string \<Rightarrow> string + (am_value \<times> 'o) option"
  am_get_index :: "'d \<Rightarrow> 'o \<Rightarrow> nat \<Rightarrow> string + (am_value \<times> 'o) option"
  am_keys :: "'d \<Rightarrow> 'o \<Rightarrow> string list"
  am_length :: "'d \<Rightarrow> 'o \<Rightarrow> nat"
  am_put_object :: "'o \<Rightarrow> string \<Rightarrow> obj_type \<Rightarrow> 'd \<Rightarrow> (string + 'o) \<times> 'd"
  am_put :: "'o \<Rightarrow> string \<Rightarrow> string \<Rightarrow> 'd \<Rightarrow> (string + unit) \<times> 'd"
  am_insert_object :: "'o \<Rightarrow> nat \<Rightarrow> obj_type \<Rightarrow> 'd \<Rightarrow> (string + 'o) \<times> 'd"
  am_save :: "'d \<Rightarrow> 'b list \<times> 'd"
  am_save_incremental :: "'d \<Rightarrow> 'b list \<times> 'd"
  am_load :: "'b list \<Rightarrow> string + 'd"

text \<open>Steps that may fail and that change a document even when a later one fails.\<close>

definition then_doc :: "('d \<Rightarrow> (string + 'a) \<times> 'd) \<Rightarrow> ('a \<Rightarrow> 'd \<Rightarrow> (string + 'b) \<times> 'd) \<Rightarrow> 'd \<Rightarrow> (string + 'b) \<times> 'd" where
  "then_doc f g d = (case f d of (Inl e, d') \<Rightarrow> (Inl e, d') | (Inr a, d') \<Rightarrow> g a d')"

definition ask_doc :: "('d \<Rightarrow> string + 'a) \<Rightarrow> 'd \<Rightarrow> (string + 'a) \<times> 'd" where
  "ask_doc f d = (f d, d)"

definition done_doc :: "'a \<Rightarrow> 'd \<Rightarrow> (string + 'a) \<times> 'd" where
  "done_doc a d = (Inr a, d)"

fun map_results :: "('a \<Rightarrow> string + 'b) \<Rightarrow> 'a list \<Rightarrow> string + 'b list" where
  "map_results f [] = Inr []"
| "map_results f (x # xs) = (case f x of
     Inl e \<Rightarrow> Inl e
   | Inr y \<Rightarrow> (case map_results f xs of Inl e \<Rightarrow> Inl e | Inr ys \<Rightarrow> Inr (y # ys)))"

text \<open>The patterns of lookups that recur in the source: an object of a given type, a string, and an
  optional string.\<close>

definition get_object :: "('d, 'o, 'b) automerge \<Rightarrow> 'o \<Rightarrow> string \<Rightarrow> obj_type \<Rightarrow> string \<Rightarrow> 'd \<Rightarrow> string + 'o" where
  "get_object A obj key ty missing d = (case am_get A d obj key of
     Inl e \<Rightarrow> Inl e
   | Inr (Some (Object t, c)) \<Rightarrow> if t = ty then Inr c else Inl missing
   | Inr _ \<Rightarrow> Inl missing)"

definition get_str_field :: "('d, 'o, 'b) automerge \<Rightarrow> 'o \<Rightarrow> string \<Rightarrow> string \<Rightarrow> 'd \<Rightarrow> string + string" where
  "get_str_field A obj key missing d = (case am_get A d obj key of
     Inl e \<Rightarrow> Inl e
   | Inr (Some (Scalar (Some s), c)) \<Rightarrow> Inr s
   | Inr _ \<Rightarrow> Inl missing)"

definition get_opt_str :: "('d, 'o, 'b) automerge \<Rightarrow> 'o \<Rightarrow> string \<Rightarrow> 'd \<Rightarrow> string + string option" where
  "get_opt_str A obj key d = (case am_get A d obj key of
     Inl e \<Rightarrow> Inl e
   | Inr (Some (Scalar s, c)) \<Rightarrow> Inr s
   | Inr _ \<Rightarrow> Inr None)"

fun put_fields :: "('d, 'o, 'b) automerge \<Rightarrow> 'o \<Rightarrow> (string \<times> string) list \<Rightarrow> 'd \<Rightarrow> (string + unit) \<times> 'd" where
  "put_fields A obj [] = done_doc ()"
| "put_fields A obj ((k, v) # kvs) = then_doc (am_put A obj k v) (\<lambda>_. put_fields A obj kvs)"

definition opt_field :: "string \<Rightarrow> string option \<Rightarrow> (string \<times> string) list" where
  "opt_field k v = (case v of None \<Rightarrow> [] | Some s \<Rightarrow> [(k, s)])"

section \<open>Annotations\<close>

datatype ('j, 't) annotation_entry =
    AnnLabel "'t label_entry"
  | AnnCompaction "'t compaction_entry"
  | AnnModelChange "'t model_change_entry"
  | AnnBranch "'t branch_entry"
  | AnnResume "'t resume_entry"
  | AnnCustom "('j, 't) custom_entry"

fun kind_str :: "('j, 't) annotation_entry \<Rightarrow> string" where
  "kind_str (AnnLabel _) = ''label''"
| "kind_str (AnnCompaction _) = ''compaction''"
| "kind_str (AnnModelChange _) = ''model_change''"
| "kind_str (AnnBranch _) = ''branch''"
| "kind_str (AnnResume _) = ''resume''"
| "kind_str (AnnCustom _) = ''custom''"

fun into_session_entry :: "('j, 't) annotation_entry \<Rightarrow> ('m, 'j, 't) session_entry" where
  "into_session_entry (AnnLabel l) = Label l"
| "into_session_entry (AnnCompaction c) = Compaction c"
| "into_session_entry (AnnModelChange m) = ModelChange m"
| "into_session_entry (AnnBranch b) = Branch b"
| "into_session_entry (AnnResume r) = Resume r"
| "into_session_entry (AnnCustom c) = Custom c"

fun from_session_entry :: "('m, 'j, 't) session_entry \<Rightarrow> ('j, 't) annotation_entry option" where
  "from_session_entry (Label l) = Some (AnnLabel l)"
| "from_session_entry (Compaction c) = Some (AnnCompaction c)"
| "from_session_entry (ModelChange m) = Some (AnnModelChange m)"
| "from_session_entry (Branch b) = Some (AnnBranch b)"
| "from_session_entry (Resume r) = Some (AnnResume r)"
| "from_session_entry (Custom c) = Some (AnnCustom c)"
| "from_session_entry (Header _) = None"
| "from_session_entry (Message _) = None"

text \<open>The encodings: \<^verbatim>\<open>serde_json\<close> and the RFC 3339 form of \<^verbatim>\<open>chrono\<close>.\<close>

record ('m, 'j, 't) session_codec =
  to_rfc3339 :: "'t \<Rightarrow> string"
  parse_rfc3339 :: "string \<Rightarrow> string + 't"
  message_to_json :: "'m \<Rightarrow> string + string"
  message_from_json :: "string \<Rightarrow> string + 'm"
  annotation_to_json :: "('j, 't) annotation_entry \<Rightarrow> string + string"
  annotation_from_json :: "string \<Rightarrow> string + ('j, 't) annotation_entry"

section \<open>Writing\<close>

abbreviation (input) KEY_HEADER :: string where "KEY_HEADER \<equiv> ''header''"
abbreviation (input) KEY_MESSAGES :: string where "KEY_MESSAGES \<equiv> ''messages''"
abbreviation (input) KEY_ANNOTATIONS :: string where "KEY_ANNOTATIONS \<equiv> ''annotations''"

definition header_fields :: "('m, 'j, 't) session_codec \<Rightarrow> 't header_entry \<Rightarrow> (string \<times> string) list" where
  "header_fields C h =
     [(''session_id'', he_session_id h), (''created_at'', to_rfc3339 C (he_created_at h)),
      (''cwd'', he_cwd h), (''model'', he_model h), (''version'', he_version h)] @
     opt_field ''agent'' (he_agent h) @ opt_field ''parent_session_id'' (he_parent_session_id h) @
     opt_field ''worktree_path'' (he_worktree_path h) @ opt_field ''worktree_branch'' (he_worktree_branch h)"

definition create_document ::
  "('d, 'o, 'b) automerge \<Rightarrow> ('m, 'j, 't) session_codec \<Rightarrow> 't header_entry \<Rightarrow> (string + 'd) option" where
  "create_document A C h =
     (if he_session_id h = [] \<or> he_version h = [] then None
      else Some (case
          then_doc (am_put_object A (am_root A) KEY_HEADER MapType) (\<lambda>header_obj.
          then_doc (am_put_object A (am_root A) KEY_MESSAGES MapType) (\<lambda>_.
          then_doc (am_put_object A (am_root A) KEY_ANNOTATIONS ListType) (\<lambda>_.
          put_fields A header_obj (header_fields C h)))) (am_new A)
        of (Inl e, d) \<Rightarrow> Inl e | (Inr _, d) \<Rightarrow> Inr d))"

definition put_message ::
  "('d, 'o, 'b) automerge \<Rightarrow> ('m, 'j, 't) session_codec \<Rightarrow> ('m, 't) message_entry \<Rightarrow> 'd \<Rightarrow> ((string + unit) \<times> 'd) option" where
  "put_message A C entry d =
     (if me_id entry = [] \<or> to_rfc3339 C (timestamp entry) = [] then None
      else Some (
        then_doc (ask_doc (get_object A (am_root A) KEY_MESSAGES MapType ''messages map not found in document'')) (\<lambda>messages_obj.
        then_doc (am_put_object A messages_obj (me_id entry) MapType) (\<lambda>msg_obj.
        then_doc (put_fields A msg_obj (opt_field ''parent_id'' (parent_id entry))) (\<lambda>_.
        then_doc (ask_doc (\<lambda>_. message_to_json C (message entry))) (\<lambda>json.
        put_fields A msg_obj [(''message_json'', json), (''timestamp'', to_rfc3339 C (timestamp entry))])))) d))"

definition put_annotation ::
  "('d, 'o, 'b) automerge \<Rightarrow> ('m, 'j, 't) session_codec \<Rightarrow> ('j, 't) annotation_entry \<Rightarrow> 'd \<Rightarrow> (string + unit) \<times> 'd" where
  "put_annotation A C annotation =
     then_doc (ask_doc (get_object A (am_root A) KEY_ANNOTATIONS ListType ''annotations list not found in document'')) (\<lambda>annotations_obj.
     then_doc (\<lambda>d. am_insert_object A annotations_obj (am_length A d annotations_obj) MapType d) (\<lambda>ann_obj.
     then_doc (ask_doc (\<lambda>_. annotation_to_json C annotation)) (\<lambda>json.
     put_fields A ann_obj [(''kind'', kind_str annotation), (''data'', json)])))"

section \<open>Reading\<close>

definition quoted :: "string \<Rightarrow> string" where
  "quoted s = CHR 0x27 # s @ [CHR 0x27]"

definition bind_result :: "string + 'a \<Rightarrow> ('a \<Rightarrow> string + 'b) \<Rightarrow> string + 'b" where
  "bind_result r f = (case r of Inl e \<Rightarrow> Inl e | Inr a \<Rightarrow> f a)"

definition read_header :: "('d, 'o, 'b) automerge \<Rightarrow> ('m, 'j, 't) session_codec \<Rightarrow> 'd \<Rightarrow> string + 't header_entry" where
  "read_header A C d =
     bind_result (get_object A (am_root A) KEY_HEADER MapType ''header not found in document'' d) (\<lambda>obj.
     let field = (\<lambda>key. get_str_field A obj key (''header field '' @ quoted key @ '' not found'') d) in
     bind_result (field ''created_at'') (\<lambda>created.
     bind_result (parse_rfc3339 C created) (\<lambda>created_at.
     bind_result (field ''session_id'') (\<lambda>sid.
     bind_result (field ''cwd'') (\<lambda>cwd.
     bind_result (field ''model'') (\<lambda>model.
     bind_result (field ''version'') (\<lambda>version.
     bind_result (get_opt_str A obj ''agent'' d) (\<lambda>agent.
     bind_result (get_opt_str A obj ''parent_session_id'' d) (\<lambda>parent.
     bind_result (get_opt_str A obj ''worktree_path'' d) (\<lambda>path.
     bind_result (get_opt_str A obj ''worktree_branch'' d) (\<lambda>branch.
     Inr \<lparr>he_session_id = sid, he_created_at = created_at, he_cwd = cwd, he_model = model, he_version = version,
          he_agent = agent, he_parent_session_id = parent, he_worktree_path = path, he_worktree_branch = branch\<rparr>)))))))))))"

definition read_message ::
  "('d, 'o, 'b) automerge \<Rightarrow> ('m, 'j, 't) session_codec \<Rightarrow> 'd \<Rightarrow> 'o \<Rightarrow> string \<Rightarrow> string + ('m, 't) message_entry" where
  "read_message A C d messages_obj key =
     bind_result (get_object A messages_obj key MapType (''message '' @ quoted key @ '' is not a map'') d) (\<lambda>obj.
     bind_result (get_opt_str A obj ''parent_id'' d) (\<lambda>parent.
     bind_result (get_str_field A obj ''message_json'' (''message '' @ quoted key @ '' has no message_json'') d) (\<lambda>json.
     bind_result (message_from_json C json) (\<lambda>msg.
     bind_result (get_str_field A obj ''timestamp'' (''message '' @ quoted key @ '' has no timestamp'') d) (\<lambda>ts.
     bind_result (parse_rfc3339 C ts) (\<lambda>at.
     Inr \<lparr>me_id = key, parent_id = parent, message = msg, timestamp = at\<rparr>))))))"

definition read_messages ::
  "('d, 'o, 'b) automerge \<Rightarrow> ('m, 'j, 't) session_codec \<Rightarrow> 'd \<Rightarrow> string + ('m, 't) message_entry list" where
  "read_messages A C d =
     bind_result (get_object A (am_root A) KEY_MESSAGES MapType ''messages map not found in document'' d) (\<lambda>messages_obj.
     map_results (read_message A C d messages_obj) (am_keys A d messages_obj))"

definition read_annotation ::
  "('d, 'o, 'b) automerge \<Rightarrow> ('m, 'j, 't) session_codec \<Rightarrow> 'd \<Rightarrow> 'o \<Rightarrow> nat \<Rightarrow> string + ('j, 't) annotation_entry" where
  "read_annotation A C d annotations_obj i =
     bind_result (case am_get_index A d annotations_obj i of
         Inl e \<Rightarrow> Inl e
       | Inr (Some (Object MapType, c)) \<Rightarrow> Inr c
       | Inr _ \<Rightarrow> Inl (''annotation at index '' @ show_nat i @ '' is not a map'')) (\<lambda>obj.
     bind_result (get_str_field A obj ''data'' (''annotation at index '' @ show_nat i @ '' has no data'') d)
       (annotation_from_json C))"

definition read_annotations ::
  "('d, 'o, 'b) automerge \<Rightarrow> ('m, 'j, 't) session_codec \<Rightarrow> 'd \<Rightarrow> string + ('j, 't) annotation_entry list" where
  "read_annotations A C d =
     bind_result (get_object A (am_root A) KEY_ANNOTATIONS ListType ''annotations list not found in document'' d) (\<lambda>annotations_obj.
     map_results (read_annotation A C d annotations_obj) [0..<am_length A d annotations_obj])"

definition to_session_entries ::
  "('d, 'o, 'b) automerge \<Rightarrow> ('m, 'j, 't) session_codec \<Rightarrow> 'd \<Rightarrow> string + ('m, 'j, 't) session_entry list" where
  "to_session_entries A C d =
     bind_result (read_header A C d) (\<lambda>header.
     bind_result (read_messages A C d) (\<lambda>messages.
     bind_result (read_annotations A C d) (\<lambda>annotations.
     Inr (Header header # map Message messages @ map into_session_entry annotations))))"

section \<open>What the crates promise\<close>

text \<open>The view of a document: the slots of its objects. Putting an object under a key creates a fresh
  object. \<open>synced file d\<close> says that the bytes of a file hold every change of \<open>d\<close> up to its last save.\<close>

datatype 'o am_slot = Str string | Ref obj_type 'o | Other

datatype 'o am_object = MapObj "string \<Rightarrow> 'o am_slot option" | ListObj "'o am_slot list"

fun slot_shows :: "'o am_slot option \<Rightarrow> (am_value \<times> 'o) option \<Rightarrow> bool" where
  "slot_shows None r \<longleftrightarrow> r = None"
| "slot_shows (Some (Str s)) r \<longleftrightarrow> (\<exists>c. r = Some (Scalar (Some s), c))"
| "slot_shows (Some (Ref t obj)) r \<longleftrightarrow> r = Some (Object t, obj)"
| "slot_shows (Some Other) r \<longleftrightarrow> (\<exists>c. r = Some (Scalar None, c))"

definition empty_object :: "obj_type \<Rightarrow> 'o am_object" where
  "empty_object t = (case t of MapType \<Rightarrow> MapObj Map.empty | ListType \<Rightarrow> ListObj [])"

definition reads_ok :: "('d, 'o, 'b) automerge \<Rightarrow> ('d \<Rightarrow> 'o \<Rightarrow> 'o am_object option) \<Rightarrow> bool" where
  "reads_ok A V \<longleftrightarrow>
     V (am_new A) (am_root A) = Some (MapObj Map.empty) \<and>
     (\<forall>d obj f. V d obj = Some (MapObj f) \<longrightarrow>
        (\<forall>k. \<exists>r. am_get A d obj k = Inr r \<and> slot_shows (f k) r) \<and>
        set (am_keys A d obj) = dom f \<and> sorted_wrt (<) (am_keys A d obj)) \<and>
     (\<forall>d obj xs. V d obj = Some (ListObj xs) \<longrightarrow> am_length A d obj = length xs \<and>
        (\<forall>i < length xs. \<exists>r. am_get_index A d obj i = Inr r \<and> slot_shows (Some (xs ! i)) r))"

definition writes_ok ::
  "('d, 'o, 'b) automerge \<Rightarrow> ('d \<Rightarrow> 'o \<Rightarrow> 'o am_object option) \<Rightarrow> ('b list \<Rightarrow> 'd \<Rightarrow> bool) \<Rightarrow> bool" where
  "writes_ok A V synced \<longleftrightarrow>
     (\<forall>d obj f k t. V d obj = Some (MapObj f) \<longrightarrow> (\<exists>c d'. am_put_object A obj k t d = (Inr c, d') \<and> V d c = None \<and>
        V d' = (V d)(obj \<mapsto> MapObj (f(k \<mapsto> Ref t c)), c \<mapsto> empty_object t) \<and> (\<forall>file. synced file d \<longrightarrow> synced file d'))) \<and>
     (\<forall>d obj f k s. V d obj = Some (MapObj f) \<longrightarrow> (\<exists>d'. am_put A obj k s d = (Inr (), d') \<and>
        V d' = (V d)(obj \<mapsto> MapObj (f(k \<mapsto> Str s))) \<and> (\<forall>file. synced file d \<longrightarrow> synced file d'))) \<and>
     (\<forall>d obj xs t. V d obj = Some (ListObj xs) \<longrightarrow> (\<exists>c d'. am_insert_object A obj (length xs) t d = (Inr c, d') \<and> V d c = None \<and>
        V d' = (V d)(obj \<mapsto> ListObj (xs @ [Ref t c]), c \<mapsto> empty_object t) \<and> (\<forall>file. synced file d \<longrightarrow> synced file d')))"

definition saves_ok ::
  "('d, 'o, 'b) automerge \<Rightarrow> ('d \<Rightarrow> 'o \<Rightarrow> 'o am_object option) \<Rightarrow> ('b list \<Rightarrow> 'd \<Rightarrow> bool) \<Rightarrow> bool" where
  "saves_ok A V synced \<longleftrightarrow>
     (\<forall>d chunk d'. am_save A d = (chunk, d') \<longrightarrow> V d' = V d \<and> synced chunk d' \<and>
        (\<exists>d2. am_load A chunk = Inr d2 \<and> V d2 = V d \<and> synced chunk d2)) \<and>
     (\<forall>d chunk d'. am_save_incremental A d = (chunk, d') \<longrightarrow> V d' = V d \<and>
        (\<forall>file. synced file d \<longrightarrow> synced (file @ chunk) d' \<and>
           (\<exists>d2. am_load A (file @ chunk) = Inr d2 \<and> V d2 = V d \<and> synced (file @ chunk) d2)))"

definition automerge_ok where
  "automerge_ok A V synced \<longleftrightarrow> reads_ok A V \<and> writes_ok A V synced \<and> saves_ok A V synced"

text \<open>The encodings read back what they wrote, for the messages of \<open>M\<close> and the annotations of \<open>N\<close>.\<close>

definition codec_ok ::
  "('m, 'j, 't) session_codec \<Rightarrow> 'm set \<Rightarrow> ('j, 't) annotation_entry set \<Rightarrow> bool" where
  "codec_ok C M N \<longleftrightarrow>
     (\<forall>t. to_rfc3339 C t \<noteq> [] \<and> parse_rfc3339 C (to_rfc3339 C t) = Inr t) \<and>
     (\<forall>m \<in> M. \<exists>s. message_to_json C m = Inr s \<and> message_from_json C s = Inr m) \<and>
     (\<forall>a \<in> N. \<exists>s. annotation_to_json C a = Inr s \<and> annotation_from_json C s = Inr a)"

section \<open>What a document holds\<close>

record ('m, 'j, 't) session_doc =
  sd_header :: "'t header_entry"
  sd_messages :: "(message_id, ('m, 't) message_entry) btree"
  sd_annotations :: "('j, 't) annotation_entry list"

definition message_object :: "('m, 'j, 't) session_codec \<Rightarrow> ('m, 't) message_entry \<Rightarrow> 'o am_object option \<Rightarrow> bool" where
  "message_object C e v \<longleftrightarrow> (\<exists>f json. v = Some (MapObj f) \<and> f ''parent_id'' = map_option Str (parent_id e) \<and>
     f ''message_json'' = Some (Str json) \<and> message_from_json C json = Inr (message e) \<and>
     f ''timestamp'' = Some (Str (to_rfc3339 C (timestamp e))))"

definition annotation_object :: "('m, 'j, 't) session_codec \<Rightarrow> ('j, 't) annotation_entry \<Rightarrow> 'o am_object option \<Rightarrow> bool" where
  "annotation_object C a v \<longleftrightarrow> (\<exists>f json. v = Some (MapObj f) \<and> f ''kind'' = Some (Str (kind_str a)) \<and>
     f ''data'' = Some (Str json) \<and> annotation_from_json C json = Inr a)"

definition message_slot where
  "message_slot C v om e slot \<longleftrightarrow> (\<exists>c. slot = Ref MapType c \<and> c \<noteq> om \<and> message_object C e (v c))"

definition annotation_slot where
  "annotation_slot C v om a slot \<longleftrightarrow> (\<exists>c. slot = Ref MapType c \<and> c \<noteq> om \<and> annotation_object C a (v c))"

definition holds_at ::
  "('d, 'o, 'b) automerge \<Rightarrow> ('m, 'j, 't) session_codec \<Rightarrow> ('o \<Rightarrow> 'o am_object option) \<Rightarrow> ('m, 'j, 't) session_doc \<Rightarrow>
   'o \<Rightarrow> 'o \<Rightarrow> 'o \<Rightarrow> (string \<Rightarrow> 'o am_slot option) \<Rightarrow> 'o am_slot list \<Rightarrow> bool" where
  "holds_at A C v D oh om oa f xs \<longleftrightarrow>
     (\<exists>r. v (am_root A) = Some (MapObj r) \<and> r KEY_HEADER = Some (Ref MapType oh) \<and>
        r KEY_MESSAGES = Some (Ref MapType om) \<and> r KEY_ANNOTATIONS = Some (Ref ListType oa)) \<and>
     am_root A \<noteq> om \<and> oh \<noteq> om \<and>
     v oh = Some (MapObj (map_option Str \<circ> map_of (header_fields C (sd_header D)))) \<and>
     v om = Some (MapObj f) \<and> v oa = Some (ListObj xs) \<and>
     bt_inv (sd_messages D) \<and> (\<forall>k e. bt_get (sd_messages D) k = Some e \<longrightarrow> me_id e = k) \<and>
     (\<forall>k. rel_option (message_slot C v om) (bt_get (sd_messages D) k) (f k)) \<and>
     list_all2 (annotation_slot C v om) (sd_annotations D) xs"

definition holds where
  "holds A C V d D \<longleftrightarrow> (\<exists>oh om oa f xs. holds_at A C (V d) D oh om oa f xs)"

section \<open>The operations refine those of the document\<close>

lemma then_doc_Inr [simp]: "f d = (Inr a, d') \<Longrightarrow> then_doc f g d = g a d'"
  by (simp add: then_doc_def)

lemma then_doc_ask [simp]: "then_doc (ask_doc f) g d = (case f d of Inl e \<Rightarrow> (Inl e, d) | Inr a \<Rightarrow> g a d)"
  by (simp add: then_doc_def ask_doc_def split: sum.splits)

lemma bind_result_simps [simp]: "bind_result (Inr a) f = f a" "bind_result (Inl e) f = Inl e"
  by (simp_all add: bind_result_def)

lemma get_object_ref: "reads_ok A V \<Longrightarrow> V d obj = Some (MapObj f) \<Longrightarrow> f k = Some (Ref t c) \<Longrightarrow> get_object A obj k t m d = Inr c"
proof -
  assume r: "reads_ok A V" "V d obj = Some (MapObj f)" "f k = Some (Ref t c)"
  then obtain r where "am_get A d obj k = Inr r" "slot_shows (f k) r" unfolding reads_ok_def by meson
  with r(3) show ?thesis by (simp add: get_object_def)
qed

lemma get_str_field_str: "reads_ok A V \<Longrightarrow> V d obj = Some (MapObj f) \<Longrightarrow> f k = Some (Str s) \<Longrightarrow> get_str_field A obj k m d = Inr s"
proof -
  assume r: "reads_ok A V" "V d obj = Some (MapObj f)" "f k = Some (Str s)"
  then obtain r where "am_get A d obj k = Inr r" "slot_shows (f k) r" unfolding reads_ok_def by meson
  with r(3) show ?thesis by (auto simp: get_str_field_def)
qed

lemma get_opt_str_str: "reads_ok A V \<Longrightarrow> V d obj = Some (MapObj f) \<Longrightarrow> f k = map_option Str v \<Longrightarrow> get_opt_str A obj k d = Inr v"
proof -
  assume r: "reads_ok A V" "V d obj = Some (MapObj f)" "f k = map_option Str v"
  then obtain r where "am_get A d obj k = Inr r" "slot_shows (f k) r" unfolding reads_ok_def by meson
  with r(3) show ?thesis by (cases v) (auto simp: get_opt_str_def)
qed

lemma map_results_Inr: "(\<And>x. x \<in> set xs \<Longrightarrow> f x = Inr (g x)) \<Longrightarrow> map_results f xs = Inr (map g xs)"
  by (induction xs) auto

definition str_slots :: "(string \<times> string) list \<Rightarrow> string \<Rightarrow> 'o am_slot option" where
  "str_slots kvs k = map_option Str (map_of kvs k)"

lemma put_object_ok:
  assumes "automerge_ok A V synced" "V d obj = Some (MapObj f)"
  obtains c d' where "am_put_object A obj k t d = (Inr c, d')" "V d c = None"
    "V d' = (V d)(obj \<mapsto> MapObj (f(k \<mapsto> Ref t c)), c \<mapsto> empty_object t)" "\<And>file. synced file d \<Longrightarrow> synced file d'"
  using assms unfolding automerge_ok_def writes_ok_def by meson

lemma insert_object_ok:
  assumes "automerge_ok A V synced" "V d obj = Some (ListObj xs)"
  obtains c d' where "am_insert_object A obj (length xs) t d = (Inr c, d')" "V d c = None"
    "V d' = (V d)(obj \<mapsto> ListObj (xs @ [Ref t c]), c \<mapsto> empty_object t)" "\<And>file. synced file d \<Longrightarrow> synced file d'"
  using assms unfolding automerge_ok_def writes_ok_def by meson

lemma put_fields_ok:
  assumes "automerge_ok A V synced" "V d obj = Some (MapObj f)"
  obtains d' where "put_fields A obj kvs d = (Inr (), d')"
    "V d' = (V d)(obj \<mapsto> MapObj (f ++ str_slots (rev kvs)))" "\<And>file. synced file d \<Longrightarrow> synced file d'"
proof -
  have "\<exists>d'. put_fields A obj kvs d = (Inr (), d') \<and> V d' = (V d)(obj \<mapsto> MapObj (f ++ str_slots (rev kvs))) \<and>
      (\<forall>file. synced file d \<longrightarrow> synced file d')"
    using assms(2)
  proof (induction kvs arbitrary: d f)
    case Nil
    then show ?case by (simp add: done_doc_def str_slots_def map_add_def fun_upd_idem)
  next
    case (Cons kv kvs)
    obtain k s where kv: "kv = (k, s)" by fastforce
    obtain d1 where d1: "am_put A obj k s d = (Inr (), d1)" "V d1 = (V d)(obj \<mapsto> MapObj (f(k \<mapsto> Str s)))"
        "\<forall>file. synced file d \<longrightarrow> synced file d1"
      using assms(1) Cons.prems unfolding automerge_ok_def writes_ok_def by meson
    then have "V d1 obj = Some (MapObj (f(k \<mapsto> Str s)))" by simp
    from Cons.IH [OF this] obtain d' where d': "put_fields A obj kvs d1 = (Inr (), d')"
        "V d' = (V d1)(obj \<mapsto> MapObj (f(k \<mapsto> Str s) ++ str_slots (rev kvs)))" "\<forall>file. synced file d1 \<longrightarrow> synced file d'"
      by blast
    have "f(k \<mapsto> Str s) ++ str_slots (rev kvs) = f ++ str_slots (rev (kv # kvs))"
      by (rule ext) (simp add: kv str_slots_def map_add_def map_of_append split: option.splits)
    with d' d1 show ?case by (intro exI [of _ d']) (simp add: kv)
  qed
  then show ?thesis using that by blast
qed

lemma str_slots_opt [simp]:
  "Map.empty ++ str_slots kvs = str_slots kvs"
  "map_of (rev (opt_field k v)) k' = (if k' = k then v else None)"
  "map_of (opt_field k v) k' = (if k' = k then v else None)"
  by (simp_all add: opt_field_def split: option.splits)

lemma map_of_rev_distinct: "distinct (map fst xs) \<Longrightarrow> map_of (rev xs) = map_of xs"
  by (subst map_of_inject_set) (simp_all add: rev_map [symmetric])

lemma header_fields_distinct: "distinct (map fst (header_fields C h))"
  by (simp add: header_fields_def opt_field_def split: option.splits)

lemma header_slots: "str_slots (rev (header_fields C h)) = map_option Str \<circ> map_of (header_fields C h)"
  by (rule ext) (simp add: str_slots_def map_of_rev_distinct header_fields_distinct)

lemma create_document_ok:
  assumes A: "automerge_ok A V synced" and C: "codec_ok C M N" and h: "he_session_id h \<noteq> []" "he_version h \<noteq> []"
  obtains d where "create_document A C h = Some (Inr d)" "holds A C V d \<lparr>sd_header = h, sd_messages = [], sd_annotations = []\<rparr>"
proof -
  have new: "V (am_new A) (am_root A) = Some (MapObj Map.empty)" using A by (simp add: automerge_ok_def reads_ok_def)
  obtain c1 d1 where 1: "am_put_object A (am_root A) KEY_HEADER MapType (am_new A) = (Inr c1, d1)" "V (am_new A) c1 = None"
      "V d1 = (V (am_new A))(am_root A \<mapsto> MapObj [KEY_HEADER \<mapsto> Ref MapType c1], c1 \<mapsto> empty_object MapType)"
    using put_object_ok [OF A new] by metis
  have c1: "c1 \<noteq> am_root A" using 1(2) new by auto
  with 1 have r1: "V d1 (am_root A) = Some (MapObj [KEY_HEADER \<mapsto> Ref MapType c1])" by simp
  obtain c2 d2 where 2: "am_put_object A (am_root A) KEY_MESSAGES MapType d1 = (Inr c2, d2)" "V d1 c2 = None"
      "V d2 = (V d1)(am_root A \<mapsto> MapObj [KEY_HEADER \<mapsto> Ref MapType c1, KEY_MESSAGES \<mapsto> Ref MapType c2], c2 \<mapsto> empty_object MapType)"
    using put_object_ok [OF A r1] by metis
  have c2: "c2 \<noteq> am_root A" "c2 \<noteq> c1" using 2(2) r1 1(3) by auto
  with 2 have r2: "V d2 (am_root A) = Some (MapObj [KEY_HEADER \<mapsto> Ref MapType c1, KEY_MESSAGES \<mapsto> Ref MapType c2])" by simp
  obtain c3 d3 where 3: "am_put_object A (am_root A) KEY_ANNOTATIONS ListType d2 = (Inr c3, d3)" "V d2 c3 = None"
      "V d3 = (V d2)(am_root A \<mapsto> MapObj [KEY_HEADER \<mapsto> Ref MapType c1, KEY_MESSAGES \<mapsto> Ref MapType c2,
         KEY_ANNOTATIONS \<mapsto> Ref ListType c3], c3 \<mapsto> empty_object ListType)"
    using put_object_ok [OF A r2] by metis
  have c3: "c3 \<noteq> am_root A" "c3 \<noteq> c1" "c3 \<noteq> c2" using 3(2) r2 2(3) 1(3) c1 c2 by (auto split: if_splits)
  have h3: "V d3 c1 = Some (MapObj Map.empty)" using 1(3) 2(3) 3(3) c1 c2 c3 by (simp add: empty_object_def)
  obtain d4 where 4: "put_fields A c1 (header_fields C h) d3 = (Inr (), d4)"
      "V d4 = (V d3)(c1 \<mapsto> MapObj (Map.empty ++ str_slots (rev (header_fields C h))))"
    using put_fields_ok [OF A h3] by metis
  have "create_document A C h = Some (Inr d4)"
    using h 1(1) 2(1) 3(1) 4(1) by (simp add: create_document_def)
  moreover have "holds_at A C (V d4) \<lparr>sd_header = h, sd_messages = [], sd_annotations = []\<rparr> c1 c2 c3 Map.empty []"
    using 1(3) 2(3) 3(3) 4(2) c1 c2 c3
    by (simp add: holds_at_def empty_object_def bt_inv_def header_slots)
  ultimately show ?thesis using that unfolding holds_def by blast
qed

lemma slot_frame:
  assumes "\<And>c. c \<noteq> om \<Longrightarrow> v c \<noteq> None \<Longrightarrow> v' c = v c"
  shows "message_slot C v om e s \<Longrightarrow> message_slot C v' om e s"
    and "annotation_slot C v om a s \<Longrightarrow> annotation_slot C v' om a s"
proof -
  assume "message_slot C v om e s"
  then obtain c where c: "s = Ref MapType c" "c \<noteq> om" "message_object C e (v c)" unfolding message_slot_def by blast
  then have "v c \<noteq> None" by (auto simp: message_object_def)
  with c assms [of c] show "message_slot C v' om e s" by (simp add: message_slot_def)
next
  assume "annotation_slot C v om a s"
  then obtain c where c: "s = Ref MapType c" "c \<noteq> om" "annotation_object C a (v c)" unfolding annotation_slot_def by blast
  then have "v c \<noteq> None" by (auto simp: annotation_object_def)
  with c assms [of c] show "annotation_slot C v' om a s" by (simp add: annotation_slot_def)
qed

lemma put_message_ok:
  assumes A: "automerge_ok A V synced" and C: "codec_ok C M N" and D: "holds A C V d D"
    and e: "me_id e \<noteq> []" "message e \<in> M"
  obtains d' where "put_message A C e d = Some (Inr (), d')"
    "holds A C V d' (D\<lparr>sd_messages := bt_insert (me_id e) e (sd_messages D)\<rparr>)" "\<And>file. synced file d \<Longrightarrow> synced file d'"
proof -
  obtain oh om oa f xs where H: "holds_at A C (V d) D oh om oa f xs" using D unfolding holds_def by blast
  from H obtain r where r: "V d (am_root A) = Some (MapObj r)" "r KEY_MESSAGES = Some (Ref MapType om)"
    unfolding holds_at_def by blast
  have reads: "reads_ok A V" using A by (simp add: automerge_ok_def)
  have om: "V d om = Some (MapObj f)" using H unfolding holds_at_def by blast
  obtain json where json: "message_to_json C (message e) = Inr json" "message_from_json C json = Inr (message e)"
    using C e(2) unfolding codec_ok_def by blast
  have ts: "to_rfc3339 C (timestamp e) \<noteq> []" using C unfolding codec_ok_def by blast
  obtain c d1 where 1: "am_put_object A om (me_id e) MapType d = (Inr c, d1)" "V d c = None"
      "V d1 = (V d)(om \<mapsto> MapObj (f(me_id e \<mapsto> Ref MapType c)), c \<mapsto> empty_object MapType)"
      "\<And>file. synced file d \<Longrightarrow> synced file d1"
    using put_object_ok [OF A om] by metis
  have v1: "V d1 c = Some (MapObj Map.empty)" using 1(3) by (simp add: empty_object_def)
  obtain d2 where 2: "put_fields A c (opt_field ''parent_id'' (parent_id e)) d1 = (Inr (), d2)"
      "V d2 = (V d1)(c \<mapsto> MapObj (Map.empty ++ str_slots (rev (opt_field ''parent_id'' (parent_id e)))))"
      "\<And>file. synced file d1 \<Longrightarrow> synced file d2"
    using put_fields_ok [OF A v1] by metis
  have v2: "V d2 c = Some (MapObj (str_slots (rev (opt_field ''parent_id'' (parent_id e)))))" using 2(2) by simp
  obtain d3 where 3: "put_fields A c [(''message_json'', json), (''timestamp'', to_rfc3339 C (timestamp e))] d2 = (Inr (), d3)"
      "V d3 = (V d2)(c \<mapsto> MapObj (str_slots (rev (opt_field ''parent_id'' (parent_id e))) ++
         str_slots (rev [(''message_json'', json), (''timestamp'', to_rfc3339 C (timestamp e))])))"
      "\<And>file. synced file d2 \<Longrightarrow> synced file d3"
    using put_fields_ok [OF A v2] by metis
  have "put_message A C e d = Some (Inr (), d3)"
    using e(1) ts 1(1) 2(1) 3(1) json(1) get_object_ref [where m = "''messages map not found in document''", OF reads r]
    by (simp add: put_message_def del: put_fields.simps)
  moreover have "holds A C V d3 (D\<lparr>sd_messages := bt_insert (me_id e) e (sd_messages D)\<rparr>)"
  proof -
    have V3: "V d3 = (V d)(om \<mapsto> MapObj (f(me_id e \<mapsto> Ref MapType c)), c \<mapsto> MapObj (str_slots (rev (opt_field ''parent_id'' (parent_id e))) ++
         str_slots (rev [(''message_json'', json), (''timestamp'', to_rfc3339 C (timestamp e))])))"
      using 1(3) 2(2) 3(2) by simp
    have fresh: "c \<noteq> om" "c \<noteq> oh" "c \<noteq> oa" "c \<noteq> am_root A" using 1(2) H unfolding holds_at_def by auto
    have new: "message_object C e (V d3 c)"
      using V3 json(2) by (simp add: message_object_def str_slots_def map_add_def)
    have frame: "c' \<noteq> om \<Longrightarrow> V d c' \<noteq> None \<Longrightarrow> V d3 c' = V d c'" for c'
      using 1(2) V3 by auto
    note old = slot_frame(1) [where v = "V d" and v' = "V d3" and om = om, OF frame]
    note ann = slot_frame(2) [where v = "V d" and v' = "V d3" and om = om, OF frame]
    have "holds_at A C (V d3) (D\<lparr>sd_messages := bt_insert (me_id e) e (sd_messages D)\<rparr>) oh om oa (f(me_id e \<mapsto> Ref MapType c)) xs"
      unfolding holds_at_def
    proof (intro conjI allI, goal_cases)
      case (9 k)
      have "rel_option (message_slot C (V d) om) (bt_get (sd_messages D) k) (f k)" using H unfolding holds_at_def by blast
      then have "rel_option (message_slot C (V d3) om) (bt_get (sd_messages D) k) (f k)" by (rule option.rel_mono_strong) (rule old)
      then show ?case using new fresh(1) by (simp add: bt_get_insert message_slot_def)
    next
      case 10
      have "list_all2 (annotation_slot C (V d) om) (sd_annotations D) xs" using H unfolding holds_at_def by blast
      then have "list_all2 (annotation_slot C (V d3) om) (sd_annotations D) xs" by (rule list_all2_mono) (rule ann)
      then show ?case by simp
    qed (use H V3 fresh in \<open>auto simp: holds_at_def bt_inv_insert bt_get_insert\<close>)
    then show ?thesis unfolding holds_def by blast
  qed
  ultimately show ?thesis using that 1(4) 2(3) 3(3) by blast
qed

lemma put_annotation_ok:
  assumes A: "automerge_ok A V synced" and C: "codec_ok C M N" and D: "holds A C V d D" and a: "a \<in> N"
  obtains d' where "put_annotation A C a d = (Inr (), d')"
    "holds A C V d' (D\<lparr>sd_annotations := sd_annotations D @ [a]\<rparr>)" "\<And>file. synced file d \<Longrightarrow> synced file d'"
proof -
  obtain oh om oa f xs where H: "holds_at A C (V d) D oh om oa f xs" using D unfolding holds_def by blast
  from H obtain r where r: "V d (am_root A) = Some (MapObj r)" "r KEY_ANNOTATIONS = Some (Ref ListType oa)"
    unfolding holds_at_def by blast
  have reads: "reads_ok A V" using A by (simp add: automerge_ok_def)
  have oa: "V d oa = Some (ListObj xs)" and om: "V d om = Some (MapObj f)" using H unfolding holds_at_def by blast+
  have len: "am_length A d oa = length xs" using reads oa unfolding reads_ok_def by blast
  obtain json where json: "annotation_to_json C a = Inr json" "annotation_from_json C json = Inr a"
    using C a unfolding codec_ok_def by blast
  obtain c d1 where 1: "am_insert_object A oa (length xs) MapType d = (Inr c, d1)" "V d c = None"
      "V d1 = (V d)(oa \<mapsto> ListObj (xs @ [Ref MapType c]), c \<mapsto> empty_object MapType)"
      "\<And>file. synced file d \<Longrightarrow> synced file d1"
    using insert_object_ok [OF A oa] by metis
  have v1: "V d1 c = Some (MapObj Map.empty)" using 1(3) by (simp add: empty_object_def)
  obtain d2 where 2: "put_fields A c [(''kind'', kind_str a), (''data'', json)] d1 = (Inr (), d2)"
      "V d2 = (V d1)(c \<mapsto> MapObj (Map.empty ++ str_slots (rev [(''kind'', kind_str a), (''data'', json)])))"
      "\<And>file. synced file d1 \<Longrightarrow> synced file d2"
    using put_fields_ok [OF A v1] by metis
  have "put_annotation A C a d = (Inr (), d2)"
    using 1(1) 2(1) json(1) len get_object_ref [where m = "''annotations list not found in document''", OF reads r]
    by (simp add: put_annotation_def del: put_fields.simps)
  moreover have "holds A C V d2 (D\<lparr>sd_annotations := sd_annotations D @ [a]\<rparr>)"
  proof -
    have V2: "V d2 = (V d)(oa \<mapsto> ListObj (xs @ [Ref MapType c]), c \<mapsto> MapObj (str_slots (rev [(''kind'', kind_str a), (''data'', json)])))"
      using 1(3) 2(2) by simp
    have fresh: "c \<noteq> om" "c \<noteq> oh" "c \<noteq> oa" "c \<noteq> am_root A" "oa \<noteq> om" "oa \<noteq> oh" "oa \<noteq> am_root A"
      using 1(2) H unfolding holds_at_def by auto
    have new: "annotation_object C a (V d2 c)"
      using V2 json(2) by (simp add: annotation_object_def str_slots_def)
    have frame: "message_object C e (V d c') \<Longrightarrow> message_object C e (V d2 c')"
        "annotation_object C b (V d c') \<Longrightarrow> annotation_object C b (V d2 c')" for c' e b
      using 1(2) V2 oa by (auto simp: message_object_def annotation_object_def)
    have "holds_at A C (V d2) (D\<lparr>sd_annotations := sd_annotations D @ [a]\<rparr>) oh om oa f (xs @ [Ref MapType c])"
      unfolding holds_at_def
    proof (intro conjI allI, goal_cases)
      case (9 k)
      have "rel_option (message_slot C (V d) om) (bt_get (sd_messages D) k) (f k)" using H unfolding holds_at_def by blast
      then have "rel_option (message_slot C (V d2) om) (bt_get (sd_messages D) k) (f k)"
        by (rule option.rel_mono_strong) (auto simp: message_slot_def frame)
      then show ?case by simp
    next
      case 10
      have "list_all2 (annotation_slot C (V d) om) (sd_annotations D) xs" using H unfolding holds_at_def by blast
      then have "list_all2 (annotation_slot C (V d2) om) (sd_annotations D) xs"
        by (rule list_all2_mono) (auto simp: annotation_slot_def frame)
      with new fresh show ?case by (simp add: list_all2_appendI annotation_slot_def)
    qed (use H V2 fresh in \<open>auto simp: holds_at_def\<close>)
    then show ?thesis unfolding holds_def by blast
  qed
  ultimately show ?thesis using that 1(4) 2(3) by blast
qed

section \<open>Reading gives what a document holds\<close>

lemma holds_inv: "holds A C V d D \<Longrightarrow> bt_inv (sd_messages D) \<and> (\<forall>k e. bt_get (sd_messages D) k = Some e \<longrightarrow> me_id e = k)"
  unfolding holds_def holds_at_def by blast

lemma holds_view: "holds A C V d D \<Longrightarrow> V d' = V d \<Longrightarrow> holds A C V d' D"
  unfolding holds_def by simp

lemma read_header_ok:
  assumes "reads_ok A V" "codec_ok C M N" "holds A C V d D"
  shows "read_header A C d = Inr (sd_header D)"
proof -
  obtain oh om oa f xs where H: "holds_at A C (V d) D oh om oa f xs" using assms(3) unfolding holds_def by blast
  then obtain r where r: "V d (am_root A) = Some (MapObj r)" "r KEY_HEADER = Some (Ref MapType oh)"
    unfolding holds_at_def by blast
  have oh: "V d oh = Some (MapObj (map_option Str \<circ> map_of (header_fields C (sd_header D))))" using H unfolding holds_at_def by blast
  have field: "map_of (header_fields C (sd_header D)) k = Some s \<Longrightarrow> get_str_field A oh k m d = Inr s" for k s m
    by (rule get_str_field_str [OF assms(1) oh]) simp
  have opt: "map_of (header_fields C (sd_header D)) k = v \<Longrightarrow> get_opt_str A oh k d = Inr v" for k v
    by (rule get_opt_str_str [OF assms(1) oh]) simp
  have time: "parse_rfc3339 C (to_rfc3339 C t) = Inr t" for t using assms(2) unfolding codec_ok_def by blast
  have strs: "get_str_field A oh ''session_id'' m d = Inr (he_session_id (sd_header D))"
      "get_str_field A oh ''created_at'' m d = Inr (to_rfc3339 C (he_created_at (sd_header D)))"
      "get_str_field A oh ''cwd'' m d = Inr (he_cwd (sd_header D))"
      "get_str_field A oh ''model'' m d = Inr (he_model (sd_header D))"
      "get_str_field A oh ''version'' m d = Inr (he_version (sd_header D))" for m
    by (rule field, simp add: header_fields_def)+
  have opts: "get_opt_str A oh ''agent'' d = Inr (he_agent (sd_header D))"
      "get_opt_str A oh ''parent_session_id'' d = Inr (he_parent_session_id (sd_header D))"
      "get_opt_str A oh ''worktree_path'' d = Inr (he_worktree_path (sd_header D))"
      "get_opt_str A oh ''worktree_branch'' d = Inr (he_worktree_branch (sd_header D))"
    by (rule opt, simp add: header_fields_def map_of_append map_add_def split: option.splits)+
  show ?thesis
    unfolding read_header_def get_object_ref [where m = "''header not found in document''", OF assms(1) r]
    by (simp add: strs opts time)
qed

lemma read_message_ok:
  assumes "reads_ok A V" "codec_ok C M N" "V d om = Some (MapObj f)" "f k = Some s" "message_slot C (V d) om e s" "me_id e = k"
  shows "read_message A C d om k = Inr e"
proof -
  obtain c where c: "s = Ref MapType c" "message_object C e (V d c)" using assms(5) unfolding message_slot_def by blast
  then obtain g json where g: "V d c = Some (MapObj g)" "g ''parent_id'' = map_option Str (parent_id e)"
      "g ''message_json'' = Some (Str json)" "message_from_json C json = Inr (message e)"
      "g ''timestamp'' = Some (Str (to_rfc3339 C (timestamp e)))"
    unfolding message_object_def by blast
  have time: "parse_rfc3339 C (to_rfc3339 C t) = Inr t" for t using assms(2) unfolding codec_ok_def by blast
  have "get_object A om k MapType m d = Inr c" for m using get_object_ref [OF assms(1,3)] assms(4) c(1) by metis
  moreover note get_opt_str_str [OF assms(1) g(1,2)] get_str_field_str [OF assms(1) g(1,3)] get_str_field_str [OF assms(1) g(1,5)]
  ultimately show ?thesis using g(4) time assms(6) by (simp add: read_message_def)
qed

lemma read_messages_ok:
  assumes "reads_ok A V" "codec_ok C M N" "holds A C V d D"
  shows "read_messages A C d = Inr (map snd (sd_messages D))"
proof -
  obtain oh om oa f xs where H: "holds_at A C (V d) D oh om oa f xs" using assms(3) unfolding holds_def by blast
  then obtain r where r: "V d (am_root A) = Some (MapObj r)" "r KEY_MESSAGES = Some (Ref MapType om)"
    unfolding holds_at_def by blast
  have om: "V d om = Some (MapObj f)" and inv: "bt_inv (sd_messages D)" using H unfolding holds_at_def by blast+
  have rel: "rel_option (message_slot C (V d) om) (bt_get (sd_messages D) k) (f k)" for k using H unfolding holds_at_def by blast
  have "set (am_keys A d om) = dom f" "sorted_wrt (<) (am_keys A d om)" using assms(1) om unfolding reads_ok_def by blast+
  moreover have "dom f = set (bt_keys (sd_messages D))"
  proof -
    have "f k = None \<longleftrightarrow> bt_get (sd_messages D) k = None" for k using rel [of k] by (cases "f k"; cases "bt_get (sd_messages D) k") auto
    then show ?thesis using btree.keys_get [OF inv] by (auto simp: dom_def)
  qed
  ultimately have keys: "am_keys A d om = bt_keys (sd_messages D)"
    using inv unfolding bt_inv_def by (metis sorted_distinct_set_unique strict_sorted_iff)
  have each: "read_message A C d om (fst p) = Inr (snd p)" if p: "p \<in> set (sd_messages D)" for p
  proof -
    have g: "bt_get (sd_messages D) (fst p) = Some (snd p)" using p btree.entry_get [OF inv] by (metis prod.collapse)
    then have "me_id (snd p) = fst p" using H unfolding holds_at_def by blast
    moreover obtain s where "f (fst p) = Some s" "message_slot C (V d) om (snd p) s"
      using rel [of "fst p"] g by (auto simp: option_rel_Some1)
    ultimately show ?thesis using read_message_ok [OF assms(1,2) om] by blast
  qed
  have "map_results (read_message A C d om) (map fst ps) = Inr (map snd ps)" if "set ps \<subseteq> set (sd_messages D)" for ps
    using that by (induction ps) (auto simp: each)
  then show ?thesis
    unfolding read_messages_def get_object_ref [where m = "''messages map not found in document''", OF assms(1) r]
    by (simp add: keys)
qed

lemma read_annotations_ok:
  assumes "reads_ok A V" "holds A C V d D"
  shows "read_annotations A C d = Inr (sd_annotations D)"
proof -
  obtain oh om oa f xs where H: "holds_at A C (V d) D oh om oa f xs" using assms(2) unfolding holds_def by blast
  then obtain r where r: "V d (am_root A) = Some (MapObj r)" "r KEY_ANNOTATIONS = Some (Ref ListType oa)"
    unfolding holds_at_def by blast
  have oa: "V d oa = Some (ListObj xs)" and all: "list_all2 (annotation_slot C (V d) om) (sd_annotations D) xs"
    using H unfolding holds_at_def by blast+
  have len: "am_length A d oa = length (sd_annotations D)" using assms(1) oa list_all2_lengthD [OF all] unfolding reads_ok_def by metis
  have each: "read_annotation A C d oa i = Inr (sd_annotations D ! i)" if i: "i < length (sd_annotations D)" for i
  proof -
    obtain c where c: "xs ! i = Ref MapType c" "annotation_object C (sd_annotations D ! i) (V d c)"
      using list_all2_nthD [OF all i] unfolding annotation_slot_def by blast
    obtain g json where g: "V d c = Some (MapObj g)" "g ''data'' = Some (Str json)" "annotation_from_json C json = Inr (sd_annotations D ! i)"
      using c(2) unfolding annotation_object_def by blast
    have "i < length xs" using i list_all2_lengthD [OF all] by simp
    then obtain v where "am_get_index A d oa i = Inr v" "slot_shows (Some (xs ! i)) v" using assms(1) oa unfolding reads_ok_def by meson
    then have "am_get_index A d oa i = Inr (Some (Object MapType, c))" using c(1) by simp
    then show ?thesis using get_str_field_str [OF assms(1) g(1,2)] g(3) by (simp add: read_annotation_def)
  qed
  have "map_results (read_annotation A C d oa) [0..<length (sd_annotations D)] = Inr (map ((!) (sd_annotations D)) [0..<length (sd_annotations D)])"
    by (rule map_results_Inr) (simp add: each)
  then show ?thesis
    unfolding read_annotations_def get_object_ref [where m = "''annotations list not found in document''", OF assms(1) r]
    by (simp add: len map_nth)
qed

definition entries_of :: "('m, 'j, 't) session_doc \<Rightarrow> ('m, 'j, 't) session_entry list" where
  "entries_of D = Header (sd_header D) # map Message (map snd (sd_messages D)) @ map into_session_entry (sd_annotations D)"

lemma to_session_entries_ok:
  assumes "automerge_ok A V synced" "codec_ok C M N" "holds A C V d D"
  shows "to_session_entries A C d = Inr (entries_of D)"
proof -
  have r: "reads_ok A V" using assms(1) by (simp add: automerge_ok_def)
  show ?thesis
    by (simp add: to_session_entries_def entries_of_def read_header_ok [OF r assms(2,3)] read_messages_ok [OF r assms(2,3)]
        read_annotations_ok [OF r assms(3)])
qed

end
