(* ===== verification/Transcript.thy ===== *)
theory Transcript
  imports Message
begin

text \<open>
  The messages of a conversation as sessions store them, \<^verbatim>\<open>crates/clanker-message/src/transcript.rs\<close>.
  Time stamps and JSON values are only carried; they are the type parameters \<open>'t\<close> and \<open>'v\<close>.
\<close>

record ('v, 't) user_message =
  um_id :: message_id
  um_content :: "'v content list"
  um_timestamp :: 't

record ('v, 't) assistant_message =
  am_id :: message_id
  am_content :: "'v content list"
  am_model :: string
  am_usage :: usage
  am_stop_reason :: stop_reason
  am_timestamp :: 't

record ('v, 't) tool_result_message =
  tm_id :: message_id
  tm_call_id :: string
  tm_tool_name :: string
  tm_content :: "'v content list"
  tm_is_error :: bool
  tm_details :: "'v option"
  tm_timestamp :: 't

record 't bash_execution_message =
  bm_id :: message_id
  bm_command :: string
  bm_stdout :: string
  bm_stderr :: string
  bm_exit_code :: "32 word option"
  bm_timestamp :: 't

record ('v, 't) custom_message =
  cm_id :: message_id
  cm_kind :: string
  cm_data :: 'v
  cm_timestamp :: 't

record 't branch_summary_message =
  bs_id :: message_id
  bs_from_id :: message_id
  bs_summary :: string
  bs_timestamp :: 't

record 't compaction_summary_message =
  cs_id :: message_id
  cs_compacted_ids :: "message_id list"
  cs_summary :: string
  cs_tokens_saved :: u64
  cs_timestamp :: 't

datatype ('v, 't) agent_message =
    UserMsg "('v, 't) user_message"
  | AssistantMsg "('v, 't) assistant_message"
  | ToolResultMsg "('v, 't) tool_result_message"
  | BashExecutionMsg "'t bash_execution_message"
  | CustomMsg "('v, 't) custom_message"
  | BranchSummaryMsg "'t branch_summary_message"
  | CompactionSummaryMsg "'t compaction_summary_message"

fun agent_message_id :: "('v, 't) agent_message \<Rightarrow> message_id" where
  "agent_message_id (UserMsg m) = um_id m"
| "agent_message_id (AssistantMsg m) = am_id m"
| "agent_message_id (ToolResultMsg m) = tm_id m"
| "agent_message_id (BashExecutionMsg m) = bm_id m"
| "agent_message_id (CustomMsg m) = cm_id m"
| "agent_message_id (BranchSummaryMsg m) = bs_id m"
| "agent_message_id (CompactionSummaryMsg m) = cs_id m"

fun message_timestamp :: "('v, 't) agent_message \<Rightarrow> 't" where
  "message_timestamp (UserMsg m) = um_timestamp m"
| "message_timestamp (AssistantMsg m) = am_timestamp m"
| "message_timestamp (ToolResultMsg m) = tm_timestamp m"
| "message_timestamp (BashExecutionMsg m) = bm_timestamp m"
| "message_timestamp (CustomMsg m) = cm_timestamp m"
| "message_timestamp (BranchSummaryMsg m) = bs_timestamp m"
| "message_timestamp (CompactionSummaryMsg m) = cs_timestamp m"

fun is_user :: "('v, 't) agent_message \<Rightarrow> bool" where
  "is_user (UserMsg m) \<longleftrightarrow> True"
| "is_user _ \<longleftrightarrow> False"

fun is_assistant :: "('v, 't) agent_message \<Rightarrow> bool" where
  "is_assistant (AssistantMsg m) \<longleftrightarrow> True"
| "is_assistant _ \<longleftrightarrow> False"

fun role :: "('v, 't) agent_message \<Rightarrow> string" where
  "role (AssistantMsg m) = ''assistant''"
| "role _ = ''user''"

text \<open>\<^verbatim>\<open>set_message_id\<close> of \<^verbatim>\<open>crates/clankers-session/src/lib.rs\<close>.\<close>

fun set_message_id :: "message_id \<Rightarrow> ('v, 't) agent_message \<Rightarrow> ('v, 't) agent_message" where
  "set_message_id i (UserMsg m) = UserMsg (m\<lparr>um_id := i\<rparr>)"
| "set_message_id i (AssistantMsg m) = AssistantMsg (m\<lparr>am_id := i\<rparr>)"
| "set_message_id i (ToolResultMsg m) = ToolResultMsg (m\<lparr>tm_id := i\<rparr>)"
| "set_message_id i (BashExecutionMsg m) = BashExecutionMsg (m\<lparr>bm_id := i\<rparr>)"
| "set_message_id i (CustomMsg m) = CustomMsg (m\<lparr>cm_id := i\<rparr>)"
| "set_message_id i (BranchSummaryMsg m) = BranchSummaryMsg (m\<lparr>bs_id := i\<rparr>)"
| "set_message_id i (CompactionSummaryMsg m) = CompactionSummaryMsg (m\<lparr>cs_id := i\<rparr>)"

lemma message_id_set [simp]: "agent_message_id (set_message_id i m) = i"
  by (cases m) simp_all

lemma set_message_id_own [simp]: "set_message_id (agent_message_id m) m = m"
  by (cases m) simp_all

lemma set_message_id_set [simp]: "set_message_id i (set_message_id j m) = set_message_id i m"
  by (cases m) simp_all

end
