(* ===== verification/Text.thy ===== *)
theory Text
  imports Prelude
begin

text \<open>
  What the tool host uses of \<^verbatim>\<open>str\<close> and \<^verbatim>\<open>Path\<close>, on the UTF-8 bytes of a string: characters and
  character boundaries, ASCII case, substrings, lines, and the components of a Unix path. A path is
  the string of its bytes.
\<close>

section \<open>Characters\<close>

text \<open>A continuation byte of UTF-8 starts no character.\<close>

definition is_continuation :: "char \<Rightarrow> bool" where
  "is_continuation c \<longleftrightarrow> (128 :: nat) \<le> of_char c \<and> of_char c < (192 :: nat)"

definition is_char_boundary :: "string \<Rightarrow> nat \<Rightarrow> bool" where
  "is_char_boundary s i \<longleftrightarrow> i = 0 \<or> i = length s \<or> (i < length s \<and> \<not> is_continuation (s ! i))"

text \<open>\<^verbatim>\<open>str::chars\<close>, each character as its bytes.\<close>

function str_chars :: "string \<Rightarrow> string list" where
  "str_chars [] = []"
| "str_chars (b # bs) = (b # takeWhile is_continuation bs) # str_chars (dropWhile is_continuation bs)"
  by pat_completeness auto
termination by (relation "measure length") (simp_all add: le_imp_less_Suc length_dropWhile_le)

definition take_chars :: "nat \<Rightarrow> string \<Rightarrow> string" where
  "take_chars n s = concat (take n (str_chars s))"

definition char_count :: "string \<Rightarrow> nat" where
  "char_count s = length (str_chars s)"

lemma concat_str_chars [simp]: "concat (str_chars s) = s"
  by (induction s rule: str_chars.induct) simp_all

lemma str_chars_eq_Nil [simp]: "str_chars s = [] \<longleftrightarrow> s = []"
  by (cases s) simp_all

lemma take_chars_prefix: "prefix (take_chars n s) s"
  unfolding take_chars_def prefix_def
  by (intro exI [of _ "concat (drop n (str_chars s))"])
     (simp add: concat_append [symmetric] del: concat_append)

lemma take_chars_all: "char_count s \<le> n \<Longrightarrow> take_chars n s = s"
  by (simp add: take_chars_def char_count_def)

text \<open>Splitting at a byte that starts a character splits the characters.\<close>

lemma str_chars_append:
  "t = [] \<or> \<not> is_continuation (hd t) \<Longrightarrow> str_chars (s @ t) = str_chars s @ str_chars t"
proof (induction s rule: str_chars.induct)
  case (2 b bs)
  have "takeWhile is_continuation (bs @ t) = takeWhile is_continuation bs \<and>
      dropWhile is_continuation (bs @ t) = dropWhile is_continuation bs @ t"
    using 2(2) by (induction bs) (cases t; auto)+
  then show ?case using 2 by simp
qed simp

lemma concat_prefix_chars: "str_chars (concat (take n (str_chars s))) = take n (str_chars s)"
proof (induction s arbitrary: n rule: str_chars.induct)
  case (2 b bs)
  show ?case
  proof (cases n)
    case (Suc m)
    let ?t = "concat (take m (str_chars (dropWhile is_continuation bs)))"
    have "?t = [] \<or> \<not> is_continuation (hd ?t)"
    proof (cases "dropWhile is_continuation bs")
      case (Cons x xs)
      then have "\<not> is_continuation x" by (metis hd_dropWhile list.sel(1) list.distinct(1))
      with Cons show ?thesis by (cases m) auto
    next
      case Nil
      then show ?thesis by (simp only: str_chars.simps take_Nil concat.simps simp_thms)
    qed
    then have "str_chars ((b # takeWhile is_continuation bs) @ ?t) =
        str_chars (b # takeWhile is_continuation bs) @ str_chars ?t"
      by (rule str_chars_append)
    moreover have "takeWhile is_continuation (takeWhile is_continuation bs) = takeWhile is_continuation bs"
      and "dropWhile is_continuation (takeWhile is_continuation bs) = []"
      by (auto simp: takeWhile_eq_all_conv dropWhile_eq_Nil_conv dest: set_takeWhileD)
    ultimately show ?thesis using 2 [of m] Suc by simp
  qed simp
qed simp

lemma char_count_take_chars: "char_count (take_chars n s) = min n (char_count s)"
  by (simp add: char_count_def take_chars_def concat_prefix_chars)

section \<open>Substrings and ASCII case\<close>

abbreviation contains_str :: "string \<Rightarrow> string \<Rightarrow> bool" where
  "contains_str s p \<equiv> find_sub p s \<noteq> None"

lemma contains_str_iff: "contains_str s p \<longleftrightarrow> sublist p s"
proof
  assume "contains_str s p"
  then obtain k where "find_sub p s = Some k" by blast
  from find_sub_Some [OF this] show "sublist p s" by (auto simp: sublist_def)
next
  assume "sublist p s"
  then show "contains_str s p" unfolding sublist_def using find_sub_least by (metis option.distinct(1))
qed

lemma contains_prefix: "prefix s t \<Longrightarrow> contains_str s p \<Longrightarrow> contains_str t p"
  unfolding contains_str_iff by (metis prefix_imp_sublist sublist_order.order.trans)

definition to_ascii_lower :: "char \<Rightarrow> char" where
  "to_ascii_lower c = (if (65 :: nat) \<le> of_char c \<and> of_char c \<le> (90 :: nat) then char_of (of_char c + (32 :: nat)) else c)"

definition to_ascii_lowercase :: "string \<Rightarrow> string" where
  "to_ascii_lowercase s = map to_ascii_lower s"

definition is_ascii_uppercase :: "char \<Rightarrow> bool" where
  "is_ascii_uppercase c \<longleftrightarrow> (65 :: nat) \<le> of_char c \<and> of_char c \<le> (90 :: nat)"

definition is_ascii_lowercase :: "char \<Rightarrow> bool" where
  "is_ascii_lowercase c \<longleftrightarrow> (97 :: nat) \<le> of_char c \<and> of_char c \<le> (122 :: nat)"

definition is_ascii_digit :: "char \<Rightarrow> bool" where
  "is_ascii_digit c \<longleftrightarrow> (48 :: nat) \<le> of_char c \<and> of_char c \<le> (57 :: nat)"

definition is_ascii_alphanumeric :: "char \<Rightarrow> bool" where
  "is_ascii_alphanumeric c \<longleftrightarrow> is_ascii_uppercase c \<or> is_ascii_lowercase c \<or> is_ascii_digit c"

definition is_ascii_hexdigit :: "char \<Rightarrow> bool" where
  "is_ascii_hexdigit c \<longleftrightarrow> is_ascii_digit c \<or> (65 :: nat) \<le> of_char c \<and> of_char c \<le> (70 :: nat) \<or>
     (97 :: nat) \<le> of_char c \<and> of_char c \<le> (102 :: nat)"

lemma to_ascii_lowercase_append [simp]: "to_ascii_lowercase (s @ t) = to_ascii_lowercase s @ to_ascii_lowercase t"
  by (simp add: to_ascii_lowercase_def)

lemma prefix_to_ascii_lowercase: "prefix s t \<Longrightarrow> prefix (to_ascii_lowercase s) (to_ascii_lowercase t)"
  by (auto simp: prefix_def)

section \<open>Lines\<close>

text \<open>\<^verbatim>\<open>str::split_inclusive\<close> at a character, and the number of \<^verbatim>\<open>str::lines\<close>, which are its pieces at
  line feeds without their endings.\<close>

fun split_inclusive :: "char \<Rightarrow> string \<Rightarrow> string list" where
  "split_inclusive c [] = []"
| "split_inclusive c (x # xs) =
     (if x = c then [x] # split_inclusive c xs
      else case split_inclusive c xs of [] \<Rightarrow> [[x]] | p # ps \<Rightarrow> (x # p) # ps)"

abbreviation newline :: char where "newline \<equiv> CHR 0x0A"

lemma concat_split_inclusive [simp]: "concat (split_inclusive c s) = s"
  by (induction c s rule: split_inclusive.induct) (auto split: list.splits)

lemma split_inclusive_eq_Nil [simp]: "split_inclusive c s = [] \<longleftrightarrow> s = []"
  by (cases s) (auto split: list.splits)

lemma split_inclusive_piece:
  "c \<notin> set p \<Longrightarrow> split_inclusive c (p @ c # s) = (p @ [c]) # split_inclusive c s"
  by (induction p) (auto split: list.splits)

lemma split_inclusive_last: "p \<noteq> [] \<Longrightarrow> c \<notin> set p \<Longrightarrow> split_inclusive c p = [p]"
proof (induction p)
  case (Cons x p)
  then show ?case by (cases "p = []") auto
qed simp

text \<open>\<^verbatim>\<open>[String]::join\<close>\<close>

fun join_with :: "string \<Rightarrow> string list \<Rightarrow> string" where
  "join_with sep [] = []"
| "join_with sep [s] = s"
| "join_with sep (s # t # ss) = s @ sep @ join_with sep (t # ss)"

lemma split_on_pieces: "p \<in> set (split_on c s) \<Longrightarrow> c \<notin> set p"
  by (induction c s arbitrary: p rule: split_on.induct) (auto split: if_splits list.splits)

lemma split_on_join: "\<forall>x\<in>set xs. c \<notin> set x \<Longrightarrow> xs \<noteq> [] \<Longrightarrow> split_on c (join_with [c] xs) = xs"
  by (induction "[c]" xs rule: join_with.induct) (auto simp: split_on_absent split_on_append)

lemma join_with_inj:
  "join_with [c] xs = join_with [c] ys \<Longrightarrow> \<forall>x\<in>set xs \<union> set ys. c \<notin> set x \<Longrightarrow> xs \<noteq> [] \<Longrightarrow> ys \<noteq> [] \<Longrightarrow> xs = ys"
  by (metis Un_iff split_on_join)

lemma set_join_with: "set (join_with sep xs) \<subseteq> set sep \<union> \<Union> (set ` set xs)"
  by (induction sep xs rule: join_with.induct) auto

lemma append_separator_eq: "c \<notin> set a \<Longrightarrow> c \<notin> set b \<Longrightarrow> a @ c # x = b @ c # y \<Longrightarrow> a = b \<and> x = y"
  by (induction a arbitrary: b) (metis append_Nil append_Cons list.inject list.set_intros(1) neq_Nil_conv, metis append_Cons append_Nil list.exhaust list.inject list.set_intros)

section \<open>Paths\<close>

text \<open>\<^verbatim>\<open>Path::components\<close> on Unix: repeated separators and dots vanish, except a leading dot of a
  relative path; parent components stay. \<^verbatim>\<open>Path::starts_with\<close> compares components. \<^verbatim>\<open>PathBuf::join\<close>.\<close>

definition path_components :: "string \<Rightarrow> string list" where
  "path_components p = (let qs = split_on (CHR ''/'') p; keep = filter (\<lambda>q. q \<noteq> [] \<and> q \<noteq> ''.'')
     in if prefix ''/'' p then ''/'' # keep (tl qs)
        else (if hd qs = [] then [] else [hd qs]) @ keep (tl qs))"

definition path_starts_with :: "string \<Rightarrow> string \<Rightarrow> bool" where
  "path_starts_with p base \<longleftrightarrow> prefix (path_components base) (path_components p)"

definition path_join :: "string \<Rightarrow> string \<Rightarrow> string" where
  "path_join base p = (if prefix ''/'' p \<or> base = [] then p
     else if suffix ''/'' base then base @ p else base @ ''/'' @ p)"

section \<open>Trimming\<close>

definition is_graphic :: "char \<Rightarrow> bool" where
  "is_graphic c \<longleftrightarrow> (33 :: nat) \<le> of_char c \<and> of_char c \<le> (126 :: nat)"

lemma white_space_not_graphic:
  "w \<in> set white_space \<Longrightarrow> w \<noteq> [] \<and> \<not> is_graphic (hd w) \<and> \<not> is_graphic (last w)"
  by (auto simp: white_space_def bytes_of_def is_graphic_def)

text \<open>Trimming leaves a string alone when its ends are printable ASCII characters.\<close>

lemma trim_plain:
  assumes "s \<noteq> []" "is_graphic (hd s)" "is_graphic (last s)"
  shows "trim s = s"
proof -
  have "find (\<lambda>w. prefix w s) white_space = None"
    using assms(1,2) white_space_not_graphic by (auto simp: find_None_iff prefix_def)
  then have st: "trim_start s = s" by (cases "length s") (simp_all add: trim_start_def)
  have "find (\<lambda>w. suffix w s) white_space = None"
    using assms(1,3) white_space_not_graphic by (auto simp: find_None_iff suffix_def)
  then have "trim_end s = s" by (cases "length s") (simp_all add: trim_end_def)
  with st show ?thesis by (simp add: trim_def)
qed

end
