(* ===== verification/Session_Files.thy ===== *)
theory Session_Files
  imports Automerge_Store Transcript Text
begin

text \<open>
  The files of sessions: \<^verbatim>\<open>store.rs\<close>, \<^verbatim>\<open>session_format.rs\<close> and the file operations and the migration of
  \<^verbatim>\<open>automerge_store.rs\<close>, below \<^verbatim>\<open>crates/clankers-session/src\<close>. A session is an Automerge file or a JSONL
  file of an older release; where both lie in a directory their order decides which one is resumed.
  The file system is a record of functions on a world of any type; reading does not change it.
\<close>

section \<open>Paths and lines\<close>

text \<open>\<^verbatim>\<open>Path::parent\<close>, \<^verbatim>\<open>Path::file_name\<close>, \<^verbatim>\<open>Path::extension\<close> and \<^verbatim>\<open>Path::with_extension\<close> on Unix, up to repeated
  separators, which do not change the path they name; and \<^verbatim>\<open>str::lines\<close>.\<close>

definition path_of_components :: "string list \<Rightarrow> string" where
  "path_of_components cs = (case cs of
     [] \<Rightarrow> []
   | c # rest \<Rightarrow> if c = ''/'' then ''/'' @ join_with ''/'' rest else join_with ''/'' cs)"

definition path_parent :: "string \<Rightarrow> string option" where
  "path_parent p = (let cs = path_components p
     in if cs = [] \<or> cs = [''/''] then None else Some (path_of_components (butlast cs)))"

definition path_file_name :: "string \<Rightarrow> string option" where
  "path_file_name p = (let cs = path_components p
     in if cs = [] \<or> last cs \<in> {''/'', ''.'', ''..''} then None else Some (last cs))"

definition dot :: char where "dot = CHR ''.''"

definition name_stem :: "string \<Rightarrow> string" where
  "name_stem n = (let pieces = split_on dot n in if length pieces = 1 \<or> join_with [dot] (butlast pieces) = [] then n
     else join_with [dot] (butlast pieces))"

definition path_extension :: "string \<Rightarrow> string option" where
  "path_extension p = (case path_file_name p of
     None \<Rightarrow> None
   | Some n \<Rightarrow> if name_stem n = n then None else Some (last (split_on dot n)))"

definition with_extension :: "string \<Rightarrow> string \<Rightarrow> string" where
  "with_extension p ext = (case path_file_name p of
     None \<Rightarrow> p
   | Some n \<Rightarrow> (let renamed = name_stem n @ (if ext = [] then [] else dot # ext)
       in if suffix n p then take (length p - length n) p @ renamed
          else path_of_components (butlast (path_components p) @ [renamed])))"

definition strip_line :: "string \<Rightarrow> string" where
  "strip_line s = (if suffix [newline] s
     then (let t = butlast s in if suffix [CHR 0x0D] t then butlast t else t) else s)"

definition str_lines :: "string \<Rightarrow> string list" where
  "str_lines s = map strip_line (split_inclusive newline s)"

section \<open>The file system\<close>

record ('w, 'b) session_fs =
  fs_create_dir_all :: "string \<Rightarrow> 'w \<Rightarrow> (string + unit) \<times> 'w"
  fs_write :: "string \<Rightarrow> 'b list \<Rightarrow> 'w \<Rightarrow> (string + unit) \<times> 'w"
  fs_append :: "string \<Rightarrow> 'b list \<Rightarrow> 'w \<Rightarrow> (string + unit) \<times> 'w"
  fs_rename :: "string \<Rightarrow> string \<Rightarrow> 'w \<Rightarrow> (string + unit) \<times> 'w"
  fs_copy :: "string \<Rightarrow> string \<Rightarrow> 'w \<Rightarrow> (string + unit) \<times> 'w"
  fs_remove_file :: "string \<Rightarrow> 'w \<Rightarrow> (string + unit) \<times> 'w"
  fs_read :: "'w \<Rightarrow> string \<Rightarrow> string + 'b list"
  fs_read_to_string :: "'w \<Rightarrow> string \<Rightarrow> string + string"
  fs_exists :: "'w \<Rightarrow> string \<Rightarrow> bool"
  fs_is_dir :: "'w \<Rightarrow> string \<Rightarrow> bool"
  fs_read_dir :: "'w \<Rightarrow> string \<Rightarrow> string list"

text \<open>What the standard library promises of the operations that succeed.\<close>

definition fs_ok :: "('w, 'b) session_fs \<Rightarrow> bool" where
  "fs_ok F \<longleftrightarrow>
     (\<forall>p bs w w'. fs_write F p bs w = (Inr (), w') \<longrightarrow> fs_read F w' p = Inr bs) \<and>
     (\<forall>p bs w w' old. fs_append F p bs w = (Inr (), w') \<longrightarrow> fs_read F w p = Inr old \<longrightarrow> fs_read F w' p = Inr (old @ bs))"

section \<open>Saving and loading\<close>

definition create_parent :: "('w, 'b) session_fs \<Rightarrow> string \<Rightarrow> 'w \<Rightarrow> (string + unit) \<times> 'w" where
  "create_parent F p = (case path_parent p of None \<Rightarrow> done_doc () | Some dir \<Rightarrow> fs_create_dir_all F dir)"

definition save_document ::
  "('d, 'o, 'b) automerge \<Rightarrow> ('w, 'b) session_fs \<Rightarrow> string \<Rightarrow> 'd \<Rightarrow> 'w \<Rightarrow> (string + unit) \<times> 'd \<times> 'w" where
  "save_document A F p d w = (case create_parent F p w of
     (Inl e, w') \<Rightarrow> (Inl e, d, w')
   | (Inr _, w') \<Rightarrow> (let (chunk, d') = am_save A d; (r, w'') = fs_write F p chunk w' in (r, d', w'')))"

definition load_document :: "('d, 'o, 'b) automerge \<Rightarrow> ('w, 'b) session_fs \<Rightarrow> string \<Rightarrow> 'w \<Rightarrow> string + 'd" where
  "load_document A F p w = bind_result (fs_read F w p) (am_load A)"

definition save_incremental ::
  "('d, 'o, 'b) automerge \<Rightarrow> ('w, 'b) session_fs \<Rightarrow> string \<Rightarrow> 'd \<Rightarrow> 'w \<Rightarrow> (string + unit) \<times> 'd \<times> 'w" where
  "save_incremental A F p d w = (let (chunk, d') = am_save_incremental A d
     in if chunk = [] then (Inr (), d', w)
        else let (r, w') = fs_append F p chunk w in (r, d', w'))"

section \<open>JSONL files\<close>

text \<open>The encodings of whole entries, and the form \<^verbatim>\<open>%Y%m%d_%H%M%S\<close> of time stamps in file names.\<close>

record ('m, 'j, 't) file_codec = "('m, 'j, 't) session_codec" +
  entry_to_json :: "('m, 'j, 't) session_entry \<Rightarrow> string + string"
  entry_from_json :: "string \<Rightarrow> string + ('m, 'j, 't) session_entry"
  format_compact :: "'t \<Rightarrow> string"

definition read_entries ::
  "('m, 'j, 't) file_codec \<Rightarrow> ('w, 'b) session_fs \<Rightarrow> 'w \<Rightarrow> string \<Rightarrow> string + ('m, 'j, 't) session_entry list" where
  "read_entries C F w p = bind_result (fs_read_to_string F w p) (\<lambda>contents.
     map_results (entry_from_json C) (filter (\<lambda>line. trim line \<noteq> []) (str_lines contents)))"

section \<open>Names of session files\<close>

definition encode_cwd :: "string \<Rightarrow> string" where
  "encode_cwd cwd = map (\<lambda>c. if c \<in> {CHR ''/'', CHR 0x5C, CHR '':''} then CHR ''_'' else c) cwd"

definition session_file_path_at :: "('m, 'j, 't) file_codec \<Rightarrow> string \<Rightarrow> string \<Rightarrow> string \<Rightarrow> 't \<Rightarrow> string" where
  "session_file_path_at C sessions_dir cwd sid created_at =
     path_join (path_join sessions_dir (encode_cwd cwd)) (format_compact C created_at @ ''_'' @ sid @ ''.jsonl'')"

definition session_file_path_automerge_at :: "('m, 'j, 't) file_codec \<Rightarrow> string \<Rightarrow> string \<Rightarrow> string \<Rightarrow> 't \<Rightarrow> string" where
  "session_file_path_automerge_at C sessions_dir cwd sid created_at =
     path_join (path_join sessions_dir (encode_cwd cwd)) (format_compact C created_at @ ''_'' @ sid @ ''.automerge'')"

definition is_session_file :: "string \<Rightarrow> bool" where
  "is_session_file p \<longleftrightarrow>
     \<not> (case path_file_name p of None \<Rightarrow> False | Some n \<Rightarrow> suffix ''.ledger.jsonl'' n) \<and>
     (case path_extension p of None \<Rightarrow> False | Some ext \<Rightarrow> ext = ''jsonl'' \<or> ext = ''automerge'')"

text \<open>Paths are ordered by their components.\<close>

definition newest_first :: "string list \<Rightarrow> string list" where
  "newest_first files = rev (sort_key path_components files)"

definition list_sessions :: "('w, 'b) session_fs \<Rightarrow> 'w \<Rightarrow> string \<Rightarrow> string \<Rightarrow> string list" where
  "list_sessions F w sessions_dir cwd = (let dir = path_join sessions_dir (encode_cwd cwd)
     in if fs_is_dir F w dir then newest_first (filter is_session_file (fs_read_dir F w dir)) else [])"

definition list_all_sessions :: "('w, 'b) session_fs \<Rightarrow> 'w \<Rightarrow> string \<Rightarrow> string list option" where
  "list_all_sessions F w sessions_dir =
     (if sessions_dir = [] then None
      else Some (if fs_is_dir F w sessions_dir
        then newest_first (filter is_session_file
          (concat (map (fs_read_dir F w) (filter (fs_is_dir F w) (fs_read_dir F w sessions_dir)))))
        else []))"

definition name_contains :: "string \<Rightarrow> string \<Rightarrow> bool" where
  "name_contains s p \<longleftrightarrow> (case path_file_name p of None \<Rightarrow> False | Some n \<Rightarrow> contains_str n s)"

definition find_session_by_id :: "('w, 'b) session_fs \<Rightarrow> 'w \<Rightarrow> string \<Rightarrow> string \<Rightarrow> string \<Rightarrow> string option" where
  "find_session_by_id F w sessions_dir cwd partial =
     (let candidates = filter (name_contains partial) (list_sessions F w sessions_dir cwd)
      in case find (\<lambda>p. path_extension p = Some ''automerge'') candidates of
        Some p \<Rightarrow> Some p
      | None \<Rightarrow> (case candidates of [] \<Rightarrow> None | p # _ \<Rightarrow> Some p))"

fun remove_sessions :: "('w, 'b) session_fs \<Rightarrow> string list \<Rightarrow> 'w \<Rightarrow> (string + unit) \<times> 'w" where
  "remove_sessions F [] = done_doc ()"
| "remove_sessions F (p # ps) = then_doc (fs_remove_file F p) (\<lambda>_ w.
     let (_, w') = fs_remove_file F (with_extension p ''jsonl.bak'') w in remove_sessions F ps w')"

definition purge_sessions :: "('w, 'b) session_fs \<Rightarrow> string \<Rightarrow> string \<Rightarrow> 'w \<Rightarrow> (string + nat) \<times> 'w" where
  "purge_sessions F sessions_dir cwd w = (let files = list_sessions F w sessions_dir cwd
     in then_doc (remove_sessions F files) (\<lambda>_. done_doc (length files)) w)"

definition purge_all_sessions :: "('w, 'b) session_fs \<Rightarrow> string \<Rightarrow> 'w \<Rightarrow> ((string + nat) \<times> 'w) option" where
  "purge_all_sessions F sessions_dir w = (case list_all_sessions F w sessions_dir of
     None \<Rightarrow> None
   | Some files \<Rightarrow> Some (then_doc (remove_sessions F files) (\<lambda>_. done_doc (length files)) w))"

section \<open>Formats\<close>

fun header_entry :: "('m, 'j, 't) session_entry \<Rightarrow> 't header_entry option" where
  "header_entry (Header h) = Some h"
| "header_entry _ = None"

fun put_entry ::
  "('d, 'o, 'b) automerge \<Rightarrow> ('m, 'j, 't) file_codec \<Rightarrow> ('m, 'j, 't) session_entry \<Rightarrow> 'd \<Rightarrow> ((string + unit) \<times> 'd) option" where
  "put_entry A C (Message msg) d = put_message A (session_codec.truncate C) msg d"
| "put_entry A C e d = (case from_session_entry e of
     None \<Rightarrow> Some (Inr (), d)
   | Some a \<Rightarrow> Some (put_annotation A (session_codec.truncate C) a d))"

fun put_entries ::
  "('d, 'o, 'b) automerge \<Rightarrow> ('m, 'j, 't) file_codec \<Rightarrow> ('m, 'j, 't) session_entry list \<Rightarrow> 'd \<Rightarrow> (string + 'd) option" where
  "put_entries A C [] d = Some (Inr d)"
| "put_entries A C (e # es) d = (case put_entry A C e d of
     None \<Rightarrow> None
   | Some (Inl err, d') \<Rightarrow> Some (Inl err)
   | Some (Inr _, d') \<Rightarrow> put_entries A C es d')"

text \<open>The assertion that a header is there panics before the error of a missing header can occur.\<close>

definition build_automerge_doc_from_entries ::
  "('d, 'o, 'b) automerge \<Rightarrow> ('m, 'j, 't) file_codec \<Rightarrow> ('m, 'j, 't) session_entry list \<Rightarrow> (string + 'd) option" where
  "build_automerge_doc_from_entries A C es = (case List.map_filter header_entry es of
     [] \<Rightarrow> None
   | h # _ \<Rightarrow> (case create_document A (session_codec.truncate C) h of
       None \<Rightarrow> None
     | Some (Inl err) \<Rightarrow> Some (Inl err)
     | Some (Inr d) \<Rightarrow> put_entries A C es d))"

definition is_automerge_path :: "string \<Rightarrow> bool" where
  "is_automerge_path p \<longleftrightarrow> path_extension p = Some ''automerge''"

definition load_entries ::
  "('d, 'o, 'b) automerge \<Rightarrow> ('m, 'j, 't) file_codec \<Rightarrow> ('w, 'b) session_fs \<Rightarrow> 'w \<Rightarrow> string \<Rightarrow> string + ('m, 'j, 't) session_entry list" where
  "load_entries A C F w p =
     (if is_automerge_path p then bind_result (load_document A F p w) (to_session_entries A (session_codec.truncate C))
      else read_entries C F w p)"

definition open_as_automerge ::
  "('d, 'o, 'b) automerge \<Rightarrow> ('m, 'j, 't) file_codec \<Rightarrow> ('w, 'b) session_fs \<Rightarrow> string \<Rightarrow> 'w \<Rightarrow>
   ((string + 'd \<times> string) \<times> 'w) option" where
  "open_as_automerge A C F p w =
     (if is_automerge_path p then Some (case load_document A F p w of Inl e \<Rightarrow> (Inl e, w) | Inr d \<Rightarrow> (Inr (d, p), w))
      else case read_entries C F w p of
        Inl e \<Rightarrow> Some (Inl e, w)
      | Inr es \<Rightarrow> (case build_automerge_doc_from_entries A C es of
          None \<Rightarrow> None
        | Some (Inl e) \<Rightarrow> Some (Inl e, w)
        | Some (Inr d) \<Rightarrow> (let q = with_extension p ''automerge'' in
            case save_document A F q d w of
              (Inl e, d', w') \<Rightarrow> Some (Inl e, w')
            | (Inr _, d', w') \<Rightarrow> Some (Inr (d', q), w'))))"

text \<open>\<^verbatim>\<open>migrate_jsonl_to_automerge\<close>, the command that migrates explicitly, keeps an existing file.\<close>

datatype migrate_result = Skipped | Migrated string nat

definition migrate_jsonl_to_automerge ::
  "('d, 'o, 'b) automerge \<Rightarrow> ('m, 'j, 't) file_codec \<Rightarrow> ('w, 'b) session_fs \<Rightarrow> string \<Rightarrow> 'w \<Rightarrow>
   ((string + migrate_result) \<times> 'w) option" where
  "migrate_jsonl_to_automerge A C F p w =
     (if path_file_name p = None \<or> is_automerge_path p then None
      else let q = with_extension p ''automerge'' in
        if fs_exists F w q then Some (Inr Skipped, w)
        else case read_entries C F w p of
          Inl e \<Rightarrow> Some (Inl e, w)
        | Inr es \<Rightarrow> (case List.map_filter header_entry es of
            [] \<Rightarrow> Some (Inl ''JSONL file has no header entry'', w)
          | h # _ \<Rightarrow> (case create_document A (session_codec.truncate C) h of
              None \<Rightarrow> None
            | Some (Inl e) \<Rightarrow> Some (Inl e, w)
            | Some (Inr d) \<Rightarrow> (case put_entries A C es d of
                None \<Rightarrow> None
              | Some (Inl e) \<Rightarrow> Some (Inl e, w)
              | Some (Inr d) \<Rightarrow> (case save_document A F q d w of
                  (Inl e, d', w') \<Rightarrow> Some (Inl e, w')
                | (Inr _, d', w') \<Rightarrow> Some (case fs_rename F p (with_extension p ''jsonl.bak'') w' of
                    (Inl e, w'') \<Rightarrow> (Inl e, w'')
                  | (Inr _, w'') \<Rightarrow> (Inr (Migrated q (length (messages_of es))), w'')))))))"

definition import_destination ::
  "('d, 'o, 'b) automerge \<Rightarrow> ('m, 'j, 't) file_codec \<Rightarrow> ('w, 'b) session_fs \<Rightarrow> 'w \<Rightarrow> string \<Rightarrow> string \<Rightarrow> string + string" where
  "import_destination A C F w sessions_dir source =
     (if is_automerge_path source then
        bind_result (load_document A F source w) (\<lambda>d. bind_result (read_header A (session_codec.truncate C) d) (\<lambda>h.
          Inr (session_file_path_automerge_at C sessions_dir (he_cwd h) (he_session_id h) (he_created_at h))))
      else bind_result (read_entries C F w source) (\<lambda>es. case List.map_filter header_entry es of
          [] \<Rightarrow> Inl ''Import file has no header entry''
        | h # _ \<Rightarrow> Inr (session_file_path_at C sessions_dir (he_cwd h) (he_session_id h) (he_created_at h))))"

definition import_session ::
  "('d, 'o, 'b) automerge \<Rightarrow> ('m, 'j, 't) file_codec \<Rightarrow> ('w, 'b) session_fs \<Rightarrow> string \<Rightarrow> string \<Rightarrow> 'w \<Rightarrow> (string + string) \<times> 'w" where
  "import_session A C F sessions_dir source w = (case import_destination A C F w sessions_dir source of
     Inl e \<Rightarrow> (Inl e, w)
   | Inr dest \<Rightarrow>
       if fs_exists F w dest then (Inl (''Session already exists at '' @ dest), w)
       else then_doc (create_parent F dest) (\<lambda>_. then_doc (fs_copy F source dest) (\<lambda>_. done_doc dest)) w)"

section \<open>Summaries\<close>

text \<open>The preview is cut at byte 80; the slice panics, the value \<^term>\<open>None\<close>, inside a character.\<close>

definition MESSAGE_PREVIEW_MAX_BYTES :: nat where "MESSAGE_PREVIEW_MAX_BYTES = 80"

definition ellipsis :: string where "ellipsis = bytes_of [0xE2, 0x80, 0xA6]"

definition user_text :: "'v content list \<Rightarrow> string" where
  "user_text cs = join_with '' '' (List.map_filter (\<lambda>c. case c of ContentText t \<Rightarrow> Some t | _ \<Rightarrow> None) cs)"

definition first_user_preview :: "('v, 't) agent_message \<Rightarrow> string option option" where
  "first_user_preview msg = (case msg of
     UserMsg m \<Rightarrow> (let t = user_text (um_content m)
       in if t = [] then Some None
          else if length t > MESSAGE_PREVIEW_MAX_BYTES then
            (if is_char_boundary t MESSAGE_PREVIEW_MAX_BYTES
             then Some (Some (take MESSAGE_PREVIEW_MAX_BYTES t @ ellipsis)) else None)
          else Some (Some t))
   | _ \<Rightarrow> Some None)"

fun first_preview :: "(('v, 't) agent_message, 't) message_entry list \<Rightarrow> string option option" where
  "first_preview [] = Some None"
| "first_preview (m # ms) = (case first_user_preview (message m) of
     None \<Rightarrow> None
   | Some None \<Rightarrow> first_preview ms
   | Some (Some t) \<Rightarrow> Some (Some t))"

record 't session_summary =
  ss_session_id :: string
  ss_cwd :: string
  ss_model :: string
  ss_created_at :: 't
  ss_message_count :: nat
  ss_first_user_message :: "string option"
  ss_file_path :: string

definition summary_from_header_and_messages ::
  "'t header_entry \<Rightarrow> (('v, 't) agent_message, 't) message_entry list \<Rightarrow> string \<Rightarrow> 't session_summary option" where
  "summary_from_header_and_messages h msgs p = (case first_preview msgs of
     None \<Rightarrow> None
   | Some preview \<Rightarrow> Some \<lparr>ss_session_id = he_session_id h, ss_cwd = he_cwd h, ss_model = he_model h,
       ss_created_at = he_created_at h, ss_message_count = length msgs, ss_first_user_message = preview, ss_file_path = p\<rparr>)"

text \<open>A file that cannot be read has no summary, \<open>Some None\<close>.\<close>

definition read_session_summary ::
  "('d, 'o, 'b) automerge \<Rightarrow> (('v, 't) agent_message, 'v, 't) file_codec \<Rightarrow> ('w, 'b) session_fs \<Rightarrow> 'w \<Rightarrow> string \<Rightarrow>
   't session_summary option option" where
  "read_session_summary A C F w p =
     (let parts = (if is_automerge_path p then
           bind_result (load_document A F p w) (\<lambda>d. bind_result (read_header A (session_codec.truncate C) d) (\<lambda>h.
             bind_result (read_messages A (session_codec.truncate C) d) (\<lambda>msgs. Inr (h, msgs))))
         else bind_result (read_entries C F w p) (\<lambda>es. case List.map_filter header_entry es of
             [] \<Rightarrow> Inl []
           | h # _ \<Rightarrow> Inr (h, messages_of es)))
      in case parts of
        Inl _ \<Rightarrow> Some None
      | Inr (h, msgs) \<Rightarrow> map_option Some (summary_from_header_and_messages h msgs p))"

section \<open>Files hold documents\<close>

lemma save_document_ok:
  assumes "automerge_ok A V synced" "fs_ok F" "save_document A F p d w = (Inr (), d', w')"
  shows "V d' = V d" "\<exists>file d2. fs_read F w' p = Inr file \<and> synced file d' \<and> load_document A F p w' = Inr d2 \<and> V d2 = V d"
proof -
  obtain chunk w1 where s: "am_save A d = (chunk, d')" "fs_write F p chunk w1 = (Inr (), w')"
    using assms(3) by (auto simp: save_document_def Let_def split: prod.splits sum.splits)
  have read: "fs_read F w' p = Inr chunk" using assms(2) s(2) unfolding fs_ok_def by blast
  have "V d' = V d \<and> synced chunk d' \<and> (\<exists>d2. am_load A chunk = Inr d2 \<and> V d2 = V d \<and> synced chunk d2)"
    using assms(1) s(1) unfolding automerge_ok_def saves_ok_def by blast
  with read show "V d' = V d"
    "\<exists>file d2. fs_read F w' p = Inr file \<and> synced file d' \<and> load_document A F p w' = Inr d2 \<and> V d2 = V d"
    by (auto simp: load_document_def)
qed

lemma save_incremental_ok:
  assumes "automerge_ok A V synced" "fs_ok F" "fs_read F w p = Inr file" "synced file d"
    "save_incremental A F p d w = (Inr (), d', w')"
  shows "V d' = V d" "\<exists>file' d2. fs_read F w' p = Inr file' \<and> synced file' d' \<and> load_document A F p w' = Inr d2 \<and> V d2 = V d"
proof -
  obtain chunk where c: "am_save_incremental A d = (chunk, d')"
      "chunk = [] \<and> w' = w \<or> fs_append F p chunk w = (Inr (), w')"
    using assms(5) by (auto simp: save_incremental_def Let_def split: prod.splits if_splits)
  have read: "fs_read F w' p = Inr (file @ chunk)" using assms(2,3) c(2) unfolding fs_ok_def by auto
  have "V d' = V d \<and> synced (file @ chunk) d' \<and> (\<exists>d2. am_load A (file @ chunk) = Inr d2 \<and> V d2 = V d \<and> synced (file @ chunk) d2)"
    using assms(1,4) c(1) unfolding automerge_ok_def saves_ok_def by blast
  with read show "V d' = V d"
    "\<exists>file' d2. fs_read F w' p = Inr file' \<and> synced file' d' \<and> load_document A F p w' = Inr d2 \<and> V d2 = V d"
    by (auto simp: load_document_def)
qed

text \<open>What a list of entries puts into a document: the last message of each id, and all annotations.\<close>

fun record_entry :: "('m, 'j, 't) session_entry \<Rightarrow> ('m, 'j, 't) session_doc \<Rightarrow> ('m, 'j, 't) session_doc" where
  "record_entry (Message m) D = D\<lparr>sd_messages := bt_insert (me_id m) m (sd_messages D)\<rparr>"
| "record_entry e D = (case from_session_entry e of None \<Rightarrow> D | Some a \<Rightarrow> D\<lparr>sd_annotations := sd_annotations D @ [a]\<rparr>)"

definition doc_of_entries :: "'t header_entry \<Rightarrow> ('m, 'j, 't) session_entry list \<Rightarrow> ('m, 'j, 't) session_doc" where
  "doc_of_entries h es = fold record_entry es \<lparr>sd_header = h, sd_messages = [], sd_annotations = []\<rparr>"

definition entry_ok :: "'m set \<Rightarrow> ('j, 't) annotation_entry set \<Rightarrow> ('m, 'j, 't) session_entry \<Rightarrow> bool" where
  "entry_ok M N e \<longleftrightarrow> (case e of Message m \<Rightarrow> me_id m \<noteq> [] \<and> message m \<in> M
     | _ \<Rightarrow> (case from_session_entry e of None \<Rightarrow> True | Some a \<Rightarrow> a \<in> N))"

lemma put_entry_ok:
  assumes A: "automerge_ok A V synced" and C: "codec_ok (session_codec.truncate C) M N"
    and D: "holds A (session_codec.truncate C) V d D" and e: "entry_ok M N e"
  obtains d' where "put_entry A C e d = Some (Inr (), d')" "holds A (session_codec.truncate C) V d' (record_entry e D)"
proof (cases "as_message e")
  case (Some m)
  then have e': "e = Message m" by (cases e) auto
  with e have "me_id m \<noteq> []" "message m \<in> M" by (simp_all add: entry_ok_def)
  from put_message_ok [OF A C D this] that e' show ?thesis by auto
next
  case None
  then have r: "put_entry A C e d = (case from_session_entry e of None \<Rightarrow> Some (Inr (), d)
        | Some a \<Rightarrow> Some (put_annotation A (session_codec.truncate C) a d))"
      "record_entry e D = (case from_session_entry e of None \<Rightarrow> D | Some a \<Rightarrow> D\<lparr>sd_annotations := sd_annotations D @ [a]\<rparr>)"
      "entry_ok M N e \<longleftrightarrow> (case from_session_entry e of None \<Rightarrow> True | Some a \<Rightarrow> a \<in> N)"
    by (cases e; simp add: entry_ok_def)+
  show ?thesis
  proof (cases "from_session_entry e")
    case None
    with r D that show ?thesis by auto
  next
    case (Some a)
    with r e have "a \<in> N" by simp
    from put_annotation_ok [OF A C D this] that r Some show ?thesis by auto
  qed
qed

lemma put_entries_ok:
  assumes A: "automerge_ok A V synced" and C: "codec_ok (session_codec.truncate C) M N"
  shows "holds A (session_codec.truncate C) V d D \<Longrightarrow> list_all (entry_ok M N) es \<Longrightarrow>
    \<exists>d'. put_entries A C es d = Some (Inr d') \<and> holds A (session_codec.truncate C) V d' (fold record_entry es D)"
proof (induction es arbitrary: d D)
  case (Cons e es)
  then obtain d1 where d1: "put_entry A C e d = Some (Inr (), d1)" "holds A (session_codec.truncate C) V d1 (record_entry e D)"
    using put_entry_ok [OF A C] by (metis list.pred_inject(2))
  with Cons.IH [OF d1(2)] Cons.prems show ?case by auto
qed auto

lemma build_automerge_doc_ok:
  assumes A: "automerge_ok A V synced" and C: "codec_ok (session_codec.truncate C) M N"
    and es: "List.map_filter header_entry es = h # hs" "he_session_id h \<noteq> []" "he_version h \<noteq> []" "list_all (entry_ok M N) es"
  obtains d where "build_automerge_doc_from_entries A C es = Some (Inr d)"
    "holds A (session_codec.truncate C) V d (doc_of_entries h es)"
proof -
  obtain d0 where d0: "create_document A (session_codec.truncate C) h = Some (Inr d0)"
      "holds A (session_codec.truncate C) V d0 \<lparr>sd_header = h, sd_messages = [], sd_annotations = []\<rparr>"
    using create_document_ok [OF A C es(2,3)] by blast
  with put_entries_ok [OF A C d0(2) es(4)] es(1) that show ?thesis
    by (auto simp: build_automerge_doc_from_entries_def doc_of_entries_def)
qed

section \<open>Which file is resumed\<close>

lemma split_on_snoc: "c \<notin> set t \<Longrightarrow> split_on c (s @ c # t) = split_on c s @ [t]"
proof (induction s)
  case (Cons x s)
  then show ?case by (cases "split_on c s") (auto simp: split_on_absent)
qed (simp add: split_on_absent)

lemma path_components_snoc:
  assumes "CHR ''/'' \<notin> set n"
  shows "path_components (x @ CHR ''/'' # n) =
    (if x = [] then [''/''] else path_components x) @ (if n = [] \<or> n = ''.'' then [] else [n])"
proof -
  obtain q qs where q: "split_on (CHR ''/'') x = q # qs" by (cases "split_on (CHR ''/'') x") auto
  show ?thesis
  proof (cases x)
    case Nil
    with assms show ?thesis by (auto simp: path_components_def Let_def split_on_absent)
  next
    case (Cons a as)
    with q split_on_snoc [OF assms, of x] show ?thesis by (auto simp: path_components_def Let_def)
  qed
qed

lemma path_components_join:
  assumes "CHR ''/'' \<notin> set n" "n \<noteq> []" "n \<noteq> ''.''"
  shows "path_components (path_join dir n) = path_components dir @ [n]"
proof -
  have n: "\<not> prefix ''/'' n" using assms(1,2) by (cases n) auto
  consider "dir = []" | "dir \<noteq> []" "\<not> suffix ''/'' dir" | x where "dir = x @ ''/''"
    by (auto simp: suffix_def)
  then show ?thesis
  proof cases
    case 1
    with n assms show ?thesis by (auto simp: path_join_def path_components_def split_on_absent Let_def)
  next
    case 2
    with n assms path_components_snoc [OF assms(1), of dir] show ?thesis by (simp add: path_join_def)
  next
    case 3
    with n have "path_join dir n = x @ CHR ''/'' # n" by (simp add: path_join_def suffix_def)
    with 3 assms path_components_snoc [OF assms(1), of x] path_components_snoc [of "[]" x] show ?thesis by simp
  qed
qed

lemma file_name_join:
  assumes "CHR ''/'' \<notin> set n" "n \<noteq> []" "n \<noteq> ''.''" "n \<noteq> ''..''"
  shows "path_file_name (path_join dir n) = Some n"
  using assms by (auto simp: path_file_name_def path_components_join Let_def)

lemma join_with_split: "join_with [c] (split_on c s) = s"
proof (induction c s rule: split_on.induct)
  case (2 c x xs)
  obtain p ps where p: "split_on c xs = p # ps" by (cases "split_on c xs") auto
  with 2 show ?case by (cases ps) auto
qed simp

lemma name_stem_dot: "dot \<notin> set ext \<Longrightarrow> s \<noteq> [] \<Longrightarrow> name_stem (s @ dot # ext) = s"
  using join_with_split [of dot s] by (simp add: name_stem_def split_on_snoc Let_def)

lemma extension_join:
  assumes "CHR ''/'' \<notin> set s" "s \<noteq> []" "CHR ''/'' \<notin> set ext" "dot \<notin> set ext" "ext \<noteq> []"
  shows "path_extension (path_join dir (s @ dot # ext)) = Some ext"
    "with_extension (path_join dir (s @ dot # ext)) ext' = path_join dir (s @ (if ext' = [] then [] else dot # ext'))"
proof -
  have n: "CHR ''/'' \<notin> set (s @ dot # ext)" "s @ dot # ext \<noteq> []" "s @ dot # ext \<noteq> ''.''" "s @ dot # ext \<noteq> ''..''"
    using assms by (auto simp: dot_def append_eq_Cons_conv)
  note f = file_name_join [OF n, of dir] and stem = name_stem_dot [OF assms(4,2)]
  show "path_extension (path_join dir (s @ dot # ext)) = Some ext"
    using f stem assms by (simp add: path_extension_def split_on_snoc)
  have j: "path_join dir (x @ y) = path_join dir x @ y" if "x \<noteq> []" for x y
    using that by (cases x) (auto simp: path_join_def)
  have "path_join dir (s @ dot # ext) = path_join dir s @ dot # ext" by (simp add: j assms(2))
  moreover have "suffix (s @ dot # ext) (path_join dir (s @ dot # ext))" by (auto simp: path_join_def suffix_def)
  moreover have "path_join dir s = take (length (path_join dir s) - length s) (path_join dir s) @ s"
    by (auto simp: path_join_def)
  ultimately show "with_extension (path_join dir (s @ dot # ext)) ext' = path_join dir (s @ (if ext' = [] then [] else dot # ext'))"
    using f stem by (auto simp: with_extension_def Let_def j assms(2))
qed

lemma newest_first_hd:
  assumes "newest_first files = p # ps" "a \<in> set files"
  shows "path_components a \<le> path_components p"
proof -
  have s: "sort_key path_components files = rev ps @ [p]" using assms(1) by (simp add: newest_first_def rev_eq_Cons_iff)
  have "sorted (map path_components (sort_key path_components files))" by simp
  moreover have "a \<in> set (sort_key path_components files)" using assms(2) by simp
  ultimately show ?thesis unfolding s by (auto simp: sorted_append)
qed

lemma append_less: "x < y \<Longrightarrow> xs @ [x] < xs @ [(y :: string)]"
  by (induction xs) simp_all

lemma string_append_less: "x < y \<Longrightarrow> s @ x < s @ (y :: string)"
  by (induction s) simp_all

section \<open>Resuming a migrated session\<close>

definition latest_session :: "('w, 'b) session_fs \<Rightarrow> 'w \<Rightarrow> string \<Rightarrow> string \<Rightarrow> string option" where
  "latest_session F w sessions_dir cwd = (case list_sessions F w sessions_dir cwd of [] \<Rightarrow> None | p # _ \<Rightarrow> Some p)"

lemma latest_session_not_migrated:
  fixes F :: "('w, 'b) session_fs" and sessions_dir cwd stem :: string
  defines "dir \<equiv> path_join sessions_dir (encode_cwd cwd)"
  assumes "fs_is_dir F w dir" "path_join dir (stem @ ''.jsonl'') \<in> set (fs_read_dir F w dir)"
    "CHR ''/'' \<notin> set stem" "stem \<noteq> []" "\<not> suffix ''.ledger'' stem"
  shows "\<exists>p. latest_session F w sessions_dir cwd = Some p \<and> p \<noteq> path_join dir (stem @ ''.automerge'')"
proof -
  have plain: "CHR ''/'' \<notin> set (stem @ ''.jsonl'')" "CHR ''/'' \<notin> set (stem @ ''.automerge'')" using assms(4) by simp_all
  have ne: "stem @ ''.jsonl'' \<noteq> ''.''" "stem @ ''.automerge'' \<noteq> ''.''" "stem @ ''.jsonl'' \<noteq> ''..''" "stem @ ''.automerge'' \<noteq> ''..''"
    by (auto simp: append_eq_Cons_conv)
  have dotted: "stem @ ''.jsonl'' = stem @ dot # ''jsonl''" "stem @ ''.automerge'' = stem @ dot # ''automerge''" by (simp_all add: dot_def)
  have ext: "path_extension (path_join dir (stem @ ''.jsonl'')) = Some ''jsonl''"
      "path_extension (path_join dir (stem @ ''.automerge'')) = Some ''automerge''"
    unfolding dotted using assms(4,5) by (intro extension_join; simp add: dot_def)+
  have names: "path_file_name (path_join dir (stem @ ''.jsonl'')) = Some (stem @ ''.jsonl'')"
      "path_file_name (path_join dir (stem @ ''.automerge'')) = Some (stem @ ''.automerge'')"
    using plain ne by (intro file_name_join; simp)+
  have "suffix ''.ledger.jsonl'' (stem @ ''.jsonl'') \<longleftrightarrow> suffix ''.ledger'' stem"
    using same_suffix_suffix [of "''.ledger''" "''.jsonl''" stem] by simp
  then have session_file: "is_session_file (path_join dir (stem @ ''.jsonl''))"
    using assms(6) by (simp add: is_session_file_def ext names)
  have less: "path_components (path_join dir (stem @ ''.automerge'')) < path_components (path_join dir (stem @ ''.jsonl''))"
    using plain ne by (simp add: path_components_join append_less string_append_less less_char_def)
  have mem: "path_join dir (stem @ ''.jsonl'') \<in> set (filter is_session_file (fs_read_dir F w dir))"
    using assms(3) session_file by simp
  then obtain p ps where p: "newest_first (filter is_session_file (fs_read_dir F w dir)) = p # ps"
    by (metis empty_iff list.exhaust list.set(1) newest_first_def set_rev set_sort)
  have "path_components (path_join dir (stem @ ''.automerge'')) < path_components p"
    using less newest_first_hd [OF p mem] by (rule less_le_trans)
  then show ?thesis using p assms(2) by (auto simp: latest_session_def list_sessions_def dir_def Let_def)
qed

text \<open>C12 (safety). A session that was opened once from its JSONL file has an Automerge file beside it, which takes
  every later message. In the directory of a project, the list of sessions, newest first,
  never starts with that Automerge file, so resuming the latest session does not reach it while the JSONL
  file is there; and opening the JSONL file writes the Automerge file
  anew: afterwards it holds the entries of the JSONL file and nothing else, whatever it held before.\<close>

theorem legacy_file_overwrites_session:
  fixes F :: "('w, 'b) session_fs" and sessions_dir cwd stem :: string
  defines "dir \<equiv> path_join sessions_dir (encode_cwd cwd)"
  defines "jsonl \<equiv> path_join dir (stem @ ''.jsonl'')" and "auto \<equiv> path_join dir (stem @ ''.automerge'')"
  assumes libs: "automerge_ok A V synced" "codec_ok (session_codec.truncate C) M N" "fs_ok F"
    and listed: "fs_is_dir F w dir" "jsonl \<in> set (fs_read_dir F w dir)"
    and stem: "CHR ''/'' \<notin> set stem" "stem \<noteq> []" "\<not> suffix ''.ledger'' stem"
    and legacy: "read_entries C F w jsonl = Inr es" "List.map_filter header_entry es = h # hs"
      "he_session_id h \<noteq> []" "he_version h \<noteq> []" "list_all (entry_ok M N) es"
    and opened: "open_as_automerge A C F jsonl w = Some (Inr (d, path), w')"
  shows "(\<exists>p. latest_session F w sessions_dir cwd = Some p \<and> p \<noteq> auto) \<and> path = auto \<and>
    bind_result (load_document A F auto w') (to_session_entries A (session_codec.truncate C)) =
      Inr (entries_of (doc_of_entries h es))"
proof -
  have latest: "\<exists>p. latest_session F w sessions_dir cwd = Some p \<and> p \<noteq> auto"
    using latest_session_not_migrated [OF listed [unfolded jsonl_def dir_def] stem] unfolding auto_def dir_def .
  have dotted: "jsonl = path_join dir (stem @ dot # ''jsonl'')" "auto = path_join dir (stem @ dot # ''automerge'')"
    by (simp_all add: jsonl_def auto_def dot_def)
  have ext: "path_extension jsonl = Some ''jsonl''" "with_extension jsonl ''automerge'' = auto"
    unfolding dotted using stem extension_join [of stem "''jsonl''" dir]
    by (simp_all add: dot_def)
  obtain d0 where d0: "build_automerge_doc_from_entries A C es = Some (Inr d0)"
      "holds A (session_codec.truncate C) V d0 (doc_of_entries h es)"
    using build_automerge_doc_ok [OF libs(1,2) legacy(2-5)] .
  have s: "save_document A F auto d0 w = (Inr (), d, w')" and path: "path = auto"
    using opened ext d0(1) legacy(1)
    by (auto simp: open_as_automerge_def is_automerge_path_def Let_def split: prod.splits sum.splits)
  obtain d2 where d2: "load_document A F auto w' = Inr d2" "V d2 = V d0" using save_document_ok(2) [OF libs(1,3) s] by blast
  have "holds A (session_codec.truncate C) V d2 (doc_of_entries h es)" by (rule holds_view [OF d0(2) d2(2)])
  from to_session_entries_ok [OF libs(1,2) this] latest path d2(1) show ?thesis by simp
qed

section \<open>Files read back\<close>

lemma map_filter_as_messages [simp]:
  "messages_of (map Message ms) = ms" "messages_of (map into_session_entry as) = []"
  "List.map_filter from_session_entry (map Message ms) = []" "List.map_filter from_session_entry (map into_session_entry as) = as"
  "List.map_filter header_entry (map Message ms) = []" "List.map_filter header_entry (map into_session_entry as) = []"
proof -
  have a: "as_message (into_session_entry a) = None" "from_session_entry (into_session_entry a) = Some a"
      "header_entry (into_session_entry a) = None" for a by (cases a; simp)+
  show "messages_of (map Message ms) = ms" "List.map_filter from_session_entry (map Message ms) = []"
      "List.map_filter header_entry (map Message ms) = []"
    by (induction ms) (simp_all add: List.map_filter_simps)
  show "messages_of (map into_session_entry as) = []" "List.map_filter from_session_entry (map into_session_entry as) = as"
      "List.map_filter header_entry (map into_session_entry as) = []"
    by (induction as) (simp_all add: List.map_filter_simps a)
qed

lemma messages_of_entries [simp]: "messages_of (entries_of D) = map snd (sd_messages D)"
  by (simp add: entries_of_def map_filter_append List.map_filter_simps del: map_map)

lemma annotations_of_entries [simp]: "List.map_filter from_session_entry (entries_of D) = sd_annotations D"
  by (simp add: entries_of_def map_filter_append List.map_filter_simps del: map_map)

lemma header_of_entries [simp]: "List.map_filter header_entry (entries_of D) = [sd_header D]"
  by (simp add: entries_of_def map_filter_append List.map_filter_simps del: map_map)

lemma find_in_btree:
  assumes "bt_inv ms" "\<forall>k e. bt_get ms k = Some e \<longrightarrow> me_id e = k"
  shows "find (\<lambda>m. me_id m = i) (rev (map snd ms)) = bt_get ms i"
proof (cases "bt_get ms i")
  case None
  then have "\<forall>m \<in> set (rev (map snd ms)). me_id m \<noteq> i"
    using btree.entry_get [OF assms(1), of i] assms(2) btree.entry_get [OF assms(1)] by fastforce
  with None show ?thesis by (simp add: find_None_iff)
next
  case (Some e)
  then have e: "e \<in> set (rev (map snd ms))" "me_id e = i"
    using btree.entry_get [OF assms(1), of i e] assms(2) by force+
  then obtain m where m: "find (\<lambda>m. me_id m = i) (rev (map snd ms)) = Some m"
    by (cases "find (\<lambda>m. me_id m = i) (rev (map snd ms))") (auto simp: find_None_iff)
  have "m \<in> set (rev (map snd ms))" "me_id m = i" using find_SomeD [OF m] by simp_all
  then have "bt_get ms i = Some m"
    using btree.entry_get [OF assms(1)] assms(2) by fastforce
  with m Some show ?thesis by simp
qed

lemma find_in_doc: "holds A C V d D \<Longrightarrow> find_message (build (entries_of D)) i = bt_get (sd_messages D) i"
  using holds_inv [of A C V d D] by (simp add: find_message_build find_in_btree)

lemma holds_ids: "holds A C V d D \<Longrightarrow> map me_id (map snd (sd_messages D)) = bt_keys (sd_messages D)"
  using holds_inv [of A C V d D] btree.entry_get [of "sd_messages D"] by auto

lemma record_entries_messages:
  "bt_get (sd_messages (fold record_entry es D)) i =
    (case find (\<lambda>m. me_id m = i) (rev (messages_of es)) of Some m \<Rightarrow> Some m | None \<Rightarrow> bt_get (sd_messages D) i)"
proof (induction es arbitrary: D)
  case (Cons e es)
  show ?case
    by (cases e) (auto simp: Cons.IH List.map_filter_simps find_append bt_get_insert split: option.splits)
qed (simp add: List.map_filter_simps)

lemma record_entries_annotations:
  "sd_annotations (fold record_entry es D) = sd_annotations D @ List.map_filter from_session_entry es"
proof (induction es arbitrary: D)
  case (Cons e es)
  show ?case by (cases e) (simp_all add: Cons.IH List.map_filter_simps)
qed (simp add: List.map_filter_simps)

lemma record_entries_header: "sd_header (fold record_entry es D) = sd_header D"
proof (induction es arbitrary: D)
  case (Cons e es)
  show ?case by (cases e) (simp_all add: Cons.IH)
qed simp

text \<open>C25 (roundtrip). A session that is written entry by entry and saved reads back with its header, with all its
  annotations in their order, and with the same message under each id as its tree had, the last one
  written under it. What is not kept is the order of the messages: they come back in the order of
  their ids.\<close>

theorem session_file_roundtrip:
  assumes libs: "automerge_ok A V synced" "codec_ok (session_codec.truncate C) M N" "fs_ok F"
    and es: "List.map_filter header_entry es = h # hs" "he_session_id h \<noteq> []" "he_version h \<noteq> []" "list_all (entry_ok M N) es"
  shows "\<exists>d. build_automerge_doc_from_entries A C es = Some (Inr d) \<and>
    (\<forall>p d' w w'. save_document A F p d w = (Inr (), d', w') \<longrightarrow>
      (\<exists>es'. bind_result (load_document A F p w') (to_session_entries A (session_codec.truncate C)) = Inr es' \<and>
        List.map_filter header_entry es' = [h] \<and>
        List.map_filter from_session_entry es' = List.map_filter from_session_entry es \<and>
        (\<forall>i. find_message (build es') i = find_message (build es) i) \<and>
        sorted_wrt (<) (map me_id (messages_of es'))))"
proof -
  let ?D = "doc_of_entries h es"
  obtain d where d: "build_automerge_doc_from_entries A C es = Some (Inr d)" "holds A (session_codec.truncate C) V d ?D"
    using build_automerge_doc_ok [OF libs(1,2) es] .
  have inv: "bt_inv (sd_messages ?D)" using holds_inv [OF d(2)] by blast
  have same: "find_message (build (entries_of ?D)) i = find_message (build es) i" for i
    unfolding find_in_doc [OF d(2)] by (simp add: find_message_build doc_of_entries_def record_entries_messages split: option.splits)
  have sorted: "sorted_wrt (<) (map me_id (messages_of (entries_of ?D)))" using inv by (simp add: holds_ids [OF d(2)] bt_inv_def del: map_map)
  have "bind_result (load_document A F p w') (to_session_entries A (session_codec.truncate C)) = Inr (entries_of ?D)"
    if saved: "save_document A F p d w = (Inr (), d', w')" for p d' w w'
  proof -
    obtain d2 where d2: "load_document A F p w' = Inr d2" "V d2 = V d" using save_document_ok(2) [OF libs(1,3) saved] by blast
    from to_session_entries_ok [OF libs(1,2) holds_view [OF d(2) d2(2)]] d2(1) show ?thesis by simp
  qed
  with d(1) same sorted show ?thesis
    by (intro exI [of _ d]) (simp add: doc_of_entries_def record_entries_annotations record_entries_header)
qed

section \<open>A small library\<close>

text \<open>Functions that meet the promises: documents as lists of their objects, whose saved form is the
  document itself; a file system of two maps, from paths to saved documents and to texts; encodings
  given by tables.\<close>

datatype small_object = SmallMap "(string, nat am_slot) btree" | SmallList "nat am_slot list"

type_synonym small_doc = "small_object list"

fun small_slot :: "nat am_slot \<Rightarrow> am_value \<times> nat" where
  "small_slot (Str s) = (Scalar (Some s), 0)"
| "small_slot (Ref t c) = (Object t, c)"
| "small_slot Other = (Scalar None, 0)"

definition small_put :: "nat \<Rightarrow> string \<Rightarrow> nat am_slot \<Rightarrow> small_doc \<Rightarrow> small_doc" where
  "small_put obj k s d = (case d ! obj of SmallMap m \<Rightarrow> d[obj := SmallMap (bt_insert k s m)] | SmallList xs \<Rightarrow> d)"

definition small_empty :: "obj_type \<Rightarrow> small_object" where
  "small_empty t = (case t of MapType \<Rightarrow> SmallMap [] | ListType \<Rightarrow> SmallList [])"

definition small_automerge :: "(small_doc, nat, small_doc) automerge" where
  "small_automerge = \<lparr>
     am_new = [SmallMap []], am_root = 0,
     am_get = (\<lambda>d obj k. case d ! obj of SmallMap m \<Rightarrow> Inr (map_option small_slot (bt_get m k)) | SmallList xs \<Rightarrow> Inl ''list''),
     am_get_index = (\<lambda>d obj i. case d ! obj of SmallList xs \<Rightarrow> Inr (if i < length xs then Some (small_slot (xs ! i)) else None)
       | SmallMap m \<Rightarrow> Inl ''map''),
     am_keys = (\<lambda>d obj. case d ! obj of SmallMap m \<Rightarrow> sort (remdups (bt_keys m)) | SmallList xs \<Rightarrow> []),
     am_length = (\<lambda>d obj. case d ! obj of SmallList xs \<Rightarrow> length xs | SmallMap m \<Rightarrow> length m),
     am_put_object = (\<lambda>obj k t d. (Inr (length d), small_put obj k (Ref t (length d)) d @ [small_empty t])),
     am_put = (\<lambda>obj k s d. (Inr (), small_put obj k (Str s) d)),
     am_insert_object = (\<lambda>obj i t d. case d ! obj of
         SmallList xs \<Rightarrow> (Inr (length d), d[obj := SmallList (take i xs @ Ref t (length d) # drop i xs)] @ [small_empty t])
       | SmallMap m \<Rightarrow> (Inl ''map'', d)),
     am_save = (\<lambda>d. ([d], d)), am_save_incremental = (\<lambda>d. ([d], d)),
     am_load = (\<lambda>ds. if ds = [] then Inl ''empty'' else Inr (last ds))\<rparr>"

definition small_view :: "small_doc \<Rightarrow> nat \<Rightarrow> nat am_object option" where
  "small_view d obj = (if obj < length d then Some (case d ! obj of
     SmallMap m \<Rightarrow> MapObj (bt_get m) | SmallList xs \<Rightarrow> ListObj xs) else None)"

lemma small_view_map: "small_view d obj = Some (MapObj f) \<Longrightarrow> obj < length d \<and> (\<exists>m. d ! obj = SmallMap m \<and> f = bt_get m)"
  by (auto simp: small_view_def split: if_splits small_object.splits)

lemma small_view_list: "small_view d obj = Some (ListObj xs) \<Longrightarrow> obj < length d \<and> d ! obj = SmallList xs"
  by (auto simp: small_view_def split: if_splits small_object.splits)

lemma small_shows: "slot_shows s (map_option small_slot s)"
  by (cases s; cases "the s") auto

lemma small_view_put:
  assumes "obj < length d" "d ! obj = SmallMap m"
  shows "small_view (small_put obj k s d) = (small_view d)(obj \<mapsto> MapObj ((bt_get m)(k \<mapsto> s)))"
  using assms by (auto simp: small_put_def small_view_def nth_list_update bt_get_insert fun_eq_iff)

lemma small_view_snoc: "small_view (d @ [small_empty t]) = (small_view d)(length d \<mapsto> empty_object t)"
  by (rule ext, cases t) (auto simp: small_view_def nth_append small_empty_def empty_object_def fun_eq_iff)

lemma small_put_length: "length (small_put obj k s d) = length d"
  by (simp add: small_put_def split: small_object.splits)

lemma bt_get_eq: "bt_get m = map_of m"
  by (rule ext) (rule bt_get_map_of)

lemma small_reads_ok: "reads_ok small_automerge small_view"
  unfolding reads_ok_def
proof (intro conjI allI impI)
  show "small_view (am_new small_automerge) (am_root small_automerge) = Some (MapObj Map.empty)"
    by (auto simp: small_automerge_def small_view_def)
next
  fix d obj f k assume "small_view d obj = Some (MapObj f)"
  then obtain m where "d ! obj = SmallMap m" "f = bt_get m" using small_view_map by blast
  then show "\<exists>r. am_get small_automerge d obj k = Inr r \<and> slot_shows (f k) r"
    using small_shows [of "bt_get m k"] by (simp add: small_automerge_def)
next
  fix d obj f assume "small_view d obj = Some (MapObj f)"
  then obtain m where m: "d ! obj = SmallMap m" "f = bt_get m" using small_view_map by blast
  then show "set (am_keys small_automerge d obj) = dom f"
    by (simp add: small_automerge_def bt_get_eq dom_map_of_conv_image_fst)
  show "sorted_wrt (<) (am_keys small_automerge d obj)"
    using m by (simp add: small_automerge_def strict_sorted_iff)
next
  fix d obj xs assume v: "small_view d obj = Some (ListObj xs)"
  then show "am_length small_automerge d obj = length xs" using small_view_list by (fastforce simp: small_automerge_def)
  fix i assume "i < length xs"
  with v show "\<exists>r. am_get_index small_automerge d obj i = Inr r \<and> slot_shows (Some (xs ! i)) r"
    using small_view_list [OF v] small_shows [of "Some (xs ! i)"] by (simp add: small_automerge_def)
qed

lemma small_writes_ok: "writes_ok small_automerge small_view (\<lambda>_ _. True)"
  unfolding writes_ok_def
proof (intro conjI allI impI)
  fix d obj f k t assume "small_view d obj = Some (MapObj f)"
  then obtain m where m: "obj < length d" "d ! obj = SmallMap m" "f = bt_get m" using small_view_map by blast
  then show "\<exists>c d'. am_put_object small_automerge obj k t d = (Inr c, d') \<and> small_view d c = None \<and>
      small_view d' = (small_view d)(obj \<mapsto> MapObj (f(k \<mapsto> Ref t c)), c \<mapsto> empty_object t) \<and> (\<forall>file. True \<longrightarrow> True)"
    using small_view_snoc [of "small_put obj k (Ref t (length d)) d" t]
    by (simp add: small_automerge_def small_view_put small_put_length) (simp add: small_view_def)
next
  fix d obj f k s assume "small_view d obj = Some (MapObj f)"
  then obtain m where m: "obj < length d" "d ! obj = SmallMap m" "f = bt_get m" using small_view_map by blast
  then show "\<exists>d'. am_put small_automerge obj k s d = (Inr (), d') \<and>
      small_view d' = (small_view d)(obj \<mapsto> MapObj (f(k \<mapsto> Str s))) \<and> (\<forall>file. True \<longrightarrow> True)"
    by (simp add: small_automerge_def small_view_put)
next
  fix d obj xs t assume "small_view d obj = Some (ListObj xs)"
  then have m: "obj < length d" "d ! obj = SmallList xs" using small_view_list by blast+
  have "small_view (d[obj := SmallList (xs @ [Ref t (length d)])]) = (small_view d)(obj \<mapsto> ListObj (xs @ [Ref t (length d)]))"
    using m by (auto simp: small_view_def nth_list_update fun_eq_iff)
  then show "\<exists>c d'. am_insert_object small_automerge obj (length xs) t d = (Inr c, d') \<and> small_view d c = None \<and>
      small_view d' = (small_view d)(obj \<mapsto> ListObj (xs @ [Ref t c]), c \<mapsto> empty_object t) \<and> (\<forall>file. True \<longrightarrow> True)"
    using m small_view_snoc [of "d[obj := SmallList (xs @ [Ref t (length d)])]" t]
    by (simp add: small_automerge_def) (simp add: small_view_def)
qed

lemma small_automerge_ok: "automerge_ok small_automerge small_view (\<lambda>_ _. True)"
  unfolding automerge_ok_def by (intro conjI small_reads_ok small_writes_ok) (simp add: saves_ok_def small_automerge_def)

type_synonym 'b small_world = "(string \<Rightarrow> 'b list option) \<times> (string \<Rightarrow> string option) \<times> nat"

definition small_fs :: "(string \<Rightarrow> string list) \<Rightarrow> ('b small_world, 'b) session_fs" where
  "small_fs listing = \<lparr>
     fs_create_dir_all = (\<lambda>p w. (Inr (), w)),
     fs_write = (\<lambda>p bs (fs, ts, n). (Inr (), (fs(p \<mapsto> bs), ts, n))),
     fs_append = (\<lambda>p bs (fs, ts, n). case fs p of None \<Rightarrow> (Inl ''missing'', (fs, ts, n)) | Some old \<Rightarrow> (Inr (), (fs(p \<mapsto> old @ bs), ts, n))),
     fs_rename = (\<lambda>p q (fs, ts, n). (Inr (), (fs(q := fs p, p := None), ts(q := ts p, p := None), n))),
     fs_copy = (\<lambda>p q (fs, ts, n). (Inr (), (fs(q := fs p), ts(q := ts p), n))),
     fs_remove_file = (\<lambda>p (fs, ts, n). (Inr (), (fs(p := None), ts(p := None), n))),
     fs_read = (\<lambda>(fs, ts, n) p. case fs p of None \<Rightarrow> Inl ''missing'' | Some bs \<Rightarrow> Inr bs),
     fs_read_to_string = (\<lambda>(fs, ts, n) p. case ts p of None \<Rightarrow> Inl ''missing'' | Some t \<Rightarrow> Inr t),
     fs_exists = (\<lambda>(fs, ts, n) p. fs p \<noteq> None \<or> ts p \<noteq> None),
     fs_is_dir = (\<lambda>w p. True), fs_read_dir = (\<lambda>w. listing)\<rparr>"

lemma small_fs_ok: "fs_ok (small_fs listing)"
  by (auto simp: fs_ok_def small_fs_def split: option.splits)

definition small_encode :: "(string \<times> 'a) list \<Rightarrow> 'a \<Rightarrow> string + string" where
  "small_encode table x = (case find (\<lambda>p. snd p = x) table of None \<Rightarrow> Inl ''unknown'' | Some p \<Rightarrow> Inr (fst p))"

definition small_decode :: "(string \<times> 'a) list \<Rightarrow> string \<Rightarrow> string + 'a" where
  "small_decode table s = (case map_of table s of None \<Rightarrow> Inl ''unknown'' | Some x \<Rightarrow> Inr x)"

definition small_codec ::
  "(string \<times> 'm) list \<Rightarrow> (string \<times> ('j, string) annotation_entry) list \<Rightarrow> (string \<times> ('m, 'j, string) session_entry) list \<Rightarrow>
   ('m, 'j, string) file_codec" where
  "small_codec ms as es = \<lparr>to_rfc3339 = (\<lambda>t. CHR ''T'' # t), parse_rfc3339 = (\<lambda>s. Inr (tl s)),
     message_to_json = small_encode ms, message_from_json = small_decode ms,
     annotation_to_json = small_encode as, annotation_from_json = small_decode as,
     entry_to_json = small_encode es, entry_from_json = small_decode es, format_compact = (\<lambda>t. t)\<rparr>"

lemma small_encode_decode:
  assumes "distinct (map fst table)" "x \<in> snd ` set table"
  shows "\<exists>s. small_encode table x = Inr s \<and> small_decode table s = Inr x"
proof -
  obtain p where p: "find (\<lambda>p. snd p = x) table = Some p"
    using assms(2) by (cases "find (\<lambda>p. snd p = x) table") (auto simp: find_None_iff)
  then have "p \<in> set table" "snd p = x" by (auto simp: find_Some_iff)
  then have "map_of table (fst p) = Some x" using assms(1) by (auto simp: map_of_eq_Some_iff)
  with p show ?thesis by (simp add: small_encode_def small_decode_def)
qed

lemma small_codec_ok:
  assumes "distinct (map fst ms)" "distinct (map fst as)"
  shows "codec_ok (session_codec.truncate (small_codec ms as es)) (snd ` set ms) (snd ` set as)"
  using small_encode_decode [OF assms(1)] small_encode_decode [OF assms(2)]
  by (simp add: codec_ok_def small_codec_def session_codec.truncate_def)

text \<open>A session of one message in a JSONL file, beside an Automerge file of the same name.\<close>

definition small_header :: "string header_entry" where
  "small_header = \<lparr>he_session_id = ''a'', he_created_at = ''1'', he_cwd = ''/p'', he_model = ''m'', he_version = ''0.1.0'',
     he_agent = None, he_parent_session_id = None, he_worktree_path = None, he_worktree_branch = None\<rparr>"

definition small_entry :: "(unit, string) message_entry" where
  "small_entry = \<lparr>me_id = ''x'', parent_id = None, message = (), timestamp = ''2''\<rparr>"

definition small_entries :: "(unit, unit, string) session_entry list" where
  "small_entries = [Header small_header, Message small_entry]"

definition small_files_codec :: "(unit, unit, string) file_codec" where
  "small_files_codec = small_codec [(''u'', ())] [] [(''h'', Header small_header), (''m'', Message small_entry)]"

definition small_listing :: "string \<Rightarrow> string list" where
  "small_listing dir = (if dir = ''s/_p'' then [''s/_p/1_a.automerge'', ''s/_p/1_a.jsonl''] else [])"

definition small_start :: "small_doc small_world" where
  "small_start = ([''s/_p/1_a.automerge'' \<mapsto> []], [''s/_p/1_a.jsonl'' \<mapsto> ''h'' @ newline # ''m''], 0)"

lemma small_codec_unit: "codec_ok (session_codec.truncate small_files_codec) {()} {}"
  unfolding small_files_codec_def using small_codec_ok [of "[(''u'', ())]" "[]"] by simp

lemma small_entries_ok:
  "List.map_filter header_entry small_entries = small_header # []" "he_session_id small_header \<noteq> []"
  "he_version small_header \<noteq> []" "list_all (entry_ok {()} {}) small_entries"
  by (simp_all add: small_entries_def small_header_def small_entry_def entry_ok_def List.map_filter_simps)

lemma small_paths: "path_join ''s'' (encode_cwd ''/p'') = ''s/_p''" "path_join ''s/_p'' (''1_a'' @ ''.jsonl'') = ''s/_p/1_a.jsonl''"
  "path_join ''s/_p'' (''1_a'' @ ''.automerge'') = ''s/_p/1_a.automerge''"
  by (simp_all add: encode_cwd_def path_join_def suffix_def)

lemma small_read: "read_entries small_files_codec (small_fs small_listing) small_start ''s/_p/1_a.jsonl'' = Inr small_entries"
proof -
  have "trim ''h'' = ''h''" "trim ''m'' = ''m''" by (intro trim_plain; simp add: is_graphic_def)+
  then show ?thesis
    by (simp add: read_entries_def small_fs_def small_start_def str_lines_def strip_line_def suffix_def small_files_codec_def
        small_codec_def small_decode_def small_entries_def)
qed

lemma small_open:
  "\<exists>d. open_as_automerge small_automerge small_files_codec (small_fs small_listing) ''s/_p/1_a.jsonl'' small_start =
     Some (Inr (d, ''s/_p/1_a.automerge''), ((fst small_start)(''s/_p/1_a.automerge'' \<mapsto> [d]), snd small_start))"
proof -
  obtain d where d: "build_automerge_doc_from_entries small_automerge small_files_codec small_entries = Some (Inr d)"
    using build_automerge_doc_ok [OF small_automerge_ok small_codec_unit small_entries_ok] by blast
  have ext: "path_extension ''s/_p/1_a.jsonl'' = Some ''jsonl''" "with_extension ''s/_p/1_a.jsonl'' ''automerge'' = ''s/_p/1_a.automerge''"
    using extension_join [of "''1_a''" "''jsonl''" "''s/_p''"] by (simp_all add: dot_def path_join_def suffix_def)
  have "save_document small_automerge (small_fs small_listing) ''s/_p/1_a.automerge'' d small_start =
      (Inr (), d, ((fst small_start)(''s/_p/1_a.automerge'' \<mapsto> [d]), snd small_start))"
    by (simp add: save_document_def create_parent_def small_fs_def small_automerge_def done_doc_def small_start_def split: option.split)
  with d ext show ?thesis by (simp add: open_as_automerge_def is_automerge_path_def small_read Let_def)
qed

theorem legacy_file_overwrites_session_witness:
  "\<exists>d w'. open_as_automerge small_automerge small_files_codec (small_fs small_listing) ''s/_p/1_a.jsonl'' small_start =
      Some (Inr (d, ''s/_p/1_a.automerge''), w') \<and>
    (\<exists>p. latest_session (small_fs small_listing) small_start ''s'' ''/p'' = Some p \<and> p \<noteq> ''s/_p/1_a.automerge'') \<and>
    bind_result (load_document small_automerge (small_fs small_listing) ''s/_p/1_a.automerge'' w')
      (to_session_entries small_automerge (session_codec.truncate small_files_codec)) =
      Inr (entries_of (doc_of_entries small_header small_entries))"
proof -
  obtain d w' where o: "open_as_automerge small_automerge small_files_codec (small_fs small_listing) ''s/_p/1_a.jsonl'' small_start =
      Some (Inr (d, ''s/_p/1_a.automerge''), w')"
    using small_open by blast
  have listed: "fs_is_dir (small_fs small_listing) small_start ''s/_p''"
      "''s/_p/1_a.jsonl'' \<in> set (fs_read_dir (small_fs small_listing) small_start ''s/_p'')"
    by (simp_all add: small_fs_def small_listing_def)
  have stem: "CHR ''/'' \<notin> set ''1_a''" "''1_a'' \<noteq> []" "\<not> suffix ''.ledger'' ''1_a''" by (simp_all add: suffix_to_prefix)
  from legacy_file_overwrites_session [where sessions_dir = "''s''" and cwd = "''/p''" and stem = "''1_a''",
      unfolded small_paths, OF small_automerge_ok small_codec_unit small_fs_ok listed stem small_read small_entries_ok o] o
  show ?thesis by blast
qed

theorem session_file_roundtrip_witness:
  "\<exists>d. build_automerge_doc_from_entries small_automerge small_files_codec small_entries = Some (Inr d) \<and>
    (\<exists>w' es'. save_document small_automerge (small_fs small_listing) ''f'' d (\<lambda>_. None, \<lambda>_. None, 0) = (Inr (), d, w') \<and>
      bind_result (load_document small_automerge (small_fs small_listing) ''f'' w')
        (to_session_entries small_automerge (session_codec.truncate small_files_codec)) = Inr es' \<and>
      find_message (build es') ''x'' = find_message (build small_entries) ''x'')"
proof -
  note roundtrip = session_file_roundtrip [OF small_automerge_ok small_codec_unit small_fs_ok [of small_listing] small_entries_ok]
  have saved: "save_document small_automerge (small_fs small_listing) ''f'' d (\<lambda>_. None, \<lambda>_. None, 0) =
      (Inr (), d, ([''f'' \<mapsto> [d]], \<lambda>_. None, 0))" for d
    by (simp add: save_document_def create_parent_def small_fs_def small_automerge_def done_doc_def split: option.split)
  from roundtrip show ?thesis
  proof (elim exE conjE, goal_cases)
    case (1 d)
    from 1(2) [rule_format, OF saved] show ?case using 1(1) saved by blast
  qed
qed

end
