(* ===== verification/Session_Manager.thy ===== *)
theory Session_Manager
  imports Session_Files
begin

text \<open>
  The manager of a session, \<^verbatim>\<open>crates/clankers-session/src/lib.rs\<close> and \<^verbatim>\<open>context.rs\<close>. It owns the document of the
  session and remembers which messages are stored and which one is the active leaf. An operation takes
  and returns the manager and the world, so a step that fails leaves both as the code leaves them. The
  result is \<^term>\<open>None\<close> where the code panics. Generated ids come from the world.
\<close>

section \<open>The manager\<close>

record 'd session_manager =
  sm_session_id :: string
  sm_file_path :: string
  sm_cwd :: string
  sm_model :: string
  sm_doc :: 'd
  sm_persisted_ids :: "message_id set"
  sm_active_leaf_id :: "message_id option"
  sm_latest_compaction_summary :: "string option"
  sm_worktree_path :: "string option"
  sm_worktree_branch :: "string option"

text \<open>What the manager works with: the document library, the encodings, the files, random ids, and
  \<^verbatim>\<open>serde_json\<close> objects, which are given by their fields.\<close>

datatype json_field = FieldStr string | FieldStrs "string list" | FieldNum nat | FieldBool bool

record ('d, 'o, 'b, 'w, 'v, 't) session_env =
  env_automerge :: "('d, 'o, 'b) automerge"
  env_codec :: "(('v, 't) agent_message, 'v, 't) file_codec"
  env_fs :: "('w, 'b) session_fs"
  env_generate_id :: "'w \<Rightarrow> string \<times> 'w"
  env_json_object :: "(string \<times> json_field) list \<Rightarrow> 'v"

abbreviation env_session_codec where "env_session_codec E \<equiv> session_codec.truncate (env_codec E)"

type_synonym ('a, 'd, 'w) manager_outcome = "((string + 'a) \<times> 'd session_manager \<times> 'w) option"

record create_session_request =
  cr_sessions_dir :: string
  cr_cwd :: string
  cr_model :: string
  cr_agent :: "string option"
  cr_worktree_path :: "string option"
  cr_worktree_branch :: "string option"

definition CARGO_PKG_VERSION :: string where "CARGO_PKG_VERSION = ''0.1.0''"

definition create_at ::
  "('d, 'o, 'b, 'w, 'v, 't) session_env \<Rightarrow> create_session_request \<Rightarrow> 't \<Rightarrow> 'w \<Rightarrow>
   ((string + 'd session_manager) \<times> 'w) option" where
  "create_at E request created_at w =
     (let (sid, w1) = env_generate_id E w;
          path = session_file_path_automerge_at (env_codec E) (cr_sessions_dir request) (cr_cwd request) sid created_at;
          header = \<lparr>he_session_id = sid, he_created_at = created_at, he_cwd = cr_cwd request, he_model = cr_model request,
            he_version = CARGO_PKG_VERSION, he_agent = cr_agent request, he_parent_session_id = None,
            he_worktree_path = cr_worktree_path request, he_worktree_branch = cr_worktree_branch request\<rparr>
      in case create_document (env_automerge E) (env_session_codec E) header of
        None \<Rightarrow> None
      | Some (Inl e) \<Rightarrow> Some (Inl e, w1)
      | Some (Inr d) \<Rightarrow> (case save_document (env_automerge E) (env_fs E) path d w1 of
          (Inl e, d', w2) \<Rightarrow> Some (Inl e, w2)
        | (Inr _, d', w2) \<Rightarrow> Some (Inr \<lparr>sm_session_id = sid, sm_file_path = path, sm_cwd = cr_cwd request,
            sm_model = cr_model request, sm_doc = d', sm_persisted_ids = {}, sm_active_leaf_id = None,
            sm_latest_compaction_summary = None, sm_worktree_path = cr_worktree_path request,
            sm_worktree_branch = cr_worktree_branch request\<rparr>, w2)))"

text \<open>\<^verbatim>\<open>Iterator::max_by_key\<close> keeps the last of equal maxima.\<close>

fun max_by_key :: "('a \<Rightarrow> 'k::linorder) \<Rightarrow> 'a list \<Rightarrow> 'a option" where
  "max_by_key f [] = None"
| "max_by_key f (x # xs) = (case max_by_key f xs of None \<Rightarrow> Some x | Some y \<Rightarrow> if f x \<le> f y then Some y else Some x)"

fun compaction_summary :: "('m, 'j, 't) session_entry \<Rightarrow> string option" where
  "compaction_summary (Compaction c) = Some (ce_summary c)"
| "compaction_summary _ = None"

definition last_option :: "'a list \<Rightarrow> 'a option" where
  "last_option xs = (if xs = [] then None else Some (last xs))"

text \<open>The search for leaves never runs out of its steps (\<open>find_all_leaves_ends\<close>).\<close>

definition open_leaf :: "('m, 'j, 't::linorder) session_tree \<Rightarrow> message_id option option" where
  "open_leaf tree = (case find_all_leaves tree of
     None \<Rightarrow> None
   | Some leaves \<Rightarrow> Some (map_option me_id (case max_by_key timestamp leaves of
       Some m \<Rightarrow> Some m
     | None \<Rightarrow> find_latest_leaf tree None)))"

definition open_session ::
  "('d, 'o, 'b, 'w, 'v, 't::linorder) session_env \<Rightarrow> string \<Rightarrow> 'w \<Rightarrow> ((string + 'd session_manager) \<times> 'w) option" where
  "open_session E path w = (case open_as_automerge (env_automerge E) (env_codec E) (env_fs E) path w of
     None \<Rightarrow> None
   | Some (Inl e, w') \<Rightarrow> Some (Inl e, w')
   | Some (Inr (d, file), w') \<Rightarrow>
       (case bind_result (read_header (env_automerge E) (env_session_codec E) d) (\<lambda>header.
             bind_result (read_messages (env_automerge E) (env_session_codec E) d) (\<lambda>messages.
             bind_result (to_session_entries (env_automerge E) (env_session_codec E) d) (\<lambda>es. Inr (header, messages, es)))) of
          Inl e \<Rightarrow> Some (Inl e, w')
        | Inr (header, messages, es) \<Rightarrow> (case open_leaf (build es) of
            None \<Rightarrow> None
          | Some leaf \<Rightarrow> Some (Inr \<lparr>sm_session_id = he_session_id header, sm_file_path = file, sm_cwd = he_cwd header,
              sm_model = he_model header, sm_doc = d, sm_persisted_ids = set (map me_id messages),
              sm_active_leaf_id = leaf,
              sm_latest_compaction_summary = last_option (List.map_filter compaction_summary es),
              sm_worktree_path = he_worktree_path header, sm_worktree_branch = he_worktree_branch header\<rparr>, w'))))"

section \<open>Writing\<close>

definition append_message_at ::
  "('d, 'o, 'b, 'w, 'v, 't) session_env \<Rightarrow> ('v, 't) agent_message \<Rightarrow> message_id option \<Rightarrow> 't \<Rightarrow>
   'd session_manager \<Rightarrow> 'w \<Rightarrow> (unit, 'd, 'w) manager_outcome" where
  "append_message_at E msg parent at S w = (let i = agent_message_id msg
     in if i \<in> sm_persisted_ids S then Some (Inr (), S, w)
        else case put_message (env_automerge E) (env_session_codec E)
            \<lparr>me_id = i, parent_id = parent, message = msg, timestamp = at\<rparr> (sm_doc S) of
          None \<Rightarrow> None
        | Some (Inl e, d) \<Rightarrow> Some (Inl e, S\<lparr>sm_doc := d\<rparr>, w)
        | Some (Inr _, d) \<Rightarrow> (case save_incremental (env_automerge E) (env_fs E) (sm_file_path S) d w of
            (Inl e, d', w') \<Rightarrow> Some (Inl e, S\<lparr>sm_doc := d'\<rparr>, w')
          | (Inr _, d', w') \<Rightarrow> Some (Inr (), S\<lparr>sm_doc := d',
              sm_persisted_ids := insert i (sm_persisted_ids S), sm_active_leaf_id := Some i\<rparr>, w')))"

text \<open>The two steps that all annotations share.\<close>

definition store_annotation ::
  "('d, 'o, 'b, 'w, 'v, 't) session_env \<Rightarrow> ('v, 't) annotation_entry \<Rightarrow> 'd session_manager \<Rightarrow> 'w \<Rightarrow>
   (string + unit) \<times> 'd session_manager \<times> 'w" where
  "store_annotation E a S w = (case put_annotation (env_automerge E) (env_session_codec E) a (sm_doc S) of
     (Inl e, d) \<Rightarrow> (Inl e, S\<lparr>sm_doc := d\<rparr>, w)
   | (Inr _, d) \<Rightarrow> (case save_incremental (env_automerge E) (env_fs E) (sm_file_path S) d w of
       (r, d', w') \<Rightarrow> (r, S\<lparr>sm_doc := d'\<rparr>, w')))"

definition then_update ::
  "(string + unit) \<times> 'd session_manager \<times> 'w \<Rightarrow> 'a \<Rightarrow> ('d session_manager \<Rightarrow> 'd session_manager) \<Rightarrow> (string + 'a) \<times> 'd session_manager \<times> 'w" where
  "then_update r a f = (case r of (Inl e, S, w) \<Rightarrow> (Inl e, S, w) | (Inr _, S, w) \<Rightarrow> (Inr a, f S, w))"

definition record_branch_at ::
  "('d, 'o, 'b, 'w, 'v, 't) session_env \<Rightarrow> message_id \<Rightarrow> string \<Rightarrow> 't \<Rightarrow> 'd session_manager \<Rightarrow> 'w \<Rightarrow>
   (string + unit) \<times> 'd session_manager \<times> 'w" where
  "record_branch_at E from_id reason at S w = (let (i, w1) = env_generate_id E w
     in then_update (store_annotation E (AnnBranch \<lparr>be_id = i, be_from_message_id = from_id, be_reason = reason, be_timestamp = at\<rparr>) S w1)
          () (sm_active_leaf_id_update (\<lambda>_. Some from_id)))"

definition record_label_at ::
  "('d, 'o, 'b, 'w, 'v, 't) session_env \<Rightarrow> string \<Rightarrow> 't \<Rightarrow> 'd session_manager \<Rightarrow> 'w \<Rightarrow>
   (string + unit) \<times> 'd session_manager \<times> 'w" where
  "record_label_at E label at S w = (case sm_active_leaf_id S of
     None \<Rightarrow> (Inl ''No active leaf to label'', S, w)
   | Some target \<Rightarrow> (let (i, w1) = env_generate_id E w
       in store_annotation E (AnnLabel \<lparr>le_id = i, le_target_message_id = target, le_label = label, le_timestamp = at\<rparr>) S w1))"

definition record_resume_at ::
  "('d, 'o, 'b, 'w, 'v, 't) session_env \<Rightarrow> message_id \<Rightarrow> 't \<Rightarrow> 'd session_manager \<Rightarrow> 'w \<Rightarrow>
   (string + unit) \<times> 'd session_manager \<times> 'w" where
  "record_resume_at E from_entry at S w = (let (i, w1) = env_generate_id E w
     in store_annotation E (AnnResume \<lparr>re_id = i, re_resumed_at = at, re_from_entry_id = from_entry\<rparr>) S w1)"

definition record_compaction_summary_at ::
  "('d, 'o, 'b, 'w, 'v, 't) session_env \<Rightarrow> string \<Rightarrow> 't \<Rightarrow> 'd session_manager \<Rightarrow> 'w \<Rightarrow>
   (string + unit) \<times> 'd session_manager \<times> 'w" where
  "record_compaction_summary_at E summary at S w = (let (i, w1) = env_generate_id E w
     in then_update (store_annotation E (AnnCompaction \<lparr>ce_id = i, ce_compacted_range = [], ce_summary = summary,
          ce_tokens_before = 0, ce_tokens_after = 0, ce_timestamp = at\<rparr>) S w1)
        () (sm_latest_compaction_summary_update (\<lambda>_. Some summary)))"

definition record_custom_at ::
  "('d, 'o, 'b, 'w, 'v, 't) session_env \<Rightarrow> string \<Rightarrow> 'v \<Rightarrow> 't \<Rightarrow> 'd session_manager \<Rightarrow> 'w \<Rightarrow>
   (string + unit) \<times> 'd session_manager \<times> 'w" where
  "record_custom_at E kind data at S w = (let (i, w1) = env_generate_id E w
     in store_annotation E (AnnCustom \<lparr>cu_id = i, cu_kind = kind, cu_data = data, cu_timestamp = at\<rparr>) S w1)"

definition save_compact ::
  "('d, 'o, 'b, 'w, 'v, 't) session_env \<Rightarrow> 'd session_manager \<Rightarrow> 'w \<Rightarrow> (string + unit) \<times> 'd session_manager \<times> 'w" where
  "save_compact E S w = (case save_document (env_automerge E) (env_fs E) (sm_file_path S) (sm_doc S) w of
     (r, d, w') \<Rightarrow> (r, S\<lparr>sm_doc := d\<rparr>, w'))"

section \<open>Reading\<close>

definition load_session_entries ::
  "('d, 'o, 'b, 'w, 'v, 't) session_env \<Rightarrow> 'd session_manager \<Rightarrow> string + (('v, 't) agent_message, 'v, 't) session_entry list" where
  "load_session_entries E S = to_session_entries (env_automerge E) (env_session_codec E) (sm_doc S)"

definition load_tree ::
  "('d, 'o, 'b, 'w, 'v, 't) session_env \<Rightarrow> 'd session_manager \<Rightarrow> string + (('v, 't) agent_message, 'v, 't) session_tree" where
  "load_tree E S = bind_result (load_session_entries E S) (\<lambda>es. Inr (build es))"

definition build_messages_for_branch :: "('m, 'j, 't) session_tree \<Rightarrow> message_id option \<Rightarrow> 'm list" where
  "build_messages_for_branch tree leaf =
     (case (case leaf of
         Some i \<Rightarrow> find_message tree i
       | None \<Rightarrow> (case find_latest_leaf tree None of None \<Rightarrow> latest_message tree | Some m \<Rightarrow> Some m)) of
       None \<Rightarrow> []
     | Some m \<Rightarrow> map message (walk_branch tree (me_id m)))"

definition build_context ::
  "('d, 'o, 'b, 'w, 'v, 't) session_env \<Rightarrow> 'd session_manager \<Rightarrow> string + ('v, 't) agent_message list" where
  "build_context E S = bind_result (load_tree E S) (\<lambda>tree. Inr (build_messages_for_branch tree (sm_active_leaf_id S)))"

definition session_message_count :: "'d session_manager \<Rightarrow> nat" where
  "session_message_count S = card (sm_persisted_ids S)"

section \<open>Branches\<close>

record 't branch_info =
  bi_leaf_id :: message_id
  bi_name :: string
  bi_message_count :: nat
  bi_last_activity :: 't
  bi_divergence_point :: "message_id option"
  bi_is_active :: bool

definition label_name :: "message_id \<Rightarrow> message_id list \<Rightarrow> ('m, 'j, 't) session_entry \<Rightarrow> string option" where
  "label_name leaf ids e = (case e of
     Label l \<Rightarrow> if le_target_message_id l \<in> set ids \<or> le_target_message_id l = leaf then Some (le_label l) else None
   | _ \<Rightarrow> None)"

definition branch_name :: "message_id list \<Rightarrow> ('m, 'j, 't) session_entry \<Rightarrow> string option" where
  "branch_name ids e = (case e of
     Branch b \<Rightarrow> if be_from_message_id b \<notin> set ids \<or> be_reason b = [] \<or> length (be_reason b) \<ge> 50 then None
       else Some (be_reason b)
   | _ \<Rightarrow> None)"

definition resolve_branch_name ::
  "message_id \<Rightarrow> ('m, 't) message_entry list \<Rightarrow> ('m, 'j, 't) session_entry list \<Rightarrow> string" where
  "resolve_branch_name leaf branch es = (let ids = map me_id branch
     in case List.map_filter (label_name leaf ids) (rev es) of
       name # _ \<Rightarrow> name
     | [] \<Rightarrow> (case List.map_filter (branch_name ids) (rev es) of
         name # _ \<Rightarrow> name
       | [] \<Rightarrow> ''branch-'' @ take_chars 8 leaf))"

fun divergence_in :: "('m, 'j, 't) session_tree \<Rightarrow> ('m, 't) message_entry list \<Rightarrow> message_id option" where
  "divergence_in tree [] = None"
| "divergence_in tree (m # ms) = (case parent_id m of
     None \<Rightarrow> divergence_in tree ms
   | Some p \<Rightarrow> if length (get_children tree (Some p)) > 1 then Some p else divergence_in tree ms)"

definition find_divergence_point_for_branch ::
  "('m, 't) message_entry list \<Rightarrow> ('m, 'j, 't) session_tree \<Rightarrow> message_id option" where
  "find_divergence_point_for_branch branch tree = divergence_in tree (rev branch)"

definition branch_info_of ::
  "message_id option \<Rightarrow> ('m, 'j, 't) session_entry list \<Rightarrow> ('m, 't) message_entry \<Rightarrow> 't branch_info" where
  "branch_info_of active es leaf = (let tree = build es; branch = walk_branch tree (me_id leaf)
     in \<lparr>bi_leaf_id = me_id leaf, bi_name = resolve_branch_name (me_id leaf) branch es,
         bi_message_count = length branch, bi_last_activity = timestamp leaf,
         bi_divergence_point = find_divergence_point_for_branch branch tree, bi_is_active = (active = Some (me_id leaf))\<rparr>)"

definition find_branches ::
  "('d, 'o, 'b, 'w, 'v, 't) session_env \<Rightarrow> 'd session_manager \<Rightarrow> (string + 't branch_info list) option" where
  "find_branches E S = (case load_session_entries E S of
     Inl e \<Rightarrow> Some (Inl e)
   | Inr es \<Rightarrow> map_option (\<lambda>leaves. Inr (map (branch_info_of (sm_active_leaf_id S) es) leaves)) (find_all_leaves (build es)))"

section \<open>Moving the active leaf\<close>

definition set_active_head ::
  "('d, 'o, 'b, 'w, 'v, 't) session_env \<Rightarrow> message_id \<Rightarrow> 'd session_manager \<Rightarrow> (string + unit) \<times> 'd session_manager" where
  "set_active_head E i S = (case load_tree E S of
     Inl e \<Rightarrow> (Inl e, S)
   | Inr tree \<Rightarrow> (case find_message tree i of
       None \<Rightarrow> (Inl (''Message not found: '' @ i), S)
     | Some m \<Rightarrow> (Inr (), S\<lparr>sm_active_leaf_id := Some i\<rparr>)))"

definition rewind ::
  "('d, 'o, 'b, 'w, 'v, 't) session_env \<Rightarrow> nat \<Rightarrow> 'd session_manager \<Rightarrow> (string + message_id) \<times> 'd session_manager" where
  "rewind E offset S = (case load_tree E S of
     Inl e \<Rightarrow> (Inl e, S)
   | Inr tree \<Rightarrow> (case sm_active_leaf_id S of
       None \<Rightarrow> (Inl ''No active branch to rewind'', S)
     | Some leaf \<Rightarrow> (let branch = walk_branch tree leaf
         in if offset \<ge> length branch
            then (Inl (''Cannot rewind '' @ show_nat offset @ '' messages from a branch of length '' @ show_nat (length branch)), S)
            else let i = me_id (branch ! (length branch - offset - 1)) in (Inr i, S\<lparr>sm_active_leaf_id := Some i\<rparr>))))"

text \<open>\<^verbatim>\<open>str::parse::<usize>\<close>: an optional plus sign and decimal digits, below \<open>2 ^ 64\<close>.\<close>

definition parse_usize :: "string \<Rightarrow> nat option" where
  "parse_usize s = (let ds = (if prefix ''+'' s then tl s else s);
       n = fold (\<lambda>c n. 10 * n + (of_char c - 48)) ds (0 :: nat)
     in if ds = [] \<or> \<not> list_all (\<lambda>c. 48 \<le> (of_char c :: nat) \<and> (of_char c :: nat) \<le> 57) ds \<or> n \<ge> 2 ^ 64
        then None else Some n)"

definition resolve_target ::
  "('d, 'o, 'b, 'w, 'v, 't) session_env \<Rightarrow> string \<Rightarrow> 'd session_manager \<Rightarrow> (string + message_id) option" where
  "resolve_target E target S = (case load_session_entries E S of
     Inl e \<Rightarrow> Some (Inl e)
   | Inr es \<Rightarrow> (let tree = build es;
         by_name = (case List.map_filter (\<lambda>e. case e of
               Label l \<Rightarrow> if le_label l = target then Some (le_target_message_id l) else None | _ \<Rightarrow> None) (rev es) of
             i # _ \<Rightarrow> Some (Inr i)
           | [] \<Rightarrow> (case find_branches E S of
               None \<Rightarrow> None
             | Some (Inl e) \<Rightarrow> Some (Inl e)
             | Some (Inr branches) \<Rightarrow> Some (case find (\<lambda>b. bi_name b = target) branches of
                 Some b \<Rightarrow> Inr (bi_leaf_id b)
               | None \<Rightarrow> Inl (''Could not resolve target: '' @ target))))
       in if find_message tree target \<noteq> None then Some (Inr target)
          else case parse_usize target of
            None \<Rightarrow> by_name
          | Some offset \<Rightarrow>
              if offset \<ge> 1000 then by_name
              else case sm_active_leaf_id S of
                None \<Rightarrow> Some (Inl ''No active branch for offset resolution'')
              | Some leaf \<Rightarrow> (let branch = walk_branch tree leaf
                  in if offset < length branch then Some (Inr (me_id (branch ! (length branch - offset - 1)))) else by_name)))"

section \<open>What the manager holds\<close>

definition manager_holds ::
  "('d, 'o, 'b, 'w, 'v, 't) session_env \<Rightarrow> ('d \<Rightarrow> 'o \<Rightarrow> 'o am_object option) \<Rightarrow> 'd session_manager \<Rightarrow>
   (('v, 't) agent_message, 'v, 't) session_doc \<Rightarrow> bool" where
  "manager_holds E V S D \<longleftrightarrow> holds (env_automerge E) (env_session_codec E) V (sm_doc S) D \<and>
     sm_persisted_ids S = set (bt_keys (sd_messages D))"

text \<open>The file of the session holds the document as it is in memory.\<close>

definition manager_saved ::
  "('d, 'o, 'b, 'w, 'v, 't) session_env \<Rightarrow> ('d \<Rightarrow> 'o \<Rightarrow> 'o am_object option) \<Rightarrow> ('b list \<Rightarrow> 'd \<Rightarrow> bool) \<Rightarrow>
   'd session_manager \<Rightarrow> 'w \<Rightarrow> bool" where
  "manager_saved E V synced S w \<longleftrightarrow> (\<exists>file d. fs_read (env_fs E) w (sm_file_path S) = Inr file \<and> synced file (sm_doc S) \<and>
     load_document (env_automerge E) (env_fs E) (sm_file_path S) w = Inr d \<and> V d = V (sm_doc S))"

definition env_ok ::
  "('d, 'o, 'b, 'w, 'v, 't) session_env \<Rightarrow> ('d \<Rightarrow> 'o \<Rightarrow> 'o am_object option) \<Rightarrow> ('b list \<Rightarrow> 'd \<Rightarrow> bool) \<Rightarrow>
   ('v, 't) agent_message set \<Rightarrow> ('v, 't) annotation_entry set \<Rightarrow> bool" where
  "env_ok E V synced M N \<longleftrightarrow> automerge_ok (env_automerge E) V synced \<and> codec_ok (env_session_codec E) M N \<and> fs_ok (env_fs E)"

lemma load_entries_holds: "env_ok E V synced M N \<Longrightarrow> manager_holds E V S D \<Longrightarrow> load_session_entries E S = Inr (entries_of D)"
  unfolding env_ok_def manager_holds_def load_session_entries_def by (auto intro: to_session_entries_ok)

lemma load_tree_holds: "env_ok E V synced M N \<Longrightarrow> manager_holds E V S D \<Longrightarrow> load_tree E S = Inr (build (entries_of D))"
  by (simp add: load_tree_def load_entries_holds)

lemma context_holds:
  "env_ok E V synced M N \<Longrightarrow> manager_holds E V S D \<Longrightarrow>
   build_context E S = Inr (build_messages_for_branch (build (entries_of D)) (sm_active_leaf_id S))"
  by (simp add: build_context_def load_tree_holds)

lemma manager_holds_keys: "manager_holds E V S D \<Longrightarrow> i \<in> sm_persisted_ids S \<longleftrightarrow> bt_get (sd_messages D) i \<noteq> None"
  unfolding manager_holds_def using holds_inv btree.keys_get by metis

lemma append_message_holds:
  assumes env: "env_ok E V synced M N" and S: "manager_holds E V S D"
    and msg: "agent_message_id msg \<notin> sm_persisted_ids S" "agent_message_id msg \<noteq> []" "msg \<in> M"
    and run: "append_message_at E msg parent at S w = Some (Inr (), S', w')"
  shows "manager_holds E V S' (D\<lparr>sd_messages := bt_insert (agent_message_id msg)
      \<lparr>me_id = agent_message_id msg, parent_id = parent, message = msg, timestamp = at\<rparr> (sd_messages D)\<rparr>)"
    "sm_active_leaf_id S' = Some (agent_message_id msg)" "sm_file_path S' = sm_file_path S"
    "sm_session_id S' = sm_session_id S"
    "manager_saved E V synced S w \<Longrightarrow> manager_saved E V synced S' w'"
proof -
  let ?e = "\<lparr>me_id = agent_message_id msg, parent_id = parent, message = msg, timestamp = at\<rparr>"
  have libs: "automerge_ok (env_automerge E) V synced" "codec_ok (env_session_codec E) M N" "fs_ok (env_fs E)"
    using env by (simp_all add: env_ok_def)
  have D: "holds (env_automerge E) (env_session_codec E) V (sm_doc S) D" using S by (simp add: manager_holds_def)
  obtain d where d: "put_message (env_automerge E) (env_session_codec E) ?e (sm_doc S) = Some (Inr (), d)"
      "holds (env_automerge E) (env_session_codec E) V d (D\<lparr>sd_messages := bt_insert (agent_message_id msg) ?e (sd_messages D)\<rparr>)"
      "\<And>file. synced file (sm_doc S) \<Longrightarrow> synced file d"
    using put_message_ok [OF libs(1,2) D, of ?e] msg by auto
  then obtain d' where s: "save_incremental (env_automerge E) (env_fs E) (sm_file_path S) d w = (Inr (), d', w')"
      "S' = S\<lparr>sm_doc := d', sm_persisted_ids := insert (agent_message_id msg) (sm_persisted_ids S),
         sm_active_leaf_id := Some (agent_message_id msg)\<rparr>"
    using run msg(1) by (auto simp: append_message_at_def Let_def split: prod.splits sum.splits)
  have view: "V d' = V d"
    using s(1) libs(1) unfolding automerge_ok_def saves_ok_def
    by (auto simp: save_incremental_def Let_def split: prod.splits if_splits)
  show "manager_holds E V S' (D\<lparr>sd_messages := bt_insert (agent_message_id msg) ?e (sd_messages D)\<rparr>)"
    using S s(2) holds_view [OF d(2) view] bt_insert_keys [of "agent_message_id msg" ?e "sd_messages D"]
    unfolding manager_holds_def by simp
  show "sm_active_leaf_id S' = Some (agent_message_id msg)" "sm_file_path S' = sm_file_path S" "sm_session_id S' = sm_session_id S"
    using s(2) by simp_all
  assume "manager_saved E V synced S w"
  then obtain f where "fs_read (env_fs E) w (sm_file_path S) = Inr f" "synced f d"
    using d(3) by (auto simp: manager_saved_def)
  from save_incremental_ok(2) [OF libs(1,3) this s(1)] show "manager_saved E V synced S' w'"
    unfolding manager_saved_def using s(2) view by auto
qed

section \<open>Walks that reach a root\<close>

fun grounded :: "('m, 'j, 't) session_tree \<Rightarrow> nat \<Rightarrow> message_id option \<Rightarrow> bool" where
  "grounded tree n None \<longleftrightarrow> True"
| "grounded tree 0 (Some i) \<longleftrightarrow> False"
| "grounded tree (Suc n) (Some i) \<longleftrightarrow> (case find_message tree i of None \<Rightarrow> False | Some e \<Rightarrow> grounded tree n (parent_id e))"

lemma grounded_more: "grounded t n x \<Longrightarrow> n \<le> m \<Longrightarrow> grounded t m x \<and> walk_up t m x = walk_up t n x"
proof (induction t n x arbitrary: m rule: grounded.induct)
  case (3 t n i)
  then obtain k where m: "m = Suc k" "n \<le> k" by (cases m) auto
  from 3(2) obtain e where e: "find_message t i = Some e" "grounded t n (parent_id e)" by (auto split: option.splits)
  from 3(1) [OF e m(2)] e(1) m(1) show ?case by simp
qed simp_all

lemma grounded_keep:
  "grounded t n x \<Longrightarrow> (\<And>j e. find_message t j = Some e \<Longrightarrow> find_message t' j = Some e) \<Longrightarrow>
   grounded t' n x \<and> walk_up t' n x = walk_up t n x"
proof (induction t n x rule: grounded.induct)
  case (3 t n i)
  then obtain e where e: "find_message t i = Some e" "grounded t n (parent_id e)" by (auto split: option.splits)
  from 3(1) [OF e 3(3)] e(1) 3(3) [OF e(1)] show ?case by simp
qed simp_all

text \<open>A session whose messages form one path.\<close>

definition linear_session :: "('m, 't) message_entry list \<Rightarrow> ('m, 't) message_entry list \<Rightarrow> bool" where
  "linear_session msgs chain \<longleftrightarrow> set msgs = set chain \<and> distinct (map me_id msgs) \<and> distinct (map me_id chain) \<and>
     parent_path chain \<and> (chain \<noteq> [] \<longrightarrow> parent_id (hd chain) = None)"

lemma linear_find:
  assumes "linear_session (messages_of es) chain" "m \<in> set chain"
  shows "find_message (build es) (me_id m) = Some m"
proof -
  have m: "m \<in> set (rev (messages_of es))" "distinct (map me_id (rev (messages_of es)))"
    using assms by (auto simp: linear_session_def rev_map [symmetric])
  then obtain m' where f: "find (\<lambda>x. me_id x = me_id m) (rev (messages_of es)) = Some m'"
    by (cases "find (\<lambda>x. me_id x = me_id m) (rev (messages_of es))") (auto simp: find_None_iff)
  with find_SomeD [OF f] m have "m' = m" by (metis distinct_map inj_on_contraD)
  with f show ?thesis by (simp add: find_message_build)
qed

lemma linear_walk:
  assumes "linear_session (messages_of es) chain"
  shows "chain = p @ e # q \<Longrightarrow> walk_up (build es) (Suc (length p)) (Some (me_id e)) = rev (p @ [e])"
proof (induction p arbitrary: e q rule: rev_induct)
  case Nil
  with linear_find [OF assms, of e] assms show ?case by (simp add: linear_session_def)
next
  case (snoc a p)
  have "parent_path ((p @ [a, e]) @ q)" using assms snoc.prems by (simp add: linear_session_def)
  then have "parent_id e = Some (me_id a)"
    by (induction p rule: parent_path.induct) (auto split: list.splits)
  moreover have "find_message (build es) (me_id e) = Some e" using linear_find [OF assms, of e] snoc.prems by simp
  ultimately show ?case using snoc.IH [of a "e # q"] snoc.prems by simp
qed

lemma linear_grounded:
  assumes "linear_session (messages_of es) chain"
  shows "chain = p @ e # q \<Longrightarrow> grounded (build es) (Suc (length p)) (Some (me_id e))"
proof (induction p arbitrary: e q rule: rev_induct)
  case Nil
  with linear_find [OF assms, of e] assms show ?case by (simp add: linear_session_def)
next
  case (snoc a p)
  have "parent_path ((p @ [a, e]) @ q)" using assms snoc.prems by (simp add: linear_session_def)
  then have "parent_id e = Some (me_id a)"
    by (induction p rule: parent_path.induct) (auto split: list.splits)
  moreover have "find_message (build es) (me_id e) = Some e" using linear_find [OF assms, of e] snoc.prems by simp
  ultimately show ?case using snoc.IH [of a "e # q"] snoc.prems by simp
qed

lemma linear_branch:
  assumes "linear_session (messages_of es) chain" "chain \<noteq> []" "length chain \<le> MAX_TRAVERSAL_DEPTH"
  shows "walk_branch (build es) (me_id (last chain)) = chain"
proof -
  obtain p e where p: "chain = p @ [e]" using assms(2) by (metis append_butlast_last_id)
  have "walk_up (build es) MAX_TRAVERSAL_DEPTH (Some (me_id e)) = walk_up (build es) (Suc (length p)) (Some (me_id e))"
    using grounded_more [OF linear_grounded [OF assms(1), of p e "[]"]] assms(3) p by simp
  then show ?thesis using linear_walk [OF assms(1), of p e "[]"] p by (simp add: walk_branch_def)
qed

lemma linear_leaf:
  assumes "linear_session (messages_of es) chain"
  shows "leaf_of es m \<longleftrightarrow> chain \<noteq> [] \<and> m = last chain"
proof -
  have path: "parent_path chain" and set: "set (messages_of es) = set chain" and dist: "distinct (map me_id chain)"
    using assms by (simp_all add: linear_session_def)
  have next_parent: "chain = p @ a # b # q \<Longrightarrow> parent_id b = Some (me_id a)" for p a b q
  proof -
    assume "chain = p @ a # b # q"
    with path have "parent_path (p @ a # b # q)" by simp
    then show ?thesis by (induction p rule: parent_path.induct) (auto split: list.splits)
  qed
  have rooted: "chain = p @ e # q \<Longrightarrow> rooted es e" for p e q
  proof (induction p arbitrary: e q rule: rev_induct)
    case Nil
    then have "e \<in> set (get_children (build es) None)"
      using assms set by (auto simp: get_children_build linear_session_def)
    then show ?case by (rule rooted.root)
  next
    case (snoc a p)
    then have "e \<in> set (get_children (build es) (Some (me_id a)))"
      using next_parent [of p a e q] set by (auto simp: get_children_build)
    then show ?case using snoc.IH [of a "e # q"] snoc.prems rooted.child [of es a e] by simp
  qed
  show ?thesis
  proof
    assume leaf: "leaf_of es m"
    then have "m \<in> set chain" using rooted_message set by blast
    then obtain p q where c: "chain = p @ m # q" by (meson split_list)
    show "chain \<noteq> [] \<and> m = last chain"
    proof (cases q)
      case (Cons b q')
      with c next_parent [of p m b q'] set leaf show ?thesis by (auto simp: get_children_build filter_empty_conv)
    qed (simp add: c)
  next
    assume m: "chain \<noteq> [] \<and> m = last chain"
    then obtain p where c: "chain = p @ [m]" by (metis append_butlast_last_id)
    have "parent_id e \<noteq> Some (me_id m)" if e: "e \<in> set chain" for e
    proof
      assume pe: "parent_id e = Some (me_id m)"
      from e obtain p' q' where c': "chain = p' @ e # q'" by (meson split_list)
      show False
      proof (cases p' rule: rev_cases)
        case Nil
        with c' assms pe show False by (simp add: linear_session_def)
      next
        case (snoc r a)
        with c' next_parent [of r a e q'] pe have "me_id a = me_id m" by simp
        moreover have "a \<in> set p"
        proof -
          have "chain = r @ a # e # q'" using snoc c' by simp
          with c show ?thesis by (metis append_eq_append_conv2 append_Cons append_Nil butlast_append butlast_snoc in_set_conv_decomp list.distinct(1) list.sel(3) butlast.simps(2))
        qed
        ultimately have "me_id m \<in> me_id ` set p" by (metis imageI)
        then show False using dist c by simp
      qed
    qed
    with c rooted [of p m "[]"] set show "leaf_of es m" by (auto simp: get_children_build filter_empty_conv)
  qed
qed

section \<open>Opening a session\<close>

lemma max_by_key_in: "xs \<noteq> [] \<Longrightarrow> \<exists>x. max_by_key f xs = Some x \<and> x \<in> set xs \<and> (\<forall>y \<in> set xs. f y \<le> f x)"
proof (induction xs)
  case (Cons x xs)
  show ?case
  proof (cases "xs = []")
    case False
    with Cons.IH obtain y where "max_by_key f xs = Some y" "y \<in> set xs" "\<forall>z \<in> set xs. f z \<le> f y" by blast
    then show ?thesis by (auto intro: order_trans)
  qed simp
qed simp

lemma latest_leaf_none: "get_children tree None = [] \<Longrightarrow> latest_leaf_loop tree n None None = None"
  by (cases n) simp_all

lemma open_leaf_linear:
  assumes "linear_session (messages_of es) chain"
  shows "open_leaf (build es) = Some (if chain = [] then None else Some (me_id (last chain)))"
proof -
  have d: "distinct (map me_id (messages_of es))" using assms by (simp add: linear_session_def)
  obtain leaves where l: "find_all_leaves (build es) = Some leaves" "distinct leaves" "set leaves = {m. leaf_of es m}"
    using leaves_found [OF d] .
  show ?thesis
  proof (cases "chain = []")
    case True
    with assms have none: "messages_of es = []" by (simp add: linear_session_def)
    have "set leaves = {}" using l(3) linear_leaf [OF assms] True by simp
    moreover have "find_latest_leaf (build es) None = None"
      by (simp add: find_latest_leaf_def latest_leaf_none get_children_build none)
    ultimately show ?thesis using l(1) True by (simp add: open_leaf_def)
  next
    case False
    then have "set leaves = {last chain}" using l(3) linear_leaf [OF assms] by simp
    moreover have "length leaves = Suc 0" using distinct_card [OF l(2)] calculation by simp
    then obtain m where "leaves = [m]" by (cases leaves) auto
    ultimately have "leaves = [last chain]" by simp
    with l(1) False show ?thesis by (simp add: open_leaf_def)
  qed
qed

lemma is_automerge_session_path:
  assumes "CHR ''/'' \<notin> set (format_compact C at)" "CHR ''/'' \<notin> set sid"
  shows "is_automerge_path (session_file_path_automerge_at C dir cwd sid at)"
  using assms extension_join(1) [of "format_compact C at @ ''_'' @ sid" "''automerge''" "path_join dir (encode_cwd cwd)"]
  by (simp add: is_automerge_path_def session_file_path_automerge_at_def dot_def)

lemma open_session_holds:
  assumes env: "env_ok E V synced M N" and S: "manager_holds E V S D" and w: "manager_saved E V synced S w"
    and path: "is_automerge_path (sm_file_path S)" and leaf: "open_leaf (build (entries_of D)) = Some leaf"
  shows "\<exists>d. V d = V (sm_doc S) \<and> open_session E (sm_file_path S) w = Some (Inr \<lparr>sm_session_id = he_session_id (sd_header D),
     sm_file_path = sm_file_path S, sm_cwd = he_cwd (sd_header D), sm_model = he_model (sd_header D), sm_doc = d,
     sm_persisted_ids = sm_persisted_ids S, sm_active_leaf_id = leaf,
     sm_latest_compaction_summary = last_option (List.map_filter compaction_summary (entries_of D)),
     sm_worktree_path = he_worktree_path (sd_header D), sm_worktree_branch = he_worktree_branch (sd_header D)\<rparr>, w)"
proof -
  have libs: "automerge_ok (env_automerge E) V synced" "codec_ok (env_session_codec E) M N" "fs_ok (env_fs E)"
    using env by (simp_all add: env_ok_def)
  have reads: "reads_ok (env_automerge E) V" using libs(1) by (simp add: automerge_ok_def)
  obtain d where d: "load_document (env_automerge E) (env_fs E) (sm_file_path S) w = Inr d" "V d = V (sm_doc S)"
    using w by (auto simp: manager_saved_def)
  have D: "holds (env_automerge E) (env_session_codec E) V d D"
    using S by (intro holds_view [OF _ d(2)]) (simp add: manager_holds_def)
  have ids: "set (map me_id (map snd (sd_messages D))) = sm_persisted_ids S"
    using S unfolding holds_ids [OF D] by (simp add: manager_holds_def)
  have "open_as_automerge (env_automerge E) (env_codec E) (env_fs E) (sm_file_path S) w = Some (Inr (d, sm_file_path S), w)"
    using path d(1) by (simp add: open_as_automerge_def)
  then have "open_session E (sm_file_path S) w = Some (Inr \<lparr>sm_session_id = he_session_id (sd_header D),
     sm_file_path = sm_file_path S, sm_cwd = he_cwd (sd_header D), sm_model = he_model (sd_header D), sm_doc = d,
     sm_persisted_ids = sm_persisted_ids S, sm_active_leaf_id = leaf,
     sm_latest_compaction_summary = last_option (List.map_filter compaction_summary (entries_of D)),
     sm_worktree_path = he_worktree_path (sd_header D), sm_worktree_branch = he_worktree_branch (sd_header D)\<rparr>, w)"
    by (simp only: open_session_def read_header_ok [OF reads libs(2) D] read_messages_ok [OF reads libs(2) D]
        to_session_entries_ok [OF libs(1,2) D] bind_result_simps option.case sum.case prod.case leaf ids)
  with d(2) show ?thesis by blast
qed

section \<open>A conversation\<close>

text \<open>The ledger of the controller, \<^verbatim>\<open>SessionManagerControllerSessionLedger\<close> of \<^verbatim>\<open>src/agent_runtime_adapters.rs\<close>,
  appends each message to the active leaf. A manager that was taken out of its slot is an error.\<close>

definition append_message_to_active_leaf ::
  "('d, 'o, 'b, 'w, 'v, 't) session_env \<Rightarrow> ('v, 't) agent_message \<Rightarrow> 't \<Rightarrow> 'd session_manager option \<Rightarrow> 'w \<Rightarrow>
   ((string + unit) \<times> 'd session_manager option \<times> 'w) option" where
  "append_message_to_active_leaf E msg at slot w = (case slot of
     None \<Rightarrow> Some (Inl ''session manager unavailable'', None, w)
   | Some S \<Rightarrow> map_option (\<lambda>(r, S', w'). (r, Some S', w'))
       (append_message_at E msg (sm_active_leaf_id S) at S w))"

fun append_all ::
  "('d, 'o, 'b, 'w, 'v, 't) session_env \<Rightarrow> (('v, 't) agent_message \<times> 't) list \<Rightarrow> 'd session_manager option \<Rightarrow> 'w \<Rightarrow>
   ('d session_manager option \<times> 'w) option" where
  "append_all E [] slot w = Some (slot, w)"
| "append_all E ((msg, at) # ms) slot w = (case append_message_to_active_leaf E msg at slot w of
     Some (Inr _, slot', w') \<Rightarrow> append_all E ms slot' w'
   | _ \<Rightarrow> None)"

definition conversation ::
  "('d, 'o, 'b, 'w, 'v, 't) session_env \<Rightarrow> ('d \<Rightarrow> 'o \<Rightarrow> 'o am_object option) \<Rightarrow> ('b list \<Rightarrow> 'd \<Rightarrow> bool) \<Rightarrow>
   'd session_manager \<Rightarrow> 'w \<Rightarrow> (('v, 't) agent_message, 'v, 't) session_doc \<Rightarrow>
   (('v, 't) agent_message, 't) message_entry list \<Rightarrow> bool" where
  "conversation E V synced S w D chain \<longleftrightarrow> manager_holds E V S D \<and> manager_saved E V synced S w \<and>
     linear_session (map snd (sd_messages D)) chain \<and>
     sm_active_leaf_id S = (if chain = [] then None else Some (me_id (last chain)))"

lemma parent_path_append:
  "parent_path (chain @ [e]) \<longleftrightarrow> parent_path chain \<and> (chain \<noteq> [] \<longrightarrow> parent_id e = Some (me_id (last chain)))"
  by (induction chain rule: parent_path.induct) auto

lemma conversation_step:
  assumes env: "env_ok E V synced M N" and S: "conversation E V synced S w D chain"
    and msg: "agent_message_id msg \<notin> set (map me_id chain)" "agent_message_id msg \<noteq> []" "msg \<in> M"
    and run: "append_message_at E msg (sm_active_leaf_id S) at S w = Some (Inr (), S', w')"
  shows "\<exists>D' e. conversation E V synced S' w' D' (chain @ [e]) \<and> message e = msg \<and> me_id e = agent_message_id msg \<and>
    sm_file_path S' = sm_file_path S \<and> sm_session_id S' = sm_session_id S \<and> sd_header D' = sd_header D"
proof -
  let ?e = "\<lparr>me_id = agent_message_id msg, parent_id = sm_active_leaf_id S, message = msg, timestamp = at\<rparr>"
  let ?D = "D\<lparr>sd_messages := bt_insert (agent_message_id msg) ?e (sd_messages D)\<rparr>"
  have holds: "manager_holds E V S D" and saved: "manager_saved E V synced S w"
    and lin: "linear_session (map snd (sd_messages D)) chain"
    and leaf: "sm_active_leaf_id S = (if chain = [] then None else Some (me_id (last chain)))"
    using S by (simp_all add: conversation_def)
  have D: "holds (env_automerge E) (env_session_codec E) V (sm_doc S) D" using holds by (simp add: manager_holds_def)
  have ids: "set (bt_keys (sd_messages D)) = set (map me_id chain)"
    using holds_ids [OF D] lin unfolding linear_session_def by (metis list.set_map)
  then have new: "agent_message_id msg \<notin> sm_persisted_ids S" using msg(1) holds unfolding manager_holds_def by simp
  note step = append_message_holds [OF env holds new msg(2,3) run]
  have D': "holds (env_automerge E) (env_session_codec E) V (sm_doc S') ?D" using step(1) by (simp add: manager_holds_def)
  have inv: "bt_inv (sd_messages D)" "bt_inv (sd_messages ?D)" using holds_inv [OF D] holds_inv [OF D'] by blast+
  have set: "snd ` set (sd_messages ?D) = insert ?e (snd ` set (sd_messages D))"
  proof -
    have "bt_get (sd_messages D) (agent_message_id msg) = None"
      using new manager_holds_keys [OF holds, of "agent_message_id msg"] by simp
    then have "p \<in> set (sd_messages ?D) \<longleftrightarrow> p = (agent_message_id msg, ?e) \<or> p \<in> set (sd_messages D)" for p
      using btree.entry_get [OF inv(1), of "fst p" "snd p"] btree.entry_get [OF inv(2), of "fst p" "snd p"]
      by (cases p) (auto simp: bt_get_insert)
    then have "set (sd_messages ?D) = insert (agent_message_id msg, ?e) (set (sd_messages D))" by blast
    then show ?thesis by simp
  qed
  have "distinct (map me_id (map snd (sd_messages ?D)))"
    unfolding holds_ids [OF D'] using inv(2) by (simp add: bt_inv_def strict_sorted_iff)
  then have "linear_session (map snd (sd_messages ?D)) (chain @ [?e])"
    using lin set leaf msg(1) unfolding linear_session_def by (auto simp: parent_path_append hd_append split: if_splits)
  then have "conversation E V synced S' w' ?D (chain @ [?e])"
    using step saved by (simp add: conversation_def)
  then show ?thesis using step by (intro exI [of _ ?D] exI [of _ ?e]) simp
qed

lemma append_all_conversation:
  assumes env: "env_ok E V synced M N"
  shows "conversation E V synced S w D chain \<Longrightarrow> append_all E ms (Some S) w = Some (slot, w') \<Longrightarrow>
    distinct (map me_id chain @ map (agent_message_id \<circ> fst) ms) \<Longrightarrow> \<forall>m \<in> set ms. agent_message_id (fst m) \<noteq> [] \<and> fst m \<in> M \<Longrightarrow>
    \<exists>S' D' rest. slot = Some S' \<and> conversation E V synced S' w' D' (chain @ rest) \<and> map message rest = map fst ms \<and>
      sm_file_path S' = sm_file_path S \<and> sm_session_id S' = sm_session_id S \<and> sd_header D' = sd_header D"
proof (induction ms arbitrary: S w D chain)
  case Nil
  then show ?case by auto
next
  case (Cons m ms)
  obtain msg at where m: "m = (msg, at)" by fastforce
  obtain S1 w1 where run: "append_message_at E msg (sm_active_leaf_id S) at S w = Some (Inr (), S1, w1)"
      "append_all E ms (Some S1) w1 = Some (slot, w')"
    using Cons.prems(2) unfolding m
    by (auto simp: append_message_to_active_leaf_def split: option.splits sum.splits)
  have "agent_message_id msg \<notin> set (map me_id chain)" "agent_message_id msg \<noteq> []" "msg \<in> M"
    using Cons.prems(3,4) m by auto
  from conversation_step [OF env Cons.prems(1) this run(1)] obtain D1 e where
      1: "conversation E V synced S1 w1 D1 (chain @ [e])" "message e = msg" "me_id e = agent_message_id msg"
        "sm_file_path S1 = sm_file_path S" "sm_session_id S1 = sm_session_id S" "sd_header D1 = sd_header D"
    by blast
  have "distinct (map me_id (chain @ [e]) @ map (agent_message_id \<circ> fst) ms)" using Cons.prems(3) 1(3) m by (auto simp: comp_def)
  from Cons.IH [OF 1(1) run(2) this] Cons.prems(4) obtain S' D' rest where
      "slot = Some S'" "conversation E V synced S' w' D' ((chain @ [e]) @ rest)" "map message rest = map fst ms"
      "sm_file_path S' = sm_file_path S1" "sm_session_id S' = sm_session_id S1" "sd_header D' = sd_header D1"
    by auto
  with 1 m show ?case by (intro exI [of _ S'] exI [of _ D'] exI [of _ "e # rest"]) simp
qed

lemma create_at_conversation:
  assumes env: "env_ok E V synced M N" and run: "create_at E request at w = Some (Inr S, w')"
  shows "\<exists>D. conversation E V synced S w' D [] \<and> sd_header D = \<lparr>he_session_id = sm_session_id S, he_created_at = at,
    he_cwd = cr_cwd request, he_model = cr_model request, he_version = CARGO_PKG_VERSION, he_agent = cr_agent request,
    he_parent_session_id = None, he_worktree_path = cr_worktree_path request, he_worktree_branch = cr_worktree_branch request\<rparr> \<and>
    sm_session_id S = fst (env_generate_id E w) \<and>
    sm_file_path S = session_file_path_automerge_at (env_codec E) (cr_sessions_dir request) (cr_cwd request) (fst (env_generate_id E w)) at"
proof -
  have libs: "automerge_ok (env_automerge E) V synced" "codec_ok (env_session_codec E) M N" "fs_ok (env_fs E)"
    using env by (simp_all add: env_ok_def)
  obtain sid w1 where g: "env_generate_id E w = (sid, w1)" by fastforce
  let ?h = "\<lparr>he_session_id = sid, he_created_at = at, he_cwd = cr_cwd request, he_model = cr_model request,
    he_version = CARGO_PKG_VERSION, he_agent = cr_agent request, he_parent_session_id = None,
    he_worktree_path = cr_worktree_path request, he_worktree_branch = cr_worktree_branch request\<rparr>"
  have "sid \<noteq> []" using run g by (auto simp: create_at_def create_document_def)
  then obtain d where d: "create_document (env_automerge E) (env_session_codec E) ?h = Some (Inr d)"
      "holds (env_automerge E) (env_session_codec E) V d \<lparr>sd_header = ?h, sd_messages = [], sd_annotations = []\<rparr>"
    using create_document_ok [OF libs(1,2), of ?h] by (auto simp: CARGO_PKG_VERSION_def)
  obtain d' where s: "save_document (env_automerge E) (env_fs E)
        (session_file_path_automerge_at (env_codec E) (cr_sessions_dir request) (cr_cwd request) sid at) d w1 = (Inr (), d', w')"
      and S: "S = \<lparr>sm_session_id = sid, sm_file_path = session_file_path_automerge_at (env_codec E) (cr_sessions_dir request) (cr_cwd request) sid at,
        sm_cwd = cr_cwd request, sm_model = cr_model request, sm_doc = d', sm_persisted_ids = {}, sm_active_leaf_id = None,
        sm_latest_compaction_summary = None, sm_worktree_path = cr_worktree_path request, sm_worktree_branch = cr_worktree_branch request\<rparr>"
    using run d(1) by (auto simp: create_at_def g Let_def split: prod.splits sum.splits)
  note saved = save_document_ok [OF libs(1,3) s]
  have "conversation E V synced S w' \<lparr>sd_header = ?h, sd_messages = [], sd_annotations = []\<rparr> []"
    using holds_view [OF d(2) saved(1)] saved S
    by (auto simp: conversation_def manager_holds_def manager_saved_def linear_session_def)
  then show ?thesis using S g by (intro exI [of _ "\<lparr>sd_header = ?h, sd_messages = [], sd_annotations = []\<rparr>"]) simp
qed

lemma conversation_context:
  assumes "env_ok E V synced M N" "conversation E V synced S w D chain" "length chain \<le> MAX_TRAVERSAL_DEPTH"
  shows "build_context E S = Inr (map message chain)"
proof -
  have lin: "linear_session (messages_of (entries_of D)) chain" and S: "manager_holds E V S D"
    and leaf: "sm_active_leaf_id S = (if chain = [] then None else Some (me_id (last chain)))"
    using assms(2) by (simp_all add: conversation_def)
  show ?thesis
  proof (cases "chain = []")
    case True
    with lin have none: "messages_of (entries_of D) = []" by (simp add: linear_session_def)
    then have "build_messages_for_branch (build (entries_of D)) None = []"
      by (simp add: build_messages_for_branch_def find_latest_leaf_def latest_leaf_none get_children_build latest_message_def
          entries_build map_filter_rev del: messages_of_entries)
    with True leaf show ?thesis by (simp add: context_holds [OF assms(1) S])
  next
    case False
    then have "find_message (build (entries_of D)) (me_id (last chain)) = Some (last chain)" by (intro linear_find [OF lin]) simp
    with False leaf linear_branch [OF lin False assms(3)] show ?thesis
      by (simp add: context_holds [OF assms(1) S] build_messages_for_branch_def)
  qed
qed

text \<open>C11 (refinement). A session that is created, and to which a conversation of at most 50000 messages (the bound of every
  walk over the tree) with different ids is appended message by message, each on
  the active leaf, gives exactly these messages in this order as the context for the model; and opening
  its file again, later or in another process, gives a manager with the same context, the same session
  id and the same set of stored messages, provided that every append was reported as successful. The ids are not empty, the codec reads each message back as it wrote it, and no slash is in
  the time stamp and the random id that name the file. A message whose id was appended before is skipped
  with success, so the ids have to differ.\<close>

theorem conversation_resumes:
  assumes env: "env_ok E V synced M N"
    and created: "create_at E request at w0 = Some (Inr S0, w1)"
    and name: "CHR ''/'' \<notin> set (format_compact (env_codec E) at)" "CHR ''/'' \<notin> set (fst (env_generate_id E w0))"
    and appended: "append_all E ms (Some S0) w1 = Some (slot, w2)"
    and msgs: "distinct (map (agent_message_id \<circ> fst) ms)" "\<forall>m \<in> set ms. agent_message_id (fst m) \<noteq> [] \<and> fst m \<in> M"
      "length ms \<le> MAX_TRAVERSAL_DEPTH"
  shows "\<exists>S S'. slot = Some S \<and> build_context E S = Inr (map fst ms) \<and>
    open_session E (sm_file_path S) w2 = Some (Inr S', w2) \<and> build_context E S' = Inr (map fst ms) \<and>
    sm_session_id S' = sm_session_id S0 \<and> sm_persisted_ids S' = sm_persisted_ids S"
proof -
  obtain D0 where D0: "conversation E V synced S0 w1 D0 []" "he_session_id (sd_header D0) = sm_session_id S0"
      "sm_file_path S0 = session_file_path_automerge_at (env_codec E) (cr_sessions_dir request) (cr_cwd request) (fst (env_generate_id E w0)) at"
    using create_at_conversation [OF env created] by auto
  obtain S D chain where S: "slot = Some S" "conversation E V synced S w2 D chain" "map message chain = map fst ms"
      "sm_file_path S = sm_file_path S0" "sd_header D = sd_header D0"
    using append_all_conversation [OF env D0(1) appended] msgs(1,2) by auto
  have len: "length chain \<le> MAX_TRAVERSAL_DEPTH" using S(3) msgs(3) by (metis length_map)
  have path: "is_automerge_path (sm_file_path S)" unfolding S(4) D0(3) using name by (rule is_automerge_session_path)
  have c: "manager_holds E V S D" "manager_saved E V synced S w2" "linear_session (messages_of (entries_of D)) chain"
      "sm_active_leaf_id S = (if chain = [] then None else Some (me_id (last chain)))"
    using S(2) by (simp_all add: conversation_def)
  obtain S' where S': "open_session E (sm_file_path S) w2 = Some (Inr S', w2)" "V (sm_doc S') = V (sm_doc S)"
      "sm_session_id S' = sm_session_id S0" "sm_persisted_ids S' = sm_persisted_ids S" "sm_active_leaf_id S' = sm_active_leaf_id S"
    using open_session_holds [OF env c(1,2) path open_leaf_linear [OF c(3)]] c(4) S(5) D0(2) by auto
  have "manager_holds E V S' D" using c(1) S'(2,4) holds_view unfolding manager_holds_def by metis
  then have "build_context E S' = build_context E S" using c(1) S'(5) by (simp add: context_holds [OF env])
  with conversation_context [OF env S(2) len] S(1,3) S' show ?thesis by auto
qed

section \<open>Branches grow and are cut\<close>

abbreviation tree_of :: "('m, 'j, 't) session_doc \<Rightarrow> ('m, 'j, 't) session_tree" where
  "tree_of D \<equiv> build (entries_of D)"

definition add_message :: "('m, 't) message_entry \<Rightarrow> ('m, 'j, 't) session_doc \<Rightarrow> ('m, 'j, 't) session_doc" where
  "add_message e D = D\<lparr>sd_messages := bt_insert (me_id e) e (sd_messages D)\<rparr>"

lemma find_in_manager: "manager_holds E V S D \<Longrightarrow> find_message (tree_of D) i = bt_get (sd_messages D) i"
  unfolding manager_holds_def by (metis find_in_doc)

text \<open>The message at the top of a walk that reaches a root, and the walk from any message on it.\<close>

lemma grounded_walk: "grounded t k (Some i) \<Longrightarrow> k \<le> MAX_TRAVERSAL_DEPTH \<Longrightarrow> walk_branch t i = rev (walk_up t k (Some i))"
  using grounded_more [of t k "Some i" MAX_TRAVERSAL_DEPTH] by (simp add: walk_branch_def)

lemma grounded_suffix:
  "grounded (build es) n x \<Longrightarrow> walk_up (build es) n x = xs @ e # ys \<Longrightarrow>
   \<exists>k \<le> n. grounded (build es) k (Some (me_id e)) \<and> walk_up (build es) k (Some (me_id e)) = e # ys"
proof (induction xs arbitrary: n x)
  case Nil
  then obtain k j where "n = Suc k" "x = Some j" by (cases n; cases x) auto
  with Nil walk_up_hd [of es n j] show ?case by (intro exI [of _ n]) simp
next
  case (Cons a xs)
  then obtain k j where kj: "n = Suc k" "x = Some j" by (cases n; cases x) auto
  then have "grounded (build es) k (parent_id a)" "walk_up (build es) k (parent_id a) = xs @ e # ys"
    using Cons.prems by (auto split: option.splits)
  from Cons.IH [OF this] kj show ?case by (meson le_SucI)
qed

lemma walk_branch_prefix:
  assumes "grounded (build es) k (Some i)" "k \<le> MAX_TRAVERSAL_DEPTH" "walk_branch (build es) i = p @ e # q"
  shows "walk_branch (build es) (me_id e) = p @ [e] \<and> (\<exists>k' \<le> k. grounded (build es) k' (Some (me_id e)))"
proof -
  have "walk_up (build es) k (Some i) = rev q @ e # rev p"
    using assms grounded_walk [OF assms(1,2)] by (simp add: rev_swap)
  from grounded_suffix [OF assms(1) this] obtain k' where k': "k' \<le> k" "grounded (build es) k' (Some (me_id e))"
      "walk_up (build es) k' (Some (me_id e)) = e # rev p" by blast
  then have "walk_branch (build es) (me_id e) = p @ [e]" using grounded_walk [OF k'(2)] assms(2) by simp
  with k' show ?thesis by blast
qed

lemma append_keeps_branches:
  assumes S: "manager_holds E V S D" "manager_holds E V S' (add_message e D)" "me_id e \<notin> sm_persisted_ids S"
    and g: "grounded (tree_of D) k (Some i)" "k \<le> MAX_TRAVERSAL_DEPTH"
  shows "grounded (tree_of (add_message e D)) k (Some i) \<and> walk_branch (tree_of (add_message e D)) i = walk_branch (tree_of D) i"
proof -
  have "bt_get (sd_messages D) (me_id e) = None" using S(3) manager_holds_keys [OF S(1)] by simp
  then have keep: "find_message (tree_of (add_message e D)) j = Some m" if "find_message (tree_of D) j = Some m" for j m
    using that unfolding find_in_manager [OF S(1)] find_in_manager [OF S(2)]
    by (auto simp: add_message_def bt_get_insert)
  from grounded_keep [OF g(1) keep] have
    k: "grounded (tree_of (add_message e D)) k (Some i)" "walk_up (tree_of (add_message e D)) k (Some i) = walk_up (tree_of D) k (Some i)"
    by blast+
  with grounded_walk [OF g] grounded_walk [OF k(1) g(2)] show ?thesis by simp
qed

lemma append_extends_branch:
  assumes S: "manager_holds E V S D" "manager_holds E V S' (add_message e D)" "me_id e \<notin> sm_persisted_ids S"
    and g: "grounded (tree_of D) k (Some i)" "k < MAX_TRAVERSAL_DEPTH" "parent_id e = Some i"
  shows "grounded (tree_of (add_message e D)) (Suc k) (Some (me_id e)) \<and>
    walk_branch (tree_of (add_message e D)) (me_id e) = walk_branch (tree_of D) i @ [e]"
proof -
  have new: "find_message (tree_of (add_message e D)) (me_id e) = Some e"
    unfolding find_in_manager [OF S(2)] by (simp add: add_message_def bt_get_insert)
  note keep = append_keeps_branches [OF S g(1) less_imp_le [OF g(2)]]
  then have g': "grounded (tree_of (add_message e D)) (Suc k) (Some (me_id e))" using new g(3) by simp
  have le: "Suc k \<le> MAX_TRAVERSAL_DEPTH" "k \<le> MAX_TRAVERSAL_DEPTH" using g(2) by simp_all
  have "walk_branch (tree_of (add_message e D)) (me_id e) = rev (walk_up (tree_of (add_message e D)) k (Some i)) @ [e]"
    using grounded_walk [OF g' le(1)] new g(3) by simp
  also have "\<dots> = walk_branch (tree_of D) i @ [e]"
    using keep grounded_walk [of "tree_of (add_message e D)" k i] le(2) by simp
  finally show ?thesis using g' by blast
qed

lemma context_of_leaf:
  assumes "env_ok E V synced M N" "manager_holds E V S D" "sm_active_leaf_id S = Some i" "grounded (tree_of D) k (Some i)"
  shows "build_context E S = Inr (map message (walk_branch (tree_of D) i))"
proof -
  obtain m where "find_message (tree_of D) i = Some m" using assms(4) by (cases k) (auto split: option.splits)
  moreover from this have "me_id m = i" using find_message_id by blast
  ultimately show ?thesis using assms(3) by (simp add: context_holds [OF assms(1,2)] build_messages_for_branch_def)
qed

lemma append_message_add:
  assumes "env_ok E V synced M N" "manager_holds E V S D"
    "agent_message_id msg \<notin> sm_persisted_ids S" "agent_message_id msg \<noteq> []" "msg \<in> M"
    "append_message_at E msg parent at S w = Some (Inr (), S', w')"
  shows "manager_holds E V S' (add_message \<lparr>me_id = agent_message_id msg, parent_id = parent, message = msg, timestamp = at\<rparr> D)"
  using append_message_holds(1) [OF assms] by (simp add: add_message_def)

lemma append_context:
  assumes env: "env_ok E V synced M N" and S: "manager_holds E V S D"
    and g: "grounded (tree_of D) k (Some p)" "k < MAX_TRAVERSAL_DEPTH"
    and msg: "agent_message_id msg \<notin> sm_persisted_ids S" "agent_message_id msg \<noteq> []" "msg \<in> M"
    and run: "append_message_at E msg (Some p) at S w = Some (Inr (), S', w')"
  shows "build_context E S' = Inr (map message (walk_branch (tree_of D) p) @ [msg])"
    "grounded (tree_of D) k' (Some i) \<Longrightarrow> k' \<le> MAX_TRAVERSAL_DEPTH \<Longrightarrow>
      \<exists>S2. set_active_head E i S' = (Inr (), S2) \<and> build_context E S2 = Inr (map message (walk_branch (tree_of D) i))"
proof -
  let ?n = "\<lparr>me_id = agent_message_id msg, parent_id = Some p, message = msg, timestamp = at\<rparr>"
  have S': "manager_holds E V S' (add_message ?n D)" by (rule append_message_add [OF env S msg run])
  have leaf: "sm_active_leaf_id S' = Some (agent_message_id msg)" by (rule append_message_holds(2) [OF env S msg run])
  have fresh: "me_id ?n \<notin> sm_persisted_ids S" using msg(1) by simp
  from append_extends_branch [OF S S' fresh g]
  have g': "grounded (tree_of (add_message ?n D)) (Suc k) (Some (agent_message_id msg))"
    and walk: "walk_branch (tree_of (add_message ?n D)) (agent_message_id msg) = walk_branch (tree_of D) p @ [?n]"
    by (simp_all del: grounded.simps)
  from context_of_leaf [OF env S' leaf g'] walk show "build_context E S' = Inr (map message (walk_branch (tree_of D) p) @ [msg])"
    by simp
  assume "grounded (tree_of D) k' (Some i)" "k' \<le> MAX_TRAVERSAL_DEPTH"
  from append_keeps_branches [OF S S' fresh this]
  have old: "grounded (tree_of (add_message ?n D)) k' (Some i)" "walk_branch (tree_of (add_message ?n D)) i = walk_branch (tree_of D) i"
    by simp_all
  then obtain m where "find_message (tree_of (add_message ?n D)) i = Some m" by (cases k') (auto split: option.splits)
  then have h: "set_active_head E i S' = (Inr (), S'\<lparr>sm_active_leaf_id := Some i\<rparr>)"
    by (simp add: set_active_head_def load_tree_holds [OF env S'])
  have "manager_holds E V (S'\<lparr>sm_active_leaf_id := Some i\<rparr>) (add_message ?n D)" using S' by (simp add: manager_holds_def)
  from context_of_leaf [OF env this _ old(1)] h old(2)
  show "\<exists>S2. set_active_head E i S' = (Inr (), S2) \<and> build_context E S2 = Inr (map message (walk_branch (tree_of D) i))" by simp
qed

text \<open>C22 (functional). Take a manager in a state its operations keep, whose active leaf hangs on a path from a root, shorter than the 50000 steps of every walk. Rewinding
  by \<open>n\<close> messages cuts the context of the model to what it was before its last \<open>n\<close>
  messages when there are more than \<open>n\<close> messages, and is refused, without effect, otherwise: one message always stays. A message with a new,
  non-empty id, which the codec reads back, that is appended there with success
  starts a new branch: the context is the part that was kept and the new message; and the branch that
  was left is not lost: making its old leaf active again gives the old context.\<close>

theorem rewind_starts_branch:
  assumes env: "env_ok E V synced M N" and S: "manager_holds E V S D" "sm_active_leaf_id S = Some i"
    and g: "grounded (tree_of D) k (Some i)" "k < MAX_TRAVERSAL_DEPTH" and ctx: "build_context E S = Inr ctx"
  shows "(n \<ge> length ctx \<longrightarrow> (\<exists>e. rewind E n S = (Inl e, S))) \<and>
    (n < length ctx \<longrightarrow> (\<exists>j S'. rewind E n S = (Inr j, S') \<and> build_context E S' = Inr (take (length ctx - n) ctx) \<and>
      (\<forall>msg at w S'' w''. agent_message_id msg \<notin> sm_persisted_ids S \<longrightarrow> agent_message_id msg \<noteq> [] \<longrightarrow> msg \<in> M \<longrightarrow>
        append_message_at E msg (Some j) at S' w = Some (Inr (), S'', w'') \<longrightarrow>
        build_context E S'' = Inr (take (length ctx - n) ctx @ [msg]) \<and>
        (\<exists>S3. set_active_head E i S'' = (Inr (), S3) \<and> build_context E S3 = Inr ctx))))"
proof (intro conjI impI)
  have load: "load_tree E S = Inr (tree_of D)" by (rule load_tree_holds [OF env S(1)])
  have path: "ctx = map message (walk_branch (tree_of D) i)" using context_of_leaf [OF env S g(1)] ctx by simp
  show "\<exists>e. rewind E n S = (Inl e, S)" if "n \<ge> length ctx"
    using that by (simp add: rewind_def load S(2) path Let_def)
  assume n: "n < length ctx"
  let ?b = "walk_branch (tree_of D) i" and ?m = "length ctx - n - 1"
  have m: "?m < length ?b" using n path by simp
  let ?e = "?b ! ?m"
  have split: "?b = take ?m ?b @ ?e # drop (Suc ?m) ?b" using m by (rule id_take_nth_drop)
  from walk_branch_prefix [OF g(1) less_imp_le [OF g(2)] split] obtain k' where
    k': "walk_branch (tree_of D) (me_id ?e) = take ?m ?b @ [?e]" "k' \<le> k" "grounded (tree_of D) k' (Some (me_id ?e))"
    by blast
  have cut: "map message (take ?m ?b @ [?e]) = take (length ctx - n) ctx"
  proof -
    have "take ?m ?b @ [?e] = take (Suc ?m) ?b" using m by (simp add: take_Suc_conv_app_nth)
    moreover have "Suc ?m = length ctx - n" using n by simp
    ultimately show ?thesis using path by (simp add: take_map)
  qed
  let ?S = "S\<lparr>sm_active_leaf_id := Some (me_id ?e)\<rparr>"
  have r: "rewind E n S = (Inr (me_id ?e), ?S)"
    using n by (simp add: rewind_def load S(2) path Let_def)
  have S': "manager_holds E V ?S D" using S(1) by (simp add: manager_holds_def)
  have c': "build_context E ?S = Inr (take (length ctx - n) ctx)"
    using context_of_leaf [OF env S', of "me_id ?e" k'] k' cut by simp
  show "\<exists>j S'. rewind E n S = (Inr j, S') \<and> build_context E S' = Inr (take (length ctx - n) ctx) \<and>
      (\<forall>msg at w S'' w''. agent_message_id msg \<notin> sm_persisted_ids S \<longrightarrow> agent_message_id msg \<noteq> [] \<longrightarrow> msg \<in> M \<longrightarrow>
        append_message_at E msg (Some j) at S' w = Some (Inr (), S'', w'') \<longrightarrow>
        build_context E S'' = Inr (take (length ctx - n) ctx @ [msg]) \<and>
        (\<exists>S3. set_active_head E i S'' = (Inr (), S3) \<and> build_context E S3 = Inr ctx))"
  proof (rule exI [of _ "me_id ?e"], rule exI [of _ ?S], intro conjI allI impI r c')
    fix msg at w S'' w''
    assume msg: "agent_message_id msg \<notin> sm_persisted_ids S" "agent_message_id msg \<noteq> []" "msg \<in> M"
      and run: "append_message_at E msg (Some (me_id ?e)) at ?S w = Some (Inr (), S'', w'')"
    have new: "agent_message_id msg \<notin> sm_persisted_ids ?S" using msg(1) by simp
    note appended = append_context [OF env S' k'(3) le_less_trans [OF k'(2) g(2)] new msg(2,3) run]
    show "build_context E S'' = Inr (take (length ctx - n) ctx @ [msg])" using appended(1) k'(1) cut by simp
    show "\<exists>S3. set_active_head E i S'' = (Inr (), S3) \<and> build_context E S3 = Inr ctx"
      using appended(2) [OF g(1) less_imp_le [OF g(2)]] path by simp
  qed
qed

section \<open>A small session\<close>

text \<open>Ids are a counter of the world.\<close>

definition small_env ::
  "((unit, string) agent_message, unit, string) file_codec \<Rightarrow>
   (small_doc, nat, small_doc, small_doc small_world, unit, string) session_env" where
  "small_env C = \<lparr>env_automerge = small_automerge, env_codec = C, env_fs = small_fs (\<lambda>_. []),
     env_generate_id = (\<lambda>(fs, ts, n). (show_nat n, (fs, ts, Suc n))), env_json_object = (\<lambda>_. ())\<rparr>"

lemma small_env_ok: "codec_ok (session_codec.truncate C) M N \<Longrightarrow> env_ok (small_env C) small_view (\<lambda>_ _. True) M N"
  by (simp add: env_ok_def small_env_def small_automerge_ok small_fs_ok)

lemma small_env_simps:
  "env_generate_id (small_env C) (fs, ts, n) = (show_nat n, (fs, ts, Suc n))"
  "save_document (env_automerge (small_env C)) (env_fs (small_env C)) p d (fs, ts, n) = (Inr (), d, (fs(p \<mapsto> [d]), ts, n))"
  "fs p = Some old \<Longrightarrow> save_incremental (env_automerge (small_env C)) (env_fs (small_env C)) p d (fs, ts, n) =
     (Inr (), d, (fs(p \<mapsto> old @ [d]), ts, n))"
  by (simp_all add: small_env_def save_document_def save_incremental_def create_parent_def small_automerge_def small_fs_def
      done_doc_def split: option.split)

lemma small_saved:
  assumes "manager_saved (small_env C) small_view (\<lambda>_ _. True) S (fs, ts, n)"
  obtains bs where "fs (sm_file_path S) = Some bs"
  using assms unfolding manager_saved_def by (auto simp: small_env_def small_fs_def split: option.splits)

lemma small_append:
  assumes E: "E = small_env C" and env: "env_ok E small_view (\<lambda>_ _. True) M N" and S: "manager_holds E small_view S D"
    and saved: "manager_saved E small_view (\<lambda>_ _. True) S w"
    and msg: "agent_message_id msg \<notin> sm_persisted_ids S" "agent_message_id msg \<noteq> []" "msg \<in> M"
  shows "\<exists>S' w'. append_message_at E msg parent at S w = Some (Inr (), S', w')"
proof -
  have libs: "automerge_ok (env_automerge E) small_view (\<lambda>_ _. True)" "codec_ok (env_session_codec E) M N"
    using env by (simp_all add: env_ok_def)
  obtain fs ts n where w: "w = (fs, ts, n)" by (metis prod_cases3)
  obtain bs where bs: "fs (sm_file_path S) = Some bs" using small_saved saved unfolding E w by metis
  note saving = small_env_simps(3) [where fs = fs and p = "sm_file_path S", OF bs]
  have "\<exists>d. put_message (env_automerge E) (env_session_codec E)
      \<lparr>me_id = agent_message_id msg, parent_id = parent, message = msg, timestamp = at\<rparr> (sm_doc S) = Some (Inr (), d)"
  proof -
    have "holds (env_automerge E) (env_session_codec E) small_view (sm_doc S) D" using S by (simp add: manager_holds_def)
    from put_message_ok [OF libs this, of "\<lparr>me_id = agent_message_id msg, parent_id = parent, message = msg, timestamp = at\<rparr>"]
    show ?thesis using msg(2,3) by (metis message_entry.select_convs(1) message_entry.select_convs(3))
  qed
  then show ?thesis
    using msg(1) saving by (auto simp: append_message_at_def E w Let_def)
qed

lemma small_append_all:
  assumes E: "E = small_env C" and env: "env_ok E small_view (\<lambda>_ _. True) M N"
  shows "conversation E small_view (\<lambda>_ _. True) S w D chain \<Longrightarrow>
    distinct (map me_id chain @ map (agent_message_id \<circ> fst) xs) \<Longrightarrow> \<forall>m \<in> set xs. agent_message_id (fst m) \<noteq> [] \<and> fst m \<in> M \<Longrightarrow>
    \<exists>slot w'. append_all E xs (Some S) w = Some (slot, w')"
proof (induction xs arbitrary: S w D chain)
  case (Cons x xs)
  obtain msg at where x: "x = (msg, at)" by fastforce
  have msg: "agent_message_id msg \<notin> set (map me_id chain)" "agent_message_id msg \<noteq> []" "msg \<in> M" using Cons.prems x by auto
  have c: "manager_holds E small_view S D" "manager_saved E small_view (\<lambda>_ _. True) S w"
      "linear_session (map snd (sd_messages D)) chain"
    using Cons.prems(1) by (simp_all add: conversation_def)
  have "set (bt_keys (sd_messages D)) = set (map me_id chain)"
    using holds_ids c(1,3) unfolding manager_holds_def linear_session_def by (metis list.set_map)
  then have "agent_message_id msg \<notin> sm_persisted_ids S" using msg(1) c(1) unfolding manager_holds_def by simp
  from small_append [OF E env c(1,2) this msg(2,3)] obtain S1 w1 where
    run: "append_message_at E msg (sm_active_leaf_id S) at S w = Some (Inr (), S1, w1)" by blast
  from conversation_step [OF env Cons.prems(1) msg run] obtain D1 e where
    1: "conversation E small_view (\<lambda>_ _. True) S1 w1 D1 (chain @ [e])" "me_id e = agent_message_id msg" by blast
  have "distinct (map me_id (chain @ [e]) @ map (agent_message_id \<circ> fst) xs)" using Cons.prems(2) 1(2) x by (auto simp: comp_def)
  from Cons.IH [OF 1(1) this] Cons.prems(3) obtain slot w' where "append_all E xs (Some S1) w1 = Some (slot, w')" by auto
  with run x show ?case by (intro exI [of _ slot] exI [of _ w']) (simp add: append_message_to_active_leaf_def)
next
  case Nil
  show ?case by (intro exI) (rule append_all.simps(1))
qed

definition small_user :: "string \<Rightarrow> (unit, string) agent_message" where
  "small_user i = UserMsg \<lparr>um_id = i, um_content = [ContentText i], um_timestamp = ''1''\<rparr>"

definition small_request :: create_session_request where
  "small_request = \<lparr>cr_sessions_dir = ''s'', cr_cwd = ''/p'', cr_model = ''m'', cr_agent = None, cr_worktree_path = None,
     cr_worktree_branch = None\<rparr>"

definition small_conversation_env where
  "small_conversation_env = small_env (small_codec [(''x'', small_user ''x''), (''y'', small_user ''y''), (''z'', small_user ''z'')] [] [])"

lemma small_conversation_ok:
  "env_ok small_conversation_env small_view (\<lambda>_ _. True) {small_user ''x'', small_user ''y'', small_user ''z''} {}"
  using small_env_ok [OF small_codec_ok [of "[(''x'', small_user ''x''), (''y'', small_user ''y''), (''z'', small_user ''z'')]" "[]" "[]"]]
  by (simp add: small_conversation_env_def)

lemmas small_conversation_simps = small_env_simps
  [where C = "small_codec [(''x'', small_user ''x''), (''y'', small_user ''y''), (''z'', small_user ''z'')] [] []", folded small_conversation_env_def]

lemma small_create:
  "\<exists>S w. create_at small_conversation_env small_request ''1'' (\<lambda>_. None, \<lambda>_. None, 5) = Some (Inr S, w)"
proof -
  have libs: "automerge_ok (env_automerge small_conversation_env) small_view (\<lambda>_ _. True)"
      "codec_ok (env_session_codec small_conversation_env) {small_user ''x'', small_user ''y'', small_user ''z''} {}"
    using small_conversation_ok by (simp_all add: env_ok_def)
  obtain d where "create_document (env_automerge small_conversation_env) (env_session_codec small_conversation_env)
      \<lparr>he_session_id = show_nat 5, he_created_at = ''1'', he_cwd = ''/p'', he_model = ''m'', he_version = CARGO_PKG_VERSION,
       he_agent = None, he_parent_session_id = None, he_worktree_path = None, he_worktree_branch = None\<rparr> = Some (Inr d)"
    using create_document_ok [OF libs, of "\<lparr>he_session_id = show_nat 5, he_created_at = ''1'', he_cwd = ''/p'', he_model = ''m'',
       he_version = CARGO_PKG_VERSION, he_agent = None, he_parent_session_id = None, he_worktree_path = None, he_worktree_branch = None\<rparr>"]
    by (auto simp: CARGO_PKG_VERSION_def)
  then show ?thesis
    by (simp add: create_at_def small_request_def small_conversation_simps Let_def)
qed

theorem conversation_resumes_witness:
  "\<exists>S0 w1 S w2 S'. create_at small_conversation_env small_request ''1'' (\<lambda>_. None, \<lambda>_. None, 5) = Some (Inr S0, w1) \<and>
    append_all small_conversation_env [(small_user ''x'', ''1''), (small_user ''y'', ''1'')] (Some S0) w1 = Some (Some S, w2) \<and>
    open_session small_conversation_env (sm_file_path S) w2 = Some (Inr S', w2) \<and>
    build_context small_conversation_env S' = Inr [small_user ''x'', small_user ''y'']"
proof -
  let ?E = "small_conversation_env"
  obtain S0 w1 where created: "create_at ?E small_request ''1'' (\<lambda>_. None, \<lambda>_. None, 5) = Some (Inr S0, w1)"
    using small_create by blast
  obtain D0 where D0: "conversation ?E small_view (\<lambda>_ _. True) S0 w1 D0 []"
    using create_at_conversation [OF small_conversation_ok created] by blast
  have msgs: "distinct (map (agent_message_id \<circ> fst) [(small_user ''x'', ''1''), (small_user ''y'', ''1'')])"
      "\<forall>m \<in> set [(small_user ''x'', ''1''), (small_user ''y'', ''1'')]. agent_message_id (fst m) \<noteq> [] \<and>
         fst m \<in> {small_user ''x'', small_user ''y'', small_user ''z''}"
      "length [(small_user ''x'', ''1''), (small_user ''y'', ''1'')] \<le> MAX_TRAVERSAL_DEPTH"
    by (simp_all add: small_user_def MAX_TRAVERSAL_DEPTH_def)
  obtain slot w2 where appended: "append_all ?E [(small_user ''x'', ''1''), (small_user ''y'', ''1'')] (Some S0) w1 = Some (slot, w2)"
    using small_append_all [OF small_conversation_env_def small_conversation_ok D0 _ msgs(2)] msgs(1) by auto
  have name: "CHR ''/'' \<notin> set (format_compact (env_codec ?E) ''1'')" "CHR ''/'' \<notin> set (fst (env_generate_id ?E (\<lambda>_. None, \<lambda>_. None, 5)))"
    by (simp_all add: small_conversation_env_def small_env_def small_codec_def show_nat_lt10 char_of_def)
  from conversation_resumes [OF small_conversation_ok created name appended msgs] obtain S S' where
    r: "slot = Some S" "open_session ?E (sm_file_path S) w2 = Some (Inr S', w2)"
      "build_context ?E S' = Inr (map fst [(small_user ''x'', ''1''), (small_user ''y'', ''1'')])"
    by (elim exE conjE)
  from r(3) have "build_context ?E S' = Inr [small_user ''x'', small_user ''y'']" by simp
  with created appended [unfolded r(1)] r(2) show ?thesis by blast
qed

theorem rewind_starts_branch_witness:
  "\<exists>S S' j. build_context small_conversation_env S = Inr [small_user ''x'', small_user ''y''] \<and>
    rewind small_conversation_env 1 S = (Inr j, S') \<and> build_context small_conversation_env S' = Inr [small_user ''x'']"
proof -
  let ?E = "small_conversation_env" and ?ms = "[(small_user ''x'', ''1''), (small_user ''y'', ''1'')]"
  obtain S0 w1 where created: "create_at ?E small_request ''1'' (\<lambda>_. None, \<lambda>_. None, 5) = Some (Inr S0, w1)"
    using small_create by blast
  obtain D0 where D0: "conversation ?E small_view (\<lambda>_ _. True) S0 w1 D0 []"
    using create_at_conversation [OF small_conversation_ok created] by blast
  have msgs: "distinct (map me_id [] @ map (agent_message_id \<circ> fst) ?ms)"
      "\<forall>m \<in> set ?ms. agent_message_id (fst m) \<noteq> [] \<and> fst m \<in> {small_user ''x'', small_user ''y'', small_user ''z''}"
    by (simp_all add: small_user_def)
  obtain slot w2 where appended: "append_all ?E ?ms (Some S0) w1 = Some (slot, w2)"
    using small_append_all [OF small_conversation_env_def small_conversation_ok D0 msgs] by blast
  from append_all_conversation [OF small_conversation_ok D0 appended msgs] obtain S D chain where
    S: "conversation ?E small_view (\<lambda>_ _. True) S w2 D ([] @ chain)" "map message chain = map fst ?ms"
    by blast
  note S = S(1) [unfolded append_Nil] S(2)
  then have len: "length chain = 2" by (metis length_map length_Cons list.size(3) One_nat_def Suc_1)
  then have chain: "chain \<noteq> []" by auto
  then have snoc: "chain = butlast chain @ [last chain]" by simp
  have holds: "manager_holds ?E small_view S D" and leaf: "sm_active_leaf_id S = Some (me_id (last chain))"
    and lin: "linear_session (messages_of (entries_of D)) chain"
    using S(1) chain by (simp_all add: conversation_def)
  have g: "grounded (tree_of D) 2 (Some (me_id (last chain)))"
    using linear_grounded [OF lin snoc] len by (simp add: numeral_2_eq_2)
  have ctx: "build_context ?E S = Inr [small_user ''x'', small_user ''y'']"
    using conversation_context [OF small_conversation_ok S(1)] S(2) len by (simp add: MAX_TRAVERSAL_DEPTH_def)
  have "2 < MAX_TRAVERSAL_DEPTH" by (simp add: MAX_TRAVERSAL_DEPTH_def)
  from rewind_starts_branch [OF small_conversation_ok holds leaf g this ctx, of 1, THEN conjunct2] ctx
  show ?thesis by (simp add: numeral_2_eq_2) blast
qed

end
