(* ===== verification/Session_Merge.thy ===== *)
theory Session_Merge
  imports Session_Manager
begin

text \<open>
  Merging and cherry-picking between the branches of a session,
  \<^verbatim>\<open>crates/clankers-session/src/merge.rs\<close>. Copies get fresh random ids, drawn one by one from the world.
  The walk over the children of a picked message is a loop without a bound; not returning is the value
  \<^term>\<open>None\<close>, and \<open>collect_descendants\<close> shows that it returns in every session whose messages reach a root.
\<close>

section \<open>The operations\<close>

type_synonym ('d, 'w) merge_outcome = "(nat \<times> message_id, 'd, 'w) manager_outcome"

definition refuse :: "string \<Rightarrow> 'd session_manager \<Rightarrow> 'w \<Rightarrow> ('a, 'd, 'w) manager_outcome" where
  "refuse e S w = Some (Inl e, S, w)"

text \<open>The annotation that both kinds of merge and the cherry-pick end with, and the move of the active leaf.\<close>

definition note_and_move ::
  "('d, 'o, 'b, 'w, 'v, 't) session_env \<Rightarrow> string \<Rightarrow> (string \<times> json_field) list \<Rightarrow> 't \<Rightarrow> nat \<Rightarrow> message_id \<Rightarrow>
   'd session_manager \<Rightarrow> 'w \<Rightarrow> ('d, 'w) merge_outcome" where
  "note_and_move E kind data at count leaf S w = (let (i, w1) = env_generate_id E w
     in Some (then_update (store_annotation E (AnnCustom \<lparr>cu_id = i, cu_kind = kind,
          cu_data = env_json_object E data, cu_timestamp = at\<rparr>) S w1)
        (count, leaf) (sm_active_leaf_id_update (\<lambda>_. Some leaf))))"

definition merge_branch_at ::
  "('d, 'o, 'b, 'w, 'v, 't) session_env \<Rightarrow> message_id \<Rightarrow> message_id \<Rightarrow> 't \<Rightarrow> 'd session_manager \<Rightarrow> 'w \<Rightarrow> ('d, 'w) merge_outcome" where
  "merge_branch_at E source target at S w =
     (if source = target then refuse ''Cannot merge a branch into itself'' S w
      else case load_tree E S of
        Inl e \<Rightarrow> refuse e S w
      | Inr tree \<Rightarrow>
          if find_message tree source = None then refuse (''Source branch leaf not found: '' @ source) S w
          else if find_message tree target = None then refuse (''Target branch leaf not found: '' @ target) S w
          else let unique = find_unique_messages tree source target
            in if unique = []
               then refuse (''No new messages to merge '' @ bytes_of [0xE2, 0x80, 0x94] @
                 '' source branch is already merged or is an ancestor of target'') S w
               else note_and_move E ''merge''
                 [(''source_leaf'', FieldStr source), (''target_leaf'', FieldStr target),
                  (''merged_message_ids'', FieldStrs (map me_id unique)), (''merged_count'', FieldNum (length unique)),
                  (''strategy'', FieldStr ''full'')] at (length unique) target S w)"

fun copy_messages ::
  "('d, 'o, 'b, 'w, 'v, 't) session_env \<Rightarrow> (('v, 't) agent_message, 't) message_entry list \<Rightarrow> message_id \<Rightarrow> 't \<Rightarrow>
   'd session_manager \<Rightarrow> 'w \<Rightarrow> (message_id, 'd, 'w) manager_outcome" where
  "copy_messages E [] parent at S w = Some (Inr parent, S, w)"
| "copy_messages E (m # ms) parent at S w = (let (i, w1) = env_generate_id E w
     in case append_message_at E (set_message_id i (message m)) (Some parent) at S w1 of
       None \<Rightarrow> None
     | Some (Inl e, S', w') \<Rightarrow> Some (Inl e, S', w')
     | Some (Inr _, S', w') \<Rightarrow> copy_messages E ms i at S' w')"

definition copy_and_note ::
  "('d, 'o, 'b, 'w, 'v, 't) session_env \<Rightarrow> string \<Rightarrow> (string \<times> json_field) list \<Rightarrow> 't \<Rightarrow>
   (('v, 't) agent_message, 't) message_entry list \<Rightarrow> message_id \<Rightarrow> 'd session_manager \<Rightarrow> 'w \<Rightarrow> ('d, 'w) merge_outcome" where
  "copy_and_note E kind data at ms target S w = (case copy_messages E ms target at S w of
     None \<Rightarrow> None
   | Some (Inl e, S', w') \<Rightarrow> Some (Inl e, S', w')
   | Some (Inr leaf, S', w') \<Rightarrow> note_and_move E kind data at (length ms) leaf S' w')"

definition merge_selective_at ::
  "('d, 'o, 'b, 'w, 'v, 't) session_env \<Rightarrow> message_id \<Rightarrow> message_id \<Rightarrow> message_id list \<Rightarrow> 't \<Rightarrow>
   'd session_manager \<Rightarrow> 'w \<Rightarrow> ('d, 'w) merge_outcome" where
  "merge_selective_at E source target selected at S w =
     (if source = target then refuse ''Cannot merge a branch into itself'' S w
      else if selected = [] then refuse ''No messages selected for merge'' S w
      else case load_tree E S of
        Inl e \<Rightarrow> refuse e S w
      | Inr tree \<Rightarrow>
          if find_message tree source = None then refuse (''Source branch leaf not found: '' @ source) S w
          else if find_message tree target = None then refuse (''Target branch leaf not found: '' @ target) S w
          else let picked = filter (\<lambda>m. me_id m \<in> set selected) (find_unique_messages tree source target)
            in if picked = [] then refuse ''None of the selected messages are unique to the source branch'' S w
               else copy_and_note E ''merge''
                 [(''source_leaf'', FieldStr source), (''target_leaf'', FieldStr target),
                  (''merged_count'', FieldNum (length picked)), (''strategy'', FieldStr ''selective'')] at picked target S w)"

text \<open>The stack of the walk, with its top first: children are pushed in reverse, so the first is on top.\<close>

partial_function (option) collect ::
  "('m, 'j, 't) session_tree \<Rightarrow> message_id list \<Rightarrow> ('m, 't) message_entry list \<Rightarrow> ('m, 't) message_entry list option" where
  "collect tree stack collected = (case stack of
     [] \<Rightarrow> Some collected
   | i # rest \<Rightarrow> (case find_message tree i of
       None \<Rightarrow> collect tree rest collected
     | Some m \<Rightarrow> collect tree (map me_id (get_children tree (Some i)) @ rest) (collected @ [m])))"

definition cherry_pick_at ::
  "('d, 'o, 'b, 'w, 'v, 't) session_env \<Rightarrow> message_id \<Rightarrow> message_id \<Rightarrow> bool \<Rightarrow> 't \<Rightarrow>
   'd session_manager \<Rightarrow> 'w \<Rightarrow> ('d, 'w) merge_outcome" where
  "cherry_pick_at E i target with_children at S w = (case load_tree E S of
     Inl e \<Rightarrow> refuse e S w
   | Inr tree \<Rightarrow> (case find_message tree i of
       None \<Rightarrow> refuse (''Message not found: '' @ i) S w
     | Some m \<Rightarrow>
         if find_message tree target = None then refuse (''Target branch leaf not found: '' @ target) S w
         else case (if with_children then collect tree [i] [] else Some [m]) of
           None \<Rightarrow> None
         | Some ms \<Rightarrow>
             if ms = [] then refuse ''No messages to cherry-pick'' S w
             else copy_and_note E ''cherry-pick''
               [(''source_message_id'', FieldStr i), (''target_leaf'', FieldStr target),
                (''with_children'', FieldBool with_children), (''copied_count'', FieldNum (length ms))] at ms target S w))"

section \<open>What copying adds\<close>

text \<open>The ids that a run of copies draws.\<close>

fun drawn_ids ::
  "('d, 'o, 'b, 'w, 'v, 't) session_env \<Rightarrow> (('v, 't) agent_message, 't) message_entry list \<Rightarrow> message_id \<Rightarrow> 't \<Rightarrow>
   'd session_manager \<Rightarrow> 'w \<Rightarrow> message_id list" where
  "drawn_ids E [] parent at S w = []"
| "drawn_ids E (m # ms) parent at S w = (let (i, w1) = env_generate_id E w
     in i # (case append_message_at E (set_message_id i (message m)) (Some parent) at S w1 of
       Some (Inr _, S', w') \<Rightarrow> drawn_ids E ms i at S' w'
     | _ \<Rightarrow> []))"

definition branch_kept where
  "branch_kept D D' \<longleftrightarrow> (\<forall>i k. grounded (tree_of D) k (Some i) \<longrightarrow> k \<le> MAX_TRAVERSAL_DEPTH \<longrightarrow>
     grounded (tree_of D') k (Some i) \<and> walk_branch (tree_of D') i = walk_branch (tree_of D) i)"

lemma branch_kept_refl: "branch_kept D D"
  by (simp add: branch_kept_def)

lemma branch_kept_trans: "branch_kept D D' \<Longrightarrow> branch_kept D' D'' \<Longrightarrow> branch_kept D D''"
  unfolding branch_kept_def by metis

lemma copy_messages_holds:
  assumes env: "env_ok E V synced M N"
  shows "manager_holds E V S D \<Longrightarrow> grounded (tree_of D) k (Some p) \<Longrightarrow> k + length ms \<le> MAX_TRAVERSAL_DEPTH \<Longrightarrow>
    copy_messages E ms p at S w = Some (Inr leaf, S', w') \<Longrightarrow>
    distinct (drawn_ids E ms p at S w) \<Longrightarrow> set (drawn_ids E ms p at S w) \<inter> sm_persisted_ids S = {} \<Longrightarrow>
    [] \<notin> set (drawn_ids E ms p at S w) \<Longrightarrow> set (map2 (\<lambda>i m. set_message_id i (message m)) (drawn_ids E ms p at S w) ms) \<subseteq> M \<Longrightarrow>
    \<exists>D'. manager_holds E V S' D' \<and> branch_kept D D' \<and> grounded (tree_of D') (k + length ms) (Some leaf) \<and>
      map message (walk_branch (tree_of D') leaf) = map message (walk_branch (tree_of D) p) @
        map2 (\<lambda>i m. set_message_id i (message m)) (drawn_ids E ms p at S w) ms \<and>
      sm_persisted_ids S' = sm_persisted_ids S \<union> set (drawn_ids E ms p at S w) \<and> length (drawn_ids E ms p at S w) = length ms"
proof (induction ms arbitrary: S D k p w)
  case Nil
  then show ?case using branch_kept_refl by auto
next
  case (Cons m ms)
  obtain i w1 where gen: "env_generate_id E w = (i, w1)" by fastforce
  let ?msg = "set_message_id i (message m)"
  obtain S1 w2 where run: "append_message_at E ?msg (Some p) at S w1 = Some (Inr (), S1, w2)"
      "copy_messages E ms i at S1 w2 = Some (Inr leaf, S', w')"
    using Cons.prems(4) gen by (auto split: option.splits sum.splits)
  have ids: "drawn_ids E (m # ms) p at S w = i # drawn_ids E ms i at S1 w2" using gen run(1) by simp
  note prems = Cons.prems(5-8) [unfolded ids]
  have fresh: "agent_message_id ?msg \<notin> sm_persisted_ids S" "agent_message_id ?msg \<noteq> []" "?msg \<in> M"
    using prems(2-4) by auto
  let ?n = "\<lparr>me_id = i, parent_id = Some p, message = ?msg, timestamp = at\<rparr>"
  have S1: "manager_holds E V S1 (add_message ?n D)"
    using append_message_add [OF env Cons.prems(1) fresh run(1)] by simp
  have new: "me_id ?n \<notin> sm_persisted_ids S" using fresh(1) by simp
  have k: "k < MAX_TRAVERSAL_DEPTH" using Cons.prems(3) by simp
  have ext: "grounded (tree_of (add_message ?n D)) (Suc k) (Some i)"
    "walk_branch (tree_of (add_message ?n D)) i = walk_branch (tree_of D) p @ [?n]"
    using append_extends_branch [OF Cons.prems(1) S1 new Cons.prems(2) k] by (simp_all del: grounded.simps)
  have kept: "branch_kept D (add_message ?n D)"
    unfolding branch_kept_def using append_keeps_branches [OF Cons.prems(1) S1 new] by blast
  have pers: "sm_persisted_ids S1 = insert i (sm_persisted_ids S)"
    using S1 Cons.prems(1) bt_insert_keys [of i ?n "sd_messages D"] by (simp add: manager_holds_def add_message_def)
  have rest: "Suc k + length ms \<le> MAX_TRAVERSAL_DEPTH" "distinct (drawn_ids E ms i at S1 w2)"
      "set (drawn_ids E ms i at S1 w2) \<inter> sm_persisted_ids S1 = {}" "[] \<notin> set (drawn_ids E ms i at S1 w2)"
      "set (map2 (\<lambda>i m. set_message_id i (message m)) (drawn_ids E ms i at S1 w2) ms) \<subseteq> M"
    using Cons.prems(3) prems pers by auto
  from Cons.IH [OF S1 ext(1) rest(1) run(2) rest(2-5)] obtain D' where D':
    "manager_holds E V S' D'" "branch_kept (add_message ?n D) D'" "grounded (tree_of D') (Suc k + length ms) (Some leaf)"
    "map message (walk_branch (tree_of D') leaf) = map message (walk_branch (tree_of (add_message ?n D)) i) @
      map2 (\<lambda>i m. set_message_id i (message m)) (drawn_ids E ms i at S1 w2) ms"
    "sm_persisted_ids S' = sm_persisted_ids S1 \<union> set (drawn_ids E ms i at S1 w2)" "length (drawn_ids E ms i at S1 w2) = length ms"
    by blast
  show ?case
    using D'(1,3-6) branch_kept_trans [OF kept D'(2)] ids pers ext(2)
    by (intro exI [of _ D']) (simp del: grounded.simps drawn_ids.simps)
qed

lemma walk_up_same:
  "(\<And>j. find_message t j = find_message t' j) \<Longrightarrow> walk_up t n x = walk_up t' n x \<and> grounded t n x = grounded t' n x"
  by (induction t n x rule: grounded.induct) (auto split: option.splits)

lemma note_and_move_holds:
  assumes env: "env_ok E V synced M N" and S: "manager_holds E V S D"
    and custom: "\<And>i data. AnnCustom \<lparr>cu_id = i, cu_kind = kind, cu_data = data, cu_timestamp = at\<rparr> \<in> N"
    and run: "note_and_move E kind data at count leaf S w = Some (Inr (c, l), S', w')"
  obtains a where "manager_holds E V S' (D\<lparr>sd_annotations := sd_annotations D @ [a]\<rparr>)" "sm_active_leaf_id S' = Some leaf"
    "c = count" "l = leaf" "sm_persisted_ids S' = sm_persisted_ids S"
proof -
  have libs: "automerge_ok (env_automerge E) V synced" "codec_ok (env_session_codec E) M N" "fs_ok (env_fs E)"
    using env by (simp_all add: env_ok_def)
  obtain i w1 where gen: "env_generate_id E w = (i, w1)" by fastforce
  let ?a = "AnnCustom \<lparr>cu_id = i, cu_kind = kind, cu_data = env_json_object E data, cu_timestamp = at\<rparr>"
  have D: "holds (env_automerge E) (env_session_codec E) V (sm_doc S) D" using S by (simp add: manager_holds_def)
  obtain d where d: "put_annotation (env_automerge E) (env_session_codec E) ?a (sm_doc S) = (Inr (), d)"
      "holds (env_automerge E) (env_session_codec E) V d (D\<lparr>sd_annotations := sd_annotations D @ [?a]\<rparr>)"
    using put_annotation_ok [OF libs(1,2) D custom] by metis
  obtain r d' w2 where si: "save_incremental (env_automerge E) (env_fs E) (sm_file_path S) d w1 = (r, d', w2)"
    by (metis prod_cases3)
  have s: "save_incremental (env_automerge E) (env_fs E) (sm_file_path S) d w1 = (Inr (), d', w')"
      "S' = S\<lparr>sm_doc := d', sm_active_leaf_id := Some leaf\<rparr>" "c = count" "l = leaf"
    using run si by (cases r; simp add: note_and_move_def gen store_annotation_def d(1) then_update_def)+
  have "V d' = V d"
    using s(1) libs(1) unfolding automerge_ok_def saves_ok_def
    by (auto simp: save_incremental_def Let_def split: prod.splits if_splits)
  from holds_view [OF d(2) this] S s that [of ?a] show ?thesis by (simp add: manager_holds_def)
qed

lemma annotated_find: "manager_holds E V S' (D\<lparr>sd_annotations := as\<rparr>) \<Longrightarrow> manager_holds E V S D \<Longrightarrow>
  find_message (tree_of (D\<lparr>sd_annotations := as\<rparr>)) j = find_message (tree_of D) j"
  by (simp add: find_in_manager)

lemma set_active_head_context:
  assumes env: "env_ok E V synced M N" and S: "manager_holds E V S D" and g: "grounded (tree_of D) k (Some i)"
  shows "set_active_head E i S = (Inr (), S\<lparr>sm_active_leaf_id := Some i\<rparr>) \<and>
    build_context E (S\<lparr>sm_active_leaf_id := Some i\<rparr>) = Inr (map message (walk_branch (tree_of D) i))"
proof -
  obtain m where "find_message (tree_of D) i = Some m" using g by (cases k) (auto split: option.splits)
  then have "set_active_head E i S = (Inr (), S\<lparr>sm_active_leaf_id := Some i\<rparr>)"
    by (simp add: set_active_head_def load_tree_holds [OF env S])
  moreover have "manager_holds E V (S\<lparr>sm_active_leaf_id := Some i\<rparr>) D" using S by (simp add: manager_holds_def)
  ultimately show ?thesis using context_of_leaf [OF env _ _ g] by simp
qed

text \<open>All that copying does: the target's branch is continued by the copies, and no branch changes.\<close>

lemma copy_and_note_context:
  assumes env: "env_ok E V synced M N" and S: "manager_holds E V S D"
    and custom: "\<And>i data. AnnCustom \<lparr>cu_id = i, cu_kind = kind, cu_data = data, cu_timestamp = at\<rparr> \<in> N"
    and g: "grounded (tree_of D) k (Some p)" "k + length ms \<le> MAX_TRAVERSAL_DEPTH"
    and ids: "ids = drawn_ids E ms p at S w" "distinct ids" "set ids \<inter> sm_persisted_ids S = {}" "[] \<notin> set ids"
      "set (map2 (\<lambda>i m. set_message_id i (message m)) ids ms) \<subseteq> M"
    and run: "copy_and_note E kind data at ms p S w = Some (Inr (c, leaf), S', w')"
  shows "c = length ms \<and> sm_active_leaf_id S' = Some leaf \<and>
    build_context E S' = Inr (map message (walk_branch (tree_of D) p) @ map2 (\<lambda>i m. set_message_id i (message m)) ids ms) \<and>
    (\<forall>i k'. grounded (tree_of D) k' (Some i) \<longrightarrow> k' \<le> MAX_TRAVERSAL_DEPTH \<longrightarrow>
      (\<exists>S2. set_active_head E i S' = (Inr (), S2) \<and> build_context E S2 = Inr (map message (walk_branch (tree_of D) i))))"
proof -
  obtain l S1 w1 where c: "copy_messages E ms p at S w = Some (Inr l, S1, w1)"
      "note_and_move E kind data at (length ms) l S1 w1 = Some (Inr (c, leaf), S', w')"
    using run by (auto simp: copy_and_note_def split: option.splits sum.splits prod.splits)
  obtain D1 where D1: "manager_holds E V S1 D1" "branch_kept D D1" "grounded (tree_of D1) (k + length ms) (Some l)"
      "map message (walk_branch (tree_of D1) l) = map message (walk_branch (tree_of D) p) @ map2 (\<lambda>i m. set_message_id i (message m)) ids ms"
    using copy_messages_holds [OF env S g c(1)] ids by auto
  obtain a where a: "manager_holds E V S' (D1\<lparr>sd_annotations := sd_annotations D1 @ [a]\<rparr>)" "sm_active_leaf_id S' = Some l"
      "c = length ms" "leaf = l"
    using note_and_move_holds [OF env D1(1) custom c(2)] by metis
  let ?t = "tree_of (D1\<lparr>sd_annotations := sd_annotations D1 @ [a]\<rparr>)"
  note same = walk_up_same [of ?t "tree_of D1", OF annotated_find [OF a(1) D1(1)]]
  have walk: "walk_branch ?t j = walk_branch (tree_of D1) j" for j using same by (simp add: walk_branch_def)
  have "build_context E S' = Inr (map message (walk_branch (tree_of D1) l))"
    using context_of_leaf [OF env a(1,2), of "k + length ms"] same D1(3) walk by simp
  moreover have "\<exists>S2. set_active_head E i S' = (Inr (), S2) \<and> build_context E S2 = Inr (map message (walk_branch (tree_of D) i))"
    if "grounded (tree_of D) k' (Some i)" "k' \<le> MAX_TRAVERSAL_DEPTH" for i k'
  proof -
    have "grounded ?t k' (Some i)" "walk_branch ?t i = walk_branch (tree_of D) i"
      using D1(2) that same walk unfolding branch_kept_def by metis+
    with set_active_head_context [OF env a(1)] show ?thesis by fastforce
  qed
  ultimately show ?thesis using a D1(4) by simp
qed

text \<open>C21 (functional). A selective merge that succeeds, and whose random ids are new, continues the target branch by
  copies of exactly the selected messages among those only the source branch has, in the order of the
  source branch; it reports their number and makes the last copy the active leaf; and no branch that was
  there before changes: making any of its messages active gives the context it gave before.\<close>

theorem selective_merge_copies:
  assumes env: "env_ok E V synced M N" and S: "manager_holds E V S D"
    and custom: "\<forall>i data. AnnCustom \<lparr>cu_id = i, cu_kind = ''merge'', cu_data = data, cu_timestamp = at\<rparr> \<in> N"
    and picked: "picked = filter (\<lambda>m. me_id m \<in> set selected) (find_unique_messages (tree_of D) source target)"
    and target: "grounded (tree_of D) k (Some target)" "k + length picked \<le> MAX_TRAVERSAL_DEPTH"
    and ids: "ids = drawn_ids E picked target at S w" "distinct ids" "set ids \<inter> sm_persisted_ids S = {}" "[] \<notin> set ids"
      "set (map2 (\<lambda>i m. set_message_id i (message m)) ids picked) \<subseteq> M"
    and run: "merge_selective_at E source target selected at S w = Some (Inr (count, leaf), S', w')"
  shows "count = length picked \<and> sm_active_leaf_id S' = Some leaf \<and>
    build_context E S' = Inr (map message (walk_branch (tree_of D) target) @ map2 (\<lambda>i m. set_message_id i (message m)) ids picked) \<and>
    (\<forall>i k'. grounded (tree_of D) k' (Some i) \<longrightarrow> k' \<le> MAX_TRAVERSAL_DEPTH \<longrightarrow>
      (\<exists>S2. set_active_head E i S' = (Inr (), S2) \<and> build_context E S2 = Inr (map message (walk_branch (tree_of D) i))))"
proof -
  have "\<exists>data. copy_and_note E ''merge'' data at picked target S w = Some (Inr (count, leaf), S', w')"
    using run load_tree_holds [OF env S]
    by (auto simp: merge_selective_at_def refuse_def picked Let_def split: if_splits)
  then obtain data where "copy_and_note E ''merge'' data at picked target S w = Some (Inr (count, leaf), S', w')" ..
  with copy_and_note_context [OF env S custom [rule_format] target ids] show ?thesis by blast
qed

text \<open>The ids of copies are four random bytes, and nothing compares a new one with those in use. When
  the id drawn for a picked message is already that of a stored message, the cherry-pick succeeds and
  reports one copied message, but stores none: the messages are what they were, and the active leaf is
  now the message that has the id, wherever in the tree it is.\<close>

lemma colliding_copy_is_lost:
  assumes env: "env_ok E V synced M N" and S: "manager_holds E V S D"
    and custom: "\<forall>i data. AnnCustom \<lparr>cu_id = i, cu_kind = ''cherry-pick'', cu_data = data, cu_timestamp = at\<rparr> \<in> N"
    and drawn: "fst (env_generate_id E w) \<in> sm_persisted_ids S" and k: "grounded (tree_of D) k (Some (fst (env_generate_id E w)))"
    and run: "cherry_pick_at E i target False at S w = Some (Inr (count, leaf), S', w')"
  shows "count = 1 \<and> sm_active_leaf_id S' = Some (fst (env_generate_id E w)) \<and> sm_persisted_ids S' = sm_persisted_ids S \<and>
    build_context E S' = Inr (map message (walk_branch (tree_of D) (fst (env_generate_id E w))))"
proof -
  obtain j w1 where gen: "env_generate_id E w = (j, w1)" by fastforce
  obtain m data where run': "copy_and_note E ''cherry-pick'' data at [m] target S w = Some (Inr (count, leaf), S', w')"
    using run load_tree_holds [OF env S]
    by (auto simp: cherry_pick_at_def refuse_def split: if_splits option.splits)
  have "append_message_at E (set_message_id j (message m)) (Some target) at S w1 = Some (Inr (), S, w1)"
    using drawn gen by (simp add: append_message_at_def Let_def)
  then have "note_and_move E ''cherry-pick'' data at 1 j S w1 = Some (Inr (count, leaf), S', w')"
    using run' gen by (simp add: copy_and_note_def)
  from note_and_move_holds [OF env S custom [rule_format] this] obtain a where
    a: "manager_holds E V S' (D\<lparr>sd_annotations := sd_annotations D @ [a]\<rparr>)" "sm_active_leaf_id S' = Some j" "count = 1"
      "sm_persisted_ids S' = sm_persisted_ids S" by metis
  note same = walk_up_same [of "tree_of (D\<lparr>sd_annotations := sd_annotations D @ [a]\<rparr>)" "tree_of D", OF annotated_find [OF a(1) S]]
  with context_of_leaf [OF env a(1,2), of k] k gen a show ?thesis by (simp add: walk_branch_def)
qed

section \<open>The messages below a message\<close>

inductive below :: "('m, 'j, 't) session_tree \<Rightarrow> message_id \<Rightarrow> ('m, 't) message_entry \<Rightarrow> bool" for tree i where
  self: "find_message tree i = Some m \<Longrightarrow> below tree i m"
| child: "below tree i p \<Longrightarrow> m \<in> set (get_children tree (Some (me_id p))) \<Longrightarrow> below tree i m"

text \<open>\<open>at_depth t k i\<close>: the walk from \<open>i\<close> reaches a root after exactly \<open>k\<close> messages.\<close>

definition at_depth :: "('m, 'j, 't) session_tree \<Rightarrow> nat \<Rightarrow> message_id \<Rightarrow> bool" where
  "at_depth t k i \<longleftrightarrow> grounded t k (Some i) \<and> length (walk_up t k (Some i)) = k"

lemma grounded_at_depth: "grounded t n (Some i) \<Longrightarrow> at_depth t (length (walk_up t n (Some i))) i"
proof -
  have "grounded t n x \<Longrightarrow> grounded t (length (walk_up t n x)) x \<and> length (walk_up t (length (walk_up t n x)) x) = length (walk_up t n x)" for x
    by (induction t n x rule: grounded.induct) (auto split: option.splits)
  then show "grounded t n (Some i) \<Longrightarrow> ?thesis" by (simp add: at_depth_def)
qed

lemma grounded_distinct: "grounded (build es) n x \<Longrightarrow> distinct (map me_id (walk_up (build es) n x))"
proof (induction n arbitrary: x)
  case (Suc n)
  show ?case
  proof (cases x)
    case (Some i)
    then obtain e where e: "find_message (build es) i = Some e" "grounded (build es) n (parent_id e)"
      using Suc.prems by (auto split: option.splits)
    have id: "me_id e = i" using find_message_id [OF e(1)] by simp
    have "i \<notin> set (map me_id (walk_up (build es) n (parent_id e)))"
    proof
      assume "i \<in> set (map me_id (walk_up (build es) n (parent_id e)))"
      then obtain xs e' ys where s: "walk_up (build es) n (parent_id e) = xs @ e' # ys" "me_id e' = i"
        by (auto dest: split_list)
      from grounded_suffix [OF e(2) s(1)] obtain k where
        k: "k \<le> n" "grounded (build es) k (Some i)" "walk_up (build es) k (Some i) = e' # ys" using s(2) by auto
      have "walk_up (build es) (Suc n) (Some i) = e' # ys" using grounded_more [OF k(2), of "Suc n"] k(1,3) by simp
      then show False using e(1) s(1) by simp
    qed
    with Suc.IH [OF e(2)] e(1) Some id show ?thesis by simp
  qed simp
next
  case 0
  then show ?case by (cases x) simp_all
qed

lemma at_depth_bound: "at_depth (build es) k i \<Longrightarrow> k \<le> length (messages_of es)"
proof -
  assume a: "at_depth (build es) k i"
  let ?w = "walk_up (build es) k (Some i)"
  have "distinct ?w" using a grounded_distinct [of es k "Some i"] by (auto simp: at_depth_def distinct_map)
  then have "k = card (set ?w)" using a distinct_card [of ?w] by (simp add: at_depth_def)
  also have "\<dots> \<le> card (set (messages_of es))" using walk_up_members [of es k "Some i"] by (simp add: card_mono)
  finally show ?thesis using card_length [of "messages_of es"] by simp
qed

lemma unique_find:
  assumes "distinct (map me_id (messages_of es))" "m \<in> set (messages_of es)"
  shows "find_message (build es) (me_id m) = Some m"
proof -
  have m: "m \<in> set (rev (messages_of es))" "inj_on me_id (set (rev (messages_of es)))"
    using assms by (auto simp: distinct_map)
  then obtain m' where f: "find (\<lambda>x. me_id x = me_id m) (rev (messages_of es)) = Some m'"
    by (cases "find (\<lambda>x. me_id x = me_id m) (rev (messages_of es))") (auto simp: find_None_iff)
  with find_SomeD [OF f] m have "m' = m" by (metis inj_onD)
  with f show ?thesis by (simp add: find_message_build)
qed

lemma child_depth:
  assumes "distinct (map me_id (messages_of es))" "at_depth (build es) k i" "c \<in> set (get_children (build es) (Some i))"
  shows "at_depth (build es) (Suc k) (me_id c)" "walk_up (build es) (Suc k) (Some (me_id c)) = c # walk_up (build es) k (Some i)"
proof -
  have "find_message (build es) (me_id c) = Some c" "parent_id c = Some i"
    using assms(3) unique_find [OF assms(1)] by (auto simp: get_children_build)
  then show "at_depth (build es) (Suc k) (me_id c)" "walk_up (build es) (Suc k) (Some (me_id c)) = c # walk_up (build es) k (Some i)"
    using assms(2) by (simp_all add: at_depth_def)
qed

lemma below_walk:
  assumes "distinct (map me_id (messages_of es))" "at_depth (build es) k i"
  shows "below (build es) i m \<Longrightarrow> \<exists>xs k'. at_depth (build es) k' (me_id m) \<and>
    walk_up (build es) k' (Some (me_id m)) = xs @ walk_up (build es) k (Some i)"
proof (induction rule: below.induct)
  case (self m)
  then have "me_id m = i" using find_message_id by blast
  with assms(2) show ?case by (intro exI [of _ "[]"] exI [of _ k]) simp
next
  case (child p m)
  then obtain xs k' where p: "at_depth (build es) k' (me_id p)"
      "walk_up (build es) k' (Some (me_id p)) = xs @ walk_up (build es) k (Some i)" by blast
  from child_depth [OF assms(1) p(1) child(2)] p(2) show ?case
    by (intro exI [of _ "m # xs"] exI [of _ "Suc k'"]) simp
qed

lemma below_split:
  assumes m0: "find_message (build es) i = Some m0" and d: "distinct (map me_id (messages_of es))"
  shows "below (build es) i m \<longleftrightarrow> m = m0 \<or> (\<exists>c \<in> set (get_children (build es) (Some i)). below (build es) (me_id c) m)"
proof
  have id: "me_id m0 = i" using find_message_id [OF m0] by simp
  assume "below (build es) i m"
  then show "m = m0 \<or> (\<exists>c \<in> set (get_children (build es) (Some i)). below (build es) (me_id c) m)"
  proof (induction rule: below.induct)
    case (self m)
    with m0 show ?case by simp
  next
    case (child p m)
    from child(3) show ?case
    proof
      assume "p = m0"
      with child(2) id have m: "m \<in> set (get_children (build es) (Some i))" by simp
      then have "m \<in> set (messages_of es)" by (auto simp: get_children_build)
      then have "below (build es) (me_id m) m" by (intro below.self unique_find [OF d])
      with m show ?thesis by blast
    next
      assume "\<exists>c \<in> set (get_children (build es) (Some i)). below (build es) (me_id c) p"
      with child(2) show ?thesis using below.child by metis
    qed
  qed
next
  assume "m = m0 \<or> (\<exists>c \<in> set (get_children (build es) (Some i)). below (build es) (me_id c) m)"
  then show "below (build es) i m"
  proof
    assume "m = m0"
    with m0 show ?thesis by (auto intro: below.self)
  next
    assume "\<exists>c \<in> set (get_children (build es) (Some i)). below (build es) (me_id c) m"
    then obtain c where c: "c \<in> set (get_children (build es) (Some i))" "below (build es) (me_id c) m" by blast
    have i: "below (build es) i m0" using m0 by (rule below.self)
    have "below (build es) i c" using below.child [OF i] c(1) find_message_id [OF m0] by simp
    have "c \<in> set (messages_of es)" using c(1) by (auto simp: get_children_build)
    note fc = unique_find [OF d this]
    from c(2) show ?thesis
    proof (induction rule: below.induct)
      case (self m)
      with fc \<open>below (build es) i c\<close> show ?case by simp
    next
      case (child p m)
      from below.child [OF child(3,2)] show ?case .
    qed
  qed
qed

lemma at_depth_unique:
  assumes "at_depth t k i" "at_depth t k' i"
  shows "k = k'"
  using assms grounded_more [of t k "Some i" "max k k'"] grounded_more [of t k' "Some i" "max k k'"]
  unfolding at_depth_def by (metis max.cobounded1 max.cobounded2)

lemma distinct_concat_map:
  "distinct cs \<Longrightarrow> (\<And>c. c \<in> set cs \<Longrightarrow> distinct (f c)) \<Longrightarrow>
   (\<And>c c'. c \<in> set cs \<Longrightarrow> c' \<in> set cs \<Longrightarrow> c \<noteq> c' \<Longrightarrow> set (f c) \<inter> set (f c') = {}) \<Longrightarrow> distinct (concat (map f cs))"
proof (induction cs)
  case (Cons a cs)
  have "distinct (concat (map f cs))" using Cons by simp
  moreover have "set (f a) \<inter> set (f c) = {}" if "c \<in> set cs" for c
    using Cons.prems(1) Cons.prems(3) [of a c] that by auto
  ultimately show ?case using Cons.prems(2) [of a] by auto
qed simp

lemma below_disjoint:
  assumes d: "distinct (map me_id (messages_of es))" and k: "at_depth (build es) k i"
    and c: "c \<in> set (get_children (build es) (Some i))" "below (build es) (me_id c) m"
  shows "me_id m \<noteq> i" "c' \<in> set (get_children (build es) (Some i)) \<Longrightarrow> below (build es) (me_id c') m \<Longrightarrow> c = c'"
proof -
  note dc = child_depth [OF d k c(1)]
  obtain xs n where n: "at_depth (build es) n (me_id m)"
      "walk_up (build es) n (Some (me_id m)) = xs @ c # walk_up (build es) k (Some i)"
    using below_walk [OF d dc(1) c(2)] dc(2) by auto
  then have len: "n = length xs + Suc k" using k by (simp add: at_depth_def)
  show "me_id m \<noteq> i"
  proof
    assume "me_id m = i"
    with n(1) have "at_depth (build es) n i" by simp
    from at_depth_unique [OF k this] len show False by simp
  qed
  assume c': "c' \<in> set (get_children (build es) (Some i))" "below (build es) (me_id c') m"
  note dc' = child_depth [OF d k c'(1)]
  obtain xs' n' where n': "at_depth (build es) n' (me_id m)"
      "walk_up (build es) n' (Some (me_id m)) = xs' @ c' # walk_up (build es) k (Some i)"
    using below_walk [OF d dc'(1) c'(2)] dc'(2) by auto
  with at_depth_unique [OF n(1) n'(1)] n(2) show "c = c'" by simp
qed

lemma collect_simps:
  "collect t [] acc = Some acc"
  "find_message t i = Some m \<Longrightarrow> collect t (i # rest) acc = collect t (map me_id (get_children t (Some i)) @ rest) (acc @ [m])"
  by (subst collect.simps, simp)+

lemma collect_below:
  assumes d: "distinct (map me_id (messages_of es))"
  shows "at_depth (build es) k i \<Longrightarrow>
    \<exists>ms. (\<forall>stack acc. collect (build es) (i # stack) acc = collect (build es) stack (acc @ ms)) \<and>
      distinct ms \<and> set ms = {m. below (build es) i m} \<and> ms \<noteq> [] \<and> find_message (build es) i = Some (hd ms)"
proof (induction "length (messages_of es) - k" arbitrary: k i rule: less_induct)
  case less
  let ?t = "build es" and ?cs = "get_children (build es) (Some i)"
  obtain m0 where m0: "find_message ?t i = Some m0" using less.prems by (cases k) (auto simp: at_depth_def split: option.splits)
  have "\<forall>c \<in> set ?cs. \<exists>ms. (\<forall>stack acc. collect ?t (me_id c # stack) acc = collect ?t stack (acc @ ms)) \<and>
      distinct ms \<and> set ms = {m. below ?t (me_id c) m} \<and> ms \<noteq> [] \<and> find_message ?t (me_id c) = Some (hd ms)"
  proof
    fix c assume "c \<in> set ?cs"
    note c = child_depth(1) [OF d less.prems this]
    have "length (messages_of es) - Suc k < length (messages_of es) - k" using at_depth_bound [OF c] by simp
    from less.hyps [OF this c] show "\<exists>ms. (\<forall>stack acc. collect ?t (me_id c # stack) acc = collect ?t stack (acc @ ms)) \<and>
      distinct ms \<and> set ms = {m. below ?t (me_id c) m} \<and> ms \<noteq> [] \<and> find_message ?t (me_id c) = Some (hd ms)" .
  qed
  then obtain f where f: "\<And>c stack acc. c \<in> set ?cs \<Longrightarrow> collect ?t (me_id c # stack) acc = collect ?t stack (acc @ f c)"
      "\<And>c. c \<in> set ?cs \<Longrightarrow> distinct (f c)" "\<And>c. c \<in> set ?cs \<Longrightarrow> set (f c) = {m. below ?t (me_id c) m}"
    by metis
  have run: "set cs \<subseteq> set ?cs \<Longrightarrow> collect ?t (map me_id cs @ stack) acc = collect ?t stack (acc @ concat (map f cs))" for cs stack acc
    by (induction cs arbitrary: acc) (simp_all add: f(1))
  let ?ms = "m0 # concat (map f ?cs)"
  have "collect ?t (i # stack) acc = collect ?t stack (acc @ ?ms)" for stack acc
    using collect_simps(2) [OF m0] run [of ?cs stack "acc @ [m0]"] by simp
  moreover have "distinct ?ms"
  proof -
    have "distinct ?cs" using d by (auto simp: get_children_build distinct_map)
    then have "distinct (concat (map f ?cs))"
      using f(2,3) below_disjoint(2) [OF d less.prems] by (intro distinct_concat_map) auto
    moreover have "m0 \<notin> set (concat (map f ?cs))"
      using f(3) below_disjoint(1) [OF d less.prems] find_message_id [OF m0] by auto
    ultimately show ?thesis by simp
  qed
  moreover have "set ?ms = {m. below ?t i m}"
    using f(3) below_split [OF m0 d] by auto
  ultimately show ?case using m0 by (intro exI [of _ ?ms]) simp
qed

text \<open>C26 (termination). The walk that a cherry-pick with children makes over the messages below the picked one, a
  loop without a bound in the code, returns whenever the ids of the messages are distinct and the picked
  message is connected to a root; it collects the picked message and each message below it exactly once,
  the picked message first.\<close>

theorem cherry_pick_collects_below:
  assumes "distinct (map me_id (messages_of es))" "grounded (build es) n (Some i)"
  shows "\<exists>m ms. find_message (build es) i = Some m \<and> collect (build es) [i] [] = Some (m # ms) \<and>
    distinct (m # ms) \<and> set (m # ms) = {x. below (build es) i x}"
proof -
  note k = grounded_at_depth [OF assms(2)]
  from collect_below [OF assms(1) k] obtain ms where
    ms: "\<forall>stack acc. collect (build es) (i # stack) acc = collect (build es) stack (acc @ ms)" "distinct ms"
      "set ms = {m. below (build es) i m}" "ms \<noteq> []" "find_message (build es) i = Some (hd ms)" by blast
  have "collect (build es) [i] [] = Some ms" using ms(1) collect_simps(1) by simp
  with ms(2-5) show ?thesis by (intro exI [of _ "hd ms"] exI [of _ "tl ms"]) simp
qed

section \<open>A small session with two branches\<close>

text \<open>A root \<open>1\<close> with the children \<open>2\<close> and \<open>3\<close>, in a world whose ids are numbers. The annotations have one kind, and
  their encoding keeps their id.\<close>

definition small_note :: "string \<Rightarrow> string \<Rightarrow> (unit, string) annotation_entry" where
  "small_note kind i = AnnCustom \<lparr>cu_id = i, cu_kind = kind, cu_data = (), cu_timestamp = ''1''\<rparr>"

definition small_messages :: "(string \<times> (unit, string) agent_message) list" where
  "small_messages = [(''a'', small_user ''1''), (''b'', small_user ''2''), (''c'', small_user ''3''),
     (''d'', set_message_id ''7'' (small_user ''3''))]"

definition small_note_codec :: "string \<Rightarrow> ((unit, string) agent_message, unit, string) file_codec" where
  "small_note_codec kind = (small_codec small_messages [] [])\<lparr>
     annotation_to_json := (\<lambda>a. case a of AnnCustom c \<Rightarrow> Inr (cu_id c) | _ \<Rightarrow> Inl ''other''),
     annotation_from_json := (\<lambda>s. Inr (small_note kind s))\<rparr>"

abbreviation small_merge_env where "small_merge_env kind \<equiv> small_env (small_note_codec kind)"

definition small_message :: "string \<Rightarrow> string option \<Rightarrow> ((unit, string) agent_message, string) message_entry" where
  "small_message i p = \<lparr>me_id = i, parent_id = p, message = small_user i, timestamp = ''1''\<rparr>"

definition small_branches :: "((unit, string) agent_message, unit, string) session_entry list" where
  "small_branches = [Header small_header, Message (small_message ''1'' None), Message (small_message ''2'' (Some ''1'')),
     Message (small_message ''3'' (Some ''1''))]"

definition small_manager :: "small_doc \<Rightarrow> small_doc session_manager" where
  "small_manager d = \<lparr>sm_session_id = ''a'', sm_file_path = ''f'', sm_cwd = ''/p'', sm_model = ''m'', sm_doc = d,
     sm_persisted_ids = {''1'', ''2'', ''3''}, sm_active_leaf_id = Some ''3'', sm_latest_compaction_summary = None,
     sm_worktree_path = None, sm_worktree_branch = None\<rparr>"

definition small_start_world :: "small_doc \<Rightarrow> nat \<Rightarrow> small_doc small_world" where
  "small_start_world d n = ([''f'' \<mapsto> [d]], \<lambda>_. None, n)"

lemma small_note_codec_ok:
  "codec_ok (session_codec.truncate (small_note_codec kind)) (snd ` set small_messages) (range (small_note kind))"
proof -
  have "distinct (map fst small_messages)" by (simp add: small_messages_def)
  from small_codec_ok [OF this, of "[]" "[]"] show ?thesis
    by (auto simp: codec_ok_def small_note_codec_def session_codec.truncate_def small_note_def)
qed

lemmas small_merge_ok = small_env_ok [OF small_note_codec_ok]

lemma small_custom: "AnnCustom \<lparr>cu_id = i, cu_kind = kind, cu_data = data, cu_timestamp = ''1''\<rparr> \<in> range (small_note kind)"
  by (auto simp: small_note_def)

lemma small_ids: "show_nat 7 = ''7''" "show_nat (Suc 0) = ''1''" "show_nat 1 = ''1''"
  by code_simp+

lemma small_find:
  "find_message (build small_branches) i = (if i = ''1'' then Some (small_message ''1'' None)
     else if i = ''2'' then Some (small_message ''2'' (Some ''1'')) else if i = ''3'' then Some (small_message ''3'' (Some ''1'')) else None)"
  by (auto simp: find_message_build small_branches_def small_message_def List.map_filter_simps)

lemma small_merge_start:
  "\<exists>d D. manager_holds (small_merge_env kind) small_view (small_manager d) D \<and>
     (\<forall>i. find_message (tree_of D) i = find_message (build small_branches) i) \<and>
     (\<forall>n. manager_saved (small_merge_env kind) small_view (\<lambda>_ _. True) (small_manager d) (small_start_world d n))"
proof -
  let ?D = "doc_of_entries small_header small_branches"
  have es: "List.map_filter header_entry small_branches = small_header # []" "he_session_id small_header \<noteq> []" "he_version small_header \<noteq> []"
      "list_all (entry_ok (snd ` set small_messages) (range (small_note kind))) small_branches"
    by (simp_all add: small_branches_def small_header_def small_message_def small_messages_def entry_ok_def List.map_filter_simps)
  obtain d where d: "holds small_automerge (session_codec.truncate (small_note_codec kind)) small_view d ?D"
    using build_automerge_doc_ok [OF small_automerge_ok small_note_codec_ok es] by blast
  have find: "bt_get (sd_messages ?D) i = find_message (build small_branches) i" for i
    by (simp add: find_message_build doc_of_entries_def record_entries_messages split: option.splits)
  have "set (bt_keys (sd_messages ?D)) = {''1'', ''2'', ''3''}"
  proof (rule set_eqI)
    fix i
    have "i \<in> set (bt_keys (sd_messages ?D)) \<longleftrightarrow> bt_get (sd_messages ?D) i \<noteq> None"
      using holds_inv [OF d] btree.keys_get [of "sd_messages ?D" i] by blast
    then show "i \<in> set (bt_keys (sd_messages ?D)) \<longleftrightarrow> i \<in> {''1'', ''2'', ''3''}"
      unfolding find small_find by simp
  qed
  note keys = this
  have "manager_holds (small_merge_env kind) small_view (small_manager d) ?D"
    unfolding manager_holds_def
  proof (intro conjI)
    show "holds (env_automerge (small_merge_env kind)) (env_session_codec (small_merge_env kind)) small_view (sm_doc (small_manager d)) ?D"
      using d by (simp only: small_env_def small_manager_def session_env.simps session_manager.simps)
    show "sm_persisted_ids (small_manager d) = set (bt_keys (sd_messages ?D))"
      unfolding keys by (simp only: small_manager_def session_manager.simps)
  qed
  moreover have "manager_saved (small_merge_env kind) small_view (\<lambda>_ _. True) (small_manager d) (small_start_world d n)" for n
    by (auto simp: manager_saved_def small_manager_def small_start_world_def small_env_def small_fs_def load_document_def small_automerge_def)
  ultimately show ?thesis using find_in_doc [OF d] find by metis
qed

lemma small_note_runs:
  assumes E: "E = small_env C" and env: "env_ok E small_view (\<lambda>_ _. True) M N" and S: "manager_holds E small_view S D"
    and saved: "manager_saved E small_view (\<lambda>_ _. True) S w"
    and custom: "\<And>i data. AnnCustom \<lparr>cu_id = i, cu_kind = kind, cu_data = data, cu_timestamp = at\<rparr> \<in> N"
  shows "\<exists>S' w'. note_and_move E kind data at count leaf S w = Some (Inr (count, leaf), S', w')"
proof -
  have libs: "automerge_ok (env_automerge E) small_view (\<lambda>_ _. True)" "codec_ok (env_session_codec E) M N"
    using env by (simp_all add: env_ok_def)
  obtain fs ts n where w: "w = (fs, ts, n)" by (metis prod_cases3)
  obtain bs where bs: "fs (sm_file_path S) = Some bs" using small_saved saved unfolding E w by metis
  have D: "holds (env_automerge E) (env_session_codec E) small_view (sm_doc S) D" using S by (simp add: manager_holds_def)
  obtain d where "put_annotation (env_automerge E) (env_session_codec E)
      (AnnCustom \<lparr>cu_id = show_nat n, cu_kind = kind, cu_data = env_json_object E data, cu_timestamp = at\<rparr>) (sm_doc S) = (Inr (), d)"
    using put_annotation_ok [OF libs D custom] by metis
  then show ?thesis
    using small_env_simps(3) [where fs = fs and p = "sm_file_path S", OF bs]
    by (simp add: note_and_move_def store_annotation_def then_update_def w E small_env_simps(1))
qed

lemma small_walks:
  assumes "\<forall>i. find_message (tree_of D) i = find_message (build small_branches) i"
  shows "grounded (tree_of D) 2 (Some ''2'')" "grounded (tree_of D) 2 (Some ''3'')" "grounded (tree_of D) 1 (Some ''1'')"
    "walk_branch (tree_of D) ''1'' = [small_message ''1'' None]"
    "walk_branch (tree_of D) ''2'' = [small_message ''1'' None, small_message ''2'' (Some ''1'')]"
    "walk_branch (tree_of D) ''3'' = [small_message ''1'' None, small_message ''3'' (Some ''1'')]"
    "find_unique_messages (tree_of D) ''3'' ''2'' = [small_message ''3'' (Some ''1'')]"
proof -
  have f: "find_message (tree_of D) i = find_message (build small_branches) i" for i using assms by blast
  show g: "grounded (tree_of D) 2 (Some ''2'')" "grounded (tree_of D) 2 (Some ''3'')" "grounded (tree_of D) 1 (Some ''1'')"
    by (simp_all add: numeral_2_eq_2 f small_find small_message_def)
  have le: "2 \<le> MAX_TRAVERSAL_DEPTH" "1 \<le> MAX_TRAVERSAL_DEPTH" by (simp_all add: MAX_TRAVERSAL_DEPTH_def)
  show walks: "walk_branch (tree_of D) ''1'' = [small_message ''1'' None]"
    "walk_branch (tree_of D) ''2'' = [small_message ''1'' None, small_message ''2'' (Some ''1'')]"
    "walk_branch (tree_of D) ''3'' = [small_message ''1'' None, small_message ''3'' (Some ''1'')]"
    using grounded_walk [OF g(1) le(1)] grounded_walk [OF g(2) le(1)] grounded_walk [OF g(3) le(2)]
    by (simp_all add: numeral_2_eq_2 f small_find small_message_def)
  show "find_unique_messages (tree_of D) ''3'' ''2'' = [small_message ''3'' (Some ''1'')]"
    by (simp add: find_unique_messages_def walks small_message_def)
qed

theorem selective_merge_copies_witness:
  "\<exists>d S' w'. merge_selective_at (small_merge_env ''merge'') ''3'' ''2'' [''3''] ''1'' (small_manager d) (small_start_world d 7) =
      Some (Inr (1, ''7''), S', w') \<and>
    build_context (small_merge_env ''merge'') S' = Inr [small_user ''1'', small_user ''2'', set_message_id ''7'' (small_user ''3'')]"
proof -
  let ?E = "small_merge_env ''merge''"
  obtain d D where S: "manager_holds ?E small_view (small_manager d) D"
      and f: "\<forall>i. find_message (tree_of D) i = find_message (build small_branches) i"
      and saved: "manager_saved ?E small_view (\<lambda>_ _. True) (small_manager d) (small_start_world d 7)"
    using small_merge_start by blast
  note walks = small_walks [OF f]
  let ?m = "small_message ''3'' (Some ''1'')" and ?w1 = "([''f'' \<mapsto> [d]], \<lambda>_. None, Suc 7) :: small_doc small_world"
  have gen: "env_generate_id ?E (small_start_world d 7) = (''7'', ?w1)"
    by (simp add: small_env_simps(1) small_start_world_def small_ids)
  have msg: "agent_message_id (set_message_id ''7'' (small_user ''3'')) \<notin> sm_persisted_ids (small_manager d)"
      "agent_message_id (set_message_id ''7'' (small_user ''3'')) \<noteq> []" "set_message_id ''7'' (small_user ''3'') \<in> snd ` set small_messages"
    by (simp_all add: small_manager_def small_messages_def)
  have saved1: "manager_saved ?E small_view (\<lambda>_ _. True) (small_manager d) ?w1"
    using saved by (simp add: manager_saved_def small_start_world_def small_env_def small_fs_def load_document_def)
  from small_append [OF refl small_merge_ok S saved1 msg] obtain S1 w2 where
    app: "append_message_at ?E (set_message_id ''7'' (message ?m)) (Some ''2'') ''1'' (small_manager d) ?w1 = Some (Inr (), S1, w2)"
    unfolding small_message_def by (simp only: message_entry.simps) blast
  have msg3: "message ?m = small_user ''3''" by (simp add: small_message_def)
  note app1 = append_message_holds [OF small_merge_ok S msg app [unfolded msg3]]
  from small_note_runs [OF refl small_merge_ok app1(1) app1(5) [OF saved1] small_custom] obtain S' w' where
    note': "note_and_move ?E ''merge'' [(''source_leaf'', FieldStr ''3''), (''target_leaf'', FieldStr ''2''),
      (''merged_count'', FieldNum 1), (''strategy'', FieldStr ''selective'')] ''1'' 1 ''7'' S1 w2 = Some (Inr (1, ''7''), S', w')" by blast
  have run: "merge_selective_at ?E ''3'' ''2'' [''3''] ''1'' (small_manager d) (small_start_world d 7) = Some (Inr (1, ''7''), S', w')"
    using note' gen app f
    by (simp add: merge_selective_at_def load_tree_holds [OF small_merge_ok S] walks small_find small_message_def copy_and_note_def)
  have ids: "drawn_ids ?E [?m] ''2'' ''1'' (small_manager d) (small_start_world d 7) = [''7'']" using gen app by simp
  have picked: "[?m] = filter (\<lambda>m. me_id m \<in> set [''3'']) (find_unique_messages (tree_of D) ''3'' ''2'')"
    by (simp add: walks small_message_def)
  have "build_context ?E S' = Inr (map message (walk_branch (tree_of D) ''2'') @ map2 (\<lambda>i m. set_message_id i (message m)) [''7''] [?m])"
    by (rule selective_merge_copies [OF small_merge_ok S _ picked walks(1) _ ids [symmetric] _ _ _ _ run, THEN conjunct2, THEN conjunct2, THEN conjunct1])
      (use msg in \<open>simp_all add: small_custom MAX_TRAVERSAL_DEPTH_def small_manager_def small_message_def\<close>)
  with run show ?thesis by (intro exI conjI) (assumption, simp add: walks small_message_def)
qed

theorem cherry_pick_collects_below_witness:
  "\<exists>m ms. collect (build small_branches) [''1''] [] = Some (m # ms) \<and> set (m # ms) = {x. below (build small_branches) ''1'' x} \<and> me_id m = ''1''"
proof -
  have "distinct (map me_id (messages_of small_branches))"
    by (simp add: small_branches_def small_message_def List.map_filter_simps)
  moreover have "grounded (build small_branches) 1 (Some ''1'')" by (simp add: small_find small_message_def)
  ultimately show ?thesis using cherry_pick_collects_below [of small_branches 1 "''1''"] by (auto dest: find_message_id)
qed

end
