(* ===== verification/Tool_Host.thy ===== *)
theory Tool_Host
  imports Engine_Host Text Ordered_Map "HOL-Library.Char_ord" "HOL-Library.List_Lexorder"
begin

text \<open>
  The tool host, \<^verbatim>\<open>crates/clankers-tool-host/src/lib.rs\<close>: the services a host offers to a tool, the
  context of one invocation with its guards, and the accumulation and truncation of tool output.
  JSON values are built through an argument, the constructors of the JSON library. Trait objects
  that a context only carries are of the opaque type \<open>'o\<close>; the progress sink, which a context calls,
  is a function over a world.
\<close>

section \<open>Metadata\<close>

type_synonym metadata = "(string, string) btree"

definition REDACTED :: string where "REDACTED = ''[REDACTED]''"

definition secret_markers :: "string list" where
  "secret_markers = [''token'', ''secret'', ''password'', ''api_key'', ''authorization'', ''bearer'', ''cookie'']"

definition contains_secret_marker :: "string \<Rightarrow> bool" where
  "contains_secret_marker v \<longleftrightarrow> (let lower = to_ascii_lowercase v in list_ex (\<lambda>marker. contains_str lower marker) secret_markers)"

definition safe_metadata_key :: "string \<Rightarrow> string" where
  "safe_metadata_key v = take_chars 160 v"

definition safe_metadata :: "string \<Rightarrow> string" where
  "safe_metadata v = (if contains_secret_marker v then REDACTED else take_chars 160 v)"

definition insert_metadata :: "string \<Rightarrow> string \<Rightarrow> metadata \<Rightarrow> metadata" where
  "insert_metadata k v m = bt_insert (safe_metadata_key k) (safe_metadata v) m"

section \<open>Services\<close>

datatype tool_host_service_kind =
  StorageService | SearchService | HooksService | ProcessService | ProgressService | CapabilityService
  | CancellationService | RuntimePolicyService

fun service_rank :: "tool_host_service_kind \<Rightarrow> nat" where
  "service_rank StorageService = 0"
| "service_rank SearchService = 1"
| "service_rank HooksService = 2"
| "service_rank ProcessService = 3"
| "service_rank ProgressService = 4"
| "service_rank CapabilityService = 5"
| "service_rank CancellationService = 6"
| "service_rank RuntimePolicyService = 7"

lemma service_rank_inj: "service_rank a = service_rank b \<Longrightarrow> a = b"
  by (cases a; cases b) simp_all

text \<open>The derived order of the enumeration, which orders the service map.\<close>

instantiation tool_host_service_kind :: linorder
begin

definition less_eq_tool_host_service_kind :: "tool_host_service_kind \<Rightarrow> tool_host_service_kind \<Rightarrow> bool" where
  "a \<le> b \<longleftrightarrow> service_rank a \<le> service_rank b"

definition less_tool_host_service_kind :: "tool_host_service_kind \<Rightarrow> tool_host_service_kind \<Rightarrow> bool" where
  "a < b \<longleftrightarrow> service_rank a < service_rank b"

instance
  by intro_classes
    (auto simp: less_eq_tool_host_service_kind_def less_tool_host_service_kind_def intro: service_rank_inj)

end

datatype tool_host_service_status = Available | Unavailable string

record tool_host_service_handle =
  sh_kind :: tool_host_service_kind
  sh_status :: tool_host_service_status
  sh_metadata :: metadata

definition available :: "tool_host_service_kind \<Rightarrow> tool_host_service_handle" where
  "available kind = \<lparr>sh_kind = kind, sh_status = Available, sh_metadata = []\<rparr>"

definition unavailable :: "tool_host_service_kind \<Rightarrow> string \<Rightarrow> tool_host_service_handle" where
  "unavailable kind reason = \<lparr>sh_kind = kind, sh_status = Unavailable reason, sh_metadata = []\<rparr>"

definition handle_with_metadata :: "string \<Rightarrow> string \<Rightarrow> tool_host_service_handle \<Rightarrow> tool_host_service_handle" where
  "handle_with_metadata k v h = h\<lparr>sh_metadata := insert_metadata k v (sh_metadata h)\<rparr>"

type_synonym tool_host_services = "(tool_host_service_kind, tool_host_service_handle) btree"

definition services_empty :: tool_host_services where "services_empty = []"

definition with_service :: "tool_host_service_handle \<Rightarrow> tool_host_services \<Rightarrow> tool_host_services" where
  "with_service h services = bt_insert (sh_kind h) h services"

definition service_get :: "tool_host_services \<Rightarrow> tool_host_service_kind \<Rightarrow> tool_host_service_handle option" where
  "service_get services kind = bt_get services kind"

definition service_is_available :: "tool_host_services \<Rightarrow> tool_host_service_kind \<Rightarrow> bool" where
  "service_is_available services kind \<longleftrightarrow> map_option sh_status (service_get services kind) = Some Available"

section \<open>Requests to the services\<close>

datatype capability_decision = Allowed | Denied string

record tool_storage_key =
  sk_namespace :: string
  sk_key :: string

definition storage_key_new :: "string \<Rightarrow> string \<Rightarrow> tool_storage_key" where
  "storage_key_new ns k = \<lparr>sk_namespace = safe_metadata_key ns, sk_key = safe_metadata_key k\<rparr>"

record tool_storage_value =
  sv_bytes :: "u8 list"
  sv_content_type :: "string option"
  sv_metadata :: metadata

definition storage_value_new :: "u8 list \<Rightarrow> tool_storage_value" where
  "storage_value_new b = \<lparr>sv_bytes = b, sv_content_type = None, sv_metadata = []\<rparr>"

definition with_content_type :: "string \<Rightarrow> tool_storage_value \<Rightarrow> tool_storage_value" where
  "with_content_type t v = v\<lparr>sv_content_type := Some (safe_metadata t)\<rparr>"

definition storage_value_with_metadata :: "string \<Rightarrow> string \<Rightarrow> tool_storage_value \<Rightarrow> tool_storage_value" where
  "storage_value_with_metadata k x v = v\<lparr>sv_metadata := insert_metadata k x (sv_metadata v)\<rparr>"

record tool_search_request =
  sr_query :: string
  sr_limit :: u32
  sr_metadata :: metadata

definition search_request_new :: "string \<Rightarrow> u32 \<Rightarrow> tool_search_request" where
  "search_request_new q limit = \<lparr>sr_query = safe_metadata q, sr_limit = limit, sr_metadata = []\<rparr>"

definition search_request_with_metadata :: "string \<Rightarrow> string \<Rightarrow> tool_search_request \<Rightarrow> tool_search_request" where
  "search_request_with_metadata k v r = r\<lparr>sr_metadata := insert_metadata k v (sr_metadata r)\<rparr>"

record tool_search_hit =
  hit_title :: string
  hit_snippet :: string
  hit_rank :: u32
  hit_metadata :: metadata

definition search_hit_new :: "string \<Rightarrow> string \<Rightarrow> u32 \<Rightarrow> tool_search_hit" where
  "search_hit_new title snippet rank =
     \<lparr>hit_title = safe_metadata title, hit_snippet = safe_metadata snippet, hit_rank = rank, hit_metadata = []\<rparr>"

definition search_hit_with_metadata :: "string \<Rightarrow> string \<Rightarrow> tool_search_hit \<Rightarrow> tool_search_hit" where
  "search_hit_with_metadata k v h = h\<lparr>hit_metadata := insert_metadata k v (hit_metadata h)\<rparr>"

datatype tool_hook_phase = Before | After

record 'v tool_hook_request =
  hr_phase :: tool_hook_phase
  hr_call_id :: string
  hr_tool_name :: string
  hr_input :: 'v
  hr_metadata :: metadata

definition hook_request_new :: "tool_hook_phase \<Rightarrow> string \<Rightarrow> string \<Rightarrow> 'v \<Rightarrow> 'v tool_hook_request" where
  "hook_request_new ph cid name inp = \<lparr>hr_phase = ph, hr_call_id = safe_metadata_key cid,
     hr_tool_name = safe_metadata_key name, hr_input = inp, hr_metadata = []\<rparr>"

definition hook_before :: "string \<Rightarrow> string \<Rightarrow> 'v \<Rightarrow> 'v tool_hook_request" where
  "hook_before = hook_request_new Before"

definition hook_after :: "string \<Rightarrow> string \<Rightarrow> 'v \<Rightarrow> 'v tool_hook_request" where
  "hook_after = hook_request_new After"

definition hook_request_with_metadata :: "string \<Rightarrow> string \<Rightarrow> 'v tool_hook_request \<Rightarrow> 'v tool_hook_request" where
  "hook_request_with_metadata k v r = r\<lparr>hr_metadata := insert_metadata k v (hr_metadata r)\<rparr>"

datatype 'v tool_hook_decision = HookContinue | HookModify 'v | HookDeny string

record 'v tool_capability_request =
  cr_call_id :: string
  cr_tool_name :: string
  cr_input :: 'v
  cr_metadata :: metadata

definition capability_request_new :: "string \<Rightarrow> string \<Rightarrow> 'v \<Rightarrow> 'v tool_capability_request" where
  "capability_request_new cid name inp = \<lparr>cr_call_id = safe_metadata_key cid,
     cr_tool_name = safe_metadata_key name, cr_input = inp, cr_metadata = []\<rparr>"

definition capability_request_with_metadata ::
  "string \<Rightarrow> string \<Rightarrow> 'v tool_capability_request \<Rightarrow> 'v tool_capability_request" where
  "capability_request_with_metadata k v r = r\<lparr>cr_metadata := insert_metadata k v (cr_metadata r)\<rparr>"

datatype tool_runtime_policy_kind = Steel | PolicyProcess | Network | FileSystem

record tool_runtime_policy_request =
  rp_call_id :: string
  rp_tool_name :: string
  rp_kind :: tool_runtime_policy_kind
  rp_metadata :: metadata

definition runtime_policy_request_new ::
  "string \<Rightarrow> string \<Rightarrow> tool_runtime_policy_kind \<Rightarrow> tool_runtime_policy_request" where
  "runtime_policy_request_new cid name kind = \<lparr>rp_call_id = safe_metadata_key cid,
     rp_tool_name = safe_metadata_key name, rp_kind = kind, rp_metadata = []\<rparr>"

definition runtime_policy_request_with_metadata ::
  "string \<Rightarrow> string \<Rightarrow> tool_runtime_policy_request \<Rightarrow> tool_runtime_policy_request" where
  "runtime_policy_request_with_metadata k v r = r\<lparr>rp_metadata := insert_metadata k v (rp_metadata r)\<rparr>"

datatype tool_runtime_policy_decision = PolicyAllowed | PolicyDenied string

datatype tool_host_error = HostFailed string

section \<open>The invocation context\<close>

datatype tool_progress_kind = Started | ProgressUpdate | Completed

record tool_progress_event =
  pe_call_id :: string
  pe_kind :: tool_progress_kind
  pe_message :: string
  pe_metadata :: metadata

definition progress_event_new :: "string \<Rightarrow> tool_progress_kind \<Rightarrow> string \<Rightarrow> tool_progress_event" where
  "progress_event_new cid kind msg =
     \<lparr>pe_call_id = cid, pe_kind = kind, pe_message = safe_metadata msg, pe_metadata = []\<rparr>"

definition progress_event_with_metadata :: "string \<Rightarrow> string \<Rightarrow> tool_progress_event \<Rightarrow> tool_progress_event" where
  "progress_event_with_metadata k v e = e\<lparr>pe_metadata := insert_metadata k v (pe_metadata e)\<rparr>"

type_synonym 'w progress_sink = "tool_progress_event \<Rightarrow> 'w \<Rightarrow> (tool_host_error + unit) \<times> 'w"

definition null_progress_sink :: "'w progress_sink" where
  "null_progress_sink event w = (Inr (), w)"

record tool_invocation_cancellation =
  cancelled :: bool
  cancel_reason :: "string option"

definition cancellation_active :: tool_invocation_cancellation where
  "cancellation_active = \<lparr>cancelled = False, cancel_reason = None\<rparr>"

definition cancellation_cancelled :: "string \<Rightarrow> tool_invocation_cancellation" where
  "cancellation_cancelled reason = \<lparr>cancelled = True, cancel_reason = Some reason\<rparr>"

record ('o, 'w) tool_invocation_context =
  ctx_call_id :: string
  ctx_capability :: capability_decision
  ctx_services :: tool_host_services
  ctx_cancellation :: tool_invocation_cancellation
  ctx_progress :: "'w progress_sink"
  ctx_storage :: "'o option"
  ctx_search :: "'o option"
  ctx_hooks :: "'o option"
  ctx_capability_service :: "'o option"
  ctx_cancellation_service :: "'o option"
  ctx_runtime_policy :: "'o option"
  ctx_metadata :: metadata

definition context_new :: "string \<Rightarrow> ('o, 'w) tool_invocation_context" where
  "context_new cid = \<lparr>ctx_call_id = cid, ctx_capability = Allowed, ctx_services = services_empty,
     ctx_cancellation = cancellation_active, ctx_progress = null_progress_sink, ctx_storage = None,
     ctx_search = None, ctx_hooks = None, ctx_capability_service = None,
     ctx_cancellation_service = None, ctx_runtime_policy = None, ctx_metadata = []\<rparr>"

definition context_with_capability :: "capability_decision \<Rightarrow> ('o, 'w) tool_invocation_context \<Rightarrow> ('o, 'w) tool_invocation_context" where
  "context_with_capability x c = c\<lparr>ctx_capability := x\<rparr>"

definition context_with_services :: "tool_host_services \<Rightarrow> ('o, 'w) tool_invocation_context \<Rightarrow> ('o, 'w) tool_invocation_context" where
  "context_with_services x c = c\<lparr>ctx_services := x\<rparr>"

definition context_with_cancellation :: "tool_invocation_cancellation \<Rightarrow> ('o, 'w) tool_invocation_context \<Rightarrow> ('o, 'w) tool_invocation_context" where
  "context_with_cancellation x c = c\<lparr>ctx_cancellation := x\<rparr>"

definition context_with_progress_sink :: "'w progress_sink \<Rightarrow> ('o, 'w) tool_invocation_context \<Rightarrow> ('o, 'w) tool_invocation_context" where
  "context_with_progress_sink x c = c\<lparr>ctx_progress := x\<rparr>"

definition context_with_storage_service :: "'o \<Rightarrow> ('o, 'w) tool_invocation_context \<Rightarrow> ('o, 'w) tool_invocation_context" where
  "context_with_storage_service x c = c\<lparr>ctx_storage := Some x\<rparr>"

definition context_with_search_service :: "'o \<Rightarrow> ('o, 'w) tool_invocation_context \<Rightarrow> ('o, 'w) tool_invocation_context" where
  "context_with_search_service x c = c\<lparr>ctx_search := Some x\<rparr>"

definition context_with_hook_service :: "'o \<Rightarrow> ('o, 'w) tool_invocation_context \<Rightarrow> ('o, 'w) tool_invocation_context" where
  "context_with_hook_service x c = c\<lparr>ctx_hooks := Some x\<rparr>"

definition context_with_capability_service :: "'o \<Rightarrow> ('o, 'w) tool_invocation_context \<Rightarrow> ('o, 'w) tool_invocation_context" where
  "context_with_capability_service x c = c\<lparr>ctx_capability_service := Some x\<rparr>"

definition context_with_cancellation_service :: "'o \<Rightarrow> ('o, 'w) tool_invocation_context \<Rightarrow> ('o, 'w) tool_invocation_context" where
  "context_with_cancellation_service x c = c\<lparr>ctx_cancellation_service := Some x\<rparr>"

definition context_with_runtime_policy :: "'o \<Rightarrow> ('o, 'w) tool_invocation_context \<Rightarrow> ('o, 'w) tool_invocation_context" where
  "context_with_runtime_policy x c = c\<lparr>ctx_runtime_policy := Some x\<rparr>"

definition context_with_metadata ::
  "string \<Rightarrow> string \<Rightarrow> ('o, 'w) tool_invocation_context \<Rightarrow> ('o, 'w) tool_invocation_context" where
  "context_with_metadata k v c = c\<lparr>ctx_metadata := insert_metadata k v (ctx_metadata c)\<rparr>"

text \<open>What the code uses of the JSON library here: the constructors of the values it builds.\<close>

record 'v json_builder =
  json_bool :: "bool \<Rightarrow> 'v"
  json_string :: "string \<Rightarrow> 'v"
  json_object :: "(string \<times> 'v) list \<Rightarrow> 'v"

fun debug_service_kind :: "tool_host_service_kind \<Rightarrow> string" where
  "debug_service_kind StorageService = ''Storage''"
| "debug_service_kind SearchService = ''Search''"
| "debug_service_kind HooksService = ''Hooks''"
| "debug_service_kind ProcessService = ''Process''"
| "debug_service_kind ProgressService = ''Progress''"
| "debug_service_kind CapabilityService = ''Capability''"
| "debug_service_kind CancellationService = ''Cancellation''"
| "debug_service_kind RuntimePolicyService = ''RuntimePolicy''"

definition ensure_allowed :: "('o, 'w) tool_invocation_context \<Rightarrow> string \<Rightarrow> 'v tool_host_outcome + unit" where
  "ensure_allowed c name = (case ctx_capability c of
     Allowed \<Rightarrow> Inr ()
   | Denied reason \<Rightarrow> Inl (CapabilityDenied name reason))"

definition ensure_not_cancelled :: "('o, 'w) tool_invocation_context \<Rightarrow> string \<Rightarrow> 'v tool_host_outcome + unit" where
  "ensure_not_cancelled c name =
     (if cancelled (ctx_cancellation c) then Inl (ToolCancelled name) else Inr ())"

definition require_service ::
  "'v json_builder \<Rightarrow> ('o, 'w) tool_invocation_context \<Rightarrow> string \<Rightarrow> tool_host_service_kind \<Rightarrow> 'v tool_host_outcome + unit" where
  "require_service js c name kind =
     (if service_is_available (ctx_services c) kind then Inr ()
      else
        let msg = (case map_option sh_status (service_get (ctx_services c) kind) of
               Some (Unavailable reason) \<Rightarrow> reason
             | Some Available \<Rightarrow> []
             | None \<Rightarrow> ''required service '' @ debug_service_kind kind @ '' unavailable'')
        in Inl (ToolError [ContentText msg]
             (json_object js [(''tool'', json_string js name),
                (''missing_service'', json_string js (to_ascii_lowercase (debug_service_kind kind)))]) msg))"

definition emit_progress ::
  "('o, 'w) tool_invocation_context \<Rightarrow> tool_progress_kind \<Rightarrow> string \<Rightarrow> 'w \<Rightarrow> (tool_host_error + unit) \<times> 'w" where
  "emit_progress c kind msg w = ctx_progress c (progress_event_new (ctx_call_id c) kind msg) w"

section \<open>Tool output\<close>

definition DEFAULT_TOOL_MAX_BYTES :: nat where "DEFAULT_TOOL_MAX_BYTES = 200000"
definition DEFAULT_TOOL_MAX_LINES :: nat where "DEFAULT_TOOL_MAX_LINES = 10000"

record tool_truncation_limits =
  max_bytes :: nat
  max_lines :: nat

definition default_limits :: tool_truncation_limits where
  "default_limits = \<lparr>max_bytes = DEFAULT_TOOL_MAX_BYTES, max_lines = DEFAULT_TOOL_MAX_LINES\<rparr>"

definition count_lines :: "string \<Rightarrow> nat" where
  "count_lines t = (if t = [] then 0 else length (split_inclusive newline t))"

text \<open>The loop that moves the end back to a character boundary.\<close>

fun boundary_before :: "string \<Rightarrow> nat \<Rightarrow> nat" where
  "boundary_before t 0 = 0"
| "boundary_before t (Suc e) = (if is_char_boundary t (Suc e) then Suc e else boundary_before t e)"

definition utf8_prefix :: "string \<Rightarrow> nat \<Rightarrow> string" where
  "utf8_prefix t n = (if length t \<le> n then t else take (boundary_before t n) t)"

fun truncate_loop :: "tool_truncation_limits \<Rightarrow> string list \<Rightarrow> string \<Rightarrow> nat \<Rightarrow> string" where
  "truncate_loop limits [] kept lines = kept"
| "truncate_loop limits (piece # pieces) kept lines =
     (if lines \<ge> max_lines limits then kept
      else
        let remaining = max_bytes limits - length kept
        in if remaining = 0 then kept
           else
             let pre = utf8_prefix piece remaining;
                 kept = kept @ pre;
                 lines = lines + (if suffix [newline] pre then 1 else 0)
             in if length pre < length piece then kept
                else truncate_loop limits pieces kept (lines + (if suffix [newline] piece then 0 else 1)))"

definition truncate_utf8_by_bytes_and_lines :: "string \<Rightarrow> tool_truncation_limits \<Rightarrow> string" where
  "truncate_utf8_by_bytes_and_lines t limits = truncate_loop limits (split_inclusive newline t) [] 0"

record tool_output_accumulator =
  acc_limits :: tool_truncation_limits
  acc_chunks :: "string list"

text \<open>\<^term>\<open>None\<close> is the panic of the assertions.\<close>

definition accumulator_new :: "tool_truncation_limits \<Rightarrow> tool_output_accumulator option" where
  "accumulator_new limits =
     (if max_bytes limits > 0 \<and> max_lines limits > 0 then Some \<lparr>acc_limits = limits, acc_chunks = []\<rparr> else None)"

definition accumulator_push :: "string \<Rightarrow> tool_output_accumulator \<Rightarrow> tool_output_accumulator" where
  "accumulator_push chunk a = a\<lparr>acc_chunks := acc_chunks a @ [chunk]\<rparr>"

definition accumulator_finish :: "'v json_builder \<Rightarrow> tool_output_accumulator \<Rightarrow> 'v tool_host_outcome" where
  "accumulator_finish js a =
     (let combined = concat (acc_chunks a);
          ob = length combined;
          ol = count_lines combined;
          truncated = truncate_utf8_by_bytes_and_lines combined (acc_limits a);
          tb = length truncated;
          tl = count_lines truncated;
          content = [ContentText truncated]
      in if ob > tb \<or> ol > tl
         then Truncated content \<lparr>original_bytes = ob, original_lines = ol, truncated_bytes = tb, truncated_lines = tl\<rparr>
         else Succeeded content (json_object js [(''truncated'', json_bool js False)]))"

section \<open>Redaction of metadata\<close>

lemma contains_secret_marker_prefix: "prefix s t \<Longrightarrow> contains_secret_marker s \<Longrightarrow> contains_secret_marker t"
  unfolding contains_secret_marker_def Let_def list_ex_iff
  using contains_prefix [OF prefix_to_ascii_lowercase] by blast

lemma redacted_not_secret: "\<not> contains_secret_marker REDACTED"
  by code_simp

lemma safe_metadata_no_secret: "\<not> contains_secret_marker (safe_metadata v)"
  using contains_secret_marker_prefix [OF take_chars_prefix] redacted_not_secret by (auto simp: safe_metadata_def)

lemma REDACTED_count: "char_count REDACTED = 10"
  by (simp add: char_count_def REDACTED_def is_continuation_def)

lemma safe_metadata_short: "char_count (safe_metadata v) \<le> 160"
  by (simp add: safe_metadata_def char_count_take_chars REDACTED_count)

definition metadata_safe :: "metadata \<Rightarrow> bool" where
  "metadata_safe m \<longleftrightarrow> bt_inv m \<and>
     (\<forall>k v. bt_get m k = Some v \<longrightarrow> char_count k \<le> 160 \<and> char_count v \<le> 160 \<and> \<not> contains_secret_marker v)"

lemma metadata_safe_empty [simp]: "metadata_safe []"
  by (simp add: metadata_safe_def bt_inv_def)

lemma insert_metadata_safe: "metadata_safe m \<Longrightarrow> metadata_safe (insert_metadata k v m)"
  unfolding metadata_safe_def insert_metadata_def
  using safe_metadata_no_secret [of v] safe_metadata_short [of v]
  by (auto simp: bt_get_insert bt_inv_insert safe_metadata_key_def char_count_take_chars split: if_splits)

section \<open>Truncation\<close>

lemma boundary_before_le: "boundary_before t n \<le> n"
  by (induction t n rule: boundary_before.induct) auto

lemma boundary_before_boundary: "is_char_boundary t (boundary_before t n)"
  by (induction t n rule: boundary_before.induct) (auto simp: is_char_boundary_def)

lemma boundary_before_greatest: "boundary_before t n < i \<Longrightarrow> i \<le> n \<Longrightarrow> \<not> is_char_boundary t i"
  by (induction t n rule: boundary_before.induct) (auto simp: le_Suc_eq split: if_splits)

lemma length_utf8_prefix: "length (utf8_prefix t n) \<le> n"
  using boundary_before_le [of t n] by (simp add: utf8_prefix_def)

lemma prefix_utf8_prefix: "prefix (utf8_prefix t n) t"
  by (simp add: utf8_prefix_def take_is_prefix)

text \<open>The character after the cut does not fit any more.\<close>

lemma utf8_prefix_next:
  assumes "length (utf8_prefix p n) < length p"
  shows "n < length (utf8_prefix p n) + length (hd (str_chars (drop (length (utf8_prefix p n)) p @ rest)))"
proof -
  let ?e = "boundary_before p n"
  have n: "n < length p" using assms by (auto simp: utf8_prefix_def split: if_splits)
  then have e: "?e < length p" "?e \<le> n" using boundary_before_le [of p n] by simp_all
  have u: "utf8_prefix p n = take ?e p" using n by (simp add: utf8_prefix_def)
  obtain b bs where d: "drop ?e p = b # bs" using e(1) by (cases "drop ?e p") auto
  have "\<forall>i < n - ?e. is_continuation (bs ! i)"
  proof (intro allI impI)
    fix i assume i: "i < n - ?e"
    then have "\<not> is_char_boundary p (?e + Suc i)" by (intro boundary_before_greatest [where n = n]) simp_all
    moreover have "bs ! i = p ! (?e + Suc i)" using d i n
      by (metis Suc_leI add.commute add_Suc_right e(1) less_imp_le_nat nth_Cons_Suc nth_drop)
    ultimately show "is_continuation (bs ! i)" using i n by (auto simp: is_char_boundary_def)
  qed
  moreover have "n - ?e \<le> length bs" using n e d by (metis (no_types, lifting) Suc_diff_Suc diff_less_mono length_Cons length_drop less_Suc_eq_le)
  ultimately have "n - ?e \<le> length (takeWhile is_continuation (bs @ rest))"
    by (intro length_takeWhile_less_P_nth) (auto simp: nth_append)
  then show ?thesis using e n by (simp add: u d)
qed

fun line_pieces :: "string list \<Rightarrow> bool" where
  "line_pieces [] \<longleftrightarrow> True"
| "line_pieces [p] \<longleftrightarrow> p \<noteq> [] \<and> newline \<notin> set (butlast p)"
| "line_pieces (p # q # ps) \<longleftrightarrow> suffix [newline] p \<and> newline \<notin> set (butlast p) \<and> line_pieces (q # ps)"

lemma line_pieces_split: "line_pieces (split_inclusive newline s)"
proof (induction s)
  case (Cons x s)
  show ?case
  proof (cases "split_inclusive newline s")
    case Nil
    then show ?thesis by simp
  next
    case (Cons p ps)
    with Cons.IH show ?thesis
      by (cases ps) (auto simp: suffix_def butlast_append)
  qed
qed simp

lemma count_lines_count:
  "count_lines s = count_list s newline + (if s \<noteq> [] \<and> last s \<noteq> newline then 1 else 0)"
proof (induction s)
  case (Cons x s)
  then show ?case
    by (cases "s = []") (auto simp: count_lines_def split: list.splits if_splits)
qed (simp add: count_lines_def)


text \<open>The shape of valid UTF-8: each character has as many bytes as its first byte announces.\<close>

definition utf8_width :: "char \<Rightarrow> nat" where
  "utf8_width b = (let n = of_char b :: nat in if n < 128 then 1 else if n < 224 then 2 else if n < 240 then 3 else 4)"

definition well_formed_utf8 :: "string \<Rightarrow> bool" where
  "well_formed_utf8 s \<longleftrightarrow> list_all (\<lambda>c. \<not> is_continuation (hd c) \<and> length c = utf8_width (hd c)) (str_chars s)"

lemma newline_not_continuation [simp]: "\<not> is_continuation newline"
  by (simp add: is_continuation_def)

lemma well_formed_after_newline:
  assumes "well_formed_utf8 (x @ newline # y)"
  shows "well_formed_utf8 y \<and> (y = [] \<or> \<not> is_continuation (hd y))"
proof -
  have "str_chars (x @ newline # y) =
      str_chars x @ (newline # takeWhile is_continuation y) # str_chars (dropWhile is_continuation y)"
    by (subst str_chars_append) simp_all
  with assms have w: "length (newline # takeWhile is_continuation y) = utf8_width newline"
    and d: "well_formed_utf8 (dropWhile is_continuation y)"
    by (simp_all add: well_formed_utf8_def)
  have "takeWhile is_continuation y = []" using w by (simp add: utf8_width_def)
  then have "y = [] \<or> \<not> is_continuation (hd y)" by (cases y) (auto split: if_splits)
  with d show ?thesis by (cases y) auto
qed

text \<open>What truncation promises about a result: it keeps to both limits, is cut at a character, and
  keeps as much as fits.\<close>

definition fits_no_more :: "tool_truncation_limits \<Rightarrow> string \<Rightarrow> string \<Rightarrow> bool" where
  "fits_no_more limits kept rest \<longleftrightarrow> rest = [] \<or>
     (count_lines kept = max_lines limits \<and> suffix [newline] kept) \<or>
     max_bytes limits < length kept + length (hd (str_chars rest))"

lemma count_list_butlast: "newline \<notin> set (butlast p) \<Longrightarrow> count_list p newline = (if suffix [newline] p then 1 else 0)"
  by (cases p rule: rev_cases) (auto simp: suffix_def)

lemma suffix_newline: "suffix [newline] p \<longleftrightarrow> p \<noteq> [] \<and> last p = newline"
  by (cases p rule: rev_cases) (auto simp: suffix_def)

lemma utf8_prefix_nonempty_boundary:
  "length (utf8_prefix p n) < length p \<Longrightarrow> \<not> is_continuation (p ! length (utf8_prefix p n)) \<or> utf8_prefix p n = []"
  using boundary_before_boundary [of p n]
  by (auto simp: utf8_prefix_def is_char_boundary_def split: if_splits)

lemma truncate_loop_correct:
  assumes "well_formed_utf8 (concat ps)" "line_pieces ps" "kept = [] \<or> last kept = newline" "lines = count_list kept newline"
    and "lines \<le> max_lines limits" "length kept \<le> max_bytes limits" "0 < max_lines limits" "0 < max_bytes limits"
  shows "\<exists>u. truncate_loop limits ps kept lines = kept @ u \<and> prefix u (concat ps) \<and>
    length (kept @ u) \<le> max_bytes limits \<and> count_lines (kept @ u) \<le> max_lines limits \<and>
    is_char_boundary (concat ps) (length u) \<and>
    fits_no_more limits (kept @ u) (drop (length u) (concat ps))"
  using assms
proof (induction ps arbitrary: kept lines)
  case Nil
  then show ?case by (auto simp: count_lines_count is_char_boundary_def fits_no_more_def)
next
  case (Cons p ps)
  let ?n = "max_bytes limits - length kept" and ?u = "utf8_prefix p (max_bytes limits - length kept)"
  have kept: "count_lines kept = lines" using Cons.prems by (auto simp: count_lines_count)
  have p: "p \<noteq> []" "newline \<notin> set (butlast p)" and ps: "line_pieces ps"
    using Cons.prems(2) by (cases ps; auto simp: suffix_newline)+
  show ?case
  proof (cases "lines \<ge> max_lines limits")
    case True
    with Cons.prems kept have "suffix [newline] kept" by (auto simp: suffix_newline)
    with True Cons.prems kept show ?thesis
      by (intro exI [of _ "[]"]) (auto simp: is_char_boundary_def fits_no_more_def)
  next
    case lines: False
    show ?thesis
    proof (cases "?n = 0")
      case True
      with lines Cons.prems kept p show ?thesis
        by (intro exI [of _ "[]"]) (cases p; auto simp: is_char_boundary_def fits_no_more_def)
    next
      case n: False
      show ?thesis
      proof (cases "length ?u < length p")
        case True
        obtain r where r: "p = ?u @ r" "r \<noteq> []"
          using prefix_utf8_prefix [of p ?n] True unfolding prefix_def by fastforce
        have "newline \<notin> set ?u" using p(2) r by (metis Un_iff butlast_append set_append)
        then have "count_lines (kept @ ?u) \<le> max_lines limits"
          using lines Cons.prems by (auto simp: count_lines_count)
        moreover have "is_char_boundary (concat (p # ps)) (length ?u)"
          using utf8_prefix_nonempty_boundary [OF True] True
          by (auto simp: is_char_boundary_def nth_append)
        moreover have "fits_no_more limits (kept @ ?u) (drop (length ?u) (concat (p # ps)))"
          using utf8_prefix_next [OF True, of "concat ps"] True n by (auto simp: fits_no_more_def)
        moreover have "prefix ?u (concat (p # ps))" by (metis concat.simps(2) prefix_prefix prefix_utf8_prefix)
        ultimately show ?thesis
          using length_utf8_prefix [of p ?n] True lines n Cons.prems(6)
          by (intro exI [of _ ?u]) (auto simp: Let_def)
      next
        case False
        then have u: "?u = p"
          using prefix_utf8_prefix [of p ?n] by (metis append_eq_conv_conj not_le_imp_less prefix_def take_all)
        then have fit: "length (kept @ p) \<le> max_bytes limits"
          using length_utf8_prefix [of p ?n] n by simp
        show ?thesis
        proof (cases "suffix [newline] p")
          case True
          then obtain q where "p = q @ [newline]" by (auto simp: suffix_def)
          then have wf: "well_formed_utf8 (concat ps)" "concat ps = [] \<or> \<not> is_continuation (hd (concat ps))"
            using well_formed_after_newline [of q "concat ps"] Cons.prems(1) by auto
          have "\<exists>v. truncate_loop limits ps (kept @ p) (lines + 1) = (kept @ p) @ v \<and> prefix v (concat ps) \<and>
              length ((kept @ p) @ v) \<le> max_bytes limits \<and> count_lines ((kept @ p) @ v) \<le> max_lines limits \<and>
              is_char_boundary (concat ps) (length v) \<and>
              fits_no_more limits ((kept @ p) @ v) (drop (length v) (concat ps))"
            using wf(1) Cons.prems lines fit True p ps count_list_butlast [OF p(2)]
            by (intro Cons.IH) (auto simp: suffix_newline)
          then obtain v where "truncate_loop limits ps (kept @ p) (lines + 1) = kept @ p @ v" "prefix v (concat ps)"
              "length (kept @ p @ v) \<le> max_bytes limits" "count_lines (kept @ p @ v) \<le> max_lines limits"
              "is_char_boundary (concat ps) (length v)" "fits_no_more limits (kept @ p @ v) (drop (length v) (concat ps))"
            by auto
          moreover have "is_char_boundary (concat (p # ps)) (length (p @ v))"
            using \<open>is_char_boundary (concat ps) (length v)\<close> wf(2)
            by (cases "v = []") (auto simp: is_char_boundary_def nth_append hd_conv_nth simp del: concat_eq_Nil_conv)
          ultimately show ?thesis using u lines n True False
            by (intro exI [of _ "p @ v"]) (auto simp: Let_def)
        next
          case nl: False
          then have "ps = []" using Cons.prems(2) by (cases ps) auto
          with u lines n nl fit Cons.prems p count_list_butlast [OF p(2)] show ?thesis
            by (intro exI [of _ p])
               (auto simp: Let_def is_char_boundary_def fits_no_more_def count_lines_count suffix_newline)
        qed
      qed
    qed
  qed
qed

text \<open>
  C34 (bounds). Tool output is cut to its limits and to nothing less: the text of the outcome is a prefix of
  what was pushed (valid UTF-8, as in every \<^verbatim>\<open>String\<close>), has at most the allowed bytes and lines, ends at a character boundary, and stops
  only where all lines are used up or the next character would not fit. The outcome is \<open>Truncated\<close>,
  with the true sizes before and after, exactly if something was cut off.
\<close>

theorem tool_output_truncation:
  assumes "accumulator_new limits = Some a" "well_formed_utf8 (concat chunks)"
  shows "\<exists>kept rest. concat chunks = kept @ rest \<and> length kept \<le> max_bytes limits \<and>
    count_lines kept \<le> max_lines limits \<and> is_char_boundary (concat chunks) (length kept) \<and>
    fits_no_more limits kept rest \<and>
    accumulator_finish js (fold accumulator_push chunks a) =
      (if rest = [] then Succeeded [ContentText kept] (json_object js [(''truncated'', json_bool js False)])
       else Truncated [ContentText kept]
         \<lparr>original_bytes = length (concat chunks), original_lines = count_lines (concat chunks),
          truncated_bytes = length kept, truncated_lines = count_lines kept\<rparr>)"
proof -
  let ?t = "concat chunks"
  have pos: "0 < max_lines limits" "0 < max_bytes limits" and a: "a = \<lparr>acc_limits = limits, acc_chunks = []\<rparr>"
    using assms by (auto simp: accumulator_new_def split: if_splits)
  have fold: "acc_limits (fold accumulator_push cs x) = acc_limits x \<and>
      acc_chunks (fold accumulator_push cs x) = acc_chunks x @ cs" for cs x
    by (induction cs arbitrary: x) (simp_all add: accumulator_push_def)
  obtain u where u: "truncate_utf8_by_bytes_and_lines ?t limits = u" "prefix u ?t" "length u \<le> max_bytes limits"
      "count_lines u \<le> max_lines limits" "is_char_boundary ?t (length u)" "fits_no_more limits u (drop (length u) ?t)"
    using truncate_loop_correct [OF _ line_pieces_split, of ?t "[]" 0 limits] pos assms(2)
    by (auto simp: truncate_utf8_by_bytes_and_lines_def)
  obtain rest where r: "?t = u @ rest" using u(2) by (auto simp: prefix_def)
  show ?thesis
    using u r fold [of chunks a] by (intro exI [of _ u] exI [of _ rest])
      (auto simp: accumulator_finish_def a Let_def)
qed

theorem tool_output_truncation_witness:
  "accumulator_finish \<lparr>json_bool = \<lambda>b. 0, json_string = \<lambda>s. 0, json_object = \<lambda>kvs. (1 :: nat)\<rparr>
     (fold accumulator_push [''a'' @ [newline], ''bcd''] \<lparr>acc_limits = \<lparr>max_bytes = 4, max_lines = 9\<rparr>, acc_chunks = []\<rparr>) =
   Truncated [ContentText (''a'' @ [newline] @ ''bc'')]
     \<lparr>original_bytes = 5, original_lines = 2, truncated_bytes = 4, truncated_lines = 2\<rparr> \<and>
   (\<exists>kept rest. concat [''a'' @ [newline], ''bcd''] = kept @ rest \<and>
      fits_no_more \<lparr>max_bytes = 4, max_lines = 9\<rparr> kept rest)"
proof
  show "\<exists>kept rest. concat [''a'' @ [newline], ''bcd''] = kept @ rest \<and>
      fits_no_more \<lparr>max_bytes = 4, max_lines = 9\<rparr> kept rest"
    using tool_output_truncation [of "\<lparr>max_bytes = 4, max_lines = 9\<rparr>"
        "\<lparr>acc_limits = \<lparr>max_bytes = 4, max_lines = 9\<rparr>, acc_chunks = []\<rparr>" "[''a'' @ [newline], ''bcd'']"
        "\<lparr>json_bool = \<lambda>b. 0, json_string = \<lambda>s. 0, json_object = \<lambda>kvs. (1 :: nat)\<rparr>"]
    by (auto simp: accumulator_new_def well_formed_utf8_def is_continuation_def utf8_width_def)
qed code_simp

text \<open>The types that carry text or metadata of a request, and what makes a value of each of them safe to store or show.\<close>

definition text_safe :: "string \<Rightarrow> bool" where
  "text_safe t \<longleftrightarrow> char_count t \<le> 160 \<and> \<not> contains_secret_marker t"

definition storage_value_safe :: "tool_storage_value \<Rightarrow> bool" where
  "storage_value_safe v \<longleftrightarrow> pred_option text_safe (sv_content_type v) \<and> metadata_safe (sv_metadata v)"

definition search_request_safe :: "tool_search_request \<Rightarrow> bool" where
  "search_request_safe r \<longleftrightarrow> text_safe (sr_query r) \<and> metadata_safe (sr_metadata r)"

definition search_hit_safe :: "tool_search_hit \<Rightarrow> bool" where
  "search_hit_safe h \<longleftrightarrow> text_safe (hit_title h) \<and> text_safe (hit_snippet h) \<and> metadata_safe (hit_metadata h)"

definition progress_event_safe :: "tool_progress_event \<Rightarrow> bool" where
  "progress_event_safe e \<longleftrightarrow> text_safe (pe_message e) \<and> metadata_safe (pe_metadata e)"

definition hook_request_safe :: "'v tool_hook_request \<Rightarrow> bool" where
  "hook_request_safe r \<longleftrightarrow> char_count (hr_call_id r) \<le> 160 \<and> char_count (hr_tool_name r) \<le> 160 \<and> metadata_safe (hr_metadata r)"

definition capability_request_safe :: "'v tool_capability_request \<Rightarrow> bool" where
  "capability_request_safe r \<longleftrightarrow> char_count (cr_call_id r) \<le> 160 \<and> char_count (cr_tool_name r) \<le> 160 \<and> metadata_safe (cr_metadata r)"

definition runtime_policy_request_safe :: "tool_runtime_policy_request \<Rightarrow> bool" where
  "runtime_policy_request_safe r \<longleftrightarrow> char_count (rp_call_id r) \<le> 160 \<and> char_count (rp_tool_name r) \<le> 160 \<and> metadata_safe (rp_metadata r)"

lemma safe_metadata_text [simp]: "text_safe (safe_metadata v)"
  by (simp add: text_safe_def safe_metadata_no_secret safe_metadata_short)

lemma safe_metadata_key_short [simp]: "char_count (safe_metadata_key k) \<le> 160"
  by (simp add: safe_metadata_key_def char_count_take_chars)

lemmas carrier_safe_defs = storage_value_safe_def search_request_safe_def search_hit_safe_def progress_event_safe_def
  hook_request_safe_def capability_request_safe_def runtime_policy_request_safe_def

lemmas carrier_defs = available_def unavailable_def handle_with_metadata_def storage_value_new_def with_content_type_def
  storage_value_with_metadata_def search_request_new_def search_request_with_metadata_def search_hit_new_def
  search_hit_with_metadata_def progress_event_new_def progress_event_with_metadata_def hook_before_def hook_after_def
  hook_request_new_def hook_request_with_metadata_def capability_request_new_def capability_request_with_metadata_def
  runtime_policy_request_new_def runtime_policy_request_with_metadata_def context_new_def context_with_metadata_def

text \<open>
  C35 (type). What a tool host keeps as text and metadata is safe. Service handles, storage values, search requests, search hits, hook
  requests, capability requests, policy requests, progress events and contexts are safe when they are made, whatever they are made from, and stay
  safe when an entry is added to their metadata, or a content type to a storage value. Safe means: no metadata value, content type, search query,
  title, snippet or progress message contains a secret marker, and each of them, each metadata key, and the ids and tool names of
  hook, capability and policy requests have at most 160 characters.
\<close>

theorem tool_metadata_safe:
  "(\<forall>kind why k v h. metadata_safe (sh_metadata (available kind)) \<and> metadata_safe (sh_metadata (unavailable kind why)) \<and>
      (metadata_safe (sh_metadata h) \<longrightarrow> metadata_safe (sh_metadata (handle_with_metadata k v h)))) \<and>
   (\<forall>b t k v x. storage_value_safe (storage_value_new b) \<and>
      (storage_value_safe x \<longrightarrow> storage_value_safe (with_content_type t x) \<and> storage_value_safe (storage_value_with_metadata k v x))) \<and>
   (\<forall>q n k v r. search_request_safe (search_request_new q n) \<and>
      (search_request_safe r \<longrightarrow> search_request_safe (search_request_with_metadata k v r))) \<and>
   (\<forall>t s n k v h. search_hit_safe (search_hit_new t s n) \<and> (search_hit_safe h \<longrightarrow> search_hit_safe (search_hit_with_metadata k v h))) \<and>
   (\<forall>cid name inp k v (r :: 'v tool_hook_request). hook_request_safe (hook_before cid name (inp :: 'v)) \<and>
      hook_request_safe (hook_after cid name inp) \<and> (hook_request_safe r \<longrightarrow> hook_request_safe (hook_request_with_metadata k v r))) \<and>
   (\<forall>cid name inp k v (r :: 'v tool_capability_request). capability_request_safe (capability_request_new cid name (inp :: 'v)) \<and>
      (capability_request_safe r \<longrightarrow> capability_request_safe (capability_request_with_metadata k v r))) \<and>
   (\<forall>cid name kind k v r. runtime_policy_request_safe (runtime_policy_request_new cid name kind) \<and>
      (runtime_policy_request_safe r \<longrightarrow> runtime_policy_request_safe (runtime_policy_request_with_metadata k v r))) \<and>
   (\<forall>cid kind msg k v e. progress_event_safe (progress_event_new cid kind msg) \<and>
      (progress_event_safe e \<longrightarrow> progress_event_safe (progress_event_with_metadata k v e))) \<and>
   (\<forall>cid k v (c :: ('o, 'w) tool_invocation_context). metadata_safe (ctx_metadata (context_new cid :: ('o, 'w) tool_invocation_context)) \<and>
      (metadata_safe (ctx_metadata c) \<longrightarrow> metadata_safe (ctx_metadata (context_with_metadata k v c))))"
  by (intro conjI allI impI) (simp_all add: carrier_safe_defs carrier_defs insert_metadata_safe)

text \<open>A storage value with a header that holds a token.\<close>

theorem tool_metadata_safe_witness:
  "storage_value_safe (storage_value_with_metadata ''auth'' ''Bearer abc'' (storage_value_new [1])) \<and>
   bt_get (sv_metadata (storage_value_with_metadata ''auth'' ''Bearer abc'' (storage_value_new [1]))) ''auth'' = Some ''[REDACTED]''"
proof
  show "storage_value_safe (storage_value_with_metadata ''auth'' ''Bearer abc'' (storage_value_new [1]))"
    using tool_metadata_safe [THEN conjunct2, THEN conjunct1] by blast
qed code_simp

end
