(* ===== verification/Process_Jobs.thy ===== *)
theory Process_Jobs
  imports Text Ordered_Map "HOL-Library.Char_ord" "HOL-Library.List_Lexorder"
begin

text \<open>
  The contracts of background process jobs, \<^verbatim>\<open>crates/clankers-tool-host/src/process_jobs.rs\<close>: identifiers
  and statuses, who may do what to a job, what a backend can do, the layout of native logs, requests
  and receipts. Constructors carry a prefix where several enumerations of the source share a name.
  A time stamp is an \<^verbatim>\<open>i64\<close> number of seconds, an integer whose additions saturate at its bounds.
\<close>

section \<open>Time stamps and identifiers\<close>

type_synonym string_map = "(string, string) btree"

type_synonym process_job_timestamp = int

definition I64_MAX :: int where "I64_MAX = 2 ^ 63 - 1"
definition I64_MIN :: int where "I64_MIN = - (2 ^ 63)"

definition saturating_add_seconds :: "process_job_timestamp \<Rightarrow> int \<Rightarrow> process_job_timestamp" where
  "saturating_add_seconds t s = max I64_MIN (min I64_MAX (t + s))"

definition add_timestamp_duration :: "process_job_timestamp \<Rightarrow> duration \<Rightarrow> process_job_timestamp option" where
  "add_timestamp_duration t d =
     (let secs = uint (dur_as_secs d) in if secs > I64_MAX then None else Some (saturating_add_seconds t secs))"

definition PROCESS_JOB_ID_PREFIX :: string where "PROCESS_JOB_ID_PREFIX = ''proc_b3_''"

type_synonym process_job_id = string
type_synonym backend_ref = string
type_synonym process_job_event_id = string

definition is_blake3_native :: "process_job_id \<Rightarrow> bool" where
  "is_blake3_native i \<longleftrightarrow> prefix PROCESS_JOB_ID_PREFIX i \<and>
     (let digest = drop (length PROCESS_JOB_ID_PREFIX) i in length digest = 64 \<and> list_all is_ascii_hexdigit digest)"

section \<open>Backends, operations and statuses\<close>

datatype process_job_backend_kind = Native | Pueue | Systemd | UnknownBackend

fun backend_label :: "process_job_backend_kind \<Rightarrow> string" where
  "backend_label Native = ''native''"
| "backend_label Pueue = ''pueue''"
| "backend_label Systemd = ''systemd''"
| "backend_label UnknownBackend = ''unknown''"

datatype process_job_operation =
  OpStart | OpList | OpPoll | OpLog | OpWait | OpKill | OpRestart | OpWriteStdin | OpCloseStdin | OpAdopt | OpGarbageCollect

fun action_name :: "process_job_operation \<Rightarrow> string" where
  "action_name OpStart = ''start''"
| "action_name OpList = ''list''"
| "action_name OpPoll = ''poll''"
| "action_name OpLog = ''log''"
| "action_name OpWait = ''wait''"
| "action_name OpKill = ''kill''"
| "action_name OpRestart = ''restart''"
| "action_name OpWriteStdin = ''write_stdin''"
| "action_name OpCloseStdin = ''close_stdin''"
| "action_name OpAdopt = ''adopt''"
| "action_name OpGarbageCollect = ''garbage_collect''"

datatype process_job_status =
    JobPending
  | JobRunning
  | JobWaiting
  | JobSucceeded "int option"
  | JobFailed "int option" string
  | JobKilled
  | JobCancelled
  | JobLostAfterRestart
  | JobReattachedLogIncomplete
  | JobBackendUnavailable string
  | JobUnknown string

fun is_terminal :: "process_job_status \<Rightarrow> bool" where
  "is_terminal (JobSucceeded _) = True"
| "is_terminal (JobFailed _ _) = True"
| "is_terminal JobKilled = True"
| "is_terminal JobCancelled = True"
| "is_terminal JobLostAfterRestart = True"
| "is_terminal (JobBackendUnavailable _) = True"
| "is_terminal _ = False"

definition show_int :: "int \<Rightarrow> string" where
  "show_int n = (if n < 0 then ''-'' @ show_nat (nat (- n)) else show_nat (nat n))"

definition exit_code_text :: "string \<Rightarrow> int option \<Rightarrow> string" where
  "exit_code_text absent code = (case code of None \<Rightarrow> absent | Some c \<Rightarrow> show_int c)"

fun status_label :: "process_job_status \<Rightarrow> string" where
  "status_label JobPending = ''pending''"
| "status_label JobRunning = ''running''"
| "status_label JobWaiting = ''waiting''"
| "status_label (JobSucceeded code) = ''succeeded('' @ exit_code_text ''ok'' code @ '')''"
| "status_label (JobFailed code reason) = ''failed('' @ exit_code_text ''unknown'' code @ '':'' @ reason @ '')''"
| "status_label JobKilled = ''killed''"
| "status_label JobCancelled = ''cancelled''"
| "status_label JobLostAfterRestart = ''lost-after-restart''"
| "status_label JobReattachedLogIncomplete = ''reattached-log-incomplete''"
| "status_label (JobBackendUnavailable reason) = ''backend-unavailable('' @ reason @ '')''"
| "status_label (JobUnknown raw) = ''unknown('' @ raw @ '')''"

section \<open>Callers and their capabilities\<close>

datatype process_job_owner_scope = Session string | Workspace string | User string | DaemonGlobal

record process_job_capability_set =
  observe :: bool
  read_logs :: bool
  read_raw_logs :: bool
  start :: bool
  mutate :: bool
  stdin :: bool
  select_backend :: bool

definition no_capabilities :: process_job_capability_set where
  "no_capabilities = \<lparr>observe = False, read_logs = False, read_raw_logs = False, start = False,
     mutate = False, stdin = False, select_backend = False\<rparr>"

definition observe_only :: process_job_capability_set where
  "observe_only = no_capabilities\<lparr>observe := True\<rparr>"

definition bounded_log_reader :: process_job_capability_set where
  "bounded_log_reader = no_capabilities\<lparr>observe := True, read_logs := True\<rparr>"

definition raw_log_reader :: process_job_capability_set where
  "raw_log_reader = no_capabilities\<lparr>observe := True, read_logs := True, read_raw_logs := True\<rparr>"

definition full_control :: process_job_capability_set where
  "full_control = \<lparr>observe = True, read_logs = True, read_raw_logs = True, start = True,
     mutate = True, stdin = True, select_backend = True\<rparr>"

definition allows_log_access :: "process_job_capability_set \<Rightarrow> bool \<Rightarrow> bool" where
  "allows_log_access caps raw \<longleftrightarrow> observe caps \<and> read_logs caps \<and> (\<not> raw \<or> read_raw_logs caps)"

fun allows_operation ::
  "process_job_capability_set \<Rightarrow> process_job_operation \<Rightarrow> process_job_backend_kind \<Rightarrow> bool" where
  "allows_operation caps OpList b = observe caps"
| "allows_operation caps OpPoll b = observe caps"
| "allows_operation caps OpLog b = allows_log_access caps False"
| "allows_operation caps OpStart b = (start caps \<and> (b = Native \<or> select_backend caps))"
| "allows_operation caps OpKill b = mutate caps"
| "allows_operation caps OpRestart b = mutate caps"
| "allows_operation caps OpAdopt b = mutate caps"
| "allows_operation caps OpGarbageCollect b = mutate caps"
| "allows_operation caps OpWriteStdin b = (mutate caps \<and> stdin caps)"
| "allows_operation caps OpCloseStdin b = (mutate caps \<and> stdin caps)"
| "allows_operation caps OpWait b = observe caps"

record process_job_caller_scope =
  session_id :: "string option"
  workspace_id :: "string option"
  user_id :: "string option"
  daemon_global :: bool
  capabilities :: process_job_capability_set

fun matches_owner :: "process_job_caller_scope \<Rightarrow> process_job_owner_scope \<Rightarrow> bool" where
  "matches_owner c (Session s) \<longleftrightarrow> session_id c = Some s"
| "matches_owner c (Workspace w) \<longleftrightarrow> workspace_id c = Some w"
| "matches_owner c (User u) \<longleftrightarrow> user_id c = Some u"
| "matches_owner c DaemonGlobal \<longleftrightarrow> daemon_global c"

definition can_access ::
  "process_job_caller_scope \<Rightarrow> process_job_owner_scope \<Rightarrow> process_job_operation \<Rightarrow> process_job_backend_kind \<Rightarrow> bool" where
  "can_access c owner op b \<longleftrightarrow> matches_owner c owner \<and> allows_operation (capabilities c) op b"

section \<open>Backend capabilities\<close>

record process_job_backend_capabilities =
  backend :: "process_job_backend_kind option"
  supports_shell :: bool
  supports_direct_exec :: bool
  supports_stdin :: bool
  supports_restart :: bool
  supports_kill :: bool
  supports_kill_tree :: bool
  supports_control_group :: bool
  supports_adopt :: bool
  supports_garbage_collect :: bool
  supports_resource_limits :: bool
  supports_log_cursor :: bool
  supports_log_range :: bool
  supports_queueing :: bool
  supports_priority :: bool
  supports_dependencies :: bool
  supports_live_status :: bool
  supports_completion_notifications :: bool
  supports_readiness_watch :: bool
  durable_across_daemon_restart :: bool
  unavailable_reason :: "string option"

definition default_backend_capabilities :: process_job_backend_capabilities where
  "default_backend_capabilities = \<lparr>backend = None, supports_shell = False, supports_direct_exec = False,
     supports_stdin = False, supports_restart = False, supports_kill = False, supports_kill_tree = False,
     supports_control_group = False, supports_adopt = False, supports_garbage_collect = False,
     supports_resource_limits = False, supports_log_cursor = False, supports_log_range = False,
     supports_queueing = False, supports_priority = False, supports_dependencies = False,
     supports_live_status = False, supports_completion_notifications = False,
     supports_readiness_watch = False, durable_across_daemon_restart = False, unavailable_reason = None\<rparr>"

definition native_capabilities :: process_job_backend_capabilities where
  "native_capabilities = \<lparr>backend = Some Native, supports_shell = True, supports_direct_exec = True,
     supports_stdin = True, supports_restart = True, supports_kill = True, supports_kill_tree = True,
     supports_control_group = True, supports_adopt = True, supports_garbage_collect = True,
     supports_resource_limits = False, supports_log_cursor = True, supports_log_range = True,
     supports_queueing = False, supports_priority = False, supports_dependencies = False,
     supports_live_status = True, supports_completion_notifications = True,
     supports_readiness_watch = True, durable_across_daemon_restart = False, unavailable_reason = None\<rparr>"

definition pueue_capabilities :: process_job_backend_capabilities where
  "pueue_capabilities = \<lparr>backend = Some Pueue, supports_shell = True, supports_direct_exec = True,
     supports_stdin = False, supports_restart = True, supports_kill = True, supports_kill_tree = False,
     supports_control_group = False, supports_adopt = True, supports_garbage_collect = False,
     supports_resource_limits = False, supports_log_cursor = True, supports_log_range = True,
     supports_queueing = True, supports_priority = True, supports_dependencies = True,
     supports_live_status = True, supports_completion_notifications = True,
     supports_readiness_watch = False, durable_across_daemon_restart = True, unavailable_reason = None\<rparr>"

definition systemd_capabilities :: process_job_backend_capabilities where
  "systemd_capabilities = \<lparr>backend = Some Systemd, supports_shell = True, supports_direct_exec = True,
     supports_stdin = False, supports_restart = True, supports_kill = True, supports_kill_tree = True,
     supports_control_group = True, supports_adopt = True, supports_garbage_collect = False,
     supports_resource_limits = True, supports_log_cursor = True, supports_log_range = True,
     supports_queueing = False, supports_priority = False, supports_dependencies = False,
     supports_live_status = True, supports_completion_notifications = True,
     supports_readiness_watch = True, durable_across_daemon_restart = True, unavailable_reason = None\<rparr>"

definition unavailable_capabilities :: "process_job_backend_kind \<Rightarrow> string \<Rightarrow> process_job_backend_capabilities" where
  "unavailable_capabilities b reason =
     default_backend_capabilities\<lparr>backend := Some b, unavailable_reason := Some reason\<rparr>"

fun for_backend :: "process_job_backend_kind \<Rightarrow> process_job_backend_capabilities" where
  "for_backend Native = native_capabilities"
| "for_backend Pueue = pueue_capabilities"
| "for_backend Systemd = systemd_capabilities"
| "for_backend UnknownBackend = default_backend_capabilities"

definition supports_operation :: "process_job_backend_capabilities \<Rightarrow> process_job_operation \<Rightarrow> bool" where
  "supports_operation c op \<longleftrightarrow> unavailable_reason c = None \<and> (case op of
     OpStart \<Rightarrow> supports_shell c \<or> supports_direct_exec c
   | OpList \<Rightarrow> supports_live_status c
   | OpPoll \<Rightarrow> supports_live_status c
   | OpWait \<Rightarrow> supports_live_status c
   | OpLog \<Rightarrow> supports_log_cursor c \<or> supports_log_range c
   | OpKill \<Rightarrow> supports_kill c
   | OpRestart \<Rightarrow> supports_restart c
   | OpWriteStdin \<Rightarrow> supports_stdin c
   | OpCloseStdin \<Rightarrow> supports_stdin c
   | OpAdopt \<Rightarrow> supports_adopt c
   | OpGarbageCollect \<Rightarrow> supports_garbage_collect c)"

definition unsupported_detail :: "process_job_backend_capabilities \<Rightarrow> process_job_operation \<Rightarrow> string option" where
  "unsupported_detail c op = (if supports_operation c op then None else Some (case op of
     OpStart \<Rightarrow> ''start requires shell or direct_exec support''
   | OpList \<Rightarrow> ''status operations require live_status support''
   | OpPoll \<Rightarrow> ''status operations require live_status support''
   | OpWait \<Rightarrow> ''status operations require live_status support''
   | OpLog \<Rightarrow> ''log requires log_cursor or bounded_log support''
   | OpKill \<Rightarrow> ''kill requires kill support''
   | OpRestart \<Rightarrow> ''restart requires restart support''
   | OpWriteStdin \<Rightarrow> ''stdin requires stdin support''
   | OpCloseStdin \<Rightarrow> ''stdin requires stdin support''
   | OpAdopt \<Rightarrow> ''adoption requires adoption support''
   | OpGarbageCollect \<Rightarrow> ''gc requires garbage collection support''))"

record process_job_safe_capability_hints =
  hint_kill :: bool
  hint_restart :: bool
  hint_stdin :: bool
  hint_logs :: bool
  hint_resource_limits :: bool

definition from_capabilities :: "process_job_backend_capabilities \<Rightarrow> process_job_safe_capability_hints" where
  "from_capabilities c = \<lparr>hint_kill = supports_kill c, hint_restart = supports_restart c,
     hint_stdin = supports_stdin c, hint_logs = supports_log_cursor c \<or> supports_log_range c,
     hint_resource_limits = supports_resource_limits c\<rparr>"

definition hints_for_backend :: "process_job_backend_kind \<Rightarrow> process_job_safe_capability_hints" where
  "hints_for_backend b = from_capabilities (for_backend b)"

section \<open>Logs\<close>

datatype process_job_cwd = Inherited | Explicit string

datatype process_job_stream = Stdout | Stderr | Combined

record process_job_log_ref =
  lr_stream :: process_job_stream
  lr_reference :: string
  lr_retained_until :: "process_job_timestamp option"
  lr_max_bytes :: "u64 option"

record process_job_backend_start =
  bs_backend_ref :: backend_ref
  bs_status :: process_job_status
  bs_log_refs :: "process_job_log_ref list"

record process_job_backend_status =
  bst_backend_ref :: backend_ref
  bst_status :: process_job_status
  bst_updated_at :: process_job_timestamp
  bst_log_refs :: "process_job_log_ref list"

record native_process_job_log_layout =
  ll_job_id :: process_job_id
  ll_stream :: process_job_stream
  ll_relative_path :: string
  ll_reference :: string

text \<open>Each character that is not an ASCII letter, digit, hyphen, underscore or dot becomes one underscore.\<close>

definition safe_path_char :: "string \<Rightarrow> string" where
  "safe_path_char ch = (case ch of
     [c] \<Rightarrow> if is_ascii_alphanumeric c \<or> c \<in> {CHR ''-'', CHR ''_'', CHR ''.''} then [c] else ''_''
   | _ \<Rightarrow> ''_'')"

definition sanitize_log_path_component :: "string \<Rightarrow> string" where
  "sanitize_log_path_component inp = concat (map safe_path_char (str_chars inp))"

fun stream_suffix :: "process_job_stream \<Rightarrow> string" where
  "stream_suffix Stdout = ''stdout.log''"
| "stream_suffix Stderr = ''stderr.log''"
| "stream_suffix Combined = ''combined.log''"

definition for_stream :: "process_job_id \<Rightarrow> process_job_stream \<Rightarrow> native_process_job_log_layout" where
  "for_stream job stream = (let safe_id = sanitize_log_path_component job; sfx = stream_suffix stream
     in \<lparr>ll_job_id = job, ll_stream = stream, ll_relative_path = path_join safe_id sfx,
         ll_reference = ''native:'' @ safe_id @ ''/'' @ sfx\<rparr>)"

definition into_log_ref :: "native_process_job_log_layout \<Rightarrow> u64 \<Rightarrow> process_job_log_ref" where
  "into_log_ref l n = \<lparr>lr_stream = ll_stream l, lr_reference = ll_reference l, lr_retained_until = None,
     lr_max_bytes = Some n\<rparr>"

record process_job_log_retention_policy =
  rt_max_bytes_per_job :: u64
  rt_max_age :: "duration option"
  rt_keep_terminal_logs :: bool

definition reference_for ::
  "process_job_log_retention_policy \<Rightarrow> process_job_id \<Rightarrow> process_job_stream \<Rightarrow> process_job_timestamp \<Rightarrow> process_job_log_ref" where
  "reference_for p job stream now = \<lparr>lr_stream = stream, lr_reference = ll_reference (for_stream job stream),
     lr_retained_until = Option.bind (rt_max_age p) (add_timestamp_duration now),
     lr_max_bytes = Some (rt_max_bytes_per_job p)\<rparr>"

record process_job_log_cursor =
  lc_stream :: process_job_stream
  lc_offset :: u64

record process_job_log_range =
  lg_stream :: process_job_stream
  lg_offset :: "u64 option"
  lg_limit_bytes :: u64

record process_job_log_overflow_policy =
  max_line_bytes :: u64
  max_chunk_bytes :: u64
  max_file_bytes :: u64
  max_total_bytes :: u64

definition default_log_overflow_policy :: process_job_log_overflow_policy where
  "default_log_overflow_policy = \<lparr>max_line_bytes = 65536, max_chunk_bytes = 1048576,
     max_file_bytes = 67108864, max_total_bytes = 1073741824\<rparr>"

datatype process_job_log_write_disposition =
  WriteAccept | TruncateLine u64 | TruncateChunk u64 | DegradeDiskFull

definition classify_write ::
  "process_job_log_overflow_policy \<Rightarrow> u64 \<Rightarrow> u64 \<Rightarrow> u64 \<Rightarrow> process_job_log_write_disposition" where
  "classify_write p line_bytes chunk_bytes total_bytes =
     (if line_bytes > max_line_bytes p then TruncateLine (line_bytes - max_line_bytes p)
      else if chunk_bytes > max_chunk_bytes p then TruncateChunk (chunk_bytes - max_chunk_bytes p)
      else if total_bytes > max_total_bytes p \<or> total_bytes > max_file_bytes p then DegradeDiskFull
      else WriteAccept)"

record process_job_native_admission_input =
  ai_active :: nat
  ai_limit :: nat

record process_job_native_admission_decision =
  ad_accepted :: bool
  ad_active :: nat
  ad_limit :: nat

definition native_process_job_admission_decision ::
  "process_job_native_admission_input \<Rightarrow> process_job_native_admission_decision" where
  "native_process_job_admission_decision i =
     \<lparr>ad_accepted = ai_active i < ai_limit i, ad_active = ai_active i, ad_limit = ai_limit i\<rparr>"

definition admission_summary :: "process_job_native_admission_decision \<Rightarrow> string" where
  "admission_summary d = ''native process admission denied: active process limit reached ('' @
     show_nat (ad_active d) @ ''/'' @ show_nat (ad_limit d) @ '')''"

section \<open>Requests\<close>

record process_job_resource_policy =
  rs_timeout :: "duration option"
  rs_memory_max_bytes :: "u64 option"
  rs_cpu_quota_percent :: "u32 option"
  rs_max_log_bytes :: "u64 option"

record process_job_notification_policy =
  notify_on_complete :: bool
  watch_patterns :: "string list"

record start_process_job_request =
  st_backend :: process_job_backend_kind
  st_command_preview :: string
  st_program :: "string option"
  st_args :: "string list"
  st_shell_command :: "string option"
  st_cwd :: process_job_cwd
  st_owner :: process_job_owner_scope
  st_resource_policy :: process_job_resource_policy
  st_notification_policy :: process_job_notification_policy
  st_metadata :: string_map

record process_job_filter =
  fl_owner :: "process_job_owner_scope option"
  fl_backend :: "process_job_backend_kind option"
  fl_include_terminal :: bool

record poll_process_job_request =
  pq_id :: process_job_id
  pq_cursor :: "process_job_log_cursor option"

record read_process_job_log_request =
  lq_id :: process_job_id
  lq_range :: process_job_log_range
  lq_raw :: bool

record wait_process_job_request =
  wq_id :: process_job_id
  wq_timeout :: "duration option"

record write_process_job_stdin_request =
  sq_id :: process_job_id
  sq_data :: "u8 list"
  sq_newline :: bool

record start_process_job_profile_request =
  fq_profile :: string
  fq_owner :: process_job_owner_scope
  fq_metadata :: string_map

record adopt_process_job_request =
  aq_backend :: process_job_backend_kind
  aq_backend_ref :: backend_ref
  aq_owner :: process_job_owner_scope
  aq_caller :: process_job_caller_scope

definition adopt_is_authorized :: "adopt_process_job_request \<Rightarrow> bool" where
  "adopt_is_authorized r \<longleftrightarrow> can_access (aq_caller r) (aq_owner r) OpAdopt (aq_backend r) \<and>
     (aq_backend r = Native \<or> select_backend (capabilities (aq_caller r)))"

datatype process_job_tool_request =
    ReqStart start_process_job_request
  | ReqList process_job_filter
  | ReqPoll poll_process_job_request
  | ReqLog read_process_job_log_request
  | ReqWait wait_process_job_request
  | ReqKill process_job_id
  | ReqRestart process_job_id
  | ReqWriteStdin write_process_job_stdin_request
  | ReqCloseStdin process_job_id
  | ReqStartProfile start_process_job_profile_request
  | ReqAdopt adopt_process_job_request
  | ReqGarbageCollect process_job_filter

fun request_operation :: "process_job_tool_request \<Rightarrow> process_job_operation" where
  "request_operation (ReqStart _) = OpStart"
| "request_operation (ReqStartProfile _) = OpStart"
| "request_operation (ReqList _) = OpList"
| "request_operation (ReqPoll _) = OpPoll"
| "request_operation (ReqLog _) = OpLog"
| "request_operation (ReqWait _) = OpWait"
| "request_operation (ReqKill _) = OpKill"
| "request_operation (ReqRestart _) = OpRestart"
| "request_operation (ReqWriteStdin _) = OpWriteStdin"
| "request_operation (ReqCloseStdin _) = OpCloseStdin"
| "request_operation (ReqAdopt _) = OpAdopt"
| "request_operation (ReqGarbageCollect _) = OpGarbageCollect"

section \<open>Summaries and receipts\<close>

record process_job_profile_receipt_metadata =
  pm_profile_name :: string
  pm_manifest_schema_version :: u32
  pm_profile_source :: string
  pm_policy_source :: string

record process_job_summary =
  sm_id :: process_job_id
  sm_backend :: process_job_backend_kind
  sm_backend_ref :: "backend_ref option"
  sm_owner :: process_job_owner_scope
  sm_status :: process_job_status
  sm_command_preview :: string
  sm_cwd :: process_job_cwd
  sm_started_at :: "process_job_timestamp option"
  sm_updated_at :: process_job_timestamp
  sm_completed_at :: "process_job_timestamp option"
  sm_log_refs :: "process_job_log_ref list"
  sm_profile :: "process_job_profile_receipt_metadata option"

record process_job_log_chunk =
  ch_id :: process_job_id
  ch_backend :: process_job_backend_kind
  ch_stream :: process_job_stream
  ch_cursor :: process_job_log_cursor
  ch_next_cursor :: "process_job_log_cursor option"
  ch_text :: string
  ch_truncated :: bool

record process_job_released_log_ref =
  rl_id :: process_job_id
  rl_backend :: process_job_backend_kind
  rl_reference :: string
  rl_bytes :: u64

record process_job_garbage_collection_failure =
  gf_id :: "process_job_id option"
  gf_reference :: "string option"
  gf_message :: string

record process_job_garbage_collection_receipt =
  gc_operation :: process_job_operation
  gc_removed_metadata_count :: nat
  gc_removed_records :: "process_job_id list"
  gc_tombstoned_records :: "process_job_id list"
  gc_deleted_native_log_files :: nat
  gc_removed_log_bytes :: u64
  gc_skipped_active_jobs :: "process_job_id list"
  gc_released_log_refs :: "process_job_released_log_ref list"
  gc_failures :: "process_job_garbage_collection_failure list"
  gc_summary :: string

definition gc_empty :: process_job_garbage_collection_receipt where
  "gc_empty = \<lparr>gc_operation = OpGarbageCollect, gc_removed_metadata_count = 0, gc_removed_records = [],
     gc_tombstoned_records = [], gc_deleted_native_log_files = 0, gc_removed_log_bytes = 0,
     gc_skipped_active_jobs = [], gc_released_log_refs = [], gc_failures = [],
     gc_summary = ''process job GC removed 0 metadata records, tombstoned 0 records, deleted 0 native log files, released 0 backend log refs, skipped 0 active jobs, 0 failures''\<rparr>"

definition refresh_summary ::
  "process_job_garbage_collection_receipt \<Rightarrow> process_job_garbage_collection_receipt" where
  "refresh_summary r = (let n = length (gc_removed_records r)
     in r\<lparr>gc_removed_metadata_count := n,
          gc_summary := ''process job GC removed '' @ show_nat n @ '' metadata records, tombstoned '' @
            show_nat (length (gc_tombstoned_records r)) @ '' records, deleted '' @
            show_nat (gc_deleted_native_log_files r) @ '' native log files, released '' @
            show_nat (length (gc_released_log_refs r)) @ '' backend log refs, reclaimed '' @
            show_nat (unat (gc_removed_log_bytes r)) @ '' log bytes, skipped '' @
            show_nat (length (gc_skipped_active_jobs r)) @ '' active jobs, '' @
            show_nat (length (gc_failures r)) @ '' failures''\<rparr>)"

datatype process_job_error_code =
  NotFound | PermissionDenied | BackendIsUnavailable | UnsupportedActionForBackend | InvalidRequest
  | AdmissionDenied | ConcurrencyLimitExceeded | StorageUnavailable | LogUnavailable | BackendFailed

record process_job_error =
  er_code :: process_job_error_code
  er_operation :: process_job_operation
  er_id :: "process_job_id option"
  er_backend :: "process_job_backend_kind option"
  er_action :: "string option"
  er_capability_detail :: "string option"
  er_message :: string

record process_job_receipt_common =
  rc_operation :: process_job_operation
  rc_id :: "process_job_id option"
  rc_backend :: "process_job_backend_kind option"
  rc_status :: "process_job_status option"
  rc_backend_ref :: "backend_ref option"
  rc_profile :: "process_job_profile_receipt_metadata option"
  rc_summary :: string
  rc_error :: "process_job_error option"

datatype process_job_receipt_payload =
    PayloadNone
  | PayloadState "process_job_log_ref list"
  | PayloadList "process_job_summary list"
  | PayloadLog process_job_log_chunk
  | PayloadGarbageCollect process_job_garbage_collection_receipt

record process_job_tool_receipt =
  tr_common :: process_job_receipt_common
  tr_payload :: process_job_receipt_payload

record process_job_receipt =
  jr_operation :: process_job_operation
  jr_id :: "process_job_id option"
  jr_backend :: "process_job_backend_kind option"
  jr_status :: "process_job_status option"
  jr_backend_ref :: "backend_ref option"
  jr_log_refs :: "process_job_log_ref list"
  jr_profile :: "process_job_profile_receipt_metadata option"
  jr_summary :: string
  jr_error :: "process_job_error option"

definition receipt_common :: "process_job_receipt \<Rightarrow> process_job_receipt_common" where
  "receipt_common r = \<lparr>rc_operation = jr_operation r, rc_id = jr_id r, rc_backend = jr_backend r,
     rc_status = jr_status r, rc_backend_ref = jr_backend_ref r, rc_profile = jr_profile r,
     rc_summary = jr_summary r, rc_error = jr_error r\<rparr>"

definition state_payload :: "process_job_receipt \<Rightarrow> process_job_receipt_payload" where
  "state_payload r = PayloadState (jr_log_refs r)"

definition into_tool_receipt :: "process_job_receipt \<Rightarrow> process_job_tool_receipt" where
  "into_tool_receipt r = \<lparr>tr_common = receipt_common r, tr_payload = state_payload r\<rparr>"

definition permission_denied ::
  "process_job_operation \<Rightarrow> process_job_backend_kind \<Rightarrow> string \<Rightarrow> string \<Rightarrow> process_job_receipt" where
  "permission_denied op b action msg = \<lparr>jr_operation = op, jr_id = None, jr_backend = Some b,
     jr_status = None, jr_backend_ref = None, jr_log_refs = [], jr_profile = None, jr_summary = msg,
     jr_error = Some \<lparr>er_code = PermissionDenied, er_operation = op, er_id = None, er_backend = Some b,
       er_action = Some action, er_capability_detail = None, er_message = msg\<rparr>\<rparr>"

definition backend_unavailable ::
  "process_job_operation \<Rightarrow> process_job_backend_kind \<Rightarrow> string \<Rightarrow> process_job_receipt" where
  "backend_unavailable op b reason = \<lparr>jr_operation = op, jr_id = None, jr_backend = Some b,
     jr_status = Some (JobBackendUnavailable reason), jr_backend_ref = None, jr_log_refs = [],
     jr_profile = None, jr_summary = reason,
     jr_error = Some \<lparr>er_code = BackendIsUnavailable, er_operation = op, er_id = None, er_backend = Some b,
       er_action = Some (action_name op), er_capability_detail = None, er_message = reason\<rparr>\<rparr>"

record process_job_unsupported_detail =
  ud_operation :: process_job_operation
  ud_id :: "process_job_id option"
  ud_backend :: process_job_backend_kind
  ud_action :: string
  ud_capability_detail :: "string option"
  ud_message :: string

definition unsupported_with_detail :: "process_job_unsupported_detail \<Rightarrow> process_job_receipt" where
  "unsupported_with_detail d = \<lparr>jr_operation = ud_operation d, jr_id = ud_id d,
     jr_backend = Some (ud_backend d), jr_status = None, jr_backend_ref = None, jr_log_refs = [],
     jr_profile = None, jr_summary = ud_message d,
     jr_error = Some \<lparr>er_code = UnsupportedActionForBackend, er_operation = ud_operation d,
       er_id = ud_id d, er_backend = Some (ud_backend d), er_action = Some (ud_action d),
       er_capability_detail = ud_capability_detail d, er_message = ud_message d\<rparr>\<rparr>"

definition unsupported ::
  "process_job_operation \<Rightarrow> process_job_id option \<Rightarrow> process_job_backend_kind \<Rightarrow> string \<Rightarrow> string \<Rightarrow> process_job_receipt" where
  "unsupported op i b action msg = unsupported_with_detail
     \<lparr>ud_operation = op, ud_id = i, ud_backend = b, ud_action = action, ud_capability_detail = None, ud_message = msg\<rparr>"

definition unsupported_receipt ::
  "process_job_backend_capabilities \<Rightarrow> process_job_operation \<Rightarrow> process_job_id option \<Rightarrow> string \<Rightarrow> process_job_receipt" where
  "unsupported_receipt c op i msg =
     (let b = (case backend c of None \<Rightarrow> UnknownBackend | Some b \<Rightarrow> b)
      in unsupported_with_detail \<lparr>ud_operation = op, ud_id = i, ud_backend = b, ud_action = action_name op,
           ud_capability_detail = Some (case unsupported_detail c op of
             Some d \<Rightarrow> d | None \<Rightarrow> ''capability unsupported''), ud_message = msg\<rparr>)"

datatype process_job_tool_result =
    ResStart process_job_receipt
  | ResList "process_job_summary list"
  | ResPoll process_job_receipt
  | ResLog process_job_log_chunk
  | ResWait process_job_receipt
  | ResKill process_job_receipt
  | ResRestart process_job_receipt
  | ResWriteStdin process_job_receipt
  | ResCloseStdin process_job_receipt
  | ResAdopt process_job_receipt
  | ResGarbageCollect process_job_garbage_collection_receipt

definition plain_common :: "process_job_operation \<Rightarrow> process_job_id option \<Rightarrow> string \<Rightarrow> process_job_receipt_common" where
  "plain_common op i summary = \<lparr>rc_operation = op, rc_id = i, rc_backend = None, rc_status = None,
     rc_backend_ref = None, rc_profile = None, rc_summary = summary, rc_error = None\<rparr>"

fun into_receipt :: "process_job_tool_result \<Rightarrow> process_job_tool_receipt" where
  "into_receipt (ResStart r) = into_tool_receipt r"
| "into_receipt (ResPoll r) = into_tool_receipt r"
| "into_receipt (ResWait r) = into_tool_receipt r"
| "into_receipt (ResKill r) = into_tool_receipt r"
| "into_receipt (ResRestart r) = into_tool_receipt r"
| "into_receipt (ResWriteStdin r) = into_tool_receipt r"
| "into_receipt (ResCloseStdin r) = into_tool_receipt r"
| "into_receipt (ResAdopt r) = into_tool_receipt r"
| "into_receipt (ResList jobs) = \<lparr>tr_common = plain_common OpList None
     (''Listed '' @ show_nat (length jobs) @ '' process jobs''), tr_payload = PayloadList jobs\<rparr>"
| "into_receipt (ResLog chunk) = \<lparr>tr_common = plain_common OpLog (Some (ch_id chunk))
     (''Read '' @ show_nat (length (ch_text chunk)) @ '' bytes of process job log''), tr_payload = PayloadLog chunk\<rparr>"
| "into_receipt (ResGarbageCollect r) =
     \<lparr>tr_common = plain_common OpGarbageCollect None (gc_summary r), tr_payload = PayloadGarbageCollect r\<rparr>"

section \<open>Native logs stay below the log directory\<close>

definition path_safe :: "char \<Rightarrow> bool" where
  "path_safe c \<longleftrightarrow> is_ascii_alphanumeric c \<or> c \<in> {CHR ''-'', CHR ''_'', CHR ''.''}"

lemma safe_path_char_single: "\<exists>c. safe_path_char ch = [c] \<and> path_safe c"
  by (auto simp: safe_path_char_def path_safe_def split: list.splits)

lemma sanitize_nonempty: "sanitize_log_path_component job = [] \<longleftrightarrow> job = []"
proof -
  have "concat (map safe_path_char chs) = [] \<longleftrightarrow> chs = []" for chs
    using safe_path_char_single by (cases chs) (auto, metis list.distinct(1))
  then show ?thesis by (simp add: sanitize_log_path_component_def)
qed

lemma sanitize_safe: "c \<in> set (sanitize_log_path_component job) \<Longrightarrow> path_safe c"
  unfolding sanitize_log_path_component_def
  by (auto, metis safe_path_char_single set_ConsD empty_iff list.set(1))

lemma slash_not_safe: "\<not> path_safe (CHR ''/'')"
  by (simp add: path_safe_def is_ascii_alphanumeric_def is_ascii_uppercase_def is_ascii_lowercase_def is_ascii_digit_def)

lemma safe_not_continuation: "path_safe c \<Longrightarrow> \<not> is_continuation c"
  by (auto simp: path_safe_def is_continuation_def is_ascii_alphanumeric_def is_ascii_uppercase_def
      is_ascii_lowercase_def is_ascii_digit_def)

lemma str_chars_ascii: "list_all (\<lambda>c. \<not> is_continuation c) s \<Longrightarrow> str_chars s = map (\<lambda>c. [c]) s"
proof (induction s)
  case (Cons c s)
  then have "takeWhile is_continuation s = [] \<and> dropWhile is_continuation s = s" by (cases s) auto
  with Cons show ?case by simp
qed simp

lemma sanitize_id: "list_all path_safe job \<Longrightarrow> sanitize_log_path_component job = job"
proof -
  assume safe: "list_all path_safe job"
  then have "str_chars job = map (\<lambda>c. [c]) job"
    by (intro str_chars_ascii) (auto simp: list_all_iff dest: safe_not_continuation)
  moreover have "concat (map (safe_path_char \<circ> (\<lambda>c. [c])) job) = job"
    using safe by (induction job) (auto simp: safe_path_char_def path_safe_def)
  ultimately show ?thesis by (simp add: sanitize_log_path_component_def)
qed

text \<open>A dot is only produced by a dot.\<close>

lemma safe_path_char_dot: "safe_path_char ch = ''.'' \<longleftrightarrow> ch = ''.''"
  by (auto simp: safe_path_char_def split: list.splits if_splits)

lemma sanitize_dots: "sanitize_log_path_component job = ''..'' \<longleftrightarrow> job = ''..''"
proof
  assume s: "sanitize_log_path_component job = ''..''"
  have len: "length (concat (map safe_path_char chs)) = length chs" for chs
    using safe_path_char_single by (induction chs) (auto, metis length_Cons list.size(3) One_nat_def)
  have "length (str_chars job) = 2"
    using s len [of "str_chars job"] by (simp add: sanitize_log_path_component_def)
  then obtain a b where ab: "str_chars job = [a, b]" by (auto simp: numeral_2_eq_2 length_Suc_conv)
  moreover obtain x y where "safe_path_char a = [x]" "safe_path_char b = [y]"
    using safe_path_char_single by metis
  ultimately have "safe_path_char a = ''.''" "safe_path_char b = ''.''"
    using s by (simp_all add: sanitize_log_path_component_def)
  then have "str_chars job = [''.'', ''.'']" using ab safe_path_char_dot by simp
  then have "concat (str_chars job) = ''..''" by simp
  then show "job = ''..''" by simp
next
  assume "job = ''..''"
  then show "sanitize_log_path_component job = ''..''" by (simp add: sanitize_id path_safe_def)
qed

lemma path_components_pair:
  assumes "CHR ''/'' \<notin> set d" "d \<noteq> []" "CHR ''/'' \<notin> set f" "f \<notin> {[], ''.''}"
  shows "path_components (path_join d f) = [d, f]"
proof -
  have f: "\<not> prefix ''/'' f" and d: "\<not> prefix ''/'' d"
    using assms(1,3) by (auto simp: prefix_def)
  have "\<not> suffix ''/'' d" using assms(1) by (auto simp: suffix_def)
  then have j: "path_join d f = d @ CHR ''/'' # f" using f assms(2) by (simp add: path_join_def)
  have "\<not> prefix ''/'' (d @ CHR ''/'' # f)" using assms(1,2) by (cases d) auto
  moreover have "split_on (CHR ''/'') (d @ CHR ''/'' # f) = [d, f]"
    using assms(1,3) by (simp add: split_on_append split_on_absent)
  ultimately show ?thesis using assms(2,4) by (simp add: j path_components_def)
qed

lemma stream_suffix_plain:
  "CHR ''/'' \<notin> set (stream_suffix s)" "stream_suffix s \<notin> {[], ''.'', ''..''}"
  by (cases s; simp)+

lemma path_components_file:
  assumes "CHR ''/'' \<notin> set f" "f \<noteq> []" shows "path_components f = [f]"
  using assms by (cases f) (auto simp: path_components_def split_on_absent Let_def)

lemma native_id_safe: "is_blake3_native job \<Longrightarrow> list_all path_safe job"
proof -
  assume a: "is_blake3_native job"
  then obtain d where j: "job = PROCESS_JOB_ID_PREFIX @ d" and d: "list_all is_ascii_hexdigit d"
    by (auto simp: is_blake3_native_def Let_def prefix_def)
  have "is_ascii_hexdigit c \<Longrightarrow> path_safe c" for c
    by (auto simp: is_ascii_hexdigit_def path_safe_def is_ascii_alphanumeric_def is_ascii_uppercase_def
        is_ascii_lowercase_def)
  moreover have "list_all path_safe PROCESS_JOB_ID_PREFIX" by code_simp
  ultimately show ?thesis using j d by (auto simp: list_all_iff)
qed

lemma stream_suffix_inj: "stream_suffix s = stream_suffix t \<Longrightarrow> s = t"
  by (cases s; cases t; simp)

lemma reference_inj:
  assumes "ll_reference (for_stream j s) = ll_reference (for_stream k t)"
  shows "sanitize_log_path_component j = sanitize_log_path_component k \<and> s = t"
proof -
  let ?j = "sanitize_log_path_component j" and ?k = "sanitize_log_path_component k"
  have "?j @ CHR ''/'' # stream_suffix s = ?k @ CHR ''/'' # stream_suffix t"
    using assms by (simp add: for_stream_def Let_def)
  moreover have "CHR ''/'' \<notin> set ?j" "CHR ''/'' \<notin> set ?k" using sanitize_safe slash_not_safe by blast+
  ultimately have "?j = ?k \<and> stream_suffix s = stream_suffix t"
    by (metis split_on_append split_on_absent stream_suffix_plain(1) list.inject)
  then show ?thesis using stream_suffix_inj by blast
qed

text \<open>The log file of a job is the file of its stream in one directory of its own: the
  relative path has the sanitised id and the file name as its only components, and a parent
  component appears exactly for the id of two dots. Jobs with a native (hashed) id never escape, and
  two of them share a log reference only when they are the same job and stream.\<close>

lemma native_log_path_confined:
  "path_components (ll_relative_path (for_stream job s)) =
     (if job = [] then [] else [sanitize_log_path_component job]) @ [stream_suffix s] \<and>
   (''..'' \<in> set (path_components (ll_relative_path (for_stream job s))) \<longleftrightarrow> job = ''..'') \<and>
   (is_blake3_native job \<and> is_blake3_native job' \<and>
      ll_reference (for_stream job s) = ll_reference (for_stream job' s') \<longrightarrow> job = job' \<and> s = s')"
proof (intro conjI impI)
  show c: "path_components (ll_relative_path (for_stream job s)) =
     (if job = [] then [] else [sanitize_log_path_component job]) @ [stream_suffix s]"
  proof (cases "job = []")
    case True
    then show ?thesis using stream_suffix_plain [of s]
      by (simp add: for_stream_def path_join_def sanitize_nonempty path_components_file Let_def)
  next
    case False
    moreover have "CHR ''/'' \<notin> set (sanitize_log_path_component job)"
      using sanitize_safe slash_not_safe by blast
    ultimately show ?thesis using stream_suffix_plain [of s]
      by (simp add: for_stream_def Let_def path_components_pair sanitize_nonempty)
  qed
  show "''..'' \<in> set (path_components (ll_relative_path (for_stream job s))) \<longleftrightarrow> job = ''..''"
  proof -
    have "''..'' \<noteq> stream_suffix s" by (cases s) simp_all
    moreover have "(''..'' = sanitize_log_path_component job) = (job = ''..'')"
      using sanitize_dots [of job] by metis
    ultimately show ?thesis unfolding c by (cases "job = []") simp_all
  qed
  assume a: "is_blake3_native job \<and> is_blake3_native job' \<and>
    ll_reference (for_stream job s) = ll_reference (for_stream job' s')"
  then have "sanitize_log_path_component job = sanitize_log_path_component job' \<and> s = s'"
    by (intro reference_inj) simp
  moreover have "sanitize_log_path_component job = job" "sanitize_log_path_component job' = job'"
    using a by (simp_all only: sanitize_id native_id_safe)
  ultimately show "job = job'" "s = s'" by simp_all
qed

end
