(* ===== verification/Process_Job_Events.thy ===== *)
theory Process_Job_Events
  imports Process_Jobs
begin

text \<open>
  What leaves a process job for other eyes, from \<^verbatim>\<open>crates/clankers-tool-host/src/process_jobs.rs\<close> and
  \<^verbatim>\<open>crates/clankers-runtime/src/process_jobs.rs\<close>: the redaction policy, the identity envelope whose
  hash is the public id of a job, and the notification policy with its rate limit. The hash function
  and the debug rendering of a status are arguments. The notification store and the sink are
  functions over a world.
\<close>

section \<open>Redaction\<close>

definition PROCESS_JOB_REDACTED :: string where "PROCESS_JOB_REDACTED = ''[REDACTED]''"

definition PROCESS_JOB_SENSITIVE_MARKERS :: "string list" where
  "PROCESS_JOB_SENSITIVE_MARKERS = [''authorization'', ''bearer '', ''cookie'', ''password'', ''passwd'',
     ''secret'', ''token'', ''api_key'', ''apikey'', ''access_key'', ''credential'']"

definition contains_sensitive_process_job_marker :: "string \<Rightarrow> bool" where
  "contains_sensitive_process_job_marker t \<longleftrightarrow>
     (let lowered = to_ascii_lowercase t in list_ex (\<lambda>marker. contains_str lowered marker) PROCESS_JOB_SENSITIVE_MARKERS)"

definition is_sensitive_process_job_key :: "string \<Rightarrow> bool" where
  "is_sensitive_process_job_key k \<longleftrightarrow>
     (let lowered = to_ascii_lowercase k in list_ex (\<lambda>marker. contains_str lowered marker) PROCESS_JOB_SENSITIVE_MARKERS)"

text \<open>The horizontal ellipsis, U+2026.\<close>

definition ellipsis :: string where "ellipsis = bytes_of [226, 128, 166]"

fun bound_loop :: "nat \<Rightarrow> nat \<Rightarrow> string list \<Rightarrow> string \<Rightarrow> string" where
  "bound_loop max_chars i [] bounded = bounded"
| "bound_loop max_chars i (ch # chs) bounded =
     (if i \<ge> max_chars then bounded @ ellipsis else bound_loop max_chars (Suc i) chs (bounded @ ch))"

definition bound_chars :: "string \<Rightarrow> nat \<Rightarrow> string" where
  "bound_chars v max_chars = bound_loop max_chars 0 (str_chars v) []"

record process_job_redaction_policy =
  max_preview_chars :: nat
  max_excerpt_chars :: nat
  max_metadata_value_chars :: nat

definition default_redaction_policy :: process_job_redaction_policy where
  "default_redaction_policy =
     \<lparr>max_preview_chars = 160, max_excerpt_chars = 512, max_metadata_value_chars = 128\<rparr>"

definition safe_text :: "string \<Rightarrow> nat \<Rightarrow> string" where
  "safe_text raw max_chars = (let trimmed = trim raw
     in if trimmed = [] then []
        else if contains_sensitive_process_job_marker trimmed then PROCESS_JOB_REDACTED
        else bound_chars trimmed max_chars)"

definition safe_command_preview :: "process_job_redaction_policy \<Rightarrow> string \<Rightarrow> string" where
  "safe_command_preview p raw = safe_text raw (max_preview_chars p)"

definition safe_log_excerpt :: "process_job_redaction_policy \<Rightarrow> string \<Rightarrow> string" where
  "safe_log_excerpt p raw = safe_text raw (max_excerpt_chars p)"

definition safe_metadata_value :: "process_job_redaction_policy \<Rightarrow> string \<Rightarrow> string \<Rightarrow> string" where
  "safe_metadata_value p k v =
     (if is_sensitive_process_job_key k \<or> contains_sensitive_process_job_marker v then PROCESS_JOB_REDACTED
      else bound_chars v (max_metadata_value_chars p))"

definition safe_identity_metadata :: "process_job_redaction_policy \<Rightarrow> string_map \<Rightarrow> string_map" where
  "safe_identity_metadata p m =
     map (\<lambda>(k, v). (k, safe_metadata_value p k v))
       (filter (\<lambda>(k, v). prefix ''identity.'' k \<or> k = ''profile'') m)"

section \<open>The identity envelope\<close>

definition PROCESS_JOB_IDENTITY_DOMAIN :: string where
  "PROCESS_JOB_IDENTITY_DOMAIN = ''clankers.process-job.identity''"

definition PROCESS_JOB_IDENTITY_VERSION :: u8 where "PROCESS_JOB_IDENTITY_VERSION = 1"

record process_job_identity_envelope =
  en_version :: u8
  en_domain :: string
  en_backend :: process_job_backend_kind
  en_owner :: process_job_owner_scope
  en_command_preview :: string
  en_cwd :: process_job_cwd
  en_profile :: "string option"
  en_request_nonce :: string
  en_metadata :: string_map

definition for_start_request :: "start_process_job_request \<Rightarrow> string \<Rightarrow> process_job_identity_envelope" where
  "for_start_request r nonce = \<lparr>en_version = PROCESS_JOB_IDENTITY_VERSION,
     en_domain = PROCESS_JOB_IDENTITY_DOMAIN, en_backend = st_backend r, en_owner = st_owner r,
     en_command_preview = safe_command_preview default_redaction_policy (st_command_preview r),
     en_cwd = st_cwd r, en_profile = bt_get (st_metadata r) ''profile'', en_request_nonce = nonce,
     en_metadata = safe_identity_metadata default_redaction_policy (st_metadata r)\<rparr>"

fun owner_kind :: "process_job_owner_scope \<Rightarrow> string" where
  "owner_kind (Session _) = ''session''"
| "owner_kind (Workspace _) = ''workspace''"
| "owner_kind (User _) = ''user''"
| "owner_kind DaemonGlobal = ''daemon_global''"

fun owner_value :: "process_job_owner_scope \<Rightarrow> string option" where
  "owner_value (Session v) = Some v"
| "owner_value (Workspace v) = Some v"
| "owner_value (User v) = Some v"
| "owner_value DaemonGlobal = None"

fun cwd_kind :: "process_job_cwd \<Rightarrow> string" where
  "cwd_kind Inherited = ''inherited''"
| "cwd_kind (Explicit _) = ''explicit''"

fun cwd_path :: "process_job_cwd \<Rightarrow> string option" where
  "cwd_path Inherited = None"
| "cwd_path (Explicit p) = Some p"

definition or_empty :: "string option \<Rightarrow> string" where
  "or_empty v = (case v of None \<Rightarrow> [] | Some s \<Rightarrow> s)"

definition identity_fields :: "process_job_identity_envelope \<Rightarrow> (string \<times> string) list" where
  "identity_fields e =
     [(''version'', show_nat (unat (en_version e))), (''domain'', en_domain e),
      (''backend'', backend_label (en_backend e)), (''owner.kind'', owner_kind (en_owner e)),
      (''owner.value'', or_empty (owner_value (en_owner e))), (''command_preview'', en_command_preview e),
      (''cwd.kind'', cwd_kind (en_cwd e)), (''cwd.path'', or_empty (cwd_path (en_cwd e))),
      (''profile'', or_empty (en_profile e)), (''request_nonce'', en_request_nonce e)] @
     map (\<lambda>(k, v). (''metadata.'' @ k, v)) (en_metadata e)"

definition canonical_field :: "string \<times> string \<Rightarrow> string" where
  "canonical_field = (\<lambda>(k, v). show_nat (length k) @ '':'' @ k @ ''='' @ show_nat (length v) @ '':'' @ v @ [CHR 0x0A])"

text \<open>The sort is the stable sort of the standard library by key.\<close>

definition canonical_bytes :: "process_job_identity_envelope \<Rightarrow> string" where
  "canonical_bytes e = ''clankers-process-job-identity-v1'' @ [CHR 0x0A] @
     concat (map canonical_field (sort_key fst (identity_fields e)))"

definition derive_id :: "(string \<Rightarrow> string) \<Rightarrow> process_job_identity_envelope \<Rightarrow> process_job_id" where
  "derive_id blake3_hex e = PROCESS_JOB_ID_PREFIX @ blake3_hex (canonical_bytes e)"

section \<open>Notifications\<close>

definition MAX_PROCESS_JOB_WATCH_PATTERNS :: nat where "MAX_PROCESS_JOB_WATCH_PATTERNS = 8"
definition MAX_PROCESS_JOB_WATCH_PATTERN_LEN :: nat where "MAX_PROCESS_JOB_WATCH_PATTERN_LEN = 128"
definition PROCESS_JOB_WATCH_RATE_LIMIT_TICKS :: nat where "PROCESS_JOB_WATCH_RATE_LIMIT_TICKS = 15"
definition PROCESS_JOB_WATCH_SUPPRESSION_LIMIT :: u32 where "PROCESS_JOB_WATCH_SUPPRESSION_LIMIT = 3"

definition bounded_watch_patterns :: "process_job_notification_policy \<Rightarrow> string list" where
  "bounded_watch_patterns p =
     take MAX_PROCESS_JOB_WATCH_PATTERNS
       (List.map_filter (\<lambda>pattern. let trimmed = trim pattern
          in if trimmed \<noteq> [] then Some (take_chars MAX_PROCESS_JOB_WATCH_PATTERN_LEN trimmed) else None)
        (watch_patterns p))"

datatype process_job_notification_kind = Completion | WatchPattern nat string

record process_job_notification_decision =
  nd_kind :: process_job_notification_kind
  nd_summary :: string
  nd_log_excerpt :: "string option"

record process_job_notification_observation =
  ob_status :: process_job_status
  ob_line :: "string option"
  ob_tick :: u64

fun redact_kind :: "process_job_redaction_policy \<Rightarrow> process_job_notification_kind \<Rightarrow> process_job_notification_kind" where
  "redact_kind p (WatchPattern i pattern) = WatchPattern i (safe_command_preview p pattern)"
| "redact_kind p Completion = Completion"

definition safe_notification_decision ::
  "process_job_redaction_policy \<Rightarrow> process_job_notification_decision \<Rightarrow> process_job_notification_decision" where
  "safe_notification_decision p d = \<lparr>nd_kind = redact_kind p (nd_kind d),
     nd_summary = safe_log_excerpt p (nd_summary d),
     nd_log_excerpt = map_option (safe_log_excerpt p) (nd_log_excerpt d)\<rparr>"

record process_job_watch_pattern_state =
  last_delivered_tick :: "u64 option"
  suppressed_matches :: u32
  disabled :: bool

definition watch_default :: process_job_watch_pattern_state where
  "watch_default = \<lparr>last_delivered_tick = None, suppressed_matches = 0, disabled = False\<rparr>"

record process_job_notification_policy_state =
  completion_sent :: bool
  watch_states :: "process_job_watch_pattern_state list"

definition notification_default :: process_job_notification_policy_state where
  "notification_default = \<lparr>completion_sent = False, watch_states = []\<rparr>"

text \<open>One pattern against one line: the new state of the pattern and whether the match is delivered.\<close>

definition watch_step ::
  "u64 \<Rightarrow> string \<Rightarrow> string \<Rightarrow> process_job_watch_pattern_state \<Rightarrow> process_job_watch_pattern_state \<times> bool" where
  "watch_step tick line pattern ws =
     (if \<not> contains_str line pattern then (ws, False)
      else if disabled ws then (ws, False)
      else if (case last_delivered_tick ws of None \<Rightarrow> False
               | Some prev \<Rightarrow> unat tick - unat prev < PROCESS_JOB_WATCH_RATE_LIMIT_TICKS)
      then
        let n = saturating_add (suppressed_matches ws) 1
        in (ws\<lparr>suppressed_matches := n,
               disabled := (if n \<ge> PROCESS_JOB_WATCH_SUPPRESSION_LIMIT then True else disabled ws)\<rparr>, False)
      else (ws\<lparr>last_delivered_tick := Some tick, suppressed_matches := 0\<rparr>, True))"

definition watch_decision :: "nat \<Rightarrow> string \<Rightarrow> string \<Rightarrow> process_job_notification_decision" where
  "watch_decision i pattern line = safe_notification_decision default_redaction_policy
     \<lparr>nd_kind = WatchPattern i pattern,
      nd_summary = ''process job matched readiness pattern '' @ show_nat i @ '': '' @ pattern,
      nd_log_excerpt = Some line\<rparr>"

fun watch_loop ::
  "u64 \<Rightarrow> string \<Rightarrow> nat \<Rightarrow> string list \<Rightarrow> process_job_watch_pattern_state list \<Rightarrow>
   process_job_watch_pattern_state list \<times> process_job_notification_decision list" where
  "watch_loop tick line i [] wss = (wss, [])"
| "watch_loop tick line i (pattern # patterns) wss =
     (let (ws, delivered) = watch_step tick line pattern (wss ! i);
          (wss, ds) = watch_loop tick line (Suc i) patterns (wss[i := ws])
      in (wss, (if delivered then [watch_decision i pattern line] else []) @ ds))"

definition resize_states ::
  "nat \<Rightarrow> process_job_watch_pattern_state list \<Rightarrow> process_job_watch_pattern_state list" where
  "resize_states n wss = (if length wss < n then wss @ replicate (n - length wss) watch_default else wss)"

definition completion_decision ::
  "(process_job_status \<Rightarrow> string) \<Rightarrow> process_job_notification_observation \<Rightarrow> process_job_notification_decision" where
  "completion_decision debug_status ob = safe_notification_decision default_redaction_policy
     \<lparr>nd_kind = Completion,
      nd_summary = ''process job reached terminal status: '' @ debug_status (ob_status ob),
      nd_log_excerpt = ob_line ob\<rparr>"

definition evaluate ::
  "(process_job_status \<Rightarrow> string) \<Rightarrow> process_job_notification_policy \<Rightarrow> process_job_notification_observation \<Rightarrow>
   process_job_notification_policy_state \<Rightarrow>
   process_job_notification_policy_state \<times> process_job_notification_decision list" where
  "evaluate debug_status policy ob s =
     (let complete = is_terminal (ob_status ob) \<and> notify_on_complete policy \<and> \<not> completion_sent s;
          s = (if complete then s\<lparr>completion_sent := True\<rparr> else s);
          ds = (if complete then [completion_decision debug_status ob] else [])
      in case ob_line ob of
           None \<Rightarrow> (s, ds)
         | Some line \<Rightarrow>
             let patterns = bounded_watch_patterns policy;
                 (wss, ws_ds) = watch_loop (ob_tick ob) line 0 patterns (resize_states (length patterns) (watch_states s))
             in (s\<lparr>watch_states := wss\<rparr>, ds @ ws_ds))"

section \<open>Events\<close>

record process_job_notification_event =
  ne_event_id :: process_job_event_id
  ne_id :: process_job_id
  ne_backend :: process_job_backend_kind
  ne_owner :: process_job_owner_scope
  ne_kind :: process_job_notification_kind
  ne_status :: process_job_status
  ne_created_at :: process_job_timestamp
  ne_summary :: string
  ne_log_excerpt :: "string option"
  ne_log_refs :: "process_job_log_ref list"

definition redact_with ::
  "process_job_redaction_policy \<Rightarrow> process_job_notification_event \<Rightarrow> process_job_notification_event" where
  "redact_with p e = e\<lparr>ne_summary := safe_log_excerpt p (ne_summary e),
     ne_log_excerpt := map_option (safe_log_excerpt p) (ne_log_excerpt e),
     ne_kind := redact_kind p (ne_kind e)\<rparr>"

text \<open>The store and the sink may fail with an error of type \<open>'e\<close>.\<close>

definition persist_and_deliver_notification ::
  "(process_job_notification_event \<Rightarrow> 'w \<Rightarrow> ('e + unit) \<times> 'w) \<Rightarrow>
   (process_job_notification_event \<Rightarrow> 'w \<Rightarrow> ('e + unit) \<times> 'w) \<Rightarrow>
   process_job_notification_event \<Rightarrow> 'w \<Rightarrow> ('e + unit) \<times> 'w" where
  "persist_and_deliver_notification record_notification deliver event w =
     (let event = redact_with default_redaction_policy event
      in case record_notification event w of
           (Inl e, w) \<Rightarrow> (Inl e, w)
         | (Inr _, w) \<Rightarrow> deliver event w)"

fun dedup_loop ::
  "process_job_event_id set \<Rightarrow> process_job_notification_event list \<Rightarrow> process_job_notification_event list" where
  "dedup_loop seen [] = []"
| "dedup_loop seen (e # es) =
     (if ne_event_id e \<in> seen then dedup_loop seen es else e # dedup_loop (insert (ne_event_id e) seen) es)"

definition deduplicate_notification_events ::
  "process_job_notification_event list \<Rightarrow> process_job_notification_event list" where
  "deduplicate_notification_events es = dedup_loop {} es"

definition replay_authorized_notifications ::
  "(process_job_caller_scope \<Rightarrow> process_job_event_id option \<Rightarrow> 'w \<Rightarrow> ('e + process_job_notification_event list) \<times> 'w) \<Rightarrow>
   process_job_caller_scope \<Rightarrow> process_job_event_id option \<Rightarrow> 'w \<Rightarrow> ('e + process_job_notification_event list) \<times> 'w" where
  "replay_authorized_notifications list_notifications caller after w =
     (case list_notifications caller after w of
        (Inl e, w) \<Rightarrow> (Inl e, w)
      | (Inr es, w) \<Rightarrow> (Inr (deduplicate_notification_events es), w))"

section \<open>Redaction leaves no marker and bounds the length\<close>

lemma bound_loop_eq:
  "i \<le> n \<Longrightarrow> bound_loop n i chs b = b @ concat (take (n - i) chs) @ (if length chs > n - i then ellipsis else [])"
  by (induction n i chs b rule: bound_loop.induct) (auto simp: Suc_diff_le take_Cons' not_le)

lemma bound_chars_eq: "bound_chars v n = take_chars n v @ (if char_count v > n then ellipsis else [])"
  by (simp add: bound_chars_def bound_loop_eq take_chars_def char_count_def)

lemma char_count_bound_chars: "char_count (bound_chars v n) \<le> n + 1"
proof -
  have "str_chars (take_chars n v @ ellipsis) = str_chars (take_chars n v) @ str_chars ellipsis"
    by (rule str_chars_append) code_simp
  moreover have "length (str_chars ellipsis) = 1" by code_simp
  ultimately have "char_count (take_chars n v @ ellipsis) = char_count (take_chars n v) + 1"
    by (simp add: char_count_def)
  then show ?thesis by (simp add: bound_chars_eq char_count_take_chars)
qed

lemma sublist_append_disjoint:
  assumes "sublist p (s @ e)" and "set p \<inter> set e = {}"
  shows "sublist p s"
proof -
  obtain x y where eq: "s @ e = x @ p @ y" using assms(1) by (auto simp: sublist_def)
  show ?thesis
  proof (cases "p = []")
    case False
    have "length (x @ p) \<le> length s"
    proof (rule ccontr)
      assume "\<not> ?thesis"
      then have lt: "length s < length (x @ p)" by simp
      have "last p = (x @ p) ! (length (x @ p) - 1)" using False by (cases p rule: rev_cases) (simp_all add: nth_append)
      also have "\<dots> = (s @ e) ! (length (x @ p) - 1)"
        using False by (simp add: eq nth_append)
      also have "\<dots> = e ! (length (x @ p) - 1 - length s)"
      proof -
        have "\<not> length (x @ p) - 1 < length s" using lt by linarith
        then show ?thesis by (simp only: nth_append if_False)
      qed
      also have "\<dots> \<in> set e"
      proof (rule nth_mem)
        have "length s + length e = length (x @ p) + length y" using arg_cong [OF eq, of length] by simp
        then show "length (x @ p) - 1 - length s < length e" using lt by linarith
      qed
      finally show False using assms(2) False last_in_set by blast
    qed
    then have "prefix (x @ p) s" using eq by (metis append.assoc prefix_append prefixI prefix_length_prefix)
    then show ?thesis by (auto simp: prefix_def sublist_def)
  qed simp
qed

lemma markers_ascii: "list_all (\<lambda>m. list_all (\<lambda>c. c \<notin> set (to_ascii_lowercase ellipsis)) m) PROCESS_JOB_SENSITIVE_MARKERS"
  by code_simp

lemma sensitive_iff: "contains_sensitive_process_job_marker t \<longleftrightarrow>
    (\<exists>m \<in> set PROCESS_JOB_SENSITIVE_MARKERS. sublist m (to_ascii_lowercase t))"
  unfolding contains_sensitive_process_job_marker_def Let_def list_ex_iff contains_str_iff ..

lemma bound_chars_not_sensitive:
  assumes "\<not> contains_sensitive_process_job_marker v"
  shows "\<not> contains_sensitive_process_job_marker (bound_chars v n)"
proof
  assume "contains_sensitive_process_job_marker (bound_chars v n)"
  then obtain m where m: "m \<in> set PROCESS_JOB_SENSITIVE_MARKERS"
      "sublist m (to_ascii_lowercase (bound_chars v n))" unfolding sensitive_iff by blast
  have "set m \<inter> set (to_ascii_lowercase ellipsis) = {}"
    using markers_ascii m(1) by (auto simp: list_all_iff)
  then have "sublist m (to_ascii_lowercase (take_chars n v))"
    using m(2) sublist_append_disjoint [of m "to_ascii_lowercase (take_chars n v)" "to_ascii_lowercase ellipsis"]
    by (cases "n < char_count v") (simp_all add: bound_chars_eq)
  moreover have "prefix (to_ascii_lowercase (take_chars n v)) (to_ascii_lowercase v)"
    by (intro prefix_to_ascii_lowercase take_chars_prefix)
  ultimately have "sublist m (to_ascii_lowercase v)"
    by (meson prefix_imp_sublist sublist_order.order.trans)
  with assms m(1) show False unfolding sensitive_iff by blast
qed

definition redacted :: "nat \<Rightarrow> string \<Rightarrow> bool" where
  "redacted n t \<longleftrightarrow> \<not> contains_sensitive_process_job_marker t \<and> char_count t \<le> max (n + 1) 10"

lemma redacted_placeholder: "redacted n PROCESS_JOB_REDACTED"
proof -
  have "\<not> contains_sensitive_process_job_marker PROCESS_JOB_REDACTED" "char_count PROCESS_JOB_REDACTED = 10"
    by code_simp+
  then show ?thesis by (simp add: redacted_def)
qed

lemma safe_text_redacted: "redacted n (safe_text raw n)"
proof -
  have "redacted n []"
  proof -
    have "\<not> contains_sensitive_process_job_marker []" "char_count [] = 0" by code_simp+
    then show ?thesis by (simp add: redacted_def)
  qed
  moreover have "redacted n (bound_chars t n)" if "\<not> contains_sensitive_process_job_marker t" for t
    using char_count_bound_chars [of t n] bound_chars_not_sensitive [OF that]
    by (auto simp: redacted_def intro: order_trans)
  ultimately show ?thesis using redacted_placeholder by (simp add: safe_text_def Let_def)
qed

definition kind_redacted :: "process_job_notification_kind \<Rightarrow> bool" where
  "kind_redacted k = (case k of Completion \<Rightarrow> True | WatchPattern i p \<Rightarrow> redacted 160 p)"

lemma redact_kind_redacted: "kind_redacted (redact_kind default_redaction_policy k)"
  by (cases k) (simp_all add: kind_redacted_def safe_command_preview_def default_redaction_policy_def safe_text_redacted)

lemma safe_log_excerpt_redacted: "redacted 512 (safe_log_excerpt default_redaction_policy t)"
  by (simp add: safe_log_excerpt_def default_redaction_policy_def safe_text_redacted)

definition decision_redacted :: "process_job_notification_decision \<Rightarrow> bool" where
  "decision_redacted d \<longleftrightarrow> kind_redacted (nd_kind d) \<and> redacted 512 (nd_summary d) \<and>
     pred_option (redacted 512) (nd_log_excerpt d)"

definition event_redacted :: "process_job_notification_event \<Rightarrow> bool" where
  "event_redacted e \<longleftrightarrow> kind_redacted (ne_kind e) \<and> redacted 512 (ne_summary e) \<and>
     pred_option (redacted 512) (ne_log_excerpt e)"

lemma safe_notification_decision_redacted:
  "decision_redacted (safe_notification_decision default_redaction_policy d)"
  by (simp add: decision_redacted_def safe_notification_decision_def redact_kind_redacted
      safe_log_excerpt_redacted option.pred_map pred_option_def option.set_map)

lemma redact_with_redacted: "event_redacted (redact_with default_redaction_policy e)"
  by (simp add: event_redacted_def redact_with_def redact_kind_redacted
      safe_log_excerpt_redacted option.pred_map pred_option_def option.set_map)

lemma watch_loop_redacted:
  "watch_loop tick line i patterns wss = (wss', ds) \<Longrightarrow> d \<in> set ds \<Longrightarrow> decision_redacted d"
proof (induction tick line i patterns wss arbitrary: wss' ds rule: watch_loop.induct)
  case (2 tick line i pattern patterns wss)
  then show ?case
    by (auto simp: Let_def watch_decision_def safe_notification_decision_redacted split: prod.splits if_splits)
qed simp

text \<open>C29 (safety). No notification shows a secret: every decision the policy takes, and every event that
  reaches the store or the sink, has a summary, an excerpt and a pattern without any of the sensitive
  markers in any case of letters, and of bounded length. The store and the sink behave the same
  whatever they would do with other events.\<close>

theorem notifications_redacted:
  assumes "d \<in> set (snd (evaluate debug_status policy ob s))"
    and agree: "\<And>e. event_redacted e \<Longrightarrow> record_notification e = other_store e \<and> deliver e = other_sink e"
  shows "decision_redacted d \<and>
    persist_and_deliver_notification record_notification deliver event w =
      persist_and_deliver_notification other_store other_sink event w"
proof
  show "decision_redacted d"
    using assms(1) watch_loop_redacted
    by (auto simp: evaluate_def Let_def completion_decision_def safe_notification_decision_redacted
        split: option.splits prod.splits if_splits)
  let ?e = "redact_with default_redaction_policy event"
  have "record_notification ?e = other_store ?e" "deliver ?e = other_sink ?e"
    using agree [OF redact_with_redacted] by simp_all
  then show "persist_and_deliver_notification record_notification deliver event w =
      persist_and_deliver_notification other_store other_sink event w"
    by (simp add: persist_and_deliver_notification_def Let_def split: prod.split sum.split)
qed

definition secret_observation :: process_job_notification_observation where
  "secret_observation = \<lparr>ob_status = JobKilled, ob_line = Some ''API_KEY=x'', ob_tick = 4\<rparr>"

theorem notifications_redacted_witness:
  "snd (evaluate (\<lambda>_. ''Killed'') \<lparr>notify_on_complete = True, watch_patterns = []\<rparr> secret_observation notification_default) =
     [completion_decision (\<lambda>_. ''Killed'') secret_observation] \<and>
   decision_redacted (completion_decision (\<lambda>_. ''Killed'') secret_observation)"
proof -
  have e: "snd (evaluate (\<lambda>_. ''Killed'') \<lparr>notify_on_complete = True, watch_patterns = []\<rparr> secret_observation notification_default) =
     [completion_decision (\<lambda>_. ''Killed'') secret_observation]"
    by (simp add: evaluate_def secret_observation_def notification_default_def bounded_watch_patterns_def
        resize_states_def List.map_filter_simps)
  have "decision_redacted (completion_decision (\<lambda>_. ''Killed'') secret_observation)"
    by (rule notifications_redacted [where s = notification_default and ob = secret_observation
          and debug_status = "\<lambda>_. ''Killed''" and policy = "\<lparr>notify_on_complete = True, watch_patterns = []\<rparr>"
          and record_notification = "\<lambda>_ w. (Inr (), w)" and other_store = "\<lambda>_ w. (Inr (), w)"
          and deliver = "\<lambda>_ w. (Inl ''closed'', w)" and other_sink = "\<lambda>_ w. (Inl ''closed'', w)", THEN conjunct1])
      (simp_all add: e)
  with e show ?thesis by blast
qed

section \<open>Runs of the notification policy\<close>

text \<open>A pattern without a state of its own yet has the default one.\<close>

definition watch_state :: "nat \<Rightarrow> process_job_notification_policy_state \<Rightarrow> process_job_watch_pattern_state" where
  "watch_state j s = (if j < length (watch_states s) then watch_states s ! j else watch_default)"

definition delivers :: "nat \<Rightarrow> process_job_notification_decision list \<Rightarrow> bool" where
  "delivers j ds \<longleftrightarrow> list_ex (\<lambda>d. case nd_kind d of WatchPattern i p \<Rightarrow> i = j | Completion \<Rightarrow> False) ds"

definition completions :: "process_job_notification_decision list \<Rightarrow> nat" where
  "completions ds = length (filter (\<lambda>d. nd_kind d = Completion) ds)"

fun run_evaluate ::
  "(process_job_status \<Rightarrow> string) \<Rightarrow> process_job_notification_policy \<Rightarrow> process_job_notification_policy_state \<Rightarrow>
   process_job_notification_observation list \<Rightarrow>
   process_job_notification_policy_state \<times> (nat \<times> process_job_notification_decision list) list" where
  "run_evaluate dbg policy s [] = (s, [])"
| "run_evaluate dbg policy s (ob # obs) =
     (let (s, ds) = evaluate dbg policy ob s; (s, run) = run_evaluate dbg policy s obs
      in (s, (unat (ob_tick ob), ds) # run))"

definition delivered_ticks :: "nat \<Rightarrow> (nat \<times> process_job_notification_decision list) list \<Rightarrow> nat list" where
  "delivered_ticks j run = map fst (filter (\<lambda>(t, ds). delivers j ds) run)"

definition watch_ok :: "process_job_watch_pattern_state \<Rightarrow> bool" where
  "watch_ok ws \<longleftrightarrow> suppressed_matches ws \<le> 3 \<and> (disabled ws \<longleftrightarrow> suppressed_matches ws = 3)"

lemma saturating_add_small: "n \<le> 3 \<Longrightarrow> saturating_add n 1 = (n + 1 :: u32)"
proof -
  assume "n \<le> (3 :: u32)"
  then have "unat n \<le> 3" by (simp add: word_le_nat_alt)
  then show ?thesis by (simp add: saturating_add_def)
qed

lemma watch_ok_step:
  assumes "watch_ok ws"
  shows "watch_ok (fst (watch_step tick line pattern ws))"
proof -
  have step: "n \<noteq> 3 \<Longrightarrow> n \<le> 3 \<Longrightarrow> n + 1 \<le> 3 \<and> (3 \<le> n + 1 \<longleftrightarrow> n + 1 = 3)" for n :: u32
    by (metis antisym inc_le order.not_eq_order_implies_strict)
  show ?thesis
    using assms step [of "suppressed_matches ws"]
    by (auto simp: watch_step_def watch_ok_def PROCESS_JOB_WATCH_SUPPRESSION_LIMIT_def saturating_add_small Let_def)
qed

lemma watch_step_delivered:
  "snd (watch_step tick line pattern ws) \<Longrightarrow>
     \<not> disabled ws \<and> last_delivered_tick (fst (watch_step tick line pattern ws)) = Some tick \<and>
     (\<forall>prev. last_delivered_tick ws = Some prev \<longrightarrow> unat prev + 15 \<le> unat tick)"
  by (auto simp: watch_step_def PROCESS_JOB_WATCH_RATE_LIMIT_TICKS_def Let_def split: if_splits option.splits)

lemma watch_step_silent:
  "\<not> snd (watch_step tick line pattern ws) \<Longrightarrow>
     last_delivered_tick (fst (watch_step tick line pattern ws)) = last_delivered_tick ws"
  by (auto simp: watch_step_def Let_def split: if_splits)

lemma watch_step_disabled: "disabled ws \<Longrightarrow> watch_step tick line pattern ws = (ws, False)"
  by (simp add: watch_step_def)

lemma delivers_watch_decision: "delivers j (watch_decision i pattern line # ds) \<longleftrightarrow> i = j \<or> delivers j ds"
  by (simp add: delivers_def watch_decision_def safe_notification_decision_def)

lemma delivers_append: "delivers j (xs @ ys) \<longleftrightarrow> delivers j xs \<or> delivers j ys"
  by (simp add: delivers_def)

lemma watch_loop_nth:
  "watch_loop tick line i patterns wss = (wss', ds) \<Longrightarrow> i + length patterns \<le> length wss \<Longrightarrow>
     length wss' = length wss \<and>
     wss' ! j = (if i \<le> j \<and> j < i + length patterns
       then fst (watch_step tick line (patterns ! (j - i)) (wss ! j)) else wss ! j) \<and>
     (delivers j ds \<longleftrightarrow> i \<le> j \<and> j < i + length patterns \<and> snd (watch_step tick line (patterns ! (j - i)) (wss ! j))) \<and>
     completions ds = 0"
proof (induction tick line i patterns wss arbitrary: wss' ds rule: watch_loop.induct)
  case (1 tick line i wss)
  then show ?case by (auto simp: delivers_def completions_def)
next
  case (2 tick line i pattern patterns wss)
  obtain ws dl where st: "watch_step tick line pattern (wss ! i) = (ws, dl)" by fastforce
  obtain wss1 ds1 where lp: "watch_loop tick line (Suc i) patterns (wss[i := ws]) = (wss1, ds1)" by fastforce
  have eq: "wss' = wss1" "ds = (if dl then [watch_decision i pattern line] else []) @ ds1"
    using 2(2) by (simp_all add: st lp)
  have "Suc i + length patterns \<le> length (wss[i := ws])" using 2(3) by simp
  note ih = 2(1) [OF st [symmetric] refl lp this]
  have c: "completions ds = 0"
    using ih by (simp add: eq completions_def watch_decision_def safe_notification_decision_def)
  have i: "i < length wss" using 2(3) by simp
  consider "j < i" | "j = i" | "i < j" by linarith
  then show ?case
  proof cases
    case 3
    then have k: "j - i = Suc (j - Suc i)" by simp
    have "delivers j ds = delivers j ds1" using 3 by (simp add: eq delivers_watch_decision)
    then show ?thesis using ih c 3 k by (auto simp: eq(1))
  next
    case 2
    then show ?thesis using ih c st i by (auto simp: eq delivers_watch_decision)
  next
    case 1
    then show ?thesis using ih c by (auto simp: eq delivers_watch_decision)
  qed
qed

lemma resize_states_nth:
  "j < length (resize_states n wss) \<Longrightarrow>
     resize_states n wss ! j = (if j < length wss then wss ! j else watch_default)"
  by (auto simp: resize_states_def nth_append)

lemma length_resize_states: "length (resize_states n wss) = max n (length wss)"
  by (simp add: resize_states_def)

text \<open>One observation, from the point of view of one pattern and of completion.\<close>

definition completes ::
  "process_job_notification_policy \<Rightarrow> process_job_notification_observation \<Rightarrow> process_job_notification_policy_state \<Rightarrow> bool" where
  "completes policy ob s \<longleftrightarrow> is_terminal (ob_status ob) \<and> notify_on_complete policy \<and> \<not> completion_sent s"

lemma evaluate_eq:
  "evaluate dbg policy ob s =
     (let s1 = (if completes policy ob s then s\<lparr>completion_sent := True\<rparr> else s);
          ds1 = (if completes policy ob s then [completion_decision dbg ob] else [])
      in case ob_line ob of
           None \<Rightarrow> (s1, ds1)
         | Some line \<Rightarrow>
             (case watch_loop (ob_tick ob) line 0 (bounded_watch_patterns policy)
                 (resize_states (length (bounded_watch_patterns policy)) (watch_states s)) of
                (wss, ws_ds) \<Rightarrow> (s1\<lparr>watch_states := wss\<rparr>, ds1 @ ws_ds)))"
  by (simp add: evaluate_def completes_def Let_def split: option.splits)

lemma watch_loop_resized:
  assumes "watch_loop tick line 0 ps (resize_states (length ps) wss) = (wss', ws_ds)"
  shows "length wss' = max (length ps) (length wss) \<and> completions ws_ds = 0 \<and>
    wss' ! j = (if j < length ps then fst (watch_step tick line (ps ! j) (resize_states (length ps) wss ! j))
      else resize_states (length ps) wss ! j) \<and>
    (delivers j ws_ds \<longleftrightarrow> j < length ps \<and> snd (watch_step tick line (ps ! j) (resize_states (length ps) wss ! j)))"
  using watch_loop_nth [OF assms, of j] by (simp add: length_resize_states)

lemma evaluate_watch:
  assumes "evaluate dbg policy ob s = (s', ds)"
  shows "(\<exists>line pattern. ob_line ob = Some line \<and>
            watch_state j s' = fst (watch_step (ob_tick ob) line pattern (watch_state j s)) \<and>
            (delivers j ds \<longleftrightarrow> snd (watch_step (ob_tick ob) line pattern (watch_state j s)))) \<or>
         watch_state j s' = watch_state j s \<and> \<not> delivers j ds"
proof -
  define s1 where "s1 = (if completes policy ob s then s\<lparr>completion_sent := True\<rparr> else s)"
  define ds1 where "ds1 = (if completes policy ob s then [completion_decision dbg ob] else [])"
  have nd: "\<not> delivers j ds1"
    by (simp add: ds1_def delivers_def completion_decision_def safe_notification_decision_def)
  have ws1: "watch_states s1 = watch_states s" by (simp add: s1_def)
  note eq = assms [unfolded evaluate_eq Let_def, folded s1_def ds1_def]
  show ?thesis
  proof (cases "ob_line ob")
    case None
    with eq have "s' = s1" "ds = ds1" by simp_all
    then show ?thesis using nd by (simp add: watch_state_def ws1)
  next
    case (Some line)
    let ?ps = "bounded_watch_patterns policy" and ?wss = "resize_states (length (bounded_watch_patterns policy)) (watch_states s)"
    obtain wss' ws_ds where lp: "watch_loop (ob_tick ob) line 0 ?ps ?wss = (wss', ws_ds)" by fastforce
    have eq': "s' = s1\<lparr>watch_states := wss'\<rparr>" "ds = ds1 @ ws_ds"
      using eq Some lp by simp_all
    note nth = watch_loop_resized [OF lp, of j]
    have st: "watch_state j s = (if j < length ?wss then ?wss ! j else watch_default)"
      by (simp add: watch_state_def resize_states_nth) (simp add: length_resize_states)
    have dl: "delivers j ds \<longleftrightarrow> delivers j ws_ds" using nd by (simp add: eq' delivers_append)
    show ?thesis
    proof (cases "j < length ?ps")
      case True
      then have "watch_state j s' = wss' ! j" "watch_state j s = ?wss ! j"
        using nth by (simp add: eq' watch_state_def, simp only: st) (simp add: length_resize_states)
      then show ?thesis using nth True Some dl by auto
    next
      case False
      then have "watch_state j s' = watch_state j s"
        using nth by (simp only: st) (simp add: eq' watch_state_def length_resize_states)
      then show ?thesis using nth False dl by blast
    qed
  qed
qed

lemma completions_simps:
  "completions [] = 0" "completions (completion_decision dbg ob # ds) = Suc (completions ds)"
  by (simp_all add: completions_def completion_decision_def safe_notification_decision_def)

lemma completions_append: "completions (xs @ ys) = completions xs + completions ys"
  by (simp add: completions_def)

lemma evaluate_completion:
  assumes "evaluate dbg policy ob s = (s', ds)"
  shows "(completions ds = 0 \<and> completion_sent s' = completion_sent s) \<or>
    (completions ds = 1 \<and> \<not> completion_sent s \<and> completion_sent s')"
proof -
  have "completions ws_ds = 0"
    if "watch_loop (ob_tick ob) line 0 ps (resize_states (length ps) wss) = (wss', ws_ds)" for line ps wss wss' ws_ds
    using watch_loop_resized [OF that] by simp
  then show ?thesis using assms
    by (cases "completes policy ob s")
      (auto simp: evaluate_eq Let_def completes_def completions_simps completions_append split: option.splits prod.splits)
qed

lemma delivered_ticks_Cons:
  "delivered_ticks j ((t, ds) # run) = (if delivers j ds then [t] else []) @ delivered_ticks j run"
  by (simp add: delivered_ticks_def)

lemma run_watch_ok:
  "run_evaluate dbg policy s obs = (s', run) \<Longrightarrow> watch_ok (watch_state j s) \<Longrightarrow> watch_ok (watch_state j s')"
proof (induction obs arbitrary: s s' run)
  case (Cons ob obs)
  obtain s1 ds where e: "evaluate dbg policy ob s = (s1, ds)" by fastforce
  obtain s2 run2 where r: "run_evaluate dbg policy s1 obs = (s2, run2)" by fastforce
  have "watch_ok (watch_state j s1)" using evaluate_watch [OF e, of j] Cons.prems(2) watch_ok_step by auto
  then show ?case using Cons.IH [OF r] Cons.prems(1) by (simp add: e r)
qed simp

lemma run_disabled:
  "run_evaluate dbg policy s obs = (s', run) \<Longrightarrow> disabled (watch_state j s) \<Longrightarrow> delivered_ticks j run = []"
proof (induction obs arbitrary: s s' run)
  case Nil
  then show ?case by (simp add: delivered_ticks_def)
next
  case (Cons ob obs)
  obtain s1 ds where e: "evaluate dbg policy ob s = (s1, ds)" by fastforce
  obtain s2 run2 where r: "run_evaluate dbg policy s1 obs = (s2, run2)" by fastforce
  have "disabled (watch_state j s1) \<and> \<not> delivers j ds"
    using evaluate_watch [OF e, of j] Cons.prems(2) by (auto simp: watch_step_disabled)
  then show ?case using Cons.IH [OF r] Cons.prems(1) by (auto simp: e r delivered_ticks_Cons)
qed

lemma run_spaced:
  "run_evaluate dbg policy s obs = (s', run) \<Longrightarrow>
     sorted_wrt (\<lambda>t u. t + 15 \<le> u) (delivered_ticks j run) \<and>
     (\<forall>prev t. last_delivered_tick (watch_state j s) = Some prev \<longrightarrow> t \<in> set (delivered_ticks j run) \<longrightarrow> unat prev + 15 \<le> t)"
proof (induction obs arbitrary: s s' run)
  case Nil
  then show ?case by (simp add: delivered_ticks_def)
next
  case (Cons ob obs)
  obtain s1 ds where e: "evaluate dbg policy ob s = (s1, ds)" by fastforce
  obtain s2 run2 where r: "run_evaluate dbg policy s1 obs = (s2, run2)" by fastforce
  note ih = Cons.IH [OF r]
  have run: "run = (unat (ob_tick ob), ds) # run2" using Cons.prems by (simp add: e r)
  show ?case
  proof (cases "delivers j ds")
    case False
    then have "last_delivered_tick (watch_state j s1) = last_delivered_tick (watch_state j s)"
      using evaluate_watch [OF e, of j] watch_step_silent by auto
    then show ?thesis using ih False by (simp add: run delivered_ticks_Cons)
  next
    case True
    then obtain line pattern where st: "watch_state j s1 = fst (watch_step (ob_tick ob) line pattern (watch_state j s))"
      "snd (watch_step (ob_tick ob) line pattern (watch_state j s))" using evaluate_watch [OF e, of j] by blast
    note dlv = watch_step_delivered [OF st(2), folded st(1)]
    then have "\<forall>t \<in> set (delivered_ticks j run2). unat (ob_tick ob) + 15 \<le> t" using ih by blast
    moreover have "\<forall>prev. last_delivered_tick (watch_state j s) = Some prev \<longrightarrow> unat prev + 15 \<le> unat (ob_tick ob)"
      using dlv by blast
    ultimately show ?thesis using ih True by (fastforce simp: run delivered_ticks_Cons)
  qed
qed

lemma run_completions:
  "run_evaluate dbg policy s obs = (s', run) \<Longrightarrow>
     completions (concat (map snd run)) \<le> (if completion_sent s then 0 else 1)"
proof (induction obs arbitrary: s s' run)
  case Nil
  then show ?case by (simp add: completions_def)
next
  case (Cons ob obs)
  obtain s1 ds where e: "evaluate dbg policy ob s = (s1, ds)" by fastforce
  obtain s2 run2 where r: "run_evaluate dbg policy s1 obs = (s2, run2)" by fastforce
  show ?case
    using evaluate_completion [OF e] Cons.IH [OF r] Cons.prems
    by (auto simp: e r completions_append split: if_splits)
qed

text \<open>The notification policy is rate limited in every run of observations from the
  start, whatever the order of their ticks: completion is announced at most once; two announcements
  of one watch pattern are at least fifteen ticks apart; a pattern has at most three suppressed
  matches and is disabled exactly at three, and a disabled pattern is never announced again.\<close>

lemma notification_rate_limited:
  assumes run: "run_evaluate debug_status policy notification_default obs = (s, run)"
  shows "completions (concat (map snd run)) \<le> 1 \<and>
    sorted_wrt (\<lambda>t u. t + 15 \<le> u) (delivered_ticks j run) \<and>
    watch_ok (watch_state j s) \<and>
    (disabled (watch_state j s) \<longrightarrow> delivered_ticks j (snd (run_evaluate debug_status policy s later)) = [])"
proof (intro conjI impI)
  have "watch_ok (watch_state j notification_default)"
    by (simp add: watch_state_def notification_default_def watch_default_def watch_ok_def)
  then show "watch_ok (watch_state j s)" by (rule run_watch_ok [OF run])
  show "completions (concat (map snd run)) \<le> 1"
    using run_completions [OF run] by (simp add: notification_default_def)
  show "sorted_wrt (\<lambda>t u. t + 15 \<le> u) (delivered_ticks j run)" using run_spaced [OF run] by blast
  assume "disabled (watch_state j s)"
  then show "delivered_ticks j (snd (run_evaluate debug_status policy s later)) = []"
    using run_disabled [OF prod.collapse [symmetric]] by blast
qed

definition watch_ok_policy :: process_job_notification_policy where
  "watch_ok_policy = \<lparr>notify_on_complete = True, watch_patterns = [''ok'']\<rparr>"

definition ok_line :: "u64 \<Rightarrow> process_job_notification_observation" where
  "ok_line tick = \<lparr>ob_status = JobRunning, ob_line = Some ''ok'', ob_tick = tick\<rparr>"

lemma watch_ok_policy_patterns: "bounded_watch_patterns watch_ok_policy = [''ok'']"
proof -
  have "trim ''ok'' = ''ok''" by (rule trim_plain) (simp_all add: is_graphic_def)
  moreover have "take_chars 128 ''ok'' = ''ok''" by (rule take_chars_all) code_simp
  ultimately show ?thesis
    by (simp add: bounded_watch_patterns_def watch_ok_policy_def MAX_PROCESS_JOB_WATCH_PATTERNS_def
        MAX_PROCESS_JOB_WATCH_PATTERN_LEN_def List.map_filter_simps)
qed

lemma evaluate_ok_line:
  "length (watch_states s) \<le> 1 \<Longrightarrow> evaluate dbg watch_ok_policy (ok_line tick) s =
     (case watch_step tick ''ok'' ''ok'' (watch_state 0 s) of (ws, dl) \<Rightarrow>
        (s\<lparr>watch_states := [ws]\<rparr>, if dl then [watch_decision 0 ''ok'' ''ok''] else []))"
  by (cases "watch_states s")
    (simp_all add: evaluate_eq completes_def ok_line_def watch_ok_policy_patterns resize_states_def watch_state_def split_beta)

section \<open>The identity envelope determines its bytes and conversely\<close>

lemma show_nat_digits: "c \<in> set (show_nat n) \<Longrightarrow> is_ascii_digit c"
proof (induction n rule: show_nat.induct)
  case (1 n)
  show ?case
  proof (cases "n < 10")
    case True
    then show ?thesis using "1.prems" by (auto simp: show_nat_lt10 is_ascii_digit_def)
  next
    case False
    have "n mod 10 < 10" by simp
    then have "is_ascii_digit (char_of (48 + n mod 10))" by (auto simp: is_ascii_digit_def)
    then show ?thesis using "1.prems" "1.IH" [OF False] by (auto simp: show_nat_ge10 [OF False])
  qed
qed

text \<open>A length in front of a text makes the rest of the bytes unambiguous.\<close>

lemma show_nat_colon_inj:
  assumes "show_nat m @ CHR '':'' # s = show_nat n @ CHR '':'' # t"
  shows "m = n \<and> s = t"
proof -
  have "CHR '':'' \<notin> set (show_nat k)" for k
    using show_nat_digits [of "CHR '':''" k] by (auto simp: is_ascii_digit_def)
  then have "takeWhile (\<lambda>c. c \<noteq> CHR '':'') (show_nat k @ CHR '':'' # u) = show_nat k" for k u
    by (auto simp: takeWhile_append)
  then have "show_nat m = show_nat n" using assms by metis
  then show ?thesis using assms by simp
qed

lemma length_prefixed_inj:
  assumes "show_nat (length s) @ '':'' @ s @ u = show_nat (length t) @ '':'' @ t @ v"
  shows "s = t \<and> u = v"
  using show_nat_colon_inj [of "length s" "s @ u" "length t" "t @ v"] assms by auto

lemma canonical_field_inj:
  assumes "canonical_field f @ u = canonical_field g @ v"
  shows "f = g \<and> u = v"
proof -
  obtain k a l b where f: "f = (k, a)" "g = (l, b)" by (metis surj_pair)
  have "k = l \<and> ''='' @ show_nat (length a) @ '':'' @ a @ [CHR 0x0A] @ u =
      ''='' @ show_nat (length b) @ '':'' @ b @ [CHR 0x0A] @ v"
    using assms by (intro length_prefixed_inj) (simp add: canonical_field_def f)
  then have "k = l" "show_nat (length a) @ '':'' @ a @ [CHR 0x0A] @ u = show_nat (length b) @ '':'' @ b @ [CHR 0x0A] @ v"
    by simp_all
  with length_prefixed_inj [OF this(2)] show ?thesis by (simp add: f)
qed

lemma canonical_field_nonempty: "canonical_field f \<noteq> []"
  by (cases f) (simp add: canonical_field_def)

lemma canonical_fields_inj:
  "concat (map canonical_field fs) = concat (map canonical_field gs) \<Longrightarrow> fs = gs"
proof (induction fs arbitrary: gs)
  case Nil
  then show ?case using canonical_field_nonempty by (cases gs) auto
next
  case (Cons f fs)
  then obtain g gs' where gs: "gs = g # gs'" using canonical_field_nonempty by (cases gs) auto
  with Cons.prems have "f = g \<and> concat (map canonical_field fs) = concat (map canonical_field gs')"
    by (intro canonical_field_inj) simp
  then show ?case using Cons.IH gs by blast
qed

text \<open>The keys of the fixed fields and those of the metadata are disjoint.\<close>

definition fixed_keys :: "string list" where
  "fixed_keys = [''version'', ''domain'', ''backend'', ''owner.kind'', ''owner.value'', ''command_preview'',
     ''cwd.kind'', ''cwd.path'', ''profile'', ''request_nonce'']"

lemma fixed_keys_not_metadata: "list_all (\<lambda>k. \<not> prefix ''metadata.'' k) fixed_keys"
  by (simp add: fixed_keys_def)

lemma map_fst_identity_fields: "map fst (identity_fields e) = fixed_keys @ map (\<lambda>k. ''metadata.'' @ k) (map fst (en_metadata e))"
  by (simp add: identity_fields_def fixed_keys_def split_beta comp_def)

lemma distinct_identity_fields:
  assumes "bt_inv (en_metadata e)"
  shows "distinct (map fst (identity_fields e))"
proof -
  have "distinct (map (\<lambda>k. ''metadata.'' @ k) (map fst (en_metadata e)))"
    using assms by (simp add: bt_inv_def strict_sorted_iff distinct_map inj_on_def)
  moreover have "distinct fixed_keys" by (simp add: fixed_keys_def)
  moreover have "set fixed_keys \<inter> set (map (\<lambda>k. ''metadata.'' @ k) (map fst (en_metadata e))) = {}"
    using fixed_keys_not_metadata by (auto simp: list_all_iff prefix_def)
  ultimately show ?thesis unfolding map_fst_identity_fields by (simp only: distinct_append)
qed

lemma canonical_bytes_fields:
  assumes "canonical_bytes e = canonical_bytes e'"
    and "bt_inv (en_metadata e)" "bt_inv (en_metadata e')"
  shows "map_of (identity_fields e) = map_of (identity_fields e')"
proof -
  have "sort_key fst (identity_fields e) = sort_key fst (identity_fields e')"
    using assms(1) by (intro canonical_fields_inj) (simp add: canonical_bytes_def)
  then have "set (identity_fields e) = set (identity_fields e')" by (metis set_sort)
  then show ?thesis
    using distinct_identity_fields [OF assms(2)] distinct_identity_fields [OF assms(3)] by (metis map_of_eqI map_of_inject_set)
qed

lemma map_of_fixed:
  "map_of (identity_fields e) ''version'' = Some (show_nat (unat (en_version e)))"
  "map_of (identity_fields e) ''domain'' = Some (en_domain e)"
  "map_of (identity_fields e) ''backend'' = Some (backend_label (en_backend e))"
  "map_of (identity_fields e) ''owner.kind'' = Some (owner_kind (en_owner e))"
  "map_of (identity_fields e) ''owner.value'' = Some (or_empty (owner_value (en_owner e)))"
  "map_of (identity_fields e) ''command_preview'' = Some (en_command_preview e)"
  "map_of (identity_fields e) ''cwd.kind'' = Some (cwd_kind (en_cwd e))"
  "map_of (identity_fields e) ''cwd.path'' = Some (or_empty (cwd_path (en_cwd e)))"
  "map_of (identity_fields e) ''profile'' = Some (or_empty (en_profile e))"
  "map_of (identity_fields e) ''request_nonce'' = Some (en_request_nonce e)"
  by (simp_all add: identity_fields_def)

lemma map_of_metadata: "map_of (identity_fields e) (''metadata.'' @ k) = bt_get (en_metadata e) k"
proof -
  have "map_of (map (\<lambda>(k, v). (''metadata.'' @ k, v)) m) (''metadata.'' @ k) = map_of m k" for m :: string_map
    by (induction m) auto
  then show ?thesis by (simp add: identity_fields_def bt_get_map_of)
qed

lemma backend_label_inj: "backend_label a = backend_label b \<Longrightarrow> a = b"
  by (cases a; cases b; simp)

lemma owner_fields_inj:
  "owner_kind a = owner_kind b \<Longrightarrow> or_empty (owner_value a) = or_empty (owner_value b) \<Longrightarrow> a = b"
  by (cases a; cases b; simp add: or_empty_def)

lemma cwd_fields_inj:
  "cwd_kind a = cwd_kind b \<Longrightarrow> or_empty (cwd_path a) = or_empty (cwd_path b) \<Longrightarrow> a = b"
  by (cases a; cases b; simp add: or_empty_def)

text \<open>The public id of a job binds everything in its identity envelope: when two envelopes
  with well-formed metadata get the same id, either their canonical bytes differ and collide under
  the hash, or the envelopes agree in every field, except that a missing profile and an empty
  profile name are not told apart.\<close>

lemma derive_id_binding:
  assumes id: "derive_id blake3_hex e = derive_id blake3_hex e'"
    and wf: "bt_inv (en_metadata e)" "bt_inv (en_metadata e')"
    and no_collision: "blake3_hex (canonical_bytes e) = blake3_hex (canonical_bytes e') \<Longrightarrow>
      canonical_bytes e = canonical_bytes e'"
  shows "e' = e\<lparr>en_profile := en_profile e'\<rparr> \<and> or_empty (en_profile e) = or_empty (en_profile e')"
proof -
  have "canonical_bytes e = canonical_bytes e'" using id no_collision by (simp add: derive_id_def)
  then have "map_of (identity_fields e) k = map_of (identity_fields e') k" for k
    using canonical_bytes_fields wf by metis
  note fields = this [of "''version''"] this [of "''domain''"] this [of "''backend''"] this [of "''owner.kind''"]
    this [of "''owner.value''"] this [of "''command_preview''"] this [of "''cwd.kind''"] this [of "''cwd.path''"]
    this [of "''profile''"] this [of "''request_nonce''"]
  have "en_metadata e = en_metadata e'"
  proof (rule bt_ext [OF wf])
    fix k
    show "bt_get (en_metadata e) k = bt_get (en_metadata e') k"
      using \<open>\<And>k. map_of (identity_fields e) k = map_of (identity_fields e') k\<close> map_of_metadata by metis
  qed
  moreover have "en_version e = en_version e'" using fields(1) by (simp add: map_of_fixed unsigned_word_eqI)
  moreover have "en_backend e = en_backend e'" "en_owner e = en_owner e'" "en_cwd e = en_cwd e'"
    using fields(3-5,7,8) backend_label_inj owner_fields_inj cwd_fields_inj by (simp_all add: map_of_fixed)
  ultimately show ?thesis
    using fields(2,6,9,10) by (cases e; cases e') (simp add: map_of_fixed)
qed

definition sample_envelope :: "string \<Rightarrow> process_job_identity_envelope" where
  "sample_envelope nonce = \<lparr>en_version = 1, en_domain = PROCESS_JOB_IDENTITY_DOMAIN, en_backend = Native,
     en_owner = Session ''s'', en_command_preview = ''ls'', en_cwd = Inherited, en_profile = None,
     en_request_nonce = nonce, en_metadata = [(''identity.a'', ''1'')]\<rparr>"

section \<open>Replay\<close>

lemma dedup_loop_ids:
  "distinct (map ne_event_id (dedup_loop seen es)) \<and>
   ne_event_id ` set (dedup_loop seen es) = ne_event_id ` set es - seen"
  by (induction seen es rule: dedup_loop.induct) auto

lemma dedup_loop_first:
  "e \<in> set (dedup_loop seen es) \<longleftrightarrow>
     ne_event_id e \<notin> seen \<and> find (\<lambda>x. ne_event_id x = ne_event_id e) es = Some e"
  by (induction seen es rule: dedup_loop.induct) auto

lemma deduplicate_events:
  "distinct (map ne_event_id (deduplicate_notification_events es)) \<and>
   (e \<in> set (deduplicate_notification_events es) \<longleftrightarrow> find (\<lambda>x. ne_event_id x = ne_event_id e) es = Some e)"
  using dedup_loop_ids [of "{}" es] dedup_loop_first [of e "{}" es]
  by (simp add: deduplicate_notification_events_def)

end
