(* ===== verification/Process_Job_Lifecycle.thy ===== *)
theory Process_Job_Lifecycle
  imports Process_Jobs "HOL-Library.Multiset"
begin

text \<open>
  The life of a process job record: reconciliation with what a backend reports after a restart, the
  bounded list shown to users, and retention (\<^verbatim>\<open>crates/clankers-tool-host/src/process_jobs.rs\<close>), and the
  startup loop that reconciles all persisted jobs (\<^verbatim>\<open>crates/clankers-runtime/src/process_jobs.rs\<close>).
\<close>

section \<open>Reconciliation\<close>

datatype process_job_reconciliation_state =
  RecRunning | RecReattached | RecReattachedLogIncomplete | RecExited | RecLostAfterRestart
  | RecBackendUnavailable | RecOrphaned | RecIdentityMismatch

definition is_adopted :: "process_job_reconciliation_state \<Rightarrow> bool" where
  "is_adopted s \<longleftrightarrow> s \<in> {RecRunning, RecReattached, RecReattachedLogIncomplete}"

definition is_fail_closed :: "process_job_reconciliation_state \<Rightarrow> bool" where
  "is_fail_closed s \<longleftrightarrow> s \<in> {RecBackendUnavailable, RecOrphaned, RecIdentityMismatch}"

record process_job_reconciliation_report =
  rr_checked :: nat
  rr_updated :: nat
  rr_unavailable :: nat
  rr_skipped_terminal :: nat

definition report_default :: process_job_reconciliation_report where
  "report_default = \<lparr>rr_checked = 0, rr_updated = 0, rr_unavailable = 0, rr_skipped_terminal = 0\<rparr>"

definition record_observation ::
  "process_job_reconciliation_state \<Rightarrow> process_job_reconciliation_report \<Rightarrow> process_job_reconciliation_report" where
  "record_observation state r = (let r = r\<lparr>rr_checked := rr_checked r + 1\<rparr>
     in if state = RecBackendUnavailable then r\<lparr>rr_unavailable := rr_unavailable r + 1\<rparr>
        else r\<lparr>rr_updated := rr_updated r + 1\<rparr>)"

datatype process_job_log_reconciliation_state =
  LogComplete | LogIncomplete | LogUnavailable string | LogBackendReferenced

record native_process_job_identity =
  ni_pid :: u32
  ni_process_group :: "int option"
  ni_start_time_ticks :: "u64 option"
  ni_command_fingerprint :: "string option"
  ni_cwd_fingerprint :: "string option"

record native_process_job_observation =
  no_pid :: u32
  no_process_group :: "int option"
  no_start_time_ticks :: "u64 option"
  no_command_fingerprint :: "string option"
  no_cwd_fingerprint :: "string option"

fun compare_facts :: "(string option \<times> string option) list \<Rightarrow> bool \<Rightarrow> process_job_reconciliation_state" where
  "compare_facts [] matching = (if matching then RecReattachedLogIncomplete else RecIdentityMismatch)"
| "compare_facts ((Some l, Some r) # fs) matching =
     (if l = r then compare_facts fs True else RecIdentityMismatch)"
| "compare_facts (_ # fs) matching = compare_facts fs matching"

definition show_u64 :: "u64 \<Rightarrow> string" where "show_u64 n = show_nat (unat n)"

definition verify_observation ::
  "native_process_job_identity \<Rightarrow> native_process_job_observation option \<Rightarrow> process_job_reconciliation_state" where
  "verify_observation i ob = (case ob of
     None \<Rightarrow> RecLostAfterRestart
   | Some o' \<Rightarrow>
       if ni_pid i \<noteq> no_pid o' \<or> ni_process_group i \<noteq> no_process_group o' then RecIdentityMismatch
       else compare_facts
         [(map_option show_u64 (ni_start_time_ticks i), map_option show_u64 (no_start_time_ticks o')),
          (ni_command_fingerprint i, no_command_fingerprint o'),
          (ni_cwd_fingerprint i, no_cwd_fingerprint o')] False)"

datatype external_process_job_backend_state =
    ExtRunning
  | ExtSucceeded "int option"
  | ExtFailed "int option" string
  | ExtMissing
  | ExtBackendUnavailable string
  | ExtAmbiguous string

record external_process_job_reconciliation_facts =
  xf_id :: process_job_id
  xf_backend :: process_job_backend_kind
  xf_expected_backend_ref :: backend_ref
  xf_observed_backend_ref :: "backend_ref option"
  xf_state :: external_process_job_backend_state
  xf_log_refs :: "process_job_log_ref list"

record process_job_reconciliation_outcome =
  ro_id :: process_job_id
  ro_backend :: process_job_backend_kind
  ro_backend_ref :: "backend_ref option"
  ro_state :: process_job_reconciliation_state
  ro_log_state :: process_job_log_reconciliation_state
  ro_status :: process_job_status
  ro_log_refs :: "process_job_log_ref list"
  ro_reason :: "string option"

definition missing_ref_text :: string where "missing_ref_text = ''backend reference is missing''"

definition mismatched_ref_text :: string where
  "mismatched_ref_text = ''observed backend reference did not match persisted reference''"

definition external_verdict ::
  "bool \<Rightarrow> external_process_job_backend_state \<Rightarrow>
   process_job_reconciliation_state \<times> process_job_log_reconciliation_state \<times> process_job_status \<times> string option" where
  "external_verdict matching st = (case st of
     ExtMissing \<Rightarrow> (RecOrphaned, LogUnavailable missing_ref_text, JobLostAfterRestart, Some missing_ref_text)
   | ExtBackendUnavailable reason \<Rightarrow>
       (RecBackendUnavailable, LogUnavailable reason, JobBackendUnavailable reason, Some reason)
   | ExtAmbiguous reason \<Rightarrow> (RecIdentityMismatch, LogUnavailable reason, JobLostAfterRestart, Some reason)
   | _ \<Rightarrow>
       if \<not> matching
       then (RecIdentityMismatch, LogUnavailable mismatched_ref_text, JobLostAfterRestart, Some mismatched_ref_text)
       else (case st of
         ExtRunning \<Rightarrow> (RecReattached, LogBackendReferenced, JobRunning, None)
       | ExtSucceeded code \<Rightarrow> (RecExited, LogBackendReferenced, JobSucceeded code, None)
       | ExtFailed code reason \<Rightarrow> (RecExited, LogBackendReferenced, JobFailed code reason, Some reason)))"

definition reconcile_external_backend_reference ::
  "external_process_job_reconciliation_facts \<Rightarrow> process_job_reconciliation_outcome" where
  "reconcile_external_backend_reference f =
     (let matching = (xf_observed_backend_ref f = Some (xf_expected_backend_ref f));
          (state, log_state, status, reason) = external_verdict matching (xf_state f)
      in \<lparr>ro_id = xf_id f, ro_backend = xf_backend f,
          ro_backend_ref = (if is_adopted state \<or> state = RecExited then xf_observed_backend_ref f else None),
          ro_state = state, ro_log_state = log_state, ro_status = status, ro_log_refs = xf_log_refs f,
          ro_reason = reason\<rparr>)"

definition into_summary_update ::
  "process_job_reconciliation_outcome \<Rightarrow> process_job_summary \<Rightarrow> process_job_timestamp \<Rightarrow> process_job_summary" where
  "into_summary_update o' sm updated_at =
     (let sm = sm\<lparr>sm_backend := ro_backend o', sm_backend_ref := ro_backend_ref o', sm_status := ro_status o',
            sm_updated_at := updated_at, sm_log_refs := ro_log_refs o'\<rparr>
      in if is_terminal (sm_status sm) \<and> sm_completed_at sm = None
         then sm\<lparr>sm_completed_at := Some updated_at\<rparr> else sm)"

section \<open>Startup\<close>

text \<open>A backend as the startup loop uses it: its kind, and \<^verbatim>\<open>reconcile\<close>, which may fail. The store lists all
  summaries and replaces a summary by id. \<^verbatim>\<open>Utc::now\<close> is read from the world.\<close>

record ('e, 'w) process_job_runtime =
  list_jobs :: "process_job_filter \<Rightarrow> 'w \<Rightarrow> ('e + process_job_summary list) \<times> 'w"
  upsert_job :: "process_job_summary \<Rightarrow> 'w \<Rightarrow> ('e + unit) \<times> 'w"
  now_of :: "'w \<Rightarrow> process_job_timestamp \<times> 'w"

type_synonym ('e, 'w) process_job_backend =
  "process_job_backend_kind \<times> (process_job_summary \<Rightarrow> 'w \<Rightarrow> ('e + process_job_reconciliation_outcome) \<times> 'w)"

definition no_backend_reason :: "process_job_summary \<Rightarrow> string" where
  "no_backend_reason sm = backend_label (sm_backend sm) @ '' backend is unavailable during startup reconciliation''"

definition no_backend_outcome :: "process_job_summary \<Rightarrow> process_job_reconciliation_outcome" where
  "no_backend_outcome sm = (let reason = no_backend_reason sm
     in \<lparr>ro_id = sm_id sm, ro_backend = sm_backend sm, ro_backend_ref = sm_backend_ref sm,
         ro_state = RecBackendUnavailable, ro_log_state = LogUnavailable reason,
         ro_status = JobBackendUnavailable reason, ro_log_refs = sm_log_refs sm, ro_reason = None\<rparr>)"

fun reconcile_loop ::
  "('e, 'w) process_job_runtime \<Rightarrow> ('e, 'w) process_job_backend list \<Rightarrow> process_job_summary list \<Rightarrow>
   process_job_reconciliation_report \<Rightarrow> 'w \<Rightarrow> ('e + process_job_reconciliation_report) \<times> 'w" where
  "reconcile_loop rt bs [] r w = (Inr r, w)"
| "reconcile_loop rt bs (sm # sms) r w =
     (if is_terminal (sm_status sm)
      then reconcile_loop rt bs sms (r\<lparr>rr_skipped_terminal := rr_skipped_terminal r + 1\<rparr>) w
      else case find (\<lambda>b. fst b = sm_backend sm) bs of
        None \<Rightarrow>
          let (now, w) = now_of rt w
          in case upsert_job rt (into_summary_update (no_backend_outcome sm) sm now) w of
               (Inl e, w) \<Rightarrow> (Inl e, w)
             | (Inr _, w) \<Rightarrow> reconcile_loop rt bs sms (record_observation RecBackendUnavailable r) w
      | Some b \<Rightarrow>
          (case snd b sm w of
             (Inl e, w) \<Rightarrow> (Inl e, w)
           | (Inr o', w) \<Rightarrow>
               let (now, w) = now_of rt w
               in case upsert_job rt (into_summary_update o' sm now) w of
                    (Inl e, w) \<Rightarrow> (Inl e, w)
                  | (Inr _, w) \<Rightarrow> reconcile_loop rt bs sms (record_observation (ro_state o') r) w))"

definition reconcile_persisted_process_jobs ::
  "('e, 'w) process_job_runtime \<Rightarrow> ('e, 'w) process_job_backend list \<Rightarrow> 'w \<Rightarrow>
   ('e + process_job_reconciliation_report) \<times> 'w" where
  "reconcile_persisted_process_jobs rt bs w =
     (case list_jobs rt \<lparr>fl_owner = None, fl_backend = None, fl_include_terminal = True\<rparr> w of
        (Inl e, w) \<Rightarrow> (Inl e, w)
      | (Inr sms, w) \<Rightarrow> reconcile_loop rt bs sms report_default w)"

section \<open>The list shown to users\<close>

datatype process_job_lifecycle_bucket = BucketActive | BucketCompleted

record process_job_projection_bounds =
  max_active :: nat
  max_completed :: nat

definition default_projection_bounds :: process_job_projection_bounds where
  "default_projection_bounds = \<lparr>max_active = 32, max_completed = 32\<rparr>"

record process_job_projection_item =
  pi_id :: process_job_id
  pi_backend :: process_job_backend_kind
  pi_backend_label :: string
  pi_backend_ref :: "backend_ref option"
  pi_capability_hints :: process_job_safe_capability_hints
  pi_lifecycle :: process_job_lifecycle_bucket
  pi_status :: process_job_status
  pi_status_label :: string
  pi_command_preview :: string
  pi_cwd :: process_job_cwd
  pi_started_at :: "process_job_timestamp option"
  pi_updated_at :: process_job_timestamp
  pi_completed_at :: "process_job_timestamp option"
  pi_log_refs :: "process_job_log_ref list"
  pi_profile :: "process_job_profile_receipt_metadata option"

record process_job_list_projection =
  lp_active :: "process_job_projection_item list"
  lp_completed :: "process_job_projection_item list"
  lp_total_active :: nat
  lp_total_completed :: nat
  lp_truncated_active :: bool
  lp_truncated_completed :: bool

definition lifecycle_of :: "process_job_status \<Rightarrow> process_job_lifecycle_bucket" where
  "lifecycle_of st = (if is_terminal st then BucketCompleted else BucketActive)"

definition projection_item :: "process_job_summary \<Rightarrow> process_job_projection_item" where
  "projection_item sm = \<lparr>pi_id = sm_id sm, pi_backend = sm_backend sm,
     pi_backend_label = backend_label (sm_backend sm), pi_backend_ref = sm_backend_ref sm,
     pi_capability_hints = hints_for_backend (sm_backend sm), pi_lifecycle = lifecycle_of (sm_status sm),
     pi_status = sm_status sm, pi_status_label = status_label (sm_status sm),
     pi_command_preview = sm_command_preview sm, pi_cwd = sm_cwd sm, pi_started_at = sm_started_at sm,
     pi_updated_at = sm_updated_at sm, pi_completed_at = sm_completed_at sm, pi_log_refs = sm_log_refs sm,
     pi_profile = sm_profile sm\<rparr>"

fun bucket_loop ::
  "process_job_summary list \<Rightarrow> process_job_projection_item list \<times> process_job_projection_item list \<Rightarrow>
   process_job_projection_item list \<times> process_job_projection_item list" where
  "bucket_loop [] acc = acc"
| "bucket_loop (sm # sms) (active, completed) = (case lifecycle_of (sm_status sm) of
     BucketActive \<Rightarrow> bucket_loop sms (active @ [projection_item sm], completed)
   | BucketCompleted \<Rightarrow> bucket_loop sms (active, completed @ [projection_item sm]))"

text \<open>The comparison of the sort, newest first and then by id, and a stable sort by it.\<close>

definition newer :: "process_job_projection_item \<Rightarrow> process_job_projection_item \<Rightarrow> bool" where
  "newer l r \<longleftrightarrow> pi_updated_at l > pi_updated_at r \<or> (pi_updated_at l = pi_updated_at r \<and> pi_id l \<le> pi_id r)"

fun insert_newer :: "process_job_projection_item \<Rightarrow> process_job_projection_item list \<Rightarrow> process_job_projection_item list" where
  "insert_newer x [] = [x]"
| "insert_newer x (y # ys) = (if newer x y then x # y # ys else y # insert_newer x ys)"

definition sort_newest :: "process_job_projection_item list \<Rightarrow> process_job_projection_item list" where
  "sort_newest xs = foldr insert_newer xs []"

definition project_process_job_list ::
  "process_job_summary list \<Rightarrow> process_job_projection_bounds \<Rightarrow> process_job_list_projection" where
  "project_process_job_list sms bounds =
     (let (active, completed) = bucket_loop sms ([], []);
          active = sort_newest active;
          completed = sort_newest completed
      in \<lparr>lp_active = take (max_active bounds) active, lp_completed = take (max_completed bounds) completed,
          lp_total_active = length active, lp_total_completed = length completed,
          lp_truncated_active = length active > max_active bounds,
          lp_truncated_completed = length completed > max_completed bounds\<rparr>)"

section \<open>Retention\<close>

datatype process_job_retention_class =
  ClassActive | ClassRecentCompleted | ClassFailed | ClassAdopted | ClassNotification | ClassTombstone

definition protects_active_state :: "process_job_retention_class \<Rightarrow> bool" where
  "protects_active_state c \<longleftrightarrow> c \<in> {ClassActive, ClassAdopted}"

record process_job_retention_policy =
  rp_max_age :: "duration option"
  rp_max_records :: "nat option"
  rp_max_log_bytes :: "u64 option"

definition default_retention_policy :: process_job_retention_policy where
  "default_retention_policy = \<lparr>rp_max_age = Some (dur_from_secs 1209600), rp_max_records = Some 1000,
     rp_max_log_bytes = Some 1073741824\<rparr>"

record process_job_retention_metadata =
  md_class :: process_job_retention_class
  md_metadata_retained_until :: "process_job_timestamp option"
  md_log_retained_until :: "process_job_timestamp option"
  md_event_retained_until :: "process_job_timestamp option"
  md_tombstone_retained_until :: "process_job_timestamp option"
  md_policy_ref :: "string option"

fun retention_class :: "process_job_status \<Rightarrow> process_job_retention_class" where
  "retention_class JobRunning = ClassActive"
| "retention_class JobPending = ClassActive"
| "retention_class JobWaiting = ClassActive"
| "retention_class JobReattachedLogIncomplete = ClassAdopted"
| "retention_class (JobBackendUnavailable _) = ClassAdopted"
| "retention_class (JobFailed _ _) = ClassFailed"
| "retention_class JobKilled = ClassFailed"
| "retention_class JobCancelled = ClassFailed"
| "retention_class JobLostAfterRestart = ClassFailed"
| "retention_class (JobSucceeded _) = ClassRecentCompleted"
| "retention_class (JobUnknown _) = ClassTombstone"

definition classify_summary ::
  "process_job_retention_policy \<Rightarrow> process_job_summary \<Rightarrow> string option \<Rightarrow> process_job_retention_metadata" where
  "classify_summary p sm policy_ref =
     (let base = (case sm_completed_at sm of None \<Rightarrow> sm_updated_at sm | Some t \<Rightarrow> t);
          until = Option.bind (rp_max_age p) (add_timestamp_duration base)
      in \<lparr>md_class = retention_class (sm_status sm), md_metadata_retained_until = until,
          md_log_retained_until = until, md_event_retained_until = until,
          md_tombstone_retained_until = until, md_policy_ref = policy_ref\<rparr>)"

datatype process_job_retention_eligibility =
    ProtectActive process_job_id process_job_retention_class
  | KeepUntil process_job_id process_job_timestamp
  | Eligible process_job_id process_job_retention_class "process_job_log_ref list"

definition eligibility_for_summary ::
  "process_job_retention_policy \<Rightarrow> process_job_summary \<Rightarrow> process_job_timestamp \<Rightarrow> string option \<Rightarrow>
   process_job_retention_eligibility" where
  "eligibility_for_summary p sm now policy_ref =
     (let md = classify_summary p sm policy_ref
      in if protects_active_state (md_class md) \<or> \<not> is_terminal (sm_status sm)
         then ProtectActive (sm_id sm) (md_class md)
         else case md_metadata_retained_until md of
           None \<Rightarrow> Eligible (sm_id sm) (md_class md) (sm_log_refs sm)
         | Some until \<Rightarrow>
             if now < until then KeepUntil (sm_id sm) until
             else Eligible (sm_id sm) (md_class md) (sm_log_refs sm))"

section \<open>Reconciliation fails closed\<close>

definition facts_agree :: "(string option \<times> string option) list \<Rightarrow> bool" where
  "facts_agree fs \<longleftrightarrow> list_all (\<lambda>(l, r). l = None \<or> r = None \<or> l = r) fs"

definition facts_comparable :: "(string option \<times> string option) list \<Rightarrow> bool" where
  "facts_comparable fs \<longleftrightarrow> list_ex (\<lambda>(l, r). l \<noteq> None \<and> r \<noteq> None) fs"

lemma compare_facts_eq:
  "compare_facts fs matching =
     (if facts_agree fs \<and> (matching \<or> facts_comparable fs) then RecReattachedLogIncomplete else RecIdentityMismatch)"
  by (induction fs matching rule: compare_facts.induct) (auto simp: facts_agree_def facts_comparable_def)

definition identity_facts ::
  "native_process_job_identity \<Rightarrow> native_process_job_observation \<Rightarrow> (string option \<times> string option) list" where
  "identity_facts i o' =
     [(map_option show_u64 (ni_start_time_ticks i), map_option show_u64 (no_start_time_ticks o')),
      (ni_command_fingerprint i, no_command_fingerprint o'), (ni_cwd_fingerprint i, no_cwd_fingerprint o')]"

lemma external_verdict_running:
  "external_verdict matching st = (state, log_state, status, reason) \<Longrightarrow>
     (is_adopted state \<longleftrightarrow> matching \<and> st = ExtRunning) \<and> (status = JobRunning \<longleftrightarrow> is_adopted state) \<and>
     (is_adopted state \<or> state = RecExited \<longrightarrow> matching) \<and> (\<not> is_adopted state \<longrightarrow> is_terminal status)"
  by (cases st; cases matching) (auto simp: external_verdict_def is_adopted_def)

text \<open>C30 (safety). After a restart a job is taken over only on positive evidence. A native process is
  reattached exactly when it was observed with the same pid and process group, no known fact (start
  time, command, directory) differs, and at least one is known on both sides. An external job counts
  as running exactly when the backend reports the persisted reference and says that it runs; in all
  other cases its new status is terminal, and a reference is kept only if it is the persisted one.\<close>

theorem reconciliation_fails_closed:
  "(is_adopted (verify_observation i ob) \<longleftrightarrow>
      (\<exists>o'. ob = Some o' \<and> ni_pid i = no_pid o' \<and> ni_process_group i = no_process_group o' \<and>
         facts_agree (identity_facts i o') \<and> facts_comparable (identity_facts i o'))) \<and>
   (let r = reconcile_external_backend_reference f
    in ro_id r = xf_id f \<and>
       (ro_status r = JobRunning \<longleftrightarrow>
          xf_observed_backend_ref f = Some (xf_expected_backend_ref f) \<and> xf_state f = ExtRunning) \<and>
       (ro_status r = JobRunning \<or> is_terminal (ro_status r)) \<and>
       ro_backend_ref r \<in> {None, Some (xf_expected_backend_ref f)})"
proof
  have d: "\<not> is_adopted RecIdentityMismatch" "\<not> is_adopted RecLostAfterRestart" "is_adopted RecReattachedLogIncomplete"
    by (simp_all add: is_adopted_def)
  show "is_adopted (verify_observation i ob) \<longleftrightarrow>
      (\<exists>o'. ob = Some o' \<and> ni_pid i = no_pid o' \<and> ni_process_group i = no_process_group o' \<and>
         facts_agree (identity_facts i o') \<and> facts_comparable (identity_facts i o'))"
    using d by (cases ob) (auto simp: verify_observation_def compare_facts_eq identity_facts_def)
  define m where "m \<longleftrightarrow> xf_observed_backend_ref f = Some (xf_expected_backend_ref f)"
  obtain state log_state status reason
    where v: "external_verdict m (xf_state f) = (state, log_state, status, reason)" by (metis surj_pair)
  show "let r = reconcile_external_backend_reference f
    in ro_id r = xf_id f \<and>
       (ro_status r = JobRunning \<longleftrightarrow>
          xf_observed_backend_ref f = Some (xf_expected_backend_ref f) \<and> xf_state f = ExtRunning) \<and>
       (ro_status r = JobRunning \<or> is_terminal (ro_status r)) \<and>
       ro_backend_ref r \<in> {None, Some (xf_expected_backend_ref f)}"
  proof -
    have "ro_id (reconcile_external_backend_reference f) = xf_id f"
      "ro_status (reconcile_external_backend_reference f) = status"
      "ro_backend_ref (reconcile_external_backend_reference f) =
         (if is_adopted state \<or> state = RecExited then xf_observed_backend_ref f else None)"
      using v by (simp_all add: reconcile_external_backend_reference_def flip: m_def)
    note r = this and v = external_verdict_running [OF v]
    have "ro_backend_ref (reconcile_external_backend_reference f) \<in> {None, Some (xf_expected_backend_ref f)}"
      unfolding r(3) using v by (cases "is_adopted state \<or> state = RecExited") (auto simp: m_def)
    then show ?thesis unfolding Let_def r(1,2) using v m_def by blast
  qed
qed

section \<open>The startup report\<close>

lemma reconcile_loop_counts:
  "reconcile_loop rt bs sms r w = (Inr r', w') \<Longrightarrow>
     rr_skipped_terminal r' = rr_skipped_terminal r + length (filter (\<lambda>sm. is_terminal (sm_status sm)) sms) \<and>
     rr_checked r' = rr_checked r + length (filter (\<lambda>sm. \<not> is_terminal (sm_status sm)) sms) \<and>
     rr_updated r' + rr_unavailable r' + rr_checked r = rr_updated r + rr_unavailable r + rr_checked r'"
proof (induction rt bs sms r w rule: reconcile_loop.induct)
  case (2 rt bs sm sms r w)
  have rec: "rr_skipped_terminal (record_observation st r) = rr_skipped_terminal r"
    "rr_checked (record_observation st r) = rr_checked r + 1"
    "rr_updated (record_observation st r) + rr_unavailable (record_observation st r) =
       rr_updated r + rr_unavailable r + 1" for st
    by (simp_all add: record_observation_def Let_def)
  show ?case
  proof (cases "is_terminal (sm_status sm)")
    case True
    then show ?thesis using 2(1) "2.prems" by auto
  next
    case False
    show ?thesis
    proof (cases "find (\<lambda>b. fst b = sm_backend sm) bs")
      case None
      obtain now w1 where n: "now_of rt w = (now, w1)" by fastforce
      with None False "2.prems" obtain u w2
        where u: "upsert_job rt (into_summary_update (no_backend_outcome sm) sm now) w1 = (Inr u, w2)"
          "reconcile_loop rt bs sms (record_observation RecBackendUnavailable r) w2 = (Inr r', w')"
        by (auto split: prod.splits sum.splits)
      from 2(2) [OF False None n [symmetric] refl u(1) [symmetric] refl u(2)] rec [of RecBackendUnavailable] False
      show ?thesis by simp
    next
      case (Some b)
      with False "2.prems" obtain o' w1 where o: "snd b sm w = (Inr o', w1)" by (auto split: prod.splits sum.splits)
      obtain now w2 where n: "now_of rt w1 = (now, w2)" by fastforce
      with Some False o "2.prems" obtain u w3
        where u: "upsert_job rt (into_summary_update o' sm now) w2 = (Inr u, w3)"
          "reconcile_loop rt bs sms (record_observation (ro_state o') r) w3 = (Inr r', w')"
        by (auto split: prod.splits sum.splits)
      from 2(3) [OF False Some o [symmetric] refl n [symmetric] refl u(1) [symmetric] refl u(2)] rec [of "ro_state o'"] False
      show ?thesis by simp
    qed
  qed
qed simp

text \<open>When startup reconciliation succeeds, its report accounts for every persisted
  job once: terminal jobs are skipped, all others are checked, and each checked job is counted
  either as updated or as unavailable.\<close>

lemma reconciliation_report_complete:
  assumes "list_jobs rt \<lparr>fl_owner = None, fl_backend = None, fl_include_terminal = True\<rparr> w = (Inr sms, w0)"
    and "reconcile_persisted_process_jobs rt bs w = (Inr r, w')"
  shows "rr_skipped_terminal r = length (filter (\<lambda>sm. is_terminal (sm_status sm)) sms) \<and>
    rr_checked r = rr_updated r + rr_unavailable r \<and>
    rr_checked r + rr_skipped_terminal r = length sms"
proof -
  have "reconcile_loop rt bs sms report_default w0 = (Inr r, w')"
    using assms by (simp add: reconcile_persisted_process_jobs_def)
  from reconcile_loop_counts [OF this] show ?thesis
    using sum_length_filter_compl [of "\<lambda>sm. is_terminal (sm_status sm)" sms] by (simp add: report_default_def)
qed

text \<open>A job whose backend is missing at one startup is never looked at again: its stored status
  becomes terminal, every later startup skips it even when the backend is back, and garbage
  collection protects it as an adopted job at any time under any policy.\<close>

lemma missing_backend_job_is_stuck:
  "let sm' = into_summary_update (no_backend_outcome sm) sm now
   in is_terminal (sm_status sm') \<and> sm_id sm' = sm_id sm \<and>
    reconcile_loop rt bs (sm' # sms) r w =
      reconcile_loop rt bs sms (r\<lparr>rr_skipped_terminal := rr_skipped_terminal r + 1\<rparr>) w \<and>
    eligibility_for_summary p sm' later policy_ref = ProtectActive (sm_id sm) ClassAdopted"
proof -
  let ?sm = "into_summary_update (no_backend_outcome sm) sm now"
  have "sm_status ?sm = JobBackendUnavailable (no_backend_reason sm)" "sm_id ?sm = sm_id sm"
    by (simp_all add: into_summary_update_def no_backend_outcome_def Let_def)
  then show ?thesis unfolding Let_def
    by (simp add: eligibility_for_summary_def classify_summary_def protects_active_state_def Let_def)
qed

section \<open>Projection\<close>

lemma bucket_loop_eq:
  "bucket_loop sms (a, c) =
     (a @ map projection_item (filter (\<lambda>sm. \<not> is_terminal (sm_status sm)) sms),
      c @ map projection_item (filter (\<lambda>sm. is_terminal (sm_status sm)) sms))"
  by (induction sms arbitrary: a c) (simp_all add: lifecycle_of_def)

lemma mset_insert_newer [simp]: "mset (insert_newer x ys) = add_mset x (mset ys)"
  by (induction x ys rule: insert_newer.induct) auto

lemma mset_sort_newest [simp]: "mset (sort_newest xs) = mset xs"
  unfolding sort_newest_def by (induction xs) auto

lemma newer_total: "newer x y \<or> newer y x" by (auto simp: newer_def)

lemma newer_trans: "newer x y \<Longrightarrow> newer y z \<Longrightarrow> newer x z" by (auto simp: newer_def)

lemma sorted_insert_newer: "sorted_wrt newer ys \<Longrightarrow> sorted_wrt newer (insert_newer x ys)"
proof (induction x ys rule: insert_newer.induct)
  case (2 x y ys)
  have "set (insert_newer x ys) = insert x (set ys)"
    by (metis mset_insert_newer set_mset_add_mset_insert set_mset_mset)
  then show ?case using 2 newer_total [of x y] newer_trans by auto
qed simp

lemma sorted_sort_newest: "sorted_wrt newer (sort_newest xs)"
  unfolding sort_newest_def by (induction xs) (simp_all add: sorted_insert_newer)

text \<open>The projected job list is faithful and bounded: each bucket is a prefix, of at most
  the configured length, of the newest-first arrangement of exactly the active (respectively
  completed) jobs; the totals count all of them, and the truncation flags tell whether some are
  missing.\<close>

lemma job_list_projection:
  "let p = project_process_job_list sms bounds;
       active = map projection_item (filter (\<lambda>sm. \<not> is_terminal (sm_status sm)) sms);
       completed = map projection_item (filter (\<lambda>sm. is_terminal (sm_status sm)) sms)
   in \<exists>as cs. mset as = mset active \<and> sorted_wrt newer as \<and> mset cs = mset completed \<and> sorted_wrt newer cs \<and>
        lp_active p = take (max_active bounds) as \<and> lp_completed p = take (max_completed bounds) cs \<and>
        lp_total_active p = length active \<and> lp_total_completed p = length completed \<and>
        (lp_truncated_active p \<longleftrightarrow> length (lp_active p) < lp_total_active p) \<and>
        (lp_truncated_completed p \<longleftrightarrow> length (lp_completed p) < lp_total_completed p)"
proof -
  let ?a = "map projection_item (filter (\<lambda>sm. \<not> is_terminal (sm_status sm)) sms)"
  let ?c = "map projection_item (filter (\<lambda>sm. is_terminal (sm_status sm)) sms)"
  have len: "length (sort_newest xs) = length xs" for xs by (metis mset_sort_newest size_mset)
  show ?thesis unfolding Let_def
    by (intro exI [of _ "sort_newest ?a"] exI [of _ "sort_newest ?c"])
      (auto simp: project_process_job_list_def bucket_loop_eq sorted_sort_newest len)
qed

section \<open>Retention\<close>

text \<open>Garbage collection never takes a live job, nor a finished one before its time: a job
  is eligible exactly when its status is terminal, it is not one a backend may still hold, and the
  time up to which the policy keeps it (from completion, or the last update without one) has passed.
  Where the policy has no age limit, or one that does not fit a time stamp, that time is at once.\<close>

lemma retention_protects:
  "(\<exists>c refs. eligibility_for_summary p sm now policy_ref = Eligible (sm_id sm) c refs) \<longleftrightarrow>
     is_terminal (sm_status sm) \<and> (\<nexists>reason. sm_status sm = JobBackendUnavailable reason) \<and>
     (case Option.bind (rp_max_age p)
        (add_timestamp_duration (case sm_completed_at sm of None \<Rightarrow> sm_updated_at sm | Some t \<Rightarrow> t)) of
        None \<Rightarrow> True | Some until \<Rightarrow> until \<le> now)"
  by (cases "sm_status sm")
    (auto simp: eligibility_for_summary_def classify_summary_def protects_active_state_def Let_def split: option.splits)

end
