(* ===== verification/Process_Job_Profiles.thy ===== *)
theory Process_Job_Profiles
  imports Process_Job_Events
begin

text \<open>
  Named job profiles of a project, \<^verbatim>\<open>crates/clankers-tool-host/src/process_jobs.rs\<close>: the selection of a
  manifest among several sources, the validation of a profile against the host's policy, and its
  resolution into a start request. Parsing a manifest from JSON is left to its library.
\<close>

section \<open>Manifests and policies\<close>

record project_process_job_profile_policy =
  pp_default_backend :: process_job_backend_kind
  pp_allowed_backends :: "process_job_backend_kind list"
  pp_max_timeout :: "duration option"
  pp_max_memory_bytes :: "u64 option"
  pp_max_cpu_quota_percent :: "u32 option"
  pp_max_log_bytes :: "u64 option"
  pp_allowed_env_prefixes :: "string list"
  pp_allowed_cwd_prefixes :: "string list"
  pp_allowed_writable_path_prefixes :: "string list"
  pp_policy_source :: string

definition default_profile_policy :: project_process_job_profile_policy where
  "default_profile_policy = \<lparr>pp_default_backend = Native, pp_allowed_backends = [Native],
     pp_max_timeout = None, pp_max_memory_bytes = None, pp_max_cpu_quota_percent = None,
     pp_max_log_bytes = None, pp_allowed_env_prefixes = [], pp_allowed_cwd_prefixes = [],
     pp_allowed_writable_path_prefixes = [], pp_policy_source = ''default''\<rparr>"

datatype project_process_job_profile_source_precedence = Global | WorkspaceLevel | ExplicitSource

fun precedence_rank :: "project_process_job_profile_source_precedence \<Rightarrow> nat" where
  "precedence_rank Global = 0"
| "precedence_rank WorkspaceLevel = 1"
| "precedence_rank ExplicitSource = 2"

text \<open>The derived order of the enumeration.\<close>

instantiation project_process_job_profile_source_precedence :: linorder
begin

definition less_eq_project_process_job_profile_source_precedence ::
  "project_process_job_profile_source_precedence \<Rightarrow> project_process_job_profile_source_precedence \<Rightarrow> bool" where
  "a \<le> b \<longleftrightarrow> precedence_rank a \<le> precedence_rank b"

definition less_project_process_job_profile_source_precedence ::
  "project_process_job_profile_source_precedence \<Rightarrow> project_process_job_profile_source_precedence \<Rightarrow> bool" where
  "a < b \<longleftrightarrow> precedence_rank a < precedence_rank b"

instance
proof intro_classes
  fix a b :: project_process_job_profile_source_precedence
  show "a \<le> b \<Longrightarrow> b \<le> a \<Longrightarrow> a = b"
    by (cases a; cases b) (simp_all add: less_eq_project_process_job_profile_source_precedence_def)
qed (auto simp: less_eq_project_process_job_profile_source_precedence_def
    less_project_process_job_profile_source_precedence_def)

end

datatype project_process_job_profile_validation_code =
  InvalidManifestJson | UnknownProfile | UnsupportedManifestVersion | AmbiguousManifestSource
  | DisallowedBackend | MalformedCommandShape | DisallowedEnvironmentKey | ResourceLimitExceeded
  | DisallowedCwd | DisallowedWritablePath

record project_process_job_profile_validation_error =
  ve_code :: project_process_job_profile_validation_code
  ve_profile :: string
  ve_reason :: string

definition validation_error ::
  "project_process_job_profile_validation_code \<Rightarrow> string \<Rightarrow> string \<Rightarrow> project_process_job_profile_validation_error" where
  "validation_error code profile reason = \<lparr>ve_code = code, ve_profile = profile, ve_reason = reason\<rparr>"

type_synonym 'a profile_result = "project_process_job_profile_validation_error + 'a"

definition PROCESS_JOB_PROFILE_SCHEMA_VERSION :: u32 where "PROCESS_JOB_PROFILE_SCHEMA_VERSION = 1"

record project_process_job_profile =
  pr_backend :: "process_job_backend_kind option"
  pr_command :: "string option"
  pr_program :: "string option"
  pr_args :: "string list"
  pr_cwd :: "string option"
  pr_writable_paths :: "string list"
  pr_env :: string_map
  pr_resource_policy :: process_job_resource_policy
  pr_notification_policy :: process_job_notification_policy
  pr_metadata :: string_map

record project_process_job_profiles =
  pf_schema_version :: u32
  pf_profiles :: "(string, project_process_job_profile) btree"

record project_process_job_profile_resolution_evidence =
  ev_profile_name :: string
  ev_manifest_schema_version :: u32
  ev_profile_source :: string
  ev_policy_source :: string

record project_process_job_profile_resolution =
  rn_name :: string
  rn_request :: start_process_job_request
  rn_evidence :: project_process_job_profile_resolution_evidence

record project_process_job_profile_manifest_source =
  ms_precedence :: project_process_job_profile_source_precedence
  ms_label :: string
  ms_path :: "string option"
  ms_manifest :: project_process_job_profiles

definition safe_label :: "project_process_job_profile_manifest_source \<Rightarrow> string" where
  "safe_label s = (case ms_path s of None \<Rightarrow> ms_label s | Some p \<Rightarrow> p)"

section \<open>Validation\<close>

definition validate_profile_manifest_version :: "string \<Rightarrow> u32 \<Rightarrow> unit profile_result" where
  "validate_profile_manifest_version name v =
     (if v \<noteq> PROCESS_JOB_PROFILE_SCHEMA_VERSION
      then Inl (validation_error UnsupportedManifestVersion name
        (''unsupported process job profile manifest schema_version '' @ show_nat (unat v)))
      else Inr ())"

fun debug_backend :: "process_job_backend_kind \<Rightarrow> string" where
  "debug_backend Native = ''Native''"
| "debug_backend Pueue = ''Pueue''"
| "debug_backend Systemd = ''Systemd''"
| "debug_backend UnknownBackend = ''Unknown''"

definition validate_profile_backend ::
  "string \<Rightarrow> process_job_backend_kind \<Rightarrow> project_process_job_profile_policy \<Rightarrow> unit profile_result" where
  "validate_profile_backend name b policy =
     (if b = UnknownBackend \<or> b \<notin> set (pp_allowed_backends policy)
      then Inl (validation_error DisallowedBackend name (''uses disallowed backend '' @ debug_backend b))
      else Inr ())"

definition is_set :: "string option \<Rightarrow> bool" where
  "is_set v \<longleftrightarrow> (case v of None \<Rightarrow> False | Some s \<Rightarrow> trim s \<noteq> [])"

definition validate_profile_command_shape :: "string \<Rightarrow> project_process_job_profile \<Rightarrow> unit profile_result" where
  "validate_profile_command_shape name p =
     (let has_command = is_set (pr_command p); has_program = is_set (pr_program p)
      in if has_command = has_program
         then Inl (validation_error MalformedCommandShape name ''must set exactly one of command or program'')
         else if \<not> has_program \<and> pr_args p \<noteq> []
         then Inl (validation_error MalformedCommandShape name ''cannot set args without program'')
         else Inr ())"

definition env_key_allowed :: "project_process_job_profile_policy \<Rightarrow> string \<Rightarrow> bool" where
  "env_key_allowed policy k \<longleftrightarrow>
     list_all (\<lambda>ch. is_ascii_uppercase ch \<or> is_ascii_digit ch \<or> ch = CHR ''_'') k \<and>
     \<not> is_sensitive_process_job_key k \<and>
     list_ex (\<lambda>pre. prefix pre k) (pp_allowed_env_prefixes policy)"

definition validate_profile_environment ::
  "string \<Rightarrow> string_map \<Rightarrow> project_process_job_profile_policy \<Rightarrow> unit profile_result" where
  "validate_profile_environment name env policy =
     (case find (\<lambda>k. \<not> env_key_allowed policy k) (bt_keys env) of
        Some k \<Rightarrow> Inl (validation_error DisallowedEnvironmentKey name (''has disallowed environment key '' @ k))
      | None \<Rightarrow> Inr ())"

definition exceeds :: "'a::linorder option \<Rightarrow> 'a option \<Rightarrow> bool" where
  "exceeds actual maximum = (case (actual, maximum) of (Some a, Some m) \<Rightarrow> a > m | _ \<Rightarrow> False)"

definition validate_profile_resources ::
  "string \<Rightarrow> process_job_resource_policy \<Rightarrow> project_process_job_profile_policy \<Rightarrow> unit profile_result" where
  "validate_profile_resources name r policy =
     (if exceeds (rs_timeout r) (pp_max_timeout policy)
      then Inl (validation_error ResourceLimitExceeded name ''timeout exceeds policy'')
      else if exceeds (rs_memory_max_bytes r) (pp_max_memory_bytes policy)
      then Inl (validation_error ResourceLimitExceeded name ''memory exceeds policy'')
      else if exceeds (rs_cpu_quota_percent r) (pp_max_cpu_quota_percent policy)
      then Inl (validation_error ResourceLimitExceeded name ''cpu quota exceeds policy'')
      else if exceeds (rs_max_log_bytes r) (pp_max_log_bytes policy)
      then Inl (validation_error ResourceLimitExceeded name ''log bytes exceeds policy'')
      else Inr ())"

definition path_allowed :: "string \<Rightarrow> string list \<Rightarrow> bool" where
  "path_allowed p allowed \<longleftrightarrow> allowed = [] \<or> list_ex (\<lambda>pre. path_starts_with p pre) allowed"

definition validate_profile_paths ::
  "string \<Rightarrow> project_process_job_profile \<Rightarrow> project_process_job_profile_policy \<Rightarrow> unit profile_result" where
  "validate_profile_paths name p policy =
     (case (case pr_cwd p of
              Some cwd \<Rightarrow> if path_allowed cwd (pp_allowed_cwd_prefixes policy) then None else Some cwd
            | None \<Rightarrow> None) of
        Some cwd \<Rightarrow> Inl (validation_error DisallowedCwd name (''cwd is outside allowed prefixes: '' @ cwd))
      | None \<Rightarrow>
          (case find (\<lambda>w. \<not> path_allowed w (pp_allowed_writable_path_prefixes policy)) (pr_writable_paths p) of
             Some w \<Rightarrow> Inl (validation_error DisallowedWritablePath name
               (''writable path is outside allowed prefixes: '' @ w))
           | None \<Rightarrow> Inr ()))"

section \<open>Resolution\<close>

definition PROCESS_JOB_PROFILE_METADATA_NAME :: string where "PROCESS_JOB_PROFILE_METADATA_NAME = ''profile''"
definition PROCESS_JOB_PROFILE_METADATA_SCHEMA_VERSION :: string where
  "PROCESS_JOB_PROFILE_METADATA_SCHEMA_VERSION = ''identity.profile.schema_version''"
definition PROCESS_JOB_PROFILE_METADATA_SOURCE :: string where
  "PROCESS_JOB_PROFILE_METADATA_SOURCE = ''identity.profile.source''"
definition PROCESS_JOB_PROFILE_METADATA_POLICY :: string where
  "PROCESS_JOB_PROFILE_METADATA_POLICY = ''identity.profile.policy''"

definition profile_metadata ::
  "string \<Rightarrow> project_process_job_profile \<Rightarrow> project_process_job_profile_resolution_evidence \<Rightarrow> string_map" where
  "profile_metadata name p ev =
     (let m = bt_insert PROCESS_JOB_PROFILE_METADATA_NAME name (pr_metadata p);
          m = bt_insert PROCESS_JOB_PROFILE_METADATA_SCHEMA_VERSION
                (show_nat (unat (ev_manifest_schema_version ev))) m;
          m = bt_insert PROCESS_JOB_PROFILE_METADATA_SOURCE (ev_profile_source ev) m;
          m = bt_insert PROCESS_JOB_PROFILE_METADATA_POLICY (ev_policy_source ev) m
      in fold (\<lambda>(k, v) m. bt_insert (''env:'' @ k) v m) (pr_env p) m)"

definition profile_command_preview :: "project_process_job_profile \<Rightarrow> string" where
  "profile_command_preview p = (case pr_command p of
     Some c \<Rightarrow> c
   | None \<Rightarrow> join_with '' '' ((case pr_program p of None \<Rightarrow> [] | Some q \<Rightarrow> q) # pr_args p))"

definition resolve_named ::
  "project_process_job_profile \<Rightarrow> string \<Rightarrow> process_job_owner_scope \<Rightarrow> project_process_job_profile_policy \<Rightarrow>
   project_process_job_profile_resolution_evidence \<Rightarrow> project_process_job_profile_resolution profile_result" where
  "resolve_named p name owner policy ev =
     (let b = (case pr_backend p of None \<Rightarrow> pp_default_backend policy | Some b \<Rightarrow> b)
      in case validate_profile_backend name b policy of Inl e \<Rightarrow> Inl e | Inr _ \<Rightarrow>
        (case validate_profile_command_shape name p of Inl e \<Rightarrow> Inl e | Inr _ \<Rightarrow>
        (case validate_profile_environment name (pr_env p) policy of Inl e \<Rightarrow> Inl e | Inr _ \<Rightarrow>
        (case validate_profile_resources name (pr_resource_policy p) policy of Inl e \<Rightarrow> Inl e | Inr _ \<Rightarrow>
        (case validate_profile_paths name p policy of Inl e \<Rightarrow> Inl e | Inr _ \<Rightarrow>
          Inr \<lparr>rn_name = name,
            rn_request = \<lparr>st_backend = b, st_command_preview = profile_command_preview p,
              st_program = pr_program p, st_args = pr_args p, st_shell_command = pr_command p,
              st_cwd = (case pr_cwd p of None \<Rightarrow> Inherited | Some c \<Rightarrow> Explicit c), st_owner = owner,
              st_resource_policy = pr_resource_policy p, st_notification_policy = pr_notification_policy p,
              st_metadata = profile_metadata name p ev\<rparr>,
            rn_evidence = ev\<rparr>)))))"

definition unknown_profile :: "string \<Rightarrow> project_process_job_profile_validation_error" where
  "unknown_profile name = validation_error UnknownProfile name (''unknown process job profile: '' @ name)"

definition resolve_with_evidence ::
  "project_process_job_profiles \<Rightarrow> string \<Rightarrow> process_job_owner_scope \<Rightarrow> project_process_job_profile_policy \<Rightarrow>
   project_process_job_profile_resolution_evidence \<Rightarrow> project_process_job_profile_resolution profile_result" where
  "resolve_with_evidence ps name owner policy ev =
     (case validate_profile_manifest_version name (pf_schema_version ps) of
        Inl e \<Rightarrow> Inl e
      | Inr _ \<Rightarrow>
          (case bt_get (pf_profiles ps) name of
             None \<Rightarrow> Inl (unknown_profile name)
           | Some p \<Rightarrow> resolve_named p name owner policy ev))"

definition resolve_profile ::
  "project_process_job_profiles \<Rightarrow> string \<Rightarrow> process_job_owner_scope \<Rightarrow> project_process_job_profile_policy \<Rightarrow>
   project_process_job_profile_resolution profile_result" where
  "resolve_profile ps name owner policy = resolve_with_evidence ps name owner policy
     \<lparr>ev_profile_name = name, ev_manifest_schema_version = pf_schema_version ps,
      ev_profile_source = ''inline'', ev_policy_source = pp_policy_source policy\<rparr>"

text \<open>The sources with the profile, grouped by precedence in the order of the map.\<close>

definition matching_sources ::
  "project_process_job_profile_manifest_source list \<Rightarrow> string \<Rightarrow>
   (project_process_job_profile_source_precedence, project_process_job_profile_manifest_source list) btree" where
  "matching_sources sources name =
     fold (\<lambda>s m. if bt_get (pf_profiles (ms_manifest s)) name \<noteq> None
         then bt_insert (ms_precedence s) ((case bt_get m (ms_precedence s) of None \<Rightarrow> [] | Some ss \<Rightarrow> ss) @ [s]) m
         else m) sources []"

definition select_profile_manifest_source ::
  "project_process_job_profile_manifest_source list \<Rightarrow> string \<Rightarrow>
   project_process_job_profile_manifest_source profile_result" where
  "select_profile_manifest_source sources name =
     (case matching_sources sources name of
        [] \<Rightarrow> Inl (unknown_profile name)
      | e # es \<Rightarrow>
          let selected = snd (last (e # es))
          in if length selected \<noteq> 1
             then Inl (validation_error AmbiguousManifestSource name
               (''ambiguous duplicate profile at same precedence: '' @ join_with '', '' (map safe_label selected)))
             else Inr (selected ! 0))"

definition resolve_from_sources ::
  "project_process_job_profile_manifest_source list \<Rightarrow> string \<Rightarrow> process_job_owner_scope \<Rightarrow>
   project_process_job_profile_policy \<Rightarrow> project_process_job_profile_resolution profile_result" where
  "resolve_from_sources sources name owner policy =
     (case select_profile_manifest_source sources name of
        Inl e \<Rightarrow> Inl e
      | Inr s \<Rightarrow> resolve_with_evidence (ms_manifest s) name owner policy
          \<lparr>ev_profile_name = name, ev_manifest_schema_version = pf_schema_version (ms_manifest s),
           ev_profile_source = safe_label s, ev_policy_source = pp_policy_source policy\<rparr>)"

text \<open>The metadata of a receipt is read back from the metadata of a request. \<^verbatim>\<open>str::parse\<close> to \<^verbatim>\<open>u32\<close>: an
  optional plus sign and at least one digit, within the range of the type.\<close>

fun parse_digits :: "nat \<Rightarrow> string \<Rightarrow> nat option" where
  "parse_digits n [] = Some n"
| "parse_digits n (c # cs) =
     (if is_ascii_digit c then parse_digits (10 * n + (of_char c - 48)) cs else None)"

definition parse_u32 :: "string \<Rightarrow> u32 option" where
  "parse_u32 s = (let ds = (if prefix ''+'' s then tl s else s)
     in if ds = [] then None
        else case parse_digits 0 ds of
          None \<Rightarrow> None | Some n \<Rightarrow> if n < 2 ^ 32 then Some (of_nat n) else None)"

definition from_metadata :: "string_map \<Rightarrow> process_job_profile_receipt_metadata option" where
  "from_metadata m =
     (case bt_get m PROCESS_JOB_PROFILE_METADATA_NAME of None \<Rightarrow> None | Some name \<Rightarrow>
     (case Option.bind (bt_get m PROCESS_JOB_PROFILE_METADATA_SCHEMA_VERSION) parse_u32 of None \<Rightarrow> None | Some v \<Rightarrow>
     (case bt_get m PROCESS_JOB_PROFILE_METADATA_SOURCE of None \<Rightarrow> None | Some src \<Rightarrow>
     (case bt_get m PROCESS_JOB_PROFILE_METADATA_POLICY of None \<Rightarrow> None | Some pol \<Rightarrow>
       Some \<lparr>pm_profile_name = name, pm_manifest_schema_version = v, pm_profile_source = src,
         pm_policy_source = pol\<rparr>))))"

section \<open>Which source wins\<close>

definition defines_profile :: "string \<Rightarrow> project_process_job_profile_manifest_source \<Rightarrow> bool" where
  "defines_profile name s \<longleftrightarrow> bt_get (pf_profiles (ms_manifest s)) name \<noteq> None"

definition candidates ::
  "project_process_job_profile_manifest_source list \<Rightarrow> string \<Rightarrow> project_process_job_profile_source_precedence \<Rightarrow>
   project_process_job_profile_manifest_source list" where
  "candidates sources name k = filter (\<lambda>s. ms_precedence s = k \<and> defines_profile name s) sources"

lemma candidates_snoc:
  "candidates (ss @ [s]) name k =
     candidates ss name k @ (if ms_precedence s = k \<and> defines_profile name s then [s] else [])"
  by (simp add: candidates_def)

lemma matching_sources_snoc:
  "matching_sources (ss @ [s]) name =
     (let m = matching_sources ss name
      in if defines_profile name s
         then bt_insert (ms_precedence s) ((case bt_get m (ms_precedence s) of None \<Rightarrow> [] | Some ss \<Rightarrow> ss) @ [s]) m
         else m)"
  by (simp add: matching_sources_def defines_profile_def Let_def)

lemma matching_sources_spec:
  "bt_inv (matching_sources ss name) \<and>
   bt_get (matching_sources ss name) k = (if candidates ss name k = [] then None else Some (candidates ss name k))"
proof (induction ss arbitrary: k rule: rev_induct)
  case Nil
  then show ?case by (simp add: matching_sources_def candidates_def bt_inv_def)
next
  case (snoc s ss)
  have old: "(case bt_get (matching_sources ss name) (ms_precedence s) of None \<Rightarrow> [] | Some ss \<Rightarrow> ss) =
      candidates ss name (ms_precedence s)"
    using snoc.IH [of "ms_precedence s"] by (simp split: if_splits)
  show ?case
    using snoc.IH [of k] bt_inv_insert
    by (auto simp: matching_sources_snoc candidates_snoc Let_def old bt_get_insert)
qed

text \<open>The last entry of an ordered map has its greatest key.\<close>

lemma bt_last_greatest:
  assumes "bt_inv m" "m \<noteq> []"
  shows "bt_get m (fst (last m)) = Some (snd (last m)) \<and> (\<forall>k. bt_get m k \<noteq> None \<longrightarrow> k \<le> fst (last m))"
proof -
  obtain ms x where m: "m = ms @ [x]" using assms(2) by (cases m rule: rev_cases) auto
  have lt: "\<forall>y \<in> set ms. fst y < fst x" using assms(1) by (auto simp: m bt_inv_def sorted_wrt_append)
  have "bt_get m (fst (last m)) = Some (snd (last m))"
    using btree.entry_get [OF assms(1), of "fst (last m)" "snd (last m)"] last_in_set [OF assms(2)] by simp
  moreover have "k \<le> fst (last m)" if "bt_get m k \<noteq> None" for k
    using that btree.keys_get [OF assms(1), of k] lt by (auto simp: m)
  ultimately show ?thesis by blast
qed

definition ambiguous_source ::
  "string \<Rightarrow> project_process_job_profile_manifest_source list \<Rightarrow> project_process_job_profile_validation_error" where
  "ambiguous_source name selected = validation_error AmbiguousManifestSource name
     (''ambiguous duplicate profile at same precedence: '' @ join_with '', '' (map safe_label selected))"

lemma select_last:
  "matching_sources sources name \<noteq> [] \<Longrightarrow> select_profile_manifest_source sources name =
     (case snd (last (matching_sources sources name)) of
        [s] \<Rightarrow> Inr s | _ \<Rightarrow> Inl (ambiguous_source name (snd (last (matching_sources sources name)))))"
  by (auto simp: select_profile_manifest_source_def ambiguous_source_def Let_def split: list.splits)

lemma select_source_mem:
  assumes "select_profile_manifest_source sources name = Inr s"
  shows "s \<in> set sources"
proof -
  let ?m = "matching_sources sources name"
  have ne: "?m \<noteq> []" using assms by (auto simp: select_profile_manifest_source_def)
  have "length (snd (last ?m)) = 1 \<and> s = snd (last ?m) ! 0"
    using assms ne by (auto simp: select_last split: list.splits)
  then have "s \<in> set (snd (last ?m))" by simp
  moreover have "snd (last ?m) = candidates sources name (fst (last ?m))"
    using bt_last_greatest [OF _ ne] matching_sources_spec [of sources name "fst (last ?m)"] by (auto split: if_splits)
  ultimately show ?thesis by (simp add: candidates_def)
qed

definition top_precedence ::
  "project_process_job_profile_manifest_source list \<Rightarrow> string \<Rightarrow> project_process_job_profile_source_precedence" where
  "top_precedence sources name = Max (ms_precedence ` set (filter (defines_profile name) sources))"

text \<open>Selecting a manifest source by grouping the sources that define the profile in a
  map ordered by precedence and taking the last group agrees with the specification: among these
  sources take the ones of the highest precedence; there must be exactly one.\<close>

lemma profile_source_selection:
  "select_profile_manifest_source sources name =
     (let defining = filter (defines_profile name) sources;
          top = filter (\<lambda>s. ms_precedence s = top_precedence sources name) defining
      in if defining = [] then Inl (unknown_profile name)
         else case top of
           [s] \<Rightarrow> Inr s
         | _ \<Rightarrow> Inl (ambiguous_source name top))"
proof -
  define m where "m = matching_sources sources name"
  have inv: "bt_inv m" and get: "bt_get m k = (if candidates sources name k = [] then None else Some (candidates sources name k))" for k
    using matching_sources_spec unfolding m_def by blast+
  let ?def = "filter (defines_profile name) sources"
  have cand: "candidates sources name k = filter (\<lambda>s. ms_precedence s = k) ?def" for k
    by (simp add: candidates_def conj_commute)
  show ?thesis
  proof (cases "m = []")
    case True
    then have "candidates sources name k = []" for k using get [of k] by (auto split: if_splits)
    then have "?def = []" unfolding candidates_def by (auto simp: filter_empty_conv)
    then show ?thesis using True by (simp add: select_profile_manifest_source_def m_def)
  next
    case False
    note top = bt_last_greatest [OF inv False]
    let ?k = "fst (last m)"
    have ne: "candidates sources name ?k \<noteq> []" and last: "snd (last m) = candidates sources name ?k"
      using top get [of ?k] by (auto split: if_splits)
    have "top_precedence sources name = ?k"
      unfolding top_precedence_def
    proof (rule Max_eqI)
      show "?k \<in> ms_precedence ` set ?def" using ne by (force simp: cand filter_empty_conv)
      fix k
      assume "k \<in> ms_precedence ` set ?def"
      then have "candidates sources name k \<noteq> []" by (auto simp: cand filter_empty_conv)
      then show "k \<le> ?k" using top get [of k] by simp
    qed simp
    moreover have "?def \<noteq> []" using ne by (auto simp: cand filter_empty_conv)
    ultimately show ?thesis
      using last False by (simp only: select_last m_def [symmetric] cand Let_def if_False simp_thms)
  qed
qed

section \<open>What a resolved profile may do\<close>

definition within :: "'a::linorder option \<Rightarrow> 'a option \<Rightarrow> bool" where
  "within actual maximum \<longleftrightarrow> (\<forall>a m. actual = Some a \<longrightarrow> maximum = Some m \<longrightarrow> a \<le> m)"

lemma not_exceeds: "\<not> exceeds a m \<longleftrightarrow> within a m"
  by (cases a; cases m) (auto simp: exceeds_def within_def)

definition resources_within :: "process_job_resource_policy \<Rightarrow> project_process_job_profile_policy \<Rightarrow> bool" where
  "resources_within r policy \<longleftrightarrow> within (rs_timeout r) (pp_max_timeout policy) \<and>
     within (rs_memory_max_bytes r) (pp_max_memory_bytes policy) \<and>
     within (rs_cpu_quota_percent r) (pp_max_cpu_quota_percent policy) \<and>
     within (rs_max_log_bytes r) (pp_max_log_bytes policy)"

definition cwd_within :: "process_job_cwd \<Rightarrow> project_process_job_profile_policy \<Rightarrow> bool" where
  "cwd_within cwd policy = (case cwd of Inherited \<Rightarrow> True | Explicit c \<Rightarrow> path_allowed c (pp_allowed_cwd_prefixes policy))"

lemma validate_backend_ok:
  "validate_profile_backend name b policy = Inr u \<longleftrightarrow> b \<noteq> UnknownBackend \<and> b \<in> set (pp_allowed_backends policy)"
  by (simp add: validate_profile_backend_def)

lemma validate_shape_ok:
  "validate_profile_command_shape name p = Inr u \<longleftrightarrow>
     is_set (pr_command p) \<noteq> is_set (pr_program p) \<and> (is_set (pr_program p) \<or> pr_args p = [])"
  by (auto simp: validate_profile_command_shape_def Let_def)

lemma validate_environment_ok:
  "validate_profile_environment name env policy = Inr u \<longleftrightarrow> list_all (env_key_allowed policy) (bt_keys env)"
  by (auto simp: validate_profile_environment_def find_None_iff find_Some_iff list_all_iff split: option.splits)

lemma validate_resources_ok:
  "validate_profile_resources name r policy = Inr u \<longleftrightarrow> resources_within r policy"
  by (auto simp: validate_profile_resources_def resources_within_def not_exceeds [symmetric])

lemma validate_paths_ok:
  "validate_profile_paths name p policy = Inr u \<longleftrightarrow>
     cwd_within (case pr_cwd p of None \<Rightarrow> Inherited | Some c \<Rightarrow> Explicit c) policy \<and>
     list_all (\<lambda>w. path_allowed w (pp_allowed_writable_path_prefixes policy)) (pr_writable_paths p)"
  by (auto simp: validate_profile_paths_def cwd_within_def find_None_iff find_Some_iff list_all_iff split: option.splits)

lemmas validations_ok = validate_backend_ok validate_shape_ok validate_environment_ok validate_resources_ok
  validate_paths_ok

lemma resolve_named_ok:
  "resolve_named p name owner policy ev = Inr r \<Longrightarrow>
     st_backend (rn_request r) \<noteq> UnknownBackend \<and> st_backend (rn_request r) \<in> set (pp_allowed_backends policy) \<and>
     is_set (st_shell_command (rn_request r)) \<noteq> is_set (st_program (rn_request r)) \<and>
     resources_within (st_resource_policy (rn_request r)) policy \<and> cwd_within (st_cwd (rn_request r)) policy \<and>
     st_owner (rn_request r) = owner \<and> st_metadata (rn_request r) = profile_metadata name p ev \<and>
     list_all (env_key_allowed policy) (bt_keys (pr_env p)) \<and>
     list_all (\<lambda>w. path_allowed w (pp_allowed_writable_path_prefixes policy)) (pr_writable_paths p)"
  unfolding resolve_named_def Let_def
  by (auto split: sum.splits simp: validations_ok)

text \<open>A profile that resolves stays within the host's policy: the request it becomes names an
  allowed backend, asks for no resource above its limit, starts below an allowed directory, has
  exactly one non-blank command form and the owner of the caller; the profile, from the selected source
  with the supported schema version, sets only allowed, non-sensitive environment keys and allowed
  writable paths.\<close>

lemma resolved_profile_within_policy:
  assumes "resolve_from_sources sources name owner policy = Inr r"
  shows "\<exists>s p. s \<in> set sources \<and> bt_get (pf_profiles (ms_manifest s)) name = Some p \<and>
    pf_schema_version (ms_manifest s) = 1 \<and>
    st_backend (rn_request r) \<noteq> UnknownBackend \<and> st_backend (rn_request r) \<in> set (pp_allowed_backends policy) \<and>
    is_set (st_shell_command (rn_request r)) \<noteq> is_set (st_program (rn_request r)) \<and>
    resources_within (st_resource_policy (rn_request r)) policy \<and> cwd_within (st_cwd (rn_request r)) policy \<and>
    st_owner (rn_request r) = owner \<and>
    list_all (env_key_allowed policy) (bt_keys (pr_env p)) \<and>
    list_all (\<lambda>w. path_allowed w (pp_allowed_writable_path_prefixes policy)) (pr_writable_paths p)"
proof -
  obtain s where s: "select_profile_manifest_source sources name = Inr s"
    using assms by (auto simp: resolve_from_sources_def split: sum.splits)
  then have "s \<in> set sources" by (rule select_source_mem)
  obtain ev where ev: "resolve_with_evidence (ms_manifest s) name owner policy ev = Inr r"
    using assms s by (auto simp: resolve_from_sources_def)
  then obtain p where "bt_get (pf_profiles (ms_manifest s)) name = Some p"
      "pf_schema_version (ms_manifest s) = 1" "resolve_named p name owner policy ev = Inr r"
    by (auto simp: resolve_with_evidence_def validate_profile_manifest_version_def
        PROCESS_JOB_PROFILE_SCHEMA_VERSION_def split: option.splits if_splits)
  with resolve_named_ok [OF this(3)] \<open>s \<in> set sources\<close> show ?thesis by blast
qed

definition sample_profile :: project_process_job_profile where
  "sample_profile = \<lparr>pr_backend = None, pr_command = Some ''make'', pr_program = None, pr_args = [],
     pr_cwd = Some ''/w/a'', pr_writable_paths = [], pr_env = [(''APP_X'', ''1'')],
     pr_resource_policy = \<lparr>rs_timeout = Some 5, rs_memory_max_bytes = None, rs_cpu_quota_percent = None,
       rs_max_log_bytes = None\<rparr>,
     pr_notification_policy = \<lparr>notify_on_complete = False, watch_patterns = []\<rparr>, pr_metadata = []\<rparr>"

definition sample_policy :: project_process_job_profile_policy where
  "sample_policy = default_profile_policy\<lparr>pp_max_timeout := Some 9, pp_allowed_env_prefixes := [''APP_''],
     pp_allowed_cwd_prefixes := [''/w'']\<rparr>"

definition sample_source :: project_process_job_profile_manifest_source where
  "sample_source = \<lparr>ms_precedence = Global, ms_label = ''g'', ms_path = None,
     ms_manifest = \<lparr>pf_schema_version = 1, pf_profiles = [(''b'', sample_profile)]\<rparr>\<rparr>"

lemma sample_resolves: "\<exists>r. resolve_from_sources [sample_source] ''b'' DaemonGlobal sample_policy = Inr r"
proof -
  have t: "trim ''make'' = ''make''" by (rule trim_plain) (simp_all add: is_graphic_def)
  have "env_key_allowed sample_policy ''APP_X''" by code_simp
  then have "validate_profile_environment ''b'' (pr_env sample_profile) sample_policy = Inr ()"
    unfolding validate_environment_ok by (simp add: sample_profile_def)
  moreover have "path_allowed ''/w/a'' [''/w'']" by code_simp
  then have "validate_profile_paths ''b'' sample_profile sample_policy = Inr ()"
    unfolding validate_paths_ok by (simp add: sample_profile_def sample_policy_def cwd_within_def)
  moreover have "validate_profile_command_shape ''b'' sample_profile = Inr ()"
    unfolding validate_shape_ok by (simp add: sample_profile_def is_set_def t)
  moreover have "validate_profile_resources ''b'' (pr_resource_policy sample_profile) sample_policy = Inr ()"
    unfolding validate_resources_ok
    by (simp add: sample_profile_def sample_policy_def default_profile_policy_def resources_within_def within_def)
  moreover have "pr_backend sample_profile = None" by (simp add: sample_profile_def)
  moreover have "validate_profile_backend ''b'' (pp_default_backend sample_policy) sample_policy = Inr ()"
    unfolding validate_backend_ok by (simp add: sample_policy_def default_profile_policy_def)
  ultimately have "\<exists>r. resolve_named sample_profile ''b'' DaemonGlobal sample_policy ev = Inr r" for ev
    by (simp add: resolve_named_def)
  then show ?thesis
    by (simp add: resolve_from_sources_def select_profile_manifest_source_def matching_sources_def sample_source_def
        resolve_with_evidence_def validate_profile_manifest_version_def PROCESS_JOB_PROFILE_SCHEMA_VERSION_def)
qed

section \<open>Metadata\<close>

lemma parse_digits_append: "parse_digits n (s @ t) = Option.bind (parse_digits n s) (\<lambda>m. parse_digits m t)"
  by (induction n s rule: parse_digits.induct) auto

lemma parse_digits_show_nat: "parse_digits 0 (show_nat n) = Some n"
proof (induction n rule: show_nat.induct)
  case (1 n)
  show ?case
  proof (cases "n < 10")
    case True
    then show ?thesis by (auto simp: show_nat_lt10 is_ascii_digit_def)
  next
    case False
    have "n mod 10 < 10" by simp
    then have "parse_digits m (char_of (48 + n mod 10) # []) = Some (10 * m + n mod 10)" for m
      by (auto simp: is_ascii_digit_def)
    then show ?thesis using "1.IH" [OF False] by (simp add: show_nat_ge10 [OF False] parse_digits_append)
  qed
qed

lemma parse_u32_show: "parse_u32 (show_nat (unat v)) = Some v"
proof -
  have "\<not> prefix ''+'' (show_nat k)" for k
    using show_nat_digits [of "CHR ''+''" k] by (auto simp: prefix_def is_ascii_digit_def)
  moreover have "unat v < 4294967296" using unsigned_less [of v, where 'a = nat] by simp
  ultimately show ?thesis by (simp add: parse_u32_def parse_digits_show_nat)
qed

lemma bt_get_fold_env:
  "\<not> prefix ''env:'' k \<Longrightarrow> bt_get (fold (\<lambda>(e, v) m. bt_insert (''env:'' @ e) v m) env m) k = bt_get m k"
  by (induction env arbitrary: m) (auto simp: bt_get_insert)

lemmas profile_metadata_keys = PROCESS_JOB_PROFILE_METADATA_NAME_def PROCESS_JOB_PROFILE_METADATA_SCHEMA_VERSION_def
  PROCESS_JOB_PROFILE_METADATA_SOURCE_def PROCESS_JOB_PROFILE_METADATA_POLICY_def

lemma profile_metadata_get:
  "bt_get (profile_metadata name p ev) PROCESS_JOB_PROFILE_METADATA_NAME = Some name"
  "bt_get (profile_metadata name p ev) PROCESS_JOB_PROFILE_METADATA_SCHEMA_VERSION =
     Some (show_nat (unat (ev_manifest_schema_version ev)))"
  "bt_get (profile_metadata name p ev) PROCESS_JOB_PROFILE_METADATA_SOURCE = Some (ev_profile_source ev)"
  "bt_get (profile_metadata name p ev) PROCESS_JOB_PROFILE_METADATA_POLICY = Some (ev_policy_source ev)"
  unfolding profile_metadata_def Let_def
  by (subst bt_get_fold_env; simp add: bt_get_insert profile_metadata_keys)+

text \<open>The evidence of a resolution survives in the request's metadata: whatever metadata
  and environment the profile declares, reading the receipt metadata back gives the profile's name
  and the schema version, source and policy of the evidence.\<close>

lemma profile_metadata_roundtrip:
  "from_metadata (profile_metadata name p ev) =
     Some \<lparr>pm_profile_name = name, pm_manifest_schema_version = ev_manifest_schema_version ev,
       pm_profile_source = ev_profile_source ev, pm_policy_source = ev_policy_source ev\<rparr>"
  by (simp add: from_metadata_def profile_metadata_get parse_u32_show)

end
