(* ===== verification/Tool_Access.thy ===== *)
theory Tool_Access
  imports Text
begin

text \<open>
  The tool patterns of a session, \<^verbatim>\<open>crates/clankers-controller/src/capability.rs\<close>: which tools a set of
  patterns allows and how a requested set is clamped to a ceiling. No set at all means full access.
\<close>

type_synonym tool_patterns = "string list option"

definition comma :: char where "comma = CHR '',''"

text \<open>\<^verbatim>\<open>p.split(',').map(str::trim)\<close>\<close>

definition pattern_names :: "string \<Rightarrow> string list" where
  "pattern_names p = map trim (split_on comma p)"

definition is_tool_allowed :: "string \<Rightarrow> tool_patterns \<Rightarrow> bool" where
  "is_tool_allowed tool_name caps = (case caps of
     None \<Rightarrow> True
   | Some patterns \<Rightarrow>
       list_ex (\<lambda>pattern. pattern = ''*'' \<or>
         list_ex (\<lambda>name. name = tool_name \<or> name = ''*'') (pattern_names pattern)) patterns)"

definition clamp_pattern :: "string set \<Rightarrow> string \<Rightarrow> string option" where
  "clamp_pattern parent_tools cap =
     (let allowed = filter (\<lambda>t. t = ''*'' \<and> ''*'' \<in> parent_tools \<or> t \<in> parent_tools) (pattern_names cap)
      in if allowed = [] then None else Some (join_with [comma] allowed))"

definition clamp_capabilities :: "tool_patterns \<Rightarrow> tool_patterns \<Rightarrow> tool_patterns" where
  "clamp_capabilities parent child_requested = (case (parent, child_requested) of
     (None, child) \<Rightarrow> child
   | (Some parent_caps, None) \<Rightarrow> Some parent_caps
   | (Some parent_caps, Some child_caps) \<Rightarrow>
       let parent_tools = \<Union> (set ` pattern_names ` set parent_caps)
       in Some (List.map_filter (clamp_pattern parent_tools) child_caps))"

section \<open>Clamping intersects\<close>

lemma drop_prefixes_done:
  assumes "\<forall>w\<in>set ws. w \<noteq> []" "length s \<le> n"
  shows "\<forall>w\<in>set ws. \<not> prefix w (drop_prefixes n ws s)"
  using assms(2)
proof (induction n arbitrary: s)
  case 0
  then show ?case using assms(1) by simp
next
  case (Suc n)
  show ?case
  proof (cases "find (\<lambda>w. prefix w s) ws")
    case (Some w)
    then have "w \<noteq> []" using assms(1) by (auto simp: find_Some_iff)
    then have "length (drop (length w) s) \<le> n" using Suc.prems by (cases w) auto
    then show ?thesis using Suc.IH Some by simp
  next
    case None
    moreover from None have "\<forall>w\<in>set ws. \<not> prefix w s" by (simp add: find_None_iff)
    ultimately show ?thesis by simp
  qed
qed

lemma drop_suffixes_done:
  assumes "\<forall>w\<in>set ws. w \<noteq> []" "length s \<le> n"
  shows "\<forall>w\<in>set ws. \<not> suffix w (drop_suffixes n ws s)"
  using assms(2)
proof (induction n arbitrary: s)
  case 0
  then show ?case using assms(1) by simp
next
  case (Suc n)
  show ?case
  proof (cases "find (\<lambda>w. suffix w s) ws")
    case (Some w)
    then have "w \<noteq> []" "suffix w s" using assms(1) by (auto simp: find_Some_iff)
    then have "length (take (length s - length w) s) \<le> n"
      using Suc.prems by (cases w) (auto dest: suffix_length_le)
    then show ?thesis using Suc.IH Some by simp
  next
    case None
    moreover from None have "\<forall>w\<in>set ws. \<not> suffix w s" by (simp add: find_None_iff)
    ultimately show ?thesis by simp
  qed
qed

lemma drop_suffixes_prefix: "prefix (drop_suffixes n ws s) s"
proof (induction n arbitrary: s)
  case (Suc n)
  then show ?case
    by (auto split: option.split) (meson prefix_order.trans take_is_prefix)
qed simp

lemma drop_prefixes_set: "set (drop_prefixes n ws s) \<subseteq> set s"
  by (induction n arbitrary: s) (auto split: option.splits dest: in_set_dropD)

lemma drop_prefixes_stop: "\<forall>w\<in>set ws. \<not> prefix w s \<Longrightarrow> drop_prefixes n ws s = s"
proof -
  assume "\<forall>w\<in>set ws. \<not> prefix w s"
  then have "find (\<lambda>w. prefix w s) ws = None" by (simp add: find_None_iff)
  then show ?thesis by (cases n) simp_all
qed

lemma drop_suffixes_stop: "\<forall>w\<in>set ws. \<not> suffix w s \<Longrightarrow> drop_suffixes n ws s = s"
proof -
  assume "\<forall>w\<in>set ws. \<not> suffix w s"
  then have "find (\<lambda>w. suffix w s) ws = None" by (simp add: find_None_iff)
  then show ?thesis by (cases n) simp_all
qed

lemma trim_trim [simp]: "trim (trim s) = trim s"
proof -
  have ws: "\<forall>w\<in>set white_space. w \<noteq> []" using white_space_not_graphic by blast
  let ?t = "trim_start s"
  have "\<forall>w\<in>set white_space. \<not> prefix w ?t"
    using drop_prefixes_done [OF ws] by (simp add: trim_start_def)
  moreover have "prefix (trim s) ?t" by (simp add: trim_def trim_end_def drop_suffixes_prefix)
  ultimately have "\<forall>w\<in>set white_space. \<not> prefix w (trim s)" by (meson prefix_order.trans)
  then have "trim_start (trim s) = trim s" by (simp add: trim_start_def drop_prefixes_stop)
  moreover have "\<forall>w\<in>set white_space. \<not> suffix w (trim s)"
    using drop_suffixes_done [OF ws] by (simp add: trim_def trim_end_def)
  ultimately show ?thesis by (simp add: trim_def [of "trim s"] trim_end_def drop_suffixes_stop)
qed

lemma set_trim: "set (trim s) \<subseteq> set s"
  using drop_prefixes_set [of "length s" white_space s] set_mono_prefix [OF drop_suffixes_prefix, of "length (trim_start s)"]
  by (auto simp: trim_def trim_end_def trim_start_def)

lemma pattern_names_trimmed:
  assumes "x \<in> set (pattern_names p)"
  shows "trim x = x \<and> comma \<notin> set x"
proof -
  obtain y where y: "y \<in> set (split_on comma p)" "x = trim y" using assms by (auto simp: pattern_names_def)
  then show ?thesis using split_on_pieces [OF y(1)] set_trim [of y] by auto
qed

lemma pattern_names_join:
  assumes "set xs \<subseteq> set (pattern_names p)" "xs \<noteq> []"
  shows "pattern_names (join_with [comma] xs) = xs"
proof -
  have "\<forall>x\<in>set xs. trim x = x \<and> comma \<notin> set x" using assms(1) pattern_names_trimmed by blast
  then show ?thesis using assms(2) by (simp add: pattern_names_def split_on_join map_idI)
qed

text \<open>The names a set of patterns lists; a tool is allowed when its name or the wildcard is listed.\<close>

definition names_of :: "string list \<Rightarrow> string set" where
  "names_of ps = \<Union> (set ` pattern_names ` set ps)"

lemma pattern_names_star [simp]: "pattern_names ''*'' = [''*'']"
  by (simp add: pattern_names_def comma_def trim_plain is_graphic_def)

lemma allowed_iff: "is_tool_allowed t (Some ps) \<longleftrightarrow> t \<in> names_of ps \<or> ''*'' \<in> names_of ps"
proof -
  have "(pattern = ''*'' \<or> (\<exists>name\<in>set (pattern_names pattern). name = t \<or> name = ''*'')) \<longleftrightarrow>
      t \<in> set (pattern_names pattern) \<or> ''*'' \<in> set (pattern_names pattern)" for pattern
    by (cases "pattern = ''*''") auto
  then show ?thesis by (auto simp: is_tool_allowed_def list_ex_iff names_of_def)
qed

lemma clamp_names: "names_of (List.map_filter (clamp_pattern parent) child) = names_of child \<inter> parent"
proof (induction child)
  case Nil
  then show ?case by (simp add: names_of_def List.map_filter_simps)
next
  case (Cons p ps)
  let ?allowed = "filter (\<lambda>t. t = ''*'' \<and> ''*'' \<in> parent \<or> t \<in> parent) (pattern_names p)"
  have names: "names_of (q # qs) = set (pattern_names q) \<union> names_of qs" for q qs by (simp add: names_of_def)
  have "set ?allowed = set (pattern_names p) \<inter> parent" by auto
  moreover have "?allowed \<noteq> [] \<Longrightarrow> pattern_names (join_with [comma] ?allowed) = ?allowed"
    by (rule pattern_names_join [of _ p]) auto
  ultimately show ?case using Cons.IH
    by (cases "?allowed = []") (auto simp: List.map_filter_simps clamp_pattern_def names Let_def simp del: filter_empty_conv)
qed

lemma clamp_allowed:
  "clamp_capabilities ceiling requested = (case (ceiling, requested) of
     (None, r) \<Rightarrow> r | (Some ps, None) \<Rightarrow> Some ps
   | (Some ps, Some qs) \<Rightarrow> Some (List.map_filter (clamp_pattern (names_of ps)) qs))"
  by (simp add: clamp_capabilities_def names_of_def Let_def split: option.split)

lemma clamp_escalates:
  "is_tool_allowed t (clamp_capabilities ceiling requested) \<Longrightarrow> is_tool_allowed t ceiling \<and> is_tool_allowed t requested"
proof (cases "ceiling = None \<or> requested = None")
  case False
  assume "is_tool_allowed t (clamp_capabilities ceiling requested)"
  with False show ?thesis by (auto simp: clamp_allowed allowed_iff clamp_names)
qed (cases ceiling; cases requested; auto simp: clamp_allowed is_tool_allowed_def)

text \<open>Clamping never escalates. A tool that the clamped set allows is allowed both by the
  ceiling and by the request, and when neither of them uses the wildcard the clamped set allows exactly
  the tools that both allow.\<close>

lemma clamp_never_escalates:
  "(is_tool_allowed t (clamp_capabilities ceiling requested) \<longrightarrow>
      is_tool_allowed t ceiling \<and> is_tool_allowed t requested) \<and>
   ((\<forall>ps. ceiling = Some ps \<or> requested = Some ps \<longrightarrow> ''*'' \<notin> names_of ps) \<longrightarrow>
      is_tool_allowed t (clamp_capabilities ceiling requested) =
      (is_tool_allowed t ceiling \<and> is_tool_allowed t requested))"
proof (cases "ceiling = None \<or> requested = None")
  case True
  then show ?thesis by (cases ceiling; cases requested) (auto simp: clamp_allowed is_tool_allowed_def)
next
  case False
  then show ?thesis by (auto simp: clamp_allowed allowed_iff clamp_names)
qed

end
