(* ===== verification/Controller.thy ===== *)
theory Controller
  imports Core Tool_Access
begin

text \<open>
  The session controller, \<^verbatim>\<open>crates/clankers-controller\<close>: it drives the core reducer from client commands
  and carries out its effects. The definitions follow \<^verbatim>\<open>lib.rs\<close>, \<^verbatim>\<open>effect_interpretation.rs\<close>,
  \<^verbatim>\<open>core_effects.rs\<close>, \<^verbatim>\<open>loop_mode.rs\<close>, \<^verbatim>\<open>auto_test.rs\<close>, \<^verbatim>\<open>command.rs\<close>, \<^verbatim>\<open>command_thinking.rs\<close> and
  \<^verbatim>\<open>event_processing.rs\<close>. A handler that contains \<^verbatim>\<open>expect\<close> or \<^verbatim>\<open>unreachable!\<close> returns an option, and
  \<^term>\<open>None\<close> is the panic. Debug assertions and log output are not part of the model.

  The loop engine is the crate \<^verbatim>\<open>clanker-loop\<close> from another repository: its operations are the fields of
  \<open>loop_port\<close>, over an engine state of any type. The agent behind the runtime adapter is the record
  \<open>agent_port\<close>. Audit, metrics, hooks and persistence only observe agent events and are left out.
\<close>

section \<open>Interfaces\<close>

datatype loop_status = LoopCompleted | LoopStopped | LoopFailed | LoopOther

record loop_engine_state =
  ls_status :: loop_status
  ls_current_iteration :: u32
  ls_action_prompt :: "string option"

text \<open>\<^verbatim>\<open>LoopDef::fixed\<close>, and \<^verbatim>\<open>LoopDef::until\<close> with a maximum, with the prompt of the action.\<close>

datatype loop_def = LoopFixed string u32 string | LoopUntil string string u32 string

record 'l loop_port =
  le_never :: "string \<Rightarrow> bool"
  le_register :: "loop_def \<Rightarrow> 'l \<Rightarrow> string option \<times> 'l"
  le_start :: "string \<Rightarrow> 'l \<Rightarrow> 'l"
  le_stop :: "string \<Rightarrow> 'l \<Rightarrow> 'l"
  le_remove :: "string \<Rightarrow> 'l \<Rightarrow> 'l"
  le_signal_break :: "string \<Rightarrow> 'l \<Rightarrow> 'l"
  le_record_iteration :: "string \<Rightarrow> string \<Rightarrow> 'l \<Rightarrow> bool \<times> 'l"
  le_get :: "'l \<Rightarrow> string \<Rightarrow> loop_engine_state option"

datatype runtime_control_request =
  ControlAbort | ControlResetCancel | ControlSetThinkingLevel core_thinking_level | ControlSetDisabledTools "string list"

datatype runtime_prompt_completion = RunSucceeded | RunCancelled | RunFailed string

record runtime_prompt_request =
  rq_session_id :: string
  rq_model :: string
  rq_text :: string
  rq_image_count :: u32

record tool_info =
  ti_name :: string
  ti_description :: string
  ti_source :: string

datatype 'v daemon_event =
    SystemMessage string bool
  | ModelChanged string string string
  | SystemPromptResponse string
  | DisabledToolsEvent "string list"
  | SessionCompaction nat nat
  | AutoTestChanged bool "string option"
  | ToolList "tool_info list"
  | HistoryBlock 'v
  | HistoryEnd
  | Capabilities tool_patterns
  | PluginList
  | AgentStart
  | PromptDone "string option"
  | Projected 'v

text \<open>Of an agent event the controller looks at a prompt start, a tool call, the text of a tool result and a
  system message; \<open>'v\<close> is the event as the daemon protocol carries it, if it does.\<close>

datatype agent_event_kind =
    BeforeAgentStart string
  | ToolCallEvent string string
  | ToolExecutionEnd "string list"
  | AgentSystemMessage string
  | OtherAgentEvent

type_synonym 'v agent_event = "agent_event_kind \<times> 'v option"

datatype seed_message = SeedUser string | SeedAssistant string string

text \<open>The agent as the runtime adapter offers it. Authorization fails with a message.\<close>

record ('a, 't, 'v) agent_port =
  ag_control :: "runtime_control_request \<Rightarrow> 'a \<Rightarrow> 'a"
  ag_clear_messages :: "'a \<Rightarrow> 'a"
  ag_truncate_messages :: "nat \<Rightarrow> 'a \<Rightarrow> 'a"
  ag_seed_messages :: "seed_message list \<Rightarrow> 'a \<Rightarrow> 'a"
  ag_set_system_prompt :: "string \<Rightarrow> 'a \<Rightarrow> 'a"
  ag_system_prompt :: "'a \<Rightarrow> string"
  ag_pop_last_exchange :: "'a \<Rightarrow> 'a"
  ag_compact_messages :: "'a \<Rightarrow> (nat \<times> nat) \<times> 'a"
  ag_set_user_tool_filter :: "tool_patterns \<Rightarrow> 'a \<Rightarrow> 'a"
  ag_apply_core_filtered_tools :: "'t list \<Rightarrow> 'a \<Rightarrow> 'a"
  ag_try_set_model :: "string \<Rightarrow> 'a \<Rightarrow> (string + unit) \<times> 'a"
  ag_check_session_manage :: "string \<Rightarrow> 'a \<Rightarrow> string + unit"
  ag_check_prompt :: "string \<Rightarrow> 'a \<Rightarrow> string + unit"
  ag_tool_infos :: "'a \<Rightarrow> tool_info list"
  ag_messages :: "'a \<Rightarrow> 'v list"
  ag_set_session_id :: "string \<Rightarrow> 'a \<Rightarrow> 'a"
  ag_set_tools :: "'t list \<Rightarrow> 'a \<Rightarrow> 'a"
  ag_describe :: "'t \<Rightarrow> tool_info"
  ag_abort :: "'a \<Rightarrow> 'a"
  ag_submit :: "runtime_prompt_request \<Rightarrow> 'a \<Rightarrow> runtime_prompt_completion \<times> 'v agent_event list \<times> 'v agent_event list \<times> 'a"

section \<open>Confirmation requests\<close>

text \<open>\<^verbatim>\<open>confirm.rs\<close>: the ids of the pending requests, whose senders are not modelled. A counter of 64 bits
  cannot overflow in practice; it wraps here.\<close>

record confirm_store =
  cs_pending :: "string set"
  cs_next_id :: u64

definition confirm_new :: confirm_store where "confirm_new = \<lparr>cs_pending = {}, cs_next_id = 1\<rparr>"

definition confirm_register :: "confirm_store \<Rightarrow> string \<times> confirm_store" where
  "confirm_register s = (let i = ''req-'' @ show_nat (unat (cs_next_id s))
     in (i, \<lparr>cs_pending = insert i (cs_pending s), cs_next_id = cs_next_id s + 1\<rparr>))"

text \<open>\<^verbatim>\<open>respond\<close> with \<open>delivered\<close>, whether the requester still waits.\<close>

definition confirm_respond :: "string \<Rightarrow> bool \<Rightarrow> confirm_store \<Rightarrow> bool \<times> confirm_store" where
  "confirm_respond i delivered s = (if i \<in> cs_pending s
     then (delivered, s\<lparr>cs_pending := cs_pending s - {i}\<rparr>) else (False, s))"

definition confirm_pending_count :: "confirm_store \<Rightarrow> nat" where
  "confirm_pending_count s = card (cs_pending s)"

definition confirm_clear :: "confirm_store \<Rightarrow> confirm_store" where
  "confirm_clear s = s\<lparr>cs_pending := {}\<rparr>"

section \<open>The controller's state\<close>

type_synonym pending_work_id = u64

datatype shell_prompt_completion = ShellSucceeded | ShellCancelled | ShellFailed string

fun completion_to_core :: "shell_prompt_completion \<Rightarrow> completion_status" where
  "completion_to_core ShellSucceeded = Succeeded"
| "completion_to_core ShellCancelled = Failed Cancelled"
| "completion_to_core (ShellFailed message) = Failed (FailureMessage message)"

datatype shell_follow_up_dispatch = ShellAccepted | ShellRejected string

fun dispatch_to_core :: "shell_follow_up_dispatch \<Rightarrow> follow_up_dispatch_status" where
  "dispatch_to_core ShellAccepted = DispatchAccepted"
| "dispatch_to_core (ShellRejected message) = DispatchRejected (FailureMessage message)"

datatype post_prompt_action =
    NoAction
  | ReplayQueued
  | ContinueLoop pending_work_id string
  | RunAutoTest pending_work_id string

record ('a, 'l, 't, 'v) session_controller =
  c_agent :: "'a option"
  c_core_state :: core_state
  c_loop_engine :: 'l
  c_active_loop_id :: "string option"
  c_loop_turn_output :: string
  c_tool_call_names :: "string \<rightharpoonup> string"
  c_bash_confirms :: confirm_store
  c_todo_confirms :: confirm_store
  c_outgoing :: "'v daemon_event list"
  c_busy :: bool
  c_auto_test_in_progress :: bool
  c_auto_test_command :: "string option"
  c_auto_test_enabled :: bool
  c_session_id :: string
  c_capabilities :: tool_patterns
  c_capability_ceiling :: tool_patterns
  c_model :: string
  c_disabled_tools :: "string list"
  c_tool_rebuilder :: "(string list \<Rightarrow> 't list) option"

record controller_config =
  cf_session_id :: string
  cf_model :: string
  cf_capabilities :: tool_patterns
  cf_capability_ceiling :: tool_patterns
  cf_initial_thinking_level :: core_thinking_level
  cf_auto_test_enabled :: bool
  cf_auto_test_command :: "string option"

definition controller_new ::
  "'a option \<Rightarrow> 'l \<Rightarrow> controller_config \<Rightarrow> ('a, 'l, 't, 'v) session_controller" where
  "controller_new agent engine cfg =
     \<lparr>c_agent = agent,
      c_core_state = core_default\<lparr>thinking_level := cf_initial_thinking_level cfg,
        auto_test_enabled := cf_auto_test_enabled cfg, auto_test_command := cf_auto_test_command cfg\<rparr>,
      c_loop_engine = engine, c_active_loop_id = None, c_loop_turn_output = [], c_tool_call_names = Map.empty,
      c_bash_confirms = confirm_new, c_todo_confirms = confirm_new,
      c_outgoing = [], c_busy = False, c_auto_test_in_progress = False,
      c_auto_test_command = cf_auto_test_command cfg, c_auto_test_enabled = cf_auto_test_enabled cfg,
      c_session_id = cf_session_id cfg, c_capabilities = cf_capabilities cfg,
      c_capability_ceiling = (case cf_capability_ceiling cfg of None \<Rightarrow> cf_capabilities cfg | Some c \<Rightarrow> Some c),
      c_model = cf_model cfg, c_disabled_tools = [], c_tool_rebuilder = None\<rparr>"

definition emit :: "'v daemon_event \<Rightarrow> ('a, 'l, 't, 'v) session_controller \<Rightarrow> ('a, 'l, 't, 'v) session_controller" where
  "emit e c = c\<lparr>c_outgoing := c_outgoing c @ [e]\<rparr>"

definition apply_core_state ::
  "core_state \<Rightarrow> ('a, 'l, 't, 'v) session_controller \<Rightarrow> ('a, 'l, 't, 'v) session_controller" where
  "apply_core_state s c = c\<lparr>c_busy := busy s, c_disabled_tools := disabled_tools s,
     c_auto_test_enabled := auto_test_enabled s, c_auto_test_command := auto_test_command s,
     c_auto_test_in_progress := auto_test_in_progress s, c_core_state := s\<rparr>"

definition set_auto_test ::
  "bool \<Rightarrow> string option \<Rightarrow> ('a, 'l, 't, 'v) session_controller \<Rightarrow> ('a, 'l, 't, 'v) session_controller" where
  "set_auto_test enabled command c = c\<lparr>c_auto_test_enabled := enabled, c_auto_test_command := command,
     c_core_state := (c_core_state c)\<lparr>auto_test_enabled := enabled, auto_test_command := command\<rparr>\<rparr>"

definition register_bash_confirm ::
  "('a, 'l, 't, 'v) session_controller \<Rightarrow> string \<times> ('a, 'l, 't, 'v) session_controller" where
  "register_bash_confirm c = (case confirm_register (c_bash_confirms c) of (i, s) \<Rightarrow> (i, c\<lparr>c_bash_confirms := s\<rparr>))"

definition current_tool_infos ::
  "('a, 't, 'v) agent_port \<Rightarrow> ('a, 'l, 't, 'v) session_controller \<Rightarrow> tool_info list" where
  "current_tool_infos ag c = (case c_agent c of None \<Rightarrow> [] | Some a \<Rightarrow> ag_tool_infos ag a)"

text \<open>\<^verbatim>\<open>with_agent_runtime_adapter\<close> for an operation without a result.\<close>

definition with_agent ::
  "('a \<Rightarrow> 'a) \<Rightarrow> ('a, 'l, 't, 'v) session_controller \<Rightarrow> ('a, 'l, 't, 'v) session_controller" where
  "with_agent f c = c\<lparr>c_agent := map_option f (c_agent c)\<rparr>"

text \<open>The plain setters, the refresh of the tool list and the shutdown, whose flush of the session ledger and
  whose hook are not modelled.\<close>

definition set_tool_rebuilder ::
  "(string list \<Rightarrow> 't list) \<Rightarrow> ('a, 'l, 't, 'v) session_controller \<Rightarrow> ('a, 'l, 't, 'v) session_controller" where
  "set_tool_rebuilder rebuild c = c\<lparr>c_tool_rebuilder := Some rebuild\<rparr>"

definition refresh_tools ::
  "('a, 't, 'v) agent_port \<Rightarrow> ('a, 'l, 't, 'v) session_controller \<Rightarrow> bool \<times> ('a, 'l, 't, 'v) session_controller" where
  "refresh_tools ag c = (case c_tool_rebuilder c of
     None \<Rightarrow> (False, c)
   | Some rebuild \<Rightarrow>
       if c_agent c = None then (False, c)
       else
         let before = current_tool_infos ag c;
             rebuilt = rebuild (c_disabled_tools c)
         in if before = map (ag_describe ag) rebuilt then (False, c)
            else (True, with_agent (ag_set_tools ag rebuilt) c))"

definition set_session_id ::
  "('a, 't, 'v) agent_port \<Rightarrow> string \<Rightarrow> ('a, 'l, 't, 'v) session_controller \<Rightarrow> ('a, 'l, 't, 'v) session_controller" where
  "set_session_id ag i c = with_agent (ag_set_session_id ag i) (c\<lparr>c_session_id := i\<rparr>)"

definition set_model_name ::
  "string \<Rightarrow> ('a, 'l, 't, 'v) session_controller \<Rightarrow> ('a, 'l, 't, 'v) session_controller" where
  "set_model_name model c = c\<lparr>c_model := model\<rparr>"

definition shutdown ::
  "('a, 't, 'v) agent_port \<Rightarrow> ('a, 'l, 't, 'v) session_controller \<Rightarrow> ('a, 'l, 't, 'v) session_controller" where
  "shutdown ag c = (if c_busy c then with_agent (ag_abort ag) c else c)"

section \<open>Interpretation of core effects\<close>

definition find_map :: "('x \<Rightarrow> 'y option) \<Rightarrow> 'x list \<Rightarrow> 'y option" where
  "find_map f xs = (case List.map_filter f xs of [] \<Rightarrow> None | y # _ \<Rightarrow> Some y)"

datatype accepted_prompt_kind = UserPromptKind | FollowUpKind follow_up_source

record accepted_prompt_start =
  ap_core_effect_id :: core_effect_id
  ap_kind :: accepted_prompt_kind
  ap_prompt_text :: string
  ap_image_count :: u32

datatype accepted_engine_prompt = AcceptedUserPrompt accepted_prompt_start | AcceptedFollowUp accepted_prompt_start

fun prompt_start :: "accepted_engine_prompt \<Rightarrow> accepted_prompt_start" where
  "prompt_start (AcceptedUserPrompt p) = p"
| "prompt_start (AcceptedFollowUp p) = p"

datatype core_effect_gate_rejection =
  CoreRejected core_error | MissingEnginePromptEffect | ReplayQueuedPromptNeedsFreshCorePrompt | UnexpectedCoreEffect

definition FOLLOW_UP_IMAGE_COUNT :: u32 where "FOLLOW_UP_IMAGE_COUNT = 0"

fun prompt_candidate :: "core_effect \<Rightarrow> accepted_engine_prompt option" where
  "prompt_candidate (StartPrompt eid text n) = Some (AcceptedUserPrompt
     \<lparr>ap_core_effect_id = eid, ap_kind = UserPromptKind, ap_prompt_text = text, ap_image_count = n\<rparr>)"
| "prompt_candidate (RunLoopFollowUp eid text source) = Some (AcceptedFollowUp
     \<lparr>ap_core_effect_id = eid, ap_kind = FollowUpKind source, ap_prompt_text = text,
      ap_image_count = FOLLOW_UP_IMAGE_COUNT\<rparr>)"
| "prompt_candidate _ = None"

fun accepted_loop ::
  "core_effect list \<Rightarrow> bool \<Rightarrow> accepted_engine_prompt option \<Rightarrow> core_effect_gate_rejection + accepted_engine_prompt" where
  "accepted_loop [] replayed accepted = (case accepted of
     Some p \<Rightarrow> Inr p
   | None \<Rightarrow> Inl (if replayed then ReplayQueuedPromptNeedsFreshCorePrompt else MissingEnginePromptEffect))"
| "accepted_loop (e # es) replayed accepted =
     (case prompt_candidate e of
        Some p \<Rightarrow> if accepted \<noteq> None then Inl UnexpectedCoreEffect else accepted_loop es replayed (Some p)
      | None \<Rightarrow> accepted_loop es (replayed \<or> e = ReplayQueuedPrompt) accepted)"

definition accepted_engine_prompt_from_core_outcome ::
  "core_outcome \<Rightarrow> core_effect_gate_rejection + accepted_engine_prompt" where
  "accepted_engine_prompt_from_core_outcome out = (case out of
     Rejected _ err \<Rightarrow> Inl (CoreRejected err)
   | Transitioned _ effects \<Rightarrow> accepted_loop effects False None)"

definition interpret_prompt_request :: "core_effect list \<Rightarrow> string \<Rightarrow> u32 \<Rightarrow> accepted_prompt_start option" where
  "interpret_prompt_request effects text n = find_map (\<lambda>e. case e of
     StartPrompt eid t k \<Rightarrow>
       if t = text \<and> k = n
       then Some \<lparr>ap_core_effect_id = eid, ap_kind = UserPromptKind, ap_prompt_text = t, ap_image_count = k\<rparr>
       else None
   | _ \<Rightarrow> None) effects"

definition has_busy_change :: "core_effect list \<Rightarrow> bool \<Rightarrow> bool" where
  "has_busy_change effects expected \<longleftrightarrow> list_ex (\<lambda>e. e = EmitLogicalEvent (BusyChanged expected)) effects"

record thinking_effect_execution =
  te_previous :: core_thinking_level
  te_current :: core_thinking_level

definition interpret_thinking_change :: "core_effect list \<Rightarrow> thinking_effect_execution option" where
  "interpret_thinking_change effects = find_map (\<lambda>e. case e of
     EmitLogicalEvent (ThinkingLevelChanged p c) \<Rightarrow> Some \<lparr>te_previous = p, te_current = c\<rparr> | _ \<Rightarrow> None) effects"

definition applied_thinking_levels :: "core_effect list \<Rightarrow> core_thinking_level list" where
  "applied_thinking_levels effects =
     List.map_filter (\<lambda>e. case e of ApplyThinkingLevel l \<Rightarrow> Some l | _ \<Rightarrow> None) effects"

record tool_filter_application =
  tf_effect_id :: core_effect_id
  tf_disabled_tools :: "string list"

definition interpret_tool_filter_application :: "core_effect list \<Rightarrow> tool_filter_application option" where
  "interpret_tool_filter_application effects = find_map (\<lambda>e. case e of
     ApplyToolFilter eid tools \<Rightarrow> Some \<lparr>tf_effect_id = eid, tf_disabled_tools = tools\<rparr> | _ \<Rightarrow> None) effects"

definition disabled_tools_changed :: "core_effect list \<Rightarrow> string list option" where
  "disabled_tools_changed effects = find_map (\<lambda>e. case e of
     EmitLogicalEvent (DisabledToolsChanged tools) \<Rightarrow> Some tools | _ \<Rightarrow> None) effects"

definition loop_cleared :: core_effect where "loop_cleared = EmitLogicalEvent (LoopStateChanged None)"

section \<open>Loops\<close>

record loop_config =
  lo_name :: string
  lo_prompt :: "string option"
  lo_max_iterations :: u32
  lo_break_text :: "string option"

definition or_default :: "string option \<Rightarrow> string" where
  "or_default s = (case s of None \<Rightarrow> [] | Some t \<Rightarrow> t)"

definition loop_def_of :: "'l loop_port \<Rightarrow> loop_config \<Rightarrow> loop_def" where
  "loop_def_of le cfg =
     (let never = (case lo_break_text cfg of None \<Rightarrow> True | Some text \<Rightarrow> le_never le text)
      in if never then LoopFixed (lo_name cfg) (lo_max_iterations cfg) (or_default (lo_prompt cfg))
         else LoopUntil (lo_name cfg) (or_default (lo_break_text cfg)) (lo_max_iterations cfg) (or_default (lo_prompt cfg)))"

definition start_loop ::
  "'l loop_port \<Rightarrow> loop_config \<Rightarrow> ('a, 'l, 't, 'v) session_controller \<Rightarrow>
   string option \<times> ('a, 'l, 't, 'v) session_controller" where
  "start_loop le cfg c =
     (case le_register le (loop_def_of le cfg) (c_loop_engine c) of
        (None, engine) \<Rightarrow>
          (None, emit (SystemMessage ''Loop registration failed: too many active loops'' True)
             (c\<lparr>c_loop_engine := engine\<rparr>))
      | (Some i, engine) \<Rightarrow>
          (Some i, c\<lparr>c_loop_engine := le_start le i engine, c_active_loop_id := Some i,
             c_core_state := (c_core_state c)\<lparr>active_loop := Some \<lparr>loop_id = i,
               loop_prompt_text = or_default (lo_prompt cfg), current_iteration = 0,
               max_iterations = lo_max_iterations cfg, break_condition = lo_break_text cfg\<rparr>\<rparr>\<rparr>))"

record observed_loop_progress =
  op_active_loop_state :: "active_loop_state option"
  op_completion_reason :: "string option"

definition completion_reason_of :: "loop_engine_state option \<Rightarrow> string" where
  "completion_reason_of st = (case st of
     None \<Rightarrow> ''finished''
   | Some s \<Rightarrow> (case ls_status s of
       LoopCompleted \<Rightarrow> ''completed''
     | LoopStopped \<Rightarrow> ''max iterations reached''
     | LoopFailed \<Rightarrow> ''failed''
     | _ \<Rightarrow> ''finished''))"

definition observe_post_prompt_loop_state ::
  "'l loop_port \<Rightarrow> ('a, 'l, 't, 'v) session_controller \<Rightarrow>
   observed_loop_progress \<times> ('a, 'l, 't, 'v) session_controller" where
  "observe_post_prompt_loop_state le c = (case c_active_loop_id c of
     None \<Rightarrow> (\<lparr>op_active_loop_state = None, op_completion_reason = None\<rparr>, c)
   | Some i \<Rightarrow>
       let (continues, engine) = le_record_iteration le i (c_loop_turn_output c) (c_loop_engine c);
           c = c\<lparr>c_loop_turn_output := [], c_loop_engine := engine\<rparr>
       in if \<not> continues
          then (\<lparr>op_active_loop_state = None,
                 op_completion_reason = Some (completion_reason_of (le_get le engine i))\<rparr>, c)
          else
            let previous = active_loop (c_core_state c);
                next_state = map_option (\<lambda>st. \<lparr>loop_id = i, loop_prompt_text = or_default (ls_action_prompt st),
                  current_iteration = ls_current_iteration st,
                  max_iterations = (case previous of None \<Rightarrow> 0 | Some p \<Rightarrow> max_iterations p),
                  break_condition = Option.bind previous break_condition\<rparr>) (le_get le engine i)
            in (\<lparr>op_active_loop_state = next_state, op_completion_reason = None\<rparr>, c))"

definition finish_loop ::
  "'l loop_port \<Rightarrow> string \<Rightarrow> ('a, 'l, 't, 'v) session_controller \<Rightarrow> ('a, 'l, 't, 'v) session_controller" where
  "finish_loop le reason c =
     (let iteration = (case Option.bind (c_active_loop_id c) (le_get le (c_loop_engine c)) of
            None \<Rightarrow> 0 | Some s \<Rightarrow> ls_current_iteration s);
          c = c\<lparr>c_loop_engine := (case c_active_loop_id c of None \<Rightarrow> c_loop_engine c
                | Some i \<Rightarrow> le_remove le i (c_loop_engine c)),
                c_active_loop_id := None, c_loop_turn_output := [],
                c_core_state := (c_core_state c)\<lparr>active_loop := None, pending_follow_up := None\<rparr>\<rparr>
      in emit (SystemMessage (''Loop '' @ reason @ '' after '' @ show_nat (unat iteration) @ '' iteration(s).'') False) c)"

definition maybe_continue_loop ::
  "'l loop_port \<Rightarrow> ('a, 'l, 't, 'v) session_controller \<Rightarrow> string option \<times> ('a, 'l, 't, 'v) session_controller" where
  "maybe_continue_loop le c =
     (let (observed, c) = observe_post_prompt_loop_state le c
      in case op_completion_reason observed of
           Some reason \<Rightarrow> (None, finish_loop le reason c)
         | None \<Rightarrow>
             (map_option loop_prompt_text (op_active_loop_state observed),
              c\<lparr>c_core_state := (c_core_state c)\<lparr>active_loop := op_active_loop_state observed\<rparr>\<rparr>))"

definition stop_loop ::
  "'l loop_port \<Rightarrow> ('a, 'l, 't, 'v) session_controller \<Rightarrow> ('a, 'l, 't, 'v) session_controller" where
  "stop_loop le c = finish_loop le ''stopped by user''
     (case c_active_loop_id c of None \<Rightarrow> c | Some i \<Rightarrow> c\<lparr>c_loop_engine := le_stop le i (c_loop_engine c)\<rparr>)"

definition signal_loop_break ::
  "'l loop_port \<Rightarrow> ('a, 'l, 't, 'v) session_controller \<Rightarrow> ('a, 'l, 't, 'v) session_controller" where
  "signal_loop_break le c = (case c_active_loop_id c of
     None \<Rightarrow> c | Some i \<Rightarrow> c\<lparr>c_loop_engine := le_signal_break le i (c_loop_engine c)\<rparr>)"

definition has_active_loop :: "('a, 'l, 't, 'v) session_controller \<Rightarrow> bool" where
  "has_active_loop c \<longleftrightarrow> c_active_loop_id c \<noteq> None"

section \<open>Carrying out core effects\<close>

definition execute_prompt_request_effects ::
  "core_effect list \<Rightarrow> string \<Rightarrow> u32 \<Rightarrow> accepted_engine_prompt option" where
  "execute_prompt_request_effects effects text n =
     map_option AcceptedUserPrompt (interpret_prompt_request effects text n)"

definition execute_prompt_completion_effects ::
  "'l loop_port \<Rightarrow> core_effect list \<Rightarrow> ('a, 'l, 't, 'v) session_controller \<Rightarrow> ('a, 'l, 't, 'v) session_controller" where
  "execute_prompt_completion_effects le effects c =
     fold (\<lambda>e c. if e = loop_cleared \<and> c_active_loop_id c \<noteq> None then finish_loop le ''failed (error)'' c else c)
       effects c"

definition execute_thinking_effects ::
  "('a, 't, 'v) agent_port \<Rightarrow> core_effect list \<Rightarrow> ('a, 'l, 't, 'v) session_controller \<Rightarrow>
   (thinking_effect_execution \<times> ('a, 'l, 't, 'v) session_controller) option" where
  "execute_thinking_effects ag effects c =
     (let c = fold (\<lambda>level. with_agent (ag_control ag (ControlSetThinkingLevel level))) (applied_thinking_levels effects) c
      in map_option (\<lambda>change. (change, c)) (interpret_thinking_change effects))"

definition execute_tool_filter_feedback_effects ::
  "core_effect list \<Rightarrow> ('a, 'l, 't, 'v) session_controller \<Rightarrow> ('a, 'l, 't, 'v) session_controller" where
  "execute_tool_filter_feedback_effects effects c = (case disabled_tools_changed effects of
     None \<Rightarrow> c | Some tools \<Rightarrow> emit (DisabledToolsEvent tools) c)"

definition apply_tool_filter_feedback ::
  "tool_filter_applied \<Rightarrow> ('a, 'l, 't, 'v) session_controller \<Rightarrow> bool \<times> ('a, 'l, 't, 'v) session_controller" where
  "apply_tool_filter_feedback feedback c = (case core_reduce (c_core_state c) (ToolFilterApplied feedback) of
     Transitioned s effects \<Rightarrow> (True, execute_tool_filter_feedback_effects effects (apply_core_state s c))
   | Rejected _ _ \<Rightarrow> (False, emit (SystemMessage ''Disabled tools update rejected'' True) c))"

definition execute_tool_filter_request_effects ::
  "('a, 't, 'v) agent_port \<Rightarrow> core_effect list \<Rightarrow> ('a, 'l, 't, 'v) session_controller \<Rightarrow>
   bool \<times> ('a, 'l, 't, 'v) session_controller" where
  "execute_tool_filter_request_effects ag effects c = (case interpret_tool_filter_application effects of
     None \<Rightarrow> (True, c)
   | Some application \<Rightarrow>
       let c = (case c_tool_rebuilder c of
                  None \<Rightarrow> c
                | Some rebuild \<Rightarrow>
                    let filtered = rebuild (tf_disabled_tools application)
                    in with_agent (\<lambda>a. ag_apply_core_filtered_tools ag filtered
                         (ag_control ag (ControlSetDisabledTools (tf_disabled_tools application)) a)) c)
       in apply_tool_filter_feedback \<lparr>ta_effect_id = tf_effect_id application,
            applied_disabled_tool_set = tf_disabled_tools application\<rparr> c)"

text \<open>The loop over effects stores the loop the core announced; a failed registration clears it.\<close>

fun start_loop_effects ::
  "'l loop_port \<Rightarrow> core_effect list \<Rightarrow> ('a, 'l, 't, 'v) session_controller \<Rightarrow> ('a, 'l, 't, 'v) session_controller" where
  "start_loop_effects le [] c = c"
| "start_loop_effects le (e # es) c = (case e of
     EmitLogicalEvent (LoopStateChanged (Some al)) \<Rightarrow>
       (case start_loop le \<lparr>lo_name = loop_id al, lo_prompt = Some (loop_prompt_text al),
              lo_max_iterations = max_iterations al, lo_break_text = break_condition al\<rparr> c of
          (None, c) \<Rightarrow> start_loop_effects le es (c\<lparr>c_core_state := (c_core_state c)\<lparr>active_loop := None\<rparr>\<rparr>)
        | (Some _, c) \<Rightarrow> start_loop_effects le es c)
   | _ \<Rightarrow> start_loop_effects le es c)"

definition execute_start_loop_effects ::
  "'l loop_port \<Rightarrow> core_effect list \<Rightarrow> ('a, 'l, 't, 'v) session_controller \<Rightarrow> ('a, 'l, 't, 'v) session_controller" where
  "execute_start_loop_effects le effects c = start_loop_effects le effects c"

definition execute_stop_loop_effects ::
  "'l loop_port \<Rightarrow> core_effect list \<Rightarrow> ('a, 'l, 't, 'v) session_controller \<Rightarrow> ('a, 'l, 't, 'v) session_controller" where
  "execute_stop_loop_effects le effects c = fold (\<lambda>e c. if e = loop_cleared then stop_loop le c else c) effects c"

definition action_of :: "core_effect_id \<Rightarrow> string \<Rightarrow> follow_up_source \<Rightarrow> post_prompt_action" where
  "action_of eid text source = (case source of
     LoopContinuation \<Rightarrow> ContinueLoop eid text | AutoTest \<Rightarrow> RunAutoTest eid text)"

fun post_prompt_loop ::
  "'l loop_port \<Rightarrow> core_effect list \<Rightarrow> string option \<Rightarrow> post_prompt_action \<Rightarrow> ('a, 'l, 't, 'v) session_controller \<Rightarrow>
   post_prompt_action \<times> ('a, 'l, 't, 'v) session_controller" where
  "post_prompt_loop le [] reason action c = (action, c)"
| "post_prompt_loop le (e # es) reason action c = (case e of
     ReplayQueuedPrompt \<Rightarrow> post_prompt_loop le es reason ReplayQueued c
   | RunLoopFollowUp eid text source \<Rightarrow> post_prompt_loop le es reason (action_of eid text source) c
   | EmitLogicalEvent (LoopStateChanged None) \<Rightarrow>
       (case reason of
          Some r \<Rightarrow> post_prompt_loop le es None action (finish_loop le r c)
        | None \<Rightarrow> post_prompt_loop le es None action c)
   | _ \<Rightarrow> post_prompt_loop le es reason action c)"

definition execute_post_prompt_effects ::
  "'l loop_port \<Rightarrow> core_effect list \<Rightarrow> string option \<Rightarrow> ('a, 'l, 't, 'v) session_controller \<Rightarrow>
   post_prompt_action \<times> ('a, 'l, 't, 'v) session_controller" where
  "execute_post_prompt_effects le effects reason c = post_prompt_loop le effects reason NoAction c"

definition execute_follow_up_failure_effects ::
  "'l loop_port \<Rightarrow> core_effect list \<Rightarrow> completion_status \<Rightarrow> ('a, 'l, 't, 'v) session_controller \<Rightarrow>
   ('a, 'l, 't, 'v) session_controller" where
  "execute_follow_up_failure_effects le effects status c =
     (if list_ex (\<lambda>e. e = loop_cleared) effects then finish_loop le ''failed (follow-up)'' c
      else if is_failed status then emit (SystemMessage ''Post-prompt follow-up failed'' True) c else c)"

definition execute_follow_up_dispatch_effects ::
  "'l loop_port \<Rightarrow> core_effect list \<Rightarrow> follow_up_dispatch_status \<Rightarrow> ('a, 'l, 't, 'v) session_controller \<Rightarrow>
   ('a, 'l, 't, 'v) session_controller" where
  "execute_follow_up_dispatch_effects le effects status c = (case status of
     DispatchAccepted \<Rightarrow> c
   | DispatchRejected failure \<Rightarrow> execute_follow_up_failure_effects le effects (Failed failure) c)"

definition execute_follow_up_completion_effects ::
  "'l loop_port \<Rightarrow> core_effect list \<Rightarrow> completion_status \<Rightarrow> ('a, 'l, 't, 'v) session_controller \<Rightarrow>
   ('a, 'l, 't, 'v) session_controller" where
  "execute_follow_up_completion_effects le effects status c = execute_follow_up_failure_effects le effects status c"

section \<open>Prompts and follow-ups\<close>

definition start_embedded_prompt_with_follow_up ::
  "string \<Rightarrow> u32 \<Rightarrow> pending_work_id option \<Rightarrow> ('a, 'l, 't, 'v) session_controller \<Rightarrow>
   (bool \<times> ('a, 'l, 't, 'v) session_controller) option" where
  "start_embedded_prompt_with_follow_up text n originating c =
     (case core_reduce (c_core_state c) (PromptRequested \<lparr>pr_text = text, pr_image_count = n,
          pr_originating_follow_up_effect_id = originating\<rparr>) of
        Transitioned s effects \<Rightarrow>
          (let c = apply_core_state s c
           in map_option (\<lambda>_. (True, c)) (execute_prompt_request_effects effects text n))
      | Rejected _ _ \<Rightarrow> Some (False, emit (SystemMessage ''Prompt start rejected'' True) c))"

definition start_embedded_prompt ::
  "string \<Rightarrow> u32 \<Rightarrow> ('a, 'l, 't, 'v) session_controller \<Rightarrow> (bool \<times> ('a, 'l, 't, 'v) session_controller) option" where
  "start_embedded_prompt text n c = start_embedded_prompt_with_follow_up text n None c"

definition apply_prompt_completion ::
  "'l loop_port \<Rightarrow> prompt_completed \<Rightarrow> ('a, 'l, 't, 'v) session_controller \<Rightarrow>
   bool \<times> ('a, 'l, 't, 'v) session_controller" where
  "apply_prompt_completion le completed c = (case core_reduce (c_core_state c) (PromptCompleted completed) of
     Transitioned s effects \<Rightarrow> (True, execute_prompt_completion_effects le effects (apply_core_state s c))
   | Rejected _ _ \<Rightarrow> (False, emit (SystemMessage ''Prompt completion rejected'' True) c))"

definition finish_embedded_prompt ::
  "'l loop_port \<Rightarrow> shell_prompt_completion \<Rightarrow> ('a, 'l, 't, 'v) session_controller \<Rightarrow> ('a, 'l, 't, 'v) session_controller" where
  "finish_embedded_prompt le status c = (case pending_prompt (c_core_state c) of
     None \<Rightarrow> emit (SystemMessage ''Embedded prompt completion rejected: no pending prompt'' True) c
   | Some pending \<Rightarrow> snd (apply_prompt_completion le
       \<lparr>pc_effect_id = pp_effect_id pending, pc_completion_status = completion_to_core status\<rparr> c))"

definition notify_prompt_done ::
  "'l loop_port \<Rightarrow> bool \<Rightarrow> ('a, 'l, 't, 'v) session_controller \<Rightarrow> ('a, 'l, 't, 'v) session_controller" where
  "notify_prompt_done le had_error c =
     finish_embedded_prompt le (if had_error then ShellFailed ''embedded prompt failed'' else ShellSucceeded) c"

definition maybe_auto_test ::
  "('a, 'l, 't, 'v) session_controller \<Rightarrow> string option \<times> ('a, 'l, 't, 'v) session_controller" where
  "maybe_auto_test c =
     (if \<not> c_auto_test_enabled c then (None, c)
      else if c_auto_test_in_progress c then (None, c)
      else if c_active_loop_id c \<noteq> None then (None, c)
      else case c_auto_test_command c of
        None \<Rightarrow> (None, c)
      | Some cmd \<Rightarrow>
          (Some (''Run `'' @ cmd @ ''` and fix any failures. Do not ask for confirmation.''),
           c\<lparr>c_auto_test_in_progress := True,
             c_core_state := (c_core_state c)\<lparr>auto_test_in_progress := True\<rparr>\<rparr>))"

definition clear_auto_test ::
  "('a, 'l, 't, 'v) session_controller \<Rightarrow> ('a, 'l, 't, 'v) session_controller" where
  "clear_auto_test c = c\<lparr>c_auto_test_in_progress := False,
     c_core_state := (c_core_state c)\<lparr>auto_test_in_progress := False\<rparr>\<rparr>"

definition check_post_prompt ::
  "'l loop_port \<Rightarrow> bool \<Rightarrow> ('a, 'l, 't, 'v) session_controller \<Rightarrow>
   post_prompt_action \<times> ('a, 'l, 't, 'v) session_controller" where
  "check_post_prompt le queued c =
     (let (observed, c) = observe_post_prompt_loop_state le c;
          evaluation = \<lparr>ev_active_loop_state = op_active_loop_state observed,
            ev_pending_follow_up_state = pending_follow_up (c_core_state c),
            ev_auto_test_enabled = c_auto_test_enabled c, ev_auto_test_command = c_auto_test_command c,
            ev_auto_test_in_progress = c_auto_test_in_progress c, ev_queued_prompt_present = queued\<rparr>
      in case core_reduce (c_core_state c) (EvaluatePostPrompt evaluation) of
           Transitioned s effects \<Rightarrow>
             execute_post_prompt_effects le effects (op_completion_reason observed) (apply_core_state s c)
         | Rejected _ _ \<Rightarrow> (NoAction, c))"

definition pending_dispatched_follow_up_id ::
  "('a, 'l, 't, 'v) session_controller \<Rightarrow> pending_work_id option" where
  "pending_dispatched_follow_up_id c =
     Option.bind (pending_prompt (c_core_state c)) pp_originating_follow_up_effect_id"

definition ack_follow_up_dispatch ::
  "'l loop_port \<Rightarrow> pending_work_id \<Rightarrow> shell_follow_up_dispatch \<Rightarrow> ('a, 'l, 't, 'v) session_controller \<Rightarrow>
   ('a, 'l, 't, 'v) session_controller" where
  "ack_follow_up_dispatch le wid status c =
     (case core_reduce (c_core_state c) (FollowUpDispatchAcknowledged
          \<lparr>fa_effect_id = wid, fa_dispatch_status = dispatch_to_core status\<rparr>) of
        Transitioned s effects \<Rightarrow>
          execute_follow_up_dispatch_effects le effects (dispatch_to_core status) (apply_core_state s c)
      | Rejected _ _ \<Rightarrow> emit (SystemMessage ''Post-prompt follow-up dispatch rejected'' True) c)"

definition completion_rejected ::
  "('a, 'l, 't, 'v) session_controller \<Rightarrow> ('a, 'l, 't, 'v) session_controller" where
  "completion_rejected c = emit (SystemMessage ''Post-prompt follow-up completion rejected'' True) c"

definition complete_dispatched_follow_up ::
  "'l loop_port \<Rightarrow> pending_work_id \<Rightarrow> shell_prompt_completion \<Rightarrow> ('a, 'l, 't, 'v) session_controller \<Rightarrow>
   ('a, 'l, 't, 'v) session_controller option" where
  "complete_dispatched_follow_up le wid status c =
     (let st = completion_to_core status;
          inp = LoopFollowUpCompleted \<lparr>lc_effect_id = wid, lc_completion_status = st\<rparr>
      in case core_reduce (c_core_state c) inp of
           Rejected _ _ \<Rightarrow> Some (completion_rejected c)
         | Transitioned s effects \<Rightarrow>
             (case pending_prompt (c_core_state c) of
                None \<Rightarrow>
                  if st = Failed Cancelled
                  then Some (execute_follow_up_completion_effects le effects st (apply_core_state s c))
                  else Some (completion_rejected c)
              | Some pending \<Rightarrow>
                  if pp_originating_follow_up_effect_id pending \<noteq> Some wid then Some (completion_rejected c)
                  else
                    (case apply_prompt_completion le
                        \<lparr>pc_effect_id = pp_effect_id pending, pc_completion_status = st\<rparr> c of
                       (False, c) \<Rightarrow> Some c
                     | (True, c) \<Rightarrow>
                         (case core_reduce (c_core_state c) inp of
                            Transitioned s effects \<Rightarrow>
                              Some (execute_follow_up_completion_effects le effects st (apply_core_state s c))
                          | Rejected _ _ \<Rightarrow> None))))"

definition sync_loop_status ::
  "'l loop_port \<Rightarrow> loop_config option \<Rightarrow> ('a, 'l, 't, 'v) session_controller \<Rightarrow> ('a, 'l, 't, 'v) session_controller" where
  "sync_loop_status le status c = (case (status, c_active_loop_id c) of
     (Some cfg, None) \<Rightarrow> snd (start_loop le cfg c)
   | (None, Some i) \<Rightarrow>
       c\<lparr>c_loop_engine := le_remove le i (le_stop le i (c_loop_engine c)), c_active_loop_id := None,
         c_loop_turn_output := [],
         c_core_state := (c_core_state c)\<lparr>active_loop := None, pending_follow_up := None\<rparr>\<rparr>
   | _ \<Rightarrow> c)"

definition loop_iteration :: "'l loop_port \<Rightarrow> ('a, 'l, 't, 'v) session_controller \<Rightarrow> u32 option" where
  "loop_iteration le c =
     map_option ls_current_iteration (Option.bind (c_active_loop_id c) (le_get le (c_loop_engine c)))"

end
