(* ===== verification/Controller_Commands.thy ===== *)
theory Controller_Commands
  imports Controller
begin

text \<open>
  The command interface of the session controller: \<^verbatim>\<open>command.rs\<close> with the whole dispatch of client
  commands and slash commands, \<^verbatim>\<open>command_thinking.rs\<close>, \<^verbatim>\<open>confirm.rs\<close> and the event pipeline of
  \<^verbatim>\<open>event_processing.rs\<close>. Commands are handled one after the other, as the code does: each handler has
  the controller for itself until it returns.
\<close>

section \<open>Authorization\<close>

definition emit_authorization_error ::
  "string \<Rightarrow> ('a, 'l, 't, 'v) session_controller \<Rightarrow> ('a, 'l, 't, 'v) session_controller" where
  "emit_authorization_error message c = emit (SystemMessage message True) c"

definition ensure_session_manage_authorized ::
  "('a, 't, 'v) agent_port \<Rightarrow> string \<Rightarrow> ('a, 'l, 't, 'v) session_controller \<Rightarrow>
   bool \<times> ('a, 'l, 't, 'v) session_controller" where
  "ensure_session_manage_authorized ag action c = (case c_agent c of
     None \<Rightarrow> (True, c)
   | Some a \<Rightarrow> (case ag_check_session_manage ag action a of
       Inr _ \<Rightarrow> (True, c) | Inl message \<Rightarrow> (False, emit_authorization_error message c)))"

definition ensure_prompt_authorized ::
  "('a, 't, 'v) agent_port \<Rightarrow> string \<Rightarrow> ('a, 'l, 't, 'v) session_controller \<Rightarrow>
   bool \<times> ('a, 'l, 't, 'v) session_controller" where
  "ensure_prompt_authorized ag text c = (case c_agent c of
     None \<Rightarrow> (True, c)
   | Some a \<Rightarrow> (case ag_check_prompt ag text a of
       Inr _ \<Rightarrow> (True, c) | Inl message \<Rightarrow> (False, emit_authorization_error message c)))"

text \<open>The guard of a handler: it runs \<open>f\<close> only when the action is authorized.\<close>

definition if_authorized ::
  "('a, 't, 'v) agent_port \<Rightarrow> string \<Rightarrow>
   (('a, 'l, 't, 'v) session_controller \<Rightarrow> ('a, 'l, 't, 'v) session_controller option) \<Rightarrow>
   ('a, 'l, 't, 'v) session_controller \<Rightarrow> ('a, 'l, 't, 'v) session_controller option" where
  "if_authorized ag action f c = (case ensure_session_manage_authorized ag action c of
     (False, c) \<Rightarrow> Some c | (True, c) \<Rightarrow> f c)"

definition set_model_from_command ::
  "('a, 't, 'v) agent_port \<Rightarrow> string \<Rightarrow> string \<Rightarrow> ('a, 'l, 't, 'v) session_controller \<Rightarrow>
   ('a, 'l, 't, 'v) session_controller" where
  "set_model_from_command ag model reason c =
     (let from = c_model c;
          (denied, c) = (case c_agent c of
             None \<Rightarrow> (None, c)
           | Some a \<Rightarrow> (case ag_try_set_model ag model a of
               (Inl message, a) \<Rightarrow> (Some message, c\<lparr>c_agent := Some a\<rparr>)
             | (Inr _, a) \<Rightarrow> (None, c\<lparr>c_agent := Some a\<rparr>)))
      in case denied of
           Some message \<Rightarrow> emit_authorization_error message c
         | None \<Rightarrow> emit (ModelChanged from model reason) (c\<lparr>c_model := model\<rparr>))"

section \<open>Thinking levels\<close>

text \<open>\<^verbatim>\<open>to_lowercase\<close> differs from its ASCII version only on non-ASCII characters; the one that becomes an
  ASCII letter alone is the Kelvin sign, a \<open>k\<close>, which none of the labels has.\<close>

definition parse_core_thinking_level :: "string \<Rightarrow> core_thinking_level option" where
  "parse_core_thinking_level level = (let l = to_ascii_lowercase (trim level)
     in if l \<in> {''off'', ''none'', ''disable'', ''disabled''} then Some Off
        else if l \<in> {''low'', ''lo'', ''l''} then Some Low
        else if l \<in> {''medium'', ''med'', ''m''} then Some Medium
        else if l \<in> {''high'', ''hi'', ''h''} then Some High
        else if l \<in> {''xhigh'', ''x-high'', ''extra-high'', ''max'', ''maximum'', ''full'', ''default''} then Some Max
        else None)"

definition parse_core_thinking_level_input :: "string \<Rightarrow> core_thinking_level_input" where
  "parse_core_thinking_level_input level = (case parse_core_thinking_level level of
     Some l \<Rightarrow> Level l | None \<Rightarrow> InvalidLevel level)"

fun thinking_label :: "core_thinking_level \<Rightarrow> string" where
  "thinking_label Off = ''off''"
| "thinking_label Low = ''low''"
| "thinking_label Medium = ''medium''"
| "thinking_label High = ''high''"
| "thinking_label Max = ''max''"

definition right_arrow :: string where "right_arrow = bytes_of [226, 134, 146]"

definition thinking_message :: "thinking_effect_execution \<Rightarrow> string" where
  "thinking_message change = ''Thinking: '' @ thinking_label (te_previous change) @ '' '' @ right_arrow @ '' '' @
     thinking_label (te_current change)"

definition handle_set_thinking_level ::
  "('a, 't, 'v) agent_port \<Rightarrow> string \<Rightarrow> ('a, 'l, 't, 'v) session_controller \<Rightarrow>
   ('a, 'l, 't, 'v) session_controller option" where
  "handle_set_thinking_level ag level c =
     (case core_reduce (c_core_state c) (SetThinkingLevel (parse_core_thinking_level_input level)) of
        Transitioned s effects \<Rightarrow>
          map_option (\<lambda>(change, c). emit (SystemMessage (thinking_message change) False) c)
            (execute_thinking_effects ag effects (apply_core_state s c))
      | Rejected _ (InvalidThinkingLevel raw) \<Rightarrow>
          Some (emit (SystemMessage (''Unknown thinking level: '' @ raw) True) c)
      | Rejected _ _ \<Rightarrow> None)"

definition handle_cycle_thinking_level ::
  "('a, 't, 'v) agent_port \<Rightarrow> ('a, 'l, 't, 'v) session_controller \<Rightarrow> ('a, 'l, 't, 'v) session_controller option" where
  "handle_cycle_thinking_level ag c = (case core_reduce (c_core_state c) CycleThinkingLevel of
     Transitioned s effects \<Rightarrow>
       map_option (\<lambda>(_, c). emit (SystemMessage ''Thinking level cycled'' False) c)
         (execute_thinking_effects ag effects (apply_core_state s c))
   | Rejected _ _ \<Rightarrow> None)"

section \<open>Disabled tools and loops\<close>

definition tools_message :: "string list \<Rightarrow> string" where
  "tools_message tools = ''Disabled tools updated: '' @ join_with '', '' tools"

definition handle_set_disabled_tools ::
  "('a, 't, 'v) agent_port \<Rightarrow> string list \<Rightarrow> ('a, 'l, 't, 'v) session_controller \<Rightarrow>
   ('a, 'l, 't, 'v) session_controller option" where
  "handle_set_disabled_tools ag tools c =
     (case core_reduce (c_core_state c) (SetDisabledTools \<lparr>requested_disabled_tools = tools\<rparr>) of
        Transitioned s effects \<Rightarrow>
          (case execute_tool_filter_request_effects ag effects (apply_core_state s c) of
             (True, c) \<Rightarrow> Some (emit (SystemMessage (tools_message tools) False) c)
           | (False, c) \<Rightarrow> Some c)
      | Rejected _ ToolFilterStillPending \<Rightarrow>
          Some (emit (SystemMessage ''Disabled tools update rejected: tool-filter rebuild still pending'' True) c)
      | Rejected _ _ \<Rightarrow> None)"

definition loop_control_rejected ::
  "('a, 'l, 't, 'v) session_controller \<Rightarrow> ('a, 'l, 't, 'v) session_controller" where
  "loop_control_rejected c = emit (SystemMessage ''Loop control rejected: loop follow-up still pending'' True) c"

definition handle_start_loop ::
  "'l loop_port \<Rightarrow> u32 \<Rightarrow> string \<Rightarrow> string option \<Rightarrow> ('a, 'l, 't, 'v) session_controller \<Rightarrow>
   ('a, 'l, 't, 'v) session_controller option" where
  "handle_start_loop le iterations prompt break_cond c =
     (case core_reduce (c_core_state c) (StartLoop \<lparr>lr_loop_id = ''loop-'' @ c_session_id c,
          lr_prompt_text = prompt, lr_max_iterations = iterations, lr_break_condition = break_cond\<rparr>) of
        Transitioned s effects \<Rightarrow> Some (execute_start_loop_effects le effects (apply_core_state s c))
      | Rejected _ LoopAlreadyActive \<Rightarrow> Some (emit (SystemMessage ''Loop already active'' True) c)
      | Rejected _ LoopFollowUpStillPending \<Rightarrow> Some (loop_control_rejected c)
      | Rejected _ _ \<Rightarrow> None)"

definition handle_stop_loop ::
  "'l loop_port \<Rightarrow> ('a, 'l, 't, 'v) session_controller \<Rightarrow> ('a, 'l, 't, 'v) session_controller option" where
  "handle_stop_loop le c = (case core_reduce (c_core_state c) StopLoop of
     Transitioned s effects \<Rightarrow> Some (execute_stop_loop_effects le effects (apply_core_state s c))
   | Rejected _ LoopNotActive \<Rightarrow> Some (emit (SystemMessage ''No active loop'' True) c)
   | Rejected _ LoopFollowUpStillPending \<Rightarrow> Some (loop_control_rejected c)
   | Rejected _ _ \<Rightarrow> None)"

section \<open>Agent events\<close>

definition append_line :: "string \<Rightarrow> string \<Rightarrow> string" where
  "append_line out text = (if out = [] then text else out @ [newline] @ text)"

text \<open>Embedded mode seeds a prompt from the agent's start event; the start cannot panic but its result is
  an option like that of the other handlers.\<close>

definition process_agent_event ::
  "'l loop_port \<Rightarrow> 'v agent_event \<Rightarrow> ('a, 'l, 't, 'v) session_controller \<Rightarrow>
   ('a, 'l, 't, 'v) session_controller option" where
  "process_agent_event le event c =
     (let (kind, daemon) = event;
          c = (case kind of AgentSystemMessage message \<Rightarrow> emit (SystemMessage message False) c | _ \<Rightarrow> c);
          seeded = (case kind of
             BeforeAgentStart prompt \<Rightarrow>
               if c_agent c = None \<and> \<not> busy (c_core_state c) \<and> pending_prompt (c_core_state c) = None
               then map_option snd (start_embedded_prompt prompt 0 c) else Some c
           | _ \<Rightarrow> Some c)
      in case seeded of
           None \<Rightarrow> None
         | Some c \<Rightarrow>
             let c = (case kind of
                        ToolCallEvent call_id tool_name \<Rightarrow>
                          let c = c\<lparr>c_tool_call_names := (c_tool_call_names c)(call_id \<mapsto> tool_name)\<rparr>
                          in if tool_name = ''signal_loop_success'' then signal_loop_break le c else c
                      | ToolExecutionEnd texts \<Rightarrow>
                          c\<lparr>c_loop_turn_output := fold (\<lambda>text out. append_line out text) texts (c_loop_turn_output c)\<rparr>
                      | _ \<Rightarrow> c)
             in Some (case daemon of None \<Rightarrow> c | Some e \<Rightarrow> emit (Projected e) c))"

fun process_agent_events ::
  "'l loop_port \<Rightarrow> 'v agent_event list \<Rightarrow> ('a, 'l, 't, 'v) session_controller \<Rightarrow>
   ('a, 'l, 't, 'v) session_controller option" where
  "process_agent_events le [] c = Some c"
| "process_agent_events le (e # es) c = (case process_agent_event le e c of
     None \<Rightarrow> None | Some c \<Rightarrow> process_agent_events le es c)"

definition take_outgoing ::
  "('a, 'l, 't, 'v) session_controller \<Rightarrow> 'v daemon_event list \<times> ('a, 'l, 't, 'v) session_controller" where
  "take_outgoing c = (c_outgoing c, c\<lparr>c_outgoing := []\<rparr>)"

section \<open>Prompts\<close>

fun runtime_completion_to_core :: "runtime_prompt_completion \<Rightarrow> completion_status \<times> string option" where
  "runtime_completion_to_core RunSucceeded = (Succeeded, None)"
| "runtime_completion_to_core RunCancelled = (Failed Cancelled, Some ''cancelled'')"
| "runtime_completion_to_core (RunFailed message) = (Failed (FailureMessage message), Some message)"

definition image_count_of :: "nat \<Rightarrow> u32" where
  "image_count_of n = (if n < 2 ^ 32 then of_nat n else - 1)"

text \<open>The agent is taken out of the controller while it runs, so its events are processed without it; the
  events still queued when it returns are processed after it is back.\<close>

definition handle_prompt ::
  "'l loop_port \<Rightarrow> ('a, 't, 'v) agent_port \<Rightarrow> string \<Rightarrow> nat \<Rightarrow> ('a, 'l, 't, 'v) session_controller \<Rightarrow>
   ('a, 'l, 't, 'v) session_controller option" where
  "handle_prompt le ag text images c = (case c_agent c of
     None \<Rightarrow> Some c
   | Some agent \<Rightarrow>
       let n = image_count_of images
       in case core_reduce (c_core_state c) (PromptRequested \<lparr>pr_text = text, pr_image_count = n,
              pr_originating_follow_up_effect_id = None\<rparr>) of
         Rejected _ Busy \<Rightarrow> Some (emit (SystemMessage ''A prompt is already in progress'' True) c)
       | Rejected _ _ \<Rightarrow> None
       | Transitioned s effects \<Rightarrow>
           let c = apply_core_state s c
           in case execute_prompt_request_effects effects text n of
             None \<Rightarrow> None
           | Some accepted \<Rightarrow>
               let eid = ap_core_effect_id (prompt_start accepted);
                   c = emit AgentStart c;
                   (completion, during, left, agent) = ag_submit ag \<lparr>rq_session_id = c_session_id c,
                     rq_model = c_model c, rq_text = text, rq_image_count = n\<rparr> agent
               in case process_agent_events le during (c\<lparr>c_agent := None\<rparr>) of
                 None \<Rightarrow> None
               | Some c \<Rightarrow>
                   (case process_agent_events le left (c\<lparr>c_agent := Some agent\<rparr>) of
                      None \<Rightarrow> None
                    | Some c \<Rightarrow>
                        let (status, err) = runtime_completion_to_core completion;
                            (_, c) = apply_prompt_completion le \<lparr>pc_effect_id = eid, pc_completion_status = status\<rparr> c
                        in Some (emit (PromptDone err) c)))"

text \<open>The same path through an injected runtime adapter of state \<open>'w\<close>; its events arrive projected.\<close>

definition submit_prompt_with_runtime_adapter ::
  "'l loop_port \<Rightarrow> (runtime_prompt_request \<Rightarrow> 'w \<Rightarrow> runtime_prompt_completion \<times> 'v option list \<times> 'w) \<Rightarrow>
   string \<Rightarrow> u32 \<Rightarrow> 'w \<Rightarrow> ('a, 'l, 't, 'v) session_controller \<Rightarrow>
   (bool \<times> 'w \<times> ('a, 'l, 't, 'v) session_controller) option" where
  "submit_prompt_with_runtime_adapter le submit text n w c =
     (case core_reduce (c_core_state c) (PromptRequested \<lparr>pr_text = text, pr_image_count = n,
          pr_originating_follow_up_effect_id = None\<rparr>) of
        Rejected _ Busy \<Rightarrow> Some (False, w, emit (SystemMessage ''A prompt is already in progress'' True) c)
      | Rejected _ _ \<Rightarrow> None
      | Transitioned s effects \<Rightarrow>
          let c = apply_core_state s c
          in case execute_prompt_request_effects effects text n of
            None \<Rightarrow> None
          | Some accepted \<Rightarrow>
              let eid = ap_core_effect_id (prompt_start accepted);
                  (completion, events, w) = submit \<lparr>rq_session_id = c_session_id c, rq_model = c_model c,
                    rq_text = text, rq_image_count = n\<rparr> w;
                  c = fold (\<lambda>e. emit (Projected e)) (List.map_filter id events) c;
                  (status, err) = runtime_completion_to_core completion;
                  (_, c) = apply_prompt_completion le \<lparr>pc_effect_id = eid, pc_completion_status = status\<rparr> c
              in Some (True, w, emit (PromptDone err) c))"

definition abort_prompt ::
  "('a, 'l, 't, 'v) session_controller \<Rightarrow> ('a, 'l, 't, 'v) session_controller" where
  "abort_prompt c = emit (SystemMessage ''Operation cancelled'' False)
     (c\<lparr>c_busy := False, c_core_state := (c_core_state c)\<lparr>busy := False, pending_prompt := None\<rparr>\<rparr>)"

definition apply_adapter_thinking_level ::
  "(runtime_control_request \<Rightarrow> 'w \<Rightarrow> 'w) \<Rightarrow> core_thinking_level \<Rightarrow> 'w \<Rightarrow> ('a, 'l, 't, 'v) session_controller \<Rightarrow>
   (bool \<times> 'w \<times> ('a, 'l, 't, 'v) session_controller) option" where
  "apply_adapter_thinking_level control level w c =
     (case core_reduce (c_core_state c) (SetThinkingLevel (Level level)) of
        Transitioned s effects \<Rightarrow>
          let c = apply_core_state s c;
              levels = applied_thinking_levels effects
          in map_option (\<lambda>change.
               (True, fold (\<lambda>l. control (ControlSetThinkingLevel l)) levels w,
                emit (SystemMessage (thinking_message change) False) c)) (interpret_thinking_change effects)
      | Rejected _ _ \<Rightarrow> Some (False, w, c))"

definition apply_adapter_disabled_tools ::
  "(runtime_control_request \<Rightarrow> 'w \<Rightarrow> 'w) \<Rightarrow> string list \<Rightarrow> 'w \<Rightarrow> ('a, 'l, 't, 'v) session_controller \<Rightarrow>
   bool \<times> 'w \<times> ('a, 'l, 't, 'v) session_controller" where
  "apply_adapter_disabled_tools control tools w c =
     (case core_reduce (c_core_state c) (SetDisabledTools \<lparr>requested_disabled_tools = tools\<rparr>) of
        Transitioned s effects \<Rightarrow>
          let c = apply_core_state s c
          in (case interpret_tool_filter_application effects of
                None \<Rightarrow> (False, w, c)
              | Some application \<Rightarrow>
                  let w = control (ControlSetDisabledTools (tf_disabled_tools application)) w;
                      (_, c) = apply_tool_filter_feedback \<lparr>ta_effect_id = tf_effect_id application,
                        applied_disabled_tool_set = tf_disabled_tools application\<rparr> c
                  in (True, w, emit (SystemMessage (tools_message tools) False) c))
      | Rejected _ _ \<Rightarrow> (False, w, c))"

fun apply_control_with_runtime_adapter ::
  "(runtime_control_request \<Rightarrow> 'w \<Rightarrow> 'w) \<Rightarrow> runtime_control_request \<Rightarrow> 'w \<Rightarrow> ('a, 'l, 't, 'v) session_controller \<Rightarrow>
   (bool \<times> 'w \<times> ('a, 'l, 't, 'v) session_controller) option" where
  "apply_control_with_runtime_adapter control ControlAbort w c =
     Some (True, control ControlAbort w, abort_prompt c)"
| "apply_control_with_runtime_adapter control ControlResetCancel w c =
     Some (True, control ControlResetCancel w, c)"
| "apply_control_with_runtime_adapter control (ControlSetThinkingLevel level) w c =
     apply_adapter_thinking_level control level w c"
| "apply_control_with_runtime_adapter control (ControlSetDisabledTools tools) w c =
     Some (apply_adapter_disabled_tools control tools w c)"

section \<open>Commands\<close>

definition replay_history ::
  "('a, 't, 'v) agent_port \<Rightarrow> ('a, 'l, 't, 'v) session_controller \<Rightarrow> ('a, 'l, 't, 'v) session_controller" where
  "replay_history ag c =
     (let tools = current_tool_infos ag c;
          c = (if tools \<noteq> [] then emit (ToolList tools) c else c);
          c = (if c_disabled_tools c \<noteq> [] then emit (DisabledToolsEvent (c_disabled_tools c)) c else c);
          c = (if c_auto_test_command c \<noteq> None
               then emit (AutoTestChanged (c_auto_test_enabled c) (c_auto_test_command c)) c else c);
          blocks = (case c_agent c of None \<Rightarrow> [] | Some a \<Rightarrow> ag_messages ag a)
      in emit HistoryEnd (fold (\<lambda>b. emit (HistoryBlock b)) blocks c))"

definition clear_history ::
  "('a, 't, 'v) agent_port \<Rightarrow> ('a, 'l, 't, 'v) session_controller \<Rightarrow> ('a, 'l, 't, 'v) session_controller" where
  "clear_history ag c = emit (SystemMessage ''History cleared'' False) (with_agent (ag_clear_messages ag) c)"

definition compact_history ::
  "('a, 't, 'v) agent_port \<Rightarrow> ('a, 'l, 't, 'v) session_controller \<Rightarrow> ('a, 'l, 't, 'v) session_controller" where
  "compact_history ag c = (case c_agent c of
     None \<Rightarrow> c
   | Some a \<Rightarrow> (case ag_compact_messages ag a of
       ((compacted, saved), a) \<Rightarrow> emit (SessionCompaction compacted saved) (c\<lparr>c_agent := Some a\<rparr>)))"

definition emit_system_prompt ::
  "('a, 't, 'v) agent_port \<Rightarrow> ('a, 'l, 't, 'v) session_controller \<Rightarrow> ('a, 'l, 't, 'v) session_controller" where
  "emit_system_prompt ag c =
     emit (SystemPromptResponse (case c_agent c of None \<Rightarrow> [] | Some a \<Rightarrow> ag_system_prompt ag a)) c"

definition slash_autotest ::
  "string \<Rightarrow> ('a, 'l, 't, 'v) session_controller \<Rightarrow> ('a, 'l, 't, 'v) session_controller" where
  "slash_autotest args c =
     (let c = (if args = [] then c\<lparr>c_auto_test_enabled := \<not> c_auto_test_enabled c\<rparr>
               else c\<lparr>c_auto_test_enabled := True, c_auto_test_command := Some args\<rparr>)
      in emit (AutoTestChanged (c_auto_test_enabled c) (c_auto_test_command c)) c)"

definition handle_slash_command_sync ::
  "'l loop_port \<Rightarrow> ('a, 't, 'v) agent_port \<Rightarrow> string \<Rightarrow> string \<Rightarrow> ('a, 'l, 't, 'v) session_controller \<Rightarrow>
   ('a, 'l, 't, 'v) session_controller option" where
  "handle_slash_command_sync le ag command args c =
     (if command = ''model'' then
        Some (if args = [] then emit (SystemMessage (''Current model: '' @ c_model c) False) c
              else set_model_from_command ag args ''slash command'' c)
      else if command = ''clear'' then if_authorized ag ''clear_history'' (\<lambda>c. Some (clear_history ag c)) c
      else if command = ''compact'' then if_authorized ag ''compact_history'' (\<lambda>c. Some (compact_history ag c)) c
      else if command = ''thinking'' then
        (if args = [] then if_authorized ag ''cycle_thinking_level'' (handle_cycle_thinking_level ag) c
         else if_authorized ag ''set_thinking_level'' (handle_set_thinking_level ag args) c)
      else if command = ''stop'' then if_authorized ag ''stop_loop'' (handle_stop_loop le) c
      else if command = ''autotest'' then if_authorized ag ''set_auto_test'' (\<lambda>c. Some (slash_autotest args c)) c
      else if command = ''tools'' then Some (emit (ToolList (current_tool_infos ag c)) c)
      else if command = ''prompt'' then Some (emit_system_prompt ag c)
      else Some (emit (SystemMessage (''/'' @ command @ '': not implemented in daemon mode'') True) c))"

record serialized_message =
  se_role :: string
  se_content :: string
  se_model :: "string option"

text \<open>Ids and time stamps of the seeded messages are drawn when they are made and are not modelled.\<close>

definition convert_seed_messages :: "serialized_message list \<Rightarrow> seed_message list" where
  "convert_seed_messages = List.map_filter (\<lambda>m.
     if se_role m = ''user'' then Some (SeedUser (se_content m))
     else if se_role m = ''assistant'' then Some (SeedAssistant (se_content m) (or_default (se_model m)))
     else None)"

definition patterns_text :: "string \<Rightarrow> tool_patterns \<Rightarrow> string" where
  "patterns_text absent caps = (case caps of None \<Rightarrow> absent | Some ps \<Rightarrow> join_with '', '' ps)"

definition set_capabilities ::
  "('a, 't, 'v) agent_port \<Rightarrow> tool_patterns \<Rightarrow> ('a, 'l, 't, 'v) session_controller \<Rightarrow> ('a, 'l, 't, 'v) session_controller" where
  "set_capabilities ag caps c =
     (let effective = clamp_capabilities (c_capability_ceiling c) caps
      in if effective \<noteq> caps
         then emit (SystemMessage (''Cannot set capabilities: request exceeds session ceiling ['' @
                patterns_text ''none'' (c_capability_ceiling c) @ '']'') True) c
         else
           let c = with_agent (ag_set_user_tool_filter ag caps) (c\<lparr>c_capabilities := caps\<rparr>);
               c = emit (SystemMessage (''Capabilities updated: '' @ patterns_text ''full access'' caps) False) c
           in emit (Capabilities (c_capabilities c)) c)"

definition set_auto_test_command ::
  "bool \<Rightarrow> string option \<Rightarrow> ('a, 'l, 't, 'v) session_controller \<Rightarrow> ('a, 'l, 't, 'v) session_controller" where
  "set_auto_test_command enabled command c =
     (let c = c\<lparr>c_auto_test_enabled := enabled,
            c_auto_test_command := (case command of None \<Rightarrow> c_auto_test_command c | Some cmd \<Rightarrow> Some cmd)\<rparr>;
          c = c\<lparr>c_core_state := (c_core_state c)\<lparr>auto_test_enabled := c_auto_test_enabled c,
            auto_test_command := c_auto_test_command c\<rparr>\<rparr>
      in emit (AutoTestChanged enabled (c_auto_test_command c)) c)"

text \<open>A confirmation response also carries whether its requester still waits, which only the log tells.\<close>

datatype session_command =
    CmdPrompt string nat
  | CmdAbort
  | CmdResetCancel
  | CmdSetModel string
  | CmdClearHistory
  | CmdTruncateMessages nat
  | CmdSetThinkingLevel string
  | CmdCycleThinkingLevel
  | CmdSeedMessages "serialized_message list"
  | CmdSetSystemPrompt string
  | CmdGetSystemPrompt
  | CmdSwitchAccount string
  | CmdSetDisabledTools "string list"
  | CmdConfirmBash string bool bool
  | CmdTodoResponse string bool
  | CmdSlashCommand string string
  | CmdRewriteAndPrompt string
  | CmdCompactHistory
  | CmdStartLoop u32 string "string option"
  | CmdStopLoop
  | CmdSetAutoTest bool "string option"
  | CmdGetToolList
  | CmdReplayHistory
  | CmdGetCapabilities
  | CmdGetPlugins
  | CmdSetCapabilities tool_patterns
  | CmdDisconnect

fun dispatch_command ::
  "'l loop_port \<Rightarrow> ('a, 't, 'v) agent_port \<Rightarrow> session_command \<Rightarrow> ('a, 'l, 't, 'v) session_controller \<Rightarrow>
   ('a, 'l, 't, 'v) session_controller option" where
  "dispatch_command le ag (CmdPrompt text images) c = handle_prompt le ag text images c"
| "dispatch_command le ag CmdAbort c = Some (abort_prompt (with_agent (ag_control ag ControlAbort) c))"
| "dispatch_command le ag CmdResetCancel c = Some (with_agent (ag_control ag ControlResetCancel) c)"
| "dispatch_command le ag (CmdSetModel model) c = Some (set_model_from_command ag model ''user request'' c)"
| "dispatch_command le ag CmdClearHistory c = if_authorized ag ''clear_history'' (\<lambda>c. Some (clear_history ag c)) c"
| "dispatch_command le ag (CmdTruncateMessages n) c = if_authorized ag ''truncate_messages'' (\<lambda>c. Some
     (emit (SystemMessage (''Truncated to '' @ show_nat n @ '' messages'') False) (with_agent (ag_truncate_messages ag n) c))) c"
| "dispatch_command le ag (CmdSetThinkingLevel level) c =
     if_authorized ag ''set_thinking_level'' (handle_set_thinking_level ag level) c"
| "dispatch_command le ag CmdCycleThinkingLevel c =
     if_authorized ag ''cycle_thinking_level'' (handle_cycle_thinking_level ag) c"
| "dispatch_command le ag (CmdSeedMessages messages) c = if_authorized ag ''seed_messages'' (\<lambda>c.
     let seeds = convert_seed_messages messages
     in Some (emit (SystemMessage (''Seeded '' @ show_nat (length seeds) @ '' messages'') False)
          (with_agent (ag_seed_messages ag seeds) c))) c"
| "dispatch_command le ag (CmdSetSystemPrompt prompt) c = if_authorized ag ''set_system_prompt'' (\<lambda>c. Some
     (emit (SystemMessage ''System prompt updated'' False) (with_agent (ag_set_system_prompt ag prompt) c))) c"
| "dispatch_command le ag CmdGetSystemPrompt c = Some (emit_system_prompt ag c)"
| "dispatch_command le ag (CmdSwitchAccount account) c =
     Some (emit (SystemMessage (''Account switch to '' @ [CHR 0x27] @ account @ [CHR 0x27] @ '' requested'') False) c)"
| "dispatch_command le ag (CmdSetDisabledTools tools) c =
     if_authorized ag ''set_disabled_tools'' (handle_set_disabled_tools ag tools) c"
| "dispatch_command le ag (CmdConfirmBash request_id approved delivered) c =
     Some (c\<lparr>c_bash_confirms := snd (confirm_respond request_id delivered (c_bash_confirms c))\<rparr>)"
| "dispatch_command le ag (CmdTodoResponse request_id delivered) c =
     Some (c\<lparr>c_todo_confirms := snd (confirm_respond request_id delivered (c_todo_confirms c))\<rparr>)"
| "dispatch_command le ag (CmdSlashCommand command args) c = handle_slash_command_sync le ag command args c"
| "dispatch_command le ag (CmdRewriteAndPrompt text) c = if_authorized ag ''rewrite_prompt'' (\<lambda>c.
     case ensure_prompt_authorized ag text c of
       (False, c) \<Rightarrow> Some c
     | (True, c) \<Rightarrow> handle_prompt le ag text 0 (with_agent (ag_pop_last_exchange ag) c)) c"
| "dispatch_command le ag CmdCompactHistory c = if_authorized ag ''compact_history'' (\<lambda>c. Some (compact_history ag c)) c"
| "dispatch_command le ag (CmdStartLoop iterations prompt break_cond) c =
     if_authorized ag ''start_loop'' (handle_start_loop le iterations prompt break_cond) c"
| "dispatch_command le ag CmdStopLoop c = if_authorized ag ''stop_loop'' (handle_stop_loop le) c"
| "dispatch_command le ag (CmdSetAutoTest enabled command) c =
     if_authorized ag ''set_auto_test'' (\<lambda>c. Some (set_auto_test_command enabled command c)) c"
| "dispatch_command le ag CmdGetToolList c = Some (emit (ToolList (current_tool_infos ag c)) c)"
| "dispatch_command le ag CmdReplayHistory c = Some (replay_history ag c)"
| "dispatch_command le ag CmdGetCapabilities c = Some (emit (Capabilities (c_capabilities c)) c)"
| "dispatch_command le ag CmdGetPlugins c = Some (emit PluginList c)"
| "dispatch_command le ag (CmdSetCapabilities caps) c =
     if_authorized ag ''set_capabilities'' (\<lambda>c. Some (set_capabilities ag caps c)) c"
| "dispatch_command le ag CmdDisconnect c = Some c"

definition handle_command ::
  "'l loop_port \<Rightarrow> ('a, 't, 'v) agent_port \<Rightarrow> session_command \<Rightarrow> ('a, 'l, 't, 'v) session_controller \<Rightarrow>
   ('a, 'l, 't, 'v) session_controller option" where
  "handle_command le ag cmd c = (if c_agent c = None then Some c else dispatch_command le ag cmd c)"

section \<open>No handler panics\<close>

lemma find_map_simps [simp]:
  "find_map f [] = None"
  "find_map f (x # xs) = (case f x of Some y \<Rightarrow> Some y | None \<Rightarrow> find_map f xs)"
  by (auto simp: find_map_def List.map_filter_simps split: option.splits)

lemma prompt_request_outcome:
  "core_reduce s (PromptRequested r) =
     (if busy s then Rejected s Busy
      else case allocate_effect_id s of (eid, s') \<Rightarrow>
        Transitioned (s'\<lparr>busy := True, pending_prompt := Some \<lparr>pp_effect_id = eid, pp_prompt_text = pr_text r,
            pp_image_count = pr_image_count r,
            pp_originating_follow_up_effect_id = pr_originating_follow_up_effect_id r\<rparr>\<rparr>)
          [EmitLogicalEvent (BusyChanged True), StartPrompt eid (pr_text r) (pr_image_count r)])"
  by (simp add: reduce_prompt_requested_def split: prod.split)

lemma execute_prompt_request_ok:
  "execute_prompt_request_effects [EmitLogicalEvent (BusyChanged True), StartPrompt eid text n] text n =
     Some (AcceptedUserPrompt \<lparr>ap_core_effect_id = eid, ap_kind = UserPromptKind, ap_prompt_text = text, ap_image_count = n\<rparr>)"
  by (simp add: execute_prompt_request_effects_def interpret_prompt_request_def)

lemma start_embedded_prompt_total: "start_embedded_prompt_with_follow_up text n origin c \<noteq> None"
  by (auto simp: start_embedded_prompt_with_follow_up_def prompt_request_outcome execute_prompt_request_ok Let_def
      simp del: core_reduce.simps split: prod.split)

lemma start_embedded_prompt_not_None [simp]: "(start_embedded_prompt text n c = None) = False"
  using start_embedded_prompt_total by (simp add: start_embedded_prompt_def)

lemma execute_thinking_total:
  "execute_thinking_effects ag [ApplyThinkingLevel l, EmitLogicalEvent (ThinkingLevelChanged p l)] c \<noteq> None"
  by (simp add: execute_thinking_effects_def interpret_thinking_change_def Let_def)

lemma handle_set_thinking_level_total: "handle_set_thinking_level ag level c \<noteq> None"
  using execute_thinking_total
  by (cases "parse_core_thinking_level_input level")
    (auto simp: handle_set_thinking_level_def reduce_set_thinking_level_def Let_def)

lemma handle_cycle_thinking_level_total: "handle_cycle_thinking_level ag c \<noteq> None"
  using execute_thinking_total
  by (auto simp: handle_cycle_thinking_level_def reduce_cycle_thinking_level_def reduce_set_thinking_level_def Let_def)

lemma handle_set_disabled_tools_total: "handle_set_disabled_tools ag tools c \<noteq> None"
  by (auto simp: handle_set_disabled_tools_def reduce_set_disabled_tools_def Let_def
      split: prod.split bool.split)

lemma handle_start_loop_total: "handle_start_loop le n prompt bc c \<noteq> None"
  by (auto simp: handle_start_loop_def reduce_start_loop_def Let_def)

lemma handle_stop_loop_total: "handle_stop_loop le c \<noteq> None"
  by (auto simp: handle_stop_loop_def reduce_stop_loop_def)

lemma process_agent_event_total: "process_agent_event le e c \<noteq> None"
proof -
  obtain kind daemon where e: "e = (kind, daemon)" by fastforce
  show ?thesis
    by (cases kind) (auto simp: e process_agent_event_def Let_def split: option.split)
qed

lemma process_agent_events_total: "process_agent_events le es c \<noteq> None"
proof (induction es arbitrary: c)
  case (Cons e es)
  then show ?case using process_agent_event_total [of le e c] by (auto split: option.splits)
qed simp

lemma process_agent_events_not_None [simp]: "(process_agent_events le es c = None) = False"
  using process_agent_events_total by blast

lemma handle_prompt_total: "handle_prompt le ag text images c \<noteq> None"
  by (auto simp: handle_prompt_def prompt_request_outcome execute_prompt_request_ok Let_def
      simp del: core_reduce.simps split: option.split prod.split)

lemma submit_prompt_total: "submit_prompt_with_runtime_adapter le submit text n w c \<noteq> None"
  by (auto simp: submit_prompt_with_runtime_adapter_def prompt_request_outcome execute_prompt_request_ok Let_def
      simp del: core_reduce.simps split: prod.splits)

lemma if_authorized_total: "(\<And>c. f c \<noteq> None) \<Longrightarrow> if_authorized ag action f c \<noteq> None"
  by (auto simp: if_authorized_def split: prod.splits bool.splits)

text \<open>The completion of a dispatched follow-up completes its prompt in between; that leaves the follow-up
  as it was, because a prompt with an originating follow-up never ends a loop.\<close>

lemma apply_completion_of_follow_up:
  assumes "pending_prompt (c_core_state c) = Some p" "pp_originating_follow_up_effect_id p \<noteq> None"
  shows "apply_prompt_completion le \<lparr>pc_effect_id = pp_effect_id p, pc_completion_status = st\<rparr> c =
    (True, apply_core_state ((c_core_state c)\<lparr>busy := False, pending_prompt := None\<rparr>) c)"
  using assms
  by (auto simp: apply_prompt_completion_def reduce_prompt_completed_def execute_prompt_completion_effects_def
      loop_cleared_def Let_def)

lemma follow_up_outcome_cong:
  "pending_follow_up t = pending_follow_up s \<Longrightarrow> core_reduce s (LoopFollowUpCompleted x) = Transitioned s' es \<Longrightarrow>
     \<exists>t' es'. core_reduce t (LoopFollowUpCompleted x) = Transitioned t' es'"
  by (metis core_accepts.simps(11) core_reduce_accepted core_reduce_refused core_outcome.distinct(1))

lemma complete_dispatched_follow_up_total: "complete_dispatched_follow_up le wid status c \<noteq> None"
proof -
  let ?x = "\<lparr>lc_effect_id = wid, lc_completion_status = completion_to_core status\<rparr>"
  show ?thesis
  proof (cases "core_reduce (c_core_state c) (LoopFollowUpCompleted ?x)")
    case (Transitioned s es)
    show ?thesis
    proof (cases "pending_prompt (c_core_state c)")
      case None
      then show ?thesis using Transitioned
        by (simp add: complete_dispatched_follow_up_def Let_def del: core_reduce.simps)
    next
      case (Some p)
      let ?c = "apply_core_state ((c_core_state c)\<lparr>busy := False, pending_prompt := None\<rparr>) c"
      obtain t' es' where "core_reduce (c_core_state ?c) (LoopFollowUpCompleted ?x) = Transitioned t' es'"
        using follow_up_outcome_cong [OF _ Transitioned, of "c_core_state ?c"] by (auto simp: apply_core_state_def)
      then show ?thesis
        using Transitioned Some apply_completion_of_follow_up [OF Some, of le]
        by (cases "pp_originating_follow_up_effect_id p = Some wid")
          (simp_all add: complete_dispatched_follow_up_def Let_def del: core_reduce.simps)
    qed
  next
    case (Rejected s e)
    then show ?thesis by (simp add: complete_dispatched_follow_up_def Let_def del: core_reduce.simps)
  qed
qed

lemmas handlers_total = handle_prompt_total handle_set_thinking_level_total handle_cycle_thinking_level_total
  handle_set_disabled_tools_total handle_start_loop_total handle_stop_loop_total

lemma slash_command_total: "handle_slash_command_sync le ag command args c \<noteq> None"
  unfolding handle_slash_command_sync_def
  by (simp only: handlers_total if_authorized_total option.distinct not_False_eq_True simp_thms split: if_split)

lemma rewrite_total:
  "(case ensure_prompt_authorized ag text c of (False, c) \<Rightarrow> Some c
    | (True, c) \<Rightarrow> handle_prompt le ag text 0 (with_agent f c)) \<noteq> None"
  using handle_prompt_total by (auto split: prod.split bool.split)

lemma dispatch_command_total: "dispatch_command le ag cmd c \<noteq> None"
  by (cases cmd) (simp_all only: dispatch_command.simps Let_def handlers_total if_authorized_total slash_command_total
      rewrite_total option.distinct not_False_eq_True simp_thms)

text \<open>C10 (safety). The controller never panics: every \<^verbatim>\<open>expect\<close> and \<^verbatim>\<open>unreachable!\<close> of its handlers is
  unreachable, for every command, event, prompt and follow-up completion, in every state of the
  controller and the core, and whatever the agent, the runtime adapter and the loop engine answer.\<close>

theorem controller_never_panics:
  "handle_command le ag cmd c \<noteq> None \<and>
   process_agent_events le events c \<noteq> None \<and>
   start_embedded_prompt_with_follow_up text n origin c \<noteq> None \<and>
   complete_dispatched_follow_up le wid status c \<noteq> None \<and>
   submit_prompt_with_runtime_adapter le submit text n w c \<noteq> None \<and>
   apply_control_with_runtime_adapter control request w c \<noteq> None"
proof -
  have "apply_control_with_runtime_adapter control request w c \<noteq> None"
    by (cases request) (simp_all add: apply_adapter_thinking_level_def reduce_set_thinking_level_def
        interpret_thinking_change_def Let_def)
  moreover have "handle_command le ag cmd c \<noteq> None" using dispatch_command_total by (auto simp: handle_command_def)
  ultimately show ?thesis
    by (intro conjI process_agent_events_total start_embedded_prompt_total complete_dispatched_follow_up_total
        submit_prompt_total)
qed

end
