(* ===== verification/Controller_Inv.thy ===== *)
theory Controller_Inv
  imports Controller_Commands
begin

text \<open>
  Invariants and liveness of the session controller. Its operations, as the shells call them, form a
  machine; the theory shows that every reachable controller keeps its mirrors of the core and its link to
  the loop engine, that a prompt always ends with the controller idle again, that a dispatched follow-up
  closes its cycle, and two places where the code loses an update.
\<close>

section \<open>The controller's invariant\<close>

text \<open>What the controller keeps: the core's own invariant, its mirrors of the core, and a loop registered with
  the engine exactly when the core has an active loop.\<close>

definition loop_linked :: "('a, 'l, 't, 'v) session_controller \<Rightarrow> bool" where
  "loop_linked c \<longleftrightarrow> (c_active_loop_id c = None \<longleftrightarrow> active_loop (c_core_state c) = None)"

definition mirrored :: "('a, 'l, 't, 'v) session_controller \<Rightarrow> bool" where
  "mirrored c \<longleftrightarrow> c_busy c = busy (c_core_state c) \<and> c_disabled_tools c = disabled_tools (c_core_state c) \<and>
     c_auto_test_in_progress c = auto_test_in_progress (c_core_state c)"

definition controller_inv :: "('a, 'l, 't, 'v) session_controller \<Rightarrow> bool" where
  "controller_inv c \<longleftrightarrow> core_inv (c_core_state c) \<and> mirrored c \<and> loop_linked c"

lemma core_inv_free_fields [simp]:
  "core_inv (s\<lparr>active_loop := x\<rparr>) \<longleftrightarrow> core_inv s"
  "core_inv (s\<lparr>pending_follow_up := y\<rparr>) \<longleftrightarrow> core_inv s"
  "core_inv (s\<lparr>auto_test_in_progress := a\<rparr>) \<longleftrightarrow> core_inv s"
  "core_inv (s\<lparr>auto_test_enabled := a\<rparr>) \<longleftrightarrow> core_inv s"
  "core_inv (s\<lparr>auto_test_command := d\<rparr>) \<longleftrightarrow> core_inv s"
  by (simp_all add: core_inv_def split: option.split)

lemma controller_inv_new: "controller_inv (controller_new agent engine cfg)"
  by (simp add: controller_inv_def controller_new_def core_inv_def core_default_def mirrored_def loop_linked_def)

text \<open>Changes that the invariant does not see.\<close>

lemma controller_inv_frame:
  assumes "controller_inv c" and "c_active_loop_id c' = c_active_loop_id c" and "c_busy c' = c_busy c"
    and "c_disabled_tools c' = c_disabled_tools c" and "c_auto_test_in_progress c' = c_auto_test_in_progress c"
    and "busy (c_core_state c') = busy (c_core_state c)"
    and "pending_prompt (c_core_state c') = pending_prompt (c_core_state c)"
    and "pending_tool_filter (c_core_state c') = pending_tool_filter (c_core_state c)"
    and "disabled_tools (c_core_state c') = disabled_tools (c_core_state c)"
    and "next_effect_id (c_core_state c') = next_effect_id (c_core_state c)"
    and "auto_test_in_progress (c_core_state c') = auto_test_in_progress (c_core_state c)"
    and "active_loop (c_core_state c') = active_loop (c_core_state c)"
  shows "controller_inv c'"
proof -
  have "core_inv (c_core_state c')"
    by (rule core_inv_frame [of "c_core_state c"]) (use assms(1,6-10) in \<open>simp_all add: controller_inv_def\<close>)
  then show ?thesis using assms by (simp add: controller_inv_def mirrored_def loop_linked_def)
qed

lemma controller_inv_emit [simp]: "controller_inv (emit e c) \<longleftrightarrow> controller_inv c"
  by (simp add: controller_inv_def emit_def mirrored_def loop_linked_def)

lemma controller_inv_with_agent [simp]: "controller_inv (with_agent f c) \<longleftrightarrow> controller_inv c"
  by (simp add: controller_inv_def with_agent_def mirrored_def loop_linked_def)

lemma controller_inv_emits: "controller_inv (fold (\<lambda>x. emit (g x)) xs c) \<longleftrightarrow> controller_inv c"
  by (induction xs arbitrary: c) simp_all

lemma controller_inv_agents: "controller_inv (fold (\<lambda>x. with_agent (g x)) xs c) \<longleftrightarrow> controller_inv c"
  by (induction xs arbitrary: c) simp_all

text \<open>After a core step the mirrors are right by construction.\<close>

lemma controller_inv_apply:
  assumes "controller_inv c" and "core_reduce (c_core_state c) i = Transitioned s es"
  shows "core_inv s \<and> mirrored (apply_core_state s c) \<and> c_core_state (apply_core_state s c) = s \<and>
    c_active_loop_id (apply_core_state s c) = c_active_loop_id c"
proof -
  have "core_inv (core_next (c_core_state c) i)" using assms(1) core_inv_step by (simp add: controller_inv_def)
  then show ?thesis using assms(2) by (simp add: core_next_def apply_core_state_def mirrored_def del: core_reduce.simps)
qed

lemma controller_inv_step:
  assumes "controller_inv c" and "core_reduce (c_core_state c) i = Transitioned s es"
    and "active_loop s = None \<longleftrightarrow> active_loop (c_core_state c) = None"
  shows "controller_inv (apply_core_state s c)"
  using controller_inv_apply [OF assms(1,2)] assms(1,3) by (simp add: controller_inv_def loop_linked_def)

lemma finish_loop_inv:
  assumes "core_inv (c_core_state c)" "mirrored c"
  shows "controller_inv (finish_loop le reason c)"
  using assms
  by (simp add: finish_loop_def Let_def controller_inv_def mirrored_def loop_linked_def emit_def)

lemma stop_loop_inv:
  assumes "core_inv (c_core_state c)" "mirrored c"
  shows "controller_inv (stop_loop le c)"
proof (cases "c_active_loop_id c")
  case None
  then show ?thesis using assms by (simp add: stop_loop_def finish_loop_inv)
next
  case (Some i)
  then show ?thesis using assms
    by (simp add: stop_loop_def) (rule finish_loop_inv, simp_all add: mirrored_def)
qed

lemma start_loop_inv:
  assumes "core_inv (c_core_state c)" "mirrored c" "start_loop le cfg c = (r, c')"
  shows "core_inv (c_core_state c') \<and> mirrored c' \<and>
    (case r of Some i \<Rightarrow> controller_inv c' | None \<Rightarrow> c_active_loop_id c' = c_active_loop_id c \<and> c_core_state c' = c_core_state c)"
proof (cases "le_register le (loop_def_of le cfg) (c_loop_engine c)")
  case (Pair r0 engine)
  show ?thesis
  proof (cases r0)
    case None
    then show ?thesis using assms Pair by (auto simp: start_loop_def emit_def mirrored_def)
  next
    case (Some i)
    have "controller_inv c'" using assms Pair Some
      by (auto simp: start_loop_def controller_inv_def mirrored_def loop_linked_def)
    then show ?thesis using assms(3) Pair Some by (auto simp: start_loop_def controller_inv_def)
  qed
qed

section \<open>Every operation keeps it\<close>

lemma start_embedded_inv:
  assumes "controller_inv c" "start_embedded_prompt_with_follow_up text n origin c = Some (r, c')"
  shows "controller_inv c'"
proof (cases "core_reduce (c_core_state c) (PromptRequested \<lparr>pr_text = text, pr_image_count = n,
    pr_originating_follow_up_effect_id = origin\<rparr>)")
  case (Transitioned s es)
  have "active_loop s = active_loop (c_core_state c)"
    using Transitioned by (auto simp: reduce_prompt_requested_def allocate_effect_id_def Let_def split: if_splits)
  then have "controller_inv (apply_core_state s c)" by (intro controller_inv_step [OF assms(1) Transitioned]) simp
  then show ?thesis
    using assms(2) Transitioned by (auto simp: start_embedded_prompt_with_follow_up_def Let_def simp del: core_reduce.simps)
next
  case (Rejected s e)
  then show ?thesis
    using assms by (auto simp: start_embedded_prompt_with_follow_up_def simp del: core_reduce.simps)
qed

lemma apply_prompt_completion_inv:
  assumes "controller_inv c"
  shows "controller_inv (snd (apply_prompt_completion le x c))"
proof (cases "core_reduce (c_core_state c) (PromptCompleted x)")
  case (Transitioned s es)
  note ap = controller_inv_apply [OF assms Transitioned]
  let ?c = "apply_core_state s c"
  have "active_loop s = active_loop (c_core_state c) \<and> es = [EmitLogicalEvent (BusyChanged False)] \<or>
      active_loop s = None \<and> active_loop (c_core_state c) \<noteq> None \<and> es = [EmitLogicalEvent (BusyChanged False), loop_cleared]"
    using Transitioned by (auto simp: reduce_prompt_completed_def loop_cleared_def Let_def split: option.splits if_splits)
  then show ?thesis
  proof
    assume a: "active_loop s = active_loop (c_core_state c) \<and> es = [EmitLogicalEvent (BusyChanged False)]"
    have "controller_inv ?c" using a by (intro controller_inv_step [OF assms Transitioned]) simp
    then show ?thesis using Transitioned a
      by (simp add: apply_prompt_completion_def execute_prompt_completion_effects_def loop_cleared_def del: core_reduce.simps)
  next
    assume a: "active_loop s = None \<and> active_loop (c_core_state c) \<noteq> None \<and> es = [EmitLogicalEvent (BusyChanged False), loop_cleared]"
    then have "c_active_loop_id ?c \<noteq> None" using assms ap by (simp add: controller_inv_def loop_linked_def)
    then show ?thesis using Transitioned a ap finish_loop_inv [of ?c]
      by (simp add: apply_prompt_completion_def execute_prompt_completion_effects_def loop_cleared_def del: core_reduce.simps)
  qed
next
  case (Rejected s e)
  then show ?thesis using assms by (simp add: apply_prompt_completion_def del: core_reduce.simps)
qed

lemma finish_embedded_inv: "controller_inv c \<Longrightarrow> controller_inv (finish_embedded_prompt le status c)"
  using apply_prompt_completion_inv [of c le] by (simp add: finish_embedded_prompt_def split: option.split)

text \<open>A failed follow-up ends the loop it continued, or leaves the loop alone.\<close>

lemma follow_up_failure_inv:
  assumes "controller_inv c" and step: "core_reduce (c_core_state c) i = Transitioned s es"
    and "active_loop s = active_loop (c_core_state c) \<and> es = [] \<or>
      active_loop s = None \<and> es = [loop_cleared]"
  shows "controller_inv (execute_follow_up_failure_effects le es status (apply_core_state s c))"
proof -
  note ap = controller_inv_apply [OF assms(1,2)]
  from assms(3) show ?thesis
  proof
    assume a: "active_loop s = active_loop (c_core_state c) \<and> es = []"
    have "controller_inv (apply_core_state s c)" using a by (intro controller_inv_step [OF assms(1,2)]) simp
    then show ?thesis using a by (simp add: execute_follow_up_failure_effects_def)
  next
    assume "active_loop s = None \<and> es = [loop_cleared]"
    then show ?thesis using ap finish_loop_inv [of "apply_core_state s c"]
      by (simp add: execute_follow_up_failure_effects_def)
  qed
qed

lemma ack_inv: "controller_inv c \<Longrightarrow> controller_inv (ack_follow_up_dispatch le wid status c)"
proof (cases "core_reduce (c_core_state c) (FollowUpDispatchAcknowledged
    \<lparr>fa_effect_id = wid, fa_dispatch_status = dispatch_to_core status\<rparr>)")
  case (Transitioned s es)
  assume inv: "controller_inv c"
  show ?thesis
  proof (cases status)
    case ShellAccepted
    then have "active_loop s = active_loop (c_core_state c)"
      using Transitioned by (auto simp: reduce_follow_up_dispatch_acknowledged_def split: option.splits if_splits)
    then have "controller_inv (apply_core_state s c)" by (intro controller_inv_step [OF inv Transitioned]) simp
    then show ?thesis using Transitioned ShellAccepted
      by (simp add: ack_follow_up_dispatch_def execute_follow_up_dispatch_effects_def del: core_reduce.simps)
  next
    case (ShellRejected m)
    have "active_loop s = active_loop (c_core_state c) \<and> es = [] \<or> active_loop s = None \<and> es = [loop_cleared]"
      using Transitioned ShellRejected
      by (auto simp: reduce_follow_up_dispatch_acknowledged_def loop_cleared_def Let_def split: option.splits if_splits)
    from follow_up_failure_inv [OF inv Transitioned this] show ?thesis
      using Transitioned ShellRejected
      by (simp add: ack_follow_up_dispatch_def execute_follow_up_dispatch_effects_def del: core_reduce.simps)
  qed
next
  case (Rejected s e)
  assume "controller_inv c"
  then show ?thesis using Rejected by (simp add: ack_follow_up_dispatch_def del: core_reduce.simps)
qed

lemma follow_up_completed_effects:
  assumes "core_reduce s0 (LoopFollowUpCompleted x) = Transitioned s es"
  shows "active_loop s = active_loop s0 \<and> es = [] \<or> active_loop s = None \<and> es = [loop_cleared]"
  using assms by (auto simp: reduce_loop_follow_up_completed_def loop_cleared_def Let_def split: option.splits if_splits)

lemma complete_inv:
  assumes "controller_inv c" "complete_dispatched_follow_up le wid status c = Some c'"
  shows "controller_inv c'"
proof -
  let ?i = "LoopFollowUpCompleted \<lparr>lc_effect_id = wid, lc_completion_status = completion_to_core status\<rparr>"
  have rej: "controller_inv (completion_rejected c)" using assms(1) by (simp add: completion_rejected_def)
  have comp: "controller_inv (execute_follow_up_completion_effects le es st (apply_core_state s d))"
    if "controller_inv d" "core_reduce (c_core_state d) ?i = Transitioned s es" for d s es st
    unfolding execute_follow_up_completion_effects_def
    by (rule follow_up_failure_inv [OF that follow_up_completed_effects [OF that(2)]])
  show ?thesis
  proof (cases "core_reduce (c_core_state c) ?i")
    case (Rejected s e)
    then show ?thesis using assms(2) rej
      by (simp add: complete_dispatched_follow_up_def Let_def del: core_reduce.simps)
  next
    case (Transitioned s es)
    note first = comp [OF assms(1) Transitioned]
    show ?thesis
    proof (cases "pending_prompt (c_core_state c)")
      case None
      then show ?thesis using assms(2) Transitioned rej first
        by (auto simp: complete_dispatched_follow_up_def Let_def simp del: core_reduce.simps split: if_splits)
    next
      case (Some p)
      obtain ok d where d: "apply_prompt_completion le \<lparr>pc_effect_id = pp_effect_id p,
          pc_completion_status = completion_to_core status\<rparr> c = (ok, d)" by fastforce
      then have "controller_inv d" using apply_prompt_completion_inv [OF assms(1)] by (metis snd_conv)
      then show ?thesis using assms(2) Transitioned Some rej comp [OF \<open>controller_inv d\<close>] d
        by (auto simp: complete_dispatched_follow_up_def Let_def simp del: core_reduce.simps
            split: if_splits bool.splits core_outcome.splits)
    qed
  qed
qed

text \<open>What the loop engine promises: an iteration that is to be continued leaves the loop registered.\<close>

definition engine_keeps_loops :: "'l loop_port \<Rightarrow> bool" where
  "engine_keeps_loops le \<longleftrightarrow>
     (\<forall>i out engine engine'. le_record_iteration le i out engine = (True, engine') \<longrightarrow> le_get le engine' i \<noteq> None)"

lemma observe_cases:
  assumes "engine_keeps_loops le" and "observe_post_prompt_loop_state le c = (ob, c')"
  shows "c_core_state c' = c_core_state c \<and> c_active_loop_id c' = c_active_loop_id c \<and> c_busy c' = c_busy c \<and>
    c_disabled_tools c' = c_disabled_tools c \<and> c_auto_test_in_progress c' = c_auto_test_in_progress c \<and>
    (op_active_loop_state ob = None \<longleftrightarrow> c_active_loop_id c = None \<or> op_completion_reason ob \<noteq> None) \<and>
    (c_active_loop_id c = None \<longrightarrow> op_completion_reason ob = None)"
proof (cases "c_active_loop_id c")
  case None
  then show ?thesis using assms(2) by (auto simp: observe_post_prompt_loop_state_def)
next
  case (Some i)
  obtain continues engine where r: "le_record_iteration le i (c_loop_turn_output c) (c_loop_engine c) = (continues, engine)"
    by fastforce
  then have "continues \<Longrightarrow> le_get le engine i \<noteq> None" using assms(1) by (auto simp: engine_keeps_loops_def)
  then show ?thesis using assms(2) Some r
    by (cases continues) (auto simp: observe_post_prompt_loop_state_def Let_def)
qed

lemma observe_inv:
  assumes "engine_keeps_loops le" "observe_post_prompt_loop_state le c = (ob, c')" "controller_inv c"
  shows "controller_inv c'"
  using observe_cases [OF assms(1,2)] by (intro controller_inv_frame [OF assms(3)]) simp_all

text \<open>The effects of an evaluation: a change of the loop, then at most one dispatch.\<close>

lemma evaluation_effects:
  assumes "core_reduce s (EvaluatePostPrompt ev) = Transitioned s' es"
  shows "active_loop s' = ev_active_loop_state ev \<and>
    (\<exists>ds. (ds = [] \<or> ds = [ReplayQueuedPrompt] \<or> (\<exists>eid t src. ds = [RunLoopFollowUp eid t src])) \<and>
      es = (if active_loop s \<noteq> ev_active_loop_state ev
            then [EmitLogicalEvent (LoopStateChanged (ev_active_loop_state ev))] else []) @ ds)"
  using assms by (auto simp: reduce_post_prompt_evaluation_def allocate_effect_id_def Let_def split: option.splits if_splits bool.splits)

lemma post_prompt_loop_dispatch:
  "ds = [] \<or> ds = [ReplayQueuedPrompt] \<or> (\<exists>eid t src. ds = [RunLoopFollowUp eid t src]) \<Longrightarrow>
     snd (post_prompt_loop le ds reason action c) = c"
  by auto

lemma check_post_prompt_inv:
  assumes "engine_keeps_loops le" "controller_inv c"
  shows "controller_inv (snd (check_post_prompt le queued c))"
proof -
  obtain ob c1 where ob: "observe_post_prompt_loop_state le c = (ob, c1)" by fastforce
  note cases = observe_cases [OF assms(1) ob]
  have inv: "controller_inv c1" by (rule observe_inv [OF assms(1) ob assms(2)])
  let ?ev = "\<lparr>ev_active_loop_state = op_active_loop_state ob,
    ev_pending_follow_up_state = pending_follow_up (c_core_state c1), ev_auto_test_enabled = c_auto_test_enabled c1,
    ev_auto_test_command = c_auto_test_command c1, ev_auto_test_in_progress = c_auto_test_in_progress c1,
    ev_queued_prompt_present = queued\<rparr>"
  obtain s es where tr: "core_reduce (c_core_state c1) (EvaluatePostPrompt ?ev) = Transitioned s es"
    using core_reduce_accepted [of "c_core_state c1" "EvaluatePostPrompt ?ev"] by auto
  from evaluation_effects [OF tr] obtain ds where s: "active_loop s = op_active_loop_state ob"
    and ds: "ds = [] \<or> ds = [ReplayQueuedPrompt] \<or> (\<exists>eid t src. ds = [RunLoopFollowUp eid t src])"
    and es: "es = (if active_loop (c_core_state c1) \<noteq> op_active_loop_state ob
            then [EmitLogicalEvent (LoopStateChanged (op_active_loop_state ob))] else []) @ ds"
    by (simp only: post_prompt_evaluation.simps) blast
  note ap = controller_inv_apply [OF inv tr]
  let ?c = "apply_core_state s c1"
  have check: "check_post_prompt le queued c = post_prompt_loop le es (op_completion_reason ob) NoAction ?c"
    using ob tr by (simp add: check_post_prompt_def execute_post_prompt_effects_def del: core_reduce.simps)
  show ?thesis
  proof (cases "op_completion_reason ob")
    case None
    then have "op_active_loop_state ob = None \<longleftrightarrow> active_loop (c_core_state c1) = None"
      using cases inv by (simp add: controller_inv_def loop_linked_def)
    then have "controller_inv ?c" using s by (intro controller_inv_step [OF inv tr]) simp
    moreover have "snd (post_prompt_loop le es None NoAction ?c) = ?c"
      using post_prompt_loop_dispatch [OF ds] by (auto simp: es split: option.split)
    ultimately show ?thesis using None by (simp add: check)
  next
    case (Some r)
    then have "op_active_loop_state ob = None" "active_loop (c_core_state c1) \<noteq> None"
      using cases inv by (auto simp: controller_inv_def loop_linked_def)
    then have "snd (post_prompt_loop le es (Some r) NoAction ?c) = finish_loop le r ?c"
      using post_prompt_loop_dispatch [OF ds] by (simp add: es)
    then show ?thesis using Some ap finish_loop_inv [of ?c] by (simp add: check)
  qed
qed

lemma maybe_continue_inv:
  assumes "engine_keeps_loops le" "controller_inv c"
  shows "controller_inv (snd (maybe_continue_loop le c))"
proof -
  obtain ob c1 where ob: "observe_post_prompt_loop_state le c = (ob, c1)" by fastforce
  note cases = observe_cases [OF assms(1) ob]
  have inv: "controller_inv c1" by (rule observe_inv [OF assms(1) ob assms(2)])
  show ?thesis
  proof (cases "op_completion_reason ob")
    case None
    then show ?thesis using cases inv ob
      by (simp add: maybe_continue_loop_def controller_inv_def loop_linked_def mirrored_def)
  next
    case (Some r)
    then show ?thesis using inv ob finish_loop_inv [of c1 le r]
      by (simp add: maybe_continue_loop_def controller_inv_def)
  qed
qed

lemma sync_loop_inv:
  assumes "controller_inv c"
  shows "controller_inv (sync_loop_status le status c)"
proof (cases status)
  case None
  then show ?thesis using assms
    by (cases "c_active_loop_id c")
      (simp_all add: sync_loop_status_def controller_inv_def loop_linked_def mirrored_def)
next
  case (Some cfg)
  show ?thesis
  proof (cases "c_active_loop_id c")
    case None
    obtain r c' where st: "start_loop le cfg c = (r, c')" by fastforce
    have "core_inv (c_core_state c)" "mirrored c" using assms by (simp_all add: controller_inv_def)
    from start_loop_inv [OF this st] assms show ?thesis using st Some None
      by (cases r) (simp_all add: sync_loop_status_def controller_inv_def loop_linked_def)
  next
    case (Some i)
    then show ?thesis using assms \<open>status = Some cfg\<close> by (simp add: sync_loop_status_def)
  qed
qed


lemma controller_inv_other [simp]:
  "controller_inv (c\<lparr>c_agent := a\<rparr>) \<longleftrightarrow> controller_inv c"
  "controller_inv (c\<lparr>c_loop_engine := e\<rparr>) \<longleftrightarrow> controller_inv c"
  "controller_inv (c\<lparr>c_session_id := i\<rparr>) \<longleftrightarrow> controller_inv c"
  "controller_inv (c\<lparr>c_model := m\<rparr>) \<longleftrightarrow> controller_inv c"
  "controller_inv (c\<lparr>c_capabilities := p\<rparr>) \<longleftrightarrow> controller_inv c"
  "controller_inv (c\<lparr>c_tool_call_names := t\<rparr>) \<longleftrightarrow> controller_inv c"
  "controller_inv (c\<lparr>c_loop_turn_output := out\<rparr>) \<longleftrightarrow> controller_inv c"
  "controller_inv (c\<lparr>c_bash_confirms := s\<rparr>) \<longleftrightarrow> controller_inv c"
  "controller_inv (c\<lparr>c_todo_confirms := s\<rparr>) \<longleftrightarrow> controller_inv c"
  "controller_inv (c\<lparr>c_outgoing := es\<rparr>) \<longleftrightarrow> controller_inv c"
  "controller_inv (c\<lparr>c_auto_test_enabled := b\<rparr>) \<longleftrightarrow> controller_inv c"
  "controller_inv (c\<lparr>c_auto_test_command := cmd\<rparr>) \<longleftrightarrow> controller_inv c"
  by (simp_all add: controller_inv_def mirrored_def loop_linked_def)

lemma signal_loop_inv [simp]: "controller_inv (signal_loop_break le c) \<longleftrightarrow> controller_inv c"
  by (simp add: signal_loop_break_def split: option.split)

lemma process_event_inv:
  assumes "controller_inv c" "process_agent_event le e c = Some c'"
  shows "controller_inv c'"
proof -
  obtain kind daemon where e: "e = (kind, daemon)" by fastforce
  have seed: "controller_inv d'" if "controller_inv d" "start_embedded_prompt prompt 0 d = Some (r, d')" for d d' prompt r
    using start_embedded_inv [OF that(1)] that(2) by (simp add: start_embedded_prompt_def)
  show ?thesis
  proof (cases kind)
    case (BeforeAgentStart prompt)
    then show ?thesis using assms seed
      by (auto simp: e process_agent_event_def Let_def split: option.splits if_splits)
  qed (use assms in \<open>auto simp: e process_agent_event_def Let_def split: option.splits if_splits\<close>)
qed

lemma process_events_inv:
  "controller_inv c \<Longrightarrow> process_agent_events le es c = Some c' \<Longrightarrow> controller_inv c'"
  by (induction es arbitrary: c) (auto split: option.splits dest: process_event_inv)

lemma prompt_step_inv:
  assumes "controller_inv c" "core_reduce (c_core_state c) (PromptRequested r) = Transitioned s es"
  shows "controller_inv (apply_core_state s c)"
proof -
  have "active_loop s = active_loop (c_core_state c)"
    using assms(2) by (auto simp: reduce_prompt_requested_def allocate_effect_id_def Let_def split: if_splits)
  then show ?thesis by (intro controller_inv_step [OF assms]) simp
qed

lemma handle_prompt_inv:
  assumes "controller_inv c" "handle_prompt le ag text images c = Some c'"
  shows "controller_inv c'"
proof (cases "c_agent c")
  case None
  then show ?thesis using assms by (simp add: handle_prompt_def)
next
  case (Some agent)
  let ?r = "\<lparr>pr_text = text, pr_image_count = image_count_of images, pr_originating_follow_up_effect_id = None\<rparr>"
  show ?thesis
  proof (cases "core_reduce (c_core_state c) (PromptRequested ?r)")
    case (Rejected s e)
    then show ?thesis using assms Some
      by (auto simp: handle_prompt_def Let_def simp del: core_reduce.simps split: core_error.splits)
  next
    case (Transitioned s es)
    let ?c = "emit AgentStart (apply_core_state s c)"
    have inv: "controller_inv ?c" using prompt_step_inv [OF assms(1) Transitioned] by simp
    obtain completion during left agent' where sub: "ag_submit ag \<lparr>rq_session_id = c_session_id ?c,
        rq_model = c_model ?c, rq_text = text, rq_image_count = image_count_of images\<rparr> agent =
        (completion, during, left, agent')" using prod_cases4 by blast
    obtain c1 where c1: "process_agent_events le during (?c\<lparr>c_agent := None\<rparr>) = Some c1"
      using process_agent_events_total by blast
    obtain c2 where c2: "process_agent_events le left (c1\<lparr>c_agent := Some agent'\<rparr>) = Some c2"
      using process_agent_events_total by blast
    have "controller_inv c2" using process_events_inv [OF _ c2] process_events_inv [OF _ c1] inv by simp
    then show ?thesis
      using assms(2) Some Transitioned sub c1 c2 apply_prompt_completion_inv [of c2 le]
      by (auto simp: handle_prompt_def Let_def simp del: core_reduce.simps split: option.splits prod.splits)
        (metis snd_conv)
  qed
qed


lemma submit_inv:
  assumes "controller_inv c" "submit_prompt_with_runtime_adapter le submit text n w c = Some (ok, w', c')"
  shows "controller_inv c'"
proof -
  let ?r = "\<lparr>pr_text = text, pr_image_count = n, pr_originating_follow_up_effect_id = None\<rparr>"
  show ?thesis
  proof (cases "core_reduce (c_core_state c) (PromptRequested ?r)")
    case (Rejected s e)
    then show ?thesis using assms
      by (auto simp: submit_prompt_with_runtime_adapter_def Let_def simp del: core_reduce.simps split: core_error.splits)
  next
    case (Transitioned s es)
    obtain completion events w1 where sub: "submit \<lparr>rq_session_id = c_session_id (apply_core_state s c),
        rq_model = c_model (apply_core_state s c), rq_text = text, rq_image_count = n\<rparr> w = (completion, events, w1)"
      using prod_cases3 by blast
    let ?c = "fold (\<lambda>e. emit (Projected e)) (List.map_filter id events) (apply_core_state s c)"
    have "controller_inv ?c" using prompt_step_inv [OF assms(1) Transitioned] by (simp add: controller_inv_emits)
    then show ?thesis
      using assms(2) Transitioned sub apply_prompt_completion_inv [of ?c le]
      by (auto simp: submit_prompt_with_runtime_adapter_def Let_def simp del: core_reduce.simps
          split: option.splits prod.splits) (metis snd_conv)
  qed
qed

lemma abort_inv [simp]: "controller_inv c \<Longrightarrow> controller_inv (abort_prompt c)"
  by (auto simp: abort_prompt_def controller_inv_def mirrored_def loop_linked_def core_inv_def emit_def
      split: option.splits)

text \<open>Core inputs that leave the loop alone.\<close>

lemma thinking_step_inv:
  assumes "controller_inv c" "core_reduce (c_core_state c) i = Transitioned s es"
    "i = CycleThinkingLevel \<or> (\<exists>l. i = SetThinkingLevel l)"
  shows "controller_inv (apply_core_state s c)"
proof -
  have "active_loop s = active_loop (c_core_state c)"
    using assms(2,3) by (auto simp: reduce_cycle_thinking_level_def reduce_set_thinking_level_def Let_def
        split: core_thinking_level_input.splits)
  then show ?thesis by (intro controller_inv_step [OF assms(1,2)]) simp
qed

lemma execute_thinking_inv:
  "execute_thinking_effects ag es c = Some (change, c') \<Longrightarrow> controller_inv c \<Longrightarrow> controller_inv c'"
  by (auto simp: execute_thinking_effects_def Let_def controller_inv_agents)

lemma set_thinking_inv:
  assumes "controller_inv c" "handle_set_thinking_level ag level c = Some c'"
  shows "controller_inv c'"
proof (cases "core_reduce (c_core_state c) (SetThinkingLevel (parse_core_thinking_level_input level))")
  case (Transitioned s es)
  have "controller_inv (apply_core_state s c)" using thinking_step_inv [OF assms(1) Transitioned] by blast
  then show ?thesis using assms(2) Transitioned execute_thinking_inv
    by (auto simp: handle_set_thinking_level_def simp del: core_reduce.simps)
next
  case (Rejected s e)
  then show ?thesis using assms
    by (auto simp: handle_set_thinking_level_def simp del: core_reduce.simps split: core_error.splits)
qed

lemma cycle_thinking_inv:
  assumes "controller_inv c" "handle_cycle_thinking_level ag c = Some c'"
  shows "controller_inv c'"
proof (cases "core_reduce (c_core_state c) CycleThinkingLevel")
  case (Transitioned s es)
  have "controller_inv (apply_core_state s c)" using thinking_step_inv [OF assms(1) Transitioned] by blast
  then show ?thesis using assms(2) Transitioned execute_thinking_inv
    by (auto simp: handle_cycle_thinking_level_def simp del: core_reduce.simps)
next
  case (Rejected s e)
  then show ?thesis using assms by (simp add: handle_cycle_thinking_level_def del: core_reduce.simps)
qed

lemma filter_step_inv:
  assumes "controller_inv c" "core_reduce (c_core_state c) i = Transitioned s es"
    "(\<exists>r. i = SetDisabledTools r) \<or> (\<exists>a. i = ToolFilterApplied a)"
  shows "controller_inv (apply_core_state s c)"
proof -
  have "active_loop s = active_loop (c_core_state c)"
    using assms(2,3) by (auto simp: reduce_set_disabled_tools_def reduce_tool_filter_applied_def
        allocate_effect_id_def Let_def split: if_splits option.splits)
  then show ?thesis by (intro controller_inv_step [OF assms(1,2)]) simp
qed

lemma filter_feedback_inv:
  assumes "controller_inv c"
  shows "controller_inv (snd (apply_tool_filter_feedback fb c))"
proof (cases "core_reduce (c_core_state c) (ToolFilterApplied fb)")
  case (Transitioned s es)
  have "controller_inv (apply_core_state s c)" using filter_step_inv [OF assms Transitioned] by blast
  then show ?thesis using Transitioned
    by (simp add: apply_tool_filter_feedback_def execute_tool_filter_feedback_effects_def del: core_reduce.simps split: option.split)
next
  case (Rejected s e)
  then show ?thesis using assms by (simp add: apply_tool_filter_feedback_def del: core_reduce.simps)
qed

lemma filter_request_inv:
  "controller_inv c \<Longrightarrow> controller_inv (snd (execute_tool_filter_request_effects ag es c))"
  by (auto simp: execute_tool_filter_request_effects_def Let_def intro: filter_feedback_inv split: option.split)

lemma disabled_tools_inv:
  assumes "controller_inv c" "handle_set_disabled_tools ag tools c = Some c'"
  shows "controller_inv c'"
proof (cases "core_reduce (c_core_state c) (SetDisabledTools \<lparr>requested_disabled_tools = tools\<rparr>)")
  case (Transitioned s es)
  have "controller_inv (apply_core_state s c)" using filter_step_inv [OF assms(1) Transitioned] by blast
  from filter_request_inv [OF this, of ag es] show ?thesis using assms(2) Transitioned
    by (auto simp: handle_set_disabled_tools_def simp del: core_reduce.simps split: prod.splits bool.splits)
next
  case (Rejected s e)
  then show ?thesis using assms
    by (auto simp: handle_set_disabled_tools_def simp del: core_reduce.simps split: core_error.splits)
qed

lemma start_loop_command_inv:
  assumes "controller_inv c" "handle_start_loop le n prompt bc c = Some c'"
  shows "controller_inv c'"
proof -
  let ?al = "\<lparr>loop_id = ''loop-'' @ c_session_id c, loop_prompt_text = prompt, current_iteration = 0,
    max_iterations = n, break_condition = bc\<rparr>"
  let ?i = "StartLoop \<lparr>lr_loop_id = ''loop-'' @ c_session_id c, lr_prompt_text = prompt, lr_max_iterations = n,
    lr_break_condition = bc\<rparr>"
  show ?thesis
  proof (cases "core_reduce (c_core_state c) ?i")
    case (Rejected s e)
    then show ?thesis using assms
      by (auto simp: handle_start_loop_def loop_control_rejected_def simp del: core_reduce.simps split: core_error.splits)
  next
    case (Transitioned s es)
    then have es: "es = [EmitLogicalEvent (LoopStateChanged (Some ?al))]" "active_loop (c_core_state c) = None"
      by (auto simp: reduce_start_loop_def Let_def split: if_splits)
    let ?c = "apply_core_state s c" and ?cfg = "\<lparr>lo_name = ''loop-'' @ c_session_id c, lo_prompt = Some prompt,
      lo_max_iterations = n, lo_break_text = bc\<rparr>"
    note ap = controller_inv_apply [OF assms(1) Transitioned]
    have no_loop: "c_active_loop_id c = None" using assms(1) es(2) by (simp add: controller_inv_def loop_linked_def)
    obtain r c1 where st: "start_loop le ?cfg ?c = (r, c1)" by fastforce
    have res: "c' = (if r = None then c1\<lparr>c_core_state := (c_core_state c1)\<lparr>active_loop := None\<rparr>\<rparr> else c1)"
      using assms(2) Transitioned st
      by (auto simp: handle_start_loop_def execute_start_loop_effects_def es simp del: core_reduce.simps)
    from ap start_loop_inv [of ?c, OF _ _ st] show ?thesis
      by (cases r) (auto simp: res controller_inv_def mirrored_def loop_linked_def no_loop)
  qed
qed

lemma stop_loop_command_inv:
  assumes "controller_inv c" "handle_stop_loop le c = Some c'"
  shows "controller_inv c'"
proof (cases "core_reduce (c_core_state c) StopLoop")
  case (Rejected s e)
  then show ?thesis using assms
    by (auto simp: handle_stop_loop_def loop_control_rejected_def simp del: core_reduce.simps split: core_error.splits)
next
  case (Transitioned s es)
  note ap = controller_inv_apply [OF assms(1) Transitioned]
  have "es = [loop_cleared]" using Transitioned
    by (auto simp: reduce_stop_loop_def loop_cleared_def Let_def split: if_splits)
  then show ?thesis using assms(2) Transitioned ap stop_loop_inv [of "apply_core_state s c" le]
    by (auto simp: handle_stop_loop_def execute_stop_loop_effects_def simp del: core_reduce.simps)
qed


lemma if_authorized_inv:
  assumes "controller_inv c" "if_authorized ag action f c = Some c'"
    and "\<And>d d'. controller_inv d \<Longrightarrow> f d = Some d' \<Longrightarrow> controller_inv d'"
  shows "controller_inv c'"
  using assms(1,2) assms(3)
  by (auto simp: if_authorized_def ensure_session_manage_authorized_def emit_authorization_error_def
      split: option.splits sum.splits)

lemma set_model_inv: "controller_inv c \<Longrightarrow> controller_inv (set_model_from_command ag model reason c)"
  by (auto simp: set_model_from_command_def emit_authorization_error_def Let_def split: option.splits prod.splits sum.splits)

lemma plain_handlers_inv:
  assumes "controller_inv c"
  shows "controller_inv (clear_history ag c)" "controller_inv (compact_history ag c)"
    "controller_inv (emit_system_prompt ag c)" "controller_inv (slash_autotest args c)"
    "controller_inv (set_capabilities ag caps c)" "controller_inv (replay_history ag c)"
    "controller_inv (set_auto_test_command enabled command c)" "controller_inv (set_auto_test enabled command c)"
    "controller_inv (snd (maybe_auto_test c))" "controller_inv (clear_auto_test c)"
  using assms
  by (simp_all add: clear_history_def compact_history_def emit_system_prompt_def slash_autotest_def
      set_capabilities_def replay_history_def Let_def controller_inv_emits
      split: option.split prod.split)
    (simp_all add: set_auto_test_command_def set_auto_test_def maybe_auto_test_def clear_auto_test_def
      controller_inv_def mirrored_def loop_linked_def Let_def emit_def split: option.split)

lemma slash_inv:
  assumes "controller_inv c" "handle_slash_command_sync le ag command args c = Some c'"
  shows "controller_inv c'"
  using assms(2) unfolding handle_slash_command_sync_def
  by (auto split: if_splits intro: set_model_inv plain_handlers_inv assms(1)
      dest!: if_authorized_inv [OF assms(1)] elim: set_thinking_inv cycle_thinking_inv stop_loop_command_inv)


lemma rewrite_inv:
  assumes "controller_inv c" "(case ensure_prompt_authorized ag text c of (False, c) \<Rightarrow> Some c
    | (True, c) \<Rightarrow> handle_prompt le ag text 0 (with_agent f c)) = Some c'"
  shows "controller_inv c'"
  using assms handle_prompt_inv [of "with_agent f c" le ag _ 0 c']
  by (auto simp: ensure_prompt_authorized_def emit_authorization_error_def split: option.splits sum.splits)

lemma dispatch_inv:
  assumes "controller_inv c" "dispatch_command le ag cmd c = Some c'"
  shows "controller_inv c'"
proof -
  note guarded = if_authorized_inv [OF assms(1)]
  show ?thesis
  proof (cases cmd)
    case (CmdRewriteAndPrompt t)
    then show ?thesis using assms(2) by (auto dest: guarded rewrite_inv)
  next
    case (CmdSlashCommand command args)
    then show ?thesis using assms by (auto dest: slash_inv)
  next
    case (CmdPrompt t images)
    then show ?thesis using assms by (auto dest: handle_prompt_inv)
  next
    case (CmdSetThinkingLevel level)
    then show ?thesis using assms(2) by (auto dest: guarded set_thinking_inv)
  next
    case CmdCycleThinkingLevel
    then show ?thesis using assms(2) by (auto dest: guarded cycle_thinking_inv)
  next
    case (CmdSetDisabledTools tools)
    then show ?thesis using assms(2) by (auto dest: guarded disabled_tools_inv)
  next
    case (CmdStartLoop n prompt bc)
    then show ?thesis using assms(2) by (auto dest: guarded start_loop_command_inv)
  next
    case CmdStopLoop
    then show ?thesis using assms(2) by (auto dest: guarded stop_loop_command_inv)
  qed (use assms(1,2) in \<open>auto simp: Let_def dest!: guarded intro: plain_handlers_inv set_model_inv\<close>)
qed


section \<open>Reachable controllers\<close>

text \<open>Every operation the shells call on the controller. The runtime adapter enters with what it answered.\<close>

datatype ('t, 'v) controller_op =
    OpCommand session_command
  | OpEvents "'v agent_event list"
  | OpStartPrompt string u32 "pending_work_id option"
  | OpFinishPrompt shell_prompt_completion
  | OpNotifyDone bool
  | OpCheckPostPrompt bool
  | OpAckFollowUp pending_work_id shell_follow_up_dispatch
  | OpCompleteFollowUp pending_work_id shell_prompt_completion
  | OpSyncLoop "loop_config option"
  | OpStartLoop loop_config
  | OpStopLoop
  | OpSignalBreak
  | OpContinueLoop
  | OpMaybeAutoTest
  | OpClearAutoTest
  | OpSetAutoTest bool "string option"
  | OpSubmit string u32 runtime_prompt_completion "'v option list"
  | OpControl runtime_control_request
  | OpRegisterConfirm
  | OpTakeOutgoing
  | OpSetToolRebuilder "string list \<Rightarrow> 't list"
  | OpRefreshTools
  | OpSetSessionId string
  | OpSetModelName string
  | OpShutdown

fun controller_do :: "'l loop_port \<Rightarrow> ('a, 't, 'v) agent_port \<Rightarrow> ('a, 'l, 't, 'v) session_controller \<Rightarrow> ('t, 'v) controller_op \<Rightarrow>
   ('a, 'l, 't, 'v) session_controller option" where
  "controller_do le ag c (OpCommand cmd) = handle_command le ag cmd c"
| "controller_do le ag c (OpEvents es) = process_agent_events le es c"
| "controller_do le ag c (OpStartPrompt t n origin) = map_option snd (start_embedded_prompt_with_follow_up t n origin c)"
| "controller_do le ag c (OpFinishPrompt status) = Some (finish_embedded_prompt le status c)"
| "controller_do le ag c (OpNotifyDone had_error) = Some (notify_prompt_done le had_error c)"
| "controller_do le ag c (OpCheckPostPrompt queued) = Some (snd (check_post_prompt le queued c))"
| "controller_do le ag c (OpAckFollowUp wid status) = Some (ack_follow_up_dispatch le wid status c)"
| "controller_do le ag c (OpCompleteFollowUp wid status) = complete_dispatched_follow_up le wid status c"
| "controller_do le ag c (OpSyncLoop status) = Some (sync_loop_status le status c)"
| "controller_do le ag c (OpStartLoop cfg) = Some (snd (start_loop le cfg c))"
| "controller_do le ag c OpStopLoop = Some (stop_loop le c)"
| "controller_do le ag c OpSignalBreak = Some (signal_loop_break le c)"
| "controller_do le ag c OpContinueLoop = Some (snd (maybe_continue_loop le c))"
| "controller_do le ag c OpMaybeAutoTest = Some (snd (maybe_auto_test c))"
| "controller_do le ag c OpClearAutoTest = Some (clear_auto_test c)"
| "controller_do le ag c (OpSetAutoTest enabled command) = Some (set_auto_test enabled command c)"
| "controller_do le ag c (OpSubmit t n completion events) =
     map_option (snd \<circ> snd) (submit_prompt_with_runtime_adapter le (\<lambda>_ w. (completion, events, w)) t n () c)"
| "controller_do le ag c (OpControl request) =
     map_option (snd \<circ> snd) (apply_control_with_runtime_adapter (\<lambda>_ w. w) request () c)"
| "controller_do le ag c OpRegisterConfirm = Some (snd (register_bash_confirm c))"
| "controller_do le ag c OpTakeOutgoing = Some (snd (take_outgoing c))"
| "controller_do le ag c (OpSetToolRebuilder rebuild) = Some (set_tool_rebuilder rebuild c)"
| "controller_do le ag c OpRefreshTools = Some (snd (refresh_tools ag c))"
| "controller_do le ag c (OpSetSessionId i) = Some (set_session_id ag i c)"
| "controller_do le ag c (OpSetModelName model) = Some (set_model_name model c)"
| "controller_do le ag c OpShutdown = Some (shutdown ag c)"

lemma adapter_control_inv:
  assumes "controller_inv c" "apply_control_with_runtime_adapter control request w c = Some (ok, w', c')"
  shows "controller_inv c'"
proof (cases request)
  case (ControlSetThinkingLevel level)
  let ?i = "SetThinkingLevel (Level level)"
  show ?thesis
  proof (cases "core_reduce (c_core_state c) ?i")
    case (Transitioned s es)
    have "controller_inv (apply_core_state s c)" using thinking_step_inv [OF assms(1) Transitioned] by blast
    then show ?thesis using assms(2) Transitioned ControlSetThinkingLevel
      by (auto simp: apply_adapter_thinking_level_def Let_def simp del: core_reduce.simps)
  qed (use assms ControlSetThinkingLevel in \<open>auto simp: apply_adapter_thinking_level_def simp del: core_reduce.simps\<close>)
next
  case (ControlSetDisabledTools tools)
  let ?i = "SetDisabledTools \<lparr>requested_disabled_tools = tools\<rparr>"
  show ?thesis
  proof (cases "core_reduce (c_core_state c) ?i")
    case (Transitioned s es)
    have inv: "controller_inv (apply_core_state s c)" using filter_step_inv [OF assms(1) Transitioned] by blast
    show ?thesis
    proof (cases "interpret_tool_filter_application es")
      case None
      then show ?thesis using assms(2) Transitioned ControlSetDisabledTools inv
        by (auto simp: apply_adapter_disabled_tools_def Let_def simp del: core_reduce.simps)
    next
      case (Some a)
      then show ?thesis
        using assms(2) Transitioned ControlSetDisabledTools filter_feedback_inv [OF inv]
        by (auto simp: apply_adapter_disabled_tools_def Let_def simp del: core_reduce.simps split: prod.splits)
          (metis snd_conv)
    qed
  qed (use assms ControlSetDisabledTools in \<open>auto simp: apply_adapter_disabled_tools_def simp del: core_reduce.simps\<close>)
qed (use assms in auto)

lemma setters_inv:
  assumes "controller_inv c"
  shows "controller_inv (set_tool_rebuilder rebuild c)" "controller_inv (snd (refresh_tools ag c))"
    "controller_inv (set_session_id ag i c)" "controller_inv (set_model_name model c)" "controller_inv (shutdown ag c)"
  using assms
  by (simp_all add: refresh_tools_def set_session_id_def set_model_name_def shutdown_def Let_def split: option.split)
    (simp_all add: set_tool_rebuilder_def controller_inv_def mirrored_def loop_linked_def)

lemma confirm_inv [simp]: "controller_inv (snd (register_bash_confirm c)) \<longleftrightarrow> controller_inv c"
  by (simp add: register_bash_confirm_def split: prod.split)

lemma start_loop_now_inv:
  assumes "controller_inv c"
  shows "controller_inv (snd (start_loop le cfg c))"
proof -
  obtain r c' where st: "start_loop le cfg c = (r, c')" by fastforce
  show ?thesis using start_loop_inv [OF _ _ st] assms st
    by (cases r) (simp_all add: controller_inv_def loop_linked_def)
qed

lemma controller_do_inv:
  assumes "engine_keeps_loops le" "controller_inv c" "controller_do le ag c x = Some c'"
  shows "controller_inv c'"
proof -
  have core: "core_inv (c_core_state c)" "mirrored c" using assms(2) by (simp_all add: controller_inv_def)
  show ?thesis
    using assms(2,3)
    by (cases x)
      (auto simp: handle_command_def notify_prompt_done_def take_outgoing_def split: if_splits
        intro: finish_embedded_inv check_post_prompt_inv ack_inv sync_loop_inv start_loop_now_inv stop_loop_inv
          maybe_continue_inv plain_handlers_inv setters_inv assms(1,2) core
        dest: dispatch_inv [OF assms(2)] process_events_inv [OF assms(2)] start_embedded_inv [OF assms(2)]
          complete_inv [OF assms(2)] submit_inv [OF assms(2)] adapter_control_inv [OF assms(2)])
qed

definition controller_next :: "'l loop_port \<Rightarrow> ('a, 't, 'v) agent_port \<Rightarrow> ('a, 'l, 't, 'v) session_controller \<Rightarrow>
   ('t, 'v) controller_op \<Rightarrow> ('a, 'l, 't, 'v) session_controller" where
  "controller_next le ag c x = (case controller_do le ag c x of None \<Rightarrow> c | Some c' \<Rightarrow> c')"

lemma controller_machine:
  assumes "engine_keeps_loops le"
  shows "machine (controller_next le ag) (controller_new agent engine cfg) controller_inv"
  by unfold_locales
    (auto simp: controller_next_def controller_inv_new dest: controller_do_inv [OF assms] split: option.split)

text \<open>A loop engine with one loop, that counts iterations up to its limit.\<close>

definition counting_engine :: "(u32 \<times> u32 \<times> string) option loop_port" where
  "counting_engine =
     \<lparr>le_never = (\<lambda>s. s = []),
      le_register = (\<lambda>d e. (Some ''L'', Some (case d of LoopFixed _ m p \<Rightarrow> (0, m, p) | LoopUntil _ _ m p \<Rightarrow> (0, m, p)))),
      le_start = (\<lambda>_ e. e), le_stop = (\<lambda>_ e. e), le_remove = (\<lambda>_ _. None), le_signal_break = (\<lambda>_ e. e),
      le_record_iteration = (\<lambda>_ _ e. case e of None \<Rightarrow> (False, None)
        | Some (k, m, p) \<Rightarrow> (k + 1 < m, Some (k + 1, m, p))),
      le_get = (\<lambda>e _. map_option (\<lambda>(k, m, p).
        \<lparr>ls_status = LoopStopped, ls_current_iteration = k, ls_action_prompt = Some p\<rparr>) e)\<rparr>"

definition open_agent :: "(unit, unit, unit) agent_port" where
  "open_agent =
     \<lparr>ag_control = (\<lambda>_ a. a), ag_clear_messages = id, ag_truncate_messages = (\<lambda>_. id), ag_seed_messages = (\<lambda>_. id),
      ag_set_system_prompt = (\<lambda>_. id), ag_system_prompt = (\<lambda>_. []), ag_pop_last_exchange = id,
      ag_compact_messages = (\<lambda>a. ((0, 0), a)), ag_set_user_tool_filter = (\<lambda>_. id),
      ag_apply_core_filtered_tools = (\<lambda>_. id), ag_try_set_model = (\<lambda>_ a. (Inr (), a)),
      ag_check_session_manage = (\<lambda>_ _. Inr ()), ag_check_prompt = (\<lambda>_ _. Inr ()), ag_tool_infos = (\<lambda>_. []),
      ag_messages = (\<lambda>_. []), ag_set_session_id = (\<lambda>_. id), ag_set_tools = (\<lambda>_. id),
      ag_describe = (\<lambda>_. \<lparr>ti_name = [], ti_description = [], ti_source = []\<rparr>), ag_abort = id,
      ag_submit = (\<lambda>_ a. (RunSucceeded, [], [], a))\<rparr>"

definition sample_config :: controller_config where
  "sample_config = \<lparr>cf_session_id = ''s'', cf_model = ''m'', cf_capabilities = None, cf_capability_ceiling = None,
     cf_initial_thinking_level = Off, cf_auto_test_enabled = False, cf_auto_test_command = None\<rparr>"

lemma counting_engine_keeps: "engine_keeps_loops counting_engine"
  by (auto simp: engine_keeps_loops_def counting_engine_def split: option.splits prod.splits)

text \<open>C9 (invariant). In every controller that the shells can reach, from any configuration and with any
  agent, through any sequence of commands, agent events, prompts, follow-ups and loop control: the core
  is busy exactly when it has a pending prompt, the controller's own copies of the busy flag, the disabled
  tools and the auto-test flag equal the core's, and a loop is registered with the loop engine exactly
  when the core has an active loop. The hypothesis is what the loop engine promises, that an iteration to
  be continued leaves its loop registered.\<close>

theorem controller_reachable_inv:
  assumes "engine_keeps_loops le"
    and "reachable_by (controller_next le ag) (controller_new agent engine cfg) c"
  shows "busy (c_core_state c) = (pending_prompt (c_core_state c) \<noteq> None) \<and>
    c_busy c = busy (c_core_state c) \<and> c_disabled_tools c = disabled_tools (c_core_state c) \<and>
    c_auto_test_in_progress c = auto_test_in_progress (c_core_state c) \<and>
    (c_active_loop_id c = None \<longleftrightarrow> active_loop (c_core_state c) = None)"
  using machine.reachable_inv [OF controller_machine [OF assms(1)] assms(2)]
  by (simp add: controller_inv_def mirrored_def loop_linked_def core_inv_def)

definition sample_run :: "(unit, (u32 \<times> u32 \<times> string) option, unit, unit) session_controller" where
  "sample_run = run_next (controller_next counting_engine open_agent) (controller_new (Some ()) None sample_config)
     [OpCommand (CmdStartLoop 2 ''go'' None), OpCheckPostPrompt False]"

theorem controller_reachable_inv_witness:
  "c_active_loop_id sample_run = Some ''L'' \<and> active_loop (c_core_state sample_run) \<noteq> None"
proof -
  have "reachable_by (controller_next counting_engine open_agent) (controller_new (Some ()) None sample_config) sample_run"
    unfolding sample_run_def by (rule reachable_by_run [OF reach_init])
  from controller_reachable_inv [OF counting_engine_keeps this]
  have "c_active_loop_id sample_run = None \<longleftrightarrow> active_loop (c_core_state sample_run) = None" by blast
  moreover have "c_active_loop_id sample_run = Some ''L''"
    by (simp add: sample_run_def controller_next_def handle_command_def controller_new_def sample_config_def
      if_authorized_def ensure_session_manage_authorized_def open_agent_def handle_start_loop_def reduce_start_loop_def
      core_default_def execute_start_loop_effects_def apply_core_state_def start_loop_def counting_engine_def loop_def_of_def
      check_post_prompt_def observe_post_prompt_loop_state_def reduce_post_prompt_evaluation_def
      allocate_effect_id_def execute_post_prompt_effects_def Let_def)
  ultimately show ?thesis by simp
qed

section \<open>Prompts end\<close>

lemma finish_keeps_prompt [simp]:
  "pending_prompt (c_core_state (finish_loop le r c)) = pending_prompt (c_core_state c)"
  "busy (c_core_state (finish_loop le r c)) = busy (c_core_state c)"
  "c_busy (finish_loop le r c) = c_busy c"
  by (simp_all add: finish_loop_def emit_def Let_def)

lemma completion_of_pending:
  assumes "pending_prompt (c_core_state c) = Some p" "pp_effect_id p = eid"
    and "apply_prompt_completion le \<lparr>pc_effect_id = eid, pc_completion_status = st\<rparr> c = (ok, c')"
  shows "ok \<and> \<not> busy (c_core_state c') \<and> pending_prompt (c_core_state c') = None \<and> \<not> c_busy c'"
  using assms
  by (auto simp: apply_prompt_completion_def reduce_prompt_completed_def execute_prompt_completion_effects_def
      apply_core_state_def Let_def split: if_splits)

text \<open>Events do not touch the prompt that is in flight.\<close>

lemma event_keeps_prompt:
  assumes "process_agent_event le e c = Some c'" "busy (c_core_state c)"
  shows "busy (c_core_state c') \<and> pending_prompt (c_core_state c') = pending_prompt (c_core_state c)"
proof -
  obtain kind daemon where e: "e = (kind, daemon)" by fastforce
  show ?thesis using assms
    by (cases kind) (auto simp: e process_agent_event_def signal_loop_break_def emit_def Let_def
        split: option.splits if_splits)
qed

lemma events_keep_prompt:
  "process_agent_events le es c = Some c' \<Longrightarrow> busy (c_core_state c) \<Longrightarrow>
     busy (c_core_state c') \<and> pending_prompt (c_core_state c') = pending_prompt (c_core_state c)"
  by (induction es arbitrary: c) (auto split: option.splits dest: event_keeps_prompt)

lemma emits_keep_core [simp]: "c_core_state (fold (\<lambda>x. emit (g x)) xs c) = c_core_state c"
  by (induction xs arbitrary: c) (simp_all add: emit_def)

lemma handle_prompt_idle:
  assumes "\<not> busy (c_core_state c)" "c_agent c = Some agent" "handle_prompt le ag t images c = Some c'"
  shows "\<not> busy (c_core_state c') \<and> pending_prompt (c_core_state c') = None \<and> \<not> c_busy c' \<and>
    (\<exists>err. last (c_outgoing c') = PromptDone err)"
proof -
  obtain eid s0 where al: "allocate_effect_id (c_core_state c) = (eid, s0)" by fastforce
  let ?s = "s0\<lparr>busy := True, pending_prompt := Some \<lparr>pp_effect_id = eid, pp_prompt_text = t,
    pp_image_count = image_count_of images, pp_originating_follow_up_effect_id = None\<rparr>\<rparr>"
  let ?c = "emit AgentStart (apply_core_state ?s c)"
  obtain completion during left agent' where sub: "ag_submit ag \<lparr>rq_session_id = c_session_id ?c,
      rq_model = c_model ?c, rq_text = t, rq_image_count = image_count_of images\<rparr> agent =
      (completion, during, left, agent')" using prod_cases4 by blast
  obtain c1 where c1: "process_agent_events le during (?c\<lparr>c_agent := None\<rparr>) = Some c1"
    using process_agent_events_total by blast
  obtain c2 where c2: "process_agent_events le left (c1\<lparr>c_agent := Some agent'\<rparr>) = Some c2"
    using process_agent_events_total by blast
  obtain status err where st: "runtime_completion_to_core completion = (status, err)" by fastforce
  obtain ok c3 where c3: "apply_prompt_completion le \<lparr>pc_effect_id = eid, pc_completion_status = status\<rparr> c2 = (ok, c3)"
    by fastforce
  have "c' = emit (PromptDone err) c3"
    using assms al sub c1 c2 st c3
    by (simp add: handle_prompt_def prompt_request_outcome execute_prompt_request_ok Let_def del: core_reduce.simps)
  moreover have "pending_prompt (c_core_state c2) = pending_prompt ?s"
    using events_keep_prompt [OF c1] events_keep_prompt [OF c2] by (simp add: emit_def apply_core_state_def)
  ultimately show ?thesis using completion_of_pending [OF _ _ c3] by (simp add: emit_def)
qed

lemma submit_idle:
  assumes "\<not> busy (c_core_state c)" "submit_prompt_with_runtime_adapter le submit t n w c = Some (ok, w', c')"
  shows "ok \<and> \<not> busy (c_core_state c') \<and> pending_prompt (c_core_state c') = None \<and> \<not> c_busy c' \<and>
    (\<exists>err. last (c_outgoing c') = PromptDone err)"
proof -
  obtain eid s0 where al: "allocate_effect_id (c_core_state c) = (eid, s0)" by fastforce
  let ?s = "s0\<lparr>busy := True, pending_prompt := Some \<lparr>pp_effect_id = eid, pp_prompt_text = t,
    pp_image_count = n, pp_originating_follow_up_effect_id = None\<rparr>\<rparr>"
  obtain completion events w1 where sub: "submit \<lparr>rq_session_id = c_session_id (apply_core_state ?s c),
      rq_model = c_model (apply_core_state ?s c), rq_text = t, rq_image_count = n\<rparr> w = (completion, events, w1)"
    using prod_cases3 by blast
  let ?c = "fold (\<lambda>e. emit (Projected e)) (List.map_filter id events) (apply_core_state ?s c)"
  obtain status err where st: "runtime_completion_to_core completion = (status, err)" by fastforce
  obtain ok3 c3 where c3: "apply_prompt_completion le \<lparr>pc_effect_id = eid, pc_completion_status = status\<rparr> ?c = (ok3, c3)"
    by fastforce
  have "c' = emit (PromptDone err) c3 \<and> ok"
    using assms al sub st c3
    by (simp add: submit_prompt_with_runtime_adapter_def prompt_request_outcome execute_prompt_request_ok Let_def
        del: core_reduce.simps)
  then show ?thesis using completion_of_pending [OF _ _ c3] by (simp add: emit_def apply_core_state_def)
qed

text \<open>C27 (liveness). A prompt always settles. When the core is idle and an agent is attached, the prompt
  command runs to its end whatever the agent answers and whatever events it sends, and leaves the
  controller and the core idle with no pending prompt, with \<^verbatim>\<open>PromptDone\<close> the last event; the same
  holds of a prompt through an injected runtime adapter, which reports it accepted.\<close>

theorem prompt_always_settles:
  assumes "\<not> busy (c_core_state c)"
  shows "(c_agent c = Some agent \<longrightarrow> (\<exists>c' err. handle_command le ag (CmdPrompt t images) c = Some c' \<and>
      \<not> busy (c_core_state c') \<and> pending_prompt (c_core_state c') = None \<and> \<not> c_busy c' \<and>
      last (c_outgoing c') = PromptDone err)) \<and>
    (\<exists>w' c' err. submit_prompt_with_runtime_adapter le submit t n w c = Some (True, w', c') \<and>
      \<not> busy (c_core_state c') \<and> pending_prompt (c_core_state c') = None \<and> \<not> c_busy c' \<and>
      last (c_outgoing c') = PromptDone err)"
proof -
  obtain ok w' c' where "submit_prompt_with_runtime_adapter le submit t n w c = Some (ok, w', c')"
    using submit_prompt_total [of le submit t n w c] by auto
  moreover obtain c2 where "handle_prompt le ag t images c = Some c2"
    using handle_prompt_total [of le ag t images c] by auto
  ultimately show ?thesis
    using submit_idle [OF assms, of le submit t n w ok w' c'] handle_prompt_idle [OF assms, of agent le ag t images c2]
    by (auto simp: handle_command_def)
qed

definition sample_controller :: "(unit, (u32 \<times> u32 \<times> string) option, unit, unit) session_controller" where
  "sample_controller = controller_new (Some ()) None sample_config"

theorem prompt_always_settles_witness:
  "\<exists>c'. handle_command counting_engine open_agent (CmdPrompt ''hi'' 0) sample_controller = Some c' \<and>
    \<not> busy (c_core_state c') \<and> pending_prompt (c_core_state c') = None"
proof -
  have "\<not> busy (c_core_state sample_controller)" "c_agent sample_controller = Some ()"
    by (simp_all add: sample_controller_def controller_new_def core_default_def)
  from prompt_always_settles [OF this(1), of "()" counting_engine open_agent "''hi''" 0 "\<lambda>_ w. (RunSucceeded, [], w)" 0 "()"] this(2)
  show ?thesis by auto
qed

section \<open>Follow-ups\<close>

text \<open>A follow-up that the core has dispatched goes through the three calls of the shell and is gone.\<close>

lemma failed_shell_completion [simp]: "is_failed (completion_to_core status) \<longleftrightarrow> status \<noteq> ShellSucceeded"
  by (cases status) (simp_all add: is_failed_def)

lemma dispatched_follow_up_cycle:
  assumes "pending_follow_up (c_core_state c) = Some f" "pf_effect_id f = wid"
    and "pf_stage f = AwaitingDispatchAcknowledgement" and "\<not> busy (c_core_state c)"
  shows "\<exists>c2 c3. start_embedded_prompt_with_follow_up t n (Some wid) c = Some (True, c2) \<and>
    complete_dispatched_follow_up le wid status (ack_follow_up_dispatch le wid ShellAccepted c2) = Some c3 \<and>
    \<not> busy (c_core_state c3) \<and> pending_prompt (c_core_state c3) = None \<and> pending_follow_up (c_core_state c3) = None \<and>
    (pf_source f = AutoTest \<and> status \<noteq> ShellSucceeded \<longrightarrow> \<not> auto_test_in_progress (c_core_state c3))"
proof -
  obtain eid s0 where al: "allocate_effect_id (c_core_state c) = (eid, s0)" by fastforce
  have s0: "pending_follow_up s0 = Some f" using al assms(1) by (auto simp: allocate_effect_id_def Let_def)
  let ?p = "\<lparr>pp_effect_id = eid, pp_prompt_text = t, pp_image_count = n, pp_originating_follow_up_effect_id = Some wid\<rparr>"
  let ?s = "s0\<lparr>busy := True, pending_prompt := Some ?p\<rparr>"
  let ?s2 = "?s\<lparr>pending_follow_up := Some (f\<lparr>pf_stage := AwaitingPromptCompletion\<rparr>)\<rparr>"
  let ?c2 = "apply_core_state ?s c" and ?c3 = "apply_core_state ?s2 (apply_core_state ?s c)"
  have start: "start_embedded_prompt_with_follow_up t n (Some wid) c = Some (True, ?c2)"
    using assms(4) al
    by (simp add: start_embedded_prompt_with_follow_up_def prompt_request_outcome execute_prompt_request_ok Let_def
        del: core_reduce.simps)
  have ack: "ack_follow_up_dispatch le wid ShellAccepted ?c2 = ?c3"
    using s0 assms(2,3)
    by (simp add: ack_follow_up_dispatch_def apply_core_state_def reduce_follow_up_dispatch_acknowledged_def
        execute_follow_up_dispatch_effects_def)
  have c3: "c_core_state ?c3 = ?s2" by (simp add: apply_core_state_def)
  obtain c4 where c4: "complete_dispatched_follow_up le wid status ?c3 = Some c4"
    using complete_dispatched_follow_up_total by blast
  have "\<not> busy (c_core_state c4) \<and> pending_prompt (c_core_state c4) = None \<and> pending_follow_up (c_core_state c4) = None \<and>
      (pf_source f = AutoTest \<and> status \<noteq> ShellSucceeded \<longrightarrow> \<not> auto_test_in_progress (c_core_state c4))"
    using c4 apply_completion_of_follow_up [of ?c3 ?p le "completion_to_core status"] assms(2)
    by (auto simp: complete_dispatched_follow_up_def c3 reduce_loop_follow_up_completed_def Let_def
        execute_follow_up_completion_effects_def execute_follow_up_failure_effects_def apply_core_state_def emit_def
        finish_loop_def split: if_splits)
  then show ?thesis using start ack c4 by auto
qed


lemma post_prompt_dispatch:
  assumes "check_post_prompt le queued c = (action_of wid t source, c')"
    and "c_active_loop_id c = None \<or> source = LoopContinuation"
  shows "busy (c_core_state c') = busy (c_core_state c) \<and>
    (\<exists>f. pending_follow_up (c_core_state c') = Some f \<and> pf_effect_id f = wid \<and> pf_source f = source \<and>
      pf_prompt_text f = t \<and> pf_stage f = AwaitingDispatchAcknowledgement)"
proof -
  obtain ob c1 where ob: "observe_post_prompt_loop_state le c = (ob, c1)" by fastforce
  have keep: "c_core_state c1 = c_core_state c" "c_active_loop_id c = None \<Longrightarrow> op_completion_reason ob = None"
    "op_completion_reason ob = Some r \<Longrightarrow> op_active_loop_state ob = None" for r
    using ob by (auto simp: observe_post_prompt_loop_state_def Let_def split: option.splits prod.splits if_splits)
  show ?thesis
    using assms ob keep
    by (cases "op_completion_reason ob"; cases source)
      (auto simp: check_post_prompt_def reduce_post_prompt_evaluation_def execute_post_prompt_effects_def action_of_def
        allocate_effect_id_def apply_core_state_def Let_def split: if_splits option.splits bool.splits)
qed


text \<open>C24 (liveness). A follow-up that the controller hands to its shell closes its cycle. When the check
  after a prompt returns \<^verbatim>\<open>ContinueLoop\<close>, or \<^verbatim>\<open>RunAutoTest\<close> with no loop running before the check, the
  shell's three calls (start the prompt with the work id, acknowledge, complete) are all accepted, with any
  outcome of the prompt, and leave the controller idle without a pending prompt or follow-up; a
  failed auto-test also clears the auto-test flag.\<close>

theorem follow_up_closes:
  assumes "check_post_prompt le queued c = (action_of wid t source, c1)" and "\<not> busy (c_core_state c)"
    and "c_active_loop_id c = None \<or> source = LoopContinuation"
  shows "\<exists>c2 c3. start_embedded_prompt_with_follow_up t 0 (Some wid) c1 = Some (True, c2) \<and>
    complete_dispatched_follow_up le wid status (ack_follow_up_dispatch le wid ShellAccepted c2) = Some c3 \<and>
    \<not> busy (c_core_state c3) \<and> pending_prompt (c_core_state c3) = None \<and> pending_follow_up (c_core_state c3) = None \<and>
    (source = AutoTest \<and> status \<noteq> ShellSucceeded \<longrightarrow> \<not> auto_test_in_progress (c_core_state c3))"
proof -
  from post_prompt_dispatch [OF assms(1,3)] assms(2) obtain f where f: "pending_follow_up (c_core_state c1) = Some f"
    "pf_effect_id f = wid" "pf_source f = source" "pf_stage f = AwaitingDispatchAcknowledgement" "\<not> busy (c_core_state c1)"
    by auto
  show ?thesis using dispatched_follow_up_cycle [OF f(1,2,4,5), of t 0 le status] f(3) by simp
qed

definition auto_test_controller :: "(unit, (u32 \<times> u32 \<times> string) option, unit, unit) session_controller" where
  "auto_test_controller = controller_new (Some ()) None
     (sample_config\<lparr>cf_auto_test_enabled := True, cf_auto_test_command := Some ''cargo test''\<rparr>)"

theorem follow_up_closes_witness:
  "\<exists>c1 c2 c3. check_post_prompt counting_engine False auto_test_controller = (RunAutoTest 1 (build_auto_test_prompt ''cargo test''), c1) \<and>
    start_embedded_prompt_with_follow_up (build_auto_test_prompt ''cargo test'') 0 (Some 1) c1 = Some (True, c2) \<and>
    complete_dispatched_follow_up counting_engine 1 ShellCancelled (ack_follow_up_dispatch counting_engine 1 ShellAccepted c2) = Some c3 \<and>
    \<not> busy (c_core_state c3) \<and> pending_follow_up (c_core_state c3) = None"
proof -
  let ?t = "build_auto_test_prompt ''cargo test''"
  obtain c1 where c1: "check_post_prompt counting_engine False auto_test_controller = (action_of 1 ?t AutoTest, c1)"
    by (simp add: check_post_prompt_def auto_test_controller_def sample_config_def controller_new_def core_default_def
        observe_post_prompt_loop_state_def reduce_post_prompt_evaluation_def allocate_effect_id_def saturating_add_def
        execute_post_prompt_effects_def apply_core_state_def Let_def)
  have "\<not> busy (c_core_state auto_test_controller)" "c_active_loop_id auto_test_controller = None"
    by (simp_all add: auto_test_controller_def controller_new_def core_default_def)
  with follow_up_closes [OF c1, of ShellCancelled] show ?thesis by (simp add: c1 action_of_def) blast
qed

text \<open>C40 (error). The end of a loop loses the auto-test follow-up. When the loop engine reports the last
  iteration and auto-test is enabled with a command, the check after the prompt returns
  \<^verbatim>\<open>RunAutoTest\<close>, but \<^verbatim>\<open>finish_loop\<close> has already cleared the core's record of it. The shell then starts
  its prompt, and its acknowledgement and its completion are both rejected: the prompt stays pending, the
  controller stays busy and refuses every further prompt, and the auto-test flag stays set.\<close>

theorem loop_end_auto_test_wedges:
  assumes "c_active_loop_id c = Some i" and "active_loop (c_core_state c) \<noteq> None"
    and "le_record_iteration le i (c_loop_turn_output c) (c_loop_engine c) = (False, engine)"
    and "pending_follow_up (c_core_state c) = None" and "\<not> busy (c_core_state c)"
    and "c_auto_test_enabled c" "\<not> c_auto_test_in_progress c" "c_auto_test_command c = Some cmd"
  shows "\<exists>wid c1 c2 c3 p. check_post_prompt le False c = (RunAutoTest wid (build_auto_test_prompt cmd), c1) \<and>
    start_embedded_prompt_with_follow_up (build_auto_test_prompt cmd) 0 (Some wid) c1 = Some (True, c2) \<and>
    complete_dispatched_follow_up le wid status (ack_follow_up_dispatch le wid ShellAccepted c2) = Some c3 \<and>
    pending_prompt (c_core_state c3) = Some p \<and> busy (c_core_state c3) \<and> c_busy c3 \<and>
    auto_test_in_progress (c_core_state c3) \<and>
    (\<forall>t n origin. \<exists>c4. start_embedded_prompt_with_follow_up t n origin c3 = Some (False, c4))"
proof -
  obtain wid c1 where c1: "check_post_prompt le False c = (RunAutoTest wid (build_auto_test_prompt cmd), c1)"
    and core: "pending_follow_up (c_core_state c1) = None" "\<not> busy (c_core_state c1)" "auto_test_in_progress (c_core_state c1)"
    using assms
    by (auto simp: check_post_prompt_def observe_post_prompt_loop_state_def reduce_post_prompt_evaluation_def
        execute_post_prompt_effects_def allocate_effect_id_def apply_core_state_def action_of_def finish_loop_def emit_def Let_def)
  obtain c2 where c2: "start_embedded_prompt_with_follow_up (build_auto_test_prompt cmd) 0 (Some wid) c1 = Some (True, c2)"
    and started: "pending_follow_up (c_core_state c2) = None" "busy (c_core_state c2)" "c_busy c2"
      "auto_test_in_progress (c_core_state c2)" "pending_prompt (c_core_state c2) \<noteq> None"
    using core
    by (auto simp: start_embedded_prompt_with_follow_up_def prompt_request_outcome execute_prompt_request_ok
        allocate_effect_id_def apply_core_state_def Let_def simp del: core_reduce.simps)
  let ?c3 = "completion_rejected (emit (SystemMessage ''Post-prompt follow-up dispatch rejected'' True) c2)"
  have "complete_dispatched_follow_up le wid status (ack_follow_up_dispatch le wid ShellAccepted c2) = Some ?c3"
    using started
    by (simp add: ack_follow_up_dispatch_def complete_dispatched_follow_up_def reduce_follow_up_dispatch_acknowledged_def
        reduce_loop_follow_up_completed_def emit_def Let_def)
  moreover have "c_core_state ?c3 = c_core_state c2" "c_busy ?c3 = c_busy c2"
    by (simp_all add: completion_rejected_def emit_def)
  moreover have "\<exists>c4. start_embedded_prompt_with_follow_up t n origin ?c3 = Some (False, c4)" for t n origin
    using started(2) \<open>c_core_state ?c3 = c_core_state c2\<close>
    by (simp add: start_embedded_prompt_with_follow_up_def reduce_prompt_requested_def)
  moreover obtain p where "pending_prompt (c_core_state c2) = Some p" using started(5) by blast
  ultimately show ?thesis using c1 c2 started by metis
qed

text \<open>A loop of one iteration with auto-test on.\<close>

definition looping_controller :: "(unit, (u32 \<times> u32 \<times> string) option, unit, unit) session_controller" where
  "looping_controller = snd (start_loop counting_engine
     \<lparr>lo_name = ''n'', lo_prompt = Some ''go'', lo_max_iterations = 1, lo_break_text = None\<rparr> auto_test_controller)"

theorem loop_end_auto_test_wedges_witness:
  "\<exists>wid t c1. check_post_prompt counting_engine False looping_controller = (RunAutoTest wid t, c1)"
proof -
  note defs = looping_controller_def auto_test_controller_def controller_new_def start_loop_def counting_engine_def
    loop_def_of_def sample_config_def core_default_def
  have c: "c_active_loop_id looping_controller = Some ''L''" "active_loop (c_core_state looping_controller) \<noteq> None"
    "le_record_iteration counting_engine ''L'' (c_loop_turn_output looping_controller) (c_loop_engine looping_controller) =
      (False, Some (1, 1, ''go''))"
    "pending_follow_up (c_core_state looping_controller) = None" "\<not> busy (c_core_state looping_controller)"
    "c_auto_test_enabled looping_controller" "\<not> c_auto_test_in_progress looping_controller"
    "c_auto_test_command looping_controller = Some ''cargo test''"
    by (simp_all add: defs or_default_def)
  show ?thesis using loop_end_auto_test_wedges [OF c] by blast
qed

section \<open>Authorization and capabilities\<close>

text \<open>The session action under which a command must be authorized.\<close>

fun managed_action :: "session_command \<Rightarrow> string option" where
  "managed_action CmdClearHistory = Some ''clear_history''"
| "managed_action (CmdTruncateMessages _) = Some ''truncate_messages''"
| "managed_action (CmdSetThinkingLevel _) = Some ''set_thinking_level''"
| "managed_action CmdCycleThinkingLevel = Some ''cycle_thinking_level''"
| "managed_action (CmdSeedMessages _) = Some ''seed_messages''"
| "managed_action (CmdSetSystemPrompt _) = Some ''set_system_prompt''"
| "managed_action (CmdSetDisabledTools _) = Some ''set_disabled_tools''"
| "managed_action (CmdRewriteAndPrompt _) = Some ''rewrite_prompt''"
| "managed_action CmdCompactHistory = Some ''compact_history''"
| "managed_action (CmdStartLoop _ _ _) = Some ''start_loop''"
| "managed_action CmdStopLoop = Some ''stop_loop''"
| "managed_action (CmdSetAutoTest _ _) = Some ''set_auto_test''"
| "managed_action (CmdSetCapabilities _) = Some ''set_capabilities''"
| "managed_action (CmdSlashCommand command args) =
     (if command = ''clear'' then Some ''clear_history''
      else if command = ''compact'' then Some ''compact_history''
      else if command = ''thinking'' then Some (if args = [] then ''cycle_thinking_level'' else ''set_thinking_level'')
      else if command = ''stop'' then Some ''stop_loop''
      else if command = ''autotest'' then Some ''set_auto_test''
      else None)"
| "managed_action _ = None"

lemma denied_guard:
  assumes "c_agent c = Some a" "ag_check_session_manage ag action a = Inl m"
  shows "if_authorized ag action f c = Some (emit (SystemMessage m True) c)"
  using assms by (simp add: if_authorized_def ensure_session_manage_authorized_def emit_authorization_error_def)

lemma denied_slash:
  assumes "c_agent c = Some a" "managed_action (CmdSlashCommand command args) = Some action"
    and "ag_check_session_manage ag action a = Inl m"
  shows "handle_slash_command_sync le ag command args c = Some (emit (SystemMessage m True) c)"
proof -
  note guard = denied_guard [OF assms(1,3)]
  consider "command = ''clear''" "action = ''clear_history''" | "command = ''compact''" "action = ''compact_history''"
    | "command = ''thinking''" "args = []" "action = ''cycle_thinking_level''"
    | "command = ''thinking''" "args \<noteq> []" "action = ''set_thinking_level''"
    | "command = ''stop''" "action = ''stop_loop''" | "command = ''autotest''" "action = ''set_auto_test''"
    using assms(2) by (simp only: managed_action.simps option.inject option.distinct split: if_splits) blast+
  then show ?thesis by cases (use guard in \<open>simp_all add: handle_slash_command_sync_def\<close>)
qed

lemma denied_command:
  assumes "c_agent c = Some a" "managed_action cmd = Some action" "ag_check_session_manage ag action a = Inl m"
  shows "dispatch_command le ag cmd c = Some (emit (SystemMessage m True) c)"
  using assms(2)
proof (cases cmd)
  case (CmdSlashCommand command args)
  then show ?thesis using denied_slash assms by simp
qed (use denied_guard [OF assms(1,3)] in \<open>simp_all\<close>)

text \<open>An unauthorized command is inert. When the agent's gate denies the action of a command,
  in its own form or as a slash command, the command changes nothing but the outgoing events, where it
  appends the denial; and changing the capabilities, however requested, never leaves a tool allowed that
  neither the ceiling nor the capabilities before allowed, nor moves the ceiling.\<close>

lemma unauthorized_command_is_inert:
  "(c_agent c = Some a \<and> managed_action cmd = Some action \<and> ag_check_session_manage ag action a = Inl m \<longrightarrow>
      handle_command le ag cmd c = Some (c\<lparr>c_outgoing := c_outgoing c @ [SystemMessage m True]\<rparr>)) \<and>
   (handle_command le ag (CmdSetCapabilities caps) c = Some c' \<longrightarrow>
      c_capability_ceiling c' = c_capability_ceiling c \<and>
      (is_tool_allowed t (c_capabilities c') \<longrightarrow>
         is_tool_allowed t (c_capabilities c) \<or> is_tool_allowed t (c_capability_ceiling c)))"
proof (intro conjI impI)
  assume "c_agent c = Some a \<and> managed_action cmd = Some action \<and> ag_check_session_manage ag action a = Inl m"
  then show "handle_command le ag cmd c = Some (c\<lparr>c_outgoing := c_outgoing c @ [SystemMessage m True]\<rparr>)"
    using denied_command [of c a cmd action ag m le] by (simp add: handle_command_def emit_def)
next
  assume h: "handle_command le ag (CmdSetCapabilities caps) c = Some c'"
  have set: "c_capability_ceiling (set_capabilities ag caps c) = c_capability_ceiling c \<and>
      (c_capabilities (set_capabilities ag caps c) = c_capabilities c \<or>
       c_capabilities (set_capabilities ag caps c) = clamp_capabilities (c_capability_ceiling c) caps)"
    by (simp add: set_capabilities_def emit_def with_agent_def Let_def)
  have "c' = c \<or> (\<exists>m. c' = emit (SystemMessage m True) c) \<or> c' = set_capabilities ag caps c"
    using h by (auto simp: handle_command_def if_authorized_def ensure_session_manage_authorized_def
        emit_authorization_error_def split: if_splits option.splits sum.splits)
  then have "c_capability_ceiling c' = c_capability_ceiling c \<and>
      (c_capabilities c' = c_capabilities c \<or> c_capabilities c' = clamp_capabilities (c_capability_ceiling c) caps)"
    using set by (elim disjE exE) (simp_all add: emit_def)
  note after = this
  show "c_capability_ceiling c' = c_capability_ceiling c" by (rule after [THEN conjunct1])
  assume "is_tool_allowed t (c_capabilities c')"
  then show "is_tool_allowed t (c_capabilities c) \<or> is_tool_allowed t (c_capability_ceiling c)"
    using after [THEN conjunct2] clamp_escalates [of t "c_capability_ceiling c" caps] by (elim disjE) simp_all
qed

definition locked_agent :: "(unit, unit, unit) agent_port" where
  "locked_agent = open_agent\<lparr>ag_check_session_manage := (\<lambda>_ _. Inl ''denied'')\<rparr>"

section \<open>The autotest slash command is forgotten\<close>

text \<open>\<^verbatim>\<open>/autotest\<close> changes the controller's copy of the auto-test settings and not the core's.
  It announces the new setting, but the next prompt restores the core's settings: after any accepted
  prompt start the controller's flag and command are the ones from before the slash command.\<close>

lemma slash_autotest_is_forgotten:
  assumes "c_auto_test_enabled c = auto_test_enabled (c_core_state c)"
    and "c_auto_test_command c = auto_test_command (c_core_state c)"
    and "handle_slash_command_sync le ag ''autotest'' args c = Some c1"
    and "start_embedded_prompt_with_follow_up t n origin c1 = Some (True, c2)"
  shows "c_auto_test_enabled c2 = c_auto_test_enabled c \<and> c_auto_test_command c2 = c_auto_test_command c"
proof -
  have "c_core_state c1 = c_core_state c"
    using assms(3) by (auto simp: handle_slash_command_sync_def if_authorized_def ensure_session_manage_authorized_def
        emit_authorization_error_def emit_def slash_autotest_def Let_def split: option.splits sum.splits)
  then show ?thesis using assms(1,2,4)
    by (auto simp: start_embedded_prompt_with_follow_up_def prompt_request_outcome execute_prompt_request_ok
        allocate_effect_id_def apply_core_state_def Let_def simp del: core_reduce.simps split: if_splits)
qed

lemma start_accepted:
  "\<not> busy (c_core_state c) \<Longrightarrow> \<exists>c'. start_embedded_prompt_with_follow_up t n origin c = Some (True, c')"
  by (cases "allocate_effect_id (c_core_state c)")
    (simp add: start_embedded_prompt_with_follow_up_def prompt_request_outcome execute_prompt_request_ok
      Let_def del: core_reduce.simps)

end
