(* ===== verification/Tool_Summaries.thy ===== *)
theory Tool_Summaries
  imports Transcript Text "HOL-Library.AList" "HOL-Library.Char_ord" "HOL-Library.List_Lexorder"
begin

text \<open>
  The one-line summaries that replace old tool results, \<^verbatim>\<open>crates/clankers-agent/src/compaction/tool_summaries.rs\<close>.
  A JSON value is looked at through \<open>json_shape\<close>: what \<^verbatim>\<open>serde_json\<close> calls \<^verbatim>\<open>Value::Null\<close>, \<^verbatim>\<open>Bool\<close> and so on. The
  two assertions of the code are panics, and a panic is \<open>None\<close>.
\<close>

section \<open>JSON values\<close>

text \<open>A number is given by its text and by \<^verbatim>\<open>as_u64\<close>, an object by its entries. \<open>js_content\<close> is the text of a content block.\<close>

datatype 'v json_shape =
    ShapeNull
  | ShapeBool bool
  | ShapeNumber string "u64 option"
  | ShapeString string
  | ShapeArray "'v list"
  | ShapeObject "(string \<times> 'v) list"

record 'v json_access =
  js_shape :: "'v \<Rightarrow> 'v json_shape"
  js_null :: 'v
  js_string :: "string \<Rightarrow> 'v"
  js_object :: "(string \<times> 'v) list \<Rightarrow> 'v"
  js_content :: "'v content \<Rightarrow> string"

definition as_object :: "'v json_access \<Rightarrow> 'v \<Rightarrow> (string \<times> 'v) list option" where
  "as_object J v = (case js_shape J v of ShapeObject kvs \<Rightarrow> Some kvs | _ \<Rightarrow> None)"

definition as_array :: "'v json_access \<Rightarrow> 'v \<Rightarrow> 'v list option" where
  "as_array J v = (case js_shape J v of ShapeArray vs \<Rightarrow> Some vs | _ \<Rightarrow> None)"

definition as_string :: "'v json_access \<Rightarrow> 'v \<Rightarrow> string option" where
  "as_string J v = (case js_shape J v of ShapeString s \<Rightarrow> Some s | _ \<Rightarrow> None)"

definition as_u64 :: "'v json_access \<Rightarrow> 'v \<Rightarrow> u64 option" where
  "as_u64 J v = (case js_shape J v of ShapeNumber _ n \<Rightarrow> n | _ \<Rightarrow> None)"

definition json_get :: "'v json_access \<Rightarrow> 'v \<Rightarrow> string \<Rightarrow> 'v option" where
  "json_get J v k = Option.bind (as_object J v) (\<lambda>kvs. map_of kvs k)"

text \<open>What the proofs use of the library: an object is read back with the entries it was built from, and the
  entries that are read have different keys and build it again; a string is read back as itself; the text of a number is a single line.\<close>

definition json_access_ok :: "'v json_access \<Rightarrow> bool" where
  "json_access_ok J \<longleftrightarrow> (\<forall>kvs. distinct (map fst kvs) \<longrightarrow> (\<exists>kvs'. js_shape J (js_object J kvs) = ShapeObject kvs' \<and> map_of kvs' = map_of kvs)) \<and>
     (\<forall>s. js_shape J (js_string J s) = ShapeString s) \<and>
     (\<forall>v kvs. js_shape J v = ShapeObject kvs \<longrightarrow> distinct (map fst kvs) \<and> js_object J kvs = v) \<and>
     (\<forall>v n t. js_shape J v = ShapeNumber t n \<longrightarrow> newline \<notin> set t)"

section \<open>Pieces of a summary\<close>

definition SUMMARY_MARKER_KEY :: string where "SUMMARY_MARKER_KEY = ''_compaction_summary''"
definition ORIGINAL_DETAILS_KEY :: string where "ORIGINAL_DETAILS_KEY = ''_compaction_original_details''"
definition DEFAULT_READ_OFFSET :: u64 where "DEFAULT_READ_OFFSET = 1"
definition DEFAULT_EDIT_COUNT :: nat where "DEFAULT_EDIT_COUNT = 1"
definition ZERO_MATCHES :: nat where "ZERO_MATCHES = 0"
definition MAX_ARG_PREVIEW_CHARS :: nat where "MAX_ARG_PREVIEW_CHARS = 80"
definition MAX_TASK_PREVIEW_CHARS :: nat where "MAX_TASK_PREVIEW_CHARS = 60"
definition UNKNOWN_ARG_PREVIEW :: string where "UNKNOWN_ARG_PREVIEW = ''?''"

record content_stats =
  st_joined_text :: string
  st_char_count :: nat
  st_line_count :: nat
  st_has_image :: bool

definition text_line_count :: "string \<Rightarrow> nat" where
  "text_line_count text = (if text = [] then 0 else length (split_inclusive newline text))"

fun content_part :: "'v json_access \<Rightarrow> 'v content \<Rightarrow> string option" where
  "content_part J (ContentText text) = Some text"
| "content_part J (ContentThinking thinking _) = Some thinking"
| "content_part J (ContentImage _) = None"
| "content_part J block = Some (js_content J block)"

fun is_image :: "'v content \<Rightarrow> bool" where
  "is_image (ContentImage _) \<longleftrightarrow> True"
| "is_image _ \<longleftrightarrow> False"

definition content_stats_of :: "'v json_access \<Rightarrow> 'v content list \<Rightarrow> content_stats" where
  "content_stats_of J content = (let parts = List.map_filter (content_part J) content
     in \<lparr>st_joined_text = join_with [newline] parts,
         st_char_count = sum_list (map char_count parts),
         st_line_count = sum_list (map text_line_count parts),
         st_has_image = list_ex is_image content\<rparr>)"

definition sanitize_preview :: "string \<Rightarrow> nat \<Rightarrow> string" where
  "sanitize_preview text max_chars =
     (let single_line = map (\<lambda>c. if c = newline then CHR '' '' else c) text;
          preview = take_chars max_chars single_line
      in if max_chars < char_count single_line then preview @ ''...'' else preview)"

definition pluralized :: "nat \<Rightarrow> string \<Rightarrow> string \<Rightarrow> string" where
  "pluralized n singular plural = show_nat n @ '' '' @ (if n = DEFAULT_EDIT_COUNT then singular else plural)"

text \<open>\<^verbatim>\<open>str::parse\<close> to \<^verbatim>\<open>i32\<close>: an optional sign and at least one digit, within the range of the type. \<^verbatim>\<open>str::split_once\<close>.\<close>

fun decimal_digits :: "nat \<Rightarrow> string \<Rightarrow> nat option" where
  "decimal_digits n [] = Some n"
| "decimal_digits n (c # cs) = (if is_ascii_digit c then decimal_digits (10 * n + (of_char c - 48)) cs else None)"

definition parse_i32 :: "string \<Rightarrow> int option" where
  "parse_i32 s =
     (let negative = prefix ''-'' s; ds = (if negative \<or> prefix ''+'' s then tl s else s)
      in if ds = [] then None
         else case decimal_digits 0 ds of
           None \<Rightarrow> None
         | Some n \<Rightarrow> let i = (if negative then - int n else int n)
             in if - (2 ^ 31) \<le> i \<and> i < 2 ^ 31 then Some i else None)"

definition show_i32 :: "int \<Rightarrow> string" where
  "show_i32 i = (if i < 0 then ''-'' @ show_nat (nat (- i)) else show_nat (nat i))"

definition split_once :: "string \<Rightarrow> string \<Rightarrow> (string \<times> string) option" where
  "split_once sep s = map_option (\<lambda>k. (take k s, drop (k + length sep) s)) (find_sub sep s)"

definition EXIT_CODE_PREFIX :: string where "EXIT_CODE_PREFIX = ''Exit code: ''"
definition EXIT_CODE_SEPARATOR :: string where "EXIT_CODE_SEPARATOR = [newline, newline]"

definition parse_bash_output :: "string \<Rightarrow> int option \<times> string" where
  "parse_bash_output text =
     (if prefix EXIT_CODE_PREFIX text
      then case split_once EXIT_CODE_SEPARATOR (drop (length EXIT_CODE_PREFIX) text) of
          Some (code_text, output_text) \<Rightarrow>
            (case parse_i32 (trim code_text) of Some code \<Rightarrow> (Some code, output_text) | None \<Rightarrow> (Some 0, text))
        | None \<Rightarrow> (Some 0, text)
      else (Some 0, text))"

definition extract_string_arg :: "'v json_access \<Rightarrow> 'v \<Rightarrow> string \<Rightarrow> string option" where
  "extract_string_arg J args key = Option.bind (json_get J args key) (as_string J)"

definition arg_preview :: "'v json_access \<Rightarrow> 'v \<Rightarrow> string \<Rightarrow> string" where
  "arg_preview J args key = sanitize_preview
     (case extract_string_arg J args key of Some s \<Rightarrow> s | None \<Rightarrow> UNKNOWN_ARG_PREVIEW) MAX_ARG_PREVIEW_CHARS"

section \<open>Summaries by tool\<close>

definition tag :: "string \<Rightarrow> string" where "tag tool_name = ''['' @ tool_name @ '']''"

definition summarize_bash :: "'v json_access \<Rightarrow> 'v \<Rightarrow> content_stats \<Rightarrow> string" where
  "summarize_bash J args stats =
     (let (exit_code, output_text) = parse_bash_output (st_joined_text stats);
          exit_label = (case exit_code of Some code \<Rightarrow> ''exit '' @ show_i32 code | None \<Rightarrow> ''exit ?'')
      in ''[bash] '' @ arg_preview J args ''command'' @ '' ('' @ exit_label @ '', '' @ show_nat (text_line_count output_text) @ '' lines)'')"

definition summarize_read :: "'v json_access \<Rightarrow> 'v \<Rightarrow> content_stats \<Rightarrow> string" where
  "summarize_read J args stats =
     (let offset = (case Option.bind (json_get J args ''offset'') (as_u64 J) of Some n \<Rightarrow> n | None \<Rightarrow> DEFAULT_READ_OFFSET);
          start = ''[read] '' @ arg_preview J args ''path'' @ '' @'' @ show_nat (unat offset)
      in if st_has_image stats \<and> st_char_count stats = 0 then start @ '' (image result)''
         else start @ '' ('' @ show_nat (st_char_count stats) @ '' chars)'')"

definition summarize_write :: "'v json_access \<Rightarrow> 'v \<Rightarrow> string" where
  "summarize_write J args =
     (let content = (case extract_string_arg J args ''content'' of Some s \<Rightarrow> s | None \<Rightarrow> [])
      in ''[write] '' @ arg_preview J args ''path'' @ '' ('' @ show_nat (text_line_count content) @ '' lines)'')"

definition summarize_grep :: "'v json_access \<Rightarrow> string \<Rightarrow> 'v \<Rightarrow> content_stats \<Rightarrow> string" where
  "summarize_grep J tool_name args stats =
     (let match_count = (if trim (st_joined_text stats) = ''No matches found'' then ZERO_MATCHES else st_line_count stats)
      in tag tool_name @ '' pattern='' @ arg_preview J args ''pattern'' @ '' ('' @ show_nat match_count @ '' matches)'')"

definition summarize_edit :: "'v json_access \<Rightarrow> 'v \<Rightarrow> string" where
  "summarize_edit J args =
     (let edit_count = (case Option.bind (json_get J args ''edits'') (as_array J) of
            Some edits \<Rightarrow> length edits
          | None \<Rightarrow> if json_get J args ''old_text'' \<noteq> None \<and> json_get J args ''new_text'' \<noteq> None then DEFAULT_EDIT_COUNT else 0)
      in ''[edit] '' @ arg_preview J args ''path'' @ '' ('' @ pluralized edit_count ''edit'' ''edits'' @ '')'')"

definition summarize_subagent :: "'v json_access \<Rightarrow> string \<Rightarrow> 'v \<Rightarrow> content_stats \<Rightarrow> string" where
  "summarize_subagent J tool_name args stats =
     (let goal = (case extract_string_arg J args ''task'' of
            Some task \<Rightarrow> ''task='' @ sanitize_preview task MAX_TASK_PREVIEW_CHARS
          | None \<Rightarrow> (case Option.bind (json_get J args ''tasks'') (as_array J) of
              Some tasks \<Rightarrow> ''tasks='' @ show_nat (length tasks)
            | None \<Rightarrow> (case Option.bind (json_get J args ''chain'') (as_array J) of
                Some chain \<Rightarrow> ''chain='' @ show_nat (length chain)
              | None \<Rightarrow> ''task=?'')))
      in if st_has_image stats \<and> st_char_count stats = 0 then tag tool_name @ '' '' @ goal @ '' (image result)''
         else tag tool_name @ '' '' @ goal @ '' ('' @ show_nat (st_char_count stats) @ '' chars result)'')"

definition render_value_preview :: "'v json_access \<Rightarrow> 'v \<Rightarrow> string" where
  "render_value_preview J v = (case js_shape J v of
       ShapeNull \<Rightarrow> ''null''
     | ShapeBool b \<Rightarrow> if b then ''true'' else ''false''
     | ShapeNumber t _ \<Rightarrow> t
     | ShapeString text \<Rightarrow> sanitize_preview text MAX_ARG_PREVIEW_CHARS
     | ShapeArray vs \<Rightarrow> show_nat (length vs) @ '' items''
     | ShapeObject kvs \<Rightarrow> show_nat (length kvs) @ '' keys'')"

definition first_arg :: "'v json_access \<Rightarrow> 'v \<Rightarrow> (string \<times> 'v) option" where
  "first_arg J args = (case as_object J args of
       None \<Rightarrow> None
     | Some kvs \<Rightarrow> if kvs = [] then None
         else let k = hd (sort (map fst kvs)) in map_option (Pair k) (map_of kvs k))"

definition first_arg_preview :: "'v json_access \<Rightarrow> 'v \<Rightarrow> string option" where
  "first_arg_preview J args = map_option (\<lambda>(k, v). k @ ''='' @ render_value_preview J v) (first_arg J args)"

definition summarize_generic :: "'v json_access \<Rightarrow> string \<Rightarrow> 'v \<Rightarrow> content_stats \<Rightarrow> string" where
  "summarize_generic J tool_name args stats =
     (let preview = (case first_arg_preview J args of Some p \<Rightarrow> '' '' @ p | None \<Rightarrow> [])
      in if st_has_image stats \<and> st_char_count stats = 0 then tag tool_name @ preview @ '' (image result)''
         else tag tool_name @ preview @ '' ('' @ show_nat (st_char_count stats) @ '' chars result)'')"

definition tool_summary :: "'v json_access \<Rightarrow> string \<Rightarrow> 'v \<Rightarrow> 'v content list \<Rightarrow> string" where
  "tool_summary J tool_name args content =
     (let stats = content_stats_of J content
      in if tool_name = ''bash'' then summarize_bash J args stats
         else if tool_name = ''read'' then summarize_read J args stats
         else if tool_name = ''write'' then summarize_write J args
         else if tool_name = ''grep'' \<or> tool_name = ''rg'' then summarize_grep J tool_name args stats
         else if tool_name = ''edit'' then summarize_edit J args
         else if tool_name = ''subagent'' \<or> tool_name = ''delegate_task'' then summarize_subagent J tool_name args stats
         else summarize_generic J tool_name args stats)"

definition summarize_tool_result :: "'v json_access \<Rightarrow> string \<Rightarrow> 'v \<Rightarrow> 'v content list \<Rightarrow> string option" where
  "summarize_tool_result J tool_name args content =
     (let summary = tool_summary J tool_name args content
      in if summary = [] \<or> newline \<in> set summary then None else Some summary)"

section \<open>Replacing tool results\<close>

fun assistant_content :: "('v, 't) agent_message \<Rightarrow> 'v content list" where
  "assistant_content (AssistantMsg a) = am_content a"
| "assistant_content _ = []"

definition tool_input :: "string \<Rightarrow> 'v content \<Rightarrow> 'v option" where
  "tool_input call_id block = (case block of ContentToolUse i _ input \<Rightarrow> if i = call_id then Some input else None | _ \<Rightarrow> None)"

definition find_tool_args_before :: "'v json_access \<Rightarrow> ('v, 't) agent_message list \<Rightarrow> nat \<Rightarrow> string \<Rightarrow> 'v" where
  "find_tool_args_before J ms i call_id =
     (case List.map_filter (tool_input call_id) (concat (map (rev \<circ> assistant_content) (rev (take i ms)))) of
        input # _ \<Rightarrow> input
      | [] \<Rightarrow> js_null J)"

definition mark_summary :: "'v json_access \<Rightarrow> 'v option \<Rightarrow> string \<Rightarrow> 'v" where
  "mark_summary J details summary =
     (let entries = AList.update SUMMARY_MARKER_KEY (js_string J summary)
            (case Option.bind details (as_object J) of Some kvs \<Rightarrow> kvs | None \<Rightarrow> [])
      in js_object J (case details of
           Some existing \<Rightarrow> if as_object J existing = None then AList.update ORIGINAL_DETAILS_KEY existing entries else entries
         | None \<Rightarrow> entries))"

definition clone_with_summary :: "'v json_access \<Rightarrow> ('v, 't) tool_result_message \<Rightarrow> string \<Rightarrow> ('v, 't) tool_result_message" where
  "clone_with_summary J m summary = \<lparr>tm_id = tm_id m, tm_call_id = tm_call_id m, tm_tool_name = tm_tool_name m,
     tm_content = [ContentText summary], tm_is_error = tm_is_error m,
     tm_details = Some (mark_summary J (tm_details m) summary), tm_timestamp = tm_timestamp m\<rparr>"

definition existing_summary :: "'v json_access \<Rightarrow> ('v, 't) tool_result_message \<Rightarrow> string option" where
  "existing_summary J m =
     Option.bind (Option.bind (tm_details m) (\<lambda>d. json_get J d SUMMARY_MARKER_KEY)) (as_string J)"

definition prune_message ::
  "'v json_access \<Rightarrow> ('v, 't) agent_message list \<Rightarrow> nat \<Rightarrow> nat \<Rightarrow> ('v, 't) agent_message option" where
  "prune_message J ms tail_start i = (case ms ! i of
       ToolResultMsg m \<Rightarrow>
         if i < tail_start
         then case existing_summary J m of
             Some summary \<Rightarrow> Some (ToolResultMsg (clone_with_summary J m summary))
           | None \<Rightarrow> map_option (\<lambda>summary. ToolResultMsg (clone_with_summary J m summary))
               (summarize_tool_result J (tm_tool_name m) (find_tool_args_before J ms i (tm_call_id m)) (tm_content m))
         else Some (ms ! i)
     | message \<Rightarrow> Some message)"

definition prune_tool_results ::
  "'v json_access \<Rightarrow> ('v, 't) agent_message list \<Rightarrow> nat \<Rightarrow> ('v, 't) agent_message list option" where
  "prune_tool_results J ms tail_start =
     (if tail_start \<le> length ms then those (map (prune_message J ms tail_start) [0..<length ms]) else None)"

definition is_prunable :: "'v json_access \<Rightarrow> ('v, 't) agent_message \<Rightarrow> bool" where
  "is_prunable J message = (case message of ToolResultMsg m \<Rightarrow> existing_summary J m = None | _ \<Rightarrow> False)"

definition count_prunable_tool_results :: "'v json_access \<Rightarrow> ('v, 't) agent_message list \<Rightarrow> nat \<Rightarrow> nat option" where
  "count_prunable_tool_results J ms tail_start =
     (if tail_start \<le> length ms then Some (length (filter (is_prunable J) (take tail_start ms))) else None)"

section \<open>Summaries are single lines\<close>

lemma set_take_chars: "set (take_chars n s) \<subseteq> set s"
  using take_chars_prefix [of n s] by (simp add: set_mono_prefix)

lemma preview_single_line [simp]: "newline \<notin> set (sanitize_preview text n)"
proof -
  have "newline \<notin> set (map (\<lambda>c. if c = newline then CHR '' '' else c) text)" by auto
  then have "newline \<notin> set (take_chars n (map (\<lambda>c. if c = newline then CHR '' '' else c) text))"
    using set_take_chars by blast
  then show ?thesis by (simp add: sanitize_preview_def Let_def)
qed

lemma digit_not_newline: "n < 10 \<Longrightarrow> char_of (48 + n :: nat) \<noteq> newline"
proof
  assume "n < 10" and "char_of (48 + n) = newline"
  then have "(of_char (char_of (48 + n :: nat)) :: nat) = of_char newline" by (rule_tac arg_cong)
  with \<open>n < 10\<close> show False by simp
qed

lemma show_nat_single_line [simp]: "newline \<notin> set (show_nat n)"
proof (induction n rule: show_nat.induct)
  case (1 n)
  show ?case
  proof (cases "n < 10")
    case True
    then have "char_of (48 + n) \<noteq> newline" by (rule digit_not_newline)
    then show ?thesis unfolding show_nat_lt10 [OF True] by fastforce
  next
    case False
    have "char_of (48 + n mod 10) \<noteq> newline" by (rule digit_not_newline) simp
    with 1 [OF False] show ?thesis unfolding show_nat_ge10 [OF False] by fastforce
  qed
qed

lemma summary_parts [simp]:
  "newline \<notin> set (show_i32 i)" "newline \<notin> set (arg_preview J args key)"
  "newline \<notin> set (pluralized n ''edit'' ''edits'')"
  by (simp_all add: show_i32_def arg_preview_def pluralized_def)

lemma summary_single_line:
  "newline \<notin> set (summarize_bash J args stats)" "newline \<notin> set (summarize_read J args stats)"
  "newline \<notin> set (summarize_write J args)" "newline \<notin> set (summarize_edit J args)"
  "newline \<in> set (summarize_grep J tool_name args stats) \<longleftrightarrow> newline \<in> set tool_name"
  "newline \<in> set (summarize_subagent J tool_name args stats) \<longleftrightarrow> newline \<in> set tool_name"
  by (simp_all add: summarize_bash_def summarize_read_def summarize_write_def summarize_edit_def summarize_grep_def
      summarize_subagent_def tag_def UNKNOWN_ARG_PREVIEW_def Let_def split: prod.splits option.splits)

lemma render_value_single_line: "json_access_ok J \<Longrightarrow> newline \<notin> set (render_value_preview J v)"
  by (auto simp: render_value_preview_def json_access_ok_def split: json_shape.splits)

lemma summarize_generic_single_line:
  "json_access_ok J \<Longrightarrow> newline \<in> set (summarize_generic J tool_name args stats) \<longleftrightarrow>
     newline \<in> set tool_name \<or> (\<exists>k v. first_arg J args = Some (k, v) \<and> newline \<in> set k)"
  by (auto simp: summarize_generic_def first_arg_preview_def tag_def render_value_single_line split: option.splits)

definition SUMMARIZED_TOOLS :: "string list" where
  "SUMMARIZED_TOOLS = [''bash'', ''read'', ''write'', ''grep'', ''rg'', ''edit'', ''subagent'', ''delegate_task'']"

lemma tool_summary_nonempty: "tool_summary J tool_name args content \<noteq> []"
  by (simp add: tool_summary_def Let_def summarize_bash_def summarize_read_def summarize_write_def summarize_edit_def summarize_grep_def
      summarize_subagent_def summarize_generic_def tag_def split: prod.splits)

text \<open>
  Exactly which tool results a summary panics on. The assertion that a summary stays on one line holds for every
  tool that has its own kind of summary, whatever the model put into the arguments. For any other tool it fails exactly
  when the name of the tool, or the first key of the arguments, holds a line feed: that key is not sanitised.
\<close>

lemma tool_summary_panics:
  assumes "json_access_ok J"
  shows "summarize_tool_result J tool_name args content = None \<longleftrightarrow>
     tool_name \<notin> set SUMMARIZED_TOOLS \<and>
     (newline \<in> set tool_name \<or> (\<exists>k v. first_arg J args = Some (k, v) \<and> newline \<in> set k))"
proof -
  have "summarize_tool_result J tool_name args content = None \<longleftrightarrow> newline \<in> set (tool_summary J tool_name args content)"
    by (simp add: summarize_tool_result_def Let_def tool_summary_nonempty)
  also have "\<dots> \<longleftrightarrow> tool_name \<notin> set SUMMARIZED_TOOLS \<and>
     (newline \<in> set tool_name \<or> (\<exists>k v. first_arg J args = Some (k, v) \<and> newline \<in> set k))"
    by (simp add: tool_summary_def Let_def SUMMARIZED_TOOLS_def summary_single_line summarize_generic_single_line [OF assms])
  finally show ?thesis .
qed

section \<open>What pruning keeps\<close>

lemma those_Some_iff: "those (map f xs) = Some ys \<longleftrightarrow> length ys = length xs \<and> (\<forall>i < length xs. f (xs ! i) = Some (ys ! i))"
proof (induction xs arbitrary: ys)
  case (Cons x xs)
  show ?case
    by (cases ys) (auto simp: Cons All_less_Suc2 split: option.splits)
qed auto

lemma prune_tool_results_iff:
  "prune_tool_results J ms t = Some ms' \<longleftrightarrow>
     t \<le> length ms \<and> length ms' = length ms \<and> (\<forall>i < length ms. prune_message J ms t i = Some (ms' ! i))"
  by (auto simp: prune_tool_results_def those_Some_iff)

lemma json_object_shape:
  "json_access_ok J \<Longrightarrow> distinct (map fst kvs) \<Longrightarrow>
     \<exists>kvs'. js_shape J (js_object J kvs) = ShapeObject kvs' \<and> map_of kvs' = map_of kvs"
  by (simp add: json_access_ok_def)

lemma mark_summary_object:
  assumes "json_access_ok J"
  obtains kvs where "js_shape J (mark_summary J details s) = ShapeObject kvs"
    and "map_of kvs SUMMARY_MARKER_KEY = Some (js_string J s)"
proof -
  define base where "base = (case Option.bind details (as_object J) of Some kvs \<Rightarrow> kvs | None \<Rightarrow> [])"
  define entries where "entries = AList.update SUMMARY_MARKER_KEY (js_string J s) base"
  have "distinct (map fst base)"
    using assms by (auto simp: base_def as_object_def json_access_ok_def split: option.splits json_shape.splits bind_splits)
  then have d: "distinct (map fst entries)" by (simp add: entries_def distinct_update)
  define final where "final = (case details of
      Some existing \<Rightarrow> if as_object J existing = None then AList.update ORIGINAL_DETAILS_KEY existing entries else entries
    | None \<Rightarrow> entries)"
  have "mark_summary J details s = js_object J final"
    unfolding mark_summary_def Let_def final_def entries_def base_def ..
  moreover have keys: "ORIGINAL_DETAILS_KEY \<noteq> SUMMARY_MARKER_KEY" by (simp add: ORIGINAL_DETAILS_KEY_def SUMMARY_MARKER_KEY_def)
  have "map_of entries SUMMARY_MARKER_KEY = Some (js_string J s)" by (simp add: entries_def update_conv')
  with d keys have "distinct (map fst final)" "map_of final SUMMARY_MARKER_KEY = Some (js_string J s)"
    by (simp_all add: final_def distinct_update update_conv' del: map_of_eq_Some_iff split: option.split)
  ultimately show thesis using json_object_shape [OF assms, of final] that by metis
qed

lemma existing_summary_clone [simp]:
  "json_access_ok J \<Longrightarrow> existing_summary J (clone_with_summary J m s) = Some s"
  by (rule mark_summary_object [of J "tm_details m" s], assumption)
     (auto simp: existing_summary_def clone_with_summary_def json_get_def as_object_def as_string_def json_access_ok_def)

lemma clone_again [simp]:
  assumes "json_access_ok J"
  shows "clone_with_summary J (clone_with_summary J m s) s = clone_with_summary J m s"
proof -
  obtain kvs where shape: "js_shape J (mark_summary J (tm_details m) s) = ShapeObject kvs"
    and "map_of kvs SUMMARY_MARKER_KEY = Some (js_string J s)" by (rule mark_summary_object [OF assms])
  then have "js_object J (AList.update SUMMARY_MARKER_KEY (js_string J s) kvs) = mark_summary J (tm_details m) s"
    using assms by (simp add: update_triv json_access_ok_def)
  with shape show ?thesis
    by (simp add: clone_with_summary_def mark_summary_def [of J "Some d" for d] as_object_def Let_def)
qed

lemma prune_message_cases:
  assumes "prune_message J ms t i = Some m'"
  obtains "m' = ms ! i" "t \<le> i \<or> (\<forall>m. ms ! i \<noteq> ToolResultMsg m)"
  | m s where "ms ! i = ToolResultMsg m" "i < t" "m' = ToolResultMsg (clone_with_summary J m s)"
      "existing_summary J m = None \<Longrightarrow>
        s = tool_summary J (tm_tool_name m) (find_tool_args_before J ms i (tm_call_id m)) (tm_content m)"
proof (cases "\<exists>m. ms ! i = ToolResultMsg m")
  case True
  then obtain m where ToolResultMsg: "ms ! i = ToolResultMsg m" ..
  show thesis
  proof (cases "i < t")
    case True
    show thesis
    proof (cases "existing_summary J m")
      case None
      let ?s = "tool_summary J (tm_tool_name m) (find_tool_args_before J ms i (tm_call_id m)) (tm_content m)"
      from assms ToolResultMsg True None have "m' = ToolResultMsg (clone_with_summary J m ?s)"
        by (simp add: prune_message_def summarize_tool_result_def Let_def split: if_splits)
      with ToolResultMsg True that(2) show thesis by blast
    next
      case (Some s)
      with assms ToolResultMsg True have "m' = ToolResultMsg (clone_with_summary J m s)" by (simp add: prune_message_def)
      with ToolResultMsg True Some show thesis by (intro that(2) [of m s]) simp_all
    qed
  next
    case False
    with assms ToolResultMsg that(1) show thesis by (simp add: prune_message_def)
  qed
next
  case False
  with assms have "m' = ms ! i" by (simp add: prune_message_def split: agent_message.splits)
  with False that(1) show thesis by blast
qed

lemma prune_message_id: "prune_message J ms t i = Some m' \<Longrightarrow> agent_message_id m' = agent_message_id (ms ! i)"
  by (erule prune_message_cases) (simp_all add: clone_with_summary_def)

lemma prune_message_again:
  assumes "json_access_ok J" and "prune_message J ms t i = Some (ms' ! i)" and "t' \<le> t"
  shows "prune_message J ms' t' i = Some (ms' ! i)"
  using assms(2)
proof (rule prune_message_cases)
  assume "ms' ! i = ms ! i" "t \<le> i \<or> (\<forall>m. ms ! i \<noteq> ToolResultMsg m)"
  with assms(3) show ?thesis by (cases "ms ! i") (auto simp: prune_message_def)
next
  fix m s
  assume "ms ! i = ToolResultMsg m" "ms' ! i = ToolResultMsg (clone_with_summary J m s)"
  with assms(1) show ?thesis by (auto simp: prune_message_def)
qed

text \<open>
  Pruning old tool results keeps the conversation. When it returns, the history has the same messages at the
  same places: everything from the start of the tail on, and every message that is no tool result, is unchanged. A
  tool result before the tail keeps its id, the call it answers, its tool, its error flag and its time; its content is
  now one text, which is also noted in its details, and is the summary that the tool's arguments and result give unless it had one.
  Pruning the result again, with any tail that starts no later, changes nothing.
\<close>

lemma pruning_keeps_conversation:
  assumes "json_access_ok J" and "prune_tool_results J ms t = Some ms'"
  shows "length ms' = length ms \<and> map agent_message_id ms' = map agent_message_id ms \<and> drop t ms' = drop t ms \<and>
     (\<forall>i < length ms. (\<forall>m. ms ! i \<noteq> ToolResultMsg m) \<longrightarrow> ms' ! i = ms ! i) \<and>
     (\<forall>i < t. \<forall>m. ms ! i = ToolResultMsg m \<longrightarrow> (\<exists>s d. ms' ! i = ToolResultMsg (m\<lparr>tm_content := [ContentText s], tm_details := Some d\<rparr>) \<and>
        existing_summary J (m\<lparr>tm_content := [ContentText s], tm_details := Some d\<rparr>) = Some s \<and>
        (existing_summary J m = None \<longrightarrow>
          s = tool_summary J (tm_tool_name m) (find_tool_args_before J ms i (tm_call_id m)) (tm_content m)))) \<and>
     (\<forall>t' \<le> t. prune_tool_results J ms' t' = Some ms')"
proof -
  have t: "t \<le> length ms" and len: "length ms' = length ms"
    and each: "\<And>i. i < length ms \<Longrightarrow> prune_message J ms t i = Some (ms' ! i)"
    using assms(2) by (auto simp: prune_tool_results_iff)
  have "map agent_message_id ms' = map agent_message_id ms"
    by (rule nth_equalityI) (simp_all add: len prune_message_id [OF each])
  moreover have tail: "ms' ! i = ms ! i" if "t \<le> i" "i < length ms" for i
    by (rule prune_message_cases [OF each [OF that(2)]]) (use that in auto)
  have "drop t ms' = drop t ms"
    by (rule nth_equalityI) (use tail in \<open>auto simp: len\<close>)
  moreover have "\<And>i. i < length ms \<Longrightarrow> \<forall>m. ms ! i \<noteq> ToolResultMsg m \<Longrightarrow> ms' ! i = ms ! i"
    by (auto elim!: prune_message_cases [OF each])
  moreover have "\<exists>s d. ms' ! i = ToolResultMsg (m\<lparr>tm_content := [ContentText s], tm_details := Some d\<rparr>) \<and>
        existing_summary J (m\<lparr>tm_content := [ContentText s], tm_details := Some d\<rparr>) = Some s \<and>
        (existing_summary J m = None \<longrightarrow>
          s = tool_summary J (tm_tool_name m) (find_tool_args_before J ms i (tm_call_id m)) (tm_content m))"
    if i: "i < t" and m: "ms ! i = ToolResultMsg m" for i m
  proof -
    from i t have "i < length ms" by simp
    from prune_message_cases [OF each [OF this]] i m obtain s
      where s: "ms' ! i = ToolResultMsg (clone_with_summary J m s)"
        and new: "existing_summary J m = None \<Longrightarrow>
          s = tool_summary J (tm_tool_name m) (find_tool_args_before J ms i (tm_call_id m)) (tm_content m)"
      by (metis agent_message.inject(3) leD)
    have "clone_with_summary J m s = m\<lparr>tm_content := [ContentText s], tm_details := Some (mark_summary J (tm_details m) s)\<rparr>"
      by (simp add: clone_with_summary_def)
    with s new existing_summary_clone [OF assms(1), of m s] show ?thesis by metis
  qed
  moreover have "prune_tool_results J ms' t' = Some ms'" if "t' \<le> t" for t'
    using that t each by (auto simp: prune_tool_results_iff len intro: prune_message_again [OF assms(1)])
  ultimately show ?thesis using len by blast
qed

section \<open>An example\<close>

datatype sample_json = SampleNull | SampleString string | SampleObject "(string \<times> sample_json) list"

fun sample_shape :: "sample_json \<Rightarrow> sample_json json_shape" where
  "sample_shape SampleNull = ShapeNull"
| "sample_shape (SampleString s) = ShapeString s"
| "sample_shape (SampleObject kvs) = (if distinct (map fst kvs) then ShapeObject kvs else ShapeNull)"

definition sample_access :: "sample_json json_access" where
  "sample_access = \<lparr>js_shape = sample_shape, js_null = SampleNull, js_string = SampleString, js_object = SampleObject,
     js_content = (\<lambda>_. [])\<rparr>"

lemma sample_access_ok: "json_access_ok sample_access"
  unfolding json_access_ok_def
proof (intro conjI allI impI)
  fix v kvs
  assume "js_shape sample_access v = ShapeObject kvs"
  then show "distinct (map fst kvs)" and "js_object sample_access kvs = v"
    by (cases v; simp add: sample_access_def split: if_splits)+
next
  fix v t n
  assume "js_shape sample_access v = ShapeNumber t n"
  then show "newline \<notin> set t" by (cases v) (simp_all add: sample_access_def split: if_splits)
qed (simp_all add: sample_access_def)

definition sample_call :: "(sample_json, unit) agent_message" where
  "sample_call = AssistantMsg \<lparr>am_id = ''a'', am_content = [ContentToolUse ''c'' ''read'' (SampleObject [(''path'', SampleString ''f'')])],
     am_model = [], am_usage = \<lparr>input_tokens = 0, output_tokens = 0, cache_creation_input_tokens = 0, cache_read_input_tokens = 0\<rparr>,
     am_stop_reason = StopToolUse, am_timestamp = ()\<rparr>"

definition sample_result :: "sample_json option \<Rightarrow> string \<Rightarrow> (sample_json, unit) agent_message" where
  "sample_result d text = ToolResultMsg \<lparr>tm_id = ''r'', tm_call_id = ''c'', tm_tool_name = ''read'', tm_content = [ContentText text],
     tm_is_error = False, tm_details = d, tm_timestamp = ()\<rparr>"

abbreviation sample_summary :: string where "sample_summary \<equiv> ''[read] f @1 (5 chars)''"

lemma sample_pruned:
  "prune_tool_results sample_access [sample_call, sample_result None ''hello''] 2 =
     Some [sample_call, sample_result (Some (SampleObject [(SUMMARY_MARKER_KEY, SampleString sample_summary)])) sample_summary]"
  by code_simp

lemma sample_summary_panics:
  "summarize_tool_result sample_access ''fetch'' (SampleObject [([newline], SampleNull)]) [] = None"
  by (subst tool_summary_panics [OF sample_access_ok])
     (simp add: SUMMARIZED_TOOLS_def first_arg_def as_object_def sample_access_def)

end
