(* ===== verification/Agent_Stream.thy ===== *)
theory Agent_Stream
  imports Transcript Stream_Fold
begin

text \<open>
  How the agent reads a model stream, \<^verbatim>\<open>turn/message.rs\<close> and the first part of \<^verbatim>\<open>turn/execution.rs\<close> below
  \<^verbatim>\<open>crates/clankers-agent/src\<close>. The agent has a collector of its own, which grows a vector of block builders,
  beside a normaliser that translates the stream for the accumulator of the engine host. The main theorem
  is that both give the same answer on the streams the accumulator accepts. Of \<^verbatim>\<open>serde_json\<close> the code uses
  the parser, the printer and objects; they are a record of functions.
\<close>

section \<open>Streams\<close>

record message_metadata =
  mm_id :: string
  mm_model :: string
  mm_role :: string

datatype content_delta = DText string | DThinking string | DInputJson string | DSignature string

datatype 'v stream_event =
    SeMessageStart message_metadata
  | SeContentBlockStart nat "'v content"
  | SeContentBlockDelta nat content_delta
  | SeContentBlockStop nat
  | SeMessageDelta "string option" usage
  | SeMessageStop
  | SeError string

record 'v json_values =
  jv_from_str :: "string \<Rightarrow> string + 'v"
  jv_to_string :: "'v \<Rightarrow> string"
  jv_object :: "(string \<times> 'v) list \<Rightarrow> 'v"
  jv_is_object :: "'v \<Rightarrow> bool"
  jv_is_empty_object :: "'v \<Rightarrow> bool"

datatype agent_error =
    AgentCancelled
  | ProviderStreaming string "u16 option" bool
  | AgentFailed string

fun agent_error_text :: "agent_error \<Rightarrow> string" where
  "agent_error_text AgentCancelled = ''operation cancelled''"
| "agent_error_text (ProviderStreaming msg _ _) = ''provider streaming error: '' @ msg"
| "agent_error_text (AgentFailed msg) = ''agent error: '' @ msg"

fun agent_error_retryable :: "agent_error \<Rightarrow> bool" where
  "agent_error_retryable (ProviderStreaming _ _ r) = r"
| "agent_error_retryable _ = False"

fun agent_error_status :: "agent_error \<Rightarrow> u16 option" where
  "agent_error_status (ProviderStreaming _ s _) = s"
| "agent_error_status _ = None"

section \<open>The normaliser\<close>

definition parse_stop_reason :: "string \<Rightarrow> stop_reason" where
  "parse_stop_reason s =
     (if s = ''end_turn'' \<or> s = ''stop'' then Stop
      else if s = ''tool_use'' then StopToolUse
      else if s = ''max_tokens'' then MaxTokens else Stop)"

record provider_stream_normalizer =
  nz_model :: "string option"
  nz_stop_reason :: stop_reason

definition normalizer_new :: provider_stream_normalizer where
  "normalizer_new = \<lparr>nz_model = None, nz_stop_reason = Stop\<rparr>"

fun host_events_from_content_block_start :: "'v json_values \<Rightarrow> nat \<Rightarrow> 'v content \<Rightarrow> host_stream_event list" where
  "host_events_from_content_block_start J i (ContentText t) =
     TextStart i # (if t = [] then [] else [TextDelta i t])"
| "host_events_from_content_block_start J i (ContentThinking t s) =
     ThinkingStart i s # (if t = [] then [] else [ThinkingDelta i t])"
| "host_events_from_content_block_start J i (ContentToolUse b n input) =
     ToolUseStart i b n #
       (if jv_is_object J input \<and> \<not> jv_is_empty_object J input then [ToolUseJsonDelta i (jv_to_string J input)] else [])"
| "host_events_from_content_block_start J i _ = []"

fun host_events_from_content_delta :: "nat \<Rightarrow> content_delta \<Rightarrow> host_stream_event list" where
  "host_events_from_content_delta i (DText t) = [TextDelta i t]"
| "host_events_from_content_delta i (DThinking t) = [ThinkingDelta i t]"
| "host_events_from_content_delta i (DInputJson t) = [ToolUseJsonDelta i t]"
| "host_events_from_content_delta i (DSignature t) = []"

fun normalizer_push ::
  "'v json_values \<Rightarrow> 'v stream_event \<Rightarrow> provider_stream_normalizer \<Rightarrow> host_stream_event list \<times> provider_stream_normalizer" where
  "normalizer_push J (SeMessageStart m) N = ([], N\<lparr>nz_model := Some (mm_model m)\<rparr>)"
| "normalizer_push J (SeContentBlockStart i c) N = (host_events_from_content_block_start J i c, N)"
| "normalizer_push J (SeContentBlockDelta i d) N = (host_events_from_content_delta i d, N)"
| "normalizer_push J (SeContentBlockStop i) N = ([ContentBlockStop i], N)"
| "normalizer_push J (SeMessageDelta r u) N =
     ([UsageEvent u], case r of None \<Rightarrow> N | Some s \<Rightarrow> N\<lparr>nz_stop_reason := parse_stop_reason s\<rparr>)"
| "normalizer_push J SeMessageStop N = ([MessageStop (nz_model N) (nz_stop_reason N)], N)"
| "normalizer_push J (SeError e) N = ([ProviderErrorEvent \<lparr>pe_message = e, pe_status = None, pe_retryable = False\<rparr>], N)"

fun normalize_all :: "'v json_values \<Rightarrow> 'v stream_event list \<Rightarrow> provider_stream_normalizer \<Rightarrow> host_stream_event list" where
  "normalize_all J [] N = []"
| "normalize_all J (ev # evs) N = (let (out, N') = normalizer_push J ev N in out @ normalize_all J evs N')"

section \<open>The collector\<close>

record 'v content_block_builder =
  cb_content :: "'v content"
  cb_raw_json :: "string option"

definition block_builder_new :: "'v content \<Rightarrow> 'v content_block_builder" where
  "block_builder_new c = \<lparr>cb_content = c, cb_raw_json = None\<rparr>"

fun apply_delta :: "content_delta \<Rightarrow> 'v content_block_builder \<Rightarrow> 'v content_block_builder" where
  "apply_delta d b = (case (cb_content b, d) of
     (ContentText t, DText x) \<Rightarrow> b\<lparr>cb_content := ContentText (t @ x)\<rparr>
   | (ContentThinking t s, DThinking x) \<Rightarrow> b\<lparr>cb_content := ContentThinking (t @ x) s\<rparr>
   | (ContentThinking t s, DSignature x) \<Rightarrow> b\<lparr>cb_content := ContentThinking t (s @ x)\<rparr>
   | (ContentToolUse i n v, DInputJson x) \<Rightarrow>
       b\<lparr>cb_raw_json := Some ((case cb_raw_json b of None \<Rightarrow> [] | Some r \<Rightarrow> r) @ x)\<rparr>
   | _ \<Rightarrow> b)"

text \<open>The input of a tool call is always an object: JSON that is none is wrapped, and JSON that does not
  parse leaves the input of the start event.\<close>

definition finalize_input :: "'v json_values \<Rightarrow> 'v \<Rightarrow> string option \<Rightarrow> 'v" where
  "finalize_input J input raw =
     (let parsed = (case raw of
            None \<Rightarrow> input
          | Some json \<Rightarrow> if json = [] then input
              else case jv_from_str J json of
                Inl _ \<Rightarrow> input
              | Inr v \<Rightarrow> if jv_is_object J v then v else jv_object J [(''_raw'', v)])
      in if jv_is_object J parsed then parsed else jv_object J [])"

fun finalize :: "'v json_values \<Rightarrow> 'v content_block_builder \<Rightarrow> 'v content" where
  "finalize J b = (case cb_content b of
     ContentToolUse i n input \<Rightarrow> ContentToolUse i n (finalize_input J input (cb_raw_json b))
   | c \<Rightarrow> c)"

record 'v collected_response =
  co_content :: "'v content list"
  co_model :: string
  co_usage :: usage
  co_stop_reason :: stop_reason

record 'v collector =
  cl_builders :: "'v content_block_builder list"
  cl_model :: string
  cl_usage :: usage
  cl_stop_reason :: stop_reason

definition usage_default :: usage where
  "usage_default = \<lparr>input_tokens = 0, output_tokens = 0, cache_creation_input_tokens = 0, cache_read_input_tokens = 0\<rparr>"

definition collector_new :: "'v collector" where
  "collector_new = \<lparr>cl_builders = [], cl_model = [], cl_usage = usage_default, cl_stop_reason = Stop\<rparr>"

definition keep_higher :: "u64 \<Rightarrow> u64 \<Rightarrow> u64" where
  "keep_higher old new = (if new > 0 then new else old)"

definition merge_usage :: "usage \<Rightarrow> usage \<Rightarrow> usage" where
  "merge_usage old u = \<lparr>input_tokens = keep_higher (input_tokens old) (input_tokens u),
     output_tokens = keep_higher (output_tokens old) (output_tokens u),
     cache_creation_input_tokens = keep_higher (cache_creation_input_tokens old) (cache_creation_input_tokens u),
     cache_read_input_tokens = keep_higher (cache_read_input_tokens old) (cache_read_input_tokens u)\<rparr>"

text \<open>What the collector forwards to the listeners of the agent.\<close>

datatype 'v stream_notice =
    NoticeBlockStart nat "'v content"
  | NoticeUpdate nat content_delta
  | NoticeBlockStop nat

fun collect_event :: "'v stream_event \<Rightarrow> 'v collector \<Rightarrow> 'v collector \<times> 'v stream_notice list" where
  "collect_event (SeMessageStart m) S = (S\<lparr>cl_model := mm_model m\<rparr>, [])"
| "collect_event (SeContentBlockStart i c) S =
     (S\<lparr>cl_builders := (cl_builders S @ replicate (Suc i - length (cl_builders S)) (block_builder_new (ContentText [])))
          [i := block_builder_new c]\<rparr>, [NoticeBlockStart i c])"
| "collect_event (SeContentBlockDelta i d) S =
     (S\<lparr>cl_builders := (if i < length (cl_builders S) then (cl_builders S)[i := apply_delta d (cl_builders S ! i)] else cl_builders S)\<rparr>,
      [NoticeUpdate i d])"
| "collect_event (SeContentBlockStop i) S = (S, [NoticeBlockStop i])"
| "collect_event (SeMessageDelta r u) S =
     (S\<lparr>cl_stop_reason := (case r of None \<Rightarrow> cl_stop_reason S | Some s \<Rightarrow> parse_stop_reason s),
        cl_usage := merge_usage (cl_usage S) u\<rparr>, [])"
| "collect_event SeMessageStop S = (S, [])"
| "collect_event (SeError e) S = (S, [])"

fun collect_loop :: "'v stream_event list \<Rightarrow> 'v collector \<Rightarrow> (agent_error + 'v collector) \<times> 'v stream_notice list" where
  "collect_loop [] S = (Inr S, [])"
| "collect_loop (SeMessageStop # evs) S = (Inr S, [])"
| "collect_loop (SeError e # evs) S = (Inl (ProviderStreaming e None False), [])"
| "collect_loop (ev # evs) S =
     (let (S', out) = collect_event ev S; (r, outs) = collect_loop evs S' in (r, out @ outs))"

definition collect_stream_events ::
  "'v json_values \<Rightarrow> 'v stream_event list \<Rightarrow> (agent_error + 'v collected_response) \<times> 'v stream_notice list" where
  "collect_stream_events J evs = (case collect_loop evs collector_new of
     (Inl e, out) \<Rightarrow> (Inl e, out)
   | (Inr S, out) \<Rightarrow> (Inr \<lparr>co_content = map (finalize J) (cl_builders S), co_model = cl_model S, co_usage = cl_usage S,
       co_stop_reason = cl_stop_reason S\<rparr>, out))"

section \<open>Both read the same\<close>

definition json_ok :: "'v json_values \<Rightarrow> bool" where
  "json_ok J \<longleftrightarrow> jv_is_object J (jv_object J []) \<and> jv_is_empty_object J (jv_object J []) \<and>
     jv_from_str J ''{}'' = Inr (jv_object J []) \<and> (\<forall>s. is_blank s \<longrightarrow> (\<exists>e. jv_from_str J s = Inl e))"

text \<open>The streams on which the normaliser loses nothing: tool calls start without input, and there is no
  image, no tool result and no late signature.\<close>

fun plain_event :: "'v json_values \<Rightarrow> 'v stream_event \<Rightarrow> bool" where
  "plain_event J (SeContentBlockStart i c) = (case c of
     ContentText _ \<Rightarrow> True
   | ContentThinking _ _ \<Rightarrow> True
   | ContentToolUse _ _ v \<Rightarrow> jv_is_object J v \<longrightarrow> v = jv_object J []
   | _ \<Rightarrow> False)"
| "plain_event J (SeContentBlockDelta i (DSignature _)) = False"
| "plain_event J SeMessageStop = False"
| "plain_event J (SeError _) = False"
| "plain_event J _ = True"

definition started :: "'v stream_event list \<Rightarrow> nat set" where
  "started evs = {i. \<exists>c. SeContentBlockStart i c \<in> set evs}"

fun same_block :: "'v json_values \<Rightarrow> block_state \<Rightarrow> 'v content_block_builder \<Rightarrow> bool" where
  "same_block J (TextB b) B \<longleftrightarrow> B = \<lparr>cb_content = ContentText (tb_text b), cb_raw_json = None\<rparr>"
| "same_block J (ThinkingB b) B \<longleftrightarrow>
     B = \<lparr>cb_content = ContentThinking (kb_thinking b) (kb_signature b), cb_raw_json = None\<rparr>"
| "same_block J (ToolUseB b) B \<longleftrightarrow> (\<exists>v raw. B = \<lparr>cb_content = ContentToolUse (ub_id b) (ub_name b) v, cb_raw_json = raw\<rparr> \<and>
     (jv_is_object J v \<longrightarrow> v = jv_object J []) \<and> ub_json b = (case raw of None \<Rightarrow> [] | Some r \<Rightarrow> r))"

definition in_step :: "'v json_values \<Rightarrow> (nat, block_state) btree \<Rightarrow> 'v content_block_builder list \<Rightarrow> bool" where
  "in_step J bl bs \<longleftrightarrow> bt_inv bl \<and>
     (\<forall>i b. bt_get bl i = Some b \<longrightarrow> i < length bs \<and> same_block J b (bs ! i)) \<and>
     (bs \<noteq> [] \<longrightarrow> bt_get bl (length bs - 1) \<noteq> None)"

text \<open>One block of the accumulator is set.\<close>

definition sets_block :: "(nat, block_state) btree \<Rightarrow> nat \<Rightarrow> block_state \<Rightarrow> (nat, block_state) btree \<Rightarrow> bool" where
  "sets_block bl i b bl' \<longleftrightarrow> bt_inv bl' \<and> (\<forall>j. bt_get bl' j = (if j = i then Some b else bt_get bl j))"

lemma same_block_stop: "same_block J (stop b) B = same_block J b B"
  by (cases b) simp_all

lemma in_step_start:
  assumes "in_step J bl bs" "sets_block bl i b bl'" "same_block J b B"
  shows "in_step J bl' ((bs @ replicate (Suc i - length bs) D)[i := B])"
proof -
  have len: "length ((bs @ replicate (Suc i - length bs) D)[i := B]) = max (length bs) (Suc i)" by simp
  show ?thesis
    unfolding in_step_def len
  proof (intro conjI allI impI)
    fix j c assume j: "bt_get bl' j = Some c"
    show "j < max (length bs) (Suc i)" "same_block J c ((bs @ replicate (Suc i - length bs) D)[i := B] ! j)"
      using assms j by (cases "j = i"; force simp: in_step_def sets_block_def nth_append nth_list_update)+
  next
    show "bt_inv bl'" using assms(2) by (simp add: sets_block_def)
    show "bt_get bl' (max (length bs) (Suc i) - 1) \<noteq> None"
      using assms by (cases "length bs \<le> Suc i"; cases "bs = []") (auto simp: in_step_def sets_block_def max_def)
  qed
qed

lemma in_step_update:
  assumes "in_step J bl bs" "bt_get bl i = Some b" "sets_block bl i b' bl'" "same_block J b' B"
  shows "in_step J bl' (bs[i := B])"
  using assms unfolding in_step_def sets_block_def by (auto simp: nth_list_update split: if_splits)

lemma in_step_keep:
  assumes "in_step J bl bs" "bt_get bl i = Some b" "sets_block bl i b' bl'" "same_block J b' (bs ! i)"
  shows "in_step J bl' bs"
  using in_step_update [OF assms] by simp

lemma sets_block_insert: "bt_inv bl \<Longrightarrow> sets_block bl i b (bt_insert i b bl)"
  by (simp add: sets_block_def bt_get_insert bt_inv_insert)

lemma sets_block_trans: "sets_block bl i b bl' \<Longrightarrow> sets_block bl' i c bl'' \<Longrightarrow> sets_block bl i c bl''"
  by (auto simp: sets_block_def)

lemma push_sets:
  assumes "bt_inv (blocks acc)" "event_index ev = Some i" "push acc ev = Inr acc'"
  obtains b where "block_step (bt_get (blocks acc) i) ev = Some b" "sets_block (blocks acc) i b (blocks acc')"
  using push_indexed [OF assms(2), of acc] assms(1,3) sets_block_insert by (force split: option.splits)

text \<open>A start event opens a block that is in step with a new builder.\<close>

lemma start_same:
  assumes J: "json_ok J" and plain: "plain_event J (SeContentBlockStart i c)" and inv: "bt_inv (blocks acc)"
    and run: "push_all acc (host_events_from_content_block_start J i c) = Inr acc'"
  obtains b where "sets_block (blocks acc) i b (blocks acc')" "same_block J b (block_builder_new c)"
proof -
  obtain ev out where evs: "host_events_from_content_block_start J i c = ev # out" "event_index ev = Some i"
    using plain by (cases c) auto
  with run obtain acc1 where acc1: "push acc ev = Inr acc1" "push_all acc1 out = Inr acc'" by (auto split: sum.splits)
  obtain b where b: "block_step (bt_get (blocks acc) i) ev = Some b" "sets_block (blocks acc) i b (blocks acc1)"
    using push_sets [OF inv evs(2) acc1(1)] by blast
  show ?thesis
  proof (cases out)
    case Nil
    with evs(1) plain acc1(2) b J show ?thesis
      by (intro that [of b]; cases c; cases "bt_get (blocks acc) i")
         (auto simp: block_builder_new_def json_ok_def split: if_splits)
  next
    case (Cons ev2 rest)
    with evs(1) plain J have ev2: "event_index ev2 = Some i" "rest = []"
      by (cases c; auto simp: json_ok_def split: if_splits)+
    with acc1(2) Cons have acc2: "push acc1 ev2 = Inr acc'" by (auto split: sum.splits)
    have inv1: "bt_inv (blocks acc1)" and get1: "bt_get (blocks acc1) i = Some b" using b(2) by (simp_all add: sets_block_def)
    obtain b2 where b2: "block_step (bt_get (blocks acc1) i) ev2 = Some b2" "sets_block (blocks acc1) i b2 (blocks acc')"
      using push_sets [OF inv1 ev2(1) acc2] by blast
    show ?thesis
      using Cons evs(1) plain J b b2 get1
      by (intro that [OF sets_block_trans [OF b(2) b2(2)]]; cases c; cases "bt_get (blocks acc) i")
         (auto simp: block_builder_new_def json_ok_def split: if_splits)
  qed
qed

lemma delta_same:
  assumes plain: "plain_event J (SeContentBlockDelta i d)" and inv: "bt_inv (blocks acc)"
    and run: "push_all acc (host_events_from_content_delta i d) = Inr acc'"
  obtains b b' where "bt_get (blocks acc) i = Some b" "sets_block (blocks acc) i b' (blocks acc')"
    "\<And>B. same_block J b B \<Longrightarrow> same_block J b' (apply_delta d B)"
proof -
  obtain ev where ev: "host_events_from_content_delta i d = [ev]" "event_index ev = Some i" using plain by (cases d) auto
  with run have "push acc ev = Inr acc'" by (auto split: sum.splits)
  from push_sets [OF inv ev(2) this] obtain b' where
    b': "block_step (bt_get (blocks acc) i) ev = Some b'" "sets_block (blocks acc) i b' (blocks acc')" by blast
  obtain b where b: "bt_get (blocks acc) i = Some b" using b'(1) ev(1) by (cases "bt_get (blocks acc) i"; cases d) auto
  have "same_block J b B \<Longrightarrow> same_block J b' (apply_delta d B)" for B
  proof -
    assume B: "same_block J b B"
    show "same_block J b' (apply_delta d B)"
    proof (cases b)
      case (ToolUseB u)
      with b'(1) b ev(1) obtain x where d: "d = DInputJson x" "b' = ToolUseB (u\<lparr>ub_json := ub_json u @ x\<rparr>)"
        by (cases d) (auto split: if_splits)
      from B ToolUseB obtain v raw where "B = \<lparr>cb_content = ContentToolUse (ub_id u) (ub_name u) v, cb_raw_json = raw\<rparr>"
        "jv_is_object J v \<longrightarrow> v = jv_object J []" "ub_json u = (case raw of None \<Rightarrow> [] | Some r \<Rightarrow> r)" by auto
      with d show ?thesis by simp
    next
      case (TextB u)
      with b'(1) b ev(1) obtain x where d: "d = DText x" "b' = TextB (u\<lparr>tb_text := tb_text u @ x\<rparr>)"
        by (cases d) (auto split: if_splits)
      with B TextB show ?thesis by simp
    next
      case (ThinkingB u)
      with b'(1) b ev(1) obtain x where d: "d = DThinking x" "b' = ThinkingB (u\<lparr>kb_thinking := kb_thinking u @ x\<rparr>)"
        by (cases d) (auto split: if_splits)
      with B ThinkingB show ?thesis by simp
    qed
  qed
  with b b'(2) that show thesis by blast
qed

definition opened :: "(nat, block_state) btree \<Rightarrow> nat set" where
  "opened bl = {i. bt_get bl i \<noteq> None}"

lemma collect_in_step:
  assumes J: "json_ok J" and plain: "plain_event J ev" and S: "in_step J (blocks acc) (cl_builders S)"
    and run: "push_all acc (fst (normalizer_push J ev N)) = Inr acc'"
  shows "in_step J (blocks acc') (cl_builders (fst (collect_event ev S))) \<and>
    opened (blocks acc') = opened (blocks acc) \<union> started [ev]"
proof -
  have inv: "bt_inv (blocks acc)" using S by (simp add: in_step_def)
  show ?thesis
  proof (cases ev)
    case (SeContentBlockStart i c)
    with plain run have "plain_event J (SeContentBlockStart i c)" "push_all acc (host_events_from_content_block_start J i c) = Inr acc'"
      by simp_all
    from start_same [OF J this(1) inv this(2)] obtain b where
      "sets_block (blocks acc) i b (blocks acc')" "same_block J b (block_builder_new c)" by blast
    with in_step_start [OF S this] SeContentBlockStart show ?thesis by (auto simp: opened_def started_def sets_block_def)
  next
    case (SeContentBlockDelta i d)
    with plain run have "plain_event J (SeContentBlockDelta i d)" "push_all acc (host_events_from_content_delta i d) = Inr acc'"
      by simp_all
    from delta_same [OF this(1) inv this(2)] obtain b b' where b: "bt_get (blocks acc) i = Some b"
      "sets_block (blocks acc) i b' (blocks acc')" "\<And>B. same_block J b B \<Longrightarrow> same_block J b' (apply_delta d B)" by blast
    have "i < length (cl_builders S)" "same_block J b (cl_builders S ! i)" using S b(1) by (simp_all add: in_step_def)
    with in_step_update [OF S b(1,2) b(3)] b(1,2) SeContentBlockDelta show ?thesis
      by (auto simp: opened_def started_def sets_block_def simp del: apply_delta.simps)
  next
    case (SeContentBlockStop i)
    with run have "push acc (ContentBlockStop i) = Inr acc'" by (auto split: sum.splits)
    with push_sets [OF inv _ this, of i] obtain b' where b': "block_step (bt_get (blocks acc) i) (ContentBlockStop i) = Some b'"
      "sets_block (blocks acc) i b' (blocks acc')" by auto
    obtain b where "bt_get (blocks acc) i = Some b" "b' = stop b"
    proof (cases "bt_get (blocks acc) i")
      case None
      with b'(1) show ?thesis by simp
    next
      case (Some a)
      with b'(1) that show ?thesis by (cases a) auto
    qed
    with in_step_keep [OF S _ b'(2)] S SeContentBlockStop b'(2) show ?thesis
      by (auto simp: in_step_def same_block_stop opened_def started_def sets_block_def)
  qed (use S plain run in \<open>auto simp: started_def split: option.splits\<close>)
qed

lemma push_all_append: "push_all acc (xs @ ys) = (case push_all acc xs of Inl e \<Rightarrow> Inl e | Inr acc' \<Rightarrow> push_all acc' ys)"
  by (induction acc xs rule: push_all.induct) (auto split: sum.splits)

fun collect_all :: "'v stream_event list \<Rightarrow> 'v collector \<Rightarrow> 'v collector" where
  "collect_all [] S = S"
| "collect_all (ev # evs) S = collect_all evs (fst (collect_event ev S))"

lemma collect_loop_plain:
  "list_all (plain_event J) evs \<Longrightarrow> fst (collect_loop (evs @ SeMessageStop # rest) S) = Inr (collect_all evs S)"
proof (induction evs arbitrary: S)
  case (Cons ev evs)
  then have "fst (collect_loop (evs @ SeMessageStop # rest) (fst (collect_event ev S))) = Inr (collect_all evs (fst (collect_event ev S)))"
    by simp
  with Cons.prems show ?case by (cases ev) (simp_all add: Let_def split_beta del: apply_delta.simps)
qed simp

text \<open>The stop reason and the model are the same on both sides.\<close>

definition same_totals :: "provider_stream_normalizer \<Rightarrow> 'v collector \<Rightarrow> bool" where
  "same_totals N S \<longleftrightarrow> nz_stop_reason N = cl_stop_reason S \<and>
     (case nz_model N of None \<Rightarrow> cl_model S = [] | Some m \<Rightarrow> cl_model S = m)"

lemma same_totals_event:
  "same_totals N S \<Longrightarrow> plain_event J ev \<Longrightarrow> same_totals (snd (normalizer_push J ev N)) (fst (collect_event ev S))"
  by (cases ev) (auto simp: same_totals_def split: option.splits)

definition same_answer :: "stream_accumulator \<Rightarrow> 'v collector \<Rightarrow> bool" where
  "same_answer acc S \<longleftrightarrow> acc_stop_reason acc = Some (cl_stop_reason S) \<and>
     (case acc_model acc of None \<Rightarrow> cl_model S = [] | Some m \<Rightarrow> cl_model S = m)"

lemma collect_all_same:
  assumes "json_ok J" "list_all (plain_event J) evs" "in_step J (blocks acc) (cl_builders S)" "same_totals N S"
    and "push_all acc (normalize_all J (evs @ [SeMessageStop]) N) = Inr acc'"
  shows "in_step J (blocks acc') (cl_builders (collect_all evs S)) \<and> same_answer acc' (collect_all evs S) \<and>
    opened (blocks acc') = opened (blocks acc) \<union> started evs"
  using assms(2-5)
proof (induction evs arbitrary: acc S N)
  case Nil
  then show ?case by (auto simp: same_totals_def same_answer_def started_def)
next
  case (Cons ev evs)
  obtain out N' where push: "normalizer_push J ev N = (out, N')" by fastforce
  obtain acc1 where acc1: "push_all acc out = Inr acc1" "push_all acc1 (normalize_all J (evs @ [SeMessageStop]) N') = Inr acc'"
    using Cons.prems(4) push by (auto simp: push_all_append split: sum.splits)
  have "in_step J (blocks acc1) (cl_builders (fst (collect_event ev S)))" "opened (blocks acc1) = opened (blocks acc) \<union> started [ev]"
    using collect_in_step [OF assms(1) _ Cons.prems(2), of ev N acc1] Cons.prems(1) acc1(1) push by simp_all
  moreover have "same_totals N' (fst (collect_event ev S))"
    using same_totals_event [OF Cons.prems(3), of J ev] Cons.prems(1) push by simp
  ultimately show ?case using Cons.IH [OF _ _ _ acc1(2)] Cons.prems(1) by (auto simp: started_def)
qed

lemma sorted_key_range:
  assumes "bt_inv (m :: (nat, 'a) btree)" "\<And>i. bt_get m i \<noteq> None \<longleftrightarrow> i < n"
  shows "bt_keys m = [0..<n]"
proof -
  have "set (bt_keys m) = {..<n}" using assms btree.keys_get [of m] by blast
  moreover have "sorted (bt_keys m) \<and> distinct (bt_keys m)" using assms(1) by (simp add: bt_inv_def strict_sorted_iff)
  ultimately show ?thesis by (intro sorted_distinct_set_unique) auto
qed

lemma is_blank_empty: "is_blank []"
  by code_simp

lemma finalize_same:
  assumes J: "json_ok J" and same: "same_block J b B" and c: "block_to_content (jv_from_str J) (jv_is_object J) i b = Inr c"
  shows "finalize J B = c"
proof (cases b)
  case (ToolUseB u)
  with same obtain v raw where B: "B = \<lparr>cb_content = ContentToolUse (ub_id u) (ub_name u) v, cb_raw_json = raw\<rparr>"
      "jv_is_object J v \<longrightarrow> v = jv_object J []" "ub_json u = (case raw of None \<Rightarrow> [] | Some r \<Rightarrow> r)" by auto
  obtain w where w: "parse_tool_input (jv_from_str J) (jv_is_object J) i (ub_json u) = Inr w"
      "c = ContentToolUse (ub_id u) (ub_name u) w" using c ToolUseB by (auto split: sum.splits)
  have obj: "jv_is_object J (jv_object J [])" "jv_from_str J ''{}'' = Inr (jv_object J [])"
    "\<And>s. is_blank s \<Longrightarrow> \<exists>e. jv_from_str J s = Inl e" using J by (simp_all add: json_ok_def)
  have "finalize_input J v raw = w"
  proof (cases "is_blank (ub_json u)")
    case True
    then have "w = jv_object J []" using w(1) obj by (simp add: parse_tool_input_def EMPTY_TOOL_INPUT_JSON_def)
    moreover obtain e where "jv_from_str J (ub_json u) = Inl e" using obj(3) [OF True] by blast
    ultimately show ?thesis using B(2,3) obj(1) by (auto simp: finalize_input_def Let_def split: option.splits)
  next
    case False
    then have "jv_from_str J (ub_json u) = Inr w" "jv_is_object J w"
      using w(1) by (auto simp: parse_tool_input_def split: sum.splits if_splits)
    moreover have "ub_json u \<noteq> []" using False by (auto simp: is_blank_empty)
    ultimately show ?thesis using B(3) by (auto simp: finalize_input_def split: option.splits)
  qed
  with B(1) w(2) show ?thesis by simp
qed (use same c in auto)

lemma finish_blocks_map:
  "finish_blocks f p m = Inr cs \<Longrightarrow> list_all2 (\<lambda>(i, b) c. block_to_content f p i b = Inr c) m cs"
  by (induction f p m arbitrary: cs rule: finish_blocks.induct) (auto split: sum.splits)

text \<open>C20 (equivalence). The two readers of a model stream agree. Take a stream whose blocks are numbered
  without gaps, in which tool calls start without input and no image, tool result, late signature or error
  occurs, up to the end of the message. If the accumulator of the engine host accepts what the normaliser makes of
  it, then the collector of the agent returns the same content blocks, the same model and the same stop reason,
  whatever comes after the end of the message.\<close>

theorem collectors_agree:
  assumes J: "json_ok J" and plain: "list_all (plain_event J) evs" and gaps: "started evs = {..<n}"
    and run: "push_all stream_new (normalize_all J (evs @ [SeMessageStop]) normalizer_new) = Inr acc"
    and fin: "finish (jv_from_str J) (jv_is_object J) acc = Inr f"
  shows "\<exists>r. fst (collect_stream_events J (evs @ SeMessageStop # rest)) = Inr r \<and> co_content r = fr_content f \<and>
    fr_stop_reason f = Some (co_stop_reason r) \<and> co_model r = (case fr_model f of None \<Rightarrow> [] | Some m \<Rightarrow> m)"
proof -
  let ?S = "collect_all evs collector_new"
  have "in_step J (blocks stream_new) (cl_builders (collector_new :: 'a collector))" "same_totals normalizer_new (collector_new :: 'a collector)"
    by (simp_all add: in_step_def stream_new_def collector_new_def same_totals_def normalizer_new_def bt_inv_def)
  from collect_all_same [OF J plain this run] have S: "in_step J (blocks acc) (cl_builders ?S)" "same_answer acc ?S"
      "opened (blocks acc) = {..<n}" using gaps by (simp_all add: opened_def stream_new_def)
  have keys: "bt_keys (blocks acc) = [0..<n]" using S(1,3) by (intro sorted_key_range) (auto simp: in_step_def opened_def)
  have last: "cl_builders ?S \<noteq> [] \<Longrightarrow> length (cl_builders ?S) - 1 \<in> opened (blocks acc)"
    using S(1) by (simp add: in_step_def opened_def)
  have "i \<in> opened (blocks acc) \<Longrightarrow> i < length (cl_builders ?S)" for i using S(1) by (auto simp: in_step_def opened_def)
  then have len: "length (cl_builders ?S) = n"
    using last unfolding S(3) by (cases "cl_builders ?S = []"; cases n) (auto simp: Suc_le_eq [symmetric] intro!: le_antisym)
  obtain cs where cs: "finish_blocks (jv_from_str J) (jv_is_object J) (blocks acc) = Inr cs" "f = \<lparr>fr_content = cs,
      fr_usage = acc_usage acc, fr_model = acc_model acc, fr_stop_reason = acc_stop_reason acc\<rparr>"
    using fin by (auto simp: finish_def split: sum.splits)
  note blocks = finish_blocks_map [OF cs(1)]
  have "map (finalize J) (cl_builders ?S) = cs"
  proof (intro nth_equalityI)
    show len_cs: "length (map (finalize J) (cl_builders ?S)) = length cs"
      using list_all2_lengthD [OF blocks] keys len by (metis length_map length_upt diff_zero)
    fix i assume "i < length (map (finalize J) (cl_builders ?S))"
    then have i: "i < n" "i < length (blocks acc)" using len len_cs list_all2_lengthD [OF blocks] by simp_all
    obtain k b where kb: "blocks acc ! i = (k, b)" by fastforce
    have "k = i" using kb keys i by (metis fst_conv nth_map nth_upt add_0)
    moreover from kb i(2) have "(k, b) \<in> set (blocks acc)" by (metis nth_mem)
    then have "bt_get (blocks acc) k = Some b" using S(1) btree.entry_get [of "blocks acc" k b] by (simp add: in_step_def)
    ultimately have "same_block J b (cl_builders ?S ! i)" using S(1) by (simp add: in_step_def)
    moreover have "block_to_content (jv_from_str J) (jv_is_object J) k b = Inr (cs ! i)"
      using list_all2_nthD [OF blocks i(2)] kb by simp
    ultimately show "map (finalize J) (cl_builders ?S) ! i = cs ! i" using finalize_same [OF J] i(1) len by simp
  qed
  moreover obtain out where "collect_loop (evs @ SeMessageStop # rest) collector_new = (Inr ?S, out)"
    using collect_loop_plain [OF plain, of rest collector_new] by (metis prod.collapse)
  ultimately show ?thesis
    using S(2) cs(2) by (auto simp: collect_stream_events_def same_answer_def split: option.splits)
qed

text \<open>A JSON library whose values are texts, and a stream with a text and a tool call.\<close>

definition small_json :: "string json_values" where
  "small_json = \<lparr>jv_from_str = (\<lambda>s. if is_blank s then Inl ''EOF'' else Inr s), jv_to_string = (\<lambda>s. s),
     jv_object = (\<lambda>fields. if fields = [] then ''{}'' else ''{..}''), jv_is_object = (\<lambda>s. prefix ''{'' s),
     jv_is_empty_object = (\<lambda>s. s = ''{}'')\<rparr>"

definition small_stream :: "string stream_event list" where
  "small_stream = [SeMessageStart \<lparr>mm_id = ''i'', mm_model = ''m'', mm_role = ''assistant''\<rparr>,
     SeContentBlockStart 0 (ContentText ''a''), SeContentBlockStart 1 (ContentToolUse ''c'' ''t'' ''{}''),
     SeContentBlockDelta 0 (DText ''b''), SeContentBlockDelta 1 (DInputJson ''{x}''),
     SeContentBlockStop 0, SeContentBlockStop 1, SeMessageDelta (Some ''tool_use'') usage_default]"

lemma small_json_ok: "json_ok small_json"
  by (simp add: json_ok_def small_json_def) code_simp

definition small_fold :: "string stream_fold_result" where
  "small_fold = \<lparr>fr_content = [ContentText ''ab'', ContentToolUse ''c'' ''t'' ''{x}''], fr_usage = Some usage_default,
     fr_model = Some ''m'', fr_stop_reason = Some StopToolUse\<rparr>"

lemma small_accumulated:
  "\<exists>acc. push_all stream_new (normalize_all small_json (small_stream @ [SeMessageStop]) normalizer_new) = Inr acc \<and>
    finish (jv_from_str small_json) (jv_is_object small_json) acc = Inr small_fold"
proof -
  have "is_blank ''{x}'' = False" by code_simp
  then show ?thesis
    by (simp add: small_stream_def normalizer_new_def parse_stop_reason_def small_json_def stream_new_def push_defs finish_def
        parse_tool_input_def small_fold_def)
qed

theorem collectors_agree_witness:
  "\<exists>r. fst (collect_stream_events small_json (small_stream @ SeMessageStop # [SeError ''late''])) = Inr r \<and>
    co_content r = [ContentText ''ab'', ContentToolUse ''c'' ''t'' ''{x}''] \<and> co_stop_reason r = StopToolUse \<and> co_model r = ''m''"
proof -
  obtain acc where acc: "push_all stream_new (normalize_all small_json (small_stream @ [SeMessageStop]) normalizer_new) = Inr acc"
    "finish (jv_from_str small_json) (jv_is_object small_json) acc = Inr small_fold" using small_accumulated by blast
  have "list_all (plain_event small_json) small_stream" by (simp add: small_stream_def small_json_def)
  moreover have "started small_stream = {..<2}" by (auto simp: started_def small_stream_def less_2_cases_iff)
  ultimately show ?thesis using collectors_agree [OF small_json_ok _ _ acc, of 2 "[SeError ''late'']"] by (auto simp: small_fold_def)
qed

end
