(* ===== verification/Effect_Vocabulary.thy ===== *)
theory Effect_Vocabulary
  imports Text
begin

text \<open>
  The vocabulary of effects that public credentials speak about,
  \<^verbatim>\<open>crates/clankers-ucan/src/effect_vocabulary.rs\<close>: kinds of effects, their abilities and resource names.
  A resource name is the class of the effect and its target, percent-encoded or, for files, as a
  normalised path. Strings are UTF-8 bytes, as in \<open>Text\<close>.
\<close>

section \<open>Effects\<close>

datatype effect_kind =
    FileRead | FileWrite | ShellExec | NetworkFetch | SecretRead | BrowserAct | SchedulerEnqueue | RemoteExec
  | ProviderRequest | DeliverySend | ArtifactRead | ArtifactWrite | PluginInvoke | McpInvoke

fun ability :: "effect_kind \<Rightarrow> string" where
  "ability FileRead = ''file/read''"
| "ability FileWrite = ''file/write''"
| "ability ShellExec = ''shell/exec''"
| "ability NetworkFetch = ''network/fetch''"
| "ability SecretRead = ''secret/read''"
| "ability BrowserAct = ''browser/act''"
| "ability SchedulerEnqueue = ''scheduler/enqueue''"
| "ability RemoteExec = ''remote/exec''"
| "ability ProviderRequest = ''provider/request''"
| "ability DeliverySend = ''delivery/send''"
| "ability ArtifactRead = ''artifact/read''"
| "ability ArtifactWrite = ''artifact/write''"
| "ability PluginInvoke = ''plugin/invoke''"
| "ability McpInvoke = ''mcp/invoke''"

fun resource_class :: "effect_kind \<Rightarrow> string" where
  "resource_class FileRead = ''file''"
| "resource_class FileWrite = ''file''"
| "resource_class ShellExec = ''shell''"
| "resource_class NetworkFetch = ''network''"
| "resource_class SecretRead = ''secret''"
| "resource_class BrowserAct = ''browser''"
| "resource_class SchedulerEnqueue = ''scheduler''"
| "resource_class RemoteExec = ''remote''"
| "resource_class ProviderRequest = ''provider''"
| "resource_class DeliverySend = ''delivery''"
| "resource_class ArtifactRead = ''artifact''"
| "resource_class ArtifactWrite = ''artifact''"
| "resource_class PluginInvoke = ''plugin''"
| "resource_class McpInvoke = ''mcp''"

record effect_capability =
  ec_resource :: string
  ec_ability :: string

datatype vocabulary_error =
    EmptyTarget string
  | InvalidFilePath string
  | ParentTraversal string
  | UnknownEffect string

fun vocabulary_error_text :: "vocabulary_error \<Rightarrow> string" where
  "vocabulary_error_text (EmptyTarget cl) = cl @ '' effect target is empty''"
| "vocabulary_error_text (InvalidFilePath path) = ''invalid file effect path: '' @ path"
| "vocabulary_error_text (ParentTraversal path) = ''file effect path traverses parent: '' @ path"
| "vocabulary_error_text (UnknownEffect name) = ''unknown Clankers effect: '' @ name"

definition parse_effect_kind :: "string \<Rightarrow> vocabulary_error + effect_kind" where
  "parse_effect_kind name = (case map_of
     [(''file.read'', FileRead), (''file.write'', FileWrite), (''shell.exec'', ShellExec),
      (''network.fetch'', NetworkFetch), (''secret.read'', SecretRead), (''browser.act'', BrowserAct),
      (''scheduler.enqueue'', SchedulerEnqueue), (''remote.exec'', RemoteExec),
      (''provider.request'', ProviderRequest), (''delivery.send'', DeliverySend),
      (''artifact.read'', ArtifactRead), (''artifact.write'', ArtifactWrite),
      (''plugin.invoke'', PluginInvoke), (''mcp.invoke'', McpInvoke)] name of
     Some k \<Rightarrow> Inr k | None \<Rightarrow> Inl (UnknownEffect name))"

section \<open>Resource names\<close>

definition SCHEME_PREFIX :: string where "SCHEME_PREFIX = ''clankers:''"

definition hex_digit :: "nat \<Rightarrow> char" where
  "hex_digit n = ''0123456789ABCDEF'' ! n"

definition escape :: "char \<Rightarrow> string" where
  "escape b = [CHR ''%'', hex_digit (of_char b div 16), hex_digit (of_char b mod 16)]"

definition is_unreserved :: "char \<Rightarrow> bool" where
  "is_unreserved b \<longleftrightarrow> is_ascii_alphanumeric b \<or> b \<in> {CHR ''-'', CHR ''.'', CHR ''_'', CHR ''~''}"

fun percent_encode :: "string \<Rightarrow> string" where
  "percent_encode [] = []"
| "percent_encode (b # bs) = (if is_unreserved b then [b] else escape b) @ percent_encode bs"

text \<open>\<^verbatim>\<open>Path::components\<close> on Unix, where a prefix component does not occur.\<close>

datatype path_component = RootDir | CurDir | ParentDir | NormalComponent string

definition component_of :: "string \<Rightarrow> path_component" where
  "component_of q = (if q = ''/'' then RootDir else if q = ''.'' then CurDir else if q = ''..'' then ParentDir
     else NormalComponent q)"

definition components :: "string \<Rightarrow> path_component list" where
  "components p = map component_of (path_components p)"

fun normalize_loop :: "string \<Rightarrow> path_component list \<Rightarrow> string list \<Rightarrow> vocabulary_error + string list" where
  "normalize_loop path [] output = Inr output"
| "normalize_loop path (RootDir # cs) output = normalize_loop path cs []"
| "normalize_loop path (CurDir # cs) output = normalize_loop path cs output"
| "normalize_loop path (ParentDir # cs) output = Inl (ParentTraversal path)"
| "normalize_loop path (NormalComponent s # cs) output = normalize_loop path cs (output @ [s])"

definition normalize_path_segments :: "string \<Rightarrow> vocabulary_error + string" where
  "normalize_path_segments path = (case normalize_loop path (components path) [] of
     Inl e \<Rightarrow> Inl e
   | Inr output \<Rightarrow> if output = [] then Inl (InvalidFilePath path) else Inr (''/'' @ join_with ''/'' output))"

definition normalize_file_resource :: "string \<Rightarrow> vocabulary_error + string" where
  "normalize_file_resource path =
     (if CHR 0x00 \<in> set path then Inl (InvalidFilePath path)
      else case normalize_path_segments path of
        Inl e \<Rightarrow> Inl e | Inr normalized \<Rightarrow> Inr (SCHEME_PREFIX @ ''file:'' @ normalized))"

definition normalize_resource :: "effect_kind \<Rightarrow> string \<Rightarrow> vocabulary_error + string" where
  "normalize_resource kind target =
     (let target = trim target
      in if target = [] then Inl (EmptyTarget (resource_class kind))
         else if kind = FileRead \<or> kind = FileWrite then normalize_file_resource target
         else Inr (SCHEME_PREFIX @ resource_class kind @ '':'' @ percent_encode target))"

definition effect_capability_new :: "effect_kind \<Rightarrow> string \<Rightarrow> vocabulary_error + effect_capability" where
  "effect_capability_new kind target = (case normalize_resource kind target of
     Inl e \<Rightarrow> Inl e | Inr r \<Rightarrow> Inr \<lparr>ec_resource = r, ec_ability = ability kind\<rparr>)"

section \<open>Percent encodings\<close>

lemma hex_digit_inj: "m < 16 \<Longrightarrow> n < 16 \<Longrightarrow> hex_digit m = hex_digit n \<Longrightarrow> m = n"
proof -
  have "distinct ''0123456789ABCDEF''" by simp
  then show "m < 16 \<Longrightarrow> n < 16 \<Longrightarrow> hex_digit m = hex_digit n \<Longrightarrow> m = n"
    by (simp add: hex_digit_def nth_eq_iff_index_eq)
qed

lemma escape_inj: "escape b = escape c \<Longrightarrow> b = c"
proof -
  assume e: "escape b = escape c"
  have div: "of_char x div 16 < (16 :: nat)" for x :: char by (simp add: less_mult_imp_div_less)
  have "of_char b div 16 = (of_char c div 16 :: nat)" "of_char b mod 16 = (of_char c mod 16 :: nat)"
    using e hex_digit_inj [OF div div] hex_digit_inj [of "of_char b mod 16" "of_char c mod 16"]
    by (auto simp: escape_def)
  then have "of_char b = (of_char c :: nat)" by (metis div_mult_mod_eq)
  then show "b = c" by simp
qed

definition hex_digits :: "char set" where "hex_digits = set ''0123456789ABCDEF''"

lemma hex_digit_mem: "n < 16 \<Longrightarrow> hex_digit n \<in> hex_digits"
  unfolding hex_digit_def hex_digits_def by (rule nth_mem) simp

lemma escape_chars: "set (escape b) \<subseteq> insert (CHR ''%'') hex_digits"
proof -
  have "of_char b div 16 < (16 :: nat)" by (simp add: less_mult_imp_div_less)
  then show ?thesis by (simp add: escape_def hex_digit_mem)
qed

text \<open>The contract of an encoder that leaves some bytes alone and escapes the others. The vocabulary and the
  capability gate have one each, with different plain bytes.\<close>

locale percent_code =
  fixes encode :: "string \<Rightarrow> string" and plain :: "char \<Rightarrow> bool"
  assumes encode_Nil: "encode [] = []"
    and encode_Cons: "encode (b # bs) = (if plain b then [b] else escape b) @ encode bs"
    and percent_escaped: "\<not> plain (CHR ''%'')"
begin

lemma encode_inj: "encode s = encode t \<Longrightarrow> s = t"
proof (induction s arbitrary: t)
  case Nil
  then show ?case by (cases t) (auto simp: encode_Nil encode_Cons escape_def split: if_splits)
next
  case (Cons b s)
  show ?case
  proof (cases t)
    case Nil
    then show ?thesis using Cons.prems by (auto simp: encode_Nil encode_Cons escape_def split: if_splits)
  next
    case t: (Cons c t')
    have hd: "hd (escape x) = CHR ''%''" "length (escape x) = 3" for x by (simp_all add: escape_def)
    consider "plain b" "plain c" | "\<not> plain b" "\<not> plain c" | "plain b" "\<not> plain c" | "\<not> plain b" "plain c" by blast
    then show ?thesis
    proof cases
      case 1
      then show ?thesis using Cons t by (auto simp: encode_Cons)
    next
      case 2
      then have "escape b @ encode s = escape c @ encode t'" using Cons.prems t by (simp add: encode_Cons)
      then have "escape b = escape c" "encode s = encode t'" using hd(2) by (auto simp: append_eq_append_conv)
      then show ?thesis using Cons.IH t escape_inj by blast
    qed (use Cons.prems t percent_escaped in \<open>auto simp: encode_Cons escape_def\<close>)
  qed
qed

lemma encode_chars: "c \<in> set (encode s) \<Longrightarrow> plain c \<or> c = CHR ''%'' \<or> c \<in> hex_digits"
proof (induction s)
  case (Cons b s)
  then show ?case using escape_chars [of b] by (auto simp: encode_Cons split: if_splits)
qed (simp add: encode_Nil)

end

interpretation vocabulary: percent_code percent_encode is_unreserved
  by unfold_locales (simp_all add: is_unreserved_def is_ascii_alphanumeric_def is_ascii_digit_def
      is_ascii_uppercase_def is_ascii_lowercase_def)


section \<open>Normalised paths\<close>

abbreviation slashed :: "string list \<Rightarrow> string" where "slashed qs \<equiv> CHR ''/'' # join_with ''/'' qs"

fun plain_segment :: "path_component \<Rightarrow> string option" where
  "plain_segment (NormalComponent s) = Some s"
| "plain_segment _ = None"

definition segments :: "string \<Rightarrow> string list" where
  "segments p = List.map_filter plain_segment (components p)"

definition plain_name :: "string \<Rightarrow> bool" where
  "plain_name q \<longleftrightarrow> q \<noteq> [] \<and> CHR ''/'' \<notin> set q \<and> q \<noteq> ''.'' \<and> q \<noteq> ''..''"

lemma component_of_plain: "component_of q = NormalComponent s \<longleftrightarrow> q = s \<and> q \<noteq> ''/'' \<and> q \<noteq> ''.'' \<and> q \<noteq> ''..''"
  by (auto simp: component_of_def)

lemma path_components_pieces: "q \<in> set (path_components p) \<Longrightarrow> q = ''/'' \<or> q \<noteq> [] \<and> CHR ''/'' \<notin> set q"
proof -
  assume q: "q \<in> set (path_components p)"
  have pieces: "x \<in> set (split_on (CHR ''/'') p) \<Longrightarrow> CHR ''/'' \<notin> set x" for x by (rule split_on_pieces)
  have "set (tl (split_on (CHR ''/'') p)) \<subseteq> set (split_on (CHR ''/'') p)" by (meson list.set_sel(2) split_on_nonempty subsetI)
  moreover have "hd (split_on (CHR ''/'') p) \<in> set (split_on (CHR ''/'') p)" by (simp add: hd_in_set)
  ultimately show ?thesis using q pieces by (auto simp: path_components_def Let_def split: if_splits)
qed

lemma segments_plain: "q \<in> set (segments p) \<Longrightarrow> plain_name q"
proof -
  assume "q \<in> set (segments p)"
  then obtain x where x: "x \<in> set (path_components p)" "plain_segment (component_of x) = Some q"
    by (auto simp: segments_def components_def List.map_filter_def)
  then have "component_of x = NormalComponent q" by (cases "component_of x") auto
  then have q: "q = x" "x \<noteq> ''/''" "x \<noteq> ''.''" "x \<noteq> ''..''" unfolding component_of_plain by blast+
  then have "x \<noteq> []" "CHR ''/'' \<notin> set x" using path_components_pieces [OF x(1)] by blast+
  then show ?thesis unfolding plain_name_def q(1) using q(3,4) by blast
qed

lemma component_of_root: "component_of q = RootDir \<longleftrightarrow> q = ''/''"
  by (simp add: component_of_def)

lemma separator_not_piece: "''/'' \<notin> set (split_on (CHR ''/'') p)"
proof
  assume "''/'' \<in> set (split_on (CHR ''/'') p)"
  from split_on_pieces [OF this] show False by simp
qed

lemma path_components_tl:
  "set (tl (path_components p)) \<subseteq> set (split_on (CHR ''/'') p)"
proof -
  have tl: "set (tl xs) \<subseteq> set xs" for xs :: "string list" by (cases xs) auto
  have keep: "set (tl (filter f xs)) \<subseteq> set xs" for f and xs :: "string list" using tl [of "filter f xs"] by auto
  show ?thesis
    using tl keep unfolding path_components_def Let_def
    by (cases "prefix ''/'' p"; cases "hd (split_on (CHR ''/'') p) = []") (simp_all, blast+)
qed

lemma components_root: "RootDir \<notin> set (tl (components p))"
proof
  assume "RootDir \<in> set (tl (components p))"
  then obtain q where "q \<in> set (tl (path_components p))" "component_of q = RootDir"
    unfolding components_def by (auto simp flip: map_tl)
  then have "''/'' \<in> set (split_on (CHR ''/'') p)" using path_components_tl by (auto simp only: component_of_root)
  then show False by (simp only: separator_not_piece)
qed

lemma normalize_loop_tail:
  "RootDir \<notin> set cs \<Longrightarrow> normalize_loop path cs out =
     (if ParentDir \<in> set cs then Inl (ParentTraversal path) else Inr (out @ List.map_filter plain_segment cs))"
  by (induction path cs out rule: normalize_loop.induct) (auto simp: List.map_filter_simps)

lemma normalize_loop_components:
  "normalize_loop path (components p) [] =
     (if ParentDir \<in> set (components p) then Inl (ParentTraversal path) else Inr (segments p))"
proof (cases "components p")
  case (Cons x cs)
  then have "RootDir \<notin> set cs" using components_root [of p] by simp
  then show ?thesis using Cons
    by (cases x) (simp_all add: normalize_loop_tail segments_def List.map_filter_simps)
qed (simp add: segments_def List.map_filter_simps)

lemma normalize_path_segments_eq:
  "normalize_path_segments p =
     (if ParentDir \<in> set (components p) then Inl (ParentTraversal p)
      else if segments p = [] then Inl (InvalidFilePath p) else Inr (slashed (segments p)))"
  by (simp add: normalize_path_segments_def normalize_loop_components)

text \<open>The canonical path of a list of plain names reads back as these names.\<close>

definition path_piece :: "string \<Rightarrow> bool" where
  "path_piece q \<longleftrightarrow> q \<noteq> [] \<and> CHR ''/'' \<notin> set q \<and> q \<noteq> ''.''"

lemma plain_name_piece: "plain_name q \<Longrightarrow> path_piece q"
  unfolding plain_name_def path_piece_def by blast

lemma parent_piece: "path_piece ''..''"
  by (simp add: path_piece_def)

lemma path_components_slashed:
  assumes "\<forall>q\<in>set qs. path_piece q"
  shows "path_components (slashed qs) = ''/'' # qs"
proof -
  have keep: "filter (\<lambda>q. q \<noteq> [] \<and> q \<noteq> ''.'') qs = qs"
    using assms unfolding filter_id_conv path_piece_def by blast
  have "split_on (CHR ''/'') (slashed qs) = [] # split_on (CHR ''/'') (join_with ''/'' qs)" by simp
  moreover have "filter (\<lambda>q. q \<noteq> [] \<and> q \<noteq> ''.'') (split_on (CHR ''/'') (join_with ''/'' qs)) = qs"
  proof (cases "qs = []")
    case False
    have "split_on (CHR ''/'') (join_with ''/'' qs) = qs"
      by (rule split_on_join) (use assms False in \<open>unfold path_piece_def, blast\<close>)+
    then show ?thesis by (simp only: keep)
  qed simp
  ultimately show ?thesis by (simp add: path_components_def)
qed

lemma components_slashed:
  assumes "\<forall>q\<in>set qs. path_piece q"
  shows "components (slashed qs) = RootDir # map component_of qs"
  by (simp add: components_def path_components_slashed [OF assms]) (simp add: component_of_def)

lemma component_of_plain_name: "plain_name q \<Longrightarrow> component_of q = NormalComponent q"
proof -
  assume "plain_name q"
  then have "CHR ''/'' \<notin> set q" "q \<noteq> ''.''" "q \<noteq> ''..''" unfolding plain_name_def by blast+
  moreover from this(1) have "q \<noteq> ''/''" by (rule contrapos_nn) simp
  ultimately show ?thesis unfolding component_of_plain by blast
qed

lemma components_canonical:
  assumes "\<forall>q\<in>set qs. plain_name q"
  shows "components (slashed qs) = RootDir # map NormalComponent qs"
proof -
  have "map component_of qs = map NormalComponent qs" using assms component_of_plain_name by simp
  moreover have "\<forall>q\<in>set qs. path_piece q" using assms plain_name_piece by blast
  ultimately show ?thesis by (simp only: components_slashed)
qed

lemma map_filter_plain: "List.map_filter plain_segment (map NormalComponent qs) = qs"
  by (induction qs) (simp_all add: List.map_filter_simps)

lemma segments_canonical:
  assumes "\<forall>q\<in>set qs. plain_name q"
  shows "segments (slashed qs) = qs"
  by (simp add: segments_def components_canonical [OF assms] List.map_filter_simps map_filter_plain)

section \<open>What resource names stand for\<close>

text \<open>What a resource name stands for: the trimmed target, or the names along the path of a file.\<close>

definition file_kind :: "effect_kind \<Rightarrow> bool" where
  "file_kind k \<longleftrightarrow> k = FileRead \<or> k = FileWrite"

definition denotes :: "effect_kind \<Rightarrow> string \<Rightarrow> string + string list" where
  "denotes k t = (if file_kind k then Inr (segments (trim t)) else Inl (trim t))"

definition addressable :: "effect_kind \<Rightarrow> string \<Rightarrow> bool" where
  "addressable k t \<longleftrightarrow> trim t \<noteq> [] \<and>
     (file_kind k \<longrightarrow> CHR 0x00 \<notin> set (trim t) \<and> ParentDir \<notin> set (components (trim t)) \<and> segments (trim t) \<noteq> [])"

definition resource_name :: "effect_kind \<Rightarrow> string + string list \<Rightarrow> string" where
  "resource_name k d = SCHEME_PREFIX @ resource_class k @ CHR '':'' #
     (case d of Inl s \<Rightarrow> percent_encode s | Inr qs \<Rightarrow> slashed qs)"

lemma resource_class_no_colon: "CHR '':'' \<notin> set (resource_class k)"
  by (cases k) simp_all

lemma resource_class_file: "file_kind k \<Longrightarrow> resource_class k = ''file''"
  by (auto simp: file_kind_def)

lemma resource_class_hd: "hd (resource_class k) = CHR ''f'' \<longleftrightarrow> file_kind k"
  by (cases k) (simp_all add: file_kind_def)

lemma resource_class_file_kind: "resource_class k = resource_class k' \<Longrightarrow> file_kind k = file_kind k'"
  using resource_class_hd [of k] resource_class_hd [of k'] by simp

lemma slashed_inj:
  assumes "\<forall>q\<in>set qs. plain_name q" "\<forall>q\<in>set rs. plain_name q" "slashed qs = slashed rs"
  shows "qs = rs"
  using segments_canonical [OF assms(1)] segments_canonical [OF assms(2)] assms(3) by metis

lemma normalize_resource_eq:
  "normalize_resource k t = Inr r \<longleftrightarrow> addressable k t \<and> r = resource_name k (denotes k t)"
proof (cases "file_kind k")
  case True
  then show ?thesis
    by (cases "trim t = []")
       (auto simp: normalize_resource_def normalize_file_resource_def normalize_path_segments_eq addressable_def
          resource_name_def denotes_def resource_class_file file_kind_def Let_def)
next
  case False
  then show ?thesis
    by (auto simp: normalize_resource_def addressable_def resource_name_def denotes_def file_kind_def Let_def)
qed

lemma resource_name_inj:
  assumes "resource_name k (denotes k t) = resource_name k' (denotes k' t')"
  shows "resource_class k = resource_class k' \<and> denotes k t = denotes k' t'"
proof -
  let ?tail = "\<lambda>d. case d of Inl s \<Rightarrow> percent_encode s | Inr qs \<Rightarrow> slashed qs"
  have eq: "resource_class k @ CHR '':'' # ?tail (denotes k t) = resource_class k' @ CHR '':'' # ?tail (denotes k' t')"
    using assms unfolding resource_name_def by (simp only: same_append_eq)
  from append_separator_eq [OF resource_class_no_colon resource_class_no_colon eq]
  have cl: "resource_class k = resource_class k'" and tail: "?tail (denotes k t) = ?tail (denotes k' t')" by blast+
  have "denotes k t = denotes k' t'"
  proof (cases "file_kind k")
    case True
    then show ?thesis
      using tail resource_class_file_kind [OF cl] slashed_inj [of "segments (trim t)" "segments (trim t')"] segments_plain
      by (simp add: denotes_def)
  next
    case False
    then show ?thesis
      using tail resource_class_file_kind [OF cl] vocabulary.encode_inj by (simp add: denotes_def)
  qed
  with cl show ?thesis by blast
qed

text \<open>
  Resource names are faithful. A target has a name exactly when it is not blank and, for
  files, has no NUL byte, no parent component and at least one name; two targets get the same resource
  exactly when the classes of their effects agree and they denote the same thing: the same trimmed
  text, and for files the same sequence of plain path names, however the path is spelled. So neither the
  percent encoding nor the joining of the path lets one target pass as another.
\<close>

lemma resource_names_faithful:
  "((\<exists>r. normalize_resource k t = Inr r) \<longleftrightarrow> addressable k t) \<and>
   (addressable k t \<and> addressable k' t' \<longrightarrow>
     (normalize_resource k t = normalize_resource k' t' \<longleftrightarrow> resource_class k = resource_class k' \<and> denotes k t = denotes k' t'))"
proof (intro conjI impI)
  show "(\<exists>r. normalize_resource k t = Inr r) \<longleftrightarrow> addressable k t" by (simp add: normalize_resource_eq)
  assume "addressable k t \<and> addressable k' t'"
  then have n: "normalize_resource k t = Inr (resource_name k (denotes k t))"
    "normalize_resource k' t' = Inr (resource_name k' (denotes k' t'))" by (simp_all add: normalize_resource_eq)
  show "normalize_resource k t = normalize_resource k' t' \<longleftrightarrow> resource_class k = resource_class k' \<and> denotes k t = denotes k' t'"
    unfolding n using resource_name_inj [of k t k' t'] by (auto simp: resource_name_def)
qed

lemma sample_trims: "trim ''/srv//data'' = ''/srv//data''" "trim ''srv/./data/'' = ''srv/./data/''"
  by (rule trim_plain; simp add: is_graphic_def)+

end
