(* ===== verification/Public_Credential.thy ===== *)
theory Public_Credential
  imports Text
begin

text \<open>
  Public UCAN credentials, \<^verbatim>\<open>crates/clankers-ucan/src/public_credential.rs\<close>: the versioned envelope, its
  verification under \<open>did:key\<close> issuers, and the search for a trusted root among the proofs. The
  \<^verbatim>\<open>ucan\<close>, \<^verbatim>\<open>serde_json\<close> and \<^verbatim>\<open>base64\<close> crates are parameters, gathered in the records
  \<open>ucan_lib\<close> and \<open>envelope_codec\<close>.
\<close>

section \<open>Libraries\<close>

text \<open>DIDs are their text; a proof reference is its bytes.\<close>

type_synonym did = string
type_synonym proof_reference = bytes

record claims =
  issuer_did :: string
  claim_proofs :: "proof_reference list"

datatype key_resolver_error = KeyMalformed did string

record verification_limits =
  max_proof_depth :: nat
  max_proof_count :: nat
  max_compact_token_bytes :: nat

type_synonym revocation_checker = "proof_reference \<Rightarrow> string + bool"

record ('tok, 'dec, 'key, 'time, 'ver) ucan_lib =
  reference_of :: "'tok \<Rightarrow> proof_reference"
  reference_text :: "proof_reference \<Rightarrow> string"
  reference_base64 :: "proof_reference \<Rightarrow> string"
  parse_compact_token :: "'tok \<Rightarrow> string + 'dec"
  validate_decoded_token :: "'dec \<Rightarrow> string + claims"
  issuer_did_new :: "string \<Rightarrow> string + did"
  decode_did_key :: "string \<Rightarrow> bytes option"
  public_key_from_slice :: "bytes \<Rightarrow> string + 'key"
  verify_with_resolvers ::
    "'tok \<Rightarrow> 'time \<Rightarrow> (did \<Rightarrow> key_resolver_error + 'key) \<Rightarrow> 'tok list \<Rightarrow> revocation_checker \<Rightarrow>
     verification_limits \<Rightarrow> string + 'ver"
  verified_audience :: "'ver \<Rightarrow> did"
  verified_issuer :: "'ver \<Rightarrow> did"
  verified_authorize :: "'ver \<Rightarrow> string \<Rightarrow> string \<Rightarrow> string + unit"
  verified_capabilities :: "'ver \<Rightarrow> (string \<times> string) list"

section \<open>Errors\<close>

datatype public_credential_error =
    PcDecode string
  | PcEncode string
  | UnsupportedVersion string
  | VerifyFailed string
  | AudienceMismatch did did
  | MissingProof string
  | UntrustedRoot string

type_synonym 'a public_credential_result = "public_credential_error + 'a"

section \<open>The envelope\<close>

definition PUBLIC_CREDENTIAL_SCHEMA_V1 :: string where
  "PUBLIC_CREDENTIAL_SCHEMA_V1 = ''clankers.ucan.credential.v1''"

definition PUBLIC_UCAN_MAX_PROOF_DEPTH :: nat where "PUBLIC_UCAN_MAX_PROOF_DEPTH = 16"
definition PUBLIC_UCAN_MAX_PROOF_COUNT :: nat where "PUBLIC_UCAN_MAX_PROOF_COUNT = 64"
definition PUBLIC_UCAN_MAX_COMPACT_TOKEN_BYTES :: nat where "PUBLIC_UCAN_MAX_COMPACT_TOKEN_BYTES = 64 * 1024"

record 'tok public_credential_envelope =
  schema :: string
  envelope_token :: 'tok
  envelope_proofs :: "'tok list"
  audience :: did
  trusted_roots :: "did list"
  replay_id :: "string option"

record 'tok envelope_codec =
  json_to_vec :: "'tok public_credential_envelope \<Rightarrow> string + bytes"
  json_from_slice :: "bytes \<Rightarrow> string + 'tok public_credential_envelope"
  base64_encode :: "bytes \<Rightarrow> string"
  base64_decode :: "string \<Rightarrow> string + bytes"

definition public_credential_new :: "'tok \<Rightarrow> 'tok list \<Rightarrow> did \<Rightarrow> did list \<Rightarrow> 'tok public_credential_envelope" where
  "public_credential_new token proofs aud roots =
     \<lparr>schema = PUBLIC_CREDENTIAL_SCHEMA_V1, envelope_token = token, envelope_proofs = proofs, audience = aud,
      trusted_roots = roots, replay_id = None\<rparr>"

definition with_replay_id :: "'tok public_credential_envelope \<Rightarrow> string \<Rightarrow> 'tok public_credential_envelope" where
  "with_replay_id self rid = self\<lparr>replay_id := Some rid\<rparr>"

definition set_trusted_roots :: "'tok public_credential_envelope \<Rightarrow> did list \<Rightarrow> 'tok public_credential_envelope" where
  "set_trusted_roots self roots = self\<lparr>trusted_roots := roots\<rparr>"

definition token_reference :: "('tok, 'dec, 'key, 'time, 'ver) ucan_lib \<Rightarrow> 'tok public_credential_envelope \<Rightarrow> proof_reference" where
  "token_reference L self = reference_of L (envelope_token self)"

definition ensure_supported_schema :: "'tok public_credential_envelope \<Rightarrow> unit public_credential_result" where
  "ensure_supported_schema self =
     (if schema self = PUBLIC_CREDENTIAL_SCHEMA_V1 then Inr () else Inl (UnsupportedVersion (schema self)))"

definition encode_envelope :: "'tok envelope_codec \<Rightarrow> 'tok public_credential_envelope \<Rightarrow> bytes public_credential_result" where
  "encode_envelope C self = (case ensure_supported_schema self of
     Inl e \<Rightarrow> Inl e
   | Inr _ \<Rightarrow> (case json_to_vec C self of Inl msg \<Rightarrow> Inl (PcEncode msg) | Inr bs \<Rightarrow> Inr bs))"

definition decode_envelope :: "'tok envelope_codec \<Rightarrow> bytes \<Rightarrow> 'tok public_credential_envelope public_credential_result" where
  "decode_envelope C bs = (case json_from_slice C bs of
     Inl msg \<Rightarrow> Inl (PcDecode msg)
   | Inr envelope \<Rightarrow> (case ensure_supported_schema envelope of Inl e \<Rightarrow> Inl e | Inr _ \<Rightarrow> Inr envelope))"

definition envelope_to_base64 :: "'tok envelope_codec \<Rightarrow> 'tok public_credential_envelope \<Rightarrow> string public_credential_result" where
  "envelope_to_base64 C self = map_sum id (base64_encode C) (encode_envelope C self)"

definition envelope_from_base64 :: "'tok envelope_codec \<Rightarrow> string \<Rightarrow> 'tok public_credential_envelope public_credential_result" where
  "envelope_from_base64 C input = (case base64_decode C input of
     Inl msg \<Rightarrow> Inl (PcDecode msg) | Inr bs \<Rightarrow> decode_envelope C bs)"

section \<open>The search for a trusted root\<close>

definition token_claims :: "('tok, 'dec, 'key, 'time, 'ver) ucan_lib \<Rightarrow> 'tok \<Rightarrow> claims public_credential_result" where
  "token_claims L token = (case parse_compact_token L token of
     Inl msg \<Rightarrow> Inl (PcDecode msg)
   | Inr decoded \<Rightarrow> (case validate_decoded_token L decoded of Inl msg \<Rightarrow> Inl (PcDecode msg) | Inr c \<Rightarrow> Inr c))"

text \<open>The proof map of the envelope: the last proof with a reference is the one found under it.\<close>

definition proof_map :: "('tok, 'dec, 'key, 'time, 'ver) ucan_lib \<Rightarrow> 'tok list \<Rightarrow> proof_reference \<Rightarrow> 'tok option" where
  "proof_map L proofs = map_of (rev (map (\<lambda>p. (reference_of L p, p)) proofs))"

text \<open>The loop over the proofs of one token pushes their tokens on the stack, whose top is the head.\<close>

fun push_parents ::
  "('tok, 'dec, 'key, 'time, 'ver) ucan_lib \<Rightarrow> (proof_reference \<Rightarrow> 'tok option) \<Rightarrow> proof_reference list \<Rightarrow> 'tok list \<Rightarrow>
   'tok list public_credential_result" where
  "push_parents L pm [] pending = Inr pending"
| "push_parents L pm (r # rs) pending = (case pm r of
     None \<Rightarrow> Inl (MissingProof (reference_base64 L r))
   | Some parent \<Rightarrow> push_parents L pm rs (parent # pending))"

lemma push_parents_tokens:
  "push_parents L pm rs pending = Inr pending' \<Longrightarrow> set pending' = set pending \<union> (the \<circ> pm) ` set rs \<and> (\<forall>r\<in>set rs. pm r \<noteq> None)"
  by (induction L pm rs pending arbitrary: pending' rule: push_parents.induct) (auto split: option.splits)

lemma proof_map_in: "proof_map L proofs r = Some p \<Longrightarrow> p \<in> set proofs \<and> reference_of L p = r"
  by (auto simp: proof_map_def dest!: map_of_SomeD)

lemma push_parents_sub:
  "push_parents L (proof_map L proofs) rs pending = Inr pending' \<Longrightarrow> set pending' \<subseteq> set pending \<union> set proofs"
  using push_parents_tokens [of L "proof_map L proofs" rs pending pending'] proof_map_in [of L proofs] by force

definition unvisited :: "('tok, 'dec, 'key, 'time, 'ver) ucan_lib \<Rightarrow> 'tok list \<Rightarrow> 'tok list \<Rightarrow> proof_reference list \<Rightarrow> nat" where
  "unvisited L proofs pending visited = card (reference_of L ` (set proofs \<union> set pending) - set visited)"

function root_search ::
  "('tok, 'dec, 'key, 'time, 'ver) ucan_lib \<Rightarrow> 'tok list \<Rightarrow> did list \<Rightarrow> 'tok list \<Rightarrow> proof_reference list \<Rightarrow>
   bool public_credential_result" where
  "root_search L proofs trusted [] visited = Inr False"
| "root_search L proofs trusted (candidate # pending) visited =
     (let reference = reference_of L candidate
      in if reference \<in> set visited then root_search L proofs trusted pending visited
         else case token_claims L candidate of
           Inl e \<Rightarrow> Inl e
         | Inr c \<Rightarrow> (case issuer_did_new L (issuer_did c) of
             Inl msg \<Rightarrow> Inl (VerifyFailed msg)
           | Inr issuer \<Rightarrow>
               if claim_proofs c = [] then
                 (if issuer \<in> set trusted then Inr True
                  else root_search L proofs trusted pending (reference # visited))
               else case push_parents L (proof_map L proofs) (claim_proofs c) pending of
                 Inl e \<Rightarrow> Inl e
               | Inr pending' \<Rightarrow> root_search L proofs trusted pending' (reference # visited)))"
  by pat_completeness auto

lemma unvisited_le: "set pending' \<subseteq> set pending \<union> set proofs \<Longrightarrow> unvisited L proofs pending' visited \<le> unvisited L proofs pending visited"
  unfolding unvisited_def by (rule card_mono) auto

lemma unvisited_less:
  assumes "reference_of L c \<notin> set visited" "set pending' \<subseteq> set pending \<union> set proofs"
  shows "unvisited L proofs pending' (reference_of L c # visited) < unvisited L proofs (c # pending) visited"
  unfolding unvisited_def using assms by (intro psubset_card_mono) auto

termination root_search
proof (relation "inv_image (less_than <*lex*> less_than)
    (\<lambda>(L, proofs, trusted, pending, visited). (unvisited L proofs pending visited, length pending))", goal_cases)
  case 1
  then show ?case by auto
next
  case (2 L proofs trusted candidate pending visited x)
  have "unvisited L proofs pending visited \<le> unvisited L proofs (candidate # pending) visited" by (rule unvisited_le) auto
  then show ?case by auto
next
  case (3 L proofs trusted candidate pending visited x c issuer)
  then show ?case using unvisited_less [of L candidate visited pending pending proofs] by simp
next
  case (4 L proofs trusted candidate pending visited x c issuer pending')
  then show ?case using unvisited_less [of L candidate visited pending' pending proofs] push_parents_sub [of L proofs "claim_proofs c" pending pending'] by simp
qed

definition token_chain_has_trusted_root ::
  "('tok, 'dec, 'key, 'time, 'ver) ucan_lib \<Rightarrow> 'tok \<Rightarrow> 'tok list \<Rightarrow> did list \<Rightarrow> bool public_credential_result" where
  "token_chain_has_trusted_root L token proofs trusted = root_search L proofs trusted [token] []"

section \<open>Verification\<close>

definition resolve_did_key ::
  "('tok, 'dec, 'key, 'time, 'ver) ucan_lib \<Rightarrow> did \<Rightarrow> key_resolver_error + 'key" where
  "resolve_did_key L issuer = (case decode_did_key L issuer of
     None \<Rightarrow> Inl (KeyMalformed issuer ''issuer is not an Ed25519 did:key'')
   | Some public_key_bytes \<Rightarrow> (case public_key_from_slice L public_key_bytes of
       Inl msg \<Rightarrow> Inl (KeyMalformed issuer msg) | Inr k \<Rightarrow> Inr k))"

definition public_ucan_verification_limits :: verification_limits where
  "public_ucan_verification_limits =
     \<lparr>max_proof_depth = PUBLIC_UCAN_MAX_PROOF_DEPTH, max_proof_count = PUBLIC_UCAN_MAX_PROOF_COUNT,
      max_compact_token_bytes = PUBLIC_UCAN_MAX_COMPACT_TOKEN_BYTES\<rparr>"

definition ensure_audience ::
  "('tok, 'dec, 'key, 'time, 'ver) ucan_lib \<Rightarrow> 'tok public_credential_envelope \<Rightarrow> 'ver \<Rightarrow> unit public_credential_result" where
  "ensure_audience L self verified =
     (if verified_audience L verified = audience self then Inr ()
      else Inl (AudienceMismatch (audience self) (verified_audience L verified)))"

definition ensure_trusted_root ::
  "('tok, 'dec, 'key, 'time, 'ver) ucan_lib \<Rightarrow> 'tok public_credential_envelope \<Rightarrow> unit public_credential_result" where
  "ensure_trusted_root L self =
     (if trusted_roots self = [] then Inl (UntrustedRoot (reference_text L (token_reference L self)))
      else case token_chain_has_trusted_root L (envelope_token self) (envelope_proofs self) (trusted_roots self) of
        Inl e \<Rightarrow> Inl e
      | Inr found \<Rightarrow> if found then Inr () else Inl (UntrustedRoot (reference_text L (token_reference L self))))"

definition verify_with_did_keys_and_revocations ::
  "('tok, 'dec, 'key, 'time, 'ver) ucan_lib \<Rightarrow> 'tok public_credential_envelope \<Rightarrow> 'time \<Rightarrow> revocation_checker \<Rightarrow>
   'ver public_credential_result" where
  "verify_with_did_keys_and_revocations L self time revocations = (case ensure_supported_schema self of
     Inl e \<Rightarrow> Inl e
   | Inr _ \<Rightarrow> (case verify_with_resolvers L (envelope_token self) time (resolve_did_key L) (envelope_proofs self)
         revocations public_ucan_verification_limits of
       Inl msg \<Rightarrow> Inl (VerifyFailed msg)
     | Inr verified \<Rightarrow> (case ensure_audience L self verified of
         Inl e \<Rightarrow> Inl e
       | Inr _ \<Rightarrow> (case ensure_trusted_root L self of Inl e \<Rightarrow> Inl e | Inr _ \<Rightarrow> Inr verified))))"

definition no_revocations :: revocation_checker where
  "no_revocations r = Inr False"

definition verify_with_did_keys ::
  "('tok, 'dec, 'key, 'time, 'ver) ucan_lib \<Rightarrow> 'tok public_credential_envelope \<Rightarrow> 'time \<Rightarrow> 'ver public_credential_result" where
  "verify_with_did_keys L self time = verify_with_did_keys_and_revocations L self time no_revocations"

section \<open>What the search finds\<close>

definition parent_of :: "('tok, 'dec, 'key, 'time, 'ver) ucan_lib \<Rightarrow> 'tok list \<Rightarrow> 'tok \<Rightarrow> 'tok \<Rightarrow> bool" where
  "parent_of L proofs t p \<longleftrightarrow> (\<exists>c r. token_claims L t = Inr c \<and> r \<in> set (claim_proofs c) \<and> proof_map L proofs r = Some p)"

abbreviation ancestor where "ancestor L proofs \<equiv> (parent_of L proofs)\<^sup>*\<^sup>*"

definition rooted_in :: "('tok, 'dec, 'key, 'time, 'ver) ucan_lib \<Rightarrow> did list \<Rightarrow> 'tok \<Rightarrow> bool" where
  "rooted_in L trusted t \<longleftrightarrow>
     (\<exists>c i. token_claims L t = Inr c \<and> claim_proofs c = [] \<and> issuer_did_new L (issuer_did c) = Inr i \<and> i \<in> set trusted)"

definition readable :: "('tok, 'dec, 'key, 'time, 'ver) ucan_lib \<Rightarrow> 'tok list \<Rightarrow> 'tok \<Rightarrow> bool" where
  "readable L proofs t \<longleftrightarrow>
     (\<exists>c i. token_claims L t = Inr c \<and> issuer_did_new L (issuer_did c) = Inr i \<and> (\<forall>r\<in>set (claim_proofs c). proof_map L proofs r \<noteq> None))"

lemma push_parents_missing: "push_parents L pm rs pending = Inl e \<Longrightarrow> \<exists>r\<in>set rs. pm r = None"
  by (induction L pm rs pending rule: push_parents.induct) (auto split: option.splits)

lemma pushed:
  assumes "push_parents L (proof_map L proofs) (claim_proofs c) pending = Inr pending'" "token_claims L t = Inr c"
  shows "set pending' = set pending \<union> {p. parent_of L proofs t p}"
    and "\<forall>r\<in>set (claim_proofs c). proof_map L proofs r \<noteq> None"
  using push_parents_tokens [OF assms(1)] assms(2) by (force simp: parent_of_def)+

text \<open>The search as a rule: a visited token is skipped, an unreadable one is an error, a root is the answer, and
  any other token is replaced by its parents.\<close>

lemma search_induct [case_names Nil visited unreadable found expand]:
  fixes P :: "'tok list \<Rightarrow> proof_reference list \<Rightarrow> bool public_credential_result \<Rightarrow> bool"
  assumes Nil: "\<And>V. P [] V (Inr False)"
    and visited: "\<And>t ts V R. reference_of L t \<in> set V \<Longrightarrow> P ts V R \<Longrightarrow> P (t # ts) V R"
    and unreadable: "\<And>t ts V e. reference_of L t \<notin> set V \<Longrightarrow> \<not> readable L proofs t \<Longrightarrow> P (t # ts) V (Inl e)"
    and found: "\<And>t ts V. reference_of L t \<notin> set V \<Longrightarrow> rooted_in L trusted t \<Longrightarrow> P (t # ts) V (Inr True)"
    and expand: "\<And>t ts ts' V R. reference_of L t \<notin> set V \<Longrightarrow> readable L proofs t \<Longrightarrow> \<not> rooted_in L trusted t \<Longrightarrow>
      set ts' = set ts \<union> {p. parent_of L proofs t p} \<Longrightarrow> P ts' (reference_of L t # V) R \<Longrightarrow> P (t # ts) V R"
  shows "P ts V (root_search L proofs trusted ts V)"
  using assms
proof (induction L proofs trusted ts V rule: root_search.induct)
  case (1 L proofs trusted V)
  show ?case using "1.prems"(1) by simp
next
  case (2 L proofs trusted t ts V)
  let ?r = "reference_of L t"
  show ?case
  proof (cases "?r \<in> set V")
    case True
    with "2.prems"(2) [OF True "2.IH"(1) [OF refl True "2.prems"]] show ?thesis by simp
  next
    case new: False
    show ?thesis
    proof (cases "token_claims L t")
      case (Inl e)
      then have "\<not> readable L proofs t" by (simp add: readable_def)
      with "2.prems"(3) [OF new] Inl new show ?thesis by simp
    next
      case c: (Inr c)
      show ?thesis
      proof (cases "issuer_did_new L (issuer_did c)")
        case (Inl e)
        then have "\<not> readable L proofs t" using c by (simp add: readable_def)
        with "2.prems"(3) [OF new] Inl c new show ?thesis by simp
      next
        case i: (Inr i)
        show ?thesis
        proof (cases "claim_proofs c = []")
          case nil: True
          then have par: "set ts = set ts \<union> {p. parent_of L proofs t p}" "readable L proofs t" using c i by (auto simp: parent_of_def readable_def)
          have root: "rooted_in L trusted t \<longleftrightarrow> i \<in> set trusted" using c i nil by (auto simp: rooted_in_def)
          show ?thesis
          proof (cases "i \<in> set trusted")
            case True
            then show ?thesis using "2.prems"(4) [OF new] root new c i nil by simp
          next
            case False
            then show ?thesis
              using "2.prems"(5) [OF new par(2) _ par(1) "2.IH"(2) [OF refl new c i nil False "2.prems"]] root new c i nil by simp
          qed
        next
          case ne: False
          then have root: "\<not> rooted_in L trusted t" using c by (auto simp: rooted_in_def)
          show ?thesis
          proof (cases "push_parents L (proof_map L proofs) (claim_proofs c) ts")
            case (Inl e)
            then have "\<not> readable L proofs t" using push_parents_missing [OF Inl] c by (auto simp: readable_def)
            with "2.prems"(3) [OF new] Inl c i ne new show ?thesis by simp
          next
            case p: (Inr ts')
            note par = pushed [OF p c]
            then have "readable L proofs t" using c i by (auto simp: readable_def)
            then show ?thesis
              using "2.prems"(5) [OF new _ root par(1) "2.IH"(3) [OF refl new c i ne p "2.prems"]] new c i ne p by simp
          qed
        qed
      qed
    qed
  qed
qed

lemma search_found:
  "root_search L proofs trusted ts V = Inr True \<longrightarrow> (\<exists>t\<in>set ts. \<exists>a. ancestor L proofs t a \<and> rooted_in L trusted a)"
proof (rule search_induct [where L = L and proofs = proofs and trusted = trusted
    and P = "\<lambda>ts V R. R = Inr True \<longrightarrow> (\<exists>t\<in>set ts. \<exists>a. ancestor L proofs t a \<and> rooted_in L trusted a)"], goal_cases)
  case (5 t ts ts' V R)
  then show ?case by (auto intro: converse_rtranclp_into_rtranclp)
qed auto

lemma search_failed:
  "root_search L proofs trusted ts V = Inl e \<longrightarrow> (\<exists>t\<in>set ts. \<exists>a. ancestor L proofs t a \<and> \<not> readable L proofs a)"
proof (rule search_induct [where L = L and proofs = proofs and trusted = trusted
    and P = "\<lambda>ts V R. R = Inl e \<longrightarrow> (\<exists>t\<in>set ts. \<exists>a. ancestor L proofs t a \<and> \<not> readable L proofs a)"], goal_cases)
  case (5 t ts ts' V R)
  then show ?case by (auto intro: converse_rtranclp_into_rtranclp)
qed auto

text \<open>A search without result has visited a set of tokens that is closed under parents.\<close>

definition explored :: "('tok, 'dec, 'key, 'time, 'ver) ucan_lib \<Rightarrow> 'tok list \<Rightarrow> did list \<Rightarrow> 'tok list \<Rightarrow> proof_reference list \<Rightarrow> 'tok set \<Rightarrow> bool" where
  "explored L proofs trusted ts V S \<longleftrightarrow> (\<forall>t\<in>set ts. t \<in> S \<or> reference_of L t \<in> set V) \<and>
      (\<forall>t\<in>S. readable L proofs t \<and> \<not> rooted_in L trusted t \<and>
        (\<forall>p. parent_of L proofs t p \<longrightarrow> p \<in> S \<or> reference_of L p \<in> set V))"

lemma parent_in_proofs: "parent_of L proofs t p \<Longrightarrow> p \<in> set proofs"
  using proof_map_in by (fastforce simp: parent_of_def)

lemma explored_expand:
  assumes "explored L proofs trusted ts' (reference_of L t # V) S" "set ts' = set ts \<union> {p. parent_of L proofs t p}"
    and "readable L proofs t" "\<not> rooted_in L trusted t" "set (t # ts) \<subseteq> insert token (set proofs)"
    and inj: "inj_on (reference_of L) (insert token (set proofs))"
  shows "explored L proofs trusted (t # ts) V (insert t S)"
proof -
  have same: "x = t" if "reference_of L x = reference_of L t" "x \<in> insert token (set proofs)" for x
    by (rule inj_onD [OF inj]) (use that assms(5) in auto)
  have closed: "p \<in> insert t S \<or> reference_of L p \<in> set V" if "x \<in> insert t S" "parent_of L proofs x p" for x p
    using that assms(1,2) same [of p] parent_in_proofs [OF that(2)] by (auto simp: explored_def)
  have "x \<in> insert t S \<or> reference_of L x \<in> set V" if "x \<in> set ts" for x
  proof -
    have "x \<in> set ts'" "x \<in> insert token (set proofs)" using that assms(2,5) by auto
    with assms(1) same [of x] show ?thesis unfolding explored_def by auto
  qed
  with closed show ?thesis using assms(1,3,4) unfolding explored_def by auto
qed

lemma search_exhausted:
  assumes inj: "inj_on (reference_of L) (insert token (set proofs))"
  shows "set ts \<subseteq> insert token (set proofs) \<longrightarrow> root_search L proofs trusted ts V = Inr False \<longrightarrow>
    (\<exists>S. explored L proofs trusted ts V S)"
proof (rule search_induct [where L = L and proofs = proofs and trusted = trusted
    and P = "\<lambda>ts V R. set ts \<subseteq> insert token (set proofs) \<longrightarrow> R = Inr False \<longrightarrow> (\<exists>S. explored L proofs trusted ts V S)"],
    goal_cases)
  case (5 t ts ts' V R)
  then show ?case using explored_expand [OF _ 5(4,2,3) _ inj] parent_in_proofs [of L proofs t] by fastforce
qed (auto simp: explored_def)

lemma search_none:
  assumes inj: "inj_on (reference_of L) (insert token (set proofs))"
    and none: "token_chain_has_trusted_root L token proofs trusted = Inr False" and anc: "ancestor L proofs token a"
  shows "readable L proofs a \<and> \<not> rooted_in L trusted a"
proof -
  from search_exhausted [OF inj, of "[token]" trusted "[]"] none obtain S where S: "explored L proofs trusted [token] [] S"
    by (auto simp: token_chain_has_trusted_root_def)
  from anc have "a \<in> S" by (induction rule: rtranclp_induct) (use S in \<open>auto simp: explored_def\<close>)
  with S show ?thesis by (auto simp: explored_def)
qed

lemma trusted_root_search_cases:
  assumes "inj_on (reference_of L) (insert token (set proofs))"
  obtains (yes) a where "token_chain_has_trusted_root L token proofs trusted = Inr True" "ancestor L proofs token a" "rooted_in L trusted a"
  | (no) "token_chain_has_trusted_root L token proofs trusted = Inr False"
      "\<forall>a. ancestor L proofs token a \<longrightarrow> readable L proofs a \<and> \<not> rooted_in L trusted a"
  | (fails) e a where "token_chain_has_trusted_root L token proofs trusted = Inl e" "ancestor L proofs token a" "\<not> readable L proofs a"
proof (cases "token_chain_has_trusted_root L token proofs trusted")
  case (Inl e)
  then show ?thesis using search_failed [of L proofs trusted "[token]" "[]" e] that(3)
    by (auto simp: token_chain_has_trusted_root_def)
next
  case (Inr b)
  then show ?thesis
    using search_none [OF assms, of trusted] search_found [of L proofs trusted "[token]" "[]"] that(1,2)
    by (cases b) (auto simp: token_chain_has_trusted_root_def)
qed

text \<open>
  C7 (equivalence). The stack search for a trusted root decides reachability. Whatever the proofs, cyclic
  or repeated ones included, it returns: success means that some ancestor of the token is a root whose
  issuer is trusted; failure means that every ancestor was read and none of them is such a root; an error
  means that some ancestor cannot be read, its claims or its issuer being malformed or one of its proofs
  missing from the envelope.
\<close>

theorem trusted_root_search:
  assumes "inj_on (reference_of L) (insert token (set proofs))"
  shows "case token_chain_has_trusted_root L token proofs trusted of
      Inr True \<Rightarrow> \<exists>a. ancestor L proofs token a \<and> rooted_in L trusted a
    | Inr False \<Rightarrow> \<forall>a. ancestor L proofs token a \<longrightarrow> readable L proofs a \<and> \<not> rooted_in L trusted a
    | Inl e \<Rightarrow> \<exists>a. ancestor L proofs token a \<and> \<not> readable L proofs a"
  by (cases rule: trusted_root_search_cases [OF assms, of trusted]) auto

section \<open>Verified credentials\<close>

lemma ensure_trusted_root_ok:
  "ensure_trusted_root L self = Inr () \<longleftrightarrow>
     trusted_roots self \<noteq> [] \<and>
     token_chain_has_trusted_root L (envelope_token self) (envelope_proofs self) (trusted_roots self) = Inr True"
  by (auto simp: ensure_trusted_root_def split: sum.splits)

lemma verify_ok:
  "verify_with_did_keys_and_revocations L self time chk = Inr v \<longleftrightarrow>
     schema self = PUBLIC_CREDENTIAL_SCHEMA_V1 \<and>
     verify_with_resolvers L (envelope_token self) time (resolve_did_key L) (envelope_proofs self) chk
       public_ucan_verification_limits = Inr v \<and>
     verified_audience L v = audience self \<and> ensure_trusted_root L self = Inr ()"
  by (auto simp: verify_with_did_keys_and_revocations_def ensure_supported_schema_def ensure_audience_def
      split: sum.splits)

lemma verified_anchored:
  assumes "verify_with_did_keys_and_revocations L self time chk = Inr v"
  shows "\<exists>a. ancestor L (envelope_proofs self) (envelope_token self) a \<and> rooted_in L (trusted_roots self) a"
  using assms search_found [of L "envelope_proofs self" "trusted_roots self" "[envelope_token self]" "[]"]
  by (auto simp: verify_ok ensure_trusted_root_ok token_chain_has_trusted_root_def)

text \<open>What is written is read back, when the codecs read back what they write.\<close>

lemma envelope_roundtrip:
  assumes "\<And>bs. json_to_vec C e = Inr bs \<Longrightarrow> json_from_slice C bs = Inr e"
    and "\<And>bs. base64_decode C (base64_encode C bs) = Inr bs"
    and "envelope_to_base64 C e = Inr text"
  shows "envelope_from_base64 C text = Inr e"
  using assms
  by (auto simp: envelope_to_base64_def envelope_from_base64_def encode_envelope_def decode_envelope_def
      ensure_supported_schema_def split: sum.splits if_splits)

section \<open>Issuing credentials\<close>

text \<open>\<^verbatim>\<open>crates/clankers-ucan/src/public_issuer.rs\<close>. The signer and \<open>issue_token_with_signer\<close> are those of the
  \<^verbatim>\<open>ucan\<close> crate.\<close>

record ('tok, 'caps, 'bounds, 'signer) signer_lib =
  signer_issuer :: "'signer \<Rightarrow> string + did"
  audience_of_issuer :: "did \<Rightarrow> did"
  time_bounds :: "u64 \<Rightarrow> duration \<Rightarrow> string + 'bounds"
  issue_token :: "'signer \<Rightarrow> did \<Rightarrow> 'caps \<Rightarrow> 'tok list \<Rightarrow> 'bounds \<Rightarrow> string + 'tok"

datatype public_issuer_error =
    IssuerCredential public_credential_error
  | MissingParentProof
  | IssuerTime string
  | IssuerToken string

definition public_issuer :: "('tok, 'caps, 'bounds, 'signer) signer_lib \<Rightarrow> 'signer \<Rightarrow> public_issuer_error + did" where
  "public_issuer S signer = (case signer_issuer S signer of Inl msg \<Rightarrow> Inl (IssuerToken msg) | Inr i \<Rightarrow> Inr i)"

definition public_audience :: "('tok, 'caps, 'bounds, 'signer) signer_lib \<Rightarrow> 'signer \<Rightarrow> public_issuer_error + did" where
  "public_audience S signer = map_sum id (audience_of_issuer S) (public_issuer S signer)"

definition token_time_bounds_at :: "('tok, 'caps, 'bounds, 'signer) signer_lib \<Rightarrow> duration \<Rightarrow> u64 \<Rightarrow> public_issuer_error + 'bounds" where
  "token_time_bounds_at S lifetime issued_at =
     (case time_bounds S issued_at lifetime of Inl msg \<Rightarrow> Inl (IssuerTime msg) | Inr b \<Rightarrow> Inr b)"

text \<open>The variable the code calls \<open>first\<close> is the last proof.\<close>

definition trusted_roots_from_proofs ::
  "('tok, 'dec, 'key, 'time, 'ver) ucan_lib \<Rightarrow> 'tok list \<Rightarrow> public_issuer_error + did list" where
  "trusted_roots_from_proofs L proofs =
     (if proofs = [] then Inl MissingParentProof
      else case parse_compact_token L (last proofs) of
        Inl msg \<Rightarrow> Inl (IssuerToken msg)
      | Inr decoded \<Rightarrow> (case validate_decoded_token L decoded of
          Inl msg \<Rightarrow> Inl (IssuerToken msg)
        | Inr c \<Rightarrow> (case issuer_did_new L (issuer_did c) of Inl msg \<Rightarrow> Inl (IssuerToken msg) | Inr i \<Rightarrow> Inr [i])))"

definition issue_root_credential_at ::
  "('tok, 'caps, 'bounds, 'signer) signer_lib \<Rightarrow> 'signer \<Rightarrow> did \<Rightarrow> 'caps \<Rightarrow> duration \<Rightarrow> u64 \<Rightarrow>
   public_issuer_error + 'tok public_credential_envelope" where
  "issue_root_credential_at S signer aud capabilities lifetime issued_at =
     (case token_time_bounds_at S lifetime issued_at of
       Inl e \<Rightarrow> Inl e
     | Inr bounds \<Rightarrow> (case issue_token S signer aud capabilities [] bounds of
         Inl msg \<Rightarrow> Inl (IssuerToken msg)
       | Inr token \<Rightarrow> (case public_issuer S signer of
           Inl e \<Rightarrow> Inl e
         | Inr issuer \<Rightarrow> Inr (public_credential_new token [] aud [issuer]))))"

definition issue_delegated_credential_at ::
  "('tok, 'dec, 'key, 'time, 'ver) ucan_lib \<Rightarrow> ('tok, 'caps, 'bounds, 'signer) signer_lib \<Rightarrow> 'signer \<Rightarrow> did \<Rightarrow> 'caps \<Rightarrow>
   'tok list \<Rightarrow> duration \<Rightarrow> u64 \<Rightarrow> public_issuer_error + 'tok public_credential_envelope" where
  "issue_delegated_credential_at L S signer aud capabilities proofs lifetime issued_at =
     (case token_time_bounds_at S lifetime issued_at of
       Inl e \<Rightarrow> Inl e
     | Inr bounds \<Rightarrow> (case trusted_roots_from_proofs L proofs of
         Inl e \<Rightarrow> Inl e
       | Inr roots \<Rightarrow> (case issue_token S signer aud capabilities proofs bounds of
           Inl msg \<Rightarrow> Inl (IssuerToken msg)
         | Inr token \<Rightarrow> Inr (public_credential_new token proofs aud roots))))"

definition delegate_to_at ::
  "('tok, 'caps, 'bounds, 'signer) signer_lib \<Rightarrow> 'signer \<Rightarrow> 'signer \<Rightarrow> 'caps \<Rightarrow> duration \<Rightarrow> u64 \<Rightarrow>
   public_issuer_error + 'tok public_credential_envelope" where
  "delegate_to_at S signer delegate capabilities lifetime issued_at = (case public_audience S delegate of
     Inl e \<Rightarrow> Inl e
   | Inr aud \<Rightarrow> issue_root_credential_at S signer aud capabilities lifetime issued_at)"

definition issue_child_from_parent_at ::
  "('tok, 'dec, 'key, 'time, 'ver) ucan_lib \<Rightarrow> ('tok, 'caps, 'bounds, 'signer) signer_lib \<Rightarrow> 'signer \<Rightarrow>
   'tok public_credential_envelope \<Rightarrow> did \<Rightarrow> 'caps \<Rightarrow> duration \<Rightarrow> u64 \<Rightarrow>
   public_issuer_error + 'tok public_credential_envelope" where
  "issue_child_from_parent_at L S signer parent aud capabilities lifetime issued_at =
     (case issue_delegated_credential_at L S signer aud capabilities (envelope_token parent # envelope_proofs parent)
         lifetime issued_at of
       Inl e \<Rightarrow> Inl e
     | Inr envelope \<Rightarrow> Inr (set_trusted_roots envelope (trusted_roots parent)))"

lemma issue_child_ok:
  assumes "issue_child_from_parent_at L S signer parent aud caps lifetime at = Inr child"
  obtains bounds token where
    "issue_token S signer aud caps (envelope_token parent # envelope_proofs parent) bounds = Inr token"
    "child = \<lparr>schema = PUBLIC_CREDENTIAL_SCHEMA_V1, envelope_token = token,
       envelope_proofs = envelope_token parent # envelope_proofs parent, audience = aud,
       trusted_roots = trusted_roots parent, replay_id = None\<rparr>"
  using assms
  by (auto simp: issue_child_from_parent_at_def issue_delegated_credential_at_def set_trusted_roots_def
      public_credential_new_def split: sum.splits)

section \<open>Delegation keeps the anchor\<close>

lemma proof_map_Cons: "proof_map L proofs r = Some p \<Longrightarrow> proof_map L (q # proofs) r = Some p"
  by (simp add: proof_map_def map_add_Some_iff)

lemma parent_of_Cons: "parent_of L proofs t p \<Longrightarrow> parent_of L (q # proofs) t p"
  by (auto simp: parent_of_def intro!: bexI dest: proof_map_Cons [of _ _ _ _ q])

lemma readable_Cons: "readable L proofs t \<Longrightarrow> readable L (q # proofs) t"
  unfolding readable_def using proof_map_Cons by fastforce

lemma ancestor_Cons: "ancestor L proofs t a \<Longrightarrow> ancestor L (q # proofs) t a"
  by (induction rule: rtranclp_induct) (auto intro: rtranclp.rtrancl_into_rtrancl parent_of_Cons)

lemma proof_map_complete:
  assumes "inj_on (reference_of L) (set proofs)" "p \<in> set proofs"
  shows "proof_map L proofs (reference_of L p) = Some p"
proof -
  have "proof_map L proofs (reference_of L p) \<noteq> None"
    using assms(2) unfolding proof_map_def map_of_eq_None_iff by force
  then obtain q where "proof_map L proofs (reference_of L p) = Some q" by blast
  with proof_map_in [OF this] assms show ?thesis by (auto dest: inj_onD)
qed

lemma child_parents:
  assumes "inj_on (reference_of L) (set proofs)" "token_claims L t = Inr c" "claim_proofs c = map (reference_of L) proofs"
  shows "parent_of L proofs t p \<longleftrightarrow> p \<in> set proofs"
  using assms(2,3) proof_map_complete [OF assms(1)] by (auto simp: parent_of_def)

text \<open>
  Delegating keeps a credential anchored. If the parent's envelope passes the check for a
  trusted root and all its tokens can be read, and the signer lists in the new token the references of the
  proofs it is given, then the envelope of the child, with the parent's token and proofs as its proofs and
  the parent's trusted roots, passes the check as well, under the current schema and for the audience it was
  issued to.
\<close>

lemma delegated_credential_anchored:
  assumes child: "issue_child_from_parent_at L S signer parent aud caps lifetime at = Inr child"
    and anchored: "ensure_trusted_root L parent = Inr ()"
    and readable: "\<forall>t\<in>insert (envelope_token parent) (set (envelope_proofs parent)). readable L (envelope_proofs parent) t"
    and lists_proofs: "\<And>proofs bounds token. issue_token S signer aud caps proofs bounds = Inr token \<Longrightarrow>
      \<exists>c i. token_claims L token = Inr c \<and> issuer_did_new L (issuer_did c) = Inr i \<and> claim_proofs c = map (reference_of L) proofs"
    and inj: "inj_on (reference_of L) (insert (envelope_token child) (set (envelope_proofs child)))"
  shows "ensure_trusted_root L child = Inr () \<and> ensure_supported_schema child = Inr () \<and> audience child = aud"
proof -
  let ?proofs = "envelope_token parent # envelope_proofs parent"
  from child obtain bounds token where token: "issue_token S signer aud caps ?proofs bounds = Inr token"
    and c: "child = \<lparr>schema = PUBLIC_CREDENTIAL_SCHEMA_V1, envelope_token = token, envelope_proofs = ?proofs, audience = aud,
       trusted_roots = trusted_roots parent, replay_id = None\<rparr>" by (rule issue_child_ok)
  have inj': "inj_on (reference_of L) (insert token (set ?proofs))" using inj c by simp
  from lists_proofs [OF token] obtain cl i where cl: "token_claims L token = Inr cl" "issuer_did_new L (issuer_did cl) = Inr i"
    "claim_proofs cl = map (reference_of L) ?proofs" by blast
  have pars: "parent_of L ?proofs token p \<longleftrightarrow> p \<in> set ?proofs" for p
    by (rule child_parents [OF inj_on_subset [OF inj'] cl(1,3)]) auto
  have "readable L ?proofs token"
    using cl proof_map_complete [OF inj_on_subset [OF inj'], of ?proofs] unfolding readable_def by auto
  moreover have "readable L ?proofs p" if "p \<in> set ?proofs" for p using that readable by (auto intro: readable_Cons)
  ultimately have readable': "readable L ?proofs a" if "ancestor L ?proofs token a" for a
    using that parent_in_proofs [of L ?proofs] by (metis rtranclp.cases)
  from anchored obtain a where a: "ancestor L (envelope_proofs parent) (envelope_token parent) a"
      "rooted_in L (trusted_roots parent) a" and roots: "trusted_roots parent \<noteq> []"
    using search_found [of L "envelope_proofs parent" "trusted_roots parent" "[envelope_token parent]" "[]"]
    by (auto simp: ensure_trusted_root_ok token_chain_has_trusted_root_def)
  have "ancestor L ?proofs token a"
    using pars [of "envelope_token parent"] ancestor_Cons [OF a(1), of "envelope_token parent"]
    by (auto intro: converse_rtranclp_into_rtranclp)
  with a(2) readable' have "token_chain_has_trusted_root L token ?proofs (trusted_roots parent) = Inr True"
    by (cases rule: trusted_root_search_cases [OF inj', of "trusted_roots parent"]) auto
  then show ?thesis using c roots by (simp add: ensure_trusted_root_ok ensure_supported_schema_def)
qed

section \<open>A small library\<close>

text \<open>Three tokens: the owner's root token 0, its delegation 1, and token 2, issued by somebody else to himself.\<close>

fun small_claims :: "nat \<Rightarrow> claims" where
  "small_claims 0 = \<lparr>issuer_did = ''did:key:owner'', claim_proofs = []\<rparr>"
| "small_claims (Suc 0) = \<lparr>issuer_did = ''did:key:worker'', claim_proofs = [[0]]\<rparr>"
| "small_claims (Suc (Suc n)) = \<lparr>issuer_did = ''did:key:mallory'', claim_proofs = []\<rparr>"

fun small_audience :: "nat \<Rightarrow> did" where
  "small_audience 0 = ''did:key:worker''"
| "small_audience (Suc 0) = ''did:key:peer''"
| "small_audience (Suc (Suc n)) = ''did:key:mallory''"

definition small_reference :: "nat \<Rightarrow> proof_reference" where "small_reference t = [of_nat t]"

definition small_ucan :: "(nat, nat, unit, nat, nat) ucan_lib" where
  "small_ucan = \<lparr>reference_of = small_reference, reference_text = (\<lambda>r. ''ref''), reference_base64 = (\<lambda>r. ''ref''),
     parse_compact_token = Inr, validate_decoded_token = (\<lambda>t. Inr (small_claims t)), issuer_did_new = Inr,
     decode_did_key = (\<lambda>d. Some []), public_key_from_slice = (\<lambda>b. Inr ()),
     verify_with_resolvers = (\<lambda>t now key proofs revoked limits.
       if revoked (small_reference t) = Inr False then Inr t else Inl ''revoked''),
     verified_audience = small_audience, verified_issuer = (\<lambda>t. issuer_did (small_claims t)),
     verified_authorize = (\<lambda>t resource ab. Inr ()), verified_capabilities = (\<lambda>t. [])\<rparr>"

lemma small_ucan_simps [simp]:
  "reference_of small_ucan = small_reference" "token_claims small_ucan t = Inr (small_claims t)"
  "parse_compact_token small_ucan = Inr" "validate_decoded_token small_ucan = (\<lambda>t. Inr (small_claims t))"
  "issuer_did_new small_ucan = Inr" "verified_audience small_ucan = small_audience"
  "verify_with_resolvers small_ucan t now key proofs chk limits =
     (if chk (small_reference t) = Inr False then Inr t else Inl ''revoked'')"
  by (simp_all add: small_ucan_def token_claims_def)

lemma small_ucan_authorize [simp]:
  "verified_authorize small_ucan t resource ab = Inr ()" "verified_capabilities small_ucan t = []"
  "verified_issuer small_ucan t = issuer_did (small_claims t)"
  by (simp_all add: small_ucan_def)

lemma small_search [simp]:
  "token_chain_has_trusted_root small_ucan (Suc 0) [0] [''did:key:owner''] = Inr True"
  "token_chain_has_trusted_root small_ucan 2 [] [''did:key:owner'', ''did:key:mallory''] = Inr True"
  by (simp_all add: token_chain_has_trusted_root_def small_reference_def proof_map_def numeral_2_eq_2)

theorem trusted_root_search_witness:
  "inj_on (reference_of small_ucan) (insert (Suc 0) (set [0])) \<and>
   token_chain_has_trusted_root small_ucan (Suc 0) [0] [''did:key:owner''] = Inr True \<and>
   (\<exists>a. ancestor small_ucan [0] (Suc 0) a \<and> rooted_in small_ucan [''did:key:owner''] a)"
proof -
  have inj: "inj_on (reference_of small_ucan) (insert (Suc 0) (set [0]))" by (simp add: small_reference_def)
  from trusted_root_search [OF inj, of "[''did:key:owner'']"] inj show ?thesis by simp
qed

definition small_signer :: "(nat, unit, unit, unit) signer_lib" where
  "small_signer = \<lparr>signer_issuer = (\<lambda>_. Inr ''did:key:worker''), audience_of_issuer = id, time_bounds = (\<lambda>_ _. Inr ()),
     issue_token = (\<lambda>_ aud _ proofs _. if proofs = [0] then Inr 1 else Inl ''no such token'')\<rparr>"

definition small_parent :: "nat public_credential_envelope" where
  "small_parent = public_credential_new 0 [] ''did:key:worker'' [''did:key:owner'']"

end
