(* ===== verification/Public_Store.thy ===== *)
theory Public_Store
  imports Public_Credential
begin

text \<open>
  The store of public credentials, \<^verbatim>\<open>crates/clankers-ucan/src/public_store.rs\<close>: the credential of each peer,
  the revoked proof references and the admitted replay keys, three tables of a \<^verbatim>\<open>redb\<close> database. A
  transaction that is not committed leaves the tables as they were. Every call to the database may fail: an
  operation takes the messages of the failures it meets, and the first one on its way is its error.
\<close>

section \<open>State\<close>

record store_tables =
  public_auth_tokens :: "string \<rightharpoonup> bytes"
  public_revoked_references :: "proof_reference \<rightharpoonup> u64"
  public_replay :: "string \<rightharpoonup> u64"

definition empty_tables :: store_tables where
  "empty_tables = \<lparr>public_auth_tokens = Map.empty, public_revoked_references = Map.empty, public_replay = Map.empty\<rparr>"

record db_faults =
  fault_begin :: "string option"
  fault_open :: "string option"
  fault_get :: "string option"
  fault_write :: "string option"
  fault_commit :: "string option"

definition no_faults :: db_faults where
  "no_faults = \<lparr>fault_begin = None, fault_open = None, fault_get = None, fault_write = None, fault_commit = None\<rparr>"

datatype replay_admission_status = ReplayNotPresent | ReplayAccepted | ReplayDuplicate

fun replay_status_str :: "replay_admission_status \<Rightarrow> string" where
  "replay_status_str ReplayNotPresent = ''not_present''"
| "replay_status_str ReplayAccepted = ''accepted''"
| "replay_status_str ReplayDuplicate = ''duplicate''"

datatype public_store_error = StoreCredential public_credential_error | StoreBackend string

text \<open>The handle: the tables and the time its events are stamped with.\<close>

record public_store =
  tables :: store_tables
  event_time_seconds :: u64

section \<open>Transactions\<close>

text \<open>The messages of the calls a write transaction makes, in order: begin, open the table, change it, commit.\<close>

definition first_fault :: "string option list \<Rightarrow> string option" where
  "first_fault fs = (case List.map_filter id fs of [] \<Rightarrow> None | m # _ \<Rightarrow> Some m)"

definition write_tx :: "db_faults \<Rightarrow> (store_tables \<Rightarrow> store_tables) \<Rightarrow> public_store \<Rightarrow> (public_store_error + unit) \<times> public_store" where
  "write_tx f change self = (case first_fault [fault_begin f, fault_open f, fault_write f, fault_commit f] of
     Some msg \<Rightarrow> (Inl (StoreBackend msg), self)
   | None \<Rightarrow> (Inr (), self\<lparr>tables := change (tables self)\<rparr>))"

section \<open>Credentials\<close>

definition lookup_credential :: "'tok envelope_codec \<Rightarrow> db_faults \<Rightarrow> public_store \<Rightarrow> string \<Rightarrow> 'tok public_credential_envelope option" where
  "lookup_credential C f self user_id =
     (if first_fault [fault_begin f, fault_open f, fault_get f] \<noteq> None then None
      else case public_auth_tokens (tables self) user_id of
        None \<Rightarrow> None
      | Some bs \<Rightarrow> (case decode_envelope C bs of Inl _ \<Rightarrow> None | Inr e \<Rightarrow> Some e))"

definition store_credential ::
  "'tok envelope_codec \<Rightarrow> db_faults \<Rightarrow> public_store \<Rightarrow> string \<Rightarrow> 'tok public_credential_envelope \<Rightarrow>
   (public_store_error + unit) \<times> public_store" where
  "store_credential C f self user_id envelope = (case encode_envelope C envelope of
     Inl e \<Rightarrow> (Inl (StoreCredential e), self)
   | Inr encoded \<Rightarrow>
       write_tx f (\<lambda>t. t\<lparr>public_auth_tokens := (public_auth_tokens t)(user_id \<mapsto> encoded)\<rparr>) self)"

definition remove_credential :: "db_faults \<Rightarrow> public_store \<Rightarrow> string \<Rightarrow> (public_store_error + unit) \<times> public_store" where
  "remove_credential f self user_id =
     write_tx f (\<lambda>t. t\<lparr>public_auth_tokens := (public_auth_tokens t)(user_id := None)\<rparr>) self"

section \<open>Revocation\<close>

definition revoke_reference :: "db_faults \<Rightarrow> public_store \<Rightarrow> proof_reference \<Rightarrow> (public_store_error + unit) \<times> public_store" where
  "revoke_reference f self r = write_tx f
     (\<lambda>t. t\<lparr>public_revoked_references := (public_revoked_references t)(r \<mapsto> event_time_seconds self)\<rparr>) self"

definition store_is_revoked :: "db_faults \<Rightarrow> public_store \<Rightarrow> revocation_checker" where
  "store_is_revoked f self r = (case first_fault [fault_begin f, fault_open f, fault_get f] of
     Some msg \<Rightarrow> Inl msg | None \<Rightarrow> Inr (public_revoked_references (tables self) r \<noteq> None))"

section \<open>Replay\<close>

text \<open>A duplicate key returns before the transaction commits.\<close>

definition insert_replay_key ::
  "db_faults \<Rightarrow> public_store \<Rightarrow> string \<Rightarrow> (public_store_error + replay_admission_status) \<times> public_store" where
  "insert_replay_key f self key = (case first_fault [fault_begin f, fault_open f, fault_get f] of
     Some msg \<Rightarrow> (Inl (StoreBackend msg), self)
   | None \<Rightarrow>
       if public_replay (tables self) key \<noteq> None then (Inr ReplayDuplicate, self)
       else case first_fault [fault_write f, fault_commit f] of
         Some msg \<Rightarrow> (Inl (StoreBackend msg), self)
       | None \<Rightarrow> (Inr ReplayAccepted, self\<lparr>tables := (tables self)\<lparr>public_replay :=
             (public_replay (tables self))(key \<mapsto> event_time_seconds self)\<rparr>\<rparr>))"

definition credential_replay_key :: "string \<Rightarrow> string \<Rightarrow> string" where
  "credential_replay_key reference rid = ''credential:'' @ reference @ '':'' @ rid"

definition invocation_replay_key :: "string \<Rightarrow> string \<Rightarrow> string \<Rightarrow> string" where
  "invocation_replay_key reference resource ab = ''invocation:'' @ reference @ '':'' @ resource @ '':'' @ ab"

definition admit_credential_replay ::
  "('tok, 'dec, 'key, 'time, 'ver) ucan_lib \<Rightarrow> db_faults \<Rightarrow> public_store \<Rightarrow> 'tok public_credential_envelope \<Rightarrow>
   (public_store_error + replay_admission_status) \<times> public_store" where
  "admit_credential_replay L f self envelope = (case replay_id envelope of
     None \<Rightarrow> (Inr ReplayNotPresent, self)
   | Some rid \<Rightarrow>
       insert_replay_key f self (credential_replay_key (reference_text L (token_reference L envelope)) rid))"

datatype replay_admission_error = DuplicateInvocation proof_reference | ReplayBackend proof_reference public_store_error

definition admit_invocation ::
  "('tok, 'dec, 'key, 'time, 'ver) ucan_lib \<Rightarrow> db_faults \<Rightarrow> public_store \<Rightarrow> proof_reference \<Rightarrow> string \<Rightarrow> string \<Rightarrow>
   (replay_admission_error + unit) \<times> public_store" where
  "admit_invocation L f self reference resource ab =
     (case insert_replay_key f self (invocation_replay_key (reference_text L reference) resource ab) of
       (Inr ReplayAccepted, self') \<Rightarrow> (Inr (), self')
     | (Inr ReplayNotPresent, self') \<Rightarrow> (Inr (), self')
     | (Inr ReplayDuplicate, self') \<Rightarrow> (Inl (DuplicateInvocation reference), self')
     | (Inl e, self') \<Rightarrow> (Inl (ReplayBackend reference e), self'))"

section \<open>Operations\<close>

datatype 'tok store_op =
    DoStore string "'tok public_credential_envelope"
  | DoRemove string
  | DoRevoke proof_reference
  | DoAdmit "'tok public_credential_envelope"
  | DoInvoke proof_reference string string

fun store_do ::
  "('tok, 'dec, 'key, 'time, 'ver) ucan_lib \<Rightarrow> 'tok envelope_codec \<Rightarrow> public_store \<Rightarrow> db_faults \<times> 'tok store_op \<Rightarrow> public_store" where
  "store_do L C s (f, DoStore user_id envelope) = snd (store_credential C f s user_id envelope)"
| "store_do L C s (f, DoRemove user_id) = snd (remove_credential f s user_id)"
| "store_do L C s (f, DoRevoke r) = snd (revoke_reference f s r)"
| "store_do L C s (f, DoAdmit envelope) = snd (admit_credential_replay L f s envelope)"
| "store_do L C s (f, DoInvoke r resource ab) = snd (admit_invocation L f s r resource ab)"

section \<open>The store only learns\<close>

text \<open>No operation forgets a revocation or an admission, and none changes the time of the handle.\<close>

definition learns :: "public_store \<Rightarrow> public_store \<Rightarrow> bool" where
  "learns s s' \<longleftrightarrow>
     dom (public_revoked_references (tables s)) \<subseteq> dom (public_revoked_references (tables s')) \<and>
     dom (public_replay (tables s)) \<subseteq> dom (public_replay (tables s')) \<and>
     event_time_seconds s' = event_time_seconds s"

lemma learns_refl [simp, intro]: "learns s s" by (simp add: learns_def)

lemma learns_trans: "learns a b \<Longrightarrow> learns b c \<Longrightarrow> learns a c" unfolding learns_def by (metis subset_trans)

lemma learns_write_tx:
  "(\<And>t. dom (public_revoked_references t) \<subseteq> dom (public_revoked_references (change t)) \<and>
     dom (public_replay t) \<subseteq> dom (public_replay (change t))) \<Longrightarrow> learns s (snd (write_tx f change s))"
  by (auto simp: write_tx_def learns_def split: option.splits)

lemma learns_insert_replay_key: "learns s (snd (insert_replay_key f s k))"
  by (auto simp: insert_replay_key_def learns_def split: option.splits)

lemma learns_store_do: "learns s (store_do L C s x)"
proof -
  obtain f op where x: "x = (f, op)" by (cases x)
  show ?thesis
  proof (cases op)
    case (DoStore u e)
    then show ?thesis using x by (auto simp: store_credential_def split: sum.splits intro!: learns_write_tx)
  next
    case (DoAdmit e)
    then show ?thesis using x learns_insert_replay_key by (auto simp: admit_credential_replay_def split: option.splits)
  next
    case (DoInvoke r resource ab)
    then show ?thesis using x learns_insert_replay_key [of s f "invocation_replay_key (reference_text L r) resource ab"]
      by (auto simp: admit_invocation_def split: prod.splits sum.splits replay_admission_status.splits)
  qed (use x in \<open>auto simp: remove_credential_def revoke_reference_def intro!: learns_write_tx\<close>)
qed

lemma learns_run: "learns s (foldl (store_do L C) s ops)"
  by (induction ops arbitrary: s) (auto intro: learns_trans learns_store_do)

lemma first_fault_none [simp]:
  "first_fault [fault_begin no_faults, fault_open no_faults, fault_get no_faults] = None"
  "first_fault [fault_write no_faults, fault_commit no_faults] = None"
  "first_fault [fault_begin no_faults, fault_open no_faults, fault_write no_faults, fault_commit no_faults] = None"
  by (simp_all add: no_faults_def first_fault_def List.map_filter_simps)

lemma revoked_iff: "store_is_revoked f s r = Inr True \<longrightarrow> r \<in> dom (public_revoked_references (tables s))"
  by (auto simp: store_is_revoked_def split: option.splits)

lemma revoke_recorded: "revoke_reference f s r = (Inr (), s') \<Longrightarrow> r \<in> dom (public_revoked_references (tables s'))"
  by (auto simp: revoke_reference_def write_tx_def split: option.splits)

lemma revoked_known: "r \<in> dom (public_revoked_references (tables s)) \<Longrightarrow> store_is_revoked f s r \<noteq> Inr False"
  by (auto simp: store_is_revoked_def split: option.splits)

lemma insert_replay_recorded:
  "insert_replay_key f s k = (Inr ReplayAccepted, s') \<Longrightarrow> k \<in> dom (public_replay (tables s'))"
  by (auto simp: insert_replay_key_def split: option.splits if_splits)

lemma replay_known: "k \<in> dom (public_replay (tables s)) \<Longrightarrow> fst (insert_replay_key f s k) \<noteq> Inr ReplayAccepted"
  by (auto simp: insert_replay_key_def split: option.splits)

text \<open>Keys of different kinds never meet, and keys of credentials are kept apart by reference and replay id.\<close>

lemma replay_keys_disjoint: "credential_replay_key a b \<noteq> invocation_replay_key c d e"
proof
  assume "credential_replay_key a b = invocation_replay_key c d e"
  then have "hd (credential_replay_key a b) = hd (invocation_replay_key c d e)" by (rule arg_cong)
  then show False by (simp add: credential_replay_key_def invocation_replay_key_def)
qed

lemma credential_replay_key_inj:
  assumes "CHR '':'' \<notin> set a" "CHR '':'' \<notin> set c" "credential_replay_key a b = credential_replay_key c d"
  shows "a = c \<and> b = d"
proof (rule append_separator_eq [OF assms(1,2)])
  show "a @ CHR '':'' # b = c @ CHR '':'' # d"
    using assms(3) unfolding credential_replay_key_def same_append_eq by simp
qed

lemma still_revoked:
  assumes "revoke_reference f s r = (Inr (), s')" "learns s' t"
  shows "store_is_revoked f' t r \<noteq> Inr False"
  using revoke_recorded [OF assms(1)] assms(2) by (intro revoked_known) (auto simp: learns_def)

lemma still_replayed:
  assumes a: "admit_credential_replay L f s e = (Inr ReplayAccepted, s')" and e': "replay_id e' = replay_id e"
    "token_reference L e' = token_reference L e" and l: "learns s' t"
  shows "fst (admit_credential_replay L f' t e') \<noteq> Inr ReplayAccepted"
proof -
  from a obtain rid where rid: "replay_id e = Some rid"
    "insert_replay_key f s (credential_replay_key (reference_text L (token_reference L e)) rid) = (Inr ReplayAccepted, s')"
    by (auto simp: admit_credential_replay_def split: option.splits)
  have "credential_replay_key (reference_text L (token_reference L e)) rid \<in> dom (public_replay (tables t))"
    using insert_replay_recorded [OF rid(2)] l by (auto simp: learns_def)
  from replay_known [OF this] show ?thesis using e' rid by (simp add: admit_credential_replay_def)
qed

definition small_store :: public_store where
  "small_store = \<lparr>tables = empty_tables, event_time_seconds = 7\<rparr>"

text \<open>
  The store never forgets what it must remember. After a revocation that succeeded, no check of
  that reference answers that it is not revoked; after an admission that was accepted, no credential with the
  same reference and replay id is accepted again. Both hold after any sequence of store operations, failing
  ones included, and whatever calls of the database fail in the later check.
\<close>

lemma store_remembers:
  "(revoke_reference f s r = (Inr (), s') \<longrightarrow> store_is_revoked f' (foldl (store_do L C) s' ops) r \<noteq> Inr False) \<and>
   (admit_credential_replay L f s e = (Inr ReplayAccepted, s') \<and> replay_id e' = replay_id e \<and>
     token_reference L e' = token_reference L e \<longrightarrow>
     fst (admit_credential_replay L f' (foldl (store_do L C) s' ops) e') \<noteq> Inr ReplayAccepted)"
  using still_revoked [OF _ learns_run] still_replayed [OF _ _ _ learns_run] by blast

end
