(* ===== verification/Basalt_Authority.thy ===== *)
theory Basalt_Authority
  imports Public_Store
begin

text \<open>
  Admission of public credentials: the authority of \<^verbatim>\<open>crates/clankers-ucan/src/basalt_authority.rs\<close>, which
  asks the \<^verbatim>\<open>ucan\<close> verification and then the Basalt policy about one request, and the \<^verbatim>\<open>AuthLayer\<close> of
  the daemon in \<^verbatim>\<open>src/modes/daemon/session_store.rs\<close>, which calls it for remote peers. The
  \<^verbatim>\<open>basalt\<close> crate is a parameter. The text of a receipt's reason is kept as a value.
\<close>

section \<open>Requests and receipts\<close>

record admission_request =
  contract :: string
  resource :: string
  request_ability :: string

datatype receipt_reason =
    VerificationDenied public_credential_error
  | ReplayAdmissionError public_store_error
  | DuplicateReplayId
  | UcanDenied string
  | PolicyError string
  | AllowedByPolicy
  | PolicyDenied string

record admission_receipt =
  receipt_schema :: string
  allowed :: bool
  reason :: receipt_reason
  receipt_policy_hash :: string
  receipt_contract :: string
  receipt_resource :: string
  receipt_ability :: string
  receipt_token_reference :: string
  receipt_audience :: did
  receipt_issuer :: "did option"
  receipt_trusted_roots :: "did list"
  receipt_replay_id :: "string option"
  replay_status :: string
  revocation_status :: string
  basalt_reason :: "string option"

definition BASALT_UCAN_RECEIPT_SCHEMA_V1 :: string where
  "BASALT_UCAN_RECEIPT_SCHEMA_V1 = ''clankers.ucan-basalt.receipt.v1''"

section \<open>Policy\<close>

record enforcement_request =
  er_contract :: string
  er_resource :: string
  er_ability :: string
  er_capabilities :: "(string \<times> string) list"

record 'pol basalt_lib =
  policy_to_vec :: "'pol \<Rightarrow> string + bytes"
  blake3_hex :: "bytes \<Rightarrow> string"
  enforce :: "'pol \<Rightarrow> enforcement_request \<Rightarrow> string + (bool \<times> string)"

definition policy_hash :: "'pol basalt_lib \<Rightarrow> 'pol \<Rightarrow> string" where
  "policy_hash B policy = (case policy_to_vec B policy of
     Inr bs \<Rightarrow> ''blake3:'' @ blake3_hex B bs
   | Inl error \<Rightarrow> ''unhashable-policy:'' @ error)"

text \<open>The contracts of the daemon's policy: identifier, resource prefixes, abilities.\<close>

definition CLANKERS_DAEMON_AUTH_POLICY :: "(string \<times> string list \<times> string list) list" where
  "CLANKERS_DAEMON_AUTH_POLICY =
     [(''session-create'', [''clankers:daemon/''], [''session/create'']),
      (''session-attach'', [''clankers:session/''], [''session/attach'']),
      (''session-prompt'', [''clankers:session/''], [''session/prompt'']),
      (''session-manage'', [''clankers:session/''], [''session/manage'']),
      (''tool-use'', [''clankers:tool/''], [''tool/use'']),
      (''file-read'', [''clankers:file:''], [''file/read'']),
      (''file-write'', [''clankers:file:''], [''file/write'']),
      (''shell-execute'', [''clankers:shell:''], [''shell/execute'']),
      (''process-action'', [''clankers:process/''],
        [''process/observe'', ''process/start'', ''process/mutate'', ''process/stdin'', ''process/logs'']),
      (''model-use'', [''clankers:model/''], [''model/use''])]"

section \<open>The authority\<close>

record receipt_context =
  rc_token_reference :: string
  rc_audience :: did
  rc_issuer :: "did option"
  rc_trusted_roots :: "did list"
  rc_replay_id :: "string option"
  rc_replay_status :: string
  rc_revocation_status :: string

definition receipt_context_new ::
  "('tok, 'dec, 'key, 'time, 'ver) ucan_lib \<Rightarrow> 'tok public_credential_envelope \<Rightarrow> receipt_context" where
  "receipt_context_new L envelope =
     \<lparr>rc_token_reference = reference_text L (token_reference L envelope), rc_audience = audience envelope,
      rc_issuer = None, rc_trusted_roots = trusted_roots envelope, rc_replay_id = replay_id envelope,
      rc_replay_status = (if replay_id envelope \<noteq> None then ''not_checked'' else ''not_present''),
      rc_revocation_status = ''not_checked''\<rparr>"

definition receipt ::
  "'pol basalt_lib \<Rightarrow> 'pol \<Rightarrow> bool \<Rightarrow> receipt_reason \<Rightarrow> string option \<Rightarrow> admission_request \<Rightarrow> receipt_context \<Rightarrow> admission_receipt" where
  "receipt B policy ok why basalt request context =
     \<lparr>receipt_schema = BASALT_UCAN_RECEIPT_SCHEMA_V1, allowed = ok, reason = why,
      receipt_policy_hash = policy_hash B policy, receipt_contract = contract request,
      receipt_resource = resource request, receipt_ability = request_ability request,
      receipt_token_reference = rc_token_reference context, receipt_audience = rc_audience context,
      receipt_issuer = rc_issuer context, receipt_trusted_roots = rc_trusted_roots context,
      receipt_replay_id = rc_replay_id context, replay_status = rc_replay_status context,
      revocation_status = rc_revocation_status context, basalt_reason = basalt\<rparr>"

definition authorize_verified ::
  "('tok, 'dec, 'key, 'time, 'ver) ucan_lib \<Rightarrow> 'pol basalt_lib \<Rightarrow> 'pol \<Rightarrow> 'ver \<Rightarrow> admission_request \<Rightarrow>
   receipt_context \<Rightarrow> admission_receipt" where
  "authorize_verified L B policy verified request context =
     (let context' = context\<lparr>rc_issuer := Some (verified_issuer L verified)\<rparr>
      in case verified_authorize L verified (resource request) (request_ability request) of
        Inl decision \<Rightarrow> receipt B policy False (UcanDenied decision) None request context'
      | Inr _ \<Rightarrow> (case enforce B policy
            \<lparr>er_contract = contract request, er_resource = resource request, er_ability = request_ability request,
             er_capabilities = verified_capabilities L verified\<rparr> of
          Inl error \<Rightarrow> receipt B policy False (PolicyError error) (Some error) request context'
        | Inr (is_allowed, why) \<Rightarrow> receipt B policy is_allowed
            (if is_allowed then AllowedByPolicy else PolicyDenied why) (Some why) request context'))"

definition authorize_with_revocations ::
  "('tok, 'dec, 'key, 'time, 'ver) ucan_lib \<Rightarrow> 'pol basalt_lib \<Rightarrow> 'pol \<Rightarrow> 'tok public_credential_envelope \<Rightarrow> 'time \<Rightarrow>
   revocation_checker \<Rightarrow> admission_request \<Rightarrow> admission_receipt" where
  "authorize_with_revocations L B policy envelope time revocations request =
     (let context = (receipt_context_new L envelope)\<lparr>rc_revocation_status := ''checked''\<rparr>
      in case verify_with_did_keys_and_revocations L envelope time revocations of
        Inl error \<Rightarrow> receipt B policy False (VerificationDenied error) None request context
      | Inr verified \<Rightarrow> authorize_verified L B policy verified request context)"

text \<open>Each check of a reference reads the store and may meet failures of its own.\<close>

type_synonym check_faults = "proof_reference \<Rightarrow> db_faults"

definition store_checker :: "check_faults \<Rightarrow> public_store \<Rightarrow> revocation_checker" where
  "store_checker f store r = store_is_revoked (f r) store r"

definition authorize_with_store ::
  "('tok, 'dec, 'key, 'time, 'ver) ucan_lib \<Rightarrow> 'pol basalt_lib \<Rightarrow> 'pol \<Rightarrow> check_faults \<Rightarrow> db_faults \<Rightarrow>
   'tok public_credential_envelope \<Rightarrow> 'time \<Rightarrow> public_store \<Rightarrow> admission_request \<Rightarrow> admission_receipt \<times> public_store" where
  "authorize_with_store L B policy f f' envelope time store request =
     (let context = (receipt_context_new L envelope)\<lparr>rc_revocation_status := ''checked''\<rparr>
      in case verify_with_did_keys_and_revocations L envelope time (store_checker f store) of
        Inl error \<Rightarrow> (receipt B policy False (VerificationDenied error) None request context, store)
      | Inr verified \<Rightarrow> (case admit_credential_replay L f' store envelope of
          (Inl error, store') \<Rightarrow>
            (receipt B policy False (ReplayAdmissionError error) None request
               (context\<lparr>rc_replay_status := ''backend_error''\<rparr>), store')
        | (Inr status, store') \<Rightarrow>
            if status = ReplayDuplicate then
              (receipt B policy False DuplicateReplayId None request (context\<lparr>rc_replay_status := ''duplicate''\<rparr>), store')
            else (authorize_verified L B policy verified request
              (context\<lparr>rc_replay_status := replay_status_str status\<rparr>), store')))"

section \<open>The daemon\<close>

definition session_create_admission_request :: admission_request where
  "session_create_admission_request =
     \<lparr>contract = ''session-create'', resource = ''clankers:daemon/remote/session'', request_ability = ''session/create''\<rparr>"

definition session_attach_admission_request :: "string \<Rightarrow> admission_request" where
  "session_attach_admission_request session_id =
     \<lparr>contract = ''session-attach'', resource = ''clankers:session/'' @ session_id, request_ability = ''session/attach''\<rparr>"

definition session_prompt_admission_request :: "string \<Rightarrow> admission_request" where
  "session_prompt_admission_request session_id =
     \<lparr>contract = ''session-prompt'', resource = ''clankers:session/'' @ session_id, request_ability = ''session/prompt''\<rparr>"

definition session_manage_admission_request :: "string \<Rightarrow> admission_request" where
  "session_manage_admission_request session_id =
     \<lparr>contract = ''session-manage'', resource = ''clankers:session/'' @ session_id, request_ability = ''session/manage''\<rparr>"

text \<open>The libraries the daemon uses and its clock; \<open>owner_issuer\<close> is the result of \<open>issuer()\<close> on its own signer.\<close>

record ('tok, 'dec, 'key, 'time, 'ver, 'pol) auth_libs =
  e_ucan :: "('tok, 'dec, 'key, 'time, 'ver) ucan_lib"
  e_basalt :: "'pol basalt_lib"
  e_codec :: "'tok envelope_codec"
  e_clock :: "string + 'time"

record 'pol auth_layer =
  public_store :: public_store
  policy :: 'pol
  owner_issuer :: "public_issuer_error + did"

datatype auth_error =
    OwnerIssuer public_issuer_error
  | UntrustedOwnerRoot did
  | ClockError string
  | ReceiptDenied receipt_reason
  | InvalidEncoding public_credential_error

definition verify_with_replay_policy ::
  "('tok, 'dec, 'key, 'time, 'ver, 'pol) auth_libs \<Rightarrow> check_faults \<Rightarrow> db_faults \<Rightarrow> 'pol auth_layer \<Rightarrow>
   'tok public_credential_envelope \<Rightarrow> admission_request \<Rightarrow> bool \<Rightarrow> (auth_error + admission_receipt) \<times> 'pol auth_layer" where
  "verify_with_replay_policy E f f' self cred request admit_replay = (case owner_issuer self of
     Inl error \<Rightarrow> (Inl (OwnerIssuer error), self)
   | Inr owner_root \<Rightarrow>
       if \<not> list_ex (\<lambda>root. root = owner_root) (trusted_roots cred) then (Inl (UntrustedOwnerRoot owner_root), self)
       else case e_clock E of
         Inl error \<Rightarrow> (Inl (ClockError error), self)
       | Inr time \<Rightarrow>
           let (r, store') = (if admit_replay
                 then authorize_with_store (e_ucan E) (e_basalt E) (policy self) f f' cred time (public_store self) request
                 else (authorize_with_revocations (e_ucan E) (e_basalt E) (policy self) cred time
                         (store_checker f (public_store self)) request, public_store self))
           in (if allowed r then Inr r else Inl (ReceiptDenied (reason r)), self\<lparr>public_store := store'\<rparr>))"

definition verify_credential where
  "verify_credential E f f' self cred request = verify_with_replay_policy E f f' self cred request True"

definition verify_credential_base64 ::
  "('tok, 'dec, 'key, 'time, 'ver, 'pol) auth_libs \<Rightarrow> check_faults \<Rightarrow> db_faults \<Rightarrow> 'pol auth_layer \<Rightarrow> string \<Rightarrow>
   admission_request \<Rightarrow> (auth_error + 'tok public_credential_envelope \<times> admission_receipt) \<times> 'pol auth_layer" where
  "verify_credential_base64 E f f' self token_b64 request = (case envelope_from_base64 (e_codec E) token_b64 of
     Inl error \<Rightarrow> (Inl (InvalidEncoding error), self)
   | Inr credential \<Rightarrow> (case verify_credential E f f' self credential request of
       (Inl error, self') \<Rightarrow> (Inl error, self')
     | (Inr r, self') \<Rightarrow> (Inr (credential, r), self')))"

definition verify_stored_credential where
  "verify_stored_credential E f self cred request = verify_with_replay_policy E f no_faults self cred request False"

text \<open>The lookup and the checks of the stored credential are separate reads of the database.\<close>

definition resolve_credential ::
  "('tok, 'dec, 'key, 'time, 'ver, 'pol) auth_libs \<Rightarrow> db_faults \<Rightarrow> check_faults \<Rightarrow> 'pol auth_layer \<Rightarrow> string \<Rightarrow>
   admission_request \<Rightarrow> (auth_error + 'tok public_credential_envelope) option" where
  "resolve_credential E f f' self user_id request =
     (case lookup_credential (e_codec E) f (public_store self) user_id of
       None \<Rightarrow> None
     | Some cred \<Rightarrow> Some (map_sum id (\<lambda>_. cred) (fst (verify_stored_credential E f' self cred request))))"

definition layer_store_credential ::
  "('tok, 'dec, 'key, 'time, 'ver, 'pol) auth_libs \<Rightarrow> db_faults \<Rightarrow> 'pol auth_layer \<Rightarrow> string \<Rightarrow>
   'tok public_credential_envelope \<Rightarrow> 'pol auth_layer" where
  "layer_store_credential E f self user_id cred =
     self\<lparr>public_store := snd (store_credential (e_codec E) f (public_store self) user_id cred)\<rparr>"

section \<open>Who is admitted\<close>

definition enforcement_of ::
  "('tok, 'dec, 'key, 'time, 'ver) ucan_lib \<Rightarrow> 'ver \<Rightarrow> admission_request \<Rightarrow> enforcement_request" where
  "enforcement_of L v request =
     \<lparr>er_contract = contract request, er_resource = resource request, er_ability = request_ability request,
      er_capabilities = verified_capabilities L v\<rparr>"

definition grants ::
  "('tok, 'dec, 'key, 'time, 'ver) ucan_lib \<Rightarrow> 'pol basalt_lib \<Rightarrow> 'pol \<Rightarrow> 'ver \<Rightarrow> admission_request \<Rightarrow> bool" where
  "grants L B pol v request \<longleftrightarrow> verified_authorize L v (resource request) (request_ability request) = Inr () \<and>
     (\<exists>why. enforce B pol (enforcement_of L v request) = Inr (True, why))"

lemma allowed_receipt [simp]: "allowed (receipt B pol ok why basalt request context) = ok"
  by (simp add: receipt_def)

lemma allowed_verified: "allowed (authorize_verified L B pol v request context) \<longleftrightarrow> grants L B pol v request"
  by (auto simp: authorize_verified_def grants_def enforcement_of_def Let_def split: sum.splits)

lemma allowed_with_revocations:
  "allowed (authorize_with_revocations L B pol cred time chk request) \<longleftrightarrow>
     (\<exists>v. verify_with_did_keys_and_revocations L cred time chk = Inr v \<and> grants L B pol v request)"
  by (auto simp: authorize_with_revocations_def Let_def allowed_verified split: sum.splits)

lemma allowed_with_store:
  "allowed (fst (authorize_with_store L B pol f f' cred time store request)) \<longleftrightarrow>
     (\<exists>v. verify_with_did_keys_and_revocations L cred time (store_checker f store) = Inr v \<and> grants L B pol v request) \<and>
     fst (admit_credential_replay L f' store cred) \<in> {Inr ReplayNotPresent, Inr ReplayAccepted}"
  by (auto simp: authorize_with_store_def Let_def allowed_verified split: sum.splits prod.splits)
     (metis replay_admission_status.exhaust)

lemma store_after:
  "snd (authorize_with_store L B pol f f' cred time store request) =
     (case verify_with_did_keys_and_revocations L cred time (store_checker f store) of
        Inl _ \<Rightarrow> store | Inr _ \<Rightarrow> snd (admit_credential_replay L f' store cred))"
  by (auto simp: authorize_with_store_def Let_def split: sum.splits prod.splits)

definition admissible ::
  "('tok, 'dec, 'key, 'time, 'ver, 'pol) auth_libs \<Rightarrow> check_faults \<Rightarrow> 'pol auth_layer \<Rightarrow> 'tok public_credential_envelope \<Rightarrow>
   admission_request \<Rightarrow> bool" where
  "admissible E f self cred request \<longleftrightarrow>
     (\<exists>owner time v. owner_issuer self = Inr owner \<and> owner \<in> set (trusted_roots cred) \<and> e_clock E = Inr time \<and>
        verify_with_did_keys_and_revocations (e_ucan E) cred time (store_checker f (public_store self)) = Inr v \<and>
        grants (e_ucan E) (e_basalt E) (policy self) v request)"

lemma verify_admits:
  "(\<exists>r. fst (verify_with_replay_policy E f f' self cred request admit) = Inr r) \<longleftrightarrow>
     admissible E f self cred request \<and>
     (admit \<longrightarrow> fst (admit_credential_replay (e_ucan E) f' (public_store self) cred) \<in> {Inr ReplayNotPresent, Inr ReplayAccepted})"
proof (cases "owner_issuer self")
  case (Inr owner)
  show ?thesis
  proof (cases "owner \<in> set (trusted_roots cred)")
    case True
    then show ?thesis
      using Inr by (auto simp: verify_with_replay_policy_def admissible_def allowed_with_revocations allowed_with_store
          list_ex_iff prod.case_eq_if split: sum.splits)
  qed (use Inr in \<open>auto simp: verify_with_replay_policy_def admissible_def list_ex_iff\<close>)
qed (auto simp: verify_with_replay_policy_def admissible_def)

lemma receipt_of_verified:
  "r = authorize_verified L B pol v request context \<Longrightarrow>
   receipt_contract r = contract request \<and> receipt_resource r = resource request \<and> receipt_ability r = request_ability request"
  by (auto simp: authorize_verified_def receipt_def Let_def split: sum.splits)

lemma receipt_describes:
  assumes "fst (verify_with_replay_policy E f f' self cred request admit) = Inr r"
  shows "receipt_contract r = contract request \<and> receipt_resource r = resource request \<and> receipt_ability r = request_ability request"
proof -
  from assms obtain v ctx where "r = authorize_verified (e_ucan E) (e_basalt E) (policy self) v request ctx"
    by (auto simp: verify_with_replay_policy_def authorize_with_revocations_def authorize_with_store_def Let_def receipt_def
        prod.case_eq_if split: sum.splits if_splits)
  then show ?thesis by (rule receipt_of_verified)
qed

lemma admitted: "fst (verify_with_replay_policy E f f' self cred request admit) = Inr r \<Longrightarrow>
  admissible E f self cred request \<and>
     (admit \<longrightarrow> fst (admit_credential_replay (e_ucan E) f' (public_store self) cred) \<in> {Inr ReplayNotPresent, Inr ReplayAccepted})"
  using verify_admits [of E f f' self cred request admit] by blast

lemma store_of_verify:
  assumes "fst (verify_with_replay_policy E f f' self cred request True) = Inr r"
  shows "public_store (snd (verify_with_replay_policy E f f' self cred request True)) =
     snd (admit_credential_replay (e_ucan E) f' (public_store self) cred)"
proof -
  from admitted [OF assms] obtain owner time v where a: "owner_issuer self = Inr owner" "owner \<in> set (trusted_roots cred)"
    "e_clock E = Inr time" "verify_with_did_keys_and_revocations (e_ucan E) cred time (store_checker f (public_store self)) = Inr v"
    by (auto simp: admissible_def)
  then show ?thesis
    by (simp add: verify_with_replay_policy_def list_ex_iff prod.case_eq_if store_after)
qed

text \<open>
  C18 (safety). What admission establishes. A request of a peer is admitted only when the daemon's own root is
  among the roots its credential names, the credential verifies at the current time with the store's
  revocations and the fixed limits, its token is addressed to the audience of the envelope, an ancestor of
  the token is a root whose issuer the credential names as trusted, the verified token authorizes exactly
  the requested resource and ability, and the policy allows that request for the capabilities of the
  token; the receipt names the same contract, resource and ability. A replay id must be fresh.
\<close>

theorem admitted_credential_checked:
  assumes "fst (verify_credential E f f' self cred request) = Inr r"
  shows "(\<exists>owner time v. owner_issuer self = Inr owner \<and> owner \<in> set (trusted_roots cred) \<and> e_clock E = Inr time \<and>
      schema cred = PUBLIC_CREDENTIAL_SCHEMA_V1 \<and>
      verify_with_resolvers (e_ucan E) (envelope_token cred) time (resolve_did_key (e_ucan E)) (envelope_proofs cred)
        (store_checker f (public_store self)) public_ucan_verification_limits = Inr v \<and>
      verified_audience (e_ucan E) v = audience cred \<and> grants (e_ucan E) (e_basalt E) (policy self) v request) \<and>
    (\<exists>a. ancestor (e_ucan E) (envelope_proofs cred) (envelope_token cred) a \<and> rooted_in (e_ucan E) (trusted_roots cred) a) \<and>
    (\<forall>rid. replay_id cred = Some rid \<longrightarrow> credential_replay_key (reference_text (e_ucan E) (token_reference (e_ucan E) cred)) rid
      \<notin> dom (public_replay (tables (public_store self)))) \<and>
    receipt_contract r = contract request \<and> receipt_resource r = resource request \<and> receipt_ability r = request_ability request"
proof -
  note ok = assms [unfolded verify_credential_def]
  from admitted [OF ok] obtain owner time v where a: "owner_issuer self = Inr owner" "owner \<in> set (trusted_roots cred)"
    "e_clock E = Inr time" "verify_with_did_keys_and_revocations (e_ucan E) cred time (store_checker f (public_store self)) = Inr v"
    "grants (e_ucan E) (e_basalt E) (policy self) v request"
    and fresh: "fst (admit_credential_replay (e_ucan E) f' (public_store self) cred) \<in> {Inr ReplayNotPresent, Inr ReplayAccepted}"
    by (auto simp: admissible_def)
  have "credential_replay_key (reference_text (e_ucan E) (token_reference (e_ucan E) cred)) rid \<notin> dom (public_replay (tables (public_store self)))"
    if "replay_id cred = Some rid" for rid
    using fresh that replay_known [of _ "public_store self" f'] by (auto simp: admit_credential_replay_def insert_replay_key_def split: option.splits if_splits)
  with a verified_anchored [OF a(4)] receipt_describes [OF ok] show ?thesis by (auto simp: verify_ok)
qed

text \<open>The signature check of a token asks whether its own reference was revoked.\<close>

definition checks_revocation :: "('tok, 'dec, 'key, 'time, 'ver) ucan_lib \<Rightarrow> bool" where
  "checks_revocation L \<longleftrightarrow> (\<forall>t time key proofs chk limits v.
     verify_with_resolvers L t time key proofs chk limits = Inr v \<longrightarrow> chk (reference_of L t) = Inr False)"

lemma revoked_not_admitted:
  assumes "checks_revocation (e_ucan E)" "token_reference (e_ucan E) cred \<in> dom (public_revoked_references (tables (public_store self)))"
  shows "fst (verify_with_replay_policy E f f' self cred request admit) \<noteq> Inr r"
proof
  assume "fst (verify_with_replay_policy E f f' self cred request admit) = Inr r"
  from admitted [OF this] obtain time v where "verify_with_resolvers (e_ucan E) (envelope_token cred) time
      (resolve_did_key (e_ucan E)) (envelope_proofs cred) (store_checker f (public_store self))
      public_ucan_verification_limits = Inr v" by (auto simp: admissible_def verify_ok)
  with assms(1) have "store_checker f (public_store self) (token_reference (e_ucan E) cred) = Inr False"
    unfolding checks_revocation_def token_reference_def by blast
  with revoked_known [OF assms(2)] show False by (simp add: store_checker_def)
qed

text \<open>
  C8 (safety). Revoked and replayed credentials stay out. Once a revocation of a credential's token has been
  written, no later request with that token is admitted, with or without replay admission; once a request
  with a replay id has been admitted, no later request with the same token and replay id is admitted
  again. The later request may come at any other time and under another policy, and its envelope may differ in everything but the token
  (and the replay id). Any operations on the store may come in between and any calls of the database may fail.
  The signature check of the library is taken to ask about the token's own reference, as it documents.
\<close>

theorem revoked_or_replayed_denied:
  assumes law: "checks_revocation (e_ucan E)"
    and same: "e_ucan E' = e_ucan E" "envelope_token cred' = envelope_token cred"
  shows "(revoke_reference g s (token_reference (e_ucan E) cred) = (Inr (), s') \<and>
      public_store self = foldl (store_do (e_ucan E) C) s' ops \<longrightarrow>
      (\<nexists>r. fst (verify_with_replay_policy E' f f' self cred' request admit) = Inr r)) \<and>
    (fst (verify_credential E h g self\<^sub>0 cred request\<^sub>0) = Inr r\<^sub>0 \<and> replay_id cred \<noteq> None \<and> replay_id cred' = replay_id cred \<and>
      public_store self = foldl (store_do (e_ucan E) C) (public_store (snd (verify_credential E h g self\<^sub>0 cred request\<^sub>0))) ops \<longrightarrow>
      (\<nexists>r. fst (verify_credential E' f f' self cred' request) = Inr r))"
proof (intro conjI impI; elim conjE)
  let ?L = "e_ucan E"
  have ref: "token_reference ?L cred' = token_reference ?L cred" using same(2) by (simp add: token_reference_def)
  assume rv: "revoke_reference g s (token_reference ?L cred) = (Inr (), s')"
    and st: "public_store self = foldl (store_do ?L C) s' ops"
  have "token_reference ?L cred \<in> dom (public_revoked_references (tables (public_store self)))"
    using revoke_recorded [OF rv] learns_run [of s' ?L C ops] st by (auto simp: learns_def)
  then show "\<nexists>r. fst (verify_with_replay_policy E' f f' self cred' request admit) = Inr r"
    using revoked_not_admitted [of E' cred' self] law ref same(1) by simp
next
  let ?L = "e_ucan E"
  have ref: "token_reference ?L cred' = token_reference ?L cred" using same(2) by (simp add: token_reference_def)
  assume ok: "fst (verify_credential E h g self\<^sub>0 cred request\<^sub>0) = Inr r\<^sub>0" and rid: "replay_id cred \<noteq> None" "replay_id cred' = replay_id cred"
    and st: "public_store self = foldl (store_do ?L C) (public_store (snd (verify_credential E h g self\<^sub>0 cred request\<^sub>0))) ops"
  note ok' = ok [unfolded verify_credential_def]
  let ?adm = "admit_credential_replay ?L g (public_store self\<^sub>0) cred"
  have "fst ?adm = Inr ReplayAccepted"
    using admitted [OF ok'] rid(1) by (auto simp: admit_credential_replay_def insert_replay_key_def split: option.splits if_splits)
  then have adm: "?adm = (Inr ReplayAccepted, snd ?adm)" by (metis prod.collapse)
  have "learns (snd ?adm) (public_store self)"
    using learns_run st store_of_verify [OF ok'] by (simp add: verify_credential_def)
  from still_replayed [OF adm rid(2) ref this] have "fst (admit_credential_replay ?L f' (public_store self) cred') \<noteq> Inr ReplayAccepted" .
  moreover have "fst (admit_credential_replay ?L f' (public_store self) cred') \<noteq> Inr ReplayNotPresent"
    using rid by (auto simp: admit_credential_replay_def insert_replay_key_def split: option.splits)
  ultimately show "\<nexists>r. fst (verify_credential E' f f' self cred' request) = Inr r"
    using admitted [of E' f f' self cred' request True] same(1) unfolding verify_credential_def by auto
qed

text \<open>
  The replay id protects nothing: it is not part of the signed token. Whenever a credential passes
  all other checks, the same credential without a replay id is admitted, and so is the same credential under
  any replay id that was not used yet, however often its token was admitted before.
\<close>

lemma replay_id_not_bound:
  assumes "admissible E f self cred request"
  shows "\<exists>r. fst (verify_credential E f f' self (cred\<lparr>replay_id := None\<rparr>) request) = Inr r"
proof -
  have "admissible E f self (cred\<lparr>replay_id := None\<rparr>) request"
    using assms by (simp add: admissible_def verify_ok ensure_trusted_root_ok)
  then show ?thesis
    unfolding verify_credential_def verify_admits by (simp add: admit_credential_replay_def)
qed

text \<open>
  C6 (safety). Anybody can name the daemon's root. Take a token that anybody issued to anybody with no proofs,
  that verifies under its own issuer's key and grants the request to itself. The envelope that lists the
  owner's root and that issuer's as trusted roots is admitted, although the owner signed nothing: the
  daemon asks whether its root is one of the listed ones, and the search accepts any of them.
\<close>

theorem self_issued_credential_admitted:
  assumes "owner_issuer self = Inr owner" "e_clock E = Inr time"
    and "token_claims (e_ucan E) token = Inr c" "claim_proofs c = []" "issuer_did_new (e_ucan E) (issuer_did c) = Inr stranger"
    and "verify_with_resolvers (e_ucan E) token time (resolve_did_key (e_ucan E)) [] (store_checker f (public_store self))
      public_ucan_verification_limits = Inr v"
    and "grants (e_ucan E) (e_basalt E) (policy self) v request"
  shows "\<exists>r. fst (verify_credential E f f' self
      (public_credential_new token [] (verified_audience (e_ucan E) v) [owner, stranger]) request) = Inr r"
proof -
  let ?cred = "public_credential_new token [] (verified_audience (e_ucan E) v) [owner, stranger]"
  have "token_chain_has_trusted_root (e_ucan E) token [] [owner, stranger] = Inr True"
    using assms(3-5) by (simp add: token_chain_has_trusted_root_def)
  then have "admissible E f self ?cred request"
    using assms by (simp add: admissible_def verify_ok ensure_trusted_root_ok public_credential_new_def)
  then show ?thesis
    unfolding verify_credential_def verify_admits by (simp add: admit_credential_replay_def public_credential_new_def)
qed


section \<open>A small daemon\<close>

definition small_libs :: "(nat, nat, unit, nat, nat, unit) auth_libs" where
  "small_libs = \<lparr>e_ucan = small_ucan, e_basalt = \<lparr>policy_to_vec = (\<lambda>_. Inr []), blake3_hex = (\<lambda>_. ''00''),
     enforce = (\<lambda>_ _. Inr (True, ''ok''))\<rparr>, e_codec = \<lparr>json_to_vec = (\<lambda>_. Inl ''unused''), json_from_slice = (\<lambda>_. Inl ''unused''),
     base64_encode = (\<lambda>_. []), base64_decode = (\<lambda>_. Inl ''unused'')\<rparr>, e_clock = Inr 100\<rparr>"

definition small_layer :: "unit auth_layer" where
  "small_layer = \<lparr>public_store = small_store, policy = (), owner_issuer = Inr ''did:key:owner''\<rparr>"

definition small_credential :: "nat public_credential_envelope" where
  "small_credential = with_replay_id (public_credential_new 1 [0] ''did:key:peer'' [''did:key:owner'']) ''nonce''"

lemma small_libs_simps [simp]:
  "e_ucan small_libs = small_ucan" "e_clock small_libs = Inr 100"
  "enforce (e_basalt small_libs) () x = Inr (True, ''ok'')"
  "public_store small_layer = small_store" "owner_issuer small_layer = Inr ''did:key:owner''"
  by (simp_all add: small_libs_def small_layer_def)

lemma small_revoked [simp]: "store_checker (\<lambda>_. no_faults) small_store r = Inr False"
  by (simp add: store_checker_def store_is_revoked_def small_store_def empty_tables_def)

lemma small_grants [simp]: "grants small_ucan (e_basalt small_libs) pol v request"
  by (cases pol) (simp add: grants_def)

lemma small_credential_simps [simp]:
  "envelope_token small_credential = Suc 0" "envelope_proofs small_credential = [0]" "audience small_credential = ''did:key:peer''"
  "trusted_roots small_credential = [''did:key:owner'']" "schema small_credential = PUBLIC_CREDENTIAL_SCHEMA_V1"
  "replay_id small_credential = Some ''nonce''"
  by (simp_all add: small_credential_def with_replay_id_def public_credential_new_def)

lemma small_admissible: "admissible small_libs (\<lambda>_. no_faults) small_layer small_credential request"
  by (simp add: admissible_def verify_ok ensure_trusted_root_ok)

lemma small_admitted: "\<exists>r. fst (verify_credential small_libs (\<lambda>_. no_faults) no_faults small_layer small_credential request) = Inr r"
  unfolding verify_credential_def verify_admits using small_admissible [of request]
  by (simp add: admit_credential_replay_def insert_replay_key_def small_store_def empty_tables_def)

theorem admitted_credential_checked_witness:
  "\<exists>r. fst (verify_credential small_libs (\<lambda>_. no_faults) no_faults small_layer small_credential session_create_admission_request) = Inr r \<and>
     receipt_resource r = ''clankers:daemon/remote/session''"
proof -
  obtain r where r: "fst (verify_credential small_libs (\<lambda>_. no_faults) no_faults small_layer small_credential session_create_admission_request) = Inr r"
    using small_admitted by blast
  have "receipt_resource r = resource session_create_admission_request" using admitted_credential_checked [OF r] by blast
  with r show ?thesis unfolding session_create_admission_request_def by auto
qed

lemma small_checks_revocation: "checks_revocation small_ucan"
  by (simp add: checks_revocation_def)

theorem revoked_or_replayed_denied_witness:
  "\<exists>r. fst (verify_credential small_libs (\<lambda>_. no_faults) no_faults small_layer small_credential session_create_admission_request) = Inr r \<and>
     (\<nexists>r. fst (verify_credential (small_libs\<lparr>e_clock := Inr 101\<rparr>) (\<lambda>_. no_faults) no_faults
        (snd (verify_credential small_libs (\<lambda>_. no_faults) no_faults small_layer small_credential session_create_admission_request))
        (small_credential\<lparr>envelope_proofs := [0, 1]\<rparr>) session_create_admission_request) = Inr r)"
proof -
  let ?self = "snd (verify_credential small_libs (\<lambda>_. no_faults) no_faults small_layer small_credential session_create_admission_request)"
  obtain r where r: "fst (verify_credential small_libs (\<lambda>_. no_faults) no_faults small_layer small_credential session_create_admission_request) = Inr r"
    using small_admitted by blast
  have law: "checks_revocation (e_ucan small_libs)" by (simp add: small_checks_revocation)
  have "\<nexists>r. fst (verify_credential (small_libs\<lparr>e_clock := Inr 101\<rparr>) (\<lambda>_. no_faults) no_faults ?self
      (small_credential\<lparr>envelope_proofs := [0, 1]\<rparr>) session_create_admission_request) = Inr r"
    using revoked_or_replayed_denied [OF law, where E' = "small_libs\<lparr>e_clock := Inr 101\<rparr>" and cred = small_credential
        and cred' = "small_credential\<lparr>envelope_proofs := [0, 1]\<rparr>" and self = ?self and ops = "[]"
        and self\<^sub>0 = small_layer and h = "\<lambda>_. no_faults" and g = no_faults and f = "\<lambda>_. no_faults" and f' = no_faults
        and request = session_create_admission_request and request\<^sub>0 = session_create_admission_request] r
    by simp
  with r show ?thesis by blast
qed

theorem self_issued_credential_admitted_witness:
  "\<exists>r. fst (verify_credential small_libs (\<lambda>_. no_faults) no_faults small_layer
     (public_credential_new 2 [] ''did:key:mallory'' [''did:key:owner'', ''did:key:mallory'']) session_create_admission_request) = Inr r"
  using self_issued_credential_admitted [of small_layer "''did:key:owner''" small_libs 100 2 "small_claims 2" "''did:key:mallory''"
    "\<lambda>_. no_faults" 2 session_create_admission_request no_faults]
  by (simp add: numeral_2_eq_2)

end
