(* ===== verification/Capability_Gate.thy ===== *)
theory Capability_Gate
  imports Capability Process_Jobs Effect_Vocabulary Basalt_Authority
begin

text \<open>
  The capability gates, \<^verbatim>\<open>src/capability_gate.rs\<close>: what a session may do, checked call by call. The local
  gate holds the agent capabilities of the session, the public gate turns a call into requests that the
  authority of \<open>Basalt_Authority\<close> has to admit, one by one. The gate of a session is chosen and its
  capabilities are merged as in \<^verbatim>\<open>src/modes/daemon/session_builder.rs\<close>. JSON inputs are values of
  \<^verbatim>\<open>serde_json\<close>, read through \<open>json_view\<close>.
\<close>

section \<open>Inputs\<close>

record 'v json_view =
  jv_get :: "'v \<Rightarrow> string \<Rightarrow> 'v option"
  jv_as_str :: "'v \<Rightarrow> string option"

definition get_str :: "'v json_view \<Rightarrow> 'v \<Rightarrow> string \<Rightarrow> string option" where
  "get_str J input key = Option.bind (jv_get J input key) (jv_as_str J)"

definition FILE_READ_TOOLS :: "string list" where
  "FILE_READ_TOOLS = [''read'', ''rg'', ''grep'', ''find'', ''ls'']"

definition FILE_WRITE_TOOLS :: "string list" where
  "FILE_WRITE_TOOLS = [''write'', ''edit'']"

section \<open>Process actions\<close>

record process_action_req =
  par_operation :: process_job_operation
  par_required_tools :: "string list"

definition process_action_requirement :: "string \<Rightarrow> process_action_req option" where
  "process_action_requirement action = map_option
     (\<lambda>(operation, tools). \<lparr>par_operation = operation, par_required_tools = tools\<rparr>) (map_of
       [(''list'', (OpList, [''process:observe''])),
        (''poll'', (OpPoll, [''process:observe''])),
        (''wait'', (OpWait, [''process:observe''])),
        (''log'', (OpLog, [''process:observe'', ''process:logs''])),
        (''start'', (OpStart, [''process:start''])),
        (''kill'', (OpKill, [''process:mutate''])),
        (''restart'', (OpRestart, [''process:mutate''])),
        (''write'', (OpWriteStdin, [''process:mutate'', ''process:stdin''])),
        (''submit'', (OpWriteStdin, [''process:mutate'', ''process:stdin''])),
        (''close'', (OpCloseStdin, [''process:mutate'', ''process:stdin''])),
        (''adopt'', (OpAdopt, [''process:mutate''])),
        (''gc'', (OpGarbageCollect, [''process:mutate''])),
        (''garbage_collect'', (OpGarbageCollect, [''process:mutate'']))] action)"

definition requires_backend_selection :: "'v json_view \<Rightarrow> 'v \<Rightarrow> bool" where
  "requires_backend_selection J input = (case get_str J input ''backend'' of
     None \<Rightarrow> False | Some bk \<Rightarrow> bk \<noteq> ''native'')"

fun process_public_ability :: "process_job_operation \<Rightarrow> string" where
  "process_public_ability OpList = ''process/observe''"
| "process_public_ability OpPoll = ''process/observe''"
| "process_public_ability OpWait = ''process/observe''"
| "process_public_ability OpStart = ''process/start''"
| "process_public_ability OpLog = ''process/observe''"
| "process_public_ability OpKill = ''process/mutate''"
| "process_public_ability OpRestart = ''process/mutate''"
| "process_public_ability OpAdopt = ''process/mutate''"
| "process_public_ability OpGarbageCollect = ''process/mutate''"
| "process_public_ability OpWriteStdin = ''process/mutate''"
| "process_public_ability OpCloseStdin = ''process/mutate''"

fun process_operation_label :: "process_job_operation \<Rightarrow> string" where
  "process_operation_label OpStart = ''process start''"
| "process_operation_label OpList = ''process observe''"
| "process_operation_label OpPoll = ''process observe''"
| "process_operation_label OpWait = ''process observe''"
| "process_operation_label OpLog = ''process log''"
| "process_operation_label OpKill = ''process mutation''"
| "process_operation_label OpRestart = ''process mutation''"
| "process_operation_label OpWriteStdin = ''process stdin mutation''"
| "process_operation_label OpCloseStdin = ''process stdin mutation''"
| "process_operation_label OpAdopt = ''process adoption''"
| "process_operation_label OpGarbageCollect = ''process garbage collection''"

definition requirement_public_abilities :: "'v json_view \<Rightarrow> process_action_req \<Rightarrow> 'v \<Rightarrow> string list" where
  "requirement_public_abilities J self input = remdups_adj (sort
     ([process_public_ability (par_operation self)]
      @ (if par_operation self = OpLog then [''process/logs''] else [])
      @ (if par_operation self = OpWriteStdin \<or> par_operation self = OpCloseStdin then [''process/stdin''] else [])
      @ (if requires_backend_selection J input then [''process/observe''] else [])))"

section \<open>The local gate\<close>

definition authorizes_any :: "capability list \<Rightarrow> operation \<Rightarrow> bool" where
  "authorizes_any caps op = list_ex (\<lambda>c. authorizes c op) caps"

definition authorizes_tool :: "capability list \<Rightarrow> string \<Rightarrow> bool" where
  "authorizes_tool caps tool_name = authorizes_any caps (OpToolUse tool_name)"

definition requirement_allows :: "process_action_req \<Rightarrow> capability list \<Rightarrow> bool" where
  "requirement_allows self caps = list_all (authorizes_tool caps) (par_required_tools self)"

definition allows_for_input :: "'v json_view \<Rightarrow> process_action_req \<Rightarrow> capability list \<Rightarrow> 'v \<Rightarrow> bool" where
  "allows_for_input J self caps input \<longleftrightarrow> requirement_allows self caps \<and>
     (\<not> requires_backend_selection J input \<or> authorizes_tool caps ''process:backend'')"

definition requirement_description :: "'v json_view \<Rightarrow> process_action_req \<Rightarrow> 'v \<Rightarrow> string" where
  "requirement_description J self input =
     (let tools = par_required_tools self @ (if requires_backend_selection J input then [''process:backend''] else [])
      in process_operation_label (par_operation self) @ '' capability ('' @ join_with '' + '' tools @ '')'')"

definition check_process_tool_call :: "'v json_view \<Rightarrow> capability list \<Rightarrow> 'v \<Rightarrow> string + unit" where
  "check_process_tool_call J caps input =
     (if authorizes_tool caps ''process'' then Inr ()
      else case get_str J input ''action'' of
        None \<Rightarrow> Inl ''Process action not authorized: missing action''
      | Some action \<Rightarrow> (case process_action_requirement action of
          None \<Rightarrow> Inl (''Process action not authorized: '' @ action)
        | Some requirement \<Rightarrow>
            if allows_for_input J requirement caps input then Inr ()
            else Inl (''Process action '' @ [CHR 0x27] @ action @ [CHR 0x27] @ '' not authorized by capability token; requires ''
              @ requirement_description J requirement input)))"

text \<open>The message of a refused command quotes its first 80 bytes. The slice panics, the value \<^term>\<open>None\<close>, when
  byte 80 is inside a character.\<close>

definition command_preview :: "string \<Rightarrow> string option" where
  "command_preview cmd = (let n = min 80 (length cmd) in if is_char_boundary cmd n then Some (take n cmd) else None)"

definition check_shell :: "'v json_view \<Rightarrow> capability list \<Rightarrow> string \<Rightarrow> 'v \<Rightarrow> (string + unit) option" where
  "check_shell J caps tool_name input =
     (case (if tool_name = ''bash'' then get_str J input ''command'' else None) of
       None \<Rightarrow> Some (Inr ())
     | Some cmd \<Rightarrow>
         if authorizes_any caps (OpShellExecute cmd (get_str J input ''cwd'')) then Some (Inr ())
         else map_option (\<lambda>preview. Inl (''Shell command not authorized: '' @ preview)) (command_preview cmd))"

definition check_path :: "'v json_view \<Rightarrow> capability list \<Rightarrow> string \<Rightarrow> 'v \<Rightarrow> string + unit" where
  "check_path J caps tool_name input = (case get_str J input ''path'' of
     None \<Rightarrow> Inr ()
   | Some path \<Rightarrow>
       if tool_name \<in> set FILE_READ_TOOLS \<and> \<not> authorizes_any caps (OpFileRead path) then
         Inl (''File read not authorized: '' @ path)
       else if tool_name \<in> set FILE_WRITE_TOOLS \<and> \<not> authorizes_any caps (OpFileWrite path) then
         Inl (''File write not authorized: '' @ path)
       else Inr ())"

definition ucan_check_tool_call :: "'v json_view \<Rightarrow> capability list \<Rightarrow> string \<Rightarrow> 'v \<Rightarrow> (string + unit) option" where
  "ucan_check_tool_call J caps tool_name input =
     (if tool_name = ''process'' then Some (check_process_tool_call J caps input)
      else if \<not> authorizes_tool caps tool_name then
        Some (Inl (''Tool '' @ [CHR 0x27] @ tool_name @ [CHR 0x27] @ '' not authorized by capability token''))
      else case check_shell J caps tool_name input of
        None \<Rightarrow> None
      | Some (Inl e) \<Rightarrow> Some (Inl e)
      | Some (Inr _) \<Rightarrow> Some (check_path J caps tool_name input))"

definition extract_tool_patterns :: "capability list \<Rightarrow> string list option" where
  "extract_tool_patterns caps =
     (let patterns = List.map_filter (\<lambda>c. case c of CapToolUse tool_pattern \<Rightarrow> Some tool_pattern | _ \<Rightarrow> None) caps
      in if patterns = [] \<or> list_ex (\<lambda>p. p = ''*'') patterns then None else Some patterns)"

section \<open>The capabilities of a session\<close>

fun merge_session_capabilities :: "capability list option \<Rightarrow> capability list option \<Rightarrow> capability list option" where
  "merge_session_capabilities None None = None"
| "merge_session_capabilities (Some ucan) None = Some ucan"
| "merge_session_capabilities None (Some settings) = Some settings"
| "merge_session_capabilities (Some ucan) (Some settings) =
     Some (filter (\<lambda>capability. list_ex (\<lambda>setting. contains setting capability) settings) ucan)"

section \<open>The public gate: requests\<close>

definition is_unreserved_byte :: "char \<Rightarrow> bool" where
  "is_unreserved_byte b \<longleftrightarrow> is_ascii_alphanumeric b \<or> b \<in> {CHR ''-'', CHR ''.'', CHR ''_''}"

fun encode_resource_segment :: "string \<Rightarrow> string" where
  "encode_resource_segment [] = []"
| "encode_resource_segment (b # bs) = (if is_unreserved_byte b then [b] else escape b) @ encode_resource_segment bs"

definition public_prompt_request :: "string \<Rightarrow> admission_request" where
  "public_prompt_request sid =
     \<lparr>contract = ''session-prompt'', resource = ''clankers:session/'' @ sid, request_ability = ''session/prompt''\<rparr>"

definition public_session_manage_request :: "string \<Rightarrow> admission_request" where
  "public_session_manage_request sid =
     \<lparr>contract = ''session-manage'', resource = ''clankers:session/'' @ sid, request_ability = ''session/manage''\<rparr>"

definition public_model_request :: "string \<Rightarrow> admission_request" where
  "public_model_request model =
     \<lparr>contract = ''model-use'', resource = ''clankers:model/'' @ encode_resource_segment model, request_ability = ''model/use''\<rparr>"

definition required_file_tool_path :: "'v json_view \<Rightarrow> string \<Rightarrow> 'v \<Rightarrow> string + string" where
  "required_file_tool_path J tool_name input = (case get_str J input ''path'' of
     None \<Rightarrow> Inl (''public UCAN/Basalt requires concrete file path for '' @ tool_name @ '' tool'')
   | Some path \<Rightarrow>
       if trim path = [] then Inl (''public UCAN/Basalt requires non-empty concrete file path for '' @ tool_name @ '' tool'')
       else Inr path)"

text \<open>\<open>cwd\<close> is the result of \<^verbatim>\<open>std::env::current_dir()\<close>.\<close>

definition absolute_root_path :: "string + string \<Rightarrow> string \<Rightarrow> string + string" where
  "absolute_root_path cwd root =
     (case (if prefix ''/'' root then Inr root
            else case cwd of
              Inl error \<Rightarrow> Inl (''public UCAN/Basalt cannot resolve session file root: '' @ error)
            | Inr dir \<Rightarrow> Inr (path_join dir root)) of
       Inl e \<Rightarrow> Inl e
     | Inr candidate \<Rightarrow>
         if candidate = [] then Inl ''public UCAN/Basalt session file root is empty'' else Inr candidate)"

fun path_parts_loop :: "path_component list \<Rightarrow> string list \<Rightarrow> string + string list" where
  "path_parts_loop [] parts = Inr parts"
| "path_parts_loop (RootDir # cs) parts = path_parts_loop cs parts"
| "path_parts_loop (CurDir # cs) parts = path_parts_loop cs parts"
| "path_parts_loop (NormalComponent s # cs) parts = path_parts_loop cs (parts @ [s])"
| "path_parts_loop (ParentDir # cs) parts =
     (if parts = [] then Inl ''public UCAN/Basalt file root escapes filesystem root''
      else path_parts_loop cs (butlast parts))"

definition path_parts :: "string \<Rightarrow> string + string list" where
  "path_parts path = path_parts_loop (components path) []"

fun rooted_loop :: "nat \<Rightarrow> path_component list \<Rightarrow> string list \<Rightarrow> string + string list" where
  "rooted_loop base [] parts = Inr parts"
| "rooted_loop base (CurDir # cs) parts = rooted_loop base cs parts"
| "rooted_loop base (NormalComponent s # cs) parts = rooted_loop base cs (parts @ [s])"
| "rooted_loop base (ParentDir # cs) parts =
     (if length parts = base then Inl ''public UCAN/Basalt file path escapes session file root''
      else rooted_loop base cs (butlast parts))"
| "rooted_loop base (RootDir # cs) parts = Inl ''public UCAN/Basalt relative file path became absolute''"

definition rooted_relative_path :: "string + string \<Rightarrow> string \<Rightarrow> string \<Rightarrow> string + string" where
  "rooted_relative_path cwd root relative_path = (case absolute_root_path cwd root of
     Inl e \<Rightarrow> Inl e
   | Inr root \<Rightarrow> (case path_parts root of
       Inl e \<Rightarrow> Inl e
     | Inr root_parts \<Rightarrow> (case rooted_loop (length root_parts) (components relative_path) root_parts of
         Inl e \<Rightarrow> Inl e
       | Inr parts \<Rightarrow> Inr (''/'' @ join_with ''/'' parts))))"

definition public_file_tool_authorization_path :: "string + string \<Rightarrow> string \<Rightarrow> string option \<Rightarrow> string + string" where
  "public_file_tool_authorization_path cwd path file_authority_root =
     (let path = trim path
      in if CHR 0x00 \<in> set path then Inl ''public UCAN/Basalt file path contains NUL byte''
         else if prefix ''/'' path then Inr path
         else case file_authority_root of
           None \<Rightarrow> Inl ''public UCAN/Basalt requires session file root for relative file path''
         | Some root \<Rightarrow> rooted_relative_path cwd root path)"

definition file_request :: "string \<Rightarrow> effect_kind \<Rightarrow> string \<Rightarrow> string + admission_request" where
  "file_request c kind path = (case effect_capability_new kind path of
     Inl e \<Rightarrow> Inl (vocabulary_error_text e)
   | Inr capability \<Rightarrow> Inr \<lparr>contract = c, resource = ec_resource capability, request_ability = ec_ability capability\<rparr>)"

definition public_file_request :: "string + string \<Rightarrow> string \<Rightarrow> effect_kind \<Rightarrow> string \<Rightarrow> string option \<Rightarrow> string + admission_request" where
  "public_file_request cwd c kind path file_authority_root =
     (case public_file_tool_authorization_path cwd path file_authority_root of
       Inl e \<Rightarrow> Inl e | Inr canonical_path \<Rightarrow> file_request c kind canonical_path)"

definition public_process_requests :: "'v json_view \<Rightarrow> string \<Rightarrow> 'v \<Rightarrow> string + admission_request list" where
  "public_process_requests J action input = (case process_action_requirement action of
     None \<Rightarrow> Inl (''Process action not authorized: '' @ action)
   | Some requirement \<Rightarrow>
       let bk = case_option ''native'' id (get_str J input ''backend'');
           res = ''clankers:process/'' @ encode_resource_segment bk
       in Inr (map (\<lambda>ab. \<lparr>contract = ''process-action'', resource = res, request_ability = ab\<rparr>)
                 (requirement_public_abilities J requirement input)
               @ (if requires_backend_selection J input
                  then [\<lparr>contract = ''tool-use'', resource = ''clankers:tool/backend%2Fprocess'', request_ability = ''tool/use''\<rparr>]
                  else [])))"

definition file_tool_requests ::
  "'v json_view \<Rightarrow> string + string \<Rightarrow> string list \<Rightarrow> string \<Rightarrow> effect_kind \<Rightarrow> string \<Rightarrow> 'v \<Rightarrow> string option \<Rightarrow>
   string + admission_request list" where
  "file_tool_requests J cwd tools c kind tool_name input file_authority_root =
     (if tool_name \<notin> set tools then Inr []
      else case required_file_tool_path J tool_name input of
        Inl e \<Rightarrow> Inl e
      | Inr path \<Rightarrow> map_sum id (\<lambda>r. [r]) (public_file_request cwd c kind path file_authority_root))"

text \<open>The requests of \<^verbatim>\<open>public_tool_requests\<close>, one definition for each of its steps.\<close>

definition tool_use_request :: "string \<Rightarrow> admission_request" where
  "tool_use_request tool_name =
     \<lparr>contract = ''tool-use'', resource = ''clankers:tool/'' @ encode_resource_segment tool_name, request_ability = ''tool/use''\<rparr>"

definition shell_request :: "string \<Rightarrow> admission_request" where
  "shell_request cwd = \<lparr>contract = ''shell-execute'', resource = ''clankers:shell:'' @ encode_resource_segment cwd,
     request_ability = ''shell/execute''\<rparr>"

definition shell_tool_requests :: "'v json_view \<Rightarrow> string \<Rightarrow> 'v \<Rightarrow> admission_request list" where
  "shell_tool_requests J tool_name input =
     (if tool_name = ''bash'' then [shell_request (case_option ''.'' id (get_str J input ''cwd''))] else [])"

definition process_tool_requests :: "'v json_view \<Rightarrow> string \<Rightarrow> 'v \<Rightarrow> string + admission_request list" where
  "process_tool_requests J tool_name input = (case (if tool_name = ''process'' then get_str J input ''action'' else None) of
     None \<Rightarrow> Inr [] | Some action \<Rightarrow> public_process_requests J action input)"

definition model_tool_requests :: "'v json_view \<Rightarrow> string \<Rightarrow> 'v \<Rightarrow> admission_request list" where
  "model_tool_requests J tool_name input =
     (if tool_name = ''switch_model'' then
        [public_model_request (case_option ''default'' id
           (Option.bind (case jv_get J input ''model'' of Some v \<Rightarrow> Some v | None \<Rightarrow> jv_get J input ''role'') (jv_as_str J)))]
      else [])"

definition public_tool_requests ::
  "'v json_view \<Rightarrow> string + string \<Rightarrow> string \<Rightarrow> 'v \<Rightarrow> string option \<Rightarrow> string + admission_request list" where
  "public_tool_requests J cwd tool_name input file_authority_root =
     (case file_tool_requests J cwd FILE_READ_TOOLS ''file-read'' FileRead tool_name input file_authority_root of
        Inl e \<Rightarrow> Inl e
      | Inr reads \<Rightarrow> (case file_tool_requests J cwd FILE_WRITE_TOOLS ''file-write'' FileWrite tool_name input file_authority_root of
          Inl e \<Rightarrow> Inl e
        | Inr writes \<Rightarrow> (case process_tool_requests J tool_name input of
            Inl e \<Rightarrow> Inl e
          | Inr process \<Rightarrow> Inr ([tool_use_request tool_name] @ reads @ writes @ shell_tool_requests J tool_name input
              @ process @ model_tool_requests J tool_name input))))"

section \<open>The public gate: admission\<close>

record ('tok, 'pol) public_tool_authorization =
  pta_envelope :: "'tok public_credential_envelope"
  pta_policy :: 'pol
  pta_session_resource_id :: "string option"
  pta_file_authority_root :: "string option"

definition public_tool_authorization_new where
  "public_tool_authorization_new envelope pol =
     \<lparr>pta_envelope = envelope, pta_policy = pol, pta_session_resource_id = None, pta_file_authority_root = None\<rparr>"

definition with_session_resource_id where
  "with_session_resource_id auth sid = auth\<lparr>pta_session_resource_id := Some sid\<rparr>"

definition with_file_authority_root where
  "with_file_authority_root auth root = auth\<lparr>pta_file_authority_root := Some root\<rparr>"

datatype gate_error =
    GateMessage string
  | GateClock string
  | GateDenied admission_request receipt_reason

text \<open>A request is decided at its own moment: the clock and the store are read anew for each.\<close>

type_synonym 'time moment = "(string + 'time) \<times> check_faults \<times> public_store"

definition authorize_request ::
  "('tok, 'dec, 'key, 'time, 'ver) ucan_lib \<Rightarrow> 'pol basalt_lib \<Rightarrow> ('tok, 'pol) public_tool_authorization \<Rightarrow> 'time moment \<Rightarrow>
   admission_request \<Rightarrow> gate_error + unit" where
  "authorize_request L B auth = (\<lambda>(now, f, store) request. case now of
     Inl error \<Rightarrow> Inl (GateClock error)
   | Inr time \<Rightarrow>
       let r = authorize_with_revocations L B (pta_policy auth) (pta_envelope auth) time (store_checker f store) request
       in if allowed r then Inr () else Inl (GateDenied request (reason r)))"

fun authorize_all ::
  "('tok, 'dec, 'key, 'time, 'ver) ucan_lib \<Rightarrow> 'pol basalt_lib \<Rightarrow> ('tok, 'pol) public_tool_authorization \<Rightarrow>
   (nat \<Rightarrow> 'time moment) \<Rightarrow> nat \<Rightarrow> admission_request list \<Rightarrow> gate_error + unit" where
  "authorize_all L B auth now i [] = Inr ()"
| "authorize_all L B auth now i (request # rest) = (case authorize_request L B auth (now i) request of
     Inl e \<Rightarrow> Inl e | Inr _ \<Rightarrow> authorize_all L B auth now (Suc i) rest)"

definition session_resource_id :: "('tok, 'pol) public_tool_authorization \<Rightarrow> string \<Rightarrow> string" where
  "session_resource_id auth sid = case_option sid id (pta_session_resource_id auth)"

definition public_check_prompt where
  "public_check_prompt L B auth moment sid =
     authorize_request L B auth moment (public_prompt_request (session_resource_id auth sid))"

definition public_check_session_manage where
  "public_check_session_manage L B auth moment sid =
     authorize_request L B auth moment (public_session_manage_request (session_resource_id auth sid))"

definition public_check_model_switch where
  "public_check_model_switch L B auth moment model = authorize_request L B auth moment (public_model_request model)"

definition public_check_tool_call ::
  "('tok, 'dec, 'key, 'time, 'ver) ucan_lib \<Rightarrow> 'pol basalt_lib \<Rightarrow> 'v json_view \<Rightarrow> string + string \<Rightarrow>
   ('tok, 'pol) public_tool_authorization \<Rightarrow> (nat \<Rightarrow> 'time moment) \<Rightarrow> string \<Rightarrow> 'v \<Rightarrow> gate_error + unit" where
  "public_check_tool_call L B J cwd auth now tool_name input =
     (case public_tool_requests J cwd tool_name input (pta_file_authority_root auth) of
       Inl msg \<Rightarrow> Inl (GateMessage msg)
     | Inr requests \<Rightarrow> authorize_all L B auth now 0 requests)"

section \<open>The gate of a session\<close>

datatype ('tok, 'pol) session_gate =
    PublicGate "('tok, 'pol) public_tool_authorization"
  | UcanGate "capability list"

definition session_gate_for ::
  "('tok, 'pol) public_tool_authorization option \<Rightarrow> capability list option \<Rightarrow> capability list option \<Rightarrow>
   ('tok, 'pol) session_gate option" where
  "session_gate_for public_auth ucan_caps settings_caps = (case public_auth of
     Some auth \<Rightarrow> Some (PublicGate auth)
   | None \<Rightarrow> map_option UcanGate (merge_session_capabilities ucan_caps settings_caps))"

section \<open>What the local gate decides\<close>

interpretation gate_segments: percent_code encode_resource_segment is_unreserved_byte
  by unfold_locales (simp_all add: is_unreserved_byte_def is_ascii_alphanumeric_def is_ascii_digit_def
      is_ascii_uppercase_def is_ascii_lowercase_def)

definition process_call_granted :: "'v json_view \<Rightarrow> capability list \<Rightarrow> 'v \<Rightarrow> bool" where
  "process_call_granted J caps input \<longleftrightarrow> authorizes_tool caps ''process'' \<or>
     (\<exists>action req. get_str J input ''action'' = Some action \<and> process_action_requirement action = Some req \<and>
        (\<forall>t\<in>set (par_required_tools req). authorizes_tool caps t) \<and>
        (requires_backend_selection J input \<longrightarrow> authorizes_tool caps ''process:backend''))"

definition call_granted :: "'v json_view \<Rightarrow> capability list \<Rightarrow> string \<Rightarrow> 'v \<Rightarrow> bool" where
  "call_granted J caps tool input \<longleftrightarrow>
     (if tool = ''process'' then process_call_granted J caps input
      else authorizes_tool caps tool \<and>
        (\<forall>cmd. tool = ''bash'' \<and> get_str J input ''command'' = Some cmd \<longrightarrow>
           authorizes_any caps (OpShellExecute cmd (get_str J input ''cwd''))) \<and>
        (\<forall>path. get_str J input ''path'' = Some path \<longrightarrow>
           (tool \<in> set FILE_READ_TOOLS \<longrightarrow> authorizes_any caps (OpFileRead path)) \<and>
           (tool \<in> set FILE_WRITE_TOOLS \<longrightarrow> authorizes_any caps (OpFileWrite path))))"

lemma check_process_iff: "check_process_tool_call J caps input = Inr () \<longleftrightarrow> process_call_granted J caps input"
  by (auto simp: check_process_tool_call_def process_call_granted_def allows_for_input_def requirement_allows_def
      list_all_iff split: option.splits)

lemma check_path_iff: "check_path J caps tool input = Inr () \<longleftrightarrow>
   (\<forall>path. get_str J input ''path'' = Some path \<longrightarrow>
      (tool \<in> set FILE_READ_TOOLS \<longrightarrow> authorizes_any caps (OpFileRead path)) \<and>
      (tool \<in> set FILE_WRITE_TOOLS \<longrightarrow> authorizes_any caps (OpFileWrite path)))"
  by (auto simp: check_path_def split: option.splits)

lemma check_shell_iff: "check_shell J caps tool input = Some (Inr ()) \<longleftrightarrow>
   (\<forall>cmd. tool = ''bash'' \<and> get_str J input ''command'' = Some cmd \<longrightarrow>
      authorizes_any caps (OpShellExecute cmd (get_str J input ''cwd'')))"
  by (auto simp: check_shell_def split: option.splits)

lemma ucan_check_iff: "ucan_check_tool_call J caps tool input = Some (Inr ()) \<longleftrightarrow> call_granted J caps tool input"
proof (cases "tool = ''process''")
  case True
  then show ?thesis by (simp add: ucan_check_tool_call_def call_granted_def check_process_iff)
next
  case False
  then have "ucan_check_tool_call J caps tool input = Some (Inr ()) \<longleftrightarrow>
      authorizes_tool caps tool \<and> check_shell J caps tool input = Some (Inr ()) \<and> check_path J caps tool input = Inr ()"
    by (auto simp: ucan_check_tool_call_def split: option.splits sum.splits)
  with False show ?thesis by (simp only: check_shell_iff check_path_iff call_granted_def if_False)
qed

text \<open>The gate panics on a refused command whose eightieth byte is inside a character.\<close>

lemma ucan_check_panics:
  "ucan_check_tool_call J caps tool input = None \<longleftrightarrow>
     tool \<noteq> ''process'' \<and> tool = ''bash'' \<and> authorizes_tool caps tool \<and>
     (\<exists>cmd. get_str J input ''command'' = Some cmd \<and> \<not> authorizes_any caps (OpShellExecute cmd (get_str J input ''cwd'')) \<and>
        \<not> is_char_boundary cmd (min 80 (length cmd)))"
  by (auto simp: ucan_check_tool_call_def check_shell_def command_preview_def Let_def split: option.splits sum.splits)

lemma authorizes_any_mono:
  "(\<And>op. authorizes_any caps op \<Longrightarrow> authorizes_any caps' op) \<Longrightarrow> call_granted J caps tool input \<Longrightarrow> call_granted J caps' tool input"
  unfolding call_granted_def process_call_granted_def authorizes_tool_def by (auto split: if_splits)

section \<open>Merged capabilities\<close>

lemma merged_within_token:
  "merge_session_capabilities (Some u) s = Some m \<Longrightarrow> authorizes_any m op \<Longrightarrow> authorizes_any u op"
  by (cases s) (auto simp: authorizes_any_def list_ex_iff)

lemma merged_within_settings:
  assumes "merge_session_capabilities u (Some s) = Some m" "\<forall>c\<in>set s. simple_capability c" "authorizes_any m op"
  shows "authorizes_any s op"
proof (cases u)
  case None
  with assms show ?thesis by simp
next
  case (Some u')
  from assms(1,3) obtain c where c: "authorizes c op" "\<exists>t\<in>set s. contains t c"
    unfolding Some by (auto simp: authorizes_any_def list_ex_iff)
  then obtain t where "t \<in> set s" "contains t c" by blast
  with contains_authorizes [of t c op] c(1) assms(2) show ?thesis by (auto simp: authorizes_any_def list_ex_iff)
qed

text \<open>
  C16 (safety). The gate of a session never exceeds the token nor the settings. A tool call that passes the
  local gate of a session, whose capabilities are merged from the token of the peer and the default
  capabilities of the settings, passes a gate with the token's capabilities alone, and a gate with the
  settings' capabilities alone when the shell patterns of the settings have at most one star, at the end.
\<close>

theorem session_gate_within_both:
  assumes "session_gate_for None token settings = Some (UcanGate m)" "ucan_check_tool_call J m tool input = Some (Inr ())"
  shows "(\<forall>u. token = Some u \<longrightarrow> ucan_check_tool_call J u tool input = Some (Inr ())) \<and>
    (\<forall>s. settings = Some s \<and> (\<forall>c\<in>set s. simple_capability c) \<longrightarrow> ucan_check_tool_call J s tool input = Some (Inr ()))"
proof -
  from assms(1) have m: "merge_session_capabilities token settings = Some m" by (auto simp: session_gate_for_def)
  have g: "call_granted J m tool input" using assms(2) by (simp add: ucan_check_iff)
  show ?thesis unfolding ucan_check_iff
    using m g merged_within_token merged_within_settings authorizes_any_mono [of m _ J tool input] by blast
qed

section \<open>Prefixes are not paths\<close>

lemma join_with_append_prefix: "prefix (join_with sep xs) (join_with sep (xs @ ys))"
  by (induction sep xs rule: join_with.induct) (auto, cases ys, auto)

lemma path_parts_loop_plain: "path_parts_loop (map NormalComponent qs @ cs) parts = path_parts_loop cs (parts @ qs)"
  by (induction qs arbitrary: parts) auto

lemma path_parts_loop_up: "n \<le> length parts \<Longrightarrow>
   path_parts_loop (replicate n ParentDir @ cs) parts = path_parts_loop cs (take (length parts - n) parts)"
proof (induction n arbitrary: parts)
  case (Suc n)
  then have "parts \<noteq> []" "n \<le> length (butlast parts)" by auto
  then show ?case using Suc.IH [of "butlast parts"] by (simp add: butlast_conv_take min_def)
qed simp

lemma parent_component: "component_of ''..'' = ParentDir"
  by (simp add: component_of_def)

lemma path_parts_up_and_down:
  assumes "\<forall>q\<in>set ds \<union> set ts. plain_name q"
  shows "path_parts (slashed (ds @ replicate (length ds) ''..'' @ ts)) = Inr ts"
proof -
  let ?qs = "ds @ replicate (length ds) ''..'' @ ts"
  have "path_piece q" if "q \<in> set ?qs" for q
  proof -
    from that consider "q \<in> set ds \<union> set ts" | "q = ''..''" by (auto simp only: set_append set_replicate_conv_if split: if_splits)
    then show ?thesis by cases (use assms plain_name_piece parent_piece in blast)+
  qed
  then have "\<forall>q\<in>set ?qs. path_piece q" by blast
  then have comps: "components (slashed ?qs) = RootDir # map component_of ?qs" by (rule components_slashed)
  have names: "map component_of ds = map NormalComponent ds" "map component_of ts = map NormalComponent ts"
    using assms component_of_plain_name by simp_all
  have "components (slashed ?qs) =
      RootDir # map NormalComponent ds @ replicate (length ds) ParentDir @ map NormalComponent ts"
    unfolding comps map_append map_replicate names parent_component ..
  then show ?thesis
    unfolding path_parts_def using path_parts_loop_plain [of ts "[]" "[]"]
    by (simp add: path_parts_loop_plain path_parts_loop_up)
qed

text \<open>
  C17 (safety). A file capability does not confine a path. For every directory and every other path there is a
  spelling of that path that the local gate lets the read tool open under a capability confined to the
  directory: the capability compares the prefix of the text, parent components included, while the tools open
  the path they are given. By the gate's own reading of paths the file lies wherever the caller likes.
\<close>

theorem file_capability_escapes:
  assumes "\<forall>q\<in>set ds \<union> set ts. plain_name q"
    and "get_str J input ''path'' = Some (slashed (ds @ replicate (length ds) ''..'' @ ts))"
  shows "ucan_check_tool_call J [CapToolUse ''read'', CapFileAccess (slashed ds) True] ''read'' input = Some (Inr ()) \<and>
    path_parts (slashed (ds @ replicate (length ds) ''..'' @ ts)) = Inr ts"
proof -
  let ?caps = "[CapToolUse ''read'', CapFileAccess (slashed ds) True]"
  have "prefix (slashed ds) (slashed (ds @ replicate (length ds) ''..'' @ ts))"
    using join_with_append_prefix by simp
  then have "authorizes_any ?caps (OpFileRead (slashed (ds @ replicate (length ds) ''..'' @ ts)))"
    by (simp add: authorizes_any_def)
  moreover have "trim ''read'' = ''read''" by (rule trim_plain; simp add: is_graphic_def)
  then have "authorizes_tool ?caps ''read''" by (simp add: authorizes_tool_def authorizes_any_def match_pattern_def)
  ultimately have "call_granted J ?caps ''read'' input"
    using assms(2) by (simp add: call_granted_def FILE_READ_TOOLS_def FILE_WRITE_TOOLS_def)
  then show ?thesis using path_parts_up_and_down [OF assms(1)] by (simp add: ucan_check_iff)
qed

section \<open>Relative paths stay under the root\<close>

lemma rooted_loop_keeps:
  "rooted_loop base cs parts = Inr out \<Longrightarrow> base \<le> length parts \<Longrightarrow>
     base \<le> length out \<and> take base out = take base parts \<and> set out \<subseteq> set parts \<union> {s. NormalComponent s \<in> set cs}"
proof (induction base cs parts rule: rooted_loop.induct)
  case (4 base cs parts)
  then have b: "length parts \<noteq> base" "rooted_loop base cs (butlast parts) = Inr out" "base \<le> length (butlast parts)"
    by (auto split: if_splits)
  moreover have "take base (butlast parts) = take base parts" using "4.prems"(2) b(1) by (intro take_butlast) simp
  moreover have "set (butlast parts) \<subseteq> set parts" by (auto dest: in_set_butlastD)
  ultimately show ?case using "4.IH" by fastforce
qed auto

lemma normal_component_plain: "NormalComponent s \<in> set (components p) \<Longrightarrow> plain_name s"
  by (rule segments_plain [of _ p]) (force simp: segments_def List.map_filter_def)

lemma path_parts_loop_names:
  "path_parts_loop cs parts = Inr out \<Longrightarrow> set out \<subseteq> set parts \<union> {s. NormalComponent s \<in> set cs}"
proof (induction cs parts rule: path_parts_loop.induct)
  case (5 cs parts)
  then show ?case using in_set_butlastD [of _ parts] by (fastforce split: if_splits)
qed auto

lemma path_parts_plain: "path_parts p = Inr parts \<Longrightarrow> q \<in> set parts \<Longrightarrow> plain_name q"
  using path_parts_loop_names [of "components p" "[]" parts] normal_component_plain by (auto simp: path_parts_def)

lemma path_parts_canonical:
  assumes "\<forall>q\<in>set qs. plain_name q"
  shows "path_parts (slashed qs) = Inr qs"
  using path_parts_loop_plain [of qs "[]" "[]"] by (simp add: path_parts_def components_canonical [OF assms])

text \<open>
  A relative path cannot leave the file root of the session. When the public gate accepts a
  relative path, the path it authorizes is the absolute root followed by plain names: parent components of the
  relative path may climb within what the path itself has entered, never above the root, whatever parent
  components and dots the root and the path contain.
\<close>

lemma relative_file_requests_confined:
  assumes ok: "public_file_tool_authorization_path cwd path (Some root) = Inr p" and rel: "\<not> prefix ''/'' (trim path)"
  shows "\<exists>root_path root_parts below. absolute_root_path cwd root = Inr root_path \<and> path_parts root_path = Inr root_parts \<and>
    p = slashed (root_parts @ below) \<and> (\<forall>q\<in>set (root_parts @ below). plain_name q) \<and>
    path_parts p = Inr (root_parts @ below)"
proof -
  from ok rel obtain root_path root_parts parts where
    r: "absolute_root_path cwd root = Inr root_path" "path_parts root_path = Inr root_parts"
      "rooted_loop (length root_parts) (components (trim path)) root_parts = Inr parts" "p = slashed parts"
    by (auto simp: public_file_tool_authorization_path_def rooted_relative_path_def Let_def split: if_splits sum.splits)
  from rooted_loop_keeps [OF r(3)] have t: "take (length root_parts) parts = root_parts"
    "set parts \<subseteq> set root_parts \<union> {s. NormalComponent s \<in> set (components (trim path))}" by auto
  let ?below = "drop (length root_parts) parts"
  have parts: "parts = root_parts @ ?below" by (metis append_take_drop_id t(1))
  have plain: "\<forall>q\<in>set parts. plain_name q"
    using t(2) path_parts_plain [OF r(2)] normal_component_plain by blast
  have "path_parts p = Inr parts" using path_parts_canonical [OF plain] r(4) by simp
  with r plain parts show ?thesis by metis
qed

section \<open>Requests and the policy\<close>

definition covered_by_policy :: "admission_request \<Rightarrow> bool" where
  "covered_by_policy r \<longleftrightarrow> (\<exists>(c, starts, abilities)\<in>set CLANKERS_DAEMON_AUTH_POLICY.
     c = contract r \<and> (\<exists>p\<in>set starts. prefix p (resource r)) \<and> request_ability r \<in> set abilities)"

lemma covered_by_policyI:
  "(c, starts, abilities) \<in> set CLANKERS_DAEMON_AUTH_POLICY \<Longrightarrow> p \<in> set starts \<Longrightarrow> ab \<in> set abilities \<Longrightarrow>
   covered_by_policy \<lparr>contract = c, resource = p @ x, request_ability = ab\<rparr>"
  unfolding covered_by_policy_def
  by (rule bexI [of _ "(c, starts, abilities)"]) (unfold prod.case admission_request.simps, blast intro: prefixI)

lemma policy_entries:
  "(''session-prompt'', [''clankers:session/''], [''session/prompt'']) \<in> set CLANKERS_DAEMON_AUTH_POLICY"
  "(''session-manage'', [''clankers:session/''], [''session/manage'']) \<in> set CLANKERS_DAEMON_AUTH_POLICY"
  "(''tool-use'', [''clankers:tool/''], [''tool/use'']) \<in> set CLANKERS_DAEMON_AUTH_POLICY"
  "(''file-read'', [''clankers:file:''], [''file/read'']) \<in> set CLANKERS_DAEMON_AUTH_POLICY"
  "(''file-write'', [''clankers:file:''], [''file/write'']) \<in> set CLANKERS_DAEMON_AUTH_POLICY"
  "(''shell-execute'', [''clankers:shell:''], [''shell/execute'']) \<in> set CLANKERS_DAEMON_AUTH_POLICY"
  "(''process-action'', [''clankers:process/''],
     [''process/observe'', ''process/start'', ''process/mutate'', ''process/stdin'', ''process/logs'']) \<in> set CLANKERS_DAEMON_AUTH_POLICY"
  "(''model-use'', [''clankers:model/''], [''model/use'']) \<in> set CLANKERS_DAEMON_AUTH_POLICY"
  unfolding CLANKERS_DAEMON_AUTH_POLICY_def by (simp_all only: list.set insert_iff simp_thms)

lemma process_public_ability_listed:
  "process_public_ability op \<in> set [''process/observe'', ''process/start'', ''process/mutate'', ''process/stdin'', ''process/logs'']"
  by (cases op) simp_all

lemma optional_members:
  "set ([a] @ (if P then [b] else []) @ (if Q then [c] else []) @ (if R then [d] else [])) \<subseteq> insert a {b, c, d}"
  by auto

lemma insert_four_subset: "A \<subseteq> insert a {b, c, d} \<Longrightarrow> a \<in> S \<Longrightarrow> b \<in> S \<Longrightarrow> c \<in> S \<Longrightarrow> d \<in> S \<Longrightarrow> A \<subseteq> S"
  by auto

lemma requirement_abilities_listed:
  "set (requirement_public_abilities J self input) \<subseteq>
     set [''process/observe'', ''process/start'', ''process/mutate'', ''process/stdin'', ''process/logs'']"
proof -
  have "set (requirement_public_abilities J self input) \<subseteq>
      insert (process_public_ability (par_operation self)) {''process/logs'', ''process/stdin'', ''process/observe''}"
    unfolding requirement_public_abilities_def remdups_adj_set set_sort by (rule optional_members)
  then show ?thesis by (rule insert_four_subset [OF _ process_public_ability_listed]) (intro list.set_intros)+
qed

lemma file_request_covered:
  assumes "file_request c kind path = Inr r" "kind = FileRead \<and> c = ''file-read'' \<or> kind = FileWrite \<and> c = ''file-write''"
  shows "covered_by_policy r"
proof -
  from assms(1) obtain x where r: "normalize_resource kind path = Inr x" "r = \<lparr>contract = c, resource = x, request_ability = ability kind\<rparr>"
    by (auto simp: file_request_def effect_capability_new_def split: sum.splits)
  have fk: "file_kind kind" using assms(2) by (auto simp: file_kind_def)
  have "x = ''clankers:file:'' @ (case denotes kind path of Inl s \<Rightarrow> percent_encode s | Inr qs \<Rightarrow> slashed qs)"
    using r(1) resource_class_file [OF fk] by (simp add: normalize_resource_eq resource_name_def SCHEME_PREFIX_def)
  then show ?thesis unfolding r(2) using assms(2)
    by (elim disjE conjE) (simp_all only: covered_by_policyI [OF policy_entries(4)] covered_by_policyI [OF policy_entries(5)]
        ability.simps list.set_intros)
qed

lemma covered_single:
  "covered_by_policy (tool_use_request x)"
  "covered_by_policy (shell_request x)"
  "covered_by_policy (public_model_request x)"
  "covered_by_policy (public_prompt_request x)"
  "covered_by_policy (public_session_manage_request x)"
  unfolding public_model_request_def public_prompt_request_def public_session_manage_request_def tool_use_request_def shell_request_def
  by (rule covered_by_policyI [OF policy_entries(3)] covered_by_policyI [OF policy_entries(6)]
      covered_by_policyI [OF policy_entries(8)] covered_by_policyI [OF policy_entries(1)] covered_by_policyI [OF policy_entries(2)];
      rule list.set_intros)+

lemma backend_request_covered:
  "covered_by_policy \<lparr>contract = ''tool-use'', resource = ''clankers:tool/backend%2Fprocess'', request_ability = ''tool/use''\<rparr>"
  using covered_by_policyI [OF policy_entries(3), of "''clankers:tool/''" "''tool/use''" "''backend%2Fprocess''"]
  by (simp only: append.simps list.set_intros)

lemma process_requests_covered:
  assumes "public_process_requests J action input = Inr rs" "r \<in> set rs"
  shows "covered_by_policy r"
proof -
  from assms(1) obtain requirement res where rs: "rs = map (\<lambda>ab. \<lparr>contract = ''process-action'',
        resource = ''clankers:process/'' @ res, request_ability = ab\<rparr>) (requirement_public_abilities J requirement input)
      @ (if requires_backend_selection J input
         then [\<lparr>contract = ''tool-use'', resource = ''clankers:tool/backend%2Fprocess'', request_ability = ''tool/use''\<rparr>] else [])"
    unfolding public_process_requests_def Let_def by (cases "process_action_requirement action") auto
  from assms(2) consider ab where "ab \<in> set (requirement_public_abilities J requirement input)"
      "r = \<lparr>contract = ''process-action'', resource = ''clankers:process/'' @ res, request_ability = ab\<rparr>"
    | "r = \<lparr>contract = ''tool-use'', resource = ''clankers:tool/backend%2Fprocess'', request_ability = ''tool/use''\<rparr>"
    unfolding rs by (auto simp only: set_append set_map image_iff Un_iff list.set empty_iff insert_iff split: if_splits)
  then show ?thesis
  proof cases
    case 1
    from requirement_abilities_listed 1(1)
    have "ab \<in> set [''process/observe'', ''process/start'', ''process/mutate'', ''process/stdin'', ''process/logs'']" by (rule subsetD)
    then show ?thesis unfolding 1(2) by (rule covered_by_policyI [OF policy_entries(7) list.set_intros(1)])
  next
    case 2
    show ?thesis unfolding 2 by (rule backend_request_covered)
  qed
qed

lemma file_tool_requests_covered:
  assumes "file_tool_requests J cwd tools c kind tool input root = Inr rs" "r \<in> set rs"
    "kind = FileRead \<and> c = ''file-read'' \<or> kind = FileWrite \<and> c = ''file-write''"
  shows "covered_by_policy r"
proof -
  from assms(1,2) obtain path where "file_request c kind path = Inr r"
    by (cases "file_request c kind (projr (public_file_tool_authorization_path cwd (projr (required_file_tool_path J tool input)) root))")
       (auto simp: file_tool_requests_def public_file_request_def split: if_splits sum.splits)
  then show ?thesis using assms(3) by (rule file_request_covered)
qed

lemma shell_model_covered: "r \<in> set (shell_tool_requests J tool input) \<union> set (model_tool_requests J tool input) \<Longrightarrow> covered_by_policy r"
  using covered_single(2,3) unfolding shell_tool_requests_def model_tool_requests_def
  by (cases "tool = ''bash''"; cases "tool = ''switch_model''") simp_all

lemma process_tool_requests_covered: "process_tool_requests J tool input = Inr rs \<Longrightarrow> r \<in> set rs \<Longrightarrow> covered_by_policy r"
  unfolding process_tool_requests_def
  by (cases "if tool = ''process'' then get_str J input ''action'' else None") (simp_all only: option.case sum.inject list.set empty_iff process_requests_covered)

lemma public_tool_requests_parts:
  assumes "public_tool_requests J cwd tool input root = Inr rs"
  obtains reads writes process where
    "file_tool_requests J cwd FILE_READ_TOOLS ''file-read'' FileRead tool input root = Inr reads"
    "file_tool_requests J cwd FILE_WRITE_TOOLS ''file-write'' FileWrite tool input root = Inr writes"
    "process_tool_requests J tool input = Inr process"
    "rs = tool_use_request tool # reads @ writes @ shell_tool_requests J tool input @ process @ model_tool_requests J tool input"
  using assms unfolding public_tool_requests_def
  by (cases "file_tool_requests J cwd FILE_READ_TOOLS ''file-read'' FileRead tool input root";
      cases "file_tool_requests J cwd FILE_WRITE_TOOLS ''file-write'' FileWrite tool input root";
      cases "process_tool_requests J tool input") simp_all

text \<open>
  The gate asks only what the policy knows. Every request the public gate makes of the authority,
  for tools, files, shells, process actions, backends, models, prompts and session management, names a
  contract of the daemon's policy, a resource under one of its prefixes and one of its abilities; so no
  call is refused because the gate and the policy disagree on names.
\<close>

lemma public_requests_within_policy:
  "(\<forall>rs. public_tool_requests J cwd tool input root = Inr rs \<longrightarrow> list_all covered_by_policy rs) \<and>
   covered_by_policy (public_prompt_request sid) \<and> covered_by_policy (public_session_manage_request sid) \<and>
   covered_by_policy (public_model_request model)"
proof (intro conjI allI impI covered_single)
  fix rs assume "public_tool_requests J cwd tool input root = Inr rs"
  then obtain reads writes process where
    f: "file_tool_requests J cwd FILE_READ_TOOLS ''file-read'' FileRead tool input root = Inr reads"
       "file_tool_requests J cwd FILE_WRITE_TOOLS ''file-write'' FileWrite tool input root = Inr writes"
    and p: "process_tool_requests J tool input = Inr process"
    and rs: "rs = tool_use_request tool # reads @ writes @ shell_tool_requests J tool input @ process @ model_tool_requests J tool input"
    by (rule public_tool_requests_parts)
  have "covered_by_policy r" if "r \<in> set reads \<union> set writes" for r
    using that file_tool_requests_covered [OF f(1)] file_tool_requests_covered [OF f(2)] by blast
  moreover have "covered_by_policy r" if "r \<in> set process" for r using that by (rule process_tool_requests_covered [OF p])
  ultimately show "list_all covered_by_policy rs"
    using shell_model_covered [of _ J tool input] covered_single(1) [of tool] unfolding rs list_all_iff by auto
qed

section \<open>What the public gate admits\<close>

definition admitted_at ::
  "('tok, 'dec, 'key, 'time, 'ver) ucan_lib \<Rightarrow> 'pol basalt_lib \<Rightarrow> ('tok, 'pol) public_tool_authorization \<Rightarrow> 'time moment \<Rightarrow>
   admission_request \<Rightarrow> bool" where
  "admitted_at L B auth m request \<longleftrightarrow> (\<exists>time v. fst m = Inr time \<and>
     verify_with_did_keys_and_revocations L (pta_envelope auth) time (store_checker (fst (snd m)) (snd (snd m))) = Inr v \<and>
     grants L B (pta_policy auth) v request)"

lemma authorize_request_iff: "authorize_request L B auth m request = Inr () \<longleftrightarrow> admitted_at L B auth m request"
  by (cases m) (auto simp: authorize_request_def admitted_at_def Let_def allowed_with_revocations split: sum.splits)

lemma authorize_all_iff:
  "authorize_all L B auth now i rs = Inr () \<longleftrightarrow> (\<forall>k<length rs. admitted_at L B auth (now (i + k)) (rs ! k))"
proof (induction rs arbitrary: i)
  case (Cons r rs)
  have "authorize_all L B auth now i (r # rs) = Inr () \<longleftrightarrow>
      admitted_at L B auth (now i) r \<and> authorize_all L B auth now (Suc i) rs = Inr ()"
    using authorize_request_iff [of L B auth "now i" r] by (auto split: sum.splits)
  then show ?case unfolding Cons.IH by (auto simp: less_Suc_eq_0_disj)
qed simp

lemma admitted_at_anchored:
  "admitted_at L B auth m request \<Longrightarrow>
     \<exists>a. ancestor L (envelope_proofs (pta_envelope auth)) (envelope_token (pta_envelope auth)) a \<and>
       rooted_in L (trusted_roots (pta_envelope auth)) a"
  unfolding admitted_at_def by (auto dest!: verified_anchored)

text \<open>
  C15 (equivalence). The public gate lets a tool call through exactly when the call translates into requests and each
  of them is granted at its own moment: the session's credential verifies against the clock and the
  revocations of that moment, its token authorizes the resource and ability, and so does the policy. The first
  request names the tool alone, so a call of one tool is never let through by a grant for another, and a
  credential that lets anything through leads to a root it trusts.
\<close>

theorem public_tool_call_admitted:
  "(public_check_tool_call L B J cwd auth now tool input = Inr () \<longleftrightarrow>
     (\<exists>rs. public_tool_requests J cwd tool input (pta_file_authority_root auth) = Inr rs \<and>
        (\<forall>k<length rs. admitted_at L B auth (now k) (rs ! k)))) \<and>
   (\<forall>rs tool' input' rs'. public_tool_requests J cwd tool input root = Inr rs \<and> public_tool_requests J cwd tool' input' root = Inr rs' \<and>
      rs ! 0 = rs' ! 0 \<longrightarrow> tool = tool') \<and>
   (public_check_tool_call L B J cwd auth now tool input = Inr () \<longrightarrow>
     (\<exists>a. ancestor L (envelope_proofs (pta_envelope auth)) (envelope_token (pta_envelope auth)) a \<and>
        rooted_in L (trusted_roots (pta_envelope auth)) a))"
proof -
  have iff: "public_check_tool_call L B J cwd auth now tool input = Inr () \<longleftrightarrow>
     (\<exists>rs. public_tool_requests J cwd tool input (pta_file_authority_root auth) = Inr rs \<and>
        (\<forall>k<length rs. admitted_at L B auth (now k) (rs ! k)))"
    by (auto simp: public_check_tool_call_def authorize_all_iff split: sum.splits)
  moreover have "tool = tool'" if "public_tool_requests J cwd tool input root = Inr rs"
    "public_tool_requests J cwd tool' input' root = Inr rs'" "rs ! 0 = rs' ! 0" for rs tool' input' rs'
  proof -
    from that have "tool_use_request tool = tool_use_request tool'" by (auto elim!: public_tool_requests_parts)
    then have "encode_resource_segment tool = encode_resource_segment tool'"
      unfolding tool_use_request_def admission_request.ext_inject same_append_eq by blast
    then show ?thesis by (rule gate_segments.encode_inj)
  qed
  moreover have "\<exists>a. ancestor L (envelope_proofs (pta_envelope auth)) (envelope_token (pta_envelope auth)) a \<and>
        rooted_in L (trusted_roots (pta_envelope auth)) a" if "public_check_tool_call L B J cwd auth now tool input = Inr ()"
  proof -
    from that iff obtain rs where rs: "public_tool_requests J cwd tool input (pta_file_authority_root auth) = Inr rs"
      "\<forall>k<length rs. admitted_at L B auth (now k) (rs ! k)" by blast
    from rs(1) have "rs \<noteq> []" by (rule public_tool_requests_parts) simp
    with rs(2) have "admitted_at L B auth (now 0) (rs ! 0)" by simp
    then show ?thesis by (rule admitted_at_anchored)
  qed
  ultimately show ?thesis by blast
qed

section \<open>Sample calls\<close>

text \<open>Inputs that are flat objects of strings.\<close>

definition flat_view :: "((string \<times> string) list + string) json_view" where
  "flat_view = \<lparr>jv_get = (\<lambda>v k. case v of Inl flds \<Rightarrow> map_option Inr (map_of flds k) | Inr _ \<Rightarrow> None),
     jv_as_str = (\<lambda>v. case v of Inl _ \<Rightarrow> None | Inr s \<Rightarrow> Some s)\<rparr>"

lemma get_str_flat [simp]: "get_str flat_view (Inl flds) k = map_of flds k"
  by (cases "map_of flds k") (simp_all add: get_str_def flat_view_def)

lemma jv_get_flat [simp]: "jv_get flat_view (Inl flds) k = map_option Inr (map_of flds k)"
  by (simp add: flat_view_def)

lemma trim_read [simp]: "trim ''read'' = ''read''" by (rule trim_plain; simp add: is_graphic_def)

lemma tool_read_star [simp]: "authorizes_tool (CapToolUse ''read'' # cs) ''read''"
  by (simp add: authorizes_tool_def authorizes_any_def match_pattern_def)

theorem session_gate_within_both_witness:
  "session_gate_for None (Some [CapToolUse ''read'', CapModelSwitch]) (Some [CapToolUse ''read'']) =
     (Some (UcanGate [CapToolUse ''read'']) :: (nat, unit) session_gate option) \<and>
   ucan_check_tool_call flat_view [CapToolUse ''read''] ''read'' (Inl []) = Some (Inr ())"
proof -
  let ?token = "[CapToolUse ''read'', CapModelSwitch]" and ?settings = "[CapToolUse ''read'']"
  have gate: "session_gate_for None (Some ?token) (Some ?settings) = (Some (UcanGate [CapToolUse ''read'']) :: (nat, unit) session_gate option)"
    by (simp add: session_gate_for_def pattern_contains_refl)
  have "ucan_check_tool_call flat_view [CapToolUse ''read''] ''read'' (Inl []) = Some (Inr ())"
    by (simp add: ucan_check_iff call_granted_def)
  from session_gate_within_both [OF gate this] gate show ?thesis by simp
qed

theorem file_capability_escapes_witness:
  "ucan_check_tool_call flat_view [CapToolUse ''read'', CapFileAccess ''/srv'' True] ''read'' (Inl [(''path'', ''/srv/../etc'')]) = Some (Inr ()) \<and>
   path_parts ''/srv/../etc'' = Inr [''etc'']"
  using file_capability_escapes [of "[''srv'']" "[''etc'']" flat_view "Inl [(''path'', ''/srv/../etc'')]"]
  by (simp add: plain_name_def)

definition small_authorization :: "(nat, unit) public_tool_authorization" where
  "small_authorization = public_tool_authorization_new small_credential ()"

theorem public_tool_call_admitted_witness:
  "public_check_tool_call small_ucan (e_basalt small_libs) flat_view (Inl ''no cwd'') small_authorization
     (\<lambda>_. (Inr 100, \<lambda>_. no_faults, small_store)) ''bash'' (Inl []) = Inr ()"
proof -
  let ?now = "\<lambda>_ :: nat. (Inr 100 :: string + nat, \<lambda>_ :: proof_reference. no_faults, small_store)"
  have rs: "public_tool_requests flat_view (Inl ''no cwd'') ''bash'' (Inl []) (pta_file_authority_root small_authorization) =
      Inr [tool_use_request ''bash'', shell_request ''.'']"
    by (simp add: public_tool_requests_def file_tool_requests_def FILE_READ_TOOLS_def FILE_WRITE_TOOLS_def
        process_tool_requests_def shell_tool_requests_def model_tool_requests_def)
  have "admitted_at small_ucan (e_basalt small_libs) small_authorization (?now k) r" for k r
    by (simp add: admitted_at_def verify_ok ensure_trusted_root_ok small_authorization_def public_tool_authorization_new_def)
  then have "\<exists>rs. public_tool_requests flat_view (Inl ''no cwd'') ''bash'' (Inl []) (pta_file_authority_root small_authorization) = Inr rs \<and>
      (\<forall>k<length rs. admitted_at small_ucan (e_basalt small_libs) small_authorization (?now k) (rs ! k))"
    using rs by metis
  then show ?thesis by (rule public_tool_call_admitted [THEN conjunct1, THEN iffD2])
qed

end
