(* ===== verification/Agent_Tools.thy ===== *)
theory Agent_Tools
  imports Agent_Stream Tool_Host Capability_Gate
begin

text \<open>
  How the agent executes a tool call: the second part of \<^verbatim>\<open>turn/execution.rs\<close>, with \<^verbatim>\<open>turn/ports.rs\<close>, below
  \<^verbatim>\<open>crates/clankers-agent/src\<close>, and the path policy of \<^verbatim>\<open>clankers-tool-host/src/path_policy.rs\<close>. A call passes the
  cancellation, the capability service, the path policy, the hooks and the Steel substrate before the tool
  runs. The services are trait objects in the code and functions over a world here. The calls of one batch are
  polled concurrently; the agent passes one call at a time, and for one call the model is exact.
\<close>

section \<open>The path policy\<close>

text \<open>The file system at one moment, as the standard library and the \<^verbatim>\<open>dirs\<close> crate show it.\<close>

record path_env =
  pv_home_dir :: "string option"
  pv_current_dir :: "string option"
  pv_exists :: "string \<Rightarrow> bool"
  pv_canonicalize :: "string \<Rightarrow> string option"

definition SENSITIVE_PATHS :: "string list" where
  "SENSITIVE_PATHS = [''.ssh'', ''.gnupg'', ''.aws/credentials'', ''.aws/config'', ''.config/gcloud'', ''.azure'',
     ''.kube/config'', ''.docker/config.json'', ''.npmrc'', ''.pypirc'', ''.cargo/credentials'',
     ''.cargo/credentials.toml'', ''.gem/credentials'', ''.terraform.d/credentials.tfrc.json'', ''.vault-token'',
     ''.config/op'', ''.config/gh'', ''.netrc'', ''.config/clanker-router/auth.json'',
     ''.clankers/agent/auth.json'', ''.pi/agent/auth.json'', ''.bash_history'', ''.zsh_history'',
     ''.local/share/fish/fish_history'']"

definition SENSITIVE_SYSTEM_PATHS :: "string list" where
  "SENSITIVE_SYSTEM_PATHS = [''/etc/shadow'', ''/etc/sudoers'', ''/etc/ssh'', ''/root'']"

record path_policy =
  denied_paths :: "string list"

definition canonical_or_self :: "path_env \<Rightarrow> string \<Rightarrow> string" where
  "canonical_or_self P p = (case pv_canonicalize P p of Some c \<Rightarrow> c | None \<Rightarrow> p)"

definition path_policy_new :: "path_env \<Rightarrow> path_policy" where
  "path_policy_new P = \<lparr>denied_paths =
     (case pv_home_dir P of
        None \<Rightarrow> []
      | Some home \<Rightarrow> map (\<lambda>rel. canonical_or_self P (path_join home rel)) SENSITIVE_PATHS) @
     map (canonical_or_self P) SENSITIVE_SYSTEM_PATHS\<rparr>"

text \<open>\<^verbatim>\<open>Path::parent\<close> and \<^verbatim>\<open>Path::file_name\<close>.\<close>

fun path_of_components :: "string list \<Rightarrow> string" where
  "path_of_components [] = []"
| "path_of_components (c # cs) = (if c = ''/'' then ''/'' @ join_with ''/'' cs else join_with ''/'' (c # cs))"

definition path_parent :: "string \<Rightarrow> string option" where
  "path_parent p = (let cs = path_components p
     in if cs = [] \<or> last cs = ''/'' then None else Some (path_of_components (butlast cs)))"

definition path_file_name :: "string \<Rightarrow> string option" where
  "path_file_name p = (let cs = path_components p
     in if cs = [] \<or> last cs \<in> {''/'', ''.'', ''..''} then None else Some (last cs))"

definition expand_home :: "path_env \<Rightarrow> string \<Rightarrow> string" where
  "expand_home P raw_path = (if prefix ''~/'' raw_path
     then case pv_home_dir P of Some home \<Rightarrow> path_join home (drop 2 raw_path) | None \<Rightarrow> raw_path
     else raw_path)"

definition make_absolute :: "path_env \<Rightarrow> string \<Rightarrow> string" where
  "make_absolute P path = (if prefix ''/'' path then path
     else path_join (case pv_current_dir P of Some d \<Rightarrow> d | None \<Rightarrow> ''.'') path)"

definition make_canonical :: "path_env \<Rightarrow> string \<Rightarrow> string" where
  "make_canonical P absolute =
     (if pv_exists P absolute then canonical_or_self P absolute
      else case path_parent absolute of
        None \<Rightarrow> absolute
      | Some parent \<Rightarrow>
          if pv_exists P parent
          then path_join (canonical_or_self P parent) (case path_file_name absolute of Some n \<Rightarrow> n | None \<Rightarrow> [])
          else absolute)"

definition policy_check :: "path_policy \<Rightarrow> path_env \<Rightarrow> string \<Rightarrow> string option" where
  "policy_check self P raw_path =
     (let canonical = make_canonical P (make_absolute P (expand_home P raw_path))
      in map_option (\<lambda>d. ''blocked: '' @ raw_path @ '' is inside sensitive path '' @ d)
           (find (\<lambda>d. path_starts_with canonical d) (denied_paths self)))"

definition check_path_policy :: "path_env \<Rightarrow> string \<Rightarrow> string option" where
  "check_path_policy P = policy_check (path_policy_new P) P"

text \<open>\<^verbatim>\<open>str::split_whitespace\<close>.\<close>

fun split_spaces :: "nat \<Rightarrow> string \<Rightarrow> string \<Rightarrow> string list" where
  "split_spaces 0 word s = [word]"
| "split_spaces (Suc n) word [] = [word]"
| "split_spaces (Suc n) word (c # s) = (case find (\<lambda>w. prefix w (c # s)) white_space of
     None \<Rightarrow> split_spaces n (word @ [c]) s
   | Some w \<Rightarrow> word # split_spaces n [] (drop (length w) (c # s)))"

definition split_whitespace :: "string \<Rightarrow> string list" where
  "split_whitespace s = filter (\<lambda>w. w \<noteq> []) (split_spaces (length s) [] s)"

fun first_reason :: "('a \<Rightarrow> string option) \<Rightarrow> 'a list \<Rightarrow> string option" where
  "first_reason f [] = None"
| "first_reason f (x # xs) = (case f x of Some why \<Rightarrow> Some why | None \<Rightarrow> first_reason f xs)"

definition PATH_KEYS :: "string list" where
  "PATH_KEYS = [''path'', ''file'', ''directory'', ''cwd'']"

definition command_path_tokens :: "string \<Rightarrow> string list" where
  "command_path_tokens cmd = filter (\<lambda>t. prefix ''/'' t \<or> prefix ''~/'' t) (split_whitespace cmd)"

definition check_tool_paths :: "'v json_view \<Rightarrow> path_env \<Rightarrow> 'v \<Rightarrow> string option" where
  "check_tool_paths J P input =
     (case first_reason (\<lambda>key. Option.bind (get_str J input key) (check_path_policy P)) PATH_KEYS of
        Some why \<Rightarrow> Some why
      | None \<Rightarrow> (case get_str J input ''command'' of
          None \<Rightarrow> None
        | Some cmd \<Rightarrow> first_reason (check_path_policy P) (command_path_tokens cmd)))"

section \<open>Results and events\<close>

datatype tool_result_content = ResultText string | ResultImage string string

record 'v tool_result =
  res_content :: "tool_result_content list"
  res_is_error :: bool
  res_details :: "'v option"
  res_full_output_path :: "string option"

definition tool_result_failure :: "string \<Rightarrow> 'v tool_result" where
  "tool_result_failure msg = \<lparr>res_content = [ResultText msg], res_is_error = True, res_details = None, res_full_output_path = None\<rparr>"

fun result_block_to_content :: "tool_result_content \<Rightarrow> 'v content" where
  "result_block_to_content (ResultText t) = ContentText t"
| "result_block_to_content (ResultImage media_type data) = ContentImage (Base64 media_type data)"

definition tool_result_content_to_message_content :: "tool_result_content list \<Rightarrow> 'v content list" where
  "tool_result_content_to_message_content = map result_block_to_content"

text \<open>The events of the agent that the modelled code sends.\<close>

datatype ('v, 't) agent_event =
    AeTurnStart u32
  | AeTurnEnd u32 "('v, 't) assistant_message" "('v, 't) tool_result_message list"
  | AeStream "'v stream_notice"
  | AeToolCall string string 'v
  | AeToolExecutionStart string string
  | AeToolExecutionEnd string "'v tool_result" bool
  | AeModelChange string string string
  | AeUsageUpdate usage usage
  | AeSystemMessage string

section \<open>Services\<close>

text \<open>A tool, and what the planner of the Steel substrate answers for a call, given the source and the backend of the tool: the status, the texts of its
  receipt and of the block message, and the details of the blocked result.\<close>

datatype tool_execution_backend = RustBuiltin | WasmPlugin | StdioPlugin | Subagent

record ('v, 'w) agent_tool =
  tool_source :: string
  execution_backend :: tool_execution_backend
  uses_neutral_tool_context :: bool
  execute_with_neutral_context :: "(unit, 'w) tool_invocation_context \<Rightarrow> 'v \<Rightarrow> 'w \<Rightarrow> 'v tool_result \<times> 'w"
  execute_legacy :: "string \<Rightarrow> 'v \<Rightarrow> 'w \<Rightarrow> 'v tool_result \<times> 'w"

datatype steel_tool_substrate_status = SubstrateAuthorized | FallbackUsed | SubstrateBlocked | SubstrateDenied | SubstrateFailed

record 'v steel_receipt =
  sr_status :: steel_tool_substrate_status
  sr_message :: string
  sr_blocked_text :: string
  sr_blocked_details :: 'v

record ('v, 't, 'w) controller_tool_services =
  cs_json :: "'v json_view"
  cs_null :: 'v
  cs_truncation_json :: "tool_truncation_metadata \<Rightarrow> 'v"
  cs_result_json :: "'v tool_result \<Rightarrow> 'v"
  cs_paths :: "'w \<Rightarrow> path_env"
  cs_stamp :: "'w \<Rightarrow> (message_id \<times> 't) \<times> 'w"
  cs_progress :: "'w progress_sink"
  cs_cancelled :: "'w \<Rightarrow> bool"
  cs_storage :: bool
  cs_search :: bool
  cs_hooks :: "('v tool_hook_request \<Rightarrow> 'w \<Rightarrow> (tool_host_error + 'v tool_hook_decision) \<times> 'w) option"
  cs_capability :: "('v tool_capability_request \<Rightarrow> 'w \<Rightarrow> (tool_host_error + capability_decision) \<times> 'w) option"
  cs_substrate :: "(string \<Rightarrow> tool_execution_backend \<Rightarrow> string \<Rightarrow> string \<Rightarrow> 'v \<Rightarrow> 'v steel_receipt) option"

definition add_service :: "bool \<Rightarrow> tool_host_service_kind \<Rightarrow> tool_host_services \<Rightarrow> tool_host_services" where
  "add_service present kind m = (if present then with_service (available kind) m else m)"

definition invocation_context :: "('v, 't, 'w) controller_tool_services \<Rightarrow> string \<Rightarrow> (unit, 'w) tool_invocation_context" where
  "invocation_context S call_id =
     (let m = with_service (available CancellationService) (with_service (available ProgressService) services_empty);
          m = add_service (cs_storage S) StorageService m;
          m = add_service (cs_search S) SearchService m;
          m = add_service (cs_hooks S \<noteq> None) HooksService m;
          m = add_service (cs_capability S \<noteq> None) CapabilityService m;
          ctx = context_with_cancellation_service ()
            (context_with_progress_sink (cs_progress S) (context_with_services m (context_new call_id)));
          ctx = (if cs_storage S then context_with_storage_service () ctx else ctx);
          ctx = (if cs_search S then context_with_search_service () ctx else ctx);
          ctx = (if cs_hooks S \<noteq> None then context_with_hook_service () ctx else ctx)
      in if cs_capability S \<noteq> None then context_with_capability_service () ctx else ctx)"

definition cancellation_state :: "('v, 't, 'w) controller_tool_services \<Rightarrow> 'w \<Rightarrow> tool_invocation_cancellation" where
  "cancellation_state S w = (if cs_cancelled S w then cancellation_cancelled ''cancelled'' else cancellation_active)"

text \<open>The capability service of the controller: the gate of the session, then the tools of the user.\<close>

definition filter_admits :: "string list \<Rightarrow> string \<Rightarrow> bool" where
  "filter_admits patterns name \<longleftrightarrow>
     list_ex (\<lambda>p. p = ''*'' \<or> list_ex (\<lambda>candidate. trim candidate = name) (split_on (CHR '','') p)) patterns"

definition controller_capability_check ::
  "(string \<Rightarrow> 'v \<Rightarrow> 'w \<Rightarrow> (string + unit) \<times> 'w) option \<Rightarrow> string list option \<Rightarrow> 'v tool_capability_request \<Rightarrow> 'w \<Rightarrow>
   (tool_host_error + capability_decision) \<times> 'w" where
  "controller_capability_check capability_gate user_tool_filter request w =
     (let (verdict, w) = (case capability_gate of
            None \<Rightarrow> (Inr (), w) | Some gate \<Rightarrow> gate (cr_tool_name request) (cr_input request) w)
      in case verdict of
        Inl why \<Rightarrow> (Inr (Denied why), w)
      | Inr _ \<Rightarrow>
          (case user_tool_filter of
             Some patterns \<Rightarrow>
               if filter_admits patterns (cr_tool_name request) then (Inr Allowed, w)
               else (Inr (Denied ''Tool not in active capability set (use /capabilities to adjust)''), w)
           | None \<Rightarrow> (Inr Allowed, w)))"

definition controller_capability_service ::
  "(string \<Rightarrow> 'v \<Rightarrow> 'w \<Rightarrow> (string + unit) \<times> 'w) option \<Rightarrow> string list option \<Rightarrow>
   ('v tool_capability_request \<Rightarrow> 'w \<Rightarrow> (tool_host_error + capability_decision) \<times> 'w) option" where
  "controller_capability_service gate user_tool_filter =
     (if gate \<noteq> None \<or> user_tool_filter \<noteq> None then Some (controller_capability_check gate user_tool_filter) else None)"

section \<open>Result messages\<close>

definition tool_result_message ::
  "('v, 't, 'w) controller_tool_services \<Rightarrow> string \<Rightarrow> string \<Rightarrow> 'v content list \<Rightarrow> bool \<Rightarrow> 'v \<Rightarrow> 'w \<Rightarrow>
   ('v, 't) tool_result_message \<times> 'w" where
  "tool_result_message S call_id tool_name content is_error details w =
     (let ((i, t), w) = cs_stamp S w
      in (\<lparr>tm_id = i, tm_call_id = call_id, tm_tool_name = tool_name, tm_content = content, tm_is_error = is_error,
           tm_details = (if details = cs_null S then None else Some details), tm_timestamp = t\<rparr>, w))"

definition tool_result_error ::
  "('v, 't, 'w) controller_tool_services \<Rightarrow> string \<Rightarrow> string \<Rightarrow> string \<Rightarrow> 'w \<Rightarrow> ('v, 't) tool_result_message \<times> 'w" where
  "tool_result_error S call_id tool_name message = tool_result_message S call_id tool_name [ContentText message] True (cs_null S)"

text \<open>The icons of the messages, a lock and a hook, are four bytes each.\<close>

definition LOCK_ICON :: string where "LOCK_ICON = [CHR 0xF0, CHR 0x9F, CHR 0x94, CHR 0x92]"
definition HOOK_ICON :: string where "HOOK_ICON = [CHR 0xF0, CHR 0x9F, CHR 0xAA, CHR 0x9D]"

fun tool_result_message_from_host_outcome ::
  "('v, 't, 'w) controller_tool_services \<Rightarrow> string \<Rightarrow> string \<Rightarrow> 'v tool_host_outcome \<Rightarrow> 'w \<Rightarrow>
   ('v, 't) tool_result_message \<times> 'w" where
  "tool_result_message_from_host_outcome S cid name (Succeeded content details) =
     tool_result_message S cid name content False details"
| "tool_result_message_from_host_outcome S cid name (ToolError content details message) =
     tool_result_message S cid name (if content = [] then [ContentText message] else content) True details"
| "tool_result_message_from_host_outcome S cid name (MissingTool n) =
     tool_result_error S cid name (''Tool '' @ [CHR 0x27] @ n @ [CHR 0x27] @ '' not found'')"
| "tool_result_message_from_host_outcome S cid name (CapabilityDenied n why) =
     tool_result_error S cid name (LOCK_ICON @ '' '' @ n @ '': '' @ why)"
| "tool_result_message_from_host_outcome S cid name (ToolCancelled n) =
     tool_result_error S cid name (''tool cancelled: '' @ n)"
| "tool_result_message_from_host_outcome S cid name (Truncated content metadata) =
     tool_result_message S cid name content False (cs_truncation_json S metadata)"

definition tool_result_message_to_host_outcome ::
  "'v \<Rightarrow> ('v, 't) tool_result_message \<Rightarrow> 'v tool_host_outcome" where
  "tool_result_message_to_host_outcome null m =
     (let details = (case tm_details m of Some d \<Rightarrow> d | None \<Rightarrow> null)
      in if tm_is_error m
         then ToolError (tm_content m) details
           (case first_text_block (tm_content m) of Some t \<Rightarrow> t | None \<Rightarrow> DEFAULT_TOOL_FAILURE_MESSAGE)
         else Succeeded (tm_content m) details)"

text \<open>A call that does not run: its end is announced and the message is an error.\<close>

definition create_error_result ::
  "('w \<Rightarrow> (message_id \<times> 't) \<times> 'w) \<Rightarrow> string \<Rightarrow> string \<Rightarrow> string \<Rightarrow> 'w \<Rightarrow>
   ('v, 't) tool_result_message \<times> ('v, 't) agent_event list \<times> 'w" where
  "create_error_result stamp call_id tool_name error_msg w =
     (let result = tool_result_failure error_msg; ((i, t), w) = stamp w
      in (\<lparr>tm_id = i, tm_call_id = call_id, tm_tool_name = tool_name,
           tm_content = tool_result_content_to_message_content (res_content result), tm_is_error = True,
           tm_details = res_details result, tm_timestamp = t\<rparr>, [AeToolExecutionEnd call_id result True], w))"

definition create_error_result_from_host_outcome ::
  "('v, 't, 'w) controller_tool_services \<Rightarrow> string \<Rightarrow> string \<Rightarrow> 'v tool_host_outcome \<Rightarrow> 'w \<Rightarrow>
   ('v, 't) tool_result_message \<times> ('v, 't) agent_event list \<times> 'w" where
  "create_error_result_from_host_outcome S call_id tool_name out w =
     (let (m, w) = tool_result_message_from_host_outcome S call_id tool_name out w
      in create_error_result (cs_stamp S) call_id tool_name
           (case first_text_block (tm_content m) of Some t \<Rightarrow> t | None \<Rightarrow> ''tool execution failed'') w)"

section \<open>One call\<close>

text \<open>The capability service, if there is one: an error, or the decision.\<close>

definition capability_decision_for ::
  "('v, 't, 'w) controller_tool_services \<Rightarrow> string \<Rightarrow> string \<Rightarrow> 'v \<Rightarrow> 'w \<Rightarrow> (tool_host_error + capability_decision) \<times> 'w" where
  "capability_decision_for S call_id tool_name input w = (case cs_capability S of
     None \<Rightarrow> (Inr Allowed, w)
   | Some check \<Rightarrow> check (capability_request_new call_id tool_name input) w)"

text \<open>The hook before the call: the text of a refusal, or the input the tool gets.\<close>

definition effective_input ::
  "('v, 't, 'w) controller_tool_services \<Rightarrow> string \<Rightarrow> string \<Rightarrow> 'v \<Rightarrow> 'w \<Rightarrow> (string + 'v) \<times> 'w" where
  "effective_input S call_id tool_name input w = (case cs_hooks S of
     None \<Rightarrow> (Inr input, w)
   | Some decide \<Rightarrow>
       (let (decision, w) = decide (hook_before call_id tool_name input) w
        in (case decision of
             Inl (HostFailed message) \<Rightarrow> Inl (''tool host failed: '' @ message)
           | Inr (HookDeny why) \<Rightarrow> Inl (HOOK_ICON @ '' Hook denied: '' @ why)
           | Inr (HookModify input') \<Rightarrow> Inr input'
           | Inr HookContinue \<Rightarrow> Inr input, w)))"

definition fire_post_tool_hook ::
  "('v, 't, 'w) controller_tool_services \<Rightarrow> string \<Rightarrow> string \<Rightarrow> 'v tool_result \<Rightarrow> 'w \<Rightarrow> 'w" where
  "fire_post_tool_hook S tool_name call_id result w = (case cs_hooks S of
     None \<Rightarrow> w
   | Some decide \<Rightarrow> snd (decide (hook_after call_id tool_name (cs_result_json S result)) w))"

text \<open>The receipt of the substrate is announced; a blocked or denied one is the error.\<close>

definition authorize_tool_invocation ::
  "('v, 't, 'w) controller_tool_services \<Rightarrow> ('v, 'w) agent_tool \<Rightarrow> string \<Rightarrow> string \<Rightarrow> 'v \<Rightarrow>
   ('v steel_receipt + 'v steel_receipt option) \<times> ('v, 't) agent_event list" where
  "authorize_tool_invocation S tool call_id tool_name input = (case cs_substrate S of
     None \<Rightarrow> (Inr None, [])
   | Some plan \<Rightarrow>
       (let rcpt = plan (tool_source tool) (execution_backend tool) call_id tool_name input
        in (if sr_status rcpt = SubstrateBlocked \<or> sr_status rcpt = SubstrateDenied then Inl rcpt else Inr (Some rcpt),
            [AeSystemMessage (sr_message rcpt)])))"

definition blocked_receipt_to_tool_result ::
  "('v, 't, 'w) controller_tool_services \<Rightarrow> string \<Rightarrow> string \<Rightarrow> 'v steel_receipt \<Rightarrow> 'w \<Rightarrow> ('v, 't) tool_result_message \<times> 'w" where
  "blocked_receipt_to_tool_result S call_id tool_name rcpt w =
     (let ((i, t), w) = cs_stamp S w
      in (\<lparr>tm_id = i, tm_call_id = call_id, tm_tool_name = tool_name, tm_content = [ContentText (sr_blocked_text rcpt)],
           tm_is_error = True, tm_details = Some (sr_blocked_details rcpt), tm_timestamp = t\<rparr>, w))"

definition run_tool ::
  "('v, 't, 'w) controller_tool_services \<Rightarrow> (unit, 'w) tool_invocation_context \<Rightarrow> ('v, 'w) agent_tool \<Rightarrow> string \<Rightarrow> string \<Rightarrow>
   'v \<Rightarrow> 'w \<Rightarrow> ('v, 't) tool_result_message \<times> ('v, 't) agent_event list \<times> 'w" where
  "run_tool S ctx tool call_id tool_name input w =
     (let (result, w) = (if uses_neutral_tool_context tool then execute_with_neutral_context tool ctx input w
            else execute_legacy tool call_id input w);
          w = fire_post_tool_hook S tool_name call_id result w;
          ((i, t), w) = cs_stamp S w
      in (\<lparr>tm_id = i, tm_call_id = call_id, tm_tool_name = tool_name,
           tm_content = tool_result_content_to_message_content (res_content result), tm_is_error = res_is_error result,
           tm_details = res_details result, tm_timestamp = t\<rparr>,
          [AeToolExecutionStart call_id tool_name, AeToolExecutionEnd call_id result (res_is_error result)], w))"

definition and_events :: "'e list \<Rightarrow> 'm \<times> 'e list \<times> 'w \<Rightarrow> 'm \<times> 'e list \<times> 'w" where
  "and_events evs r = (fst r, evs @ fst (snd r), snd (snd r))"

definition admitted_tool ::
  "('v, 't, 'w) controller_tool_services \<Rightarrow> (unit, 'w) tool_invocation_context \<Rightarrow> ('v, 'w) agent_tool \<Rightarrow> string \<Rightarrow> string \<Rightarrow>
   'v \<Rightarrow> 'w \<Rightarrow> ('v, 't) tool_result_message \<times> ('v, 't) agent_event list \<times> 'w" where
  "admitted_tool S ctx tool call_id tool_name input w =
     (case check_tool_paths (cs_json S) (cs_paths S w) input of
        Some why \<Rightarrow> create_error_result (cs_stamp S) call_id tool_name (LOCK_ICON @ '' '' @ why) w
      | None \<Rightarrow>
          (case effective_input S call_id tool_name input w of
             (Inl msg, w) \<Rightarrow> create_error_result (cs_stamp S) call_id tool_name msg w
           | (Inr input', w) \<Rightarrow>
               (case authorize_tool_invocation S tool call_id tool_name input' of
                  (Inl rcpt, evs) \<Rightarrow>
                    (let (m, w) = blocked_receipt_to_tool_result S call_id tool_name rcpt w in (m, evs, w))
                | (Inr _, evs) \<Rightarrow> and_events evs (run_tool S ctx tool call_id tool_name input' w))))"

definition execute_single_tool ::
  "('v, 't, 'w) controller_tool_services \<Rightarrow> ('v, 'w) agent_tool option \<Rightarrow> string \<Rightarrow> string \<Rightarrow> 'v \<Rightarrow> 'w \<Rightarrow>
   ('v, 't) tool_result_message \<times> ('v, 't) agent_event list \<times> 'w" where
  "execute_single_tool S tool call_id tool_name input w = and_events [AeToolCall tool_name call_id input]
     (let ctx = context_with_cancellation (cancellation_state S w) (invocation_context S call_id)
      in case ensure_not_cancelled ctx tool_name of
        Inl out \<Rightarrow> create_error_result_from_host_outcome S call_id tool_name out w
      | Inr _ \<Rightarrow>
          (case capability_decision_for S call_id tool_name input w of
             (Inl (HostFailed message), w) \<Rightarrow> create_error_result (cs_stamp S) call_id tool_name (''tool host failed: '' @ message) w
           | (Inr decision, w) \<Rightarrow>
               (let ctx = (if cs_capability S \<noteq> None then context_with_capability decision ctx else ctx)
                in case ensure_allowed ctx tool_name of
                  Inl out \<Rightarrow> create_error_result_from_host_outcome S call_id tool_name out w
                | Inr _ \<Rightarrow>
                    (case tool of
                       None \<Rightarrow> create_error_result (cs_stamp S) call_id tool_name (''Tool '' @ [CHR 0x27] @ tool_name @ [CHR 0x27] @ '' not found'') w
                     | Some t \<Rightarrow> admitted_tool S ctx t call_id tool_name input w))))"

text \<open>The executor of one call, and a batch of calls. The message is made again from the outcome.\<close>

definition execute_tool_call ::
  "('v, 't, 'w) controller_tool_services \<Rightarrow> (string \<Rightarrow> ('v, 'w) agent_tool option) \<Rightarrow> string \<times> string \<times> 'v \<Rightarrow> 'w \<Rightarrow>
   ('v, 't) tool_result_message \<times> ('v, 't) agent_event list \<times> 'w" where
  "execute_tool_call S tools call w =
     (let (call_id, tool_name, input) = call;
          (m, evs, w) = execute_single_tool S (tools tool_name) call_id tool_name input w;
          (m, w) = tool_result_message_from_host_outcome S call_id tool_name (tool_result_message_to_host_outcome (cs_null S) m) w
      in (m, evs, w))"

fun execute_tools_parallel ::
  "('v, 't, 'w) controller_tool_services \<Rightarrow> (string \<Rightarrow> ('v, 'w) agent_tool option) \<Rightarrow> (string \<times> string \<times> 'v) list \<Rightarrow> 'w \<Rightarrow>
   ('v, 't) tool_result_message list \<times> ('v, 't) agent_event list \<times> 'w" where
  "execute_tools_parallel S tools [] w = ([], [], w)"
| "execute_tools_parallel S tools (call # calls) w =
     (let (m, evs, w) = execute_tool_call S tools call w; (ms, evs', w) = execute_tools_parallel S tools calls w
      in (m # ms, evs @ evs', w))"

section \<open>Refused calls\<close>

lemma create_error_result_is_error:
  "create_error_result stamp cid name msg w = (m, evs, w') \<Longrightarrow>
   tm_is_error m \<and> tm_call_id m = cid \<and> tm_content m = [ContentText msg] \<and> evs = [AeToolExecutionEnd cid (tool_result_failure msg) True]"
  by (auto simp: create_error_result_def tool_result_failure_def tool_result_content_to_message_content_def Let_def split: prod.splits)

text \<open>An outcome that is the same whatever the tool does, and an error.\<close>

definition refuses :: "string \<Rightarrow> (('v, 'w) agent_tool \<Rightarrow> ('v, 't) tool_result_message \<times> ('v, 't) agent_event list \<times> 'w) \<Rightarrow> bool" where
  "refuses cid f \<longleftrightarrow> (\<exists>r. (\<forall>t. f t = r) \<and> tm_is_error (fst r) \<and> tm_call_id (fst r) = cid)"

lemma refuses_error [intro]: "refuses cid (\<lambda>t. create_error_result stamp cid name msg w)"
  by (auto simp: refuses_def create_error_result_def Let_def split: prod.splits)

lemma refuses_error_outcome [intro]: "refuses cid (\<lambda>t. create_error_result_from_host_outcome S cid name out w)"
  by (auto simp: create_error_result_from_host_outcome_def split: prod.splits)

lemma refuses_and_events: "refuses cid f \<Longrightarrow> refuses cid (\<lambda>t. and_events evs (f t))"
  by (auto simp: refuses_def and_events_def)

lemma invocation_context_allowed [simp]: "ctx_capability (invocation_context S cid) = Allowed"
  by (simp add: invocation_context_def context_with_cancellation_service_def context_with_progress_sink_def
      context_with_services_def context_new_def context_with_storage_service_def context_with_search_service_def
      context_with_hook_service_def context_with_capability_service_def Let_def)

lemma context_fields [simp]:
  "ctx_capability (context_with_capability d c) = d"
  "ctx_cancellation (context_with_cancellation x c) = x"
  "ctx_capability (context_with_cancellation x c) = ctx_capability c"
  "cancelled (cancellation_state S w) = cs_cancelled S w"
  by (simp_all add: context_with_capability_def context_with_cancellation_def cancellation_state_def
      cancellation_cancelled_def cancellation_active_def)

lemma context_still_allowed:
  "context_with_capability Allowed (context_with_cancellation x (invocation_context S cid)) =
   context_with_cancellation x (invocation_context S cid)"
proof -
  have "ctx_capability c = Allowed \<Longrightarrow> context_with_capability Allowed c = c" for c :: "(unit, 'a) tool_invocation_context"
    by (simp add: context_with_capability_def)
  then show ?thesis by simp
qed

text \<open>A call reaches the path policy only when it is neither cancelled nor denied, and then with this context.\<close>

definition call_context :: "('v, 't, 'w) controller_tool_services \<Rightarrow> string \<Rightarrow> 'w \<Rightarrow> (unit, 'w) tool_invocation_context" where
  "call_context S cid w = context_with_cancellation (cancellation_state S w) (invocation_context S cid)"

lemma admitted_call:
  assumes "\<not> cs_cancelled S w" "capability_decision_for S cid name input w = (Inr Allowed, w1)"
  shows "execute_single_tool S (Some t) cid name input w =
    and_events [AeToolCall name cid input] (admitted_tool S (call_context S cid w) t cid name input w1)"
  using assms by (auto simp: execute_single_tool_def ensure_not_cancelled_def ensure_allowed_def context_still_allowed call_context_def Let_def)

lemma refuses_cases:
  assumes "capability_decision_for S cid name input w = (d, w1)"
    and "d = Inr Allowed \<Longrightarrow> \<not> cs_cancelled S w \<Longrightarrow>
      refuses cid (\<lambda>t. admitted_tool S (call_context S cid w) t cid name input w1)"
  shows "refuses cid (\<lambda>t. execute_single_tool S (Some t) cid name input w)"
proof (cases "d = Inr Allowed \<and> \<not> cs_cancelled S w")
  case True
  with assms show ?thesis by (simp add: admitted_call refuses_and_events)
next
  case False
  have "cs_capability S = None \<Longrightarrow> d = Inr Allowed" using assms(1) by (simp add: capability_decision_for_def)
  with False assms(1) show ?thesis
    by (cases d; cases "cs_cancelled S w") (auto simp: execute_single_tool_def ensure_not_cancelled_def ensure_allowed_def Let_def
        intro!: refuses_and_events split: tool_host_error.splits capability_decision.splits)
qed

lemma admitted_tool_refuses:
  assumes "check_tool_paths (cs_json S) (cs_paths S w) input \<noteq> None \<or> (\<exists>msg. fst (effective_input S cid name input w) = Inl msg)"
  shows "refuses cid (\<lambda>t. admitted_tool S ctx t cid name input w)"
proof (cases "check_tool_paths (cs_json S) (cs_paths S w) input")
  case None
  with assms obtain msg w' where "effective_input S cid name input w = (Inl msg, w')" by (metis prod.collapse)
  with None show ?thesis by (auto simp: admitted_tool_def)
qed (auto simp: admitted_tool_def)

text \<open>C5 (safety). No tool runs unless every check passes. Take the services of a session with a capability gate and
  perhaps a tool filter of the user. When the call is cancelled, or the gate refuses it, or the filter does not list
  the tool, or a path of the input is sensitive, or the hook before the call refuses or fails, then the outcome does
  not depend on the tool at all, and it is an error message for that call.\<close>

theorem refused_call_never_runs:
  assumes "cs_capability S = controller_capability_service (Some gate) user_tool_filter"
    and "gate (safe_metadata_key name) input w = (verdict, w')"
    and "cs_cancelled S w \<or> (\<exists>why. verdict = Inl why) \<or>
      (\<exists>patterns. user_tool_filter = Some patterns \<and> \<not> filter_admits patterns (safe_metadata_key name)) \<or>
      check_tool_paths (cs_json S) (cs_paths S w') input \<noteq> None \<or>
      (\<exists>msg. fst (effective_input S cid name input w') = Inl msg)"
  shows "\<exists>r. (\<forall>t. execute_single_tool S (Some t) cid name input w = r) \<and> tm_is_error (fst r) \<and> tm_call_id (fst r) = cid"
proof -
  have "\<exists>d. capability_decision_for S cid name input w = (Inr d, w') \<and> (d = Allowed \<longrightarrow> verdict = Inr () \<and>
      (\<forall>patterns. user_tool_filter = Some patterns \<longrightarrow> filter_admits patterns (safe_metadata_key name)))"
    using assms(1,2) by (cases verdict; cases user_tool_filter) (auto simp: capability_decision_for_def
        controller_capability_service_def controller_capability_check_def capability_request_new_def)
  then obtain d where d: "capability_decision_for S cid name input w = (Inr d, w')"
      "d = Allowed \<Longrightarrow> verdict = Inr () \<and> (\<forall>patterns. user_tool_filter = Some patterns \<longrightarrow> filter_admits patterns (safe_metadata_key name))"
    by blast
  have "refuses cid (\<lambda>t. execute_single_tool S (Some t) cid name input w)"
  proof (rule refuses_cases [OF d(1)])
    assume "Inr d = (Inr Allowed :: tool_host_error + capability_decision)" "\<not> cs_cancelled S w"
    with d(2) assms(3) show "refuses cid (\<lambda>t. admitted_tool S (call_context S cid w) t cid name input w')"
      by (intro admitted_tool_refuses) auto
  qed
  then show ?thesis by (auto simp: refuses_def)
qed

text \<open>The checks read the input of the model and not the input that runs. When a call passes the gate and the
  path policy and the hook before the call replaces its input, the tool runs with the replacement, whatever the gate
  or the policy would say of that.\<close>

lemma hook_input_unchecked:
  assumes "\<not> cs_cancelled S w" "cs_capability S = controller_capability_service (Some gate) None"
    and "gate (safe_metadata_key name) input w = (Inr (), w1)" "check_tool_paths (cs_json S) (cs_paths S w1) input = None"
    and "cs_hooks S = Some decide" "decide (hook_before cid name input) w1 = (Inr (HookModify input'), w2)"
    and "cs_substrate S = None" "\<not> uses_neutral_tool_context t"
  shows "let r = execute_single_tool S (Some t) cid name input w; out = fst (execute_legacy t cid input' w2)
    in tm_content (fst r) = tool_result_content_to_message_content (res_content out) \<and> tm_is_error (fst r) = res_is_error out \<and>
       AeToolExecutionStart cid name \<in> set (fst (snd r))"
proof -
  have "capability_decision_for S cid name input w = (Inr Allowed, w1)"
    using assms(2,3) by (simp add: capability_decision_for_def controller_capability_service_def controller_capability_check_def
        capability_request_new_def)
  note run = admitted_call [OF assms(1) this]
  have "effective_input S cid name input w1 = (Inr input', w2)" using assms(5,6) by (simp add: effective_input_def)
  then show ?thesis
    using assms(4,7,8) unfolding run
    by (simp add: admitted_tool_def authorize_tool_invocation_def run_tool_def and_events_def Let_def split: prod.splits)
qed

section \<open>The path policy and its gap\<close>

lemma split_on_at: "split_on c (b @ c # s) = split_on c b @ split_on c s"
proof (induction b)
  case (Cons a b)
  obtain p ps where "split_on c b = p # ps" using split_on_nonempty by (metis neq_Nil_conv)
  with Cons show ?case by simp
qed simp

text \<open>The directory that the path names before the invented name, as components; it is given without its last slash.\<close>

definition base_components :: "string \<Rightarrow> string list" where
  "base_components base = path_components (base @ ''/'')"

lemma path_components_escape:
  assumes "base = [] \<or> prefix ''/'' base" "x \<noteq> []" "x \<noteq> ''.''" "CHR ''/'' \<notin> set x"
  shows "\<exists>cs. path_components (base @ ''/'' @ x @ ''/../'' @ rest) = base_components base @ x # ''..'' # cs"
proof -
  have x: "split_on (CHR ''/'') (x @ CHR ''/'' # q) = x # split_on (CHR ''/'') q" for q
    using assms(4) by (simp add: split_on_append)
  have dots: "split_on (CHR ''/'') (''..'' @ CHR ''/'' # q) = ''..'' # split_on (CHR ''/'') q" for q
    by (rule split_on_append) simp
  have split: "split_on (CHR ''/'') (base @ ''/'' @ x @ ''/../'' @ rest) =
      split_on (CHR ''/'') base @ x # ''..'' # split_on (CHR ''/'') rest"
    using split_on_at [of "CHR ''/''" base] x [of "''../'' @ rest"] dots [of rest] by simp
  have base: "split_on (CHR ''/'') (base @ ''/'') = split_on (CHR ''/'') base @ [[]]"
    using split_on_at [of "CHR ''/''" base "[]"] by simp
  have abs: "prefix ''/'' (base @ ''/'' @ q)" for q using assms(1) by (auto simp: prefix_def)
  from abs [of "[]"] abs [of "x @ ''/../'' @ rest"] show ?thesis
    using assms(2,3) by (simp add: base_components_def path_components_def Let_def split [simplified] base [simplified])
qed

text \<open>C14 (safety). The path policy has a gap. Take an absolute path that enters a directory under a name, goes back up, and then anywhere. When
  neither the path nor its parent exists (the name is invented, and nothing was created yet), the policy compares the path as it is
  written, so it lets it pass whatever comes after the dots, provided the directory itself lies in no sensitive path and no sensitive path goes
  through the invented name. Yet the same path is refused as soon as it exists and the system resolves it to something
  in a sensitive path: what a tool makes of it after the check, by creating what is missing, was not checked.\<close>

theorem path_policy_misses_unborn:
  assumes p_def: "p = base @ ''/'' @ x @ ''/../'' @ rest"
    and "base = [] \<or> prefix ''/'' base" "x \<noteq> []" "x \<noteq> ''.''" "CHR ''/'' \<notin> set x"
    and "\<not> pv_exists P p" "\<forall>parent. path_parent p = Some parent \<longrightarrow> \<not> pv_exists P parent"
    and "\<forall>d \<in> set (denied_paths (path_policy_new P)). \<not> prefix (path_components d) (base_components base) \<and>
      \<not> prefix (base_components base @ [x]) (path_components d)"
  shows "check_path_policy P p = None \<and>
    (\<forall>P' d. path_policy_new P' = path_policy_new P \<and> d \<in> set (denied_paths (path_policy_new P)) \<and>
      pv_exists P' p \<and> path_starts_with (canonical_or_self P' p) d \<longrightarrow> check_path_policy P' p \<noteq> None)"
proof -
  have "prefix ''/'' p" using assms(2) by (auto simp: p_def prefix_def)
  then have plain: "make_absolute Q (expand_home Q p) = p" for Q
    by (auto simp: expand_home_def make_absolute_def prefix_def)
  have "make_canonical P p = p" using assms(6,7) by (simp add: make_canonical_def split: option.splits)
  moreover obtain cs where cs: "path_components p = base_components base @ x # ''..'' # cs"
    using path_components_escape [OF assms(2-5)] by (auto simp: p_def)
  have "\<not> path_starts_with p d" if "d \<in> set (denied_paths (path_policy_new P))" for d
  proof
    assume "path_starts_with p d"
    then have "prefix (path_components d) (base_components base @ x # ''..'' # cs)" by (simp add: path_starts_with_def cs)
    moreover have "prefix (base_components base @ [x]) (base_components base @ x # ''..'' # cs)" by simp
    ultimately consider "prefix (path_components d) (base_components base @ [x])" | "prefix (base_components base @ [x]) (path_components d)"
      using prefix_same_cases by blast
    then show False using assms(8) that by cases (auto simp: prefix_snoc)
  qed
  ultimately have "check_path_policy P p = None"
    by (simp add: check_path_policy_def policy_check_def plain find_None_iff Let_def)
  moreover have "check_path_policy P' p \<noteq> None"
    if same: "path_policy_new P' = path_policy_new P" and d: "d \<in> set (denied_paths (path_policy_new P))"
      "path_starts_with (canonical_or_self P' p) d" and there: "pv_exists P' p" for P' d
  proof -
    have "find (\<lambda>d. path_starts_with (canonical_or_self P' p) d) (denied_paths (path_policy_new P)) \<noteq> None"
      using d by (auto simp only: find_None_iff)
    with there show ?thesis by (simp add: check_path_policy_def policy_check_def plain make_canonical_def same Let_def)
  qed
  ultimately show ?thesis by blast
qed

section \<open>The interface of the turn loop\<close>

text \<open>What the turn loop needs of the tools: one call gives one message, for that call, and an error says something.\<close>

locale tool_port =
  fixes exec :: "(string \<times> string \<times> 'v) list \<Rightarrow> 'w \<Rightarrow> ('v, 't) tool_result_message list \<times> ('v, 't) agent_event list \<times> 'w"
  assumes one_message: "\<exists>m evs w'. exec [(cid, name, input)] w = ([m], evs, w') \<and> tm_call_id m = cid \<and>
    (tm_is_error m \<longrightarrow> tm_content m \<noteq> [])"

lemma remade_message:
  assumes "tool_result_message_from_host_outcome S cid name (tool_result_message_to_host_outcome null m0) w = (m, w')"
  shows "tm_call_id m = cid \<and> (tm_is_error m \<longrightarrow> tm_content m \<noteq> [])"
  using assms by (cases "tm_is_error m0"; cases "tm_content m0 = []") (auto simp: tool_result_message_to_host_outcome_def tool_result_message_def Let_def split: prod.splits)

interpretation controller_port: tool_port "execute_tools_parallel S tools" for S tools
proof
  fix cid name input w
  obtain m evs w' where "execute_tool_call S tools (cid, name, input) w = (m, evs, w')" by (metis prod.exhaust)
  then show "\<exists>m evs w'. execute_tools_parallel S tools [(cid, name, input)] w = ([m], evs, w') \<and> tm_call_id m = cid \<and>
      (tm_is_error m \<longrightarrow> tm_content m \<noteq> [])"
    by (auto simp: execute_tool_call_def Let_def dest: remade_message split: prod.splits)
qed

section \<open>Examples\<close>

text \<open>Services over a file system without \<^verbatim>\<open>/new\<close>, whose gate refuses one path.\<close>

definition small_paths :: path_env where
  "small_paths = \<lparr>pv_home_dir = Some ''/home/u'', pv_current_dir = Some ''/home/u'', pv_exists = (\<lambda>p. p = ''/root''),
     pv_canonicalize = (\<lambda>p. None)\<rparr>"

definition small_tool_services ::
  "('v tool_hook_request \<Rightarrow> unit \<Rightarrow> (tool_host_error + 'v tool_hook_decision) \<times> unit) option \<Rightarrow> string list option \<Rightarrow> 'v \<Rightarrow> 'v json_view \<Rightarrow>
   ('v, nat, unit) controller_tool_services" where
  "small_tool_services hooks user_tool_filter v J = \<lparr>cs_json = J, cs_null = v, cs_truncation_json = (\<lambda>_. v),
     cs_result_json = (\<lambda>_. v), cs_paths = (\<lambda>_. small_paths), cs_stamp = (\<lambda>w. ((''id'', 0), w)), cs_progress = null_progress_sink,
     cs_cancelled = (\<lambda>_. False), cs_storage = False, cs_search = False, cs_hooks = hooks,
     cs_capability = controller_capability_service
       (Some (\<lambda>name input w. (if get_str J input ''path'' = Some ''/root/k'' then Inl ''no'' else Inr (), w))) user_tool_filter,
     cs_substrate = None\<rparr>"

definition echo_tool :: "((string \<times> string) list + string, unit) agent_tool" where
  "echo_tool = \<lparr>tool_source = ''built-in'', execution_backend = RustBuiltin, uses_neutral_tool_context = False,
     execute_with_neutral_context = (\<lambda>ctx input w. (tool_result_failure ''neutral'', w)),
     execute_legacy = (\<lambda>cid input w. (\<lparr>res_content = [ResultText (case get_str flat_view input ''path'' of Some p \<Rightarrow> p | None \<Rightarrow> [])],
        res_is_error = False, res_details = None, res_full_output_path = None\<rparr>, w))\<rparr>"

lemma root_key_sensitive: "check_path_policy small_paths ''/root/k'' \<noteq> None"
  by code_simp

theorem refused_call_never_runs_witness:
  "\<exists>r. (\<forall>t. execute_single_tool (small_tool_services None None (Inr []) flat_view) (Some t) ''c'' ''read''
     (Inl [(''path'', ''/root/k'')]) () = r) \<and> tm_is_error (fst r) \<and> tm_call_id (fst r) = ''c''"
proof (rule refused_call_never_runs)
  let ?S = "small_tool_services None None (Inr []) flat_view"
  show "cs_capability ?S = controller_capability_service
     (Some (\<lambda>name input w. (if get_str flat_view input ''path'' = Some ''/root/k'' then Inl ''no'' else Inr (), w))) None"
    by (simp add: small_tool_services_def)
  show "(if get_str flat_view (Inl [(''path'', ''/root/k'')]) ''path'' = Some ''/root/k'' then Inl ''no'' else Inr (), ()) =
      ((if get_str flat_view (Inl [(''path'', ''/root/k'')]) ''path'' = Some ''/root/k'' then Inl ''no'' else Inr (), ()) :: (string + unit) \<times> unit)" ..
  show "cs_cancelled ?S () \<or> (\<exists>why. (if get_str flat_view (Inl [(''path'', ''/root/k'')]) ''path'' = Some ''/root/k'' then Inl ''no'' else Inr ()) = (Inl why :: string + unit)) \<or>
      (\<exists>patterns. (None :: string list option) = Some patterns \<and> \<not> filter_admits patterns (safe_metadata_key ''read'')) \<or>
      check_tool_paths (cs_json ?S) (cs_paths ?S ()) (Inl [(''path'', ''/root/k'')]) \<noteq> None \<or>
      (\<exists>msg. fst (effective_input ?S ''c'' ''read'' (Inl [(''path'', ''/root/k'')]) ()) = Inl msg)"
    by (simp add: get_str_def flat_view_def)
qed

lemma hook_input_example:
  "let S = small_tool_services (Some (\<lambda>r w. (Inr (HookModify (Inl [(''path'', ''/root/k'')])), w))) None (Inr []) flat_view;
     r = execute_single_tool S (Some echo_tool) ''c'' ''read'' (Inl []) ()
   in tm_content (fst r) = [ContentText ''/root/k''] \<and> AeToolExecutionStart ''c'' ''read'' \<in> set (fst (snd r)) \<and>
      check_tool_paths flat_view small_paths (Inl [(''path'', ''/root/k'')]) \<noteq> None"
proof -
  let ?decide = "\<lambda>r w. (Inr (HookModify (Inl [(''path'', ''/root/k'')])), w)"
  let ?gate = "\<lambda>name input w. (if get_str flat_view input ''path'' = Some ''/root/k'' then Inl ''no'' else Inr (), w)"
  let ?S = "small_tool_services (Some ?decide) None (Inr []) flat_view"
  have "\<not> cs_cancelled ?S ()" "cs_capability ?S = controller_capability_service (Some ?gate) None"
    "?gate (safe_metadata_key ''read'') (Inl []) () = (Inr (), ())" "check_tool_paths (cs_json ?S) (cs_paths ?S ()) (Inl []) = None"
    "cs_hooks ?S = Some ?decide" "?decide (hook_before ''c'' ''read'' (Inl [])) () = (Inr (HookModify (Inl [(''path'', ''/root/k'')])), ())"
    "cs_substrate ?S = None" "\<not> uses_neutral_tool_context echo_tool"
    by (simp_all add: small_tool_services_def check_tool_paths_def PATH_KEYS_def echo_tool_def)
  from hook_input_unchecked [OF this] have run: "let r = execute_single_tool ?S (Some echo_tool) ''c'' ''read'' (Inl []) ();
      out = fst (execute_legacy echo_tool ''c'' (Inl [(''path'', ''/root/k'')]) ())
    in tm_content (fst r) = tool_result_content_to_message_content (res_content out) \<and> tm_is_error (fst r) = res_is_error out \<and>
       AeToolExecutionStart ''c'' ''read'' \<in> set (fst (snd r))" .
  have "check_tool_paths flat_view small_paths (Inl [(''path'', ''/root/k'')]) \<noteq> None"
    using root_key_sensitive by (auto simp: check_tool_paths_def PATH_KEYS_def)
  with run show ?thesis by (simp add: echo_tool_def tool_result_content_to_message_content_def Let_def)
qed

text \<open>The path goes through the new directory \<^verbatim>\<open>/home/u/new\<close> to a key of the superuser; afterwards it names that key.\<close>

definition grown_paths :: "string \<Rightarrow> path_env" where
  "grown_paths p = small_paths\<lparr>pv_exists := (\<lambda>q. q = p \<or> pv_exists small_paths q),
     pv_canonicalize := (\<lambda>q. if q = p then Some ''/root/.ssh/authorized_keys'' else None)\<rparr>"

theorem path_policy_misses_unborn_witness:
  "check_path_policy small_paths ''/home/u/new/../../../root/.ssh/authorized_keys'' = None \<and>
   check_path_policy (grown_paths ''/home/u/new/../../../root/.ssh/authorized_keys'')
     ''/home/u/new/../../../root/.ssh/authorized_keys'' \<noteq> None"
proof -
  let ?p = "''/home/u'' @ ''/'' @ ''new'' @ ''/../'' @ ''../../root/.ssh/authorized_keys''"
  have parent: "path_parent ?p = Some ''/home/u/new/../../../root/.ssh''" by (simp add: path_parent_def path_components_def Let_def)
  have free: "\<forall>d \<in> set (denied_paths (path_policy_new small_paths)). \<not> prefix (path_components d) (base_components ''/home/u'') \<and>
      \<not> prefix (base_components ''/home/u'' @ [''new'']) (path_components d)"
    by (simp add: path_policy_new_def small_paths_def canonical_or_self_def path_join_def SENSITIVE_PATHS_def
        SENSITIVE_SYSTEM_PATHS_def path_components_def base_components_def Let_def)
  have unborn: "\<not> pv_exists small_paths ?p" "\<forall>parent. path_parent ?p = Some parent \<longrightarrow> \<not> pv_exists small_paths parent"
    using parent by (simp_all add: small_paths_def)
  have gap: "check_path_policy small_paths ?p = None \<and> (\<forall>P' d. path_policy_new P' = path_policy_new small_paths \<and>
      d \<in> set (denied_paths (path_policy_new small_paths)) \<and> pv_exists P' ?p \<and> path_starts_with (canonical_or_self P' ?p) d \<longrightarrow>
      check_path_policy P' ?p \<noteq> None)"
    by (rule path_policy_misses_unborn [OF refl _ _ _ _ unborn free]) simp_all
  have same: "path_policy_new (grown_paths ?p) = path_policy_new small_paths"
    by (simp add: path_policy_new_def grown_paths_def small_paths_def canonical_or_self_def path_join_def SENSITIVE_PATHS_def
        SENSITIVE_SYSTEM_PATHS_def)
  have "''/root'' \<in> set (denied_paths (path_policy_new small_paths))"
    by (simp add: path_policy_new_def small_paths_def canonical_or_self_def SENSITIVE_SYSTEM_PATHS_def)
  moreover have "pv_exists (grown_paths ?p) ?p" "path_starts_with (canonical_or_self (grown_paths ?p) ?p) ''/root''"
    by (simp_all add: grown_paths_def canonical_or_self_def path_starts_with_def path_components_def Let_def)
  ultimately have "check_path_policy (grown_paths ?p) ?p \<noteq> None" using gap same by blast
  with gap show ?thesis by simp
qed

end
