(* ===== verification/Agent_Turn.thy ===== *)
theory Agent_Turn
  imports Agent_Tools Engine_Host
begin

text \<open>
  One turn of the agent: \<^verbatim>\<open>transcript.rs\<close>, \<^verbatim>\<open>adapters.rs\<close>, \<^verbatim>\<open>policy.rs\<close>, \<^verbatim>\<open>usage.rs\<close>, \<^verbatim>\<open>model_switch.rs\<close> and \<^verbatim>\<open>run_turn_loop\<close> of
  \<^verbatim>\<open>crates/clankers-agent/src/turn\<close>. The adapters of the engine host are the agent's own here: they read and
  write the transcript of the turn, send events, ask the provider and run the tools. The main theorem is that
  after a turn the transcript, which becomes the history of the session, says what the engine worked with.
\<close>

section \<open>The transcript\<close>

record ('v, 't) turn_transcript =
  tt_messages :: "('v, 't) agent_message list"
  tt_cumulative_usage :: usage
  tt_active_model :: string
  tt_turn_index :: u32
  tt_turn_active :: bool
  tt_pending_tool_count :: nat
  tt_batch_tool_results :: "('v, 't) tool_result_message list"
  tt_last_assistant :: "('v, 't) assistant_message option"

definition transcript_new :: "('v, 't) agent_message list \<Rightarrow> string \<Rightarrow> ('v, 't) turn_transcript" where
  "transcript_new msgs initial_model = \<lparr>tt_messages = msgs, tt_cumulative_usage = usage_default, tt_active_model = initial_model,
     tt_turn_index = 0, tt_turn_active = False, tt_pending_tool_count = 0, tt_batch_tool_results = [], tt_last_assistant = None\<rparr>"

definition append_assistant :: "('v, 't) assistant_message \<Rightarrow> nat \<Rightarrow> ('v, 't) turn_transcript \<Rightarrow> ('v, 't) turn_transcript" where
  "append_assistant a tool_count T = T\<lparr>tt_messages := tt_messages T @ [AssistantMsg a], tt_last_assistant := Some a,
     tt_pending_tool_count := tool_count, tt_batch_tool_results := []\<rparr>"

definition append_tool_result ::
  "('v, 't) tool_result_message \<Rightarrow> ('v, 't) turn_transcript \<Rightarrow> ('v, 't) turn_transcript \<times> ('v, 't) agent_event list" where
  "append_tool_result m T =
     (let T = T\<lparr>tt_messages := tt_messages T @ [ToolResultMsg m], tt_batch_tool_results := tt_batch_tool_results T @ [m]\<rparr>
      in if tt_pending_tool_count T = 0 \<or> length (tt_batch_tool_results T) < tt_pending_tool_count T then (T, [])
         else case tt_last_assistant T of
           None \<Rightarrow> (T, [])
         | Some a \<Rightarrow> (T\<lparr>tt_batch_tool_results := [], tt_last_assistant := None, tt_pending_tool_count := 0,
             tt_turn_active := False, tt_turn_index := saturating_add (tt_turn_index T) 1\<rparr>,
             [AeTurnEnd (tt_turn_index T) a (tt_batch_tool_results T)]))"

definition mark_turn_start :: "('v, 't) turn_transcript \<Rightarrow> bool \<times> ('v, 't) turn_transcript \<times> ('v, 't) agent_event list" where
  "mark_turn_start T = (if tt_turn_active T then (False, T, [])
     else (True, T\<lparr>tt_turn_active := True\<rparr>, [AeTurnStart (tt_turn_index T)]))"

definition finish_turn :: "('v, 't) turn_transcript \<Rightarrow> ('v, 't) turn_transcript \<times> ('v, 't) agent_event list" where
  "finish_turn T =
     (if \<not> tt_turn_active T \<or> tt_pending_tool_count T \<noteq> 0 then (T\<lparr>tt_turn_active := False\<rparr>, [])
      else case tt_last_assistant T of
        None \<Rightarrow> (T\<lparr>tt_turn_active := False\<rparr>, [])
      | Some a \<Rightarrow> (T\<lparr>tt_turn_active := False, tt_last_assistant := None, tt_batch_tool_results := [],
          tt_turn_index := saturating_add (tt_turn_index T) 1\<rparr>, [AeTurnEnd (tt_turn_index T) a []]))"

section \<open>The services of a turn\<close>

text \<open>A provider either is cancelled after some events, or ends with an error or without, after all its events.\<close>

datatype 'v provider_run =
    ProviderCancelled "'v stream_event list"
  | ProviderFinished "agent_error option" "'v stream_event list"

fun stream_model_request ::
  "'v json_values \<Rightarrow> 'v provider_run \<Rightarrow> (agent_error + 'v collected_response) \<times> 'v stream_notice list" where
  "stream_model_request J (ProviderCancelled evs) = (Inl AgentCancelled, snd (collect_loop evs collector_new))"
| "stream_model_request J (ProviderFinished complete_result evs) =
     (let (collected, notices) = collect_stream_events J evs
      in (case complete_result of Some e \<Rightarrow> Inl e | None \<Rightarrow> collected, notices))"

record ('v, 't) agent_completion_request =
  cq_model :: string
  cq_messages :: "('v, 't) agent_message list"
  cq_system_prompt :: "string option"
  cq_max_tokens :: "u64 option"
  cq_temperature :: "f64_bits option"
  cq_tools :: "'v tool_definition list"
  cq_thinking :: "thinking_config option"
  cq_no_cache :: bool
  cq_cache_ttl :: "string option"
  cq_extra_params :: "(string \<times> string) list"

record ('v, 't, 'w) agent_runtime_services =
  ar_json :: "'v json_values"
  ar_null :: 'v
  ar_provider :: "('v, 't) agent_completion_request \<Rightarrow> 'w \<Rightarrow> 'v provider_run \<times> 'w"
  ar_tool_definitions :: "'v tool_definition list"
  ar_cancelled :: "'w \<Rightarrow> bool"
  ar_sleep :: "duration \<Rightarrow> 'w \<Rightarrow> 'w"
  ar_take_model_switch :: "'w \<Rightarrow> string option \<times> 'w"
  ar_record_cost :: "string \<Rightarrow> usage \<Rightarrow> 'w \<Rightarrow> 'w"
  ar_now :: "'w \<Rightarrow> 't"
  ar_fresh_id :: "'w \<Rightarrow> message_id \<times> 'w"
  ar_truncate :: "(string \<Rightarrow> string \<times> bool) option"

definition ar_stamp :: "('v, 't, 'w) agent_runtime_services \<Rightarrow> 'w \<Rightarrow> (message_id \<times> 't) \<times> 'w" where
  "ar_stamp A w = (let (i, w) = ar_fresh_id A w in ((i, ar_now A w), w))"

record ('v, 't, 'w) turn_world =
  tw_transcript :: "('v, 't) turn_transcript"
  tw_events :: "('v, 't) agent_event list"
  tw_world :: 'w

definition send_events :: "('v, 't) agent_event list \<Rightarrow> ('v, 't, 'w) turn_world \<Rightarrow> ('v, 't, 'w) turn_world" where
  "send_events evs W = W\<lparr>tw_events := tw_events W @ evs\<rparr>"

definition with_transcript ::
  "('v, 't) turn_transcript \<times> ('v, 't) agent_event list \<Rightarrow> ('v, 't, 'w) turn_world \<Rightarrow> ('v, 't, 'w) turn_world" where
  "with_transcript r W = send_events (snd r) (W\<lparr>tw_transcript := fst r\<rparr>)"

section \<open>Messages between the agent and the engine\<close>

fun engine_message_of :: "('v, 't) agent_message \<Rightarrow> 'v engine_message option" where
  "engine_message_of (UserMsg u) = Some \<lparr>em_role = engine_message_role.User, em_content = um_content u\<rparr>"
| "engine_message_of (AssistantMsg a) = Some \<lparr>em_role = engine_message_role.Assistant, em_content = am_content a\<rparr>"
| "engine_message_of (ToolResultMsg m) = Some \<lparr>em_role = engine_message_role.Tool,
     em_content = [ContentToolResult (tm_call_id m) (tm_content m) (if tm_is_error m then Some True else None)]\<rparr>"
| "engine_message_of _ = None"

definition engine_messages_from_agent_messages :: "('v, 't) agent_message list \<Rightarrow> 'v engine_message list" where
  "engine_messages_from_agent_messages = List.map_filter engine_message_of"

definition tool_role_failure :: agent_error where
  "tool_role_failure = ProviderStreaming ''engine emitted a tool-role message without a tool_result content block'' None False"

definition tool_result_message_from_engine_message ::
  "'v engine_message \<Rightarrow> message_id \<Rightarrow> 't \<Rightarrow> agent_error + ('v, 't) tool_result_message" where
  "tool_result_message_from_engine_message m i timestamp = (case em_content m of
     ContentToolResult tool_use_id content is_error # _ \<Rightarrow>
       Inr \<lparr>tm_id = i, tm_call_id = tool_use_id, tm_tool_name = ''engine-tool'', tm_content = content,
         tm_is_error = (case is_error of Some b \<Rightarrow> b | None \<Rightarrow> False), tm_details = None, tm_timestamp = timestamp\<rparr>
   | _ \<Rightarrow> Inl tool_role_failure)"

definition agent_message_of ::
  "'v engine_message \<Rightarrow> message_id \<Rightarrow> 't \<Rightarrow> agent_error + ('v, 't) agent_message" where
  "agent_message_of m i timestamp = (case em_role m of
     engine_message_role.User \<Rightarrow> Inr (UserMsg \<lparr>um_id = i, um_content = em_content m, um_timestamp = timestamp\<rparr>)
   | engine_message_role.Assistant \<Rightarrow> Inr (AssistantMsg \<lparr>am_id = i, am_content = em_content m, am_model = ''engine-assistant'',
       am_usage = usage_default, am_stop_reason = Stop, am_timestamp = timestamp\<rparr>)
   | engine_message_role.Tool \<Rightarrow> (case tool_result_message_from_engine_message m i timestamp of Inl e \<Rightarrow> Inl e | Inr r \<Rightarrow> Inr (ToolResultMsg r)))"

fun agent_messages_from_engine_messages ::
  "('v, 't, 'w) agent_runtime_services \<Rightarrow> 't \<Rightarrow> 'v engine_message list \<Rightarrow> 'w \<Rightarrow> (agent_error + ('v, 't) agent_message list) \<times> 'w" where
  "agent_messages_from_engine_messages A timestamp [] w = (Inr [], w)"
| "agent_messages_from_engine_messages A timestamp (m # ms) w =
     (let (i, w) = ar_fresh_id A w
      in case agent_message_of m i timestamp of
           Inl e \<Rightarrow> (Inl e, w)
         | Inr a \<Rightarrow> (case agent_messages_from_engine_messages A timestamp ms w of
               (Inl e, w) \<Rightarrow> (Inl e, w) | (Inr as, w) \<Rightarrow> (Inr (a # as), w)))"

definition build_extra_params :: "string \<Rightarrow> (string \<times> string) list" where
  "build_extra_params sid = (if sid = [] then [] else [(''_session_id'', sid)])"

definition completion_request_from_engine_request ::
  "('v, 't, 'w) agent_runtime_services \<Rightarrow> 'v engine_model_request \<Rightarrow> 'w \<Rightarrow>
   (agent_error + ('v, 't) agent_completion_request) \<times> 'w" where
  "completion_request_from_engine_request A r w =
     (case agent_messages_from_engine_messages A (ar_now A w) (mr_messages r) w of
        (Inl e, w) \<Rightarrow> (Inl e, w)
      | (Inr msgs, w) \<Rightarrow> (Inr \<lparr>cq_model = mr_model r, cq_messages = msgs, cq_system_prompt = Some (mr_system_prompt r),
          cq_max_tokens = mr_max_tokens r, cq_temperature = mr_temperature r, cq_tools = mr_tools r, cq_thinking = mr_thinking r,
          cq_no_cache = mr_no_cache r, cq_cache_ttl = mr_cache_ttl r,
          cq_extra_params = build_extra_params (mr_session_id r)\<rparr>, w))"

section \<open>The adapters\<close>

definition engine_failure_from_agent_error :: "agent_error \<Rightarrow> engine_terminal_failure" where
  "engine_failure_from_agent_error e =
     \<lparr>tf_message = agent_error_text e, tf_status = agent_error_status e, tf_retryable = agent_error_retryable e\<rparr>"

definition build_assistant_message :: "'v collected_response \<Rightarrow> message_id \<times> 't \<Rightarrow> ('v, 't) assistant_message" where
  "build_assistant_message c stamp = \<lparr>am_id = fst stamp, am_content = co_content c, am_model = co_model c,
     am_usage = co_usage c, am_stop_reason = co_stop_reason c, am_timestamp = snd stamp\<rparr>"

definition tool_use_count :: "'v content list \<Rightarrow> nat" where
  "tool_use_count content = length (filter (\<lambda>c. case c of ContentToolUse _ _ _ \<Rightarrow> True | _ \<Rightarrow> False) content)"

text \<open>A model switch that a tool asked for takes effect at the start of the next turn.\<close>

definition check_model_switch ::
  "('v, 't, 'w) agent_runtime_services \<Rightarrow> string \<Rightarrow> ('v, 't, 'w) turn_world \<Rightarrow> string \<times> ('v, 't, 'w) turn_world" where
  "check_model_switch A active_model W =
     (let (slot, w) = ar_take_model_switch A (tw_world W); W = W\<lparr>tw_world := w\<rparr>
      in case slot of
           None \<Rightarrow> (active_model, W)
         | Some new_model \<Rightarrow> (new_model, send_events [AeModelChange active_model new_model ''agent_request''] W))"

definition model_for_request ::
  "('v, 't, 'w) agent_runtime_services \<Rightarrow> ('v, 't, 'w) turn_world \<Rightarrow> string \<times> ('v, 't, 'w) turn_world" where
  "model_for_request A W =
     (let active_model = tt_active_model (tw_transcript W); (started, r) = mark_turn_start (tw_transcript W);
          W = with_transcript r W
      in if started
         then (let (active_model, W) = check_model_switch A active_model W
               in (active_model, W\<lparr>tw_transcript := (tw_transcript W)\<lparr>tt_active_model := active_model\<rparr>\<rparr>))
         else (active_model, W))"

definition agent_execute_model ::
  "('v, 't, 'w) agent_runtime_services \<Rightarrow> 'v engine_model_request \<Rightarrow> ('v, 't, 'w) turn_world \<Rightarrow>
   'v model_host_outcome \<times> ('v, 't, 'w) turn_world" where
  "agent_execute_model A engine_request W =
     (let (active_model, W) = model_for_request A W;
          (request, w) = completion_request_from_engine_request A (engine_request\<lparr>mr_model := active_model\<rparr>) (tw_world W);
          W = W\<lparr>tw_world := w\<rparr>
      in case request of
        Inl e \<Rightarrow> (ModelHostFailed (engine_failure_from_agent_error e), W)
      | Inr rq \<Rightarrow>
          (let (run, w) = ar_provider A rq (tw_world W);
               (res, notices) = stream_model_request (ar_json A) run;
               W = send_events (map AeStream notices) (W\<lparr>tw_world := w\<rparr>)
           in case res of
             Inl e \<Rightarrow> (ModelHostFailed (engine_failure_from_agent_error e), W)
           | Inr collected \<Rightarrow>
               (let (stamp, w) = ar_stamp A (tw_world W);
                    T = append_assistant (build_assistant_message collected stamp) (tool_use_count (co_content collected)) (tw_transcript W)
                in (ModelHostCompleted \<lparr>rs_output = co_content collected, rs_stop_reason = co_stop_reason collected\<rparr>
                      (Some (co_usage collected)), W\<lparr>tw_transcript := T, tw_world := w\<rparr>))))"

text \<open>The truncation of tool output comes from another crate; it is applied to the text blocks, and only when
  one of them was cut the message changes.\<close>

fun truncate_block :: "(string \<Rightarrow> string \<times> bool) \<Rightarrow> 'v content \<Rightarrow> 'v content \<times> bool" where
  "truncate_block f (ContentText text) = (ContentText (fst (f text)), snd (f text))"
| "truncate_block f c = (c, False)"

definition apply_output_truncation ::
  "(string \<Rightarrow> string \<times> bool) option \<Rightarrow> ('v, 't) tool_result_message \<Rightarrow> ('v, 't) tool_result_message" where
  "apply_output_truncation config m = (case config of
     None \<Rightarrow> m
   | Some f \<Rightarrow>
       (let blocks = map (truncate_block f) (tm_content m)
        in if list_ex snd blocks then m\<lparr>tm_content := map fst blocks\<rparr> else m))"

type_synonym ('v, 't, 'w) tool_executor =
  "(string \<times> string \<times> 'v) list \<Rightarrow> 'w \<Rightarrow> ('v, 't) tool_result_message list \<times> ('v, 't) agent_event list \<times> 'w"

definition agent_execute_tool ::
  "('v, 't, 'w) tool_executor \<Rightarrow> ('v, 't, 'w) agent_runtime_services \<Rightarrow> 'v engine_tool_call \<Rightarrow> ('v, 't, 'w) turn_world \<Rightarrow>
   'v tool_host_outcome \<times> ('v, 't, 'w) turn_world" where
  "agent_execute_tool exec A call W =
     (let (msgs, evs, w) = exec [(tcall_id call, tcall_name call, tcall_input call)] (tw_world W);
          (m, evs', w) = (if msgs = [] then create_error_result (ar_stamp A) (tcall_id call) (tcall_name call) ''tool host produced no result'' w
            else (last msgs, [], w));
          m = apply_output_truncation (ar_truncate A) m;
          outcome = tool_result_message_to_host_outcome (ar_null A) m;
          W = send_events (evs @ evs') (W\<lparr>tw_world := w\<rparr>)
      in (outcome, with_transcript (append_tool_result m (tw_transcript W)) W))"

definition agent_emit_engine_event ::
  "engine_event \<Rightarrow> ('v, 't, 'w) turn_world \<Rightarrow> (host_adapter_error + unit) \<times> ('v, 't, 'w) turn_world" where
  "agent_emit_engine_event event W = (Inr (),
     if event_stop_reason event \<noteq> None then with_transcript (finish_turn (tw_transcript W)) W
     else case event of EvNotice message \<Rightarrow> send_events [AeSystemMessage message] W | _ \<Rightarrow> W)"

definition add_usage :: "usage \<Rightarrow> usage \<Rightarrow> usage" where
  "add_usage u v = \<lparr>input_tokens = input_tokens u + input_tokens v, output_tokens = output_tokens u + output_tokens v,
     cache_creation_input_tokens = cache_creation_input_tokens u + cache_creation_input_tokens v,
     cache_read_input_tokens = cache_read_input_tokens u + cache_read_input_tokens v\<rparr>"

definition update_usage_tracking ::
  "('v, 't, 'w) agent_runtime_services \<Rightarrow> usage \<Rightarrow> ('v, 't, 'w) turn_world \<Rightarrow> ('v, 't, 'w) turn_world" where
  "update_usage_tracking A turn_usage W =
     (let T = tw_transcript W; total = add_usage (tt_cumulative_usage T) turn_usage
      in (send_events [AeUsageUpdate turn_usage total] W)\<lparr>tw_transcript := T\<lparr>tt_cumulative_usage := total\<rparr>,
           tw_world := ar_record_cost A (tt_active_model T) turn_usage (tw_world W)\<rparr>)"

definition agent_observe_usage ::
  "('v, 't, 'w) agent_runtime_services \<Rightarrow> usage_observation \<Rightarrow> ('v, 't, 'w) turn_world \<Rightarrow>
   (host_adapter_error + unit) \<times> ('v, 't, 'w) turn_world" where
  "agent_observe_usage A observation W = (Inr (),
     if uo_kind observation \<noteq> FinalSummary then W else update_usage_tracking A (uo_usage observation) W)"

definition agent_hosts ::
  "('v, 't, 'w) tool_executor \<Rightarrow> ('v, 't, 'w) agent_runtime_services \<Rightarrow> ('v, ('v, 't, 'w) turn_world) host_adapters" where
  "agent_hosts exec A = \<lparr>
     execute_model = agent_execute_model A,
     execute_tool = agent_execute_tool exec A,
     sleep_for_retry = (\<lambda>rid d W. (Inr (), W\<lparr>tw_world := ar_sleep A d (tw_world W)\<rparr>)),
     emit_engine_event = agent_emit_engine_event,
     is_cancelled = (\<lambda>W. (ar_cancelled A (tw_world W), W)),
     cancellation_reason = (\<lambda>W. (''turn cancelled'', W)),
     usage_observer = agent_observe_usage A,
     json_from_str = jv_from_str (ar_json A), json_is_object = jv_is_object (ar_json A)\<rparr>"

section \<open>The turn loop\<close>

text \<open>Planning by the Steel runtime is a parameter: who executes the turn, and the text of its receipt; for a turn it
  executes, whether it is authorized, with the text of the denial, and the text of the receipt for a report.\<close>

datatype turn_execution_planner = RustNative | SteelScheme | PlannerBlocked

record ('v, 't) steel_turn_planning =
  stp_plan :: "('v, 't) agent_message list \<Rightarrow> turn_execution_planner \<times> string"
  stp_authorize :: "string + unit"
  stp_receipt :: "'v engine_run_report option \<Rightarrow> string"

record ('v, 't) turn_config =
  tg_model :: string
  tg_system_prompt :: string
  tg_max_tokens :: "u64 option"
  tg_temperature :: "f64_bits option"
  tg_thinking :: "thinking_config option"
  tg_model_request_slot_budget :: u32
  tg_no_cache :: bool
  tg_cache_ttl :: "string option"
  tg_steel_turn_planning :: "('v, 't) steel_turn_planning option"

fun debug_rejection :: "engine_rejection \<Rightarrow> string" where
  "debug_rejection EngineBusy = ''Busy''"
| "debug_rejection CorrelationMismatch = ''CorrelationMismatch''"
| "debug_rejection InvalidPhase = ''InvalidPhase''"
| "debug_rejection MissingToolCall = ''MissingToolCall''"
| "debug_rejection InvalidBudget = ''InvalidBudget''"

definition engine_outcome_or_error :: "'v engine_outcome \<Rightarrow> string \<Rightarrow> agent_error + 'v engine_outcome" where
  "engine_outcome_or_error out ctx = (case rejection_of out of
     Some r \<Rightarrow> Inl (ProviderStreaming (''engine rejected '' @ ctx @ '': '' @ debug_rejection r) None False)
   | None \<Rightarrow> Inr out)"

definition agent_error_from_report :: "'v engine_run_report \<Rightarrow> agent_error option" where
  "agent_error_from_report rep = (case terminal_failure (last_outcome rep) of
     Some f \<Rightarrow> Some (ProviderStreaming (tf_message f) (tf_status f) (tf_retryable f))
   | None \<Rightarrow> map_option (\<lambda>r. ProviderStreaming (''engine rejected turn: '' @ debug_rejection r) None False) (rejection_of (last_outcome rep)))"

definition resolve_turn_planning ::
  "('v, 't) turn_config \<Rightarrow> ('v, 't) agent_message list \<Rightarrow> (agent_error + turn_execution_planner option) \<times> ('v, 't) agent_event list" where
  "resolve_turn_planning config msgs = (case tg_steel_turn_planning config of
     None \<Rightarrow> (Inr None, [])
   | Some p \<Rightarrow>
       (let (planner, text) = stp_plan p msgs
        in (if planner = PlannerBlocked then Inl (AgentFailed ''steel.host.plan_turn blocked agent turn before provider request'')
            else Inr (Some planner), [AeSystemMessage text])))"

definition turn_submission ::
  "('v, 't, 'w) agent_runtime_services \<Rightarrow> ('v, 't) turn_config \<Rightarrow> string \<Rightarrow> ('v, 't) agent_message list \<Rightarrow> 'v engine_prompt_submission" where
  "turn_submission A config sid msgs = \<lparr>sub_messages = engine_messages_from_agent_messages msgs, sub_model = tg_model config,
     sub_system_prompt = tg_system_prompt config, sub_max_tokens = tg_max_tokens config, sub_temperature = tg_temperature config,
     sub_thinking = tg_thinking config, sub_tools = ar_tool_definitions A, sub_no_cache = tg_no_cache config,
     sub_cache_ttl = tg_cache_ttl config, sub_session_id = sid,
     sub_model_request_slot_budget = tg_model_request_slot_budget config\<rparr>"

text \<open>The turn that Steel executes: the assertions of the code are \<^term>\<open>None\<close>, a denial is an error.\<close>

definition run_steel_selected_engine_turn ::
  "('v, 't) turn_config \<Rightarrow> ('v, 't) steel_turn_planning \<Rightarrow> string \<Rightarrow> ('v, ('v, 't, 'w) turn_world) host_adapters \<Rightarrow>
   'v engine_run_seed \<Rightarrow> ('v, 't, 'w) turn_world \<Rightarrow> ((agent_error + 'v engine_run_report) \<times> ('v, 't, 'w) turn_world) option" where
  "run_steel_selected_engine_turn config p sid hosts seed W =
     (if sid = [] \<or> tg_model config = [] then None
      else case stp_authorize p of
        Inl denial \<Rightarrow> Some (Inl (AgentFailed (''steel.host.execute_turn denied before provider request: '' @ denial)),
          send_events [AeSystemMessage (stp_receipt p None)] W)
      | Inr _ \<Rightarrow>
          (let (rep, W) = run_engine_turn hosts seed W
           in Some (Inr rep, send_events [AeSystemMessage (stp_receipt p (Some rep))] W)))"

text \<open>The result, the messages of the session afterwards, and what the turn did. The messages are taken out of the
  session before the engine runs and put back after it, and only then.\<close>

definition run_turn_loop ::
  "('v, 't, 'w) tool_executor \<Rightarrow> ('v, 't, 'w) agent_runtime_services \<Rightarrow> ('v, 't) turn_config \<Rightarrow> string \<Rightarrow>
   ('v, 't) agent_message list \<Rightarrow> 'w \<Rightarrow>
   ((agent_error + unit) \<times> ('v, 't) agent_message list \<times> ('v, 't, 'w) turn_world) option" where
  "run_turn_loop exec A config sid msgs w =
     (let (planning, evs) = resolve_turn_planning config msgs;
          W = \<lparr>tw_transcript = transcript_new msgs (tg_model config), tw_events = evs, tw_world = w\<rparr>
      in case planning of
        Inl e \<Rightarrow> Some (Inl e, msgs, W)
      | Inr planner \<Rightarrow>
          (let (submitted, _) = submit_turn embeddable_engine_new (turn_submission A config sid msgs)
           in case engine_outcome_or_error (tr_outcome submitted) ''prompt submission'' of
             Inl e \<Rightarrow> Some (Inl e, msgs, W)
           | Inr first \<Rightarrow>
               (let hosts = agent_hosts exec A;
                    seed = \<lparr>seed_initial_state = tr_initial_state submitted, seed_first_outcome = first\<rparr>;
                    finished = (case (planner, tg_steel_turn_planning config) of
                      (Some SteelScheme, Some p) \<Rightarrow> run_steel_selected_engine_turn config p sid hosts seed W
                    | _ \<Rightarrow> (let (rep, W) = run_engine_turn hosts seed W in Some (Inr rep, W)))
                in case finished of
                  None \<Rightarrow> None
                | Some (Inl e, W) \<Rightarrow> Some (Inl e, [], W)
                | Some (Inr rep, W) \<Rightarrow>
                    Some (if ar_cancelled A (tw_world W) then Inl AgentCancelled
                       else case agent_error_from_report rep of Some e \<Rightarrow> Inl e | None \<Rightarrow> Inr (),
                     tt_messages (tw_transcript W), W))))"

section \<open>Each adapter on the transcript\<close>

text \<open>The transcript of a turn, read as messages of the engine.\<close>

definition engine_view :: "('v, 't, 'w) turn_world \<Rightarrow> 'v engine_message list" where
  "engine_view W = engine_messages_from_agent_messages (tt_messages (tw_transcript W))"

text \<open>A step that adds messages to the transcript, of which the engine sees these.\<close>

definition adds :: "('v, 't, 'w) turn_world \<Rightarrow> 'v engine_message list \<Rightarrow> ('v, 't, 'w) turn_world \<Rightarrow> bool" where
  "adds W ms W' \<longleftrightarrow> (\<exists>new. tt_messages (tw_transcript W') = tt_messages (tw_transcript W) @ new \<and>
     engine_messages_from_agent_messages new = ms)"

lemma engine_messages_simps [simp]:
  "engine_messages_from_agent_messages [] = []"
  "engine_messages_from_agent_messages (a # as) =
    (case engine_message_of a of None \<Rightarrow> [] | Some m \<Rightarrow> [m]) @ engine_messages_from_agent_messages as"
  "engine_messages_from_agent_messages (as @ bs) = engine_messages_from_agent_messages as @ engine_messages_from_agent_messages bs"
  by (induction as) (auto simp: engine_messages_from_agent_messages_def List.map_filter_def split: option.splits)

lemma adds_view: "adds W ms W' \<Longrightarrow> engine_view W' = engine_view W @ ms"
  by (auto simp: adds_def engine_view_def)

lemma adds_prefix: "adds W ms W' \<Longrightarrow> prefix orig (tt_messages (tw_transcript W)) \<Longrightarrow> prefix orig (tt_messages (tw_transcript W'))"
  by (auto simp: adds_def)

lemma adds_same: "tt_messages (tw_transcript W') = tt_messages (tw_transcript W) \<Longrightarrow> adds W [] W'"
  by (simp add: adds_def)

lemma adds_trans: "adds W a W1 \<Longrightarrow> adds W1 b W2 \<Longrightarrow> adds W (a @ b) W2"
  by (auto simp: adds_def)

lemma transcript_messages [simp]:
  "tt_messages (fst (finish_turn T)) = tt_messages T"
  "tt_messages (fst (snd (mark_turn_start T))) = tt_messages T"
  "tt_messages (fst (append_tool_result m T)) = tt_messages T @ [ToolResultMsg m]"
  "tt_messages (append_assistant a n T) = tt_messages T @ [AssistantMsg a]"
  by (auto simp: finish_turn_def mark_turn_start_def append_tool_result_def append_assistant_def Let_def split: option.splits)

lemma world_fields [simp]:
  "tw_transcript (send_events evs W) = tw_transcript W"
  "tw_transcript (with_transcript r W) = fst r"
  "tw_world (send_events evs W) = tw_world W"
  "tw_world (with_transcript r W) = tw_world W"
  by (simp_all add: send_events_def with_transcript_def)

lemma emit_adds: "agent_emit_engine_event ev W = (r, W') \<Longrightarrow> adds W [] W'"
  by (rule adds_same) (auto simp: agent_emit_engine_event_def split: engine_event.splits if_splits)

lemma usage_adds: "agent_observe_usage A u W = (r, W') \<Longrightarrow> adds W [] W'"
  by (rule adds_same) (auto simp: agent_observe_usage_def update_usage_tracking_def Let_def split: if_splits)

lemma observe_event_adds:
  "observe_event (agent_hosts exec A) ev (r, W) = (r', W') \<Longrightarrow> adds W [] W'"
  by (auto simp: observe_event_def agent_hosts_def Let_def dest: emit_adds split: prod.splits)

lemma observe_usage_adds:
  "observe_usage (agent_hosts exec A) k u (r, W) = (r', W') \<Longrightarrow> adds W [] W'"
  by (auto simp: observe_usage_def agent_hosts_def Let_def dest: usage_adds split: prod.splits)

lemma model_for_request_messages:
  "model_for_request A W = (model, W') \<Longrightarrow> tt_messages (tw_transcript W') = tt_messages (tw_transcript W)"
proof -
  assume m: "model_for_request A W = (model, W')"
  obtain started T evs where T: "mark_turn_start (tw_transcript W) = (started, T, evs)" by (metis prod_cases3)
  then have "tt_messages T = tt_messages (tw_transcript W)" using transcript_messages(2) [of "tw_transcript W"] by simp
  with m T show ?thesis
    by (auto simp: model_for_request_def check_model_switch_def Let_def split: prod.splits if_splits option.splits)
qed

lemma execute_model_adds:
  assumes "agent_execute_model A req W = (out, W')"
  shows "(\<exists>resp u. out = ModelHostCompleted resp (Some u) \<and>
      adds W [\<lparr>em_role = engine_message_role.Assistant, em_content = rs_output resp\<rparr>] W') \<or>
    (\<exists>f. out = ModelHostFailed f \<and> adds W [] W')"
proof -
  obtain model W1 where W1: "model_for_request A W = (model, W1)" by fastforce
  from model_for_request_messages [OF W1] have same: "tt_messages (tw_transcript W1) = tt_messages (tw_transcript W)" .
  obtain request w2 where w2: "completion_request_from_engine_request A (req\<lparr>mr_model := model\<rparr>) (tw_world W1) = (request, w2)"
    by fastforce
  show ?thesis
  proof (cases request)
    case (Inl e)
    with assms W1 w2 same show ?thesis by (auto simp: agent_execute_model_def Let_def intro: adds_same)
  next
    case (Inr rq)
    obtain run w3 where w3: "ar_provider A rq w2 = (run, w3)" by fastforce
    obtain res notices where res: "stream_model_request (ar_json A) run = (res, notices)" by fastforce
    show ?thesis
    proof (cases res)
      case (Inl e)
      with assms W1 w2 w3 res Inr same show ?thesis by (auto simp: agent_execute_model_def Let_def intro: adds_same)
    next
      case collected: (Inr c)
      obtain stamp w4 where "ar_stamp A w3 = (stamp, w4)" by fastforce
      with assms W1 w2 w3 res Inr collected same show ?thesis
        by (auto simp: agent_execute_model_def Let_def adds_def build_assistant_message_def)
    qed
  qed
qed

lemma model_input_adds:
  assumes live: "\<And>w. \<not> ar_cancelled A w" and i: "model_input_from_effect (agent_hosts exec A) req (r, W) = (i, r', W')"
  shows "(\<exists>resp. i = ModelCompleted (mr_request_id req) resp \<and>
      adds W [\<lparr>em_role = engine_message_role.Assistant, em_content = rs_output resp\<rparr>] W') \<or>
    (\<exists>f. i = ModelFailed (mr_request_id req) f \<and> adds W [] W')"
proof -
  obtain out W1 where W1: "agent_execute_model A req W = (out, W1)" by fastforce
  have H: "execute_model (agent_hosts exec A) = agent_execute_model A"
    "is_cancelled (agent_hosts exec A) = (\<lambda>W. (ar_cancelled A (tw_world W), W))" by (simp_all add: agent_hosts_def)
  from execute_model_adds [OF W1] show ?thesis
  proof (elim disjE exE conjE)
    fix resp u assume out: "out = ModelHostCompleted resp (Some u)"
      and W: "adds W [\<lparr>em_role = engine_message_role.Assistant, em_content = rs_output resp\<rparr>] W1"
    obtain r2 W2 where o': "observe_usage (agent_hosts exec A) FinalSummary u (r, W1) = (r2, W2)" by fastforce
    from adds_trans [OF W observe_usage_adds [OF o']] i live W1 out o' show ?thesis
      by (auto simp: model_input_from_effect_def H model_completed_input_def)
  next
    fix f assume "out = ModelHostFailed f" "adds W [] W1"
    with i live W1 show ?thesis by (auto simp: model_input_from_effect_def H model_failed_input_def)
  qed
qed

lemma retry_input_adds:
  assumes "\<And>w. \<not> ar_cancelled A w" "retry_input_from_effect (agent_hosts exec A) rid d (r, W) = (i, r', W')"
  shows "i = RetryReady rid \<and> adds W [] W'"
  using assms by (auto simp: retry_input_from_effect_def agent_hosts_def retry_ready_input_def intro: adds_same)

lemma truncated_message:
  "tm_call_id (apply_output_truncation cfg m) = tm_call_id m \<and> tm_is_error (apply_output_truncation cfg m) = tm_is_error m \<and>
   (tm_content (apply_output_truncation cfg m) = [] \<longleftrightarrow> tm_content m = [])"
  by (auto simp: apply_output_truncation_def Let_def split: option.splits)

context tool_port
begin

text \<open>One tool call gives the engine the result that the transcript gets.\<close>

lemma tool_input_adds:
  assumes live: "\<And>w. \<not> ar_cancelled A w" and i: "tool_input_from_effect (agent_hosts exec A) call W = (i, W')"
  shows "\<exists>b. tool_feedback i = Some b \<and> br_call_id b = tcall_id call \<and> adds W [buffered_tool_result_to_message b] W'"
proof -
  obtain m0 evs w where m0: "exec [(tcall_id call, tcall_name call, tcall_input call)] (tw_world W) = ([m0], evs, w)"
    "tm_call_id m0 = tcall_id call" "tm_is_error m0 \<longrightarrow> tm_content m0 \<noteq> []" using one_message by blast
  define m where "m = apply_output_truncation (ar_truncate A) m0"
  have m: "tm_call_id m = tcall_id call" "tm_is_error m \<longrightarrow> tm_content m \<noteq> []"
    using m0 truncated_message [of "ar_truncate A" m0] by (simp_all add: m_def)
  let ?b = "\<lparr>br_call_id = tcall_id call, br_content = tm_content m, br_is_error = tm_is_error m\<rparr>"
  define W1 where "W1 = send_events evs (W\<lparr>tw_world := w\<rparr>)"
  have tool: "agent_execute_tool exec A call W =
      (tool_result_message_to_host_outcome (ar_null A) m, with_transcript (append_tool_result m (tw_transcript W1)) W1)"
    by (simp add: agent_execute_tool_def m0(1) m_def W1_def Let_def)
  have "execute_tool (agent_hosts exec A) = agent_execute_tool exec A"
    "is_cancelled (agent_hosts exec A) = (\<lambda>W. (ar_cancelled A (tw_world W), W))" by (simp_all add: agent_hosts_def)
  then have res: "tool_feedback i = Some ?b" "W' = with_transcript (append_tool_result m (tw_transcript W1)) W1"
    using i live m by (auto simp: tool_input_from_effect_def tool tool_outcome_to_input_def is_tool_cancelled_def
        tool_result_message_to_host_outcome_def tool_completed_input_def tool_failed_input_def Let_def split: if_splits)
  moreover have "adds W [buffered_tool_result_to_message ?b] W'"
    using m(1) by (simp add: res(2) adds_def W1_def buffered_tool_result_to_message_def)
  ultimately show ?thesis by fastforce
qed

end

section \<open>The transcript and the engine\<close>

lemma results_in_order:
  assumes "distinct (map br_call_id bs)"
  shows "results_in_call_order (map br_call_id bs) bs = map buffered_tool_result_to_message bs"
proof -
  have "find (\<lambda>b'. br_call_id b' = br_call_id b) bs = Some b" if "b \<in> set bs" for b
    using that assms by (induction bs) (auto simp: image_iff)
  then show ?thesis by (simp add: results_in_call_order_def)
qed

text \<open>While no input was rejected, the transcript says what the engine has: its messages, and the results it holds
  back until all of a round are there.\<close>

definition in_agreement :: "('v, 't) agent_message list \<Rightarrow> ('v, ('v, 't, 'w) turn_world) loop_state \<Rightarrow> bool" where
  "in_agreement orig l \<longleftrightarrow> prefix orig (tt_messages (tw_transcript (l_world l))) \<and>
     (rejection_of (l_outcome l) = None \<longrightarrow> engine_view (l_world l) =
        messages (l_state l) @ map buffered_tool_result_to_message (buffered_tool_results (l_state l)))"

lemma feed_world [simp]: "l_world (feed l i r w) = w"
  by (simp add: feed_def Let_def)

lemma agreement_fed:
  assumes "in_agreement orig l" "rejection_of (l_outcome l) = None" "adds (l_world l) ms W'"
    and "rejection_of (engine_reduce (l_state l) i) = None \<Longrightarrow>
      messages (engine_next (l_state l) i) @ map buffered_tool_result_to_message (buffered_tool_results (engine_next (l_state l) i)) =
      messages (l_state l) @ map buffered_tool_result_to_message (buffered_tool_results (l_state l)) @ ms"
  shows "in_agreement orig (feed l i r W')"
  using assms adds_view [OF assms(3)] adds_prefix [OF assms(3), of orig] by (simp add: in_agreement_def)

lemma buffered_only_in_tools: "engine_inv s \<Longrightarrow> phase s \<noteq> WaitingForTools \<Longrightarrow> buffered_tool_results s = []"
  by (simp add: engine_inv_def pending_tools_ok_def)

lemma completed_messages:
  assumes "engine_inv s" "phase s = WaitingForModel" "rejection_of (engine_reduce s (ModelCompleted rid resp)) = None"
  shows "messages (engine_next s (ModelCompleted rid resp)) @
      map buffered_tool_result_to_message (buffered_tool_results (engine_next s (ModelCompleted rid resp))) =
    messages s @ map buffered_tool_result_to_message (buffered_tool_results s) @
      [\<lparr>em_role = engine_message_role.Assistant, em_content = rs_output resp\<rparr>]"
  using engine_accepted_step [OF assms(3)] buffered_only_in_tools [OF assms(1)] assms(2)
  by (cases rule: engine_step.cases) auto

lemma unchanged_messages:
  assumes "engine_inv s" "phase s \<noteq> WaitingForTools" "i = ModelFailed rid f \<or> i = RetryReady rid"
    "rejection_of (engine_reduce s i) = None"
  shows "messages (engine_next s i) @ map buffered_tool_result_to_message (buffered_tool_results (engine_next s i)) =
    messages s @ map buffered_tool_result_to_message (buffered_tool_results s) @ []"
  using engine_accepted_step [OF assms(4)] buffered_only_in_tools [OF assms(1,2)] assms(2,3)
  by (cases rule: engine_step.cases) auto

lemma feedback_messages:
  assumes inv: "engine_inv s" and b: "tool_feedback i = Some b" and ok: "rejection_of (engine_reduce s i) = None"
    and order: "pending_tool_calls s = map br_call_id (buffered_tool_results s @ [b]) @ cids"
  shows "messages (engine_next s i) @ map buffered_tool_result_to_message (buffered_tool_results (engine_next s i)) =
      messages s @ map buffered_tool_result_to_message (buffered_tool_results s) @ [buffered_tool_result_to_message b] \<and>
    (cids \<noteq> [] \<longrightarrow> phase (engine_next s i) = WaitingForTools \<and> pending_tool_calls (engine_next s i) = pending_tool_calls s \<and>
      buffered_tool_results (engine_next s i) = buffered_tool_results s @ [b])"
proof -
  have last: "messages s @ results_in_call_order (pending_tool_calls s) (buffered_tool_results s @ [b]) =
      messages s @ map buffered_tool_result_to_message (buffered_tool_results s @ [b])"
    if "cids = []" "distinct (map br_call_id (buffered_tool_results s @ [b]))"
    using results_in_order [OF that(2)] order that(1) by simp
  show ?thesis
    using engine_accepted_step [OF ok]
  proof (cases rule: engine_step.cases)
    case (buffer b')
    with b show ?thesis by simp
  next
    case (continue_turn b' t ms rid nseq)
    with b have "b' = b" by simp
    with continue_turn order have cids: "cids = []" by simp
    have d: "distinct (map br_call_id (buffered_tool_results s @ [b]))"
      using continue_turn \<open>b' = b\<close> inv by (auto simp: engine_inv_def pending_tools_ok_def)
    have "append_tool_messages (pending_tool_calls s) (buffered_tool_results s @ [b]) (messages s) =
        Some (messages s @ results_in_call_order (pending_tool_calls s) (buffered_tool_results s @ [b]))"
      unfolding results_in_call_order_def by (rule append_tool_messages_map) (use order cids in auto)
    with continue_turn \<open>b' = b\<close> cids last [OF cids d] show ?thesis by simp
  next
    case (exhaust b' t ms)
    with b have "b' = b" by simp
    with exhaust order have cids: "cids = []" by simp
    have d: "distinct (map br_call_id (buffered_tool_results s @ [b]))"
      using exhaust \<open>b' = b\<close> inv by (auto simp: engine_inv_def pending_tools_ok_def)
    have "append_tool_messages (pending_tool_calls s) (buffered_tool_results s @ [b]) (messages s) =
        Some (messages s @ results_in_call_order (pending_tool_calls s) (buffered_tool_results s @ [b]))"
      unfolding results_in_call_order_def by (rule append_tool_messages_map) (use order cids in auto)
    with exhaust \<open>b' = b\<close> cids last [OF cids d] show ?thesis by simp
  qed (use b in auto)
qed

lemma events_agree:
  "run_effects (agent_hosts exec A) (map EmitEvent evs) adv l = (adv', l') \<Longrightarrow> in_agreement orig l \<Longrightarrow> in_agreement orig l'"
proof (induction evs arbitrary: l)
  case (Cons ev evs)
  obtain r W where ob: "observe_event (agent_hosts exec A) ev (l_report l, l_world l) = (r, W)" by fastforce
  with Cons.prems(1) have "run_effects (agent_hosts exec A) (map EmitEvent evs) adv (l\<lparr>l_report := r, l_world := W\<rparr>) = (adv', l')"
    by simp
  moreover have "in_agreement orig (l\<lparr>l_report := r, l_world := W\<rparr>)"
    using Cons.prems(2) adds_view [OF observe_event_adds [OF ob]] adds_prefix [OF observe_event_adds [OF ob], of orig]
    by (simp add: in_agreement_def)
  ultimately show ?case by (rule Cons.IH)
qed simp

context tool_port
begin

lemma tools_agree:
  assumes live: "\<And>w. \<not> ar_cancelled A w"
  shows "run_effects (agent_hosts exec A) (map ExecuteTool calls) adv l = (adv', l') \<Longrightarrow> in_agreement orig l \<Longrightarrow>
    rejection_of (l_outcome l) = None \<Longrightarrow> engine_inv (l_state l) \<Longrightarrow> phase (l_state l) = WaitingForTools \<Longrightarrow>
    pending_tool_calls (l_state l) = map br_call_id (buffered_tool_results (l_state l)) @ map tcall_id calls \<Longrightarrow>
    in_agreement orig l'"
proof (induction calls arbitrary: l adv)
  case (Cons c cs)
  obtain i W where i: "tool_input_from_effect (agent_hosts exec A) c (l_world l) = (i, W)" by fastforce
  from tool_input_adds [OF live i] obtain b where b: "tool_feedback i = Some b" "br_call_id b = tcall_id c"
    "adds (l_world l) [buffered_tool_result_to_message b] W" by blast
  let ?l = "feed l i (l_report l) W"
  have order: "pending_tool_calls (l_state l) = map br_call_id (buffered_tool_results (l_state l) @ [b]) @ map tcall_id cs"
    using Cons.prems(6) b(2) by simp
  have fb: "rejection_of (engine_reduce (l_state l) i) = None \<Longrightarrow>
      messages (engine_next (l_state l) i) @ map buffered_tool_result_to_message (buffered_tool_results (engine_next (l_state l) i)) =
      messages (l_state l) @ map buffered_tool_result_to_message (buffered_tool_results (l_state l)) @ [buffered_tool_result_to_message b] \<and>
      (map tcall_id cs \<noteq> [] \<longrightarrow> phase (engine_next (l_state l) i) = WaitingForTools \<and>
        pending_tool_calls (engine_next (l_state l) i) = pending_tool_calls (l_state l) \<and>
        buffered_tool_results (engine_next (l_state l) i) = buffered_tool_results (l_state l) @ [b])"
    by (rule feedback_messages [OF Cons.prems(4) b(1) _ order])
  have agree: "in_agreement orig ?l"
    using fb by (intro agreement_fed [OF Cons.prems(2,3) b(3)]) simp
  show ?case
  proof (cases "rejection_of (engine_reduce (l_state l) i) \<noteq> None \<or> terminal_failure (engine_reduce (l_state l) i) \<noteq> None")
    case True
    with Cons.prems(1) i agree show ?thesis by auto
  next
    case False
    with Cons.prems(1) i have run: "run_effects (agent_hosts exec A) (map ExecuteTool cs) True ?l = (adv', l')" by simp
    show ?thesis
    proof (cases "cs = []")
      case True
      with run agree show ?thesis by simp
    next
      case more: False
      with fb False order Cons.prems(4) show ?thesis
        by (intro Cons.IH [OF run agree]) (auto simp: engine_inv_next)
    qed
  qed
qed simp

lemma effects_agree:
  assumes live: "\<And>w. \<not> ar_cancelled A w" and ok: "loop_ok l" and agree: "in_agreement orig l"
    and acc: "rejection_of (l_outcome l) = None"
    and run: "run_effects (agent_hosts exec A) (effects (l_outcome l)) False l = (adv, l')"
  shows "in_agreement orig l'"
proof -
  have st: "next_state (l_outcome l) = l_state l" and inv: "engine_inv (l_state l)" and plan: "planned (l_outcome l)"
    and ph: "phase (l_state l) \<noteq> Idle"
    using ok by (auto simp: loop_ok_def)
  show ?thesis
  proof (cases "phase (l_state l)")
    case WaitingForModel
    with plan acc st obtain evs req where es: "effects (l_outcome l) = map EmitEvent evs @ [RequestModel req]"
      by (auto simp: planned_def)
    obtain a l1 where l1: "run_effects (agent_hosts exec A) (map EmitEvent evs) False l = (a, l1)" by fastforce
    obtain i r W where i: "model_input_from_effect (agent_hosts exec A) req (l_report l1, l_world l1) = (i, r, W)"
      by (metis prod_cases3)
    have l': "l' = feed l1 i r W" using run by (simp add: es run_effects_events l1 i Let_def)
    have l1_ok: "in_agreement orig l1" "rejection_of (l_outcome l1) = None" "l_state l1 = l_state l"
      using events_agree [OF l1 agree] run_emit_only [OF l1] acc by simp_all
    from model_input_adds [OF live i] show ?thesis
    proof (elim disjE exE conjE)
      fix resp assume "i = ModelCompleted (mr_request_id req) resp"
        "adds (l_world l1) [\<lparr>em_role = engine_message_role.Assistant, em_content = rs_output resp\<rparr>] W"
      with completed_messages [OF inv WaitingForModel] show ?thesis
        unfolding l' by (intro agreement_fed [OF l1_ok(1,2)]) (auto simp: l1_ok(3))
    next
      fix f assume "i = ModelFailed (mr_request_id req) f" "adds (l_world l1) [] W"
      with unchanged_messages [OF inv, of i] WaitingForModel show ?thesis
        unfolding l' by (intro agreement_fed [OF l1_ok(1,2)]) (auto simp: l1_ok(3))
    qed
  next
    case WaitingForRetry
    with plan acc st obtain rid d where es: "effects (l_outcome l) = [ScheduleRetry rid d]" by (auto simp: planned_def)
    obtain i r W where i: "retry_input_from_effect (agent_hosts exec A) rid d (l_report l, l_world l) = (i, r, W)"
      by (metis prod_cases3)
    with run have l': "l' = feed l i r W" by (simp add: es)
    from retry_input_adds [OF live i] unchanged_messages [OF inv, of i] WaitingForRetry show ?thesis
      unfolding l' by (intro agreement_fed [OF agree acc]) auto
  next
    case WaitingForTools
    with plan acc st obtain calls where "effects (l_outcome l) = map ExecuteTool calls"
      "map tcall_id calls = pending_tool_calls (l_state l)" "buffered_tool_results (l_state l) = []"
      by (auto simp: planned_def)
    with tools_agree [OF live _ agree acc inv WaitingForTools] run show ?thesis by simp
  next
    case Finished
    with plan acc st obtain evs where "effects (l_outcome l) = map EmitEvent evs" by (auto simp: planned_def)
    with run agree show ?thesis by (simp add: events_agree)
  qed (use ph in simp)
qed

lemma loop_agrees:
  assumes live: "\<And>w. \<not> ar_cancelled A w"
  shows "run_loop (agent_hosts exec A) n l = (rep, W) \<Longrightarrow> loop_ok l \<Longrightarrow> in_agreement orig l \<Longrightarrow>
    prefix orig (tt_messages (tw_transcript W)) \<and> (rejection_of (last_outcome rep) = None \<longrightarrow> engine_view W =
      messages (final_state rep) @ map buffered_tool_result_to_message (buffered_tool_results (final_state rep)))"
proof (induction n arbitrary: l)
  case 0
  then show ?case by (auto simp: in_agreement_def loop_ok_def replace_reducer_outcome_def)
next
  case (Suc n)
  have st: "next_state (l_outcome l) = l_state l" using Suc.prems(2) by (simp add: loop_ok_def)
  show ?case
  proof (cases "rejection_of (l_outcome l) \<noteq> None \<or> terminal_failure (l_outcome l) \<noteq> None \<or> effects (l_outcome l) = []")
    case True
    with Suc.prems(1) have "rep = replace_reducer_outcome (l_report l) (l_outcome l)" "W = l_world l" by auto
    with Suc.prems(3) st show ?thesis by (simp add: in_agreement_def)
  next
    case False
    then have acc: "rejection_of (l_outcome l) = None" "terminal_failure (l_outcome l) = None" by auto
    obtain adv l1 where l1: "run_effects (agent_hosts exec A) (effects (l_outcome l)) False l = (adv, l1)" by fastforce
    note agree = effects_agree [OF live Suc.prems(2,3) acc(1) l1]
    let ?l1 = "l1\<lparr>l_report := replace_reducer_outcome (l_report l1) (l_outcome l1)\<rparr>"
    have run: "(if \<not> adv then (l_report ?l1, l_world ?l1) else run_loop (agent_hosts exec A) n ?l1) = (rep, W)"
      using Suc.prems(1) False l1 by (simp add: Let_def)
    have agree': "in_agreement orig ?l1" using agree by (simp add: in_agreement_def)
    show ?thesis
    proof (cases "phase (l_state l) = Finished")
      case True
      with Suc.prems(2) st acc obtain evs where "effects (l_outcome l) = map EmitEvent evs" by (auto simp: loop_ok_def planned_def)
      with run_emit_only l1 have "\<not> adv" "l_state l1 = l_state l" "l_outcome l1 = l_outcome l" by fastforce+
      with run agree' st show ?thesis by (auto simp: in_agreement_def)
    next
      case act: False
      with iterate [OF Suc.prems(2) acc act, of "agent_hosts exec A"] l1 have "adv" "loop_ok l1" by auto
      with run agree' show ?thesis by (intro Suc.IH) auto
    qed
  qed
qed

end

section \<open>Whole turns\<close>

context tool_port
begin

lemma turn_agrees:
  assumes live: "\<And>w. \<not> ar_cancelled A w"
    and budget: "1 \<le> unat (sub_model_request_slot_budget sub)" "unat (sub_model_request_slot_budget sub) \<le> 682"
    and W: "engine_view W = sub_messages sub"
    and run: "run_engine_turn (agent_hosts exec A) (prompt_seed sub) W = (rep, W')"
  shows "prefix (tt_messages (tw_transcript W)) (tt_messages (tw_transcript W')) \<and>
    (rejection_of (last_outcome rep) = None \<longrightarrow> engine_view W' = messages (final_state rep) \<and> phase (final_state rep) = Finished)"
proof -
  let ?l = "\<lparr>l_report = report_new (prompt_seed sub), l_state = next_state (seed_first_outcome (prompt_seed sub)),
      l_outcome = seed_first_outcome (prompt_seed sub), l_world = W\<rparr>"
  have ne: "sub_model_request_slot_budget sub \<noteq> 0" using budget(1) by auto
  note seed = prompt_seed_ok [OF ne, unfolded Let_def]
  have start: "loop_ok ?l" using seed by (simp add: loop_ok_def prompt_seed_def report_new_def del: engine_reduce.simps)
  have "messages (l_state ?l) = sub_messages sub \<and> buffered_tool_results (l_state ?l) = []"
    using prompt_seed_accepted(1) [OF ne] by (cases rule: engine_step.cases) (auto simp: prompt_seed_def)
  then have "in_agreement (tt_messages (tw_transcript W)) ?l" using W by (simp add: in_agreement_def)
  from loop_agrees [OF live _ start this] run have agree: "prefix (tt_messages (tw_transcript W)) (tt_messages (tw_transcript W')) \<and>
      (rejection_of (last_outcome rep) = None \<longrightarrow> engine_view W' =
      messages (final_state rep) @ map buffered_tool_result_to_message (buffered_tool_results (final_state rep)))"
    unfolding run_engine_turn_def by blast
  have "report_ok rep"
    using run_prompt_turn [OF ne _ order_refl, of "agent_hosts exec A" W] budget(2) run by (simp add: ENGINE_HOST_REDUCER_STEP_LIMIT_COUNT_def)
  then have "rejection_of (last_outcome rep) = None \<longrightarrow> phase (final_state rep) = Finished \<and> buffered_tool_results (final_state rep) = []"
    using buffered_only_in_tools [of "final_state rep"] by (auto simp: report_ok_def)
  with agree show ?thesis by simp
qed

end

lemma submitted_turn:
  "fst (submit_turn embeddable_engine_new sub) = \<lparr>tr_initial_state = engine_new, tr_outcome = engine_reduce engine_new (SubmitUserPrompt sub),
     tr_receipt = receipt_from_outcome (engine_reduce engine_new (SubmitUserPrompt sub))\<rparr>"
  by (simp add: submit_turn_def apply_input_def embeddable_engine_new_def Let_def)

text \<open>A turn that the planner lets run: no planner, or one that leaves the turn to the native engine, or one that hands it to
  Steel and then authorizes it. What Steel adds to the events before and after the engine runs.\<close>

definition turn_admitted :: "('v, 't) turn_config \<Rightarrow> string \<Rightarrow> ('v, 't) agent_message list \<Rightarrow> bool" where
  "turn_admitted config sid msgs \<longleftrightarrow> (case tg_steel_turn_planning config of
     None \<Rightarrow> True
   | Some p \<Rightarrow> (case fst (stp_plan p msgs) of
       RustNative \<Rightarrow> True
     | PlannerBlocked \<Rightarrow> False
     | SteelScheme \<Rightarrow> sid \<noteq> [] \<and> tg_model config \<noteq> [] \<and> stp_authorize p = Inr ()))"

definition planning_events :: "('v, 't) turn_config \<Rightarrow> ('v, 't) agent_message list \<Rightarrow> ('v, 't) agent_event list" where
  "planning_events config msgs = snd (resolve_turn_planning config msgs)"

definition closing_events :: "('v, 't) turn_config \<Rightarrow> ('v, 't) agent_message list \<Rightarrow> 'v engine_run_report \<Rightarrow> ('v, 't) agent_event list" where
  "closing_events config msgs rep = (case tg_steel_turn_planning config of
     None \<Rightarrow> []
   | Some p \<Rightarrow> if fst (stp_plan p msgs) = SteelScheme then [AeSystemMessage (stp_receipt p (Some rep))] else [])"

lemma run_admitted_turn:
  assumes "turn_admitted config sid msgs" "tg_model_request_slot_budget config \<noteq> 0"
    and "run_engine_turn (agent_hosts exec A) (prompt_seed (turn_submission A config sid msgs))
      \<lparr>tw_transcript = transcript_new msgs (tg_model config), tw_events = planning_events config msgs, tw_world = w\<rparr> = (rep, W)"
  shows "run_turn_loop exec A config sid msgs w =
    Some (if ar_cancelled A (tw_world W) then Inl AgentCancelled
       else case agent_error_from_report rep of Some e \<Rightarrow> Inl e | None \<Rightarrow> Inr (), tt_messages (tw_transcript W),
       send_events (closing_events config msgs rep) W)"
proof -
  let ?sub = "turn_submission A config sid msgs"
  have "sub_model_request_slot_budget ?sub \<noteq> 0" using assms(2) by (simp add: turn_submission_def)
  note acc = prompt_seed_accepted(2) [OF this]
  obtain res e where sub: "submit_turn embeddable_engine_new ?sub = (res, e)" by fastforce
  then have res: "tr_initial_state res = engine_new" "tr_outcome res = engine_reduce engine_new (SubmitUserPrompt ?sub)"
    using submitted_turn [of ?sub] by (simp_all del: engine_reduce.simps)
  have seed: "\<lparr>seed_initial_state = tr_initial_state res, seed_first_outcome = tr_outcome res\<rparr> = prompt_seed ?sub"
    by (simp add: res prompt_seed_def del: engine_reduce.simps)
  have [simp]: "send_events [] W = W" by (simp add: send_events_def)
  show ?thesis
  proof (cases "tg_steel_turn_planning config")
    case None
    with assms(3) acc seed show ?thesis
      by (simp add: run_turn_loop_def resolve_turn_planning_def planning_events_def closing_events_def sub engine_outcome_or_error_def
          res Let_def del: engine_reduce.simps)
  next
    case (Some p)
    obtain planner receipt where plan: "stp_plan p msgs = (planner, receipt)" by fastforce
    with Some assms(1) have "planner = RustNative \<or>
        planner = SteelScheme \<and> sid \<noteq> [] \<and> tg_model config \<noteq> [] \<and> stp_authorize p = Inr ()"
      by (cases planner) (simp_all add: turn_admitted_def)
    with Some plan assms(3) acc seed show ?thesis
      by (auto simp: run_turn_loop_def resolve_turn_planning_def planning_events_def closing_events_def sub engine_outcome_or_error_def
          run_steel_selected_engine_turn_def send_events_def res Let_def simp del: engine_reduce.simps split: option.splits)
  qed
qed

text \<open>C2 (refinement). A turn writes to the history of the session what the engine works with. Take a turn that nobody
  cancels, with a budget of at least one and at most 682 requests (the code gives 25), which the Steel planner, when one is configured,
  neither blocks nor denies, and with a session id and a model when Steel runs it (C13 shows what a denied turn does to the history); the provider, the tools, their gates and
  hooks may do anything. The turn returns, the messages of the session are only added to, and unless the engine rejected an
  input, the history read as engine messages is exactly the conversation of the finished engine: every answer of the
  model and every tool result, in order, with retried requests leaving nothing behind. The only thing Steel adds to a turn it runs are
  its receipts, among the events.\<close>

theorem turn_transcript_matches_engine:
  assumes "\<And>w. \<not> ar_cancelled A w" "turn_admitted config sid msgs"
    and "1 \<le> unat (tg_model_request_slot_budget config)" "unat (tg_model_request_slot_budget config) \<le> 682"
    and "run_engine_turn (agent_hosts (execute_tools_parallel S tools) A) (prompt_seed (turn_submission A config sid msgs))
      \<lparr>tw_transcript = transcript_new msgs (tg_model config), tw_events = planning_events config msgs, tw_world = w\<rparr> = (rep, W)"
  shows "\<exists>new. run_turn_loop (execute_tools_parallel S tools) A config sid msgs w =
      Some (case agent_error_from_report rep of Some e \<Rightarrow> Inl e | None \<Rightarrow> Inr (), msgs @ new,
        send_events (closing_events config msgs rep) W) \<and>
    (rejection_of (last_outcome rep) = None \<longrightarrow>
      engine_messages_from_agent_messages (msgs @ new) = messages (final_state rep) \<and> phase (final_state rep) = Finished)"
proof -
  let ?W = "\<lparr>tw_transcript = transcript_new msgs (tg_model config), tw_events = planning_events config msgs, tw_world = w\<rparr>"
  have ne: "tg_model_request_slot_budget config \<noteq> 0" using assms(3) by auto
  have "prefix (tt_messages (tw_transcript ?W)) (tt_messages (tw_transcript W)) \<and>
    (rejection_of (last_outcome rep) = None \<longrightarrow> engine_view W = messages (final_state rep) \<and> phase (final_state rep) = Finished)"
    by (rule controller_port.turn_agrees [OF assms(1) _ _ _ assms(5)])
      (use assms(3,4) in \<open>simp_all add: turn_submission_def engine_view_def transcript_new_def\<close>)
  moreover note run_admitted_turn [OF assms(2) ne assms(5)]
  ultimately show ?thesis using assms(1) by (auto simp: prefix_def engine_view_def transcript_new_def simp del: engine_messages_simps)
qed

text \<open>C13 (safety). A turn that the Steel runtime was to execute and then denies loses the conversation: the messages were
  taken out of the session before and are not put back, so the session is left with none, whatever it had.\<close>

theorem steel_denial_empties_history:
  assumes "tg_steel_turn_planning config = Some p" "fst (stp_plan p msgs) = SteelScheme" "stp_authorize p = Inl denial"
    and "sid \<noteq> []" "tg_model config \<noteq> []" "tg_model_request_slot_budget config \<noteq> 0"
  shows "\<exists>W. run_turn_loop exec A config sid msgs w =
    Some (Inl (AgentFailed (''steel.host.execute_turn denied before provider request: '' @ denial)), [], W)"
proof -
  let ?sub = "turn_submission A config sid msgs"
  have "sub_model_request_slot_budget ?sub \<noteq> 0" using assms(6) by (simp add: turn_submission_def)
  note acc = prompt_seed_accepted(2) [OF this]
  obtain res e where sub: "submit_turn embeddable_engine_new ?sub = (res, e)" by fastforce
  then have "tr_outcome res = engine_reduce engine_new (SubmitUserPrompt ?sub)"
    using submitted_turn [of ?sub] by (simp_all del: engine_reduce.simps)
  moreover obtain planned_text where "stp_plan p msgs = (SteelScheme, planned_text)" using assms(2) by (metis prod.collapse)
  ultimately show ?thesis
    using assms acc by (simp add: run_turn_loop_def resolve_turn_planning_def sub engine_outcome_or_error_def
        run_steel_selected_engine_turn_def Let_def del: engine_reduce.simps)
qed

section \<open>Examples\<close>

text \<open>A session with one prompt, and a provider that answers with a text.\<close>

definition small_answer :: "string stream_event list" where
  "small_answer = [SeMessageStart \<lparr>mm_id = ''i'', mm_model = ''m'', mm_role = ''assistant''\<rparr>,
     SeContentBlockStart 0 (ContentText ''hi''), SeContentBlockStop 0, SeMessageDelta (Some ''end_turn'') usage_default, SeMessageStop]"

definition small_runtime :: "(string, nat, unit) agent_runtime_services" where
  "small_runtime = \<lparr>ar_json = small_json, ar_null = [], ar_provider = (\<lambda>rq w. (ProviderFinished None small_answer, w)),
     ar_tool_definitions = [], ar_cancelled = (\<lambda>w. False), ar_sleep = (\<lambda>d w. w), ar_take_model_switch = (\<lambda>w. (None, w)),
     ar_record_cost = (\<lambda>model u w. w), ar_now = (\<lambda>w. 0), ar_fresh_id = (\<lambda>w. (''id'', w)), ar_truncate = None\<rparr>"

definition small_tool_port :: "(string, nat, unit) tool_executor" where
  "small_tool_port = execute_tools_parallel (small_tool_services None None [] \<lparr>jv_get = (\<lambda>v k. None), jv_as_str = (\<lambda>v. Some v)\<rparr>) (\<lambda>name. None)"

definition small_config :: "(string, nat) steel_turn_planning option \<Rightarrow> (string, nat) turn_config" where
  "small_config planning = \<lparr>tg_model = ''m'', tg_system_prompt = [], tg_max_tokens = None, tg_temperature = None, tg_thinking = None,
     tg_model_request_slot_budget = 25, tg_no_cache = False, tg_cache_ttl = None, tg_steel_turn_planning = planning\<rparr>"

definition small_prompt :: "(string, nat) agent_message list" where
  "small_prompt = [UserMsg \<lparr>um_id = ''u'', um_content = [ContentText ''hello''], um_timestamp = 0\<rparr>]"

lemma run_loop_unfold:
  "0 < n \<Longrightarrow> run_loop hosts n l = (if rejection_of (l_outcome l) \<noteq> None \<or> terminal_failure (l_outcome l) \<noteq> None \<or> effects (l_outcome l) = []
      then (replace_reducer_outcome (l_report l) (l_outcome l), l_world l)
      else case run_effects hosts (effects (l_outcome l)) False l of (advanced, l') \<Rightarrow>
        if \<not> advanced then (replace_reducer_outcome (l_report l') (l_outcome l'), l_world l')
        else run_loop hosts (n - 1) (l'\<lparr>l_report := replace_reducer_outcome (l_report l') (l_outcome l')\<rparr>))"
  by (cases n) (auto simp: Let_def split: prod.splits)

lemma small_collected: "collect_stream_events small_json small_answer =
   (Inr \<lparr>co_content = [ContentText ''hi''], co_model = ''m'', co_usage = usage_default, co_stop_reason = Stop\<rparr>,
    [NoticeBlockStart 0 (ContentText ''hi''), NoticeBlockStop 0])"
  by (simp add: small_answer_def collect_stream_events_def collector_new_def block_builder_new_def parse_stop_reason_def
      merge_usage_def keep_higher_def usage_default_def)

lemma small_run: "map_option (\<lambda>(res, msgs, W). (res, msgs)) (run_turn_loop small_tool_port small_runtime (small_config None) ''s'' small_prompt ()) =
  Some (Inr (), small_prompt @ [AssistantMsg \<lparr>am_id = ''id'', am_content = [ContentText ''hi''], am_model = ''m'', am_usage = usage_default,
     am_stop_reason = Stop, am_timestamp = 0\<rparr>])"
  by (simp add: run_turn_loop_def resolve_turn_planning_def submit_turn_def apply_input_def embeddable_engine_new_def run_engine_turn_def
      ENGINE_HOST_REDUCER_STEP_LIMIT_COUNT_def run_loop_unfold
      small_config_def turn_submission_def small_prompt_def engine_outcome_or_error_def apply_submit_user_prompt_def engine_new_def
      ENGINE_MIN_MODEL_REQUEST_SLOT_BUDGET_def ENGINE_INITIAL_MODEL_REQUEST_SEQUENCE_def mint_model_request_id_def Let_def report_new_def
      observe_event_def agent_emit_engine_event_def model_input_from_effect_def build_model_request_def
      agent_hosts_def small_runtime_def feed_def agent_execute_model_def model_for_request_def transcript_new_def mark_turn_start_def
      check_model_switch_def with_transcript_def send_events_def completion_request_from_engine_request_def agent_message_of_def
      small_collected ar_stamp_def build_assistant_message_def append_assistant_def model_completed_input_def observe_usage_def
      agent_observe_usage_def update_usage_tracking_def apply_model_completion_def terminal_success_outcome_def
      terminal_state_with_messages_def finish_turn_def tool_use_count_def agent_error_from_report_def replace_reducer_outcome_def
      rejected_outcome_def del: show_nat.simps)

theorem turn_transcript_matches_engine_witness:
  "\<exists>new W. run_turn_loop small_tool_port small_runtime (small_config None) ''s'' small_prompt () = Some (Inr (), small_prompt @ new, W)"
proof -
  let ?start = "\<lparr>tw_transcript = transcript_new small_prompt (tg_model (small_config None)),
      tw_events = planning_events (small_config None) small_prompt, tw_world = ()\<rparr>"
  obtain rep W where run: "run_engine_turn (agent_hosts small_tool_port small_runtime)
      (prompt_seed (turn_submission small_runtime (small_config None) ''s'' small_prompt)) ?start = (rep, W)" by fastforce
  have "\<exists>new. run_turn_loop small_tool_port small_runtime (small_config None) ''s'' small_prompt () =
      Some (case agent_error_from_report rep of Some e \<Rightarrow> Inl e | None \<Rightarrow> Inr (), small_prompt @ new,
        send_events (closing_events (small_config None) small_prompt rep) W) \<and>
    (rejection_of (last_outcome rep) = None \<longrightarrow>
      engine_messages_from_agent_messages (small_prompt @ new) = messages (final_state rep) \<and> phase (final_state rep) = Finished)"
    unfolding small_tool_port_def
    by (rule turn_transcript_matches_engine [OF _ _ _ _ run [unfolded small_tool_port_def]])
      (simp_all add: small_runtime_def small_config_def turn_admitted_def)
  with small_run show ?thesis by auto
qed

theorem steel_denial_empties_history_witness:
  "\<exists>W. run_turn_loop small_tool_port small_runtime
     (small_config (Some \<lparr>stp_plan = (\<lambda>msgs. (SteelScheme, ''receipt'')), stp_authorize = Inl ''MissingUcanAbility'', stp_receipt = (\<lambda>r. ''denied'')\<rparr>))
     ''s'' small_prompt () =
   Some (Inl (AgentFailed (''steel.host.execute_turn denied before provider request: '' @ ''MissingUcanAbility'')), [], W)"
  by (rule steel_denial_empties_history [where p = "\<lparr>stp_plan = (\<lambda>msgs. (SteelScheme, ''receipt'')), stp_authorize = Inl ''MissingUcanAbility'', stp_receipt = (\<lambda>r. ''denied'')\<rparr>"]) (simp_all add: small_config_def)

end
