(* ===== verification/Compaction.thy ===== *)
theory Compaction
  imports Tool_Summaries Agent_Turn
begin

text \<open>
  The compaction of the history, \<^verbatim>\<open>compaction.rs\<close> and \<^verbatim>\<open>context.rs\<close> of \<^verbatim>\<open>crates/clankers-agent/src\<close>, and where the agent
  uses it when a prompt is entered (\<^verbatim>\<open>lib.rs\<close>). A panic is \<open>None\<close>.
\<close>

section \<open>Fractions of the context window\<close>

text \<open>
  \<^verbatim>\<open>(n as f64 * x) as usize\<close>. A positive finite double is \<open>m * 2 ^ e\<close>; conversion and product round to 53 bits, ties
  to even, and the conversion back cuts the fraction off and saturates. Products below the normal range are below 1.
\<close>

fun bit_length :: "nat \<Rightarrow> nat" where
  "bit_length n = (if n = 0 then 0 else Suc (bit_length (n div 2)))"

declare bit_length.simps [simp del]

definition f64_round :: "nat \<Rightarrow> int \<Rightarrow> nat \<times> int" where
  "f64_round m e = (let k = bit_length m - 53 in
     if k = 0 then (m, e)
     else let q = m div 2 ^ k; r = m mod 2 ^ k; half = 2 ^ (k - 1)
       in (if half < r \<or> (r = half \<and> odd q) then q + 1 else q, e + int k))"

definition USIZE_MAX :: nat where "USIZE_MAX = 2 ^ 64 - 1"

definition usize_times_f64 :: "nat \<Rightarrow> f64_bits \<Rightarrow> nat" where
  "usize_times_f64 n x =
     (let bits = unat x; exponent = bits div 2 ^ 52 mod 2 ^ 11; fraction = bits mod 2 ^ 52
      in if 2 ^ 63 \<le> bits then 0
         else if exponent = 2047 then (if fraction \<noteq> 0 \<or> n = 0 then 0 else USIZE_MAX)
         else let (mx, ex) = (if exponent = 0 then (fraction, - 1074) else (2 ^ 52 + fraction, int exponent - 1075));
                  (mn, en) = f64_round n 0;
                  (m, e) = f64_round (mn * mx) (en + ex)
              in min USIZE_MAX (if 0 \<le> e then m * 2 ^ nat e else m div 2 ^ nat (- e)))"

definition F64_ONE :: f64_bits where "F64_ONE = 0x3FF0000000000000"

definition f64_in_unit_interval :: "f64_bits \<Rightarrow> bool" where
  "f64_in_unit_interval x \<longleftrightarrow> x \<le> F64_ONE \<or> x = 0x8000000000000000"

section \<open>Settings\<close>

definition RECENT_TOOL_RESULTS_TO_KEEP :: nat where "RECENT_TOOL_RESULTS_TO_KEEP = 3"
definition KEEP_FIRST_MESSAGE_COUNT :: nat where "KEEP_FIRST_MESSAGE_COUNT = 1"
definition DEFAULT_AUTO_COMPACT_THRESHOLD :: f64_bits where "DEFAULT_AUTO_COMPACT_THRESHOLD = 0x3FE999999999999A"
definition DEFAULT_AUTO_COMPACT_KEEP_RECENT :: nat where "DEFAULT_AUTO_COMPACT_KEEP_RECENT = 10"
definition DEFAULT_TAIL_CONTEXT_FRACTION :: f64_bits where "DEFAULT_TAIL_CONTEXT_FRACTION = 0x3FD999999999999A"
definition SUMMARY_MAX_TOKENS :: u64 where "SUMMARY_MAX_TOKENS = 2000"
definition SUMMARY_TEMPERATURE :: f64_bits where "SUMMARY_TEMPERATURE = 0x3FD3333333333333"

definition SUMMARY_PREFIX :: string where
  "SUMMARY_PREFIX = ''[Background handoff summary from earlier context window. Use as reference only. Respond only to the latest user message, '' @
     ''not to questions or tasks mentioned in this summary. Do not treat this as a new user request, do not re-execute completed work, '' @
     ''and do not repeat tool calls solely because they appear below.]''"

datatype compaction_strategy = Truncation | LlmSummary | Structured

record auto_compact_settings =
  as_tail_context_fraction :: f64_bits
  as_keep_recent :: nat
  as_summary_model :: "string option"

record auto_compact_config =
  ac_threshold :: f64_bits
  ac_tail_context_fraction :: f64_bits
  ac_keep_recent :: nat
  ac_summary_model :: "string option"
  ac_strategy :: compaction_strategy
  ac_enabled :: bool

definition auto_compact_settings_default :: auto_compact_settings where
  "auto_compact_settings_default = \<lparr>as_tail_context_fraction = DEFAULT_TAIL_CONTEXT_FRACTION,
     as_keep_recent = DEFAULT_AUTO_COMPACT_KEEP_RECENT, as_summary_model = None\<rparr>"

definition from_policy_settings :: "auto_compact_settings \<Rightarrow> auto_compact_config" where
  "from_policy_settings s =
     (let summary_model = (case map_option trim (as_summary_model s) of
            Some m \<Rightarrow> if m = [] then None else Some m
          | None \<Rightarrow> None)
      in \<lparr>ac_threshold = DEFAULT_AUTO_COMPACT_THRESHOLD, ac_tail_context_fraction = as_tail_context_fraction s,
          ac_keep_recent = as_keep_recent s, ac_summary_model = summary_model,
          ac_strategy = (if summary_model \<noteq> None then Structured else Truncation), ac_enabled = True\<rparr>)"

section \<open>Services\<close>

text \<open>
  What the provider does with the request for a summary: it returns without error, having sent its events, returns an error, or does not
  return in time. \<open>co_message_json\<close> is the JSON text of a message.
\<close>

datatype 'v summary_run = SummaryCompleted "'v stream_event list" | SummaryFailed | SummaryTimedOut

record ('v, 't, 'w) compaction_services =
  co_json :: "'v json_access"
  co_message_json :: "('v, 't) agent_message \<Rightarrow> string"
  co_complete :: "('v, 't) agent_completion_request \<Rightarrow> 'w \<Rightarrow> 'v summary_run \<times> 'w"
  co_now :: "'w \<Rightarrow> 't"
  co_fresh_id :: "'w \<Rightarrow> message_id \<times> 'w"

record ('v, 't) compaction_result =
  cr_messages :: "('v, 't) agent_message list"
  cr_compacted_count :: nat
  cr_tokens_saved :: nat
  cr_summary :: "string option"

definition TOKEN_ESTIMATE_BYTES_PER_TOKEN :: nat where "TOKEN_ESTIMATE_BYTES_PER_TOKEN = 4"

definition estimate_tokens :: "string \<Rightarrow> nat" where
  "estimate_tokens text = length text div TOKEN_ESTIMATE_BYTES_PER_TOKEN"

definition estimate_message_tokens :: "('v, 't, 'w) compaction_services \<Rightarrow> ('v, 't) agent_message \<Rightarrow> nat" where
  "estimate_message_tokens S m = estimate_tokens (co_message_json S m)"

abbreviation total_tokens :: "('v, 't, 'w) compaction_services \<Rightarrow> ('v, 't) agent_message list \<Rightarrow> nat" where
  "total_tokens S ms \<equiv> sum_list (map (estimate_message_tokens S) ms)"

definition user_note :: "('v, 't, 'w) compaction_services \<Rightarrow> string \<Rightarrow> 'w \<Rightarrow> ('v, 't) agent_message \<times> 'w" where
  "user_note S text w = (let (i, w) = co_fresh_id S w
     in (UserMsg \<lparr>um_id = i, um_content = [ContentText text], um_timestamp = co_now S w\<rparr>, w))"

section \<open>Old tool results\<close>

fun is_tool_result :: "('v, 't) agent_message \<Rightarrow> bool" where
  "is_tool_result (ToolResultMsg m) \<longleftrightarrow> True"
| "is_tool_result _ \<longleftrightarrow> False"

definition tail_start_for_recent_tool_results :: "('v, 't) agent_message list \<Rightarrow> nat \<Rightarrow> nat" where
  "tail_start_for_recent_tool_results ms keep_recent =
     (if keep_recent = 0 then length ms
      else let positions = filter (\<lambda>i. is_tool_result (ms ! i)) [0..<length ms]
        in if length positions \<le> keep_recent then 0 else positions ! (length positions - keep_recent))"

definition nothing_compacted :: "('v, 't) agent_message list \<Rightarrow> string option \<Rightarrow> ('v, 't) compaction_result" where
  "nothing_compacted ms summary = \<lparr>cr_messages = ms, cr_compacted_count = 0, cr_tokens_saved = 0, cr_summary = summary\<rparr>"

definition compact_tool_results ::
  "('v, 't, 'w) compaction_services \<Rightarrow> ('v, 't) agent_message list \<Rightarrow> nat \<Rightarrow> ('v, 't) compaction_result option" where
  "compact_tool_results S ms keep_recent =
     (let tail_start = tail_start_for_recent_tool_results ms keep_recent
      in case count_prunable_tool_results (co_json S) ms tail_start of
           None \<Rightarrow> None
         | Some n \<Rightarrow> if n = 0 then Some (nothing_compacted ms None)
             else map_option (\<lambda>compacted. \<lparr>cr_messages = compacted, cr_compacted_count = n,
                 cr_tokens_saved = total_tokens S ms - total_tokens S compacted, cr_summary = None\<rparr>)
               (prune_tool_results (co_json S) ms tail_start))"

definition should_auto_compact ::
  "('v, 't, 'w) compaction_services \<Rightarrow> ('v, 't) agent_message list \<Rightarrow> nat \<Rightarrow> auto_compact_config \<Rightarrow> bool option" where
  "should_auto_compact S ms max_context_tokens config =
     (if \<not> ac_enabled config then Some False
      else if \<not> f64_in_unit_interval (ac_threshold config) \<or> max_context_tokens = 0 then None
      else Some (usize_times_f64 max_context_tokens (ac_threshold config) < total_tokens S ms))"

section \<open>Asking for a summary\<close>

definition content_texts :: "'v content list \<Rightarrow> string" where
  "content_texts content = join_with '' '' (List.map_filter (\<lambda>c. case c of ContentText t \<Rightarrow> Some t | _ \<Rightarrow> None) content)"

definition floor_char_boundary :: "string \<Rightarrow> nat \<Rightarrow> nat" where
  "floor_char_boundary s i = (if length s \<le> i then length s else last (filter (is_char_boundary s) [0..<Suc i]))"

definition truncate_str :: "string \<Rightarrow> nat \<Rightarrow> string" where
  "truncate_str s n = (if length s \<le> n then s else take (floor_char_boundary s n) s @ ''...'')"

fun extract_role_and_text :: "('v, 't, 'w) compaction_services \<Rightarrow> ('v, 't) agent_message \<Rightarrow> string \<times> string" where
  "extract_role_and_text S (UserMsg m) = (''User'', content_texts (um_content m))"
| "extract_role_and_text S (AssistantMsg m) = (''Assistant'', content_texts (am_content m))"
| "extract_role_and_text S (ToolResultMsg m) = (''ToolResult'', truncate_str (content_texts (tm_content m)) 200)"
| "extract_role_and_text S m = (''System'', truncate_str (co_message_json S m) 200)"

definition build_structured_summary_prompt ::
  "('v, 't, 'w) compaction_services \<Rightarrow> ('v, 't) agent_message list \<Rightarrow> string option \<Rightarrow> string" where
  "build_structured_summary_prompt S ms previous_summary =
     (let excerpt = concat (map (\<lambda>m. let (role, text) = extract_role_and_text S m in ''['' @ role @ ''] '' @ text @ [newline]) ms);
          previous = (case previous_summary of Some p \<Rightarrow> ''## Previous Summary'' @ [newline] @ p @ [newline, newline] | None \<Rightarrow> [])
      in ''You are updating a structured handoff summary for earlier conversation context. '' @
         ''Use the conversation excerpt to produce a compact factual summary for a future model handoff.'' @ [newline, newline] @
         ''Return exactly these markdown sections and keep each section concise:'' @ [newline] @
         ''## Active Task'' @ [newline] @ ''- current task, scope, or goal'' @ [newline] @
         ''## Key Decisions Made'' @ [newline] @ ''- important technical decisions, constraints, and conclusions'' @ [newline] @
         ''## Files Modified'' @ [newline] @ ''- file paths changed or meaningfully inspected'' @ [newline] @
         ''## Remaining Work'' @ [newline] @ ''- unresolved work, follow-ups, validation still needed'' @ [newline, newline] @
         ''Do not add any other sections. Do not issue instructions to the user. '' @
         ''Do not tell the next model to rerun tools unless the excerpt explicitly says work remains.'' @ [newline, newline] @
         previous @ ''## Conversation Excerpt'' @ [newline] @ excerpt)"

definition SUMMARY_SYSTEM_PROMPT :: string where
  "SUMMARY_SYSTEM_PROMPT = ''You write compact background handoff summaries for prior context windows. '' @
     ''Return factual markdown only, with no preamble or closing note.''"

text \<open>
  The events go through a channel with room for 64. It is read only after the provider has returned, and a provider waits for room: one that sends more
  events does not return in time.
\<close>

definition SUMMARY_CHANNEL_CAPACITY :: nat where "SUMMARY_CHANNEL_CAPACITY = 64"

definition summary_text_of :: "'v stream_event list \<Rightarrow> string" where
  "summary_text_of evs = concat (List.map_filter (\<lambda>e. case e of SeContentBlockDelta _ (DText text) \<Rightarrow> Some text | _ \<Rightarrow> None) evs)"

definition request_summary ::
  "('v, 't, 'w) compaction_services \<Rightarrow> string \<Rightarrow> string \<Rightarrow> string \<Rightarrow> 'w \<Rightarrow> string \<times> 'w" where
  "request_summary S model sid summary_prompt w =
     (let (message, w) = user_note S summary_prompt w;
          request = \<lparr>cq_model = model, cq_messages = [message], cq_system_prompt = Some SUMMARY_SYSTEM_PROMPT,
            cq_max_tokens = Some SUMMARY_MAX_TOKENS, cq_temperature = Some SUMMARY_TEMPERATURE, cq_tools = [], cq_thinking = None,
            cq_no_cache = False, cq_cache_ttl = None,
            cq_extra_params = (if sid = [] then [] else [(''_session_id'', sid)])\<rparr>;
          (run, w) = co_complete S request w
      in (case run of
            SummaryCompleted evs \<Rightarrow> if SUMMARY_CHANNEL_CAPACITY < length evs then [] else summary_text_of evs
          | SummaryFailed \<Rightarrow> []
          | SummaryTimedOut \<Rightarrow> [], w))"

definition summary_note :: "nat \<Rightarrow> string \<Rightarrow> string" where
  "summary_note compacted_count summary_text = SUMMARY_PREFIX @ [newline, newline] @ ''[Conversation summary '' @ bytes_of [226, 128, 148] @ '' '' @
     show_nat compacted_count @ '' earlier messages compacted]'' @ [newline, newline] @ summary_text"

definition make_summary_message ::
  "('v, 't, 'w) compaction_services \<Rightarrow> nat \<Rightarrow> string \<Rightarrow> 'w \<Rightarrow> ('v, 't) agent_message \<times> 'w" where
  "make_summary_message S compacted_count summary_text w = user_note S (summary_note compacted_count summary_text) w"

section \<open>Dropping the middle\<close>

fun tail_start_from :: "('v, 't, 'w) compaction_services \<Rightarrow> ('v, 't) agent_message list \<Rightarrow> nat \<Rightarrow> nat" where
  "tail_start_from S [] remaining = 0"
| "tail_start_from S (m # rms) remaining =
     (if remaining < estimate_message_tokens S m then Suc (length rms)
      else tail_start_from S rms (remaining - estimate_message_tokens S m))"

text \<open>The loop goes through the messages from the last to the first: \<open>m # rms\<close> is what is left, reversed, and its length
  is the start of the tail so far.\<close>

definition select_tail_by_budget :: "('v, 't, 'w) compaction_services \<Rightarrow> ('v, 't) agent_message list \<Rightarrow> nat \<Rightarrow> nat" where
  "select_tail_by_budget S ms budget_tokens =
     (if budget_tokens = 0 then length ms else tail_start_from S (rev ms) budget_tokens)"

definition drop_range :: "('v, 't) agent_message list \<Rightarrow> nat \<Rightarrow> nat \<times> nat" where
  "drop_range ms keep_recent =
     (let keep_first = min KEEP_FIRST_MESSAGE_COUNT (length ms); keep_last = min keep_recent (length ms - keep_first)
      in (keep_first, length ms - keep_last))"

definition replace_range ::
  "('v, 't) agent_message list \<Rightarrow> nat \<times> nat \<Rightarrow> ('v, 't) agent_message \<Rightarrow> ('v, 't) agent_message list" where
  "replace_range ms gap note = take (fst gap) ms @ note # drop (snd gap) ms"

definition dropped_tokens :: "('v, 't, 'w) compaction_services \<Rightarrow> ('v, 't) agent_message list \<Rightarrow> nat \<times> nat \<Rightarrow> nat" where
  "dropped_tokens S ms gap = total_tokens S (take (snd gap - fst gap) (drop (fst gap) ms))"

definition truncation_marker :: "nat \<Rightarrow> string" where
  "truncation_marker n = ''[Context compacted: '' @ show_nat n @ '' messages removed to save tokens. Recent context preserved.]''"

definition compact_by_truncation ::
  "('v, 't, 'w) compaction_services \<Rightarrow> ('v, 't) agent_message list \<Rightarrow> nat \<Rightarrow> nat \<Rightarrow> 'w \<Rightarrow> ('v, 't) compaction_result \<times> 'w" where
  "compact_by_truncation S ms max_tokens keep_recent w =
     (if total_tokens S ms \<le> max_tokens then (nothing_compacted ms None, w)
      else let gap = drop_range ms keep_recent; n = snd gap - fst gap
        in if snd gap \<le> fst gap then (nothing_compacted ms None, w)
           else let (note, w) = user_note S (truncation_marker n) w
             in (\<lparr>cr_messages = replace_range ms gap note, cr_compacted_count = n,
                  cr_tokens_saved = dropped_tokens S ms gap, cr_summary = None\<rparr>, w))"

definition summarize_middle ::
  "('v, 't, 'w) compaction_services \<Rightarrow> ('v, 't) agent_message list \<Rightarrow> nat \<Rightarrow> nat \<Rightarrow> string option \<Rightarrow> string \<Rightarrow> string \<Rightarrow> 'w \<Rightarrow>
    ('v, 't) compaction_result \<times> 'w" where
  "summarize_middle S ms max_tokens keep_recent previous_summary model sid w =
     (let gap = drop_range ms keep_recent; n = snd gap - fst gap
      in if snd gap \<le> fst gap then (nothing_compacted ms previous_summary, w)
         else let dropped = take n (drop (fst gap) ms);
                  (summary_text, w) = request_summary S model sid (build_structured_summary_prompt S dropped previous_summary) w
           in if summary_text = [] then compact_by_truncation S ms max_tokens keep_recent w
              else let (note, w) = make_summary_message S n summary_text w
                in (\<lparr>cr_messages = replace_range ms gap note, cr_compacted_count = n,
                     cr_tokens_saved = dropped_tokens S ms gap, cr_summary = Some summary_text\<rparr>, w))"

definition compact_with_llm ::
  "('v, 't, 'w) compaction_services \<Rightarrow> ('v, 't) agent_message list \<Rightarrow> nat \<Rightarrow> nat \<Rightarrow> string \<Rightarrow> string \<Rightarrow> 'w \<Rightarrow>
    ('v, 't) compaction_result \<times> 'w" where
  "compact_with_llm S ms max_tokens keep_recent model sid w =
     summarize_middle S ms max_tokens keep_recent None model sid w"

definition compact_structured ::
  "('v, 't, 'w) compaction_services \<Rightarrow> ('v, 't) agent_message list \<Rightarrow> nat \<Rightarrow> f64_bits \<Rightarrow> string \<Rightarrow> string \<Rightarrow> string option \<Rightarrow> 'w \<Rightarrow>
    (('v, 't) compaction_result \<times> 'w) option" where
  "compact_structured S ms max_tokens tail_context_fraction model sid previous_summary w =
     map_option (\<lambda>pruned_result.
         let pruned = cr_messages pruned_result;
             tail_start = select_tail_by_budget S pruned (usize_times_f64 max_tokens tail_context_fraction)
         in summarize_middle S pruned max_tokens (length pruned - tail_start) previous_summary model sid w)
       (compact_tool_results S ms (tail_start_for_recent_tool_results ms RECENT_TOOL_RESULTS_TO_KEEP))"

section \<open>The agent\<close>

datatype 't compaction_event =
    CeUserInput string nat 't
  | CeAgentStart
  | CeSessionCompaction nat nat
  | CeSessionCompactionSummary string

record ('v, 't) history_agent =
  ha_messages :: "('v, 't) agent_message list"
  ha_latest_compaction_summary :: "string option"
  ha_model :: string
  ha_session_id :: string
  ha_compression :: auto_compact_settings

definition append_user_message ::
  "('v, 't, 'w) compaction_services \<Rightarrow> string \<Rightarrow> 'v content list \<Rightarrow> ('v, 't) history_agent \<Rightarrow> 'w \<Rightarrow>
    ('v, 't) history_agent \<times> 't compaction_event list \<times> 'w" where
  "append_user_message S text content A w =
     (let timestamp = co_now S w; (i, w) = co_fresh_id S w
      in (A\<lparr>ha_messages := ha_messages A @ [UserMsg \<lparr>um_id = i, um_content = content, um_timestamp = timestamp\<rparr>]\<rparr>,
          [CeUserInput text (length (ha_messages A)) timestamp], w))"

definition auto_compaction_result ::
  "('v, 't, 'w) compaction_services \<Rightarrow> nat \<Rightarrow> ('v, 't) history_agent \<Rightarrow> 'w \<Rightarrow> (('v, 't) compaction_result \<times> 'w) option" where
  "auto_compaction_result S max_input A w =
     (let config = from_policy_settings (ha_compression A)
      in if ac_strategy config = Structured
         then compact_structured S (ha_messages A) max_input (ac_tail_context_fraction config)
           (case ac_summary_model config of Some m \<Rightarrow> m | None \<Rightarrow> ha_model A) (ha_session_id A)
           (ha_latest_compaction_summary A) w
         else let tail_start = select_tail_by_budget S (ha_messages A) (usize_times_f64 max_input (ac_tail_context_fraction config))
           in Some (compact_with_llm S (ha_messages A) max_input (length (ha_messages A) - tail_start) (ha_model A) (ha_session_id A) w))"

definition install_compaction ::
  "('v, 't) compaction_result \<Rightarrow> ('v, 't) history_agent \<Rightarrow> ('v, 't) history_agent \<times> 't compaction_event list" where
  "install_compaction r A =
     (if 0 < cr_compacted_count r
      then (A\<lparr>ha_messages := cr_messages r, ha_latest_compaction_summary := cr_summary r\<rparr>,
            CeSessionCompaction (cr_compacted_count r) (cr_tokens_saved r) #
            (case cr_summary r of Some summary \<Rightarrow> [CeSessionCompactionSummary summary] | None \<Rightarrow> []))
      else (A, []))"

definition handle_auto_compaction ::
  "('v, 't, 'w) compaction_services \<Rightarrow> nat \<Rightarrow> ('v, 't) history_agent \<Rightarrow> 'w \<Rightarrow>
    (('v, 't) history_agent \<times> 't compaction_event list \<times> 'w) option" where
  "handle_auto_compaction S max_input A w =
     (case should_auto_compact S (ha_messages A) max_input (from_policy_settings (ha_compression A)) of
        None \<Rightarrow> None
      | Some False \<Rightarrow> Some (A, [], w)
      | Some True \<Rightarrow> map_option (\<lambda>(r, w). let (A, evs) = install_compaction r A in (A, evs, w))
          (auto_compaction_result S max_input A w))"

text \<open>A prompt that passed its hook and its authorization enters the history, and then the history is compacted.\<close>

definition enter_prompt ::
  "('v, 't, 'w) compaction_services \<Rightarrow> nat \<Rightarrow> string \<Rightarrow> 'v content list \<Rightarrow> ('v, 't) history_agent \<Rightarrow> 'w \<Rightarrow>
    (('v, 't) history_agent \<times> 't compaction_event list \<times> 'w) option" where
  "enter_prompt S max_input text content A w =
     (let (A, evs, w) = append_user_message S text content A w
      in map_option (\<lambda>(A, evs', w). (A, evs @ CeAgentStart # evs', w)) (handle_auto_compaction S max_input A w))"

text \<open>The command that compacts the history, and the one that takes the last exchange back.\<close>

definition compact_messages ::
  "('v, 't, 'w) compaction_services \<Rightarrow> ('v, 't) history_agent \<Rightarrow> (('v, 't) compaction_result \<times> ('v, 't) history_agent) option" where
  "compact_messages S A = map_option (\<lambda>r. (r, A\<lparr>ha_messages := cr_messages r\<rparr>))
     (compact_tool_results S (ha_messages A) RECENT_TOOL_RESULTS_TO_KEEP)"

definition truncate_at_last :: "('a \<Rightarrow> bool) \<Rightarrow> 'a list \<Rightarrow> 'a list" where
  "truncate_at_last P xs = (case dropWhile (\<lambda>x. \<not> P x) (rev xs) of [] \<Rightarrow> xs | _ # r \<Rightarrow> rev r)"

definition pop_last_exchange :: "('v, 't) history_agent \<Rightarrow> ('v, 't) history_agent" where
  "pop_last_exchange A = A\<lparr>ha_messages := truncate_at_last is_user (truncate_at_last is_assistant (ha_messages A))\<rparr>"

section \<open>The context of a request\<close>

record system_prompt_settings =
  sp_prefix :: "string option"
  sp_suffix :: "string option"

definition build_system_prompt ::
  "string \<Rightarrow> system_prompt_settings \<Rightarrow> string list \<Rightarrow> string list \<Rightarrow> string list \<Rightarrow> string" where
  "build_system_prompt base_prompt settings tool_names agent_names additional_context =
     join_with [newline, newline]
       ((case sp_prefix settings of Some p \<Rightarrow> [p] | None \<Rightarrow> []) @ [base_prompt] @
        (if tool_names = [] then [] else [newline # ''Available tools: '' @ join_with '', '' tool_names]) @
        (if agent_names = [] then [] else [newline # ''Available agents: '' @ join_with '', '' agent_names]) @
        filter (\<lambda>c. c \<noteq> []) additional_context @
        (case sp_suffix settings of Some s \<Rightarrow> [s] | None \<Rightarrow> []))"

fun take_within :: "('a \<Rightarrow> nat) \<Rightarrow> 'a list \<Rightarrow> nat \<Rightarrow> 'a list" where
  "take_within cost [] remaining = []"
| "take_within cost (x # xs) remaining = (if cost x \<le> remaining then x # take_within cost xs (remaining - cost x) else [])"

definition truncate_messages ::
  "('v, 't, 'w) compaction_services \<Rightarrow> ('v, 't) agent_message list \<Rightarrow> nat \<Rightarrow> nat \<Rightarrow> ('v, 't) agent_message list" where
  "truncate_messages S ms max_tokens system_prompt_tokens =
     (let budget = max_tokens - system_prompt_tokens; cost = estimate_message_tokens S
      in if budget = 0 then []
         else if total_tokens S ms \<le> budget then ms
         else let first = (if ms \<noteq> [] \<and> cost (hd ms) \<le> budget then [hd ms] else [])
           in first @ rev (take_within cost (rev (tl ms)) (budget - total_tokens S first)))"

definition compact_stale_tool_results ::
  "('v, 't, 'w) compaction_services \<Rightarrow> ('v, 't) agent_message list \<Rightarrow> nat \<Rightarrow> ('v, 't) agent_message list option" where
  "compact_stale_tool_results S ms keep_recent =
     prune_tool_results (co_json S) ms (tail_start_for_recent_tool_results ms keep_recent)"

record ('v, 't) agent_context =
  ax_system_prompt :: string
  ax_messages :: "('v, 't) agent_message list"
  ax_estimated_tokens :: nat

definition build_turn_context ::
  "('v, 't, 'w) compaction_services \<Rightarrow> ('v, 't) agent_message list \<Rightarrow> string \<Rightarrow> nat \<Rightarrow> bool \<Rightarrow> ('v, 't) agent_context option" where
  "build_turn_context S ms system_prompt max_input_tokens compact =
     map_option (\<lambda>effective.
         let system_tokens = estimate_tokens system_prompt;
             truncated = truncate_messages S effective max_input_tokens system_tokens;
             total = system_tokens + total_tokens S truncated;
             pct = total * 100 div max_input_tokens
         in \<lparr>ax_system_prompt = (if 0 < max_input_tokens \<and> 80 \<le> pct
               then system_prompt @ [newline, newline] @ ''[Context is at '' @ show_nat pct @
                 ''% capacity. Consider using the compress tool to summarize older messages.]''
               else system_prompt),
             ax_messages = truncated, ax_estimated_tokens = total\<rparr>)
       (if compact then compact_stale_tool_results S ms RECENT_TOOL_RESULTS_TO_KEEP else Some ms)"

section \<open>The tail\<close>

lemma tail_start_from_spec:
  "tail_start_from S rms b \<le> length rms \<and> total_tokens S (drop (tail_start_from S rms b) (rev rms)) \<le> b \<and>
     (\<forall>j < tail_start_from S rms b. b < total_tokens S (drop j (rev rms)))"
proof (induction rms arbitrary: b)
  case (Cons m rms)
  show ?case
  proof (cases "b < estimate_message_tokens S m")
    case True
    have "b < total_tokens S (drop j (rev rms @ [m]))" if "j \<le> length rms" for j
      using that True by simp
    with True show ?thesis by auto
  next
    case False
    with Cons [of "b - estimate_message_tokens S m"] show ?thesis by (auto simp: less_diff_conv)
  qed
qed simp

text \<open>The tail is the longest one that fits the budget.\<close>

lemma select_tail_spec:
  shows select_tail_le: "select_tail_by_budget S ms b \<le> length ms"
    and select_tail_fits: "total_tokens S (drop (select_tail_by_budget S ms b) ms) \<le> b"
    and select_tail_longest: "0 < b \<Longrightarrow> j < select_tail_by_budget S ms b \<Longrightarrow> b < total_tokens S (drop j ms)"
  using tail_start_from_spec [of S "rev ms" b] by (auto simp: select_tail_by_budget_def)

lemma select_tail_none: "b < estimate_message_tokens S m \<Longrightarrow> select_tail_by_budget S (ms @ [m]) b = length ms + 1"
  by (simp add: select_tail_by_budget_def)

section \<open>What compaction leaves\<close>

lemma drop_range_bounds: "ms \<noteq> [] \<Longrightarrow> drop_range ms keep = (1, max 1 (length ms - keep))"
  by (cases ms) (auto simp: drop_range_def KEEP_FIRST_MESSAGE_COUNT_def Let_def)

lemma replace_range_bounds: "ms \<noteq> [] \<Longrightarrow> replace_range ms (Suc 0, k) note = hd ms # note # drop k ms"
  by (cases ms) (simp_all add: replace_range_def)

lemma user_note_user: "user_note S text w = (note, w') \<Longrightarrow> \<exists>u. note = UserMsg u \<and> um_content u = [ContentText text]"
  by (auto simp: user_note_def Let_def split: prod.splits)

definition is_note :: "('v, 't) user_message \<Rightarrow> bool" where
  "is_note u \<longleftrightarrow> (\<exists>n. um_content u = [ContentText (truncation_marker n)]) \<or> (\<exists>n text. um_content u = [ContentText (summary_note n text)])"

text \<open>What both ways to drop the middle have in common, for the messages and the number of recent ones to keep.\<close>

definition middle_replaced :: "('v, 't) agent_message list \<Rightarrow> nat \<Rightarrow> ('v, 't) compaction_result \<Rightarrow> bool" where
  "middle_replaced ms keep r \<longleftrightarrow> (let k = max 1 (length ms - keep)
     in cr_compacted_count r = 0 \<and> cr_messages r = ms \<or>
        ms \<noteq> [] \<and> cr_compacted_count r = k - 1 \<and> (\<exists>u. is_note u \<and> cr_messages r = hd ms # UserMsg u # drop k ms))"

lemma compact_by_truncation_shape: "middle_replaced ms keep (fst (compact_by_truncation S ms max_tokens keep w))"
proof (cases "ms = []")
  case False
  obtain nt w' where n: "user_note S (truncation_marker (snd (drop_range ms keep) - fst (drop_range ms keep))) w = (nt, w')"
    by fastforce
  then obtain u where "nt = UserMsg u" "is_note u" using user_note_user is_note_def by metis
  with n False show ?thesis
    by (auto simp: compact_by_truncation_def middle_replaced_def nothing_compacted_def Let_def replace_range_bounds drop_range_bounds)
qed (simp add: compact_by_truncation_def middle_replaced_def nothing_compacted_def drop_range_def Let_def)

lemma summarize_middle_shape: "middle_replaced ms keep (fst (summarize_middle S ms max_tokens keep prev model sid w))"
proof (cases "ms = []")
  case False
  let ?gap = "drop_range ms keep"
  let ?n = "snd ?gap - fst ?gap"
  obtain answer w' where t: "request_summary S model sid
      (build_structured_summary_prompt S (take ?n (drop (fst ?gap) ms)) prev) w = (answer, w')" by fastforce
  obtain nt w'' where n: "user_note S (summary_note ?n answer) w' = (nt, w'')" by fastforce
  then obtain u where "nt = UserMsg u" "is_note u" using user_note_user is_note_def by metis
  show ?thesis
  proof (cases "fst ?gap < snd ?gap \<and> answer \<noteq> []")
    case True
    with t n \<open>nt = UserMsg u\<close> \<open>is_note u\<close> False show ?thesis
      by (auto simp: summarize_middle_def make_summary_message_def middle_replaced_def Let_def replace_range_bounds drop_range_bounds)
  next
    case nothing: False
    then have "summarize_middle S ms max_tokens keep prev model sid w = (nothing_compacted ms prev, w) \<or>
        summarize_middle S ms max_tokens keep prev model sid w = compact_by_truncation S ms max_tokens keep w'"
      using t by (auto simp: summarize_middle_def Let_def)
    with compact_by_truncation_shape show ?thesis
      by (auto simp: middle_replaced_def nothing_compacted_def)
  qed
qed (simp add: summarize_middle_def middle_replaced_def nothing_compacted_def drop_range_def Let_def)

section \<open>Entering a prompt\<close>

lemma middle_replaced_kept:
  "middle_replaced ms keep r \<Longrightarrow> 0 < cr_compacted_count r \<Longrightarrow>
     cr_compacted_count r = max 1 (length ms - keep) - 1 \<and>
     (\<exists>u. is_note u \<and> cr_messages r = hd ms # UserMsg u # drop (max 1 (length ms - keep)) ms)"
  by (auto simp: middle_replaced_def Let_def)

lemma compact_tool_results_messages:
  assumes "compact_tool_results S ms keep = Some r"
  obtains "cr_messages r = ms"
    "\<forall>m \<in> set (take (tail_start_for_recent_tool_results ms keep) ms). \<not> is_prunable (co_json S) m"
  | "prune_tool_results (co_json S) ms (tail_start_for_recent_tool_results ms keep) = Some (cr_messages r)"
proof -
  let ?t = "tail_start_for_recent_tool_results ms keep"
  from assms obtain n where n: "count_prunable_tool_results (co_json S) ms ?t = Some n"
    by (cases "count_prunable_tool_results (co_json S) ms ?t") (simp_all add: compact_tool_results_def Let_def)
  show thesis
  proof (cases "n = 0")
    case True
    with assms n have "cr_messages r = ms" by (auto simp: compact_tool_results_def nothing_compacted_def Let_def)
    moreover have "filter (is_prunable (co_json S)) (take ?t ms) = []"
      using n True by (simp add: count_prunable_tool_results_def split: if_splits)
    ultimately show thesis using that(1) by (simp add: filter_empty_conv)
  next
    case False
    with assms n have "prune_tool_results (co_json S) ms ?t = Some (cr_messages r)"
      by (auto simp: compact_tool_results_def Let_def)
    then show thesis by (rule that(2))
  qed
qed

text \<open>The messages that are compacted, after the tool results in them may have been summarised, and the budget of the tail.\<close>

definition may_be_pruned ::
  "('v, 't, 'w) compaction_services \<Rightarrow> ('v, 't) agent_message list \<Rightarrow> ('v, 't) agent_message list \<Rightarrow> bool" where
  "may_be_pruned S ms base \<longleftrightarrow> base = ms \<or> (\<exists>t. prune_tool_results (co_json S) ms t = Some base)"

definition tail_budget :: "nat \<Rightarrow> ('v, 't) history_agent \<Rightarrow> nat" where
  "tail_budget max_input A = usize_times_f64 max_input (as_tail_context_fraction (ha_compression A))"

lemma from_policy_settings_simps [simp]:
  "ac_tail_context_fraction (from_policy_settings s) = as_tail_context_fraction s"
  "ac_threshold (from_policy_settings s) = DEFAULT_AUTO_COMPACT_THRESHOLD"
  "ac_enabled (from_policy_settings s)"
  by (simp_all add: from_policy_settings_def Let_def)

lemma auto_compaction_result_shape:
  assumes "auto_compaction_result S max_input A w = Some (r, w')"
  obtains base where "may_be_pruned S (ha_messages A) base"
    and "middle_replaced base (length base - select_tail_by_budget S base (tail_budget max_input A)) r"
proof -
  note result = that
  have shape: thesis if "may_be_pruned S (ha_messages A) base"
    and "auto_compaction_result S max_input A w = Some (summarize_middle S base max_input
        (length base - select_tail_by_budget S base (tail_budget max_input A)) prev model sid w)" for base prev model sid
  proof -
    let ?m = "summarize_middle S base max_input (length base - select_tail_by_budget S base (tail_budget max_input A)) prev model sid w"
    from that(2) assms have "r = fst ?m" by (metis fst_conv option.inject)
    moreover have "middle_replaced base (length base - select_tail_by_budget S base (tail_budget max_input A)) (fst ?m)"
      by (rule summarize_middle_shape)
    ultimately show thesis using \<open>may_be_pruned S (ha_messages A) base\<close> by (intro result) simp_all
  qed
  show thesis
  proof (cases "ac_strategy (from_policy_settings (ha_compression A)) = Structured")
    case True
    let ?k = "tail_start_for_recent_tool_results (ha_messages A) RECENT_TOOL_RESULTS_TO_KEEP"
    obtain p where p: "compact_tool_results S (ha_messages A) ?k = Some p"
      using assms True by (cases "compact_tool_results S (ha_messages A) ?k")
        (simp_all add: auto_compaction_result_def compact_structured_def Let_def)
    have "may_be_pruned S (ha_messages A) (cr_messages p)"
      by (rule compact_tool_results_messages [OF p]) (auto simp: may_be_pruned_def)
    then show thesis
      by (rule shape) (simp add: auto_compaction_result_def compact_structured_def p True tail_budget_def Let_def)
  next
    case False
    have "may_be_pruned S (ha_messages A) (ha_messages A)" by (simp add: may_be_pruned_def)
    then show thesis
      by (rule shape) (simp add: auto_compaction_result_def compact_with_llm_def False tail_budget_def Let_def)
  qed
qed

lemma may_be_pruned_length: "may_be_pruned S ms base \<Longrightarrow> length base = length ms"
  by (auto simp: may_be_pruned_def prune_tool_results_iff)

lemma handle_cases:
  assumes "handle_auto_compaction S max_input A w = Some (A', evs, w')"
  shows "A' = A \<and> evs = [] \<or>
     (\<exists>r. auto_compaction_result S max_input A w = Some (r, w') \<and> (A', evs) = install_compaction r A \<and>
        usize_times_f64 max_input DEFAULT_AUTO_COMPACT_THRESHOLD < total_tokens S (ha_messages A))"
proof (cases "should_auto_compact S (ha_messages A) max_input (from_policy_settings (ha_compression A))")
  case (Some b)
  show ?thesis
  proof (cases b)
    case True
    obtain r w1 where r: "auto_compaction_result S max_input A w = Some (r, w1)"
      using assms Some True by (cases "auto_compaction_result S max_input A w") (auto simp: handle_auto_compaction_def)
    obtain B es where i: "install_compaction r A = (B, es)" by fastforce
    from assms Some True r i have "B = A'" "es = evs" "w1 = w'" by (simp_all add: handle_auto_compaction_def)
    with r i Some True show ?thesis by (auto simp: should_auto_compact_def split: if_splits)
  qed (use assms Some in \<open>simp add: handle_auto_compaction_def\<close>)
qed (use assms in \<open>simp add: handle_auto_compaction_def\<close>)

text \<open>
  What automatic compaction does to a history. Either the history stays as it is and no event is sent; or it was longer than
  the threshold of the window, and becomes its first message, one note, and the messages from place k on (at least the second), where tool results
  may have been replaced by their summaries before. The event says how many messages went, which is at least one. The messages
  from k on fit the share of the window that is set aside for recent ones, and k is the first place from which they do.
\<close>

lemma auto_compaction_keeps_ends:
  assumes "handle_auto_compaction S max_input A w = Some (A', evs, w')"
  shows "A' = A \<and> evs = [] \<or>
     (\<exists>base k u n saved. may_be_pruned S (ha_messages A) base \<and> is_note u \<and>
        k = select_tail_by_budget S base (tail_budget max_input A) \<and>
        usize_times_f64 max_input DEFAULT_AUTO_COMPACT_THRESHOLD < total_tokens S (ha_messages A) \<and>
        ha_messages A' = hd base # UserMsg u # drop (max 1 k) base \<and>
        hd evs = CeSessionCompaction n saved \<and> 0 < n \<and> n = max 1 k - 1 \<and>
        total_tokens S (drop k base) \<le> tail_budget max_input A \<and>
        (\<forall>j < k. 0 < tail_budget max_input A \<longrightarrow> tail_budget max_input A < total_tokens S (drop j base)))"
proof -
  let ?b = "tail_budget max_input A"
  from handle_cases [OF assms] consider "A' = A" "evs = []"
    | r where "auto_compaction_result S max_input A w = Some (r, w')" "(A', evs) = install_compaction r A"
      "usize_times_f64 max_input DEFAULT_AUTO_COMPACT_THRESHOLD < total_tokens S (ha_messages A)"
    by blast
  then show ?thesis
  proof cases
    case (2 r)
    show ?thesis
    proof (cases "0 < cr_compacted_count r")
      case True
      obtain base where base: "may_be_pruned S (ha_messages A) base"
        and r: "middle_replaced base (length base - select_tail_by_budget S base ?b) r"
        by (rule auto_compaction_result_shape [OF 2(1)])
      let ?k = "select_tail_by_budget S base ?b"
      have k: "length base - (length base - ?k) = ?k" by (simp add: select_tail_le)
      from middle_replaced_kept [OF r True] obtain u where u: "is_note u" "cr_messages r = hd base # UserMsg u # drop (max 1 ?k) base"
        and n: "cr_compacted_count r = max 1 ?k - 1" unfolding k by blast
      from 2(2) True have "ha_messages A' = cr_messages r" "hd evs = CeSessionCompaction (cr_compacted_count r) (cr_tokens_saved r)"
        by (simp_all add: install_compaction_def)
      with u n True base 2(3) select_tail_fits select_tail_longest show ?thesis by (intro disjI2 exI conjI) (assumption | simp | blast)+
    qed (use 2 in \<open>simp add: install_compaction_def\<close>)
  qed simp
qed

lemma pruned_last_user:
  assumes "may_be_pruned S (ms @ [UserMsg u]) base"
  obtains base' where "base = base' @ [UserMsg u]" "length base' = length ms"
proof -
  have "length base = length ms + 1" using may_be_pruned_length [OF assms] by simp
  moreover have "base ! length ms = UserMsg u"
    using assms by (auto simp: may_be_pruned_def prune_tool_results_iff prune_message_def dest!: spec [of _ "length ms"])
  ultimately show thesis using that [of "take (length ms) base"]
    by (metis Suc_eq_plus1 length_take lessI min.absorb4 take_Suc_conv_app_nth take_all order_refl)
qed

text \<open>
  A long prompt is lost before the model sees it. The prompt that was just entered is part of the history that is
  compacted, and nothing keeps it apart: when it alone exceeds the share of the window that is set aside for recent messages, then after entering
  it either nothing was compacted at all, or the whole history is its first message and one note; the prompt, and every message
  between, are gone.
\<close>

lemma auto_compaction_drops_prompt:
  assumes "enter_prompt S max_input prompt content A w = Some (A', evs, w')"
    and "ha_messages A \<noteq> []"
    and "entered = UserMsg \<lparr>um_id = fst (co_fresh_id S w), um_content = content, um_timestamp = co_now S w\<rparr>"
    and "tail_budget max_input A < estimate_message_tokens S entered"
  shows "ha_messages A' = ha_messages A @ [entered] \<or> (\<exists>first u. ha_messages A' = [first, UserMsg u] \<and> is_note u)"
proof -
  let ?u = "\<lparr>um_id = fst (co_fresh_id S w), um_content = content, um_timestamp = co_now S w\<rparr>"
  define B where "B = A\<lparr>ha_messages := ha_messages A @ [entered]\<rparr>"
  from assms(1,3) obtain evs' w1 where h: "handle_auto_compaction S max_input B w1 = Some (A', evs', w')"
    by (auto simp: enter_prompt_def append_user_message_def B_def Let_def split: prod.splits)
  from auto_compaction_keeps_ends [OF h] show ?thesis
  proof
    assume "A' = B \<and> evs' = []"
    then show ?thesis by (simp add: B_def)
  next
    assume "\<exists>base k u n saved. may_be_pruned S (ha_messages B) base \<and> is_note u \<and>
        k = select_tail_by_budget S base (tail_budget max_input B) \<and>
        usize_times_f64 max_input DEFAULT_AUTO_COMPACT_THRESHOLD < total_tokens S (ha_messages B) \<and>
        ha_messages A' = hd base # UserMsg u # drop (max 1 k) base \<and>
        hd evs' = CeSessionCompaction n saved \<and> 0 < n \<and> n = max 1 k - 1 \<and>
        total_tokens S (drop k base) \<le> tail_budget max_input B \<and>
        (\<forall>j < k. 0 < tail_budget max_input B \<longrightarrow> tail_budget max_input B < total_tokens S (drop j base))"
    then obtain base k u where "may_be_pruned S (ha_messages A @ [UserMsg ?u]) base" and "is_note u"
      and k: "k = select_tail_by_budget S base (tail_budget max_input B)"
      and A': "ha_messages A' = hd base # UserMsg u # drop (max 1 k) base"
      using assms(3) by (auto simp: B_def)
    moreover from this(1) obtain base' where "base = base' @ [entered]" by (rule pruned_last_user) (simp add: assms(3))
    moreover have "tail_budget max_input B = tail_budget max_input A" by (simp add: B_def tail_budget_def)
    ultimately show ?thesis using select_tail_none [OF assms(4), of base'] by simp
  qed
qed

section \<open>Recent tool results\<close>

lemma tool_result_positions: "length (filter (\<lambda>i. is_tool_result (ms ! i)) [0..<length ms]) = length (filter is_tool_result ms)"
  by (simp add: length_filter_conv_card cong: conj_cong)

text \<open>
  The structured compaction hands the place where the recent tool results start to a function that wants the number of recent ones to
  keep. With no more than three tool results that place is 0, so none of them is kept: each is replaced by its summary.
\<close>

lemma structured_keeps_no_recent_result:
  assumes "json_access_ok (co_json S)" and "length (filter is_tool_result ms) \<le> RECENT_TOOL_RESULTS_TO_KEEP"
    and r: "compact_tool_results S ms (tail_start_for_recent_tool_results ms RECENT_TOOL_RESULTS_TO_KEEP) = Some r"
    and "ToolResultMsg m \<in> set (cr_messages r)"
  shows "existing_summary (co_json S) m \<noteq> None"
proof -
  have start: "tail_start_for_recent_tool_results ms RECENT_TOOL_RESULTS_TO_KEEP = 0"
    using assms(2) by (simp add: tail_start_for_recent_tool_results_def tool_result_positions RECENT_TOOL_RESULTS_TO_KEEP_def Let_def)
  have all: "tail_start_for_recent_tool_results ms 0 = length ms" by (simp add: tail_start_for_recent_tool_results_def)
  from r show ?thesis unfolding start
  proof (rule compact_tool_results_messages, unfold all)
    assume "cr_messages r = ms" "\<forall>m \<in> set (take (length ms) ms). \<not> is_prunable (co_json S) m"
    with assms(4) show ?thesis by (auto simp: is_prunable_def)
  next
    assume p: "prune_tool_results (co_json S) ms (length ms) = Some (cr_messages r)"
    from assms(4) obtain i where "i < length (cr_messages r)" "cr_messages r ! i = ToolResultMsg m" by (auto simp: in_set_conv_nth)
    with p have i: "i < length ms" and pm: "prune_message (co_json S) ms (length ms) i = Some (ToolResultMsg m)"
      by (auto simp: prune_tool_results_iff)
    show ?thesis
    proof (rule prune_message_cases [OF pm])
      assume "ToolResultMsg m = ms ! i" "length ms \<le> i \<or> (\<forall>m. ms ! i \<noteq> ToolResultMsg m)"
      with i show ?thesis by (metis leD)
    qed (use assms(1) in auto)
  qed
qed

text \<open>A summary of more than 64 events is never used.\<close>

lemma long_summary_is_lost:
  assumes "\<And>request w. \<exists>evs. SUMMARY_CHANNEL_CAPACITY < length evs \<and> fst (co_complete S request w) = SummaryCompleted evs"
  shows "fst (request_summary S model sid prompt w) = []"
proof -
  obtain message w' where n: "user_note S prompt w = (message, w')" by fastforce
  let ?q = "\<lparr>cq_model = model, cq_messages = [message], cq_system_prompt = Some SUMMARY_SYSTEM_PROMPT,
            cq_max_tokens = Some SUMMARY_MAX_TOKENS, cq_temperature = Some SUMMARY_TEMPERATURE, cq_tools = [], cq_thinking = None,
            cq_no_cache = False, cq_cache_ttl = None,
            cq_extra_params = (if sid = [] then [] else [(''_session_id'', sid)])\<rparr>"
  obtain run w'' where c: "co_complete S ?q w' = (run, w'')" by fastforce
  with assms [of ?q w'] n show ?thesis by (auto simp: request_summary_def)
qed

section \<open>Taking an exchange back\<close>

lemma truncate_at_last_hit: "P x \<Longrightarrow> \<forall>y \<in> set ys. \<not> P y \<Longrightarrow> truncate_at_last P (xs @ x # ys) = xs"
proof -
  assume "P x" "\<forall>y \<in> set ys. \<not> P y"
  then have "dropWhile (\<lambda>x. \<not> P x) (rev ys @ x # rev xs) = x # rev xs" by (subst dropWhile_append2) simp_all
  then show ?thesis by (simp add: truncate_at_last_def)
qed

lemma split_last_hit: "\<exists>x \<in> set xs. P x \<Longrightarrow> \<exists>us x vs. xs = us @ x # vs \<and> P x \<and> (\<forall>y \<in> set vs. \<not> P y)"
  by (rule split_list_last_prop)

text \<open>
  Rewriting a prompt that got no answer takes back two exchanges. The last exchange starts at the last message of the user.
  When the model has answered it, the history is cut exactly there. When it has not (the turn was cancelled, or the provider failed)
  and the exchange before was answered, the history is cut at the start of that one, which nobody asked to take back.
\<close>

lemma pop_last_exchange_cuts:
  assumes "\<forall>m \<in> set before \<union> set since. \<not> is_user m" and "\<exists>m \<in> set before. is_assistant m"
    and "ha_messages A = earlier @ UserMsg u1 # before @ UserMsg u2 # since"
  shows "ha_messages (pop_last_exchange A) =
     (if \<exists>m \<in> set since. is_assistant m then earlier @ UserMsg u1 # before else earlier)"
proof (cases "\<exists>m \<in> set since. is_assistant m")
  case True
  then obtain s1 a s2 where s: "since = s1 @ a # s2" "is_assistant a" "\<forall>m \<in> set s2. \<not> is_assistant m"
    using split_last_hit [of since is_assistant] by blast
  have "truncate_at_last is_assistant (ha_messages A) = (earlier @ UserMsg u1 # before) @ UserMsg u2 # s1"
    using truncate_at_last_hit [of is_assistant a s2 "(earlier @ UserMsg u1 # before) @ UserMsg u2 # s1"] s assms(3) by simp
  moreover have "\<forall>m \<in> set s1. \<not> is_user m" using s(1) assms(1) by simp
  ultimately show ?thesis using True truncate_at_last_hit [of is_user "UserMsg u2" s1 "earlier @ UserMsg u1 # before"]
    by (simp add: pop_last_exchange_def)
next
  case False
  from assms(2) obtain b1 a b2 where b: "before = b1 @ a # b2" "is_assistant a" "\<forall>m \<in> set b2. \<not> is_assistant m"
    using split_last_hit [of before is_assistant] by blast
  have "truncate_at_last is_assistant (ha_messages A) = earlier @ UserMsg u1 # b1"
    using truncate_at_last_hit [of is_assistant a "b2 @ UserMsg u2 # since" "earlier @ UserMsg u1 # b1"] b False assms(3) by auto
  moreover have "\<forall>m \<in> set b1. \<not> is_user m" using b(1) assms(1) by simp
  ultimately show ?thesis using False truncate_at_last_hit [of is_user "UserMsg u1" b1 earlier]
    by (simp add: pop_last_exchange_def)
qed

section \<open>Fitting the window\<close>

lemma take_within_fits: "sum_list (map cost (take_within cost xs b)) \<le> b"
  by (induction cost xs b rule: take_within.induct) auto

lemma truncate_messages_fits: "total_tokens S (truncate_messages S ms max_tokens system_tokens) \<le> max_tokens - system_tokens"
proof -
  have "total_tokens S (rev (take_within (estimate_message_tokens S) xs b)) \<le> b" for xs b
    using take_within_fits [of "estimate_message_tokens S" xs b] by (simp add: rev_map [symmetric])
  from this [of "rev (tl ms)" "max_tokens - system_tokens - estimate_message_tokens S (hd ms)"]
    this [of "rev (tl ms)" "max_tokens - system_tokens"]
  show ?thesis by (auto simp: truncate_messages_def Let_def)
qed

section \<open>An example\<close>

text \<open>A window of ten tokens, and a prompt of eleven. The message of the user is its text, and the request for a summary fails.\<close>

definition sample_services :: "(sample_json, unit, nat) compaction_services" where
  "sample_services = \<lparr>co_json = sample_access,
     co_message_json = (\<lambda>m. case m of UserMsg u \<Rightarrow> content_texts (um_content u) | _ \<Rightarrow> []),
     co_complete = (\<lambda>_ w. (SummaryFailed, w)), co_now = (\<lambda>_. ()), co_fresh_id = (\<lambda>n. (show_nat n, Suc n))\<rparr>"

definition sample_user :: "string \<Rightarrow> string \<Rightarrow> (sample_json, unit) user_message" where
  "sample_user i t = \<lparr>um_id = i, um_content = [ContentText t], um_timestamp = ()\<rparr>"

definition sample_agent :: "(sample_json, unit) history_agent" where
  "sample_agent = \<lparr>ha_messages = [UserMsg (sample_user ''a'' ''hi''), sample_call, sample_result None ''hello''],
     ha_latest_compaction_summary = None, ha_model = ''m'', ha_session_id = ''s'', ha_compression = auto_compact_settings_default\<rparr>"

definition long_prompt :: string where "long_prompt = ''please look at the file again, and tell me then what is in it.''"

lemma bit_length_numeral [simp]: "bit_length 0 = 0" "bit_length (numeral n) = Suc (bit_length (numeral n div 2))" "bit_length (Suc 0) = 1"
  by (subst bit_length.simps, simp)+

lemma sample_tail_budget: "usize_times_f64 10 DEFAULT_TAIL_CONTEXT_FRACTION = 4"
proof -
  have "bit_length 10 = 4" "bit_length 72057594037927940 = 57" by simp_all
  then show ?thesis by (simp add: usize_times_f64_def DEFAULT_TAIL_CONTEXT_FRACTION_def f64_round_def USIZE_MAX_def Let_def)
qed

lemma sample_threshold: "usize_times_f64 10 DEFAULT_AUTO_COMPACT_THRESHOLD = 8"
proof -
  have "bit_length 10 = 4" "bit_length 72057594037927940 = 57" by simp_all
  then show ?thesis by (simp add: usize_times_f64_def DEFAULT_AUTO_COMPACT_THRESHOLD_def f64_round_def USIZE_MAX_def Let_def)
qed

abbreviation sample_messages :: "(sample_json, unit) agent_message list" where
  "sample_messages \<equiv> [UserMsg (sample_user ''a'' ''hi''), sample_call, sample_result None ''hello'', UserMsg (sample_user ''7'' long_prompt)]"

lemma sample_tokens:
  "estimate_message_tokens sample_services (UserMsg (sample_user ''a'' ''hi'')) = 0"
  "estimate_message_tokens sample_services sample_call = 0"
  "estimate_message_tokens sample_services (sample_result None ''hello'') = 0"
  "estimate_message_tokens sample_services (UserMsg (sample_user ''7'' long_prompt)) = 15"
  by code_simp+

lemma sample_unit_interval: "f64_in_unit_interval DEFAULT_AUTO_COMPACT_THRESHOLD"
  by code_simp

lemma sample_summary_fails: "request_summary sample_services model sid prompt n = ([], Suc n)"
  by (simp add: request_summary_def user_note_def sample_services_def)

lemma sample_compacted:
  "compact_with_llm sample_services sample_messages 10 0 m sid n =
     (\<lparr>cr_messages = [UserMsg (sample_user ''a'' ''hi''), UserMsg (sample_user (show_nat (Suc n)) (truncation_marker 3))],
       cr_compacted_count = 3, cr_tokens_saved = 15, cr_summary = None\<rparr>, Suc (Suc n))"
  by (simp add: compact_with_llm_def summarize_middle_def sample_summary_fails compact_by_truncation_def sample_tokens drop_range_def
      KEEP_FIRST_MESSAGE_COUNT_def dropped_tokens_def replace_range_def user_note_def sample_services_def [THEN arg_cong [of _ _ co_fresh_id]]
      sample_services_def [THEN arg_cong [of _ _ co_now]] sample_user_def
      sample_tokens [unfolded sample_user_def] numeral_3_eq_3 Let_def)

text \<open>The prompt is gone: the model will see a greeting and a note.\<close>

lemma sample_prompt_dropped:
  "enter_prompt sample_services 10 long_prompt [ContentText long_prompt] sample_agent 7 =
     Some (sample_agent\<lparr>ha_messages := [UserMsg (sample_user ''a'' ''hi''), UserMsg (sample_user ''9'' (truncation_marker 3))]\<rparr>,
       [CeUserInput long_prompt 3 (), CeAgentStart, CeSessionCompaction 3 15], 10)"
proof -
  let ?A = "sample_agent\<lparr>ha_messages := sample_messages\<rparr>"
  have digits: "show_nat 7 = ''7''" "show_nat 9 = ''9''" by code_simp+
  have start: "append_user_message sample_services long_prompt [ContentText long_prompt] sample_agent 7 =
      (?A, [CeUserInput long_prompt 3 ()], 8)"
    by (simp add: append_user_message_def sample_services_def sample_agent_def sample_user_def digits)
  have "should_auto_compact sample_services sample_messages 10 (from_policy_settings (ha_compression ?A)) = Some True"
    by (simp add: should_auto_compact_def sample_unit_interval sample_threshold sample_tokens)
  moreover have "auto_compaction_result sample_services 10 ?A 8 = Some (compact_with_llm sample_services sample_messages 10 0 ''m'' ''s'' 8)"
    by (simp add: auto_compaction_result_def from_policy_settings_def sample_agent_def auto_compact_settings_default_def sample_tail_budget
        select_tail_by_budget_def sample_tokens Let_def)
  ultimately show ?thesis
    by (simp add: enter_prompt_def start [unfolded sample_agent_def] handle_auto_compaction_def sample_compacted install_compaction_def sample_agent_def
        digits Let_def)
qed

end
