(* ===== verification/Spec2Isabelle.thy ===== *)
theory Spec2Isabelle
  imports Core Engine_Host Session_Ledger Capability Frame Credential_Pool Rate_Limits Session_Tree
    Session_Merge Tool_Host Process_Job_Events Process_Job_Lifecycle Process_Job_Profiles Controller_Inv Compaction
begin

text \<open>
  A verification development for clankers, a terminal coding agent written in Rust.

  \<^bold>\<open>The program.\<close> A user, or a daemon client speaking the frame protocol, sends a prompt. The session
  controller asks the prompt-lifecycle core what to do with it. The agent runs a turn: the engine,
  a pure state machine, emits effects (ask the model, run a tool, wait for a retry, emit an event)
  and the engine host executes each of them and feeds the result back. Answers of the model arrive
  as a stream of events that is folded into content blocks. Requests go through a router that picks
  a credential from a pool and skips providers in cooldown. Sessions are stored as trees of messages in
  files, can be opened again, branched, rewound and merged, and replayed from a ledger. Remote users are authorised by signed capability tokens. Long
  running commands become process jobs, whose records outlive the daemon.

  \<^bold>\<open>Theories.\<close> Paths are below \<^verbatim>\<open>src/crates\<close>.

    \<^item> \<^verbatim>\<open>Prelude\<close>: machine words, saturating addition, durations, and the string functions of the Rust
      standard library that the code uses (trimming, splitting, searching), with their laws.
    \<^item> \<^verbatim>\<open>Machine\<close>: runs of a reducer over a list of inputs, reachable states, and two locales.
      \<open>machine\<close> gives invariants of runs and reachable states; \<open>id_machine\<close> gives that a reducer which
      mints ids from a counter never repeats one. Both are interpreted on the core and on the engine.
    \<^item> \<^verbatim>\<open>Ordered_Map\<close>: the ordered map of the standard library as a sorted association list, its contract
      as the locale \<open>ordered_map\<close>, and its interpretation.
    \<^item> \<^verbatim>\<open>Core\<close>: \<^verbatim>\<open>clankers-core/src/types.rs\<close> and \<^verbatim>\<open>reducer.rs\<close>. The record \<open>core_state\<close> has the fields of
      \<^verbatim>\<open>CoreState\<close>, there is one \<open>reduce_\<close> definition for each handler, and \<open>core_reduce\<close> is \<^verbatim>\<open>reduce\<close>. Effect ids
      are 64-bit words that wrap. Shown: acceptance of every input is decided by explicit conditions
      and a rejection changes nothing; the state invariant; ids are distinct; a completed prompt is
      accepted once; the core refines an abstract follow-up protocol; one dispatch after each prompt.
    \<^item> \<^verbatim>\<open>Message\<close>: the content types of \<^verbatim>\<open>clanker-message\<close> that a turn works with.
    \<^item> \<^verbatim>\<open>Engine\<close>: \<^verbatim>\<open>clankers-engine/src/lib.rs\<close>, one definition for each \<^verbatim>\<open>apply_\<close> function, \<open>engine_reduce\<close> for \<^verbatim>\<open>reduce\<close>, and
      the same transitions as the inductive relation \<open>engine_step\<close>. Shown: the invariant of reachable
      states, the decision of every input, the request budget, that a turn ends once, that request
      ids are distinct, that tool results enter the history in call order whatever order they arrive
      in, and that repeated call ids stall a turn.
    \<^item> \<^verbatim>\<open>Stream_Fold\<close>: \<^verbatim>\<open>clankers-engine-host/src/stream.rs\<close>. The accumulator is a record over an ordered map of
      blocks. Shown: only the order of events within one block matters, the accepted streams are
      exactly those of a grammar, and what a finished stream contains.
    \<^item> \<^verbatim>\<open>Engine_Host\<close>: \<^verbatim>\<open>clankers-engine-host/src/lib.rs\<close> and \<^verbatim>\<open>runtime.rs\<close>. The adapters of a turn are functions that
      take and return a world of any type, so every interaction with a model, a tool, a clock, a
      cancellation source or an observer is covered. Shown: a turn ends by itself below the step
      limit, which turns show their end to the event sink, and what cancellation during several
      tool calls does.
    \<^item> \<^verbatim>\<open>Session_Ledger\<close>: \<^verbatim>\<open>clankers-engine-host/src/session_ledger.rs\<close>; replay is exact and fails closed.
    \<^item> \<^verbatim>\<open>Auth\<close>: \<^verbatim>\<open>clanker-auth/src\<close>. Signatures, hashing and the wire encodings are fields of a record that
      every definition takes; what the proofs need of them are hypotheses of the theorems. Shown: the
      guarantees of the builder, soundness of verification up to a trusted root, acceptance of issued
      credentials, revocation, that a signature covers the whole token, and that verification does
      not compare a child with its parent. The locale \<open>cap_trait\<close> is the trait \<^verbatim>\<open>Cap\<close>.
    \<^item> \<^verbatim>\<open>Capability\<close>: \<^verbatim>\<open>clankers-ucan/src/capability.rs\<close>. Shown: the matcher computes glob matching, containment
      prevents escalation for all but some shell patterns (with the exception proved), and so issued
      credentials never exceed their root, by interpreting \<open>cap_trait\<close>.
    \<^item> \<^verbatim>\<open>Frame\<close>: \<^verbatim>\<open>clankers-protocol/src/frame.rs\<close>; sequences of frames survive the transport and a truncated
      or oversized frame is an error.
    \<^item> \<^verbatim>\<open>Credential_Pool\<close> and \<^verbatim>\<open>Rate_Limits\<close>: \<^verbatim>\<open>clanker-router/src/credential_pool/mod.rs\<close> and \<^verbatim>\<open>db/rate_limits.rs\<close>. The
      clock is an argument of each operation. Shown: selection is sound and complete for every
      strategy, round-robin is fair, and when a failing credential or provider is used again.
    \<^item> \<^verbatim>\<open>Session_Tree\<close>: \<^verbatim>\<open>clankers-session/src/tree\<close>. Shown: walks are parent paths, the search for leaves
      terminates with exactly the leaves, and how two branches are split at their divergence point.
    \<^item> \<^verbatim>\<open>Transcript\<close>: the messages of \<^verbatim>\<open>clanker-message/src/transcript.rs\<close> and their ids.
    \<^item> \<^verbatim>\<open>Automerge_Store\<close>: \<^verbatim>\<open>clankers-session/src/automerge_store.rs\<close>. The document library and the encodings are
      records of functions with the laws \<open>automerge_ok\<close> and \<open>codec_ok\<close>. \<open>session_doc\<close> is what a document holds;
      one lemma for each operation shows that it is the obvious operation on that.
    \<^item> \<^verbatim>\<open>Session_Files\<close>: \<^verbatim>\<open>store.rs\<close> and \<^verbatim>\<open>session_format.rs\<close> of the same crate: names, lists, both file formats,
      migration, import and purging over a file system record. Shown: what is written to a session file
      reads back, and that opening a file of the old format overwrites the newer file beside it.
    \<^item> \<^verbatim>\<open>Session_Manager\<close> and \<^verbatim>\<open>Session_Merge\<close>: \<^verbatim>\<open>lib.rs\<close>, \<^verbatim>\<open>context.rs\<close> and \<^verbatim>\<open>merge.rs\<close>. \<open>manager_holds\<close> relates a manager
      to what its document holds, and every operation keeps it. Shown: a conversation appended message by
      message is the context of the model, also after the file is opened again; rewinding and appending
      start a branch and lose none; a selective merge copies exactly the selected messages; a cherry-pick
      collects the messages below the picked one and ends; and that a copy whose id is taken is lost.
    \<^item> \<^verbatim>\<open>Agent_Stream\<close>, \<^verbatim>\<open>Agent_Tools\<close>, \<^verbatim>\<open>Agent_Turn\<close>: a turn of the agent, \<^verbatim>\<open>clankers-agent/src/turn\<close>, with the path policy
      of \<^verbatim>\<open>clankers-tool-host\<close>. The adapters are those of \<open>Engine_Host\<close> made concrete: the world has the transcript,
      the events sent, and what provider, tools, gates and hooks act on. The tools are the locale \<open>tool_port\<close>,
      interpreted on the executor of the controller. Shown: the two readers of a model stream agree; a call
      that fails any check has an outcome that does not depend on the tool; after a turn the history says what
      the engine worked with; also when Steel runs it, and that a denied Steel turn loses the history; and the gap of the path policy.
    \<^item> \<^verbatim>\<open>Tool_Summaries\<close>, \<^verbatim>\<open>Compaction\<close>: \<^verbatim>\<open>clankers-agent/src/compaction\<close> and \<^verbatim>\<open>context.rs\<close>: the one-line summaries of old tool
      results, and the ways to shorten a history, up to the automatic compaction when a prompt is entered (\<^verbatim>\<open>lib.rs\<close>). Fractions of
      the window are computed on the bits of the doubles. Shown: pruning keeps the conversation; what automatic compaction
      keeps, and that it can drop the prompt that was just entered; which exchanges are taken back.
    \<^item> \<^verbatim>\<open>Text\<close>: more of the string functions of the standard library: characters, lines, case, search, paths.
    \<^item> \<^verbatim>\<open>Tool_Access\<close>, \<^verbatim>\<open>Controller\<close>, \<^verbatim>\<open>Controller_Commands\<close>, \<^verbatim>\<open>Controller_Inv\<close>: \<^verbatim>\<open>clankers-controller/src\<close>. The record
      \<open>session_controller\<close> has the fields of \<^verbatim>\<open>SessionController\<close> that decide anything, among them the core
      state and the controller's own copies of parts of it. \<open>Controller\<close> interprets the core's effects and
      holds loops, prompts and follow-ups; \<open>Controller_Commands\<close> holds every command, slash command and
      agent event; the panics of the code are \<open>None\<close>. The loop engine and the agent are records of
      functions. Shown: no handler panics; in every reachable controller the copies agree with the core
      and the loop engine has a loop exactly when the core has; a prompt always settles; a dispatched
      follow-up closes its cycle, with the one exception proved; an unauthorized command changes nothing;
      clamped capabilities never allow more than their ceiling.
    \<^item> \<^verbatim>\<open>Tool_Host\<close>: \<^verbatim>\<open>clankers-tool-host/src/lib.rs\<close>. Shown: the text and metadata of every request, result and
      progress event never hold a secret marker and stay short; the truncation of tool output keeps the longest allowed prefix.
    \<^item> \<^verbatim>\<open>Process_Jobs\<close>, \<^verbatim>\<open>Process_Job_Events\<close>, \<^verbatim>\<open>Process_Job_Lifecycle\<close>, \<^verbatim>\<open>Process_Job_Profiles\<close>:
      \<^verbatim>\<open>clankers-tool-host/src/process_jobs.rs\<close>, with the reconciliation and the notification delivery of
      \<^verbatim>\<open>clankers-runtime/src/process_jobs.rs\<close>. Shown: log files stay in the directory of their job;
      notifications are redacted and rate limited; the id of a job binds its identity; reconciliation after
      a restart takes over a job only on positive evidence and accounts for each job; the job list, the
      retention of records, and the selection and the limits of project profiles.
    \<^item> \<^verbatim>\<open>Effect_Vocabulary\<close>: the abilities, the resource names and the path normalisation of
      \<^verbatim>\<open>clankers-ucan/src/effect_vocabulary.rs\<close>. Two percent codes of the program (here and in the gate) interpret
      the locale \<open>percent_code\<close>. Shown: different resources have different names.
    \<^item> \<^verbatim>\<open>Public_Credential\<close>, \<^verbatim>\<open>Public_Store\<close>, \<^verbatim>\<open>Basalt_Authority\<close>: the public credentials of \<^verbatim>\<open>clankers-ucan/src\<close> (envelope, issuer,
      search for a trusted root), the store of revocations and replay keys, and the verifier that joins
      them, with the \<^verbatim>\<open>AuthLayer\<close> of the daemon. The crates \<^verbatim>\<open>ucan\<close> and \<^verbatim>\<open>basalt\<close> and the database are records
      of functions. Shown: the search finds exactly the chains that end in a trusted root; what is checked
      of an admitted credential; that a revoked or replayed credential is denied, also after failing
      writes in between; that the daemon admits credentials a client issued to itself.
    \<^item> \<^verbatim>\<open>Capability_Gate\<close>: \<^verbatim>\<open>src/capability_gate.rs\<close> and the gates of a session (\<^verbatim>\<open>session_builder.rs\<close>). Shown: a merged
      session gate allows only what both its parts allow; the public gate lets a call run only when each
      of its requests is admitted, and asks only for what the policy lists; which file requests stay in
      their directory, and which leave it.

  \<^bold>\<open>Bounds and fuel.\<close> The host loop has the 4096 steps of the code as fuel; a turn with a budget of
  \<open>n\<close> model requests needs at most \<open>6 n + 1\<close>, and the theorem on termination says so. Delegation chains
  are followed up to depth 8, which is the termination measure of verification. Walks of the session
  tree have the 50000 steps of the code. The search for leaves has no bound in the code; the model
  gives it as many steps as there are entries, and it is proved that they suffice. The walk of a
  cherry-pick is a partial function into options, proved to return. The search for a
  trusted root has no bound either; it visits each credential once, and the number of credentials not
  yet visited is its fuel. The trimming
  functions recurse with the length of the string as fuel, which each step shortens.

  \<^bold>\<open>Not modelled.\<close> The terminal interface, the daemon and its sockets, providers and OAuth flows, plugins
  and tools, and configuration are input and output or third-party code; of the sessions, the side ledger
  of typed facts and the export. Of the controller, its transport and the audit, metrics, hook and persistence observers. Of the
  process jobs, the stores and the backends that run processes. Of the agent, the prompt assembly and the hooks around a
  turn, the Steel runtime, and the runner of legacy tools, whose results are a parameter. Of the public credentials, the admission
  of effects at run time with its external caveats; the messages of a failing database are one error.
  Logging and debug assertions have no effect on results and are left out. Locks are taken to be unpoisoned, and each operation on a shared
  object is one step.

  \<^bold>\<open>Plan.\<close> Next are the admission of effects at run time with its caveats, cost accounting and model
  selection in the router, and the revocation store behind the token verifier.
\<close>

end
